(* ===== verification/Prelude.thy ===== *)
theory Prelude
  imports Main "HOL-Library.Word" "HOL-Library.Monad_Syntax"
begin

text \<open>
  Shared vocabulary of the catpilot development: the machine integer types, the
  error numbers, C arrays with their bounds (an access outside an array is
  undefined behaviour and is the value None), the fact collections and the
  generic lemmas on lists and words that the component theories use.
\<close>

unbundle bit_operations_syntax

section \<open>Machine integers\<close>

type_synonym u8 = "8 word"
type_synonym u16 = "16 word"
type_synonym u32 = "32 word"
type_synonym u64 = "64 word"

text \<open>The error numbers the code stores in errno or returns; \<open>EOK\<close> is 0.\<close>

datatype errno =
    EOK | EPERM | ENOENT | ESRCH | EINTR | EIO | ENXIO | EBADF | EAGAIN | ENOMEM | EACCES
  | EBUSY | EEXIST | EXDEV | ENODEV | ENOTDIR | EISDIR | EINVAL | EMFILE | EFBIG | ENOSPC
  | ESPIPE | EROFS | EPROTO | ENAMETOOLONG | EMSGSIZE | ETIMEDOUT | EOVERFLOW | ENOSYS
  | ETIME | ENODATA | EBADMSG | ENOTSUP | EFAULT

type_synonym 'a res = "errno + 'a"

section \<open>Fact collections\<close>

named_theorems mem_simps \<open>rewriting of C array accesses and block copies\<close>
named_theorems len_simps \<open>lengths of the arrays the operations return\<close>
named_theorems inv_intros \<open>preservation of the component invariants\<close>

section \<open>C arrays\<close>

definition arr_get :: "'a list \<Rightarrow> nat \<Rightarrow> 'a option" where
  "arr_get a i = (if i < length a then Some (a ! i) else None)"

definition arr_set :: "'a list \<Rightarrow> nat \<Rightarrow> 'a \<Rightarrow> 'a list option" where
  "arr_set a i v = (if i < length a then Some (a[i := v]) else None)"

text \<open>\<open>memcpy dst d src s n\<close> copies \<open>n\<close> cells from \<open>src + s\<close> to \<open>dst + d\<close>.\<close>

definition memcpy :: "'a list \<Rightarrow> nat \<Rightarrow> 'a list \<Rightarrow> nat \<Rightarrow> nat \<Rightarrow> 'a list option" where
  "memcpy dst d src s n =
     (if d + n \<le> length dst \<and> s + n \<le> length src
      then Some (take d dst @ take n (drop s src) @ drop (d + n) dst) else None)"

lemma arr_get_Some [mem_simps]: "i < length a \<Longrightarrow> arr_get a i = Some (a ! i)"
  by (simp add: arr_get_def)

lemma arr_set_Some [mem_simps]: "i < length a \<Longrightarrow> arr_set a i v = Some (a[i := v])"
  by (simp add: arr_set_def)

lemma nth_update_if: "xs[i := v] ! j = (if i = j \<and> j < length xs then v else xs ! j)"
  by (cases "i < length xs") (auto simp: nth_list_update list_update_beyond)

lemma arr_get_eq_Some: "arr_get a i = Some x \<longleftrightarrow> i < length a \<and> x = a ! i"
  by (auto simp: arr_get_def)

lemma arr_set_eq_Some: "arr_set a i v = Some b \<longleftrightarrow> i < length a \<and> b = a[i := v]"
  by (auto simp: arr_set_def)

lemma arr_get_eq_None: "arr_get a i = None \<longleftrightarrow> length a \<le> i"
  by (auto simp: arr_get_def)

lemma arr_set_eq_None: "arr_set a i v = None \<longleftrightarrow> length a \<le> i"
  by (auto simp: arr_set_def)

lemma memcpy_Some [mem_simps]:
  "d + n \<le> length dst \<Longrightarrow> s + n \<le> length src \<Longrightarrow>
   memcpy dst d src s n = Some (take d dst @ take n (drop s src) @ drop (d + n) dst)"
  by (simp add: memcpy_def)

lemma memcpy_eq_Some:
  "memcpy dst d src s n = Some r \<longleftrightarrow>
   d + n \<le> length dst \<and> s + n \<le> length src \<and>
   r = take d dst @ take n (drop s src) @ drop (d + n) dst"
  by (auto simp: memcpy_def)

lemma memcpy_length [len_simps]:
  "memcpy dst d src s n = Some r \<Longrightarrow> length r = length dst"
  by (auto simp: memcpy_eq_Some)

lemma memcpy_nth:
  assumes "memcpy dst d src s n = Some r" and "i < length dst"
  shows "r ! i = (if d \<le> i \<and> i < d + n then src ! (s + (i - d)) else dst ! i)"
  using assms by (auto simp: memcpy_eq_Some nth_append min_absorb1 min_absorb2)

lemma memcpy_zero [simp]: "d \<le> length dst \<Longrightarrow> s \<le> length src \<Longrightarrow> memcpy dst d src s 0 = Some dst"
  by (simp add: memcpy_def)

section \<open>Word arithmetic without overflow\<close>

lemma unat_minus_le: "b \<le> a \<Longrightarrow> unat (a - b) = unat a - unat b" for a b :: "'a::len word"
  by (rule unat_sub)

lemma unat_plus_less:
  "unat a + unat b < 2 ^ LENGTH('a) \<Longrightarrow> unat (a + b) = unat a + unat b" for a b :: "'a::len word"
  by (simp add: unat_word_ariths)

lemma unat_min: "unat (min a b) = min (unat a) (unat b)" for a b :: "'a::len word"
  by (simp add: min_def word_le_nat_alt)

lemma unat_word_of_nat_less: "n < 2 ^ LENGTH('a) \<Longrightarrow> unat (word_of_nat n :: 'a::len word) = n"
  by (simp add: unat_of_nat)

lemma unat_lt_256 [simp]: "unat (b :: u8) < 256"
  using unsigned_less [of b] by simp

lemma unat_lt_65536 [simp]: "unat (b :: u16) < 65536"
  using unsigned_less [of b] by simp

lemma unat_ucast_up:
  "LENGTH('a) \<le> LENGTH('b) \<Longrightarrow> unat (ucast a :: 'b::len word) = unat a" for a :: "'a::len word"
  by (simp add: unsigned_ucast_eq take_bit_nat_eq_self_iff less_le_trans [OF unsigned_less] power_increasing)

lemma unat_u8_u16 [simp]: "unat (ucast (b :: u8) :: u16) = unat b"
  by (rule unat_ucast_up) simp

lemma unat_u8_u32 [simp]: "unat (ucast (b :: u8) :: u32) = unat b"
  by (rule unat_ucast_up) simp

lemma unat_u16_u32 [simp]: "unat (ucast (b :: u16) :: u32) = unat b"
  by (rule unat_ucast_up) simp

lemma word_eq_by_unat: "unat a = unat b \<Longrightarrow> a = b" for a b :: "'a::len word"
  by (rule word_eq_iff_unsigned [THEN iffD2])

lemma sint_of_small: "unat n < 2 ^ 31 \<Longrightarrow> sint n = int (unat n)" for n :: u32
proof -
  assume *: "unat n < 2 ^ 31"
  have "uint n < 2 ^ 31"
    using * by (simp only: uint_nat) (metis of_nat_less_iff of_nat_numeral of_nat_power)
  then have "signed_take_bit 31 (uint n) = uint n"
    using order_trans [of "- (2 ^ 31)" 0 "uint n"] by (intro signed_take_bit_int_eq_self) simp_all
  then show ?thesis
    by (simp add: sint_uint)
qed

lemma xor_left_inject: "x XOR a = x XOR b \<longleftrightarrow> a = b" for x :: "'a::len word"
  by (metis xor.assoc xor.left_neutral xor_self_eq)

lemma xor_right_inject: "a XOR x = b XOR x \<longleftrightarrow> a = b" for x :: "'a::len word"
  by (simp add: xor.commute [of _ x] xor_left_inject)

end
