(* ===== verification/Bits.thy ===== *)
theory Bits
  imports Prelude
begin

text \<open>
  The bit helpers of os/freertos/services/misc/bit.c: assembling 16 bit values
  from their bytes, and converting between a bit number and its mask.
\<close>

section \<open>Definitions\<close>

definition msb_lsb_16 :: "u8 \<Rightarrow> u8 \<Rightarrow> u16" where
  "msb_lsb_16 msb lsb = push_bit 8 (ucast msb) OR ucast lsb"

text \<open>The signed variant returns the same bits, read as two's complement.\<close>

definition s_msb_lsb_16 :: "u8 \<Rightarrow> u8 \<Rightarrow> int" where
  "s_msb_lsb_16 msb lsb = sint (push_bit 8 (ucast msb) OR ucast lsb :: u16)"

fun first_bit_from :: "nat \<Rightarrow> nat \<Rightarrow> u32 \<Rightarrow> u32" where
  "first_bit_from 0 i reg = 0"
| "first_bit_from (Suc k) i reg = (if bit reg i then word_of_nat i else first_bit_from k (Suc i) reg)"

definition get_num_from_mask :: "u32 \<Rightarrow> u32" where
  "get_num_from_mask reg = first_bit_from 32 0 reg"

definition get_mask_from_num :: "u32 \<Rightarrow> u32" where
  "get_mask_from_num num = push_bit (unat num) 1"

section \<open>Bytes of a 16 bit value\<close>

lemma msb_lsb_16_bit:
  "bit (msb_lsb_16 m l) n = (if n < 8 then bit l n else n < 16 \<and> bit m (n - 8))"
  by (auto simp: msb_lsb_16_def bit_simps dest: bit_imp_le_length)

lemma msb_lsb_16_low [simp]: "ucast (msb_lsb_16 m l) = l"
  by (rule bit_word_eqI) (simp add: bit_simps msb_lsb_16_bit)

lemma msb_lsb_16_high [simp]: "ucast (drop_bit 8 (msb_lsb_16 m l)) = m"
  by (rule bit_word_eqI) (simp add: bit_simps msb_lsb_16_bit)

lemma msb_lsb_16_of_bytes [simp]: "msb_lsb_16 (ucast (drop_bit 8 w)) (ucast w) = w"
  by (rule bit_word_eqI) (auto simp: bit_simps msb_lsb_16_bit)

lemma msb_lsb_16_unat: "unat (msb_lsb_16 m l) = 256 * unat m + unat l"
proof -
  have disj: "push_bit 8 (ucast m :: u16) AND ucast l = 0"
    by (rule bit_word_eqI) (auto simp: bit_simps dest: bit_imp_le_length)
  have "msb_lsb_16 m l = push_bit 8 (ucast m) + ucast l"
    unfolding msb_lsb_16_def by (rule disjunctive_add_eq_or [symmetric]) (rule disj)
  moreover have "unat (push_bit 8 (ucast m :: u16)) = 256 * unat m"
    by (simp add: push_bit_eq_mult unat_word_ariths)
  moreover have "256 * unat m + unat l < 65536"
    using unat_lt_256 [of m] unat_lt_256 [of l] by linarith
  ultimately show ?thesis
    by (simp add: unat_word_ariths)
qed

lemma msb_lsb_16_inject: "msb_lsb_16 m l = msb_lsb_16 m' l' \<longleftrightarrow> m = m' \<and> l = l'"
  by (metis msb_lsb_16_high msb_lsb_16_low)

section \<open>Bit numbers and masks\<close>

lemma first_bit_from_least:
  assumes "j < i + k" and "i \<le> j" and "bit reg j" and "\<forall>m. i \<le> m \<and> m < j \<longrightarrow> \<not> bit reg m"
  shows "first_bit_from k i reg = word_of_nat j"
  using assms
proof (induction k arbitrary: i)
  case (Suc k)
  then show ?case
    by (cases "i = j") auto
qed simp

lemma first_bit_from_none:
  "(\<forall>m. i \<le> m \<and> m < i + k \<longrightarrow> \<not> bit reg m) \<Longrightarrow> first_bit_from k i reg = 0"
  by (induction k arbitrary: i) auto

end
