(* ===== verification/RingBuf.thy ===== *)
theory RingBuf
  imports Bits
begin

text \<open>
  The byte ring buffer of os/freertos/services/misc/ring_buf.c. The record holds
  the memory of the buffer and the two pointers as offsets from \<open>start_ptr\<close>; a
  copy outside that memory is None. One loop iteration of the writer and the
  critical section of the reader are functions; the threads, their semaphores and
  their interleaving are a step relation.
\<close>

section \<open>State and operations\<close>

definition RINGBUFFER_MAX_SIZE :: u16 where
  "RINGBUFFER_MAX_SIZE = 2048"

text \<open>\<open>start_ptr\<close> is None when the allocation of the memory failed.\<close>

record ring_buf =
  write_ptr :: nat
  read_ptr :: nat
  start_ptr :: "u8 list option"
  rb_size :: u16
  rb_count :: u16
  cont_mutex :: bool
  rw_mutex :: bool
  r_sem :: bool
  w_sem :: bool

text \<open>The allocations of \<open>ring_buf_init\<close>, in order: the structure, the two
  mutexes, the two semaphores, the memory. \<open>alloc i\<close> tells whether the i-th succeeds.\<close>

definition ring_buf_init :: "(nat \<Rightarrow> bool) \<Rightarrow> u16 \<Rightarrow> ring_buf option" where
  "ring_buf_init alloc sz =
     (if sz > RINGBUFFER_MAX_SIZE then None
      else if \<not> alloc 0 then None
      else if \<not> alloc 1 then None
      else if \<not> alloc 2 then None
      else if \<not> alloc 3 then None
      else if \<not> alloc 4 then None
      else Some \<lparr> write_ptr = 0, read_ptr = 0,
                  start_ptr = (if alloc 5 then Some (replicate (unat sz) 0) else None),
                  rb_size = sz, rb_count = 0,
                  cont_mutex = False, rw_mutex = False, r_sem = False, w_sem = False \<rparr>)"

definition ring_buf_get_data_size :: "ring_buf \<Rightarrow> u16" where
  "ring_buf_get_data_size rb = rb_count rb"

definition ring_buf_get_free_size :: "ring_buf \<Rightarrow> u16" where
  "ring_buf_get_free_size rb = rb_size rb - rb_count rb"

text \<open>The distance of a pointer to the end of the memory, truncated to 16 bits.\<close>

definition size_to_end_of_buf :: "ring_buf \<Rightarrow> nat \<Rightarrow> u16" where
  "size_to_end_of_buf rb p = word_of_int (int (unat (rb_size rb)) - int p)"

text \<open>The critical section of \<open>ring_buf_write\<close>: \<open>t_length\<close> bytes of \<open>buf\<close>, in one or
  two copies. The semaphore \<open>w_sem\<close> is given at its end.\<close>

definition ring_buf_write_section :: "ring_buf \<Rightarrow> u8 list \<Rightarrow> u16 \<Rightarrow> ring_buf option" where
  "ring_buf_write_section rb buf t_length = do {
     mem \<leftarrow> start_ptr rb;
     let length_min = min t_length (size_to_end_of_buf rb (write_ptr rb));
     mem \<leftarrow> memcpy mem (write_ptr rb) buf 0 (unat length_min);
     let wp = write_ptr rb + unat length_min;
     (mem, wp) \<leftarrow>
       (if t_length > length_min then do {
          mem \<leftarrow> memcpy mem 0 buf (unat length_min) (unat (t_length - length_min));
          Some (mem, unat (t_length - length_min)) }
        else Some (mem, wp));
     Some (rb \<lparr> start_ptr := Some mem, write_ptr := wp, rb_count := rb_count rb + t_length,
                w_sem := True \<rparr>) }"

text \<open>The critical section of \<open>ring_buf_read\<close> with the \<open>data_size\<close> read before it. The
  bytes it stores at the start of the caller's buffer are the result.\<close>

definition ring_buf_read_section :: "ring_buf \<Rightarrow> u16 \<Rightarrow> u16 \<Rightarrow> (u8 list \<times> ring_buf) option" where
  "ring_buf_read_section rb req data_size = do {
     mem \<leftarrow> start_ptr rb;
     let len = min req data_size;
     let length_min = min len (size_to_end_of_buf rb (read_ptr rb));
     out \<leftarrow> memcpy (replicate (unat len) 0) 0 mem (read_ptr rb) (unat length_min);
     let rp = read_ptr rb + unat length_min;
     (out, rp) \<leftarrow>
       (if len > length_min then do {
          out \<leftarrow> memcpy out (unat length_min) mem 0 (unat (len - length_min));
          Some (out, unat (len - length_min)) }
        else Some (out, rp));
     Some (out, rb \<lparr> read_ptr := rp, rb_count := rb_count rb - len,
                     r_sem := (r_sem rb \<or> len > 0) \<rparr>) }"

text \<open>The critical section of \<open>ring_buf_read_timeout\<close>, whose request is 32 bits wide;
  \<open>length_min\<close> is truncated to 16 bits as in the code.\<close>

definition ring_buf_read_timeout_section :: "ring_buf \<Rightarrow> u32 \<Rightarrow> u16 \<Rightarrow> (u8 list \<times> ring_buf) option" where
  "ring_buf_read_timeout_section rb req data_size = do {
     mem \<leftarrow> start_ptr rb;
     let e = size_to_end_of_buf rb (read_ptr rb);
     let len = min req (ucast data_size);
     let length_min = (ucast (min len (ucast e)) :: u16);
     out \<leftarrow> memcpy (replicate (unat len) 0) 0 mem (read_ptr rb) (unat length_min);
     let rp = read_ptr rb + unat length_min;
     (out, rp) \<leftarrow>
       (if len > ucast length_min then do {
          out \<leftarrow> memcpy out (unat length_min) mem 0 (unat (len - ucast length_min));
          Some (out, unat (len - ucast length_min)) }
        else Some (out, rp));
     Some (out, rb \<lparr> read_ptr := rp, rb_count := ucast (ucast (rb_count rb) - len),
                     r_sem := (r_sem rb \<or> len > 0) \<rparr>) }"

text \<open>A call of \<open>ring_buf_write\<close> while no reader runs: one iteration takes what fits and
  the loop goes on with the rest; with the buffer full it blocks on \<open>r_sem\<close>. The
  result is the bytes not yet written (none when the call returns).\<close>

definition ring_buf_write_iter :: "ring_buf \<Rightarrow> u8 list \<Rightarrow> (u8 list \<times> ring_buf) option" where
  "ring_buf_write_iter rb buf = do {
     let t_length = min (ring_buf_get_free_size rb) (word_of_nat (length buf));
     rb \<leftarrow> ring_buf_write_section rb buf t_length;
     Some (drop (unat t_length) buf, rb) }"

text \<open>\<open>ring_buf_read\<close> when no other thread runs: on an empty buffer it blocks (None),
  otherwise it passes the size it has seen to the critical section.\<close>

definition ring_buf_read_ready :: "ring_buf \<Rightarrow> u16 \<Rightarrow> (u8 list \<times> ring_buf) option" where
  "ring_buf_read_ready rb req =
     (if ring_buf_get_data_size rb < 1 then None
      else ring_buf_read_section rb req (ring_buf_get_data_size rb))"

section \<open>Invariant and contents\<close>

definition rb_inv :: "ring_buf \<Rightarrow> bool" where
  "rb_inv rb \<longleftrightarrow>
     (case start_ptr rb of None \<Rightarrow> False | Some mem \<Rightarrow> length mem = unat (rb_size rb)) \<and>
     read_ptr rb \<le> unat (rb_size rb) \<and> write_ptr rb \<le> unat (rb_size rb) \<and>
     rb_count rb \<le> rb_size rb \<and>
     write_ptr rb = (if read_ptr rb + unat (rb_count rb) \<le> unat (rb_size rb)
                     then read_ptr rb + unat (rb_count rb)
                     else read_ptr rb + unat (rb_count rb) - unat (rb_size rb))"

text \<open>The abstraction: the bytes in the buffer, oldest first.\<close>

definition ring_index :: "nat \<Rightarrow> nat \<Rightarrow> nat \<Rightarrow> nat" where
  "ring_index n r i = (if r + i < n then r + i else r + i - n)"

definition ring_view :: "'a list \<Rightarrow> nat \<Rightarrow> nat \<Rightarrow> 'a list" where
  "ring_view mem r c = map (\<lambda>i. mem ! ring_index (length mem) r i) [0..<c]"

definition rb_contents :: "ring_buf \<Rightarrow> u8 list" where
  "rb_contents rb = (case start_ptr rb of None \<Rightarrow> []
     | Some mem \<Rightarrow> ring_view mem (read_ptr rb) (unat (rb_count rb)))"

lemma ring_view_length [len_simps, simp]: "length (ring_view mem r c) = c"
  by (simp add: ring_view_def)

lemma ring_view_nth [simp]: "i < c \<Longrightarrow> ring_view mem r c ! i = mem ! ring_index (length mem) r i"
  by (simp add: ring_view_def)

lemma size_to_end_unat:
  "p \<le> unat (rb_size rb) \<Longrightarrow> unat (size_to_end_of_buf rb p) = unat (rb_size rb) - p"
proof -
  assume "p \<le> unat (rb_size rb)"
  then have "int (unat (rb_size rb)) - int p = int (unat (rb_size rb) - p)"
    by simp
  then have "size_to_end_of_buf rb p = word_of_nat (unat (rb_size rb) - p)"
    by (simp only: size_to_end_of_buf_def of_int_of_nat_eq)
  moreover have "unat (rb_size rb) - p < 2 ^ LENGTH(16)"
    by (rule le_less_trans [OF diff_le_self unsigned_less])
  ultimately show ?thesis
    by (simp only: unat_word_of_nat_less)
qed

lemma rb_contents_length: "rb_inv rb \<Longrightarrow> length (rb_contents rb) = unat (rb_count rb)"
  by (auto simp: rb_inv_def rb_contents_def word_le_nat_alt split: option.splits)

lemma rb_free_unat: "rb_inv rb \<Longrightarrow> unat (ring_buf_get_free_size rb) = unat (rb_size rb) - unat (rb_count rb)"
  by (auto simp: rb_inv_def ring_buf_get_free_size_def unat_minus_le)

lemma ring_buf_init_inv:
  "ring_buf_init alloc sz = Some rb \<Longrightarrow> alloc 5 \<Longrightarrow> rb_inv rb \<and> rb_contents rb = []"
  by (auto simp: ring_buf_init_def rb_inv_def rb_contents_def ring_view_def split: if_splits)

section \<open>The critical sections refine append and take\<close>

text \<open>Storing \<open>t\<close> cells at the write position (in one or two pieces) appends them.\<close>

lemma ring_append:
  assumes len: "length mem' = length mem" and xs: "t \<le> length xs"
    and new: "\<And>i. i < t \<Longrightarrow> mem' ! ring_index (length mem) r (c + i) = xs ! i"
    and old: "\<And>i. i < c \<Longrightarrow> mem' ! ring_index (length mem) r i = mem ! ring_index (length mem) r i"
  shows "ring_view mem' r (c + t) = ring_view mem r c @ take t xs"
proof (rule nth_equalityI)
  fix i assume "i < length (ring_view mem' r (c + t))"
  then have "i < c + t"
    by simp
  then show "ring_view mem' r (c + t) ! i = (ring_view mem r c @ take t xs) ! i"
    using new [of "i - c"] old [of i] xs len by (cases "i < c") (simp_all add: nth_append)
qed (use xs in simp)

lemma ring_split:
  assumes "l \<le> c" and "c \<le> length mem" and "r \<le> length mem"
  shows "ring_view mem r c = ring_view mem r l @
     ring_view mem (if l \<le> length mem - r then r + l else r + l - length mem) (c - l)"
proof (rule nth_equalityI)
  fix i assume "i < length (ring_view mem r c)"
  then show "ring_view mem r c ! i = (ring_view mem r l @
     ring_view mem (if l \<le> length mem - r then r + l else r + l - length mem) (c - l)) ! i"
    using assms by (auto simp: nth_append ring_index_def intro!: arg_cong [of _ _ "nth mem"])
qed (use assms in simp)

lemma rb_invE:
  assumes "rb_inv rb"
  obtains mem where "start_ptr rb = Some mem" and "length mem = unat (rb_size rb)"
    and "read_ptr rb \<le> length mem" and "write_ptr rb \<le> length mem"
    and "unat (rb_count rb) \<le> length mem"
    and "write_ptr rb = (if read_ptr rb + unat (rb_count rb) \<le> length mem
                     then read_ptr rb + unat (rb_count rb)
                     else read_ptr rb + unat (rb_count rb) - length mem)"
  using assms by (auto simp: rb_inv_def word_le_nat_alt split: option.splits)

lemma min_not_less: "\<not> min a b < a \<Longrightarrow> min a b = a" for a b :: "'a::linorder"
  by (simp add: min_def split: if_splits)

text \<open>The two copies of the writer, over plain numbers.\<close>

lemma ring_copy_in:
  assumes w: "w \<le> length mem" and t: "t \<le> length buf" "t \<le> length mem" and l: "l = min t (length mem - w)"
  shows "\<exists>m1 m2. memcpy mem w buf 0 l = Some m1 \<and> length m1 = length mem \<and>
     memcpy m1 0 buf l (t - l) = Some m2 \<and> length m2 = length mem \<and>
     (\<forall>i < length mem. m2 ! i = (if i < t - l then buf ! (l + i)
        else if w \<le> i \<and> i < w + l then buf ! (i - w) else mem ! i))"
proof -
  obtain m1 where m1: "memcpy mem w buf 0 l = Some m1"
    using assms by (simp add: mem_simps)
  then have len1: "length m1 = length mem"
    by (rule memcpy_length)
  obtain m2 where m2: "memcpy m1 0 buf l (t - l) = Some m2"
    using assms len1 by (simp add: mem_simps)
  have "m2 ! i = (if i < t - l then buf ! (l + i)
        else if w \<le> i \<and> i < w + l then buf ! (i - w) else mem ! i)" if "i < length mem" for i
    using memcpy_nth [OF m2, of i] memcpy_nth [OF m1 that] that len1 by simp
  then show ?thesis
    using m1 m2 len1 by (auto simp: memcpy_length)
qed

lemma ring_store_view:
  assumes len: "length m2 = length mem" and t: "t \<le> length buf" and ct: "c + t \<le> length mem"
    and r: "r \<le> length mem" and w: "w = (if r + c \<le> length mem then r + c else r + c - length mem)"
    and l: "l = min t (length mem - w)"
    and new: "\<forall>i < length mem. m2 ! i = (if i < t - l then buf ! (l + i)
        else if w \<le> i \<and> i < w + l then buf ! (i - w) else mem ! i)"
  shows "ring_view m2 r (c + t) = ring_view mem r c @ take t buf"
proof (rule ring_append [OF len t])
  fix i assume i: "i < t"
  let ?j = "ring_index (length mem) r (c + i)"
  have "?j < length mem"
    using i ct r by (simp add: ring_index_def) linarith
  moreover have "if i < l then \<not> ?j < t - l \<and> w \<le> ?j \<and> ?j < w + l \<and> ?j - w = i else ?j = i - l \<and> ?j < t - l"
    using i ct r w l by (cases "r + c \<le> length mem"; cases "t \<le> length mem - w") (auto simp: ring_index_def)
  ultimately show "m2 ! ?j = buf ! i"
    using new by (cases "i < l") auto
next
  fix i assume i: "i < c"
  let ?j = "ring_index (length mem) r i"
  have "?j < length mem"
    using i ct r by (simp add: ring_index_def) linarith
  moreover have "\<not> ?j < t - l \<and> (\<not> w \<le> ?j \<or> \<not> ?j < w + l)"
    using i ct r w l by (cases "r + c \<le> length mem"; cases "t \<le> length mem - w") (auto simp: ring_index_def)
  ultimately show "m2 ! ?j = mem ! ?j"
    using new by auto
qed

text \<open>The critical section of the writer, when the bytes fit, appends them.\<close>

lemma ring_buf_write_section_refines:
  assumes inv: "rb_inv rb" and fits: "unat (rb_count rb) + unat t \<le> unat (rb_size rb)"
    and buf: "unat t \<le> length buf"
  shows "\<exists>mem' wp. let rb' = rb \<lparr> start_ptr := Some mem', write_ptr := wp,
        rb_count := rb_count rb + t, w_sem := True \<rparr>
      in ring_buf_write_section rb buf t = Some rb' \<and>
         rb_inv rb' \<and> rb_contents rb' = rb_contents rb @ take (unat t) buf"
proof -
  obtain mem where mem: "start_ptr rb = Some mem" and n: "length mem = unat (rb_size rb)"
    and r: "read_ptr rb \<le> length mem" and w: "write_ptr rb \<le> length mem"
    and c: "unat (rb_count rb) \<le> length mem"
    and wr: "write_ptr rb = (if read_ptr rb + unat (rb_count rb) \<le> length mem
                     then read_ptr rb + unat (rb_count rb)
                     else read_ptr rb + unat (rb_count rb) - length mem)"
    using rb_invE [OF inv] by blast
  define e where "e = size_to_end_of_buf rb (write_ptr rb)"
  have e: "unat (min t e) = min (unat t) (length mem - write_ptr rb)"
    using w n by (simp add: unat_min e_def size_to_end_unat)
  have c': "unat (rb_count rb + t) = unat (rb_count rb) + unat t"
    by (rule unat_plus_less, rule le_less_trans [OF fits], rule unsigned_less)
  have d: "unat (t - min t e) = unat t - unat (min t e)"
    by (rule unat_minus_le) simp
  have tn: "unat t \<le> length mem"
    using fits n by simp
  obtain m1 m2 where cp1: "memcpy mem (write_ptr rb) buf 0 (unat (min t e)) = Some m1"
    and cp2: "memcpy m1 0 buf (unat (min t e)) (unat t - unat (min t e)) = Some m2"
    and len1: "length m1 = length mem" and len: "length m2 = length mem"
    and new: "\<forall>i < length mem. m2 ! i = (if i < unat t - unat (min t e) then buf ! (unat (min t e) + i)
        else if write_ptr rb \<le> i \<and> i < write_ptr rb + unat (min t e) then buf ! (i - write_ptr rb) else mem ! i)"
    using ring_copy_in [OF w buf tn e] by blast
  define wp where "wp = (if t > min t e then unat (t - min t e) else write_ptr rb + unat (min t e))"
  have m2: "m1 = m2" if "\<not> t > min t e"
  proof -
    have "min t e = t"
      using that by (rule min_not_less)
    with cp2 buf show ?thesis
      by (simp add: memcpy_def)
  qed
  have wp: "wp = (if unat t \<le> length mem - write_ptr rb then write_ptr rb + unat t
                  else write_ptr rb + unat t - length mem)"
    using e d w by (auto simp: wp_def word_less_nat_alt)
  have view: "ring_view m2 (read_ptr rb) (unat (rb_count rb) + unat t) =
              ring_view mem (read_ptr rb) (unat (rb_count rb)) @ take (unat t) buf"
    using ring_store_view [OF len buf _ r wr e new] fits n by simp
  have "ring_buf_write_section rb buf t = Some (rb \<lparr> start_ptr := Some m2, write_ptr := wp,
        rb_count := rb_count rb + t, w_sem := True \<rparr>)"
    using mem cp1 cp2 m2 d by (auto simp: ring_buf_write_section_def Let_def wp_def e_def)
  moreover have "rb_inv (rb \<lparr> start_ptr := Some m2, write_ptr := wp,
        rb_count := rb_count rb + t, w_sem := True \<rparr>)"
    using len n r w c' fits wr wp by (auto simp: rb_inv_def word_le_nat_alt)
  ultimately show ?thesis
    using view mem c' by (auto simp: rb_contents_def Let_def)
qed

text \<open>The two copies of the reader.\<close>

lemma ring_copy_out:
  assumes r: "r \<le> length mem" and len: "len \<le> length mem" and l: "l = min len (length mem - r)"
  shows "\<exists>m1. memcpy (replicate len 0) 0 mem r l = Some m1 \<and> length m1 = len \<and>
     memcpy m1 l mem 0 (len - l) = Some (ring_view mem r len)"
proof -
  obtain m1 where m1: "memcpy (replicate len 0) 0 mem r l = Some m1"
    using assms by (simp add: mem_simps)
  then have len1: "length m1 = len"
    by (auto dest: memcpy_length)
  obtain m2 where m2: "memcpy m1 l mem 0 (len - l) = Some m2"
    using assms len1 by (simp add: mem_simps)
  have "m2 = ring_view mem r len"
  proof (rule nth_equalityI)
    show "length m2 = length (ring_view mem r len)"
      using memcpy_length [OF m2] len1 by simp
    fix i assume "i < length m2"
    then have i: "i < len"
      using memcpy_length [OF m2] len1 by simp
    then show "m2 ! i = ring_view mem r len ! i"
      using memcpy_nth [OF m2, of i] memcpy_nth [OF m1, of i] len1 assms by (auto simp: ring_index_def add.commute)
  qed
  then show ?thesis
    using m1 m2 len1 by auto
qed

text \<open>The critical section of the reader takes the oldest bytes.\<close>

lemma ring_buf_read_section_refines:
  assumes inv: "rb_inv rb" and ds: "ds \<le> rb_count rb" and l: "l = min req ds"
  shows "\<exists>rp. let rb' = rb \<lparr> read_ptr := rp, rb_count := rb_count rb - l, r_sem := (r_sem rb \<or> l > 0) \<rparr>
     in ring_buf_read_section rb req ds = Some (take (unat l) (rb_contents rb), rb') \<and>
        rb_inv rb' \<and> rb_contents rb' = drop (unat l) (rb_contents rb)"
proof -
  obtain mem where mem: "start_ptr rb = Some mem" and n: "length mem = unat (rb_size rb)"
    and r: "read_ptr rb \<le> length mem" and w: "write_ptr rb \<le> length mem"
    and c: "unat (rb_count rb) \<le> length mem"
    and wr: "write_ptr rb = (if read_ptr rb + unat (rb_count rb) \<le> length mem
                     then read_ptr rb + unat (rb_count rb)
                     else read_ptr rb + unat (rb_count rb) - length mem)"
    using rb_invE [OF inv] by blast
  define e where "e = size_to_end_of_buf rb (read_ptr rb)"
  have e: "unat (min l e) = min (unat l) (length mem - read_ptr rb)"
    using r n by (simp add: unat_min e_def size_to_end_unat)
  have lc: "l \<le> rb_count rb"
    using ds by (simp add: l min.coboundedI2)
  then have lc': "unat l \<le> unat (rb_count rb)"
    by (simp add: word_le_nat_alt)
  have d: "unat (l - min l e) = unat l - unat (min l e)" and c': "unat (rb_count rb - l) = unat (rb_count rb) - unat l"
    using lc by (simp_all add: unat_minus_le)
  obtain m1 where cp1: "memcpy (replicate (unat l) 0) 0 mem (read_ptr rb) (unat (min l e)) = Some m1"
    and cp2: "memcpy m1 (unat (min l e)) mem 0 (unat l - unat (min l e)) = Some (ring_view mem (read_ptr rb) (unat l))"
    and len1: "length m1 = unat l"
    using ring_copy_out [OF r le_trans [OF lc' c] e] by blast
  have m1: "m1 = ring_view mem (read_ptr rb) (unat l)" if "\<not> l > min l e"
  proof -
    have "min l e = l"
      using that by (rule min_not_less)
    with cp2 len1 show ?thesis
      by (simp add: memcpy_def)
  qed
  define rp where "rp = (if l > min l e then unat (l - min l e) else read_ptr rb + unat (min l e))"
  have rp: "rp = (if unat l \<le> length mem - read_ptr rb then read_ptr rb + unat l
                  else read_ptr rb + unat l - length mem)"
    using e d r by (auto simp: rp_def word_less_nat_alt)
  have split: "ring_view mem (read_ptr rb) (unat (rb_count rb)) =
      ring_view mem (read_ptr rb) (unat l) @ ring_view mem rp (unat (rb_count rb) - unat l)"
    unfolding rp by (rule ring_split [OF lc' c r])
  have "ring_buf_read_section rb req ds = Some (ring_view mem (read_ptr rb) (unat l),
      rb \<lparr> read_ptr := rp, rb_count := rb_count rb - l, r_sem := (r_sem rb \<or> l > 0) \<rparr>)"
    using mem cp1 cp2 m1 d by (auto simp: ring_buf_read_section_def Let_def rp_def e_def l)
  moreover have "rb_inv (rb \<lparr> read_ptr := rp, rb_count := rb_count rb - l, r_sem := (r_sem rb \<or> l > 0) \<rparr>)"
    using mem n r w c' lc' c wr rp by (auto simp: rb_inv_def word_le_nat_alt)
  ultimately show ?thesis
    using split mem c' by (auto simp: rb_contents_def Let_def)
qed

section \<open>Bounded queues\<close>

text \<open>What a client relies on: an abstraction to a list, a bound, an operation that
  appends what it accepts and one that removes from the front.\<close>

lemma take_accepted: "take (length xs - length (drop k xs)) xs = take k xs"
  by (cases "k \<le> length xs") auto

lemma take_drop_min: "take (min n (length xs)) xs = take n xs" "drop (min n (length xs)) xs = drop n xs"
  by (auto simp: min_def)

locale bounded_fifo =
  fixes inv :: "'q \<Rightarrow> bool" and items :: "'q \<Rightarrow> 'a list" and cap :: "'q \<Rightarrow> nat"
    and put :: "'a list \<Rightarrow> 'q \<Rightarrow> ('a list \<times> 'q) option" and get :: "nat \<Rightarrow> 'q \<Rightarrow> ('a list \<times> 'q) option"
  assumes cap: "inv q \<Longrightarrow> length (items q) \<le> cap q"
    and put_ok: "inv q \<Longrightarrow> length xs < 65536 \<Longrightarrow> \<exists>q'. put xs q = Some (drop (cap q - length (items q)) xs, q') \<and>
          inv q' \<and> cap q' = cap q \<and> items q' = items q @ take (cap q - length (items q)) xs"
    and get_ok: "inv q \<Longrightarrow> n < 65536 \<Longrightarrow> items q \<noteq> [] \<Longrightarrow> \<exists>q'. get n q = Some (take n (items q), q') \<and>
          inv q' \<and> cap q' = cap q \<and> items q' = drop n (items q)"
    and get_empty: "inv q \<Longrightarrow> items q = [] \<Longrightarrow> get n q = None"
begin

text \<open>A script of calls: a write that does not fit leaves its rest for later, a read of
  an empty queue blocks (the script stops). The trace is the bytes taken out.\<close>

fun script :: "('a list + nat) list \<Rightarrow> 'q \<Rightarrow> ('a list \<times> 'a list \<times> 'q) option" where
  "script [] q = Some ([], [], q)"
| "script (Inl xs # ops) q = (case put xs q of None \<Rightarrow> None
     | Some (rest, q') \<Rightarrow> (case script ops q' of None \<Rightarrow> None
         | Some (acc, out, q'') \<Rightarrow> Some (take (length xs - length rest) xs @ acc, out, q'')))"
| "script (Inr n # ops) q = (case get n q of None \<Rightarrow> None
     | Some (ys, q') \<Rightarrow> (case script ops q' of None \<Rightarrow> None
         | Some (acc, out, q'') \<Rightarrow> Some (acc, ys @ out, q'')))"

lemma put_accepts:
  assumes "inv q" and "length xs < 65536" and "put xs q = Some (rest, q')"
  shows "inv q' \<and> items q' = items q @ take (length xs - length rest) xs \<and> cap q' = cap q"
  using put_ok [OF assms(1,2)] assms(3) by (auto simp: take_accepted simp del: length_drop)

lemma get_takes:
  assumes "inv q" and "n < 65536" and "get n q = Some (ys, q')"
  shows "inv q' \<and> items q = ys @ items q' \<and> cap q' = cap q"
  using get_ok [OF assms(1,2)] get_empty [OF assms(1), of n] assms(3) by (cases "items q = []") auto

text \<open>Nothing is lost, duplicated or reordered.\<close>

lemma script_fifo:
  assumes "inv q" and "script ops q = Some (acc, out, q')"
    and "\<forall>op \<in> set ops. case op of Inl xs \<Rightarrow> length xs < 65536 | Inr n \<Rightarrow> n < 65536"
  shows "inv q' \<and> items q @ acc = out @ items q' \<and> cap q' = cap q"
  using assms
proof (induction ops arbitrary: q acc out)
  case (Cons op ops)
  show ?case
  proof (cases op)
    case (Inl xs)
    then show ?thesis
      using Cons.prems put_accepts [of q xs] Cons.IH by (fastforce split: option.splits)
  next
    case (Inr n)
    then show ?thesis
      using Cons.prems get_takes [of q n] Cons.IH by (fastforce split: option.splits)
  qed
qed simp

lemma script_bounded:
  assumes "inv q" and "script ops q = Some (acc, out, q')"
    and "\<forall>op \<in> set ops. case op of Inl xs \<Rightarrow> length xs < 65536 | Inr n \<Rightarrow> n < 65536"
  shows "length (items q') \<le> cap q"
  using script_fifo [OF assms] cap [of q'] by simp

end

definition rb_put :: "u8 list \<Rightarrow> ring_buf \<Rightarrow> (u8 list \<times> ring_buf) option" where
  "rb_put xs rb = ring_buf_write_iter rb xs"

definition rb_get :: "nat \<Rightarrow> ring_buf \<Rightarrow> (u8 list \<times> ring_buf) option" where
  "rb_get n rb = ring_buf_read_ready rb (word_of_nat n)"

definition rb_cap :: "ring_buf \<Rightarrow> nat" where
  "rb_cap rb = unat (rb_size rb)"

lemma rb_put_ok:
  assumes inv: "rb_inv rb" and xs: "length xs < 65536"
  shows "\<exists>rb'. rb_put xs rb = Some (drop (rb_cap rb - length (rb_contents rb)) xs, rb') \<and>
     rb_inv rb' \<and> rb_cap rb' = rb_cap rb \<and>
     rb_contents rb' = rb_contents rb @ take (rb_cap rb - length (rb_contents rb)) xs"
proof -
  let ?t = "min (ring_buf_get_free_size rb) (word_of_nat (length xs))"
  have free: "unat (ring_buf_get_free_size rb) = rb_cap rb - length (rb_contents rb)"
    using inv by (simp add: rb_free_unat rb_cap_def rb_contents_length)
  have t: "unat ?t = min (rb_cap rb - length (rb_contents rb)) (length xs)"
    using xs by (simp add: unat_min free unat_word_of_nat_less)
  have c: "unat (rb_count rb) \<le> unat (rb_size rb)"
    using inv by (simp add: rb_inv_def word_le_nat_alt)
  then have "unat (rb_count rb) + unat ?t \<le> unat (rb_size rb)" and "unat ?t \<le> length xs"
    using t by (auto simp: rb_cap_def rb_contents_length [OF inv])
  from ring_buf_write_section_refines [OF inv this] obtain mem' wp where
    "let rb' = rb \<lparr> start_ptr := Some mem', write_ptr := wp,
        rb_count := rb_count rb + ?t, w_sem := True \<rparr>
      in ring_buf_write_section rb xs ?t = Some rb' \<and>
         rb_inv rb' \<and> rb_contents rb' = rb_contents rb @ take (unat ?t) xs"
    by blast
  moreover have "take (unat ?t) xs = take (rb_cap rb - length (rb_contents rb)) xs"
    and "drop (unat ?t) xs = drop (rb_cap rb - length (rb_contents rb)) xs"
    unfolding t by (simp_all add: take_drop_min)
  ultimately show ?thesis
    by (simp add: rb_put_def ring_buf_write_iter_def Let_def rb_cap_def)
qed

lemma rb_get_ok:
  assumes inv: "rb_inv rb" and n: "n < 65536" and ne: "rb_contents rb \<noteq> []"
  shows "\<exists>rb'. rb_get n rb = Some (take n (rb_contents rb), rb') \<and> rb_inv rb' \<and>
     rb_cap rb' = rb_cap rb \<and> rb_contents rb' = drop n (rb_contents rb)"
proof -
  have c: "unat (rb_count rb) = length (rb_contents rb)"
    using inv by (simp add: rb_contents_length)
  have pos: "\<not> rb_count rb < 1"
    using ne c by (auto simp: word_less_nat_alt)
  have l: "unat (min (word_of_nat n) (rb_count rb)) = min n (length (rb_contents rb))"
    using n c by (simp add: unat_min unat_word_of_nat_less)
  have "take (unat (min (word_of_nat n) (rb_count rb))) (rb_contents rb) = take n (rb_contents rb)"
    and "drop (unat (min (word_of_nat n) (rb_count rb))) (rb_contents rb) = drop n (rb_contents rb)"
    unfolding l by (simp_all add: take_drop_min)
  then show ?thesis
    using ring_buf_read_section_refines [OF inv order_refl refl, of "word_of_nat n"] pos
    by (auto simp: rb_get_def ring_buf_read_ready_def ring_buf_get_data_size_def Let_def rb_cap_def)
qed

interpretation rbq: bounded_fifo rb_inv rb_contents rb_cap rb_put rb_get
proof unfold_locales
  fix q :: ring_buf
  show "rb_inv q \<Longrightarrow> length (rb_contents q) \<le> rb_cap q"
    by (simp add: rb_contents_length rb_cap_def) (simp add: rb_inv_def word_le_nat_alt)
next
  fix q :: ring_buf and n
  assume "rb_inv q" and "rb_contents q = []"
  then have "unat (rb_count q) = 0"
    using rb_contents_length [of q] by simp
  then show "rb_get n q = None"
    by (simp add: rb_get_def ring_buf_read_ready_def ring_buf_get_data_size_def word_less_nat_alt)
qed (blast intro: rb_put_ok rb_get_ok)+

section \<open>The writer and the reader thread\<close>

text \<open>Program counters: the checks of the free and data sizes, the waits on \<open>r_sem\<close>
  and \<open>w_sem\<close> and the critical sections under \<open>rw_mutex\<close>, which are one step each.\<close>

datatype writer_pc = WIdle | WCheck "u8 list" | WWait "u8 list" | WCopy "u8 list" u16
datatype reader_pc = RIdle | RCheck u16 | RWait u16 | RCopy u16 u16

record rb_sys =
  sys_rb :: ring_buf
  writer :: writer_pc
  reader :: reader_pc
  accepted :: "u8 list"
  received :: "u8 list"

text \<open>The steps inside a call.\<close>

inductive rb_run :: "rb_sys \<Rightarrow> rb_sys \<Rightarrow> bool" where
  w_done: "writer s = WCheck [] \<Longrightarrow>
    rb_run s (s \<lparr> writer := WIdle, sys_rb := (sys_rb s) \<lparr> cont_mutex := False \<rparr> \<rparr>)"
| w_full: "writer s = WCheck rest \<Longrightarrow> rest \<noteq> [] \<Longrightarrow> ring_buf_get_free_size (sys_rb s) = 0 \<Longrightarrow>
    rb_run s (s \<lparr> writer := WWait rest \<rparr>)"
| w_fits: "writer s = WCheck rest \<Longrightarrow> rest \<noteq> [] \<Longrightarrow> ring_buf_get_free_size (sys_rb s) \<noteq> 0 \<Longrightarrow>
    rb_run s (s \<lparr> writer := WCopy rest (min (ring_buf_get_free_size (sys_rb s)) (word_of_nat (length rest))) \<rparr>)"
| w_wake: "writer s = WWait rest \<Longrightarrow> r_sem (sys_rb s) \<Longrightarrow>
    rb_run s (s \<lparr> writer := WCheck rest, sys_rb := (sys_rb s) \<lparr> r_sem := False \<rparr> \<rparr>)"
| w_copy: "writer s = WCopy rest t \<Longrightarrow> ring_buf_write_section (sys_rb s) rest t = Some rb' \<Longrightarrow>
    rb_run s (s \<lparr> writer := WCheck (drop (unat t) rest), sys_rb := rb' \<rparr>)"
| r_empty: "reader s = RCheck req \<Longrightarrow> ring_buf_get_data_size (sys_rb s) < 1 \<Longrightarrow>
    rb_run s (s \<lparr> reader := RWait req \<rparr>)"
| r_data: "reader s = RCheck req \<Longrightarrow> \<not> ring_buf_get_data_size (sys_rb s) < 1 \<Longrightarrow>
    rb_run s (s \<lparr> reader := RCopy req (ring_buf_get_data_size (sys_rb s)) \<rparr>)"
| r_wake: "reader s = RWait req \<Longrightarrow> w_sem (sys_rb s) \<Longrightarrow>
    rb_run s (s \<lparr> reader := RCheck req, sys_rb := (sys_rb s) \<lparr> w_sem := False \<rparr> \<rparr>)"
| r_copy: "reader s = RCopy req ds \<Longrightarrow> ring_buf_read_section (sys_rb s) req ds = Some (out, rb') \<Longrightarrow>
    rb_run s (s \<lparr> reader := RIdle, sys_rb := rb', received := received s @ out \<rparr>)"

text \<open>The steps of the environment: a new call of \<open>ring_buf_write\<close> (which checks the
  memory and takes \<open>cont_mutex\<close>), of \<open>ring_buf_read\<close>, and the expiry of the timeout of
  \<open>ring_buf_read_timeout\<close>, whose result is -1.\<close>

inductive rb_env :: "rb_sys \<Rightarrow> rb_sys \<Rightarrow> bool" where
  w_call: "writer s = WIdle \<Longrightarrow> start_ptr (sys_rb s) \<noteq> None \<Longrightarrow> \<not> cont_mutex (sys_rb s) \<Longrightarrow> length buf < 65536 \<Longrightarrow>
    rb_env s (s \<lparr> writer := WCheck buf, accepted := accepted s @ buf,
                  sys_rb := (sys_rb s) \<lparr> cont_mutex := True \<rparr> \<rparr>)"
| r_call: "reader s = RIdle \<Longrightarrow> start_ptr (sys_rb s) \<noteq> None \<Longrightarrow> rb_env s (s \<lparr> reader := RCheck req \<rparr>)"
| r_timeout: "reader s = RWait req \<Longrightarrow> \<not> w_sem (sys_rb s) \<Longrightarrow> rb_env s (s \<lparr> reader := RIdle \<rparr>)"

inductive rb_reach :: "u16 \<Rightarrow> rb_sys \<Rightarrow> bool" for sz where
  reach_init: "ring_buf_init (\<lambda>_. True) sz = Some rb \<Longrightarrow>
    rb_reach sz \<lparr> sys_rb = rb, writer = WIdle, reader = RIdle, accepted = [], received = [] \<rparr>"
| reach_run: "rb_reach sz s \<Longrightarrow> rb_run s s' \<Longrightarrow> rb_reach sz s'"
| reach_env: "rb_reach sz s \<Longrightarrow> rb_env s s' \<Longrightarrow> rb_reach sz s'"

fun pending :: "writer_pc \<Rightarrow> u8 list" where
  "pending WIdle = []"
| "pending (WCheck rest) = rest"
| "pending (WWait rest) = rest"
| "pending (WCopy rest t) = rest"

definition writer_ok :: "ring_buf \<Rightarrow> writer_pc \<Rightarrow> bool" where
  "writer_ok rb pc \<longleftrightarrow> length (pending pc) < 65536 \<and> (cont_mutex rb \<longleftrightarrow> pc \<noteq> WIdle) \<and>
     (case pc of WIdle \<Rightarrow> True | WCheck rest \<Rightarrow> True
      | WWait rest \<Rightarrow> rest \<noteq> [] \<and> (r_sem rb \<or> rb_count rb = rb_size rb)
      | WCopy rest t \<Rightarrow> 0 < unat t \<and> unat t \<le> length rest \<and> unat (rb_count rb) + unat t \<le> unat (rb_size rb))"

definition reader_ok :: "ring_buf \<Rightarrow> reader_pc \<Rightarrow> bool" where
  "reader_ok rb pc \<longleftrightarrow>
     (case pc of RIdle \<Rightarrow> True | RCheck req \<Rightarrow> True
      | RWait req \<Rightarrow> w_sem rb \<or> rb_count rb = 0
      | RCopy req ds \<Rightarrow> 0 < ds \<and> ds \<le> rb_count rb)"

definition sys_inv :: "u16 \<Rightarrow> rb_sys \<Rightarrow> bool" where
  "sys_inv sz s \<longleftrightarrow> rb_inv (sys_rb s) \<and> rb_size (sys_rb s) = sz \<and>
     accepted s = received s @ rb_contents (sys_rb s) @ pending (writer s) \<and>
     writer_ok (sys_rb s) (writer s) \<and> reader_ok (sys_rb s) (reader s)"

lemma rb_contents_sems [simp]:
  "rb_contents (rb \<lparr> cont_mutex := b \<rparr>) = rb_contents rb"
  "rb_contents (rb \<lparr> r_sem := b \<rparr>) = rb_contents rb"
  "rb_contents (rb \<lparr> w_sem := b \<rparr>) = rb_contents rb"
  "rb_inv (rb \<lparr> cont_mutex := b \<rparr>) = rb_inv rb"
  "rb_inv (rb \<lparr> r_sem := b \<rparr>) = rb_inv rb"
  "rb_inv (rb \<lparr> w_sem := b \<rparr>) = rb_inv rb"
  by (simp_all add: rb_contents_def rb_inv_def split: option.splits)

lemma word_lt_1_iff_0: "x < 1 \<longleftrightarrow> x = 0" for x :: u16
  by (simp add: word_less_nat_alt unat_eq_0)

lemma free_zero_full: "rb_inv rb \<Longrightarrow> ring_buf_get_free_size rb = 0 \<longleftrightarrow> rb_count rb = rb_size rb"
  by (auto simp: ring_buf_get_free_size_def)

lemma w_copy_inv [inv_intros]:
  assumes "sys_inv sz s" and pc: "writer s = WCopy rest t"
    and sec: "ring_buf_write_section (sys_rb s) rest t = Some rb'"
  shows "sys_inv sz (s \<lparr> writer := WCheck (drop (unat t) rest), sys_rb := rb' \<rparr>)"
proof -
  let ?rb = "sys_rb s"
  have inv: "rb_inv ?rb" and fits: "unat (rb_count ?rb) + unat t \<le> unat (rb_size ?rb)"
    and len: "unat t \<le> length rest" and t: "0 < unat t"
    using assms by (auto simp: sys_inv_def writer_ok_def)
  obtain mem' wp where rb': "rb' = ?rb \<lparr> start_ptr := Some mem', write_ptr := wp,
        rb_count := rb_count ?rb + t, w_sem := True \<rparr>"
    and "rb_inv rb'" and c: "rb_contents rb' = rb_contents ?rb @ take (unat t) rest"
    using ring_buf_write_section_refines [OF inv fits len] sec by (auto simp: Let_def)
  moreover have "ds \<le> rb_count ?rb \<Longrightarrow> ds \<le> rb_count ?rb + t" for ds
    using unat_plus_less [OF le_less_trans [OF fits unsigned_less]] by (simp add: word_le_nat_alt)
  ultimately show ?thesis
    using assms by (auto simp: sys_inv_def writer_ok_def reader_ok_def split: reader_pc.splits)
qed

lemma r_copy_inv [inv_intros]:
  assumes "sys_inv sz s" and pc: "reader s = RCopy req ds"
    and sec: "ring_buf_read_section (sys_rb s) req ds = Some (out, rb')"
  shows "sys_inv sz (s \<lparr> reader := RIdle, sys_rb := rb', received := received s @ out \<rparr>)"
proof -
  let ?rb = "sys_rb s"
  have inv: "rb_inv ?rb" and ds: "ds \<le> rb_count ?rb" and pos: "0 < ds"
    using assms by (auto simp: sys_inv_def reader_ok_def)
  define l where "l = min req ds"
  obtain rp where rb': "rb' = ?rb \<lparr> read_ptr := rp, rb_count := rb_count ?rb - l, r_sem := (r_sem ?rb \<or> l > 0) \<rparr>"
    and out: "out = take (unat l) (rb_contents ?rb)"
    and i: "rb_inv rb'" and c: "rb_contents rb' = drop (unat l) (rb_contents ?rb)"
    using ring_buf_read_section_refines [OF inv ds l_def] sec by (auto simp: Let_def)
  have le: "l \<le> rb_count ?rb"
    using ds by (simp add: l_def min.coboundedI2)
  have "unat (rb_count ?rb - l) \<le> unat (rb_count ?rb)"
    using le by (simp add: unat_minus_le)
  then show ?thesis
    using assms(1) i c out rb' by (auto simp: sys_inv_def writer_ok_def reader_ok_def word_gt_0 split: writer_pc.splits)
qed

lemma rb_run_inv:
  assumes "rb_run s s'" and "sys_inv sz s"
  shows "sys_inv sz s'"
  using assms
proof (induction rule: rb_run.induct)
  case (w_fits s rest)
  let ?f = "ring_buf_get_free_size (sys_rb s)"
  have l: "length rest < 65536" and inv: "rb_inv (sys_rb s)"
    using w_fits by (auto simp: sys_inv_def writer_ok_def)
  have "unat (min ?f (word_of_nat (length rest))) = min (unat ?f) (length rest)"
    using l by (simp add: unat_min unat_word_of_nat_less)
  moreover have "unat ?f = unat (rb_size (sys_rb s)) - unat (rb_count (sys_rb s))"
    using inv by (rule rb_free_unat)
  moreover have "0 < unat ?f"
    using w_fits by (simp add: unat_gt_0)
  ultimately show ?case
    using w_fits by (auto simp: sys_inv_def writer_ok_def)
next
  case (w_copy s rest t rb')
  then show ?case
    by (blast intro: w_copy_inv)
next
  case (r_copy s req ds out rb')
  then show ?case
    by (blast intro: r_copy_inv)
next
  case (r_empty s req)
  then show ?case
    by (auto simp: sys_inv_def writer_ok_def reader_ok_def ring_buf_get_data_size_def word_lt_1_iff_0)
next
  case (r_data s req)
  then show ?case
    by (auto simp: sys_inv_def writer_ok_def reader_ok_def ring_buf_get_data_size_def word_lt_1_iff_0 word_gt_0)
qed (auto simp: free_zero_full sys_inv_def writer_ok_def reader_ok_def split: writer_pc.splits reader_pc.splits)

lemma rb_env_inv:
  assumes "rb_env s s'" and "sys_inv sz s"
  shows "sys_inv sz s'"
  using assms
  by (induction rule: rb_env.induct) (auto simp: sys_inv_def writer_ok_def reader_ok_def split: writer_pc.splits reader_pc.splits)

lemma rb_reach_inv: "rb_reach sz s \<Longrightarrow> sys_inv sz s"
proof (induction rule: rb_reach.induct)
  case (reach_init rb)
  then have "rb_inv rb \<and> rb_contents rb = []"
    by (intro ring_buf_init_inv) auto
  with reach_init show ?case
    by (auto simp: sys_inv_def writer_ok_def reader_ok_def ring_buf_init_def split: if_splits)
qed (blast intro: rb_run_inv rb_env_inv)+

section \<open>Properties\<close>

text \<open>C1: With a writer and a reader thread interleaved in any way (checks, waits on the two
  semaphores, copies under the mutex, timeouts, new calls), no byte is lost, duplicated or
  reordered: what \<open>ring_buf_write\<close> accepted is what the reader received, then the contents of the
  buffer, then what the current write call still has to copy; and the buffer stays within its size.\<close>

theorem ring_buf_threads_fifo:
  assumes "rb_reach sz s"
  shows "accepted s = received s @ rb_contents (sys_rb s) @ pending (writer s) \<and>
         length (rb_contents (sys_rb s)) \<le> unat sz \<and> rb_inv (sys_rb s)"
  using rb_reach_inv [OF assms] rbq.cap [of "sys_rb s"] by (auto simp: sys_inv_def rb_cap_def)

text \<open>C2: No wake-up is lost. When no thread can take a step inside its call, the writer
  is idle or waits on a full buffer and the reader is idle or waits on an empty one; so a buffer of
  non-zero size never has both threads blocked.\<close>

theorem ring_buf_no_lost_wakeup:
  assumes "rb_reach sz s" and "\<nexists>s'. rb_run s s'"
  shows "(writer s = WIdle \<or> (\<exists>rest. writer s = WWait rest \<and> rb_count (sys_rb s) = sz)) \<and>
         (reader s = RIdle \<or> (\<exists>req. reader s = RWait req \<and> rb_count (sys_rb s) = 0)) \<and>
         (sz \<noteq> 0 \<longrightarrow> writer s = WIdle \<or> reader s = RIdle)"
proof -
  have inv: "sys_inv sz s"
    using assms(1) by (rule rb_reach_inv)
  have w: "writer s = WIdle \<or> (\<exists>rest. writer s = WWait rest \<and> rb_count (sys_rb s) = sz)"
  proof (cases "writer s")
    case (WCheck rest)
    then show ?thesis
      using assms(2) w_done w_full w_fits by (cases rest) blast+
  next
    case (WWait rest)
    then have "\<not> r_sem (sys_rb s)"
      using assms(2) w_wake by blast
    then show ?thesis
      using WWait inv by (auto simp: sys_inv_def writer_ok_def)
  next
    case (WCopy rest t)
    then obtain rb' where "ring_buf_write_section (sys_rb s) rest t = Some rb'"
      using inv ring_buf_write_section_refines [of "sys_rb s" t rest]
      by (auto simp: sys_inv_def writer_ok_def Let_def)
    then show ?thesis
      using assms(2) w_copy WCopy by blast
  qed simp
  have r: "reader s = RIdle \<or> (\<exists>req. reader s = RWait req \<and> rb_count (sys_rb s) = 0)"
  proof (cases "reader s")
    case (RCheck req)
    then show ?thesis
      using assms(2) r_empty r_data by blast
  next
    case (RWait req)
    then have "\<not> w_sem (sys_rb s)"
      using assms(2) r_wake by blast
    then show ?thesis
      using RWait inv by (auto simp: sys_inv_def reader_ok_def)
  next
    case (RCopy req ds)
    then obtain out rb' where "ring_buf_read_section (sys_rb s) req ds = Some (out, rb')"
      using inv ring_buf_read_section_refines [of "sys_rb s" ds _ req]
      by (auto simp: sys_inv_def reader_ok_def Let_def)
    then show ?thesis
      using assms(2) r_copy RCopy by blast
  qed simp
  show ?thesis
    using w r by auto
qed

section \<open>A concrete run\<close>

text \<open>A write of three bytes to a buffer of two: two are stored, the writer waits.\<close>

definition full_rb :: ring_buf where
  "full_rb = \<lparr> write_ptr = 2, read_ptr = 0, start_ptr = Some [1, 2], rb_size = 2, rb_count = 2,
     cont_mutex = True, rw_mutex = False, r_sem = False, w_sem = True \<rparr>"

definition blocked_writer :: rb_sys where
  "blocked_writer = \<lparr> sys_rb = full_rb, writer = WWait [3], reader = RIdle,
     accepted = [1, 2, 3], received = [] \<rparr>"

lemma empty_section:
  "ring_buf_write_section \<lparr> write_ptr = 0, read_ptr = 0, start_ptr = Some [0, 0], rb_size = 2,
     rb_count = 0, cont_mutex = True, rw_mutex = False, r_sem = False, w_sem = False \<rparr> [1, 2, 3] 2 = Some full_rb"
  by (simp add: ring_buf_write_section_def size_to_end_of_buf_def memcpy_def full_rb_def)

lemma rb_reach_blocked: "rb_reach 2 blocked_writer"
proof -
  let ?rb = "\<lparr> write_ptr = 0, read_ptr = 0, start_ptr = Some [0, 0], rb_size = 2, rb_count = 0,
     cont_mutex = False, rw_mutex = False, r_sem = False, w_sem = False \<rparr>"
  let ?s = "\<lambda>rb w. \<lparr> sys_rb = rb, writer = w, reader = RIdle, accepted = [1, 2, 3], received = [] \<rparr>"
  have "ring_buf_init (\<lambda>_. True) 2 = Some ?rb"
    by (simp add: ring_buf_init_def RINGBUFFER_MAX_SIZE_def) (simp add: numeral_2_eq_2)
  then have "rb_reach 2 \<lparr> sys_rb = ?rb, writer = WIdle, reader = RIdle, accepted = [], received = [] \<rparr>"
    by (rule reach_init)
  from reach_env [OF this w_call [where buf = "[1, 2, 3]"]]
  have "rb_reach 2 (?s (?rb \<lparr> cont_mutex := True \<rparr>) (WCheck [1, 2, 3]))"
    by simp
  from reach_run [OF this w_fits [where rest = "[1, 2, 3]"]]
  have "rb_reach 2 (?s (?rb \<lparr> cont_mutex := True \<rparr>) (WCopy [1, 2, 3] 2))"
    by (simp add: ring_buf_get_free_size_def)
  from reach_run [OF this w_copy [where rest = "[1, 2, 3]" and t = 2 and rb' = full_rb]]
  have "rb_reach 2 (?s full_rb (WCheck [3]))"
    by (simp add: empty_section)
  from reach_run [OF this w_full [where rest = "[3]"]]
  show ?thesis
    by (simp add: ring_buf_get_free_size_def full_rb_def blocked_writer_def)
qed

lemma blocked_writer_stuck: "\<nexists>s'. rb_run blocked_writer s'"
  by (auto simp: blocked_writer_def full_rb_def elim: rb_run.cases)

lemma ring_buf_threads_fifo_witness:
  "rb_reach 2 blocked_writer \<and>
   accepted blocked_writer = received blocked_writer @ rb_contents (sys_rb blocked_writer) @ pending (writer blocked_writer) \<and>
   rb_contents (sys_rb blocked_writer) = [1, 2]"
  using rb_reach_blocked ring_buf_threads_fifo [OF rb_reach_blocked]
  by (simp add: blocked_writer_def full_rb_def)

lemma ring_buf_no_lost_wakeup_witness:
  "writer blocked_writer \<noteq> WIdle \<and> rb_count (sys_rb blocked_writer) = 2 \<and> reader blocked_writer = RIdle"
  using ring_buf_no_lost_wakeup [OF rb_reach_blocked blocked_writer_stuck]
  by (auto simp: blocked_writer_def full_rb_def)

section \<open>The timed read\<close>

lemma ucast_min_u16: "(ucast (min a b) :: u32) = min (ucast a) (ucast b)" for a b :: u16
  by (simp add: min_def word_le_nat_alt)

lemma ucast_diff_u16: "b \<le> a \<Longrightarrow> (ucast (a - b) :: u32) = ucast a - ucast b" for a b :: u16
  by (rule word_eq_by_unat) (simp add: unat_minus_le word_le_nat_alt)

lemma ucast_less_u16: "(ucast a :: u32) < ucast b \<longleftrightarrow> a < b" for a b :: u16
  by (simp add: word_less_nat_alt)

lemma ucast_down_up_u16: "(ucast (ucast a :: u32) :: u16) = a" for a :: u16
  by (rule bit_word_eqI) (simp add: bit_simps)

lemma ring_buf_read_timeout_section_eq:
  assumes ds: "ds \<le> rb_count rb"
  shows "ring_buf_read_timeout_section rb req ds = ring_buf_read_section rb (ucast (min req 0xFFFF)) ds"
proof -
  define l where "l = min (ucast (min req 0xFFFF) :: u16) ds"
  define e where "e = size_to_end_of_buf rb (read_ptr rb)"
  have "unat (ucast (min req 0xFFFF) :: u16) = min (unat req) 65535"
    by (simp add: unsigned_ucast_eq unat_min take_bit_nat_eq_self)
  then have "unat (min req (ucast ds)) = unat (ucast l :: u32)"
    using unat_lt_65536 [of ds] by (simp add: unat_min l_def del: unat_lt_65536)
  then have len: "min req (ucast ds) = ucast l"
    by (rule word_eq_by_unat)
  have c: "ucast (ucast (rb_count rb) - ucast l :: u32) = rb_count rb - l"
    using ucast_diff_u16 [of l "rb_count rb"] ds ucast_down_up_u16 [of "rb_count rb - l"]
    by (simp add: l_def min.coboundedI2)
  have d: "unat (ucast l - ucast (min l e) :: u32) = unat (l - min l e)"
    using ucast_diff_u16 [of "min l e" l] by (metis min.cobounded1 unat_u16_u32)
  have m: "ucast (min (ucast l :: u32) (ucast e)) = min l e"
    using ucast_down_up_u16 [of "min l e"] by (simp add: ucast_min_u16)
  have z: "(0 :: u32) < ucast l \<longleftrightarrow> 0 < l"
    by (simp add: word_less_nat_alt)
  show ?thesis
    unfolding ring_buf_read_timeout_section_def ring_buf_read_section_def Let_def e_def [symmetric] len m
      ucast_less_u16 d c z l_def [symmetric] unat_u16_u32 ..
qed

end
