(* ===== verification/UbxFraming.thy ===== *)
theory UbxFraming
  imports Bits
begin

text \<open>
  The receiver of u-blox and RTCM frames,
  atomics/ublox/protocol/rx_framing/ublox_protocol_rx_framing_exec.c: the checksum,
  the byte state machine of \<open>ubx_process\<close>, its loop over the receive buffer and the
  loop of \<open>exec\<close> over the calls of read. A store or copy outside a buffer is None.
  The widths of the state's fields are those of declaration.py; the header fields
  are read in the little endian order of the target.
\<close>

section \<open>State\<close>

record vec8 =
  v_len :: u32
  v_max :: u32
  v_dat :: "u8 list"

record ubx_parse =
  rx_state :: u32
  rx_unframed_bytes_cnt :: u32
  ubx_buf :: vec8
  rtcm_buf :: vec8
  ubx_err_crc_cnt :: u32
  ubx_frame_cnt :: u32
  rtcm_err_crc_cnt :: u32
  rtcm_frame_cnt :: u32

text \<open>The rest of the state: the file, the receive buffer and the position in it.\<close>

record rx_framing =
  rx_fd :: int
  rx_buf :: vec8
  rx_buf_index :: u32
  rx_bytes_cnt :: u32
  parse :: ubx_parse

record rx_out =
  ubx_frame :: vec8
  rtcm_frame :: vec8
  ubx_frame_updated :: bool
  rtcm_frame_updated :: bool

definition RESET :: u32 where "RESET = 0"
definition UBX_RTCM_WAIT_START_SC :: u32 where "UBX_RTCM_WAIT_START_SC = 1"
definition UBX_WAIT_SC2 :: u32 where "UBX_WAIT_SC2 = 2"
definition UBX_WAIT_LENGTH :: u32 where "UBX_WAIT_LENGTH = 3"
definition UBX_WAIT_REST :: u32 where "UBX_WAIT_REST = 4"
definition RTCM_WAIT_LENGTH :: u32 where "RTCM_WAIT_LENGTH = 5"
definition RTCM_WAIT_REST :: u32 where "RTCM_WAIT_REST = 6"

lemmas ubx_state_defs = RESET_def UBX_RTCM_WAIT_START_SC_def UBX_WAIT_SC2_def UBX_WAIT_LENGTH_def
  UBX_WAIT_REST_def RTCM_WAIT_LENGTH_def RTCM_WAIT_REST_def

section \<open>Operations\<close>

text \<open>Opening and configuring the port; open, tcgetattr and tcsetattr are the caller's.\<close>

definition ublox_pre_exec_init ::
    "int \<Rightarrow> (int \<Rightarrow> int) \<Rightarrow> (int \<Rightarrow> int) \<Rightarrow> rx_framing \<Rightarrow> bool \<times> rx_framing" where
  "ublox_pre_exec_init opened tcgetattr tcsetattr s =
     (let s = s \<lparr> rx_fd := opened \<rparr> in
      if rx_fd s < 0 then (False, s)
      else if tcgetattr (rx_fd s) \<noteq> 0 then (False, s)
      else if tcsetattr (rx_fd s) \<noteq> 0 then (False, s)
      else (True, s))"

fun ubx_ck :: "u8 list \<Rightarrow> u8 \<Rightarrow> u8 \<Rightarrow> u8 \<times> u8" where
  "ubx_ck [] ck_a ck_b = (ck_a, ck_b)"
| "ubx_ck (b # bs) ck_a ck_b = (let ck_a = ck_a + b; ck_b = ck_b + ck_a in ubx_ck bs ck_a ck_b)"

definition ubx_calc_crc :: "u8 list \<Rightarrow> nat \<Rightarrow> u16" where
  "ubx_calc_crc buf n = (let (ck_a, ck_b) = ubx_ck (take n buf) 0 0 in msb_lsb_16 ck_b ck_a)"

definition swap_bytes :: "u16 \<Rightarrow> u16" where
  "swap_bytes w = (let b0 = (ucast w :: u8); b1 = (ucast (drop_bit 8 w) :: u8) in ucast b1 OR push_bit 8 (ucast b0))"

text \<open>The \<open>len\<close> fields of the two packed headers over their buffers.\<close>

definition ubx_hdr_len :: "u8 list \<Rightarrow> u16" where
  "ubx_hdr_len v = msb_lsb_16 (v ! 3) (v ! 2)"

definition rtcm_hdr_len :: "u8 list \<Rightarrow> u16" where
  "rtcm_hdr_len v = msb_lsb_16 (v ! 2) (v ! 1)"

text \<open>\<open>UBX_BUF_LEN_TO_PAYLOAD_SIZE\<close>: the 4 bytes of the header and the 2 of the checksum
  are subtracted in 32 bit unsigned arithmetic.\<close>

definition UBX_BUF_LEN_TO_PAYLOAD_SIZE :: "u32 \<Rightarrow> u32" where
  "UBX_BUF_LEN_TO_PAYLOAD_SIZE l = l - 4 - 2"

text \<open>\<open>v.vector[v.curr_len++] = c\<close>\<close>

definition vec8_push :: "u8 \<Rightarrow> vec8 \<Rightarrow> vec8 option" where
  "vec8_push c v = do {
     d \<leftarrow> arr_set (v_dat v) (unat (v_len v)) c;
     Some (v \<lparr> v_dat := d, v_len := v_len v + 1 \<rparr>) }"

text \<open>Copying an accumulated frame to an output.\<close>

definition vec8_copy :: "vec8 \<Rightarrow> vec8 \<Rightarrow> vec8 option" where
  "vec8_copy src dst = do {
     d \<leftarrow> memcpy (v_dat dst) 0 (v_dat src) 0 (unat (v_len src));
     Some (dst \<lparr> v_dat := d, v_len := v_len src \<rparr>) }"

definition ubx_start_byte :: "u8 \<Rightarrow> ubx_parse \<Rightarrow> ubx_parse option" where
  "ubx_start_byte c p =
     (if c = 0xb5 then Some (p \<lparr> rx_state := UBX_WAIT_SC2 \<rparr>)
      else if c = 0xd3 then do {
        v \<leftarrow> vec8_push c (rtcm_buf p);
        Some (p \<lparr> rtcm_buf := v, rx_state := RTCM_WAIT_LENGTH \<rparr>) }
      else Some (p \<lparr> rx_unframed_bytes_cnt := rx_unframed_bytes_cnt p + 1 \<rparr>))"

definition ubx_reset :: "ubx_parse \<Rightarrow> ubx_parse" where
  "ubx_reset p = p \<lparr> rx_state := UBX_RTCM_WAIT_START_SC,
     ubx_buf := (ubx_buf p) \<lparr> v_len := 0 \<rparr>, rtcm_buf := (rtcm_buf p) \<lparr> v_len := 0 \<rparr> \<rparr>"

definition ubx_length_byte :: "u8 \<Rightarrow> ubx_parse \<Rightarrow> ubx_parse option" where
  "ubx_length_byte c p = do {
     v \<leftarrow> vec8_push c (ubx_buf p);
     let p = p \<lparr> ubx_buf := v \<rparr>;
     Some (if v_len v = 4 then
             (if ucast (ubx_hdr_len (v_dat v)) > UBX_BUF_LEN_TO_PAYLOAD_SIZE (v_max v)
              then p \<lparr> rx_state := RESET \<rparr> else p \<lparr> rx_state := UBX_WAIT_REST \<rparr>)
           else p) }"

definition rtcm_length_byte :: "u8 \<Rightarrow> ubx_parse \<Rightarrow> ubx_parse option" where
  "rtcm_length_byte c p = do {
     v \<leftarrow> vec8_push c (rtcm_buf p);
     let p = p \<lparr> rtcm_buf := v \<rparr>;
     Some (if v_len v = 1 + 2 then
             (if ucast (swap_bytes (rtcm_hdr_len (v_dat v))) > v_max v - 4
              then p \<lparr> rx_state := RESET \<rparr> else p \<lparr> rx_state := RTCM_WAIT_REST \<rparr>)
           else p) }"

definition ubx_rest_byte :: "u8 \<Rightarrow> ubx_parse \<Rightarrow> rx_out \<Rightarrow> (ubx_parse \<times> rx_out) option" where
  "ubx_rest_byte c p out = do {
     v \<leftarrow> vec8_push c (ubx_buf p);
     let p = p \<lparr> ubx_buf := v \<rparr>;
     let len = ubx_hdr_len (v_dat v);
     (if UBX_BUF_LEN_TO_PAYLOAD_SIZE (v_len v) = ucast len then do {
        let ck = ubx_calc_crc (v_dat v) (unat len + 4);
        (if (ucast ck, ucast (drop_bit 8 ck)) = (v_dat v ! (4 + unat len), v_dat v ! (4 + unat len + 1)) then do {
           f \<leftarrow> vec8_copy v (ubx_frame out);
           Some (p \<lparr> ubx_frame_cnt := ubx_frame_cnt p + 1, rx_state := RESET \<rparr>,
                 out \<lparr> ubx_frame := f, ubx_frame_updated := True \<rparr>) }
         else Some (p \<lparr> ubx_err_crc_cnt := ubx_err_crc_cnt p + 1, rx_state := RESET \<rparr>, out)) }
      else Some (p, out)) }"

definition rtcm_rest_byte :: "u8 \<Rightarrow> ubx_parse \<Rightarrow> rx_out \<Rightarrow> (ubx_parse \<times> rx_out) option" where
  "rtcm_rest_byte c p out = do {
     v \<leftarrow> vec8_push c (rtcm_buf p);
     let p = p \<lparr> rtcm_buf := v \<rparr>;
     (if v_len v = ucast (swap_bytes (rtcm_hdr_len (v_dat v))) + 1 + 2 + 3 then do {
        f \<leftarrow> vec8_copy v (rtcm_frame out);
        Some (p \<lparr> rtcm_frame_cnt := rtcm_frame_cnt p + 1, rx_state := RESET \<rparr>,
              out \<lparr> rtcm_frame := f, rtcm_frame_updated := True \<rparr>) }
      else Some (p, out)) }"

text \<open>The switch on the state; RESET falls through to the wait for a start byte, and any
  other value of the state is treated as RESET.\<close>

definition ubx_byte :: "u8 \<Rightarrow> ubx_parse \<Rightarrow> rx_out \<Rightarrow> (ubx_parse \<times> rx_out) option" where
  "ubx_byte c p out =
     (if rx_state p = UBX_RTCM_WAIT_START_SC then do { p \<leftarrow> ubx_start_byte c p; Some (p, out) }
      else if rx_state p = UBX_WAIT_SC2 then
        Some (if c = 0x62 then p \<lparr> rx_state := UBX_WAIT_LENGTH \<rparr> else p \<lparr> rx_state := RESET \<rparr>, out)
      else if rx_state p = UBX_WAIT_LENGTH then do { p \<leftarrow> ubx_length_byte c p; Some (p, out) }
      else if rx_state p = RTCM_WAIT_LENGTH then do { p \<leftarrow> rtcm_length_byte c p; Some (p, out) }
      else if rx_state p = UBX_WAIT_REST then ubx_rest_byte c p out
      else if rx_state p = RTCM_WAIT_REST then rtcm_rest_byte c p out
      else do { p \<leftarrow> ubx_start_byte c (ubx_reset p); Some (p, out) })"

lemma unat_Suc_below: "i < l \<Longrightarrow> unat (i + 1) = unat i + 1" for i l :: u32
proof -
  assume "i < l"
  then have "unat i + unat (1 :: u32) < 2 ^ LENGTH(32)"
    using le_less_trans [OF _ unsigned_less, of "unat i + 1" l] by (simp add: word_less_nat_alt)
  from unat_plus_less [OF this] show ?thesis
    by simp
qed

lemma index_measure: "i + 1 < l \<Longrightarrow> unat (l - i - 2) < unat (l - i - 1)" for i l :: u32
proof -
  assume *: "i + 1 < l"
  have e: "l - i - 2 = l - (i + 1 + 1)" "l - i - 1 = l - (i + 1)"
    by simp_all
  have "unat (l - (i + 1 + 1)) = unat l - unat (i + 1 + 1)" "unat (l - (i + 1)) = unat l - unat (i + 1)"
    using * unat_Suc_below [OF *] by (intro unat_minus_le; simp add: word_le_nat_alt word_less_nat_alt)+
  then show ?thesis
    unfolding e using * unat_Suc_below [OF *] by (simp only: word_less_nat_alt)
qed

function ubx_process :: "rx_framing \<Rightarrow> rx_out \<Rightarrow> (rx_framing \<times> rx_out) option" where
  "ubx_process s out = (case arr_get (v_dat (rx_buf s)) (unat (rx_buf_index s)) of
      None \<Rightarrow> None
    | Some c \<Rightarrow> (case ubx_byte c (parse s) out of
        None \<Rightarrow> None
      | Some (p, out') \<Rightarrow>
          (let s' = s \<lparr> parse := p, rx_buf_index := rx_buf_index s + 1 \<rparr> in
           if rx_buf_index s' < v_len (rx_buf s') \<and> rx_state p \<noteq> RESET
           then ubx_process s' out' else Some (s', out'))))"
  by pat_completeness auto

termination
  by (relation "measure (\<lambda>(s, _). unat (v_len (rx_buf s) - rx_buf_index s - 1))")
    (auto simp: index_measure)

text \<open>Only the accumulated results of read are inputs of \<open>exec\<close>: an error ends it, and with
  no result left it waits in read. \<open>Crashed\<close> is undefined behaviour.\<close>

datatype exec_end = Crashed | Waiting rx_framing rx_out | Returned "(errno + u8 list) list" rx_framing rx_out

lemma ubx_process_advances:
  "ubx_process s out = Some (s', out') \<Longrightarrow> rx_buf s' = rx_buf s \<and> rx_bytes_cnt s' = rx_bytes_cnt s \<and>
    (rx_buf_index s < v_len (rx_buf s) \<longrightarrow> rx_buf_index s < rx_buf_index s' \<and> rx_buf_index s' \<le> v_len (rx_buf s))"
proof (induction s out rule: ubx_process.induct)
  case (1 s out)
  have step: "rx_buf_index s < v_len (rx_buf s) \<Longrightarrow>
      rx_buf_index s < rx_buf_index s + 1 \<and> rx_buf_index s + 1 \<le> v_len (rx_buf s)"
    using unat_Suc_below [of "rx_buf_index s"] by (simp add: word_less_nat_alt word_le_nat_alt)
  show ?case
  proof (cases "arr_get (v_dat (rx_buf s)) (unat (rx_buf_index s))")
    case None
    then show ?thesis
      using 1(2) by simp
  next
    case (Some c)
    note c = this
    show ?thesis
    proof (cases "ubx_byte c (parse s) out")
      case None
      then show ?thesis
        using 1(2) c by simp
    next
      case (Some po)
      obtain p out1 where po: "po = (p, out1)"
        by (cases po)
      let ?s = "s \<lparr> parse := p, rx_buf_index := rx_buf_index s + 1 \<rparr>"
      show ?thesis
      proof (cases "rx_buf_index ?s < v_len (rx_buf ?s) \<and> rx_state p \<noteq> RESET")
        case True
        then have "ubx_process ?s out1 = Some (s', out')"
          using 1(2) c Some po by (simp add: Let_def)
        from 1(1) [OF c Some po [symmetric] refl True this] show ?thesis
          using step True by auto
      next
        case False
        then have "s' = ?s"
          using 1(2) c Some po by (auto simp: Let_def split: if_splits)
        then show ?thesis
          using step by simp
      qed
    qed
  qed
qed

text \<open>The result of a read is stored at the start of the receive buffer.\<close>

definition rx_load :: "u8 list \<Rightarrow> rx_framing \<Rightarrow> rx_framing option" where
  "rx_load bs s = do {
     d \<leftarrow> memcpy (v_dat (rx_buf s)) 0 bs 0 (length bs);
     Some (s \<lparr> rx_bytes_cnt := rx_bytes_cnt s + word_of_nat (length bs),
               rx_buf := (rx_buf s) \<lparr> v_dat := d, v_len := word_of_nat (length bs) \<rparr>,
               rx_buf_index := 0 \<rparr>) }"

function exec :: "(errno + u8 list) list \<Rightarrow> rx_framing \<Rightarrow> rx_out \<Rightarrow> exec_end" where
  "exec rds s out =
     (if rx_buf_index s \<ge> v_len (rx_buf s) then
        (case rds of
           [] \<Rightarrow> Waiting s out
         | Inl e # rds' \<Rightarrow> Returned rds' s out
         | Inr bs # rds' \<Rightarrow>
             (case rx_load bs s of None \<Rightarrow> Crashed
              | Some s1 \<Rightarrow> (case ubx_process s1 out of None \<Rightarrow> Crashed
                  | Some (s', out') \<Rightarrow>
                      if \<not> (ubx_frame_updated out' \<or> rtcm_frame_updated out')
                      then exec rds' s' out' else Returned rds' s' out')))
      else
        (case ubx_process s out of None \<Rightarrow> Crashed
         | Some (s', out') \<Rightarrow>
             if \<not> (ubx_frame_updated out' \<or> rtcm_frame_updated out')
             then exec rds s' out' else Returned rds s' out'))"
  by pat_completeness auto

termination
proof (relation "measures [\<lambda>(rds, s, out). length rds, \<lambda>(rds, s, out). unat (v_len (rx_buf s)) - unat (rx_buf_index s)]",
    goal_cases)
  case (3 rds s out x s' out')
  then have "rx_buf_index s < v_len (rx_buf s)"
    by (simp add: not_le)
  with 3 ubx_process_advances [of s out s' out'] show ?case
    by (auto simp: word_less_nat_alt word_le_nat_alt)
qed auto

section \<open>The checksum\<close>

lemma ubx_ck_append: "ubx_ck (xs @ ys) a b = (case ubx_ck xs a b of (a', b') \<Rightarrow> ubx_ck ys a' b')"
  by (induction xs arbitrary: a b) (auto simp: Let_def)

text \<open>The closed form: the sum of the bytes and their sum weighted by distance from the end.\<close>

lemma ubx_ck_sums:
  "ubx_ck xs a b = (a + sum_list xs, b + of_nat (length xs) * a + (\<Sum>i < length xs. of_nat (length xs - i) * xs ! i))"
proof (induction xs arbitrary: a b)
  case (Cons x xs)
  have "(\<Sum>i < length (x # xs). of_nat (length (x # xs) - i) * (x # xs) ! i) =
      of_nat (Suc (length xs)) * x + (\<Sum>i < length xs. of_nat (length xs - i) * xs ! i)"
    by (simp add: sum.lessThan_Suc_shift del: sum.lessThan_Suc)
  then show ?case
    by (simp add: Cons.IH Let_def algebra_simps del: of_nat_Suc) (simp add: algebra_simps)
qed simp

lemma ubx_calc_crc_low: "ucast (ubx_calc_crc buf n) = sum_list (take n buf)"
  by (simp add: ubx_calc_crc_def ubx_ck_sums)

lemma ubx_calc_crc_high:
  "ucast (drop_bit 8 (ubx_calc_crc buf n)) =
     (\<Sum>i < length (take n buf). of_nat (length (take n buf) - i) * take n buf ! i)"
  by (simp add: ubx_calc_crc_def ubx_ck_sums)

section \<open>Buffers\<close>

text \<open>The bytes accumulated so far.\<close>

definition acc :: "vec8 \<Rightarrow> u8 list" where
  "acc v = take (unat (v_len v)) (v_dat v)"

definition vec8_ok :: "vec8 \<Rightarrow> bool" where
  "vec8_ok v \<longleftrightarrow> length (v_dat v) = unat (v_max v) \<and> unat (v_len v) \<le> unat (v_max v) \<and>
     6 \<le> unat (v_max v) \<and> unat (v_max v) < 65536"

lemma acc_length [len_simps]: "vec8_ok v \<Longrightarrow> length (acc v) = unat (v_len v)"
  by (simp add: acc_def vec8_ok_def)

lemma vec8_push_ok:
  assumes "vec8_ok v" and "unat (v_len v) < unat (v_max v)"
  shows "\<exists>v'. vec8_push c v = Some v' \<and> vec8_ok v' \<and> acc v' = acc v @ [c] \<and>
     v_max v' = v_max v \<and> v_len v' = v_len v + 1 \<and> unat (v_len v') = unat (v_len v) + 1"
proof -
  have l: "v_len v < v_max v"
    using assms by (simp add: word_less_nat_alt)
  note u = unat_Suc_below [OF l]
  have "vec8_push c v = Some (v \<lparr> v_dat := (v_dat v)[unat (v_len v) := c], v_len := v_len v + 1 \<rparr>)"
    using assms by (simp add: vec8_push_def arr_set_def vec8_ok_def)
  moreover have "take (unat (v_len v) + 1) ((v_dat v)[unat (v_len v) := c]) = take (unat (v_len v)) (v_dat v) @ [c]"
    using assms by (simp add: vec8_ok_def take_Suc_conv_app_nth)
  ultimately show ?thesis
    using assms u by (simp add: vec8_ok_def acc_def)
qed

lemma vec8_push_None: "vec8_ok v \<Longrightarrow> vec8_push c v = None \<longleftrightarrow> unat (v_len v) = unat (v_max v)"
  by (auto simp: vec8_push_def vec8_ok_def arr_set_def split: bind_splits if_splits)

lemma vec8_push_Some:
  assumes "vec8_ok v" and "vec8_push c v = Some v'"
  shows "unat (v_len v) < unat (v_max v) \<and> vec8_ok v' \<and> acc v' = acc v @ [c] \<and>
     v_max v' = v_max v \<and> v_len v' = v_len v + 1 \<and> unat (v_len v') = unat (v_len v) + 1"
proof -
  have "unat (v_len v) < unat (v_max v)"
    using assms vec8_push_None [of v c] by (auto simp: vec8_ok_def)
  with vec8_push_ok [OF assms(1) this, of c] assms(2) show ?thesis
    by auto
qed

lemma vec8_copy_ok:
  assumes "vec8_ok src" and "length (v_dat dst) = unat (v_max src)"
  shows "\<exists>d. vec8_copy src dst = Some (dst \<lparr> v_dat := d, v_len := v_len src \<rparr>) \<and>
     length d = length (v_dat dst) \<and> take (unat (v_len src)) d = acc src"
  using assms by (intro exI [of _ "take (unat (v_len src)) (v_dat src) @ drop (unat (v_len src)) (v_dat dst)"])
    (simp add: vec8_copy_def vec8_ok_def memcpy_def acc_def)

lemma acc_nth: "vec8_ok v \<Longrightarrow> i < unat (v_len v) \<Longrightarrow> v_dat v ! i = acc v ! i"
  by (simp add: acc_def)

lemma hdr_len_acc:
  "vec8_ok v \<Longrightarrow> 4 \<le> unat (v_len v) \<Longrightarrow> ubx_hdr_len (v_dat v) = ubx_hdr_len (acc v)"
  "vec8_ok v \<Longrightarrow> 3 \<le> unat (v_len v) \<Longrightarrow> rtcm_hdr_len (v_dat v) = rtcm_hdr_len (acc v)"
  by (simp_all add: ubx_hdr_len_def rtcm_hdr_len_def acc_nth)

lemma hdr_len_append:
  "4 \<le> length xs \<Longrightarrow> ubx_hdr_len (xs @ ys) = ubx_hdr_len xs"
  "3 \<le> length xs \<Longrightarrow> rtcm_hdr_len (xs @ ys) = rtcm_hdr_len xs"
  by (simp_all add: ubx_hdr_len_def rtcm_hdr_len_def nth_append)

lemma payload_size_unat: "6 \<le> unat l \<Longrightarrow> unat (UBX_BUF_LEN_TO_PAYLOAD_SIZE l) = unat l - 6"
proof -
  assume "6 \<le> unat l"
  moreover have "l - 4 - 2 = l - 6"
    by simp
  ultimately show ?thesis
    unfolding UBX_BUF_LEN_TO_PAYLOAD_SIZE_def by (simp add: unat_minus_le word_le_nat_alt)
qed

lemma payload_size_small: "unat l < 6 \<Longrightarrow> 4 \<le> unat l \<Longrightarrow> 65536 \<le> unat (UBX_BUF_LEN_TO_PAYLOAD_SIZE l)"
proof -
  assume "unat l < 6" and "4 \<le> unat l"
  then have "unat l = unat (4 :: u32) \<or> unat l = unat (5 :: u32)"
    by auto
  then have "l = 4 \<or> l = 5"
    using word_eq_by_unat by blast
  then show ?thesis
    by (auto simp: UBX_BUF_LEN_TO_PAYLOAD_SIZE_def unsigned_minus_1_eq_mask mask_eq_exp_minus_1)
qed

lemma payload_size_eq:
  assumes "4 \<le> unat l"
  shows "UBX_BUF_LEN_TO_PAYLOAD_SIZE l = ucast (n :: u16) \<longleftrightarrow> unat l = unat n + 6"
proof (cases "6 \<le> unat l")
  case True
  then show ?thesis
    using payload_size_unat [OF True] by (auto simp: unat_u16_u32 [symmetric] intro!: word_eq_by_unat simp del: unat_u16_u32)
next
  case False
  then show ?thesis
    using payload_size_small [of l] assms unat_lt_65536 [of n]
    by (metis add.commute le_add2 not_le unat_u16_u32)
qed

section \<open>Invariant and memory safety\<close>

definition frames_ok :: "ubx_parse \<Rightarrow> rx_out \<Rightarrow> bool" where
  "frames_ok p out \<longleftrightarrow> vec8_ok (ubx_buf p) \<and> vec8_ok (rtcm_buf p) \<and>
     length (v_dat (ubx_frame out)) = unat (v_max (ubx_buf p)) \<and>
     length (v_dat (rtcm_frame out)) = unat (v_max (rtcm_buf p))"

definition state_ok :: "ubx_parse \<Rightarrow> bool" where
  "state_ok p \<longleftrightarrow>
     (let st = rx_state p; n = unat (v_len (ubx_buf p)); m = unat (v_len (rtcm_buf p)) in
      (st = UBX_RTCM_WAIT_START_SC \<longrightarrow> n = 0 \<and> m = 0) \<and>
      (st = UBX_WAIT_SC2 \<longrightarrow> n = 0) \<and>
      (st = UBX_WAIT_LENGTH \<longrightarrow> n < 4) \<and>
      (st = RTCM_WAIT_LENGTH \<longrightarrow> 1 \<le> m \<and> m < 3) \<and>
      (st = UBX_WAIT_REST \<longrightarrow> 4 \<le> n \<and> n < unat (ubx_hdr_len (acc (ubx_buf p))) + 6 \<and>
          unat (ubx_hdr_len (acc (ubx_buf p))) + 6 \<le> unat (v_max (ubx_buf p))) \<and>
      (st = RTCM_WAIT_REST \<longrightarrow> 3 \<le> m \<and> m < unat (swap_bytes (rtcm_hdr_len (acc (rtcm_buf p)))) + 6 \<and>
          unat (swap_bytes (rtcm_hdr_len (acc (rtcm_buf p)))) + 4 \<le> unat (v_max (rtcm_buf p))))"

definition ubx_inv :: "ubx_parse \<Rightarrow> rx_out \<Rightarrow> bool" where
  "ubx_inv p out \<longleftrightarrow> frames_ok p out \<and> state_ok p"

lemma state_neq [simp]:
  "RESET \<noteq> UBX_RTCM_WAIT_START_SC" "RESET \<noteq> UBX_WAIT_SC2" "RESET \<noteq> UBX_WAIT_LENGTH" "RESET \<noteq> UBX_WAIT_REST"
  "RESET \<noteq> RTCM_WAIT_LENGTH" "RESET \<noteq> RTCM_WAIT_REST"
  "UBX_RTCM_WAIT_START_SC \<noteq> RESET" "UBX_WAIT_SC2 \<noteq> RESET" "UBX_WAIT_LENGTH \<noteq> RESET" "UBX_WAIT_REST \<noteq> RESET"
  "RTCM_WAIT_LENGTH \<noteq> RESET" "RTCM_WAIT_REST \<noteq> RESET"
  "UBX_RTCM_WAIT_START_SC \<noteq> UBX_WAIT_SC2" "UBX_RTCM_WAIT_START_SC \<noteq> UBX_WAIT_LENGTH"
  "UBX_RTCM_WAIT_START_SC \<noteq> UBX_WAIT_REST" "UBX_RTCM_WAIT_START_SC \<noteq> RTCM_WAIT_LENGTH"
  "UBX_RTCM_WAIT_START_SC \<noteq> RTCM_WAIT_REST"
  "UBX_WAIT_SC2 \<noteq> UBX_RTCM_WAIT_START_SC" "UBX_WAIT_SC2 \<noteq> UBX_WAIT_LENGTH" "UBX_WAIT_SC2 \<noteq> UBX_WAIT_REST"
  "UBX_WAIT_SC2 \<noteq> RTCM_WAIT_LENGTH" "UBX_WAIT_SC2 \<noteq> RTCM_WAIT_REST"
  "UBX_WAIT_LENGTH \<noteq> UBX_RTCM_WAIT_START_SC" "UBX_WAIT_LENGTH \<noteq> UBX_WAIT_SC2" "UBX_WAIT_LENGTH \<noteq> UBX_WAIT_REST"
  "UBX_WAIT_LENGTH \<noteq> RTCM_WAIT_LENGTH" "UBX_WAIT_LENGTH \<noteq> RTCM_WAIT_REST"
  "UBX_WAIT_REST \<noteq> UBX_RTCM_WAIT_START_SC" "UBX_WAIT_REST \<noteq> UBX_WAIT_SC2" "UBX_WAIT_REST \<noteq> UBX_WAIT_LENGTH"
  "UBX_WAIT_REST \<noteq> RTCM_WAIT_LENGTH" "UBX_WAIT_REST \<noteq> RTCM_WAIT_REST"
  "RTCM_WAIT_LENGTH \<noteq> UBX_RTCM_WAIT_START_SC" "RTCM_WAIT_LENGTH \<noteq> UBX_WAIT_SC2" "RTCM_WAIT_LENGTH \<noteq> UBX_WAIT_LENGTH"
  "RTCM_WAIT_LENGTH \<noteq> UBX_WAIT_REST" "RTCM_WAIT_LENGTH \<noteq> RTCM_WAIT_REST"
  "RTCM_WAIT_REST \<noteq> UBX_RTCM_WAIT_START_SC" "RTCM_WAIT_REST \<noteq> UBX_WAIT_SC2" "RTCM_WAIT_REST \<noteq> UBX_WAIT_LENGTH"
  "RTCM_WAIT_REST \<noteq> UBX_WAIT_REST" "RTCM_WAIT_REST \<noteq> RTCM_WAIT_LENGTH"
  by (simp_all add: ubx_state_defs)

lemma ubx_reset_ok: "frames_ok p out \<Longrightarrow> frames_ok (ubx_reset p) out \<and> state_ok (ubx_reset p)"
  by (simp add: frames_ok_def vec8_ok_def ubx_reset_def state_ok_def Let_def)

lemma ubx_start_inv [inv_intros]:
  assumes "frames_ok p out" and "unat (v_len (ubx_buf p)) = 0" and "unat (v_len (rtcm_buf p)) = 0"
    and st: "rx_state p = UBX_RTCM_WAIT_START_SC"
  shows "\<exists>p'. ubx_start_byte c p = Some p' \<and> ubx_inv p' out"
proof (cases "c = 0xd3")
  case True
  have "vec8_ok (rtcm_buf p)" and "unat (v_len (rtcm_buf p)) < unat (v_max (rtcm_buf p))"
    using assms by (auto simp: frames_ok_def vec8_ok_def)
  from vec8_push_ok [OF this, of c] True assms show ?thesis
    by (auto simp: ubx_start_byte_def ubx_inv_def frames_ok_def state_ok_def Let_def)
next
  case False
  with assms show ?thesis
    by (auto simp: ubx_start_byte_def ubx_inv_def frames_ok_def state_ok_def Let_def)
qed

lemma ubx_length_inv [inv_intros]:
  assumes inv: "ubx_inv p out" and st: "rx_state p = UBX_WAIT_LENGTH"
  shows "\<exists>p'. ubx_length_byte c p = Some p' \<and> ubx_inv p' out"
proof -
  have v: "vec8_ok (ubx_buf p)" and l: "unat (v_len (ubx_buf p)) < 4"
    using inv st by (auto simp: ubx_inv_def frames_ok_def state_ok_def Let_def)
  then have "unat (v_len (ubx_buf p)) < unat (v_max (ubx_buf p))"
    by (auto simp: vec8_ok_def)
  from vec8_push_ok [OF v this, of c] obtain v' where v': "vec8_push c (ubx_buf p) = Some v'" "vec8_ok v'"
    "v_max v' = v_max (ubx_buf p)" "unat (v_len v') = unat (v_len (ubx_buf p)) + 1"
    by auto
  show ?thesis
  proof (cases "v_len v' = 4")
    case True
    have "6 \<le> unat (v_max v')"
      using v' by (simp add: vec8_ok_def)
    then have "ucast (ubx_hdr_len (v_dat v')) > UBX_BUF_LEN_TO_PAYLOAD_SIZE (v_max v') \<longleftrightarrow>
        unat (v_max v') < unat (ubx_hdr_len (acc v')) + 6"
      using payload_size_unat hdr_len_acc(1) [OF v'(2)] True by (auto simp: word_less_nat_alt)
    then show ?thesis
      using True v' inv st by (auto simp: ubx_length_byte_def Let_def ubx_inv_def frames_ok_def state_ok_def)
  next
    case False
    then have "unat (v_len v') \<noteq> unat (4 :: u32)"
      using word_eq_by_unat by blast
    then show ?thesis
      using False v' inv st l by (auto simp: ubx_length_byte_def Let_def ubx_inv_def frames_ok_def state_ok_def)
  qed
qed

lemma rtcm_length_inv [inv_intros]:
  assumes inv: "ubx_inv p out" and st: "rx_state p = RTCM_WAIT_LENGTH"
  shows "\<exists>p'. rtcm_length_byte c p = Some p' \<and> ubx_inv p' out"
proof -
  have v: "vec8_ok (rtcm_buf p)" and l: "unat (v_len (rtcm_buf p)) < 3" "1 \<le> unat (v_len (rtcm_buf p))"
    using inv st by (auto simp: ubx_inv_def frames_ok_def state_ok_def Let_def)
  then have "unat (v_len (rtcm_buf p)) < unat (v_max (rtcm_buf p))"
    by (auto simp: vec8_ok_def)
  from vec8_push_ok [OF v this, of c] obtain v' where v': "vec8_push c (rtcm_buf p) = Some v'" "vec8_ok v'"
    "v_max v' = v_max (rtcm_buf p)" "unat (v_len v') = unat (v_len (rtcm_buf p)) + 1"
    by auto
  show ?thesis
  proof (cases "v_len v' = 3")
    case True
    have "6 \<le> unat (v_max v')"
      using v' by (simp add: vec8_ok_def)
    then have "ucast (swap_bytes (rtcm_hdr_len (v_dat v'))) > v_max v' - 4 \<longleftrightarrow>
        unat (v_max v') < unat (swap_bytes (rtcm_hdr_len (acc v'))) + 4"
      using hdr_len_acc(2) [OF v'(2)] True by (auto simp: word_less_nat_alt word_le_nat_alt unat_minus_le)
    then show ?thesis
      using True v' inv st by (auto simp: rtcm_length_byte_def Let_def ubx_inv_def frames_ok_def state_ok_def)
  next
    case False
    then have "unat (v_len v') \<noteq> unat (3 :: u32)"
      using word_eq_by_unat by blast
    then show ?thesis
      using False v' inv st l by (auto simp: rtcm_length_byte_def Let_def ubx_inv_def frames_ok_def state_ok_def)
  qed
qed

lemma ubx_rest_inv [inv_intros]:
  assumes inv: "ubx_inv p out" and st: "rx_state p = UBX_WAIT_REST"
  shows "\<exists>p' out'. ubx_rest_byte c p out = Some (p', out') \<and> ubx_inv p' out'"
proof -
  let ?n = "unat (v_len (ubx_buf p))" and ?h = "ubx_hdr_len (acc (ubx_buf p))"
  have v: "vec8_ok (ubx_buf p)" and n: "4 \<le> ?n" "?n < unat ?h + 6" "unat ?h + 6 \<le> unat (v_max (ubx_buf p))"
    and o: "length (v_dat (ubx_frame out)) = unat (v_max (ubx_buf p))"
    using inv st by (auto simp: ubx_inv_def frames_ok_def state_ok_def Let_def)
  then have lt: "?n < unat (v_max (ubx_buf p))"
    by simp
  from vec8_push_ok [OF v this, of c] obtain v' where v': "vec8_push c (ubx_buf p) = Some v'" "vec8_ok v'"
    "acc v' = acc (ubx_buf p) @ [c]" "v_max v' = v_max (ubx_buf p)" "unat (v_len v') = ?n + 1"
    by auto
  have h: "ubx_hdr_len (v_dat v') = ?h"
    using v' n v by (simp add: hdr_len_acc hdr_len_append acc_length)
  obtain d where d: "vec8_copy v' (ubx_frame out) = Some ((ubx_frame out) \<lparr> v_dat := d, v_len := v_len v' \<rparr>)"
    "length d = length (v_dat (ubx_frame out))"
    using vec8_copy_ok [of v' "ubx_frame out"] v' o by auto
  have e: "UBX_BUF_LEN_TO_PAYLOAD_SIZE (v_len v') = ucast ?h \<longleftrightarrow> ?n + 1 = unat ?h + 6"
    using payload_size_eq [of "v_len v'" ?h] v' n by simp
  have h': "ubx_hdr_len (acc (ubx_buf p) @ [c]) = ?h"
    using v n by (simp add: hdr_len_append acc_length)
  show ?thesis
    using v' d e h h' n inv st by (auto simp: ubx_rest_byte_def Let_def ubx_inv_def frames_ok_def state_ok_def)
qed

lemma swap_hdr_append: "3 \<le> length xs \<Longrightarrow> swap_bytes (rtcm_hdr_len (xs @ ys)) = swap_bytes (rtcm_hdr_len xs)"
  by (simp add: hdr_len_append)

lemma rtcm_rest_len:
  assumes "unat (v_len v) < 65536"
  shows "v_len v = ucast (h :: u16) + 1 + 2 + 3 \<longleftrightarrow> unat (v_len v) = unat h + 6"
proof -
  have "unat (6 :: u32) + unat (ucast h :: u32) < 2 ^ LENGTH(32)"
    using unat_lt_65536 [of h] by (simp del: unat_lt_65536)
  then have "unat (6 + ucast h :: u32) = unat h + 6"
    using unat_plus_less by fastforce
  moreover have "ucast h + 1 + 2 + 3 = (6 + ucast h :: u32)"
    by simp
  ultimately show ?thesis
    by (metis word_eq_by_unat)
qed

lemma rtcm_rest_inv [inv_intros]:
  assumes inv: "ubx_inv p out" and st: "rx_state p = RTCM_WAIT_REST"
    and lt: "v_len (rtcm_buf p) \<noteq> v_max (rtcm_buf p)"
  shows "\<exists>p' out'. rtcm_rest_byte c p out = Some (p', out') \<and> ubx_inv p' out'"
proof -
  let ?n = "unat (v_len (rtcm_buf p))" and ?h = "swap_bytes (rtcm_hdr_len (acc (rtcm_buf p)))"
  have v: "vec8_ok (rtcm_buf p)" and n: "3 \<le> ?n" "?n < unat ?h + 6" "unat ?h + 4 \<le> unat (v_max (rtcm_buf p))"
    and o: "length (v_dat (rtcm_frame out)) = unat (v_max (rtcm_buf p))"
    using inv st by (auto simp: ubx_inv_def frames_ok_def state_ok_def Let_def)
  have "?n \<noteq> unat (v_max (rtcm_buf p))"
    using lt word_eq_by_unat by blast
  then have lt: "?n < unat (v_max (rtcm_buf p))"
    using v by (simp add: vec8_ok_def)
  from vec8_push_ok [OF v this, of c] obtain v' where v': "vec8_push c (rtcm_buf p) = Some v'" "vec8_ok v'"
    "acc v' = acc (rtcm_buf p) @ [c]" "v_max v' = v_max (rtcm_buf p)" "unat (v_len v') = ?n + 1"
    by auto
  have h: "swap_bytes (rtcm_hdr_len (v_dat v')) = ?h"
    using v' n v by (simp add: hdr_len_acc hdr_len_append acc_length)
  obtain d where d: "vec8_copy v' (rtcm_frame out) = Some ((rtcm_frame out) \<lparr> v_dat := d, v_len := v_len v' \<rparr>)"
    "length d = length (v_dat (rtcm_frame out))"
    using vec8_copy_ok [of v' "rtcm_frame out"] v' o by auto
  have "unat (v_len v') < 65536"
    using v'(2) by (auto simp: vec8_ok_def)
  then have e: "v_len v' = ucast ?h + 1 + 2 + 3 \<longleftrightarrow> ?n + 1 = unat ?h + 6"
    using rtcm_rest_len [of v' ?h] v' by simp
  have h': "swap_bytes (rtcm_hdr_len (acc (rtcm_buf p) @ [c])) = ?h"
    using v n by (simp add: hdr_len_append acc_length)
  show ?thesis
    using v' d e h h' n inv st by (auto simp: rtcm_rest_byte_def Let_def ubx_inv_def frames_ok_def state_ok_def)
qed

lemma ubx_byte_inv:
  assumes inv: "ubx_inv p out" and safe: "rx_state p \<noteq> RTCM_WAIT_REST \<or> v_len (rtcm_buf p) \<noteq> v_max (rtcm_buf p)"
  shows "\<exists>p' out'. ubx_byte c p out = Some (p', out') \<and> ubx_inv p' out'"
proof -
  have fr: "frames_ok p out"
    using inv by (simp add: ubx_inv_def)
  consider (start) "rx_state p = UBX_RTCM_WAIT_START_SC" | (sc2) "rx_state p = UBX_WAIT_SC2"
    | (len) "rx_state p = UBX_WAIT_LENGTH" | (rlen) "rx_state p = RTCM_WAIT_LENGTH"
    | (rest) "rx_state p = UBX_WAIT_REST" | (rrest) "rx_state p = RTCM_WAIT_REST"
    | (reset) "rx_state p \<notin> {UBX_RTCM_WAIT_START_SC, UBX_WAIT_SC2, UBX_WAIT_LENGTH, RTCM_WAIT_LENGTH, UBX_WAIT_REST, RTCM_WAIT_REST}"
    by blast
  then show ?thesis
  proof cases
    case start
    have "unat (v_len (ubx_buf p)) = 0" and "unat (v_len (rtcm_buf p)) = 0"
      using inv start by (auto simp: ubx_inv_def state_ok_def Let_def)
    from ubx_start_inv [OF fr this start, of c] show ?thesis
      using start by (auto simp: ubx_byte_def)
  next
    case sc2
    then show ?thesis
      using inv by (auto simp: ubx_byte_def ubx_inv_def frames_ok_def state_ok_def Let_def)
  next
    case len
    from ubx_length_inv [OF inv len, of c] show ?thesis
      using len by (auto simp: ubx_byte_def)
  next
    case rlen
    from rtcm_length_inv [OF inv rlen, of c] show ?thesis
      using rlen by (auto simp: ubx_byte_def)
  next
    case rest
    from ubx_rest_inv [OF inv rest, of c] show ?thesis
      using rest by (auto simp: ubx_byte_def)
  next
    case rrest
    with safe have "v_len (rtcm_buf p) \<noteq> v_max (rtcm_buf p)"
      by simp
    from rtcm_rest_inv [OF inv rrest this, of c] show ?thesis
      using rrest by (auto simp: ubx_byte_def)
  next
    case reset
    from ubx_start_inv [of "ubx_reset p" out c] show ?thesis
      using ubx_reset_ok [OF fr] reset by (auto simp: ubx_byte_def ubx_reset_def)
  qed
qed

lemma ubx_byte_None:
  assumes "ubx_inv p out"
  shows "ubx_byte c p out = None \<longleftrightarrow> rx_state p = RTCM_WAIT_REST \<and> v_len (rtcm_buf p) = v_max (rtcm_buf p)"
proof
  show "ubx_byte c p out = None \<Longrightarrow> rx_state p = RTCM_WAIT_REST \<and> v_len (rtcm_buf p) = v_max (rtcm_buf p)"
    using ubx_byte_inv [OF assms, of c] by auto
  assume *: "rx_state p = RTCM_WAIT_REST \<and> v_len (rtcm_buf p) = v_max (rtcm_buf p)"
  then have "vec8_push c (rtcm_buf p) = None"
    using assms vec8_push_None [of "rtcm_buf p" c] by (auto simp: ubx_inv_def frames_ok_def)
  with * show "ubx_byte c p out = None"
    by (simp add: ubx_byte_def rtcm_rest_byte_def)
qed

lemma ubx_byte_keeps:
  assumes "ubx_inv p out" and "ubx_byte c p out = Some (p', out')"
  shows "ubx_inv p' out'"
  using ubx_byte_inv [OF assms(1), of c] ubx_byte_None [OF assms(1), of c] assms(2) by auto

section \<open>Decoding a frame\<close>

fun feed :: "u8 list \<Rightarrow> ubx_parse \<Rightarrow> rx_out \<Rightarrow> (ubx_parse \<times> rx_out) option" where
  "feed [] p out = Some (p, out)"
| "feed (c # cs) p out = (case ubx_byte c p out of None \<Rightarrow> None | Some (p', out') \<Rightarrow> feed cs p' out')"

text \<open>The wire format of a UBX frame.\<close>

definition ubx_body :: "u8 \<Rightarrow> u8 \<Rightarrow> u8 list \<Rightarrow> u8 list" where
  "ubx_body cls idn payload =
     [cls, idn, word_of_nat (length payload), ucast (drop_bit 8 (word_of_nat (length payload) :: u16))] @ payload"

definition ubx_tail :: "u8 list \<Rightarrow> u8 list" where
  "ubx_tail body = (let ck = ubx_calc_crc body (length body) in [ucast ck, ucast (drop_bit 8 ck)])"

definition ubx_encode :: "u8 \<Rightarrow> u8 \<Rightarrow> u8 list \<Rightarrow> u8 list" where
  "ubx_encode cls idn payload = [0xb5, 0x62] @ ubx_body cls idn payload @ ubx_tail (ubx_body cls idn payload)"

lemma feed_append:
  "feed (xs @ ys) p out = (case feed xs p out of None \<Rightarrow> None | Some (p', out') \<Rightarrow> feed ys p' out')"
  by (induction xs arbitrary: p out) (auto split: option.splits)

lemma ubx_body_hdr_len:
  "length payload < 65536 \<Longrightarrow> ubx_hdr_len (ubx_body cls idn payload @ ys) = word_of_nat (length payload)"
proof -
  have "(word_of_nat (length payload) :: u8) = ucast (word_of_nat (length payload) :: u16)"
    by (intro word_eq_by_unat) (simp add: unsigned_ucast_eq unat_of_nat take_bit_eq_mod mod_mod_cancel)
  then show ?thesis
    by (simp add: ubx_body_def ubx_hdr_len_def)
qed

text \<open>Bytes inside the frame are only accumulated.\<close>

lemma feed_length:
  assumes "frames_ok p out" and "rx_state p = UBX_WAIT_LENGTH" and "acc (ubx_buf p) = xs"
    and "length xs + length ys < 4"
  shows "\<exists>v'. feed ys p out = Some (p \<lparr> ubx_buf := v' \<rparr>, out) \<and> vec8_ok v' \<and>
     v_max v' = v_max (ubx_buf p) \<and> acc v' = xs @ ys"
  using assms
proof (induction ys arbitrary: p xs)
  case Nil
  then show ?case
    by (intro exI [of _ "ubx_buf p"]) (simp add: frames_ok_def)
next
  case (Cons c ys)
  have v: "vec8_ok (ubx_buf p)" and l: "unat (v_len (ubx_buf p)) = length xs"
    using Cons.prems acc_length [of "ubx_buf p"] by (auto simp: frames_ok_def)
  then have "unat (v_len (ubx_buf p)) < unat (v_max (ubx_buf p))"
    using Cons.prems by (auto simp: vec8_ok_def)
  from vec8_push_ok [OF v this, of c] obtain v' where v': "vec8_push c (ubx_buf p) = Some v'" "vec8_ok v'"
    "acc v' = xs @ [c]" "v_max v' = v_max (ubx_buf p)" "unat (v_len v') = length xs + 1"
    using Cons.prems l by auto
  have "v_len v' \<noteq> 4"
    using v' Cons.prems by auto
  then have "ubx_byte c p out = Some (p \<lparr> ubx_buf := v' \<rparr>, out)"
    using Cons.prems v' by (simp add: ubx_byte_def ubx_length_byte_def)
  moreover obtain v'' where "feed ys (p \<lparr> ubx_buf := v' \<rparr>) out = Some (p \<lparr> ubx_buf := v'' \<rparr>, out)" "vec8_ok v''"
     "v_max v'' = v_max v'" "acc v'' = (xs @ [c]) @ ys"
    using Cons.IH [of "p \<lparr> ubx_buf := v' \<rparr>" "xs @ [c]"] Cons.prems v' by (auto simp: frames_ok_def)
  ultimately show ?case
    using v' by auto
qed

lemma feed_rest:
  assumes "frames_ok p out" and "rx_state p = UBX_WAIT_REST" and "acc (ubx_buf p) = xs" and "4 \<le> length xs"
    and "length xs + length ys < unat (ubx_hdr_len xs) + 6" and "unat (ubx_hdr_len xs) + 6 \<le> unat (v_max (ubx_buf p))"
  shows "\<exists>v'. feed ys p out = Some (p \<lparr> ubx_buf := v' \<rparr>, out) \<and> vec8_ok v' \<and>
     v_max v' = v_max (ubx_buf p) \<and> acc v' = xs @ ys"
  using assms
proof (induction ys arbitrary: p xs)
  case Nil
  then show ?case
    by (intro exI [of _ "ubx_buf p"]) (simp add: frames_ok_def)
next
  case (Cons c ys)
  have v: "vec8_ok (ubx_buf p)" and l: "unat (v_len (ubx_buf p)) = length xs"
    using Cons.prems acc_length [of "ubx_buf p"] by (auto simp: frames_ok_def)
  then have "unat (v_len (ubx_buf p)) < unat (v_max (ubx_buf p))"
    using Cons.prems by auto
  from vec8_push_ok [OF v this, of c] obtain v' where v': "vec8_push c (ubx_buf p) = Some v'" "vec8_ok v'"
    "acc v' = xs @ [c]" "v_max v' = v_max (ubx_buf p)" "unat (v_len v') = length xs + 1"
    using Cons.prems l by auto
  have "ubx_hdr_len (v_dat v') = ubx_hdr_len xs"
    using v' Cons.prems by (simp add: hdr_len_acc hdr_len_append)
  then have "UBX_BUF_LEN_TO_PAYLOAD_SIZE (v_len v') \<noteq> ucast (ubx_hdr_len (v_dat v'))"
    using payload_size_eq [of "v_len v'" "ubx_hdr_len xs"] v' Cons.prems by auto
  then have "ubx_byte c p out = Some (p \<lparr> ubx_buf := v' \<rparr>, out)"
    using Cons.prems v' by (simp add: ubx_byte_def ubx_rest_byte_def Let_def)
  moreover obtain v'' where "feed ys (p \<lparr> ubx_buf := v' \<rparr>) out = Some (p \<lparr> ubx_buf := v'' \<rparr>, out)" "vec8_ok v''"
     "v_max v'' = v_max v'" "acc v'' = (xs @ [c]) @ ys"
    using Cons.IH [of "p \<lparr> ubx_buf := v' \<rparr>" "xs @ [c]"] Cons.prems v' by (auto simp: frames_ok_def hdr_len_append)
  ultimately show ?case
    using v' by auto
qed

text \<open>The last byte of a complete frame decides between output and checksum error.\<close>

lemma ubx_last_byte:
  assumes fr: "frames_ok p out" and st: "rx_state p = UBX_WAIT_REST" and xs: "acc (ubx_buf p) = body @ [ck_a]"
    and len: "length body = unat (ubx_hdr_len body) + 4" and fits: "length body + 2 \<le> unat (v_max (ubx_buf p))"
  shows "\<exists>v' d. vec8_ok v' \<and> v_max v' = v_max (ubx_buf p) \<and> length d = length (v_dat (ubx_frame out)) \<and>
     unat (v_len v') = length body + 2 \<and> take (length body + 2) d = body @ [ck_a, ck_b] \<and>
     ubx_byte ck_b p out =
       (if [ck_a, ck_b] = ubx_tail body
        then Some (p \<lparr> ubx_buf := v', ubx_frame_cnt := ubx_frame_cnt p + 1, rx_state := RESET \<rparr>,
                   out \<lparr> ubx_frame := (ubx_frame out) \<lparr> v_dat := d, v_len := v_len v' \<rparr>, ubx_frame_updated := True \<rparr>)
        else Some (p \<lparr> ubx_buf := v', ubx_err_crc_cnt := ubx_err_crc_cnt p + 1, rx_state := RESET \<rparr>, out))"
proof -
  have v: "vec8_ok (ubx_buf p)" and l: "unat (v_len (ubx_buf p)) = length body + 1"
    using fr xs acc_length [of "ubx_buf p"] by (auto simp: frames_ok_def)
  then have "unat (v_len (ubx_buf p)) < unat (v_max (ubx_buf p))"
    using fits by simp
  from vec8_push_ok [OF v this, of ck_b] obtain v' where v': "vec8_push ck_b (ubx_buf p) = Some v'" "vec8_ok v'"
    "acc v' = body @ [ck_a, ck_b]" "v_max v' = v_max (ubx_buf p)" "unat (v_len v') = length body + 2"
    using xs l by auto
  obtain d where d: "vec8_copy v' (ubx_frame out) = Some ((ubx_frame out) \<lparr> v_dat := d, v_len := v_len v' \<rparr>)"
    "length d = length (v_dat (ubx_frame out))" "take (length body + 2) d = body @ [ck_a, ck_b]"
    using vec8_copy_ok [of v' "ubx_frame out"] v' fr by (auto simp: frames_ok_def)
  have h: "ubx_hdr_len (v_dat v') = ubx_hdr_len body"
    using v' len by (simp add: hdr_len_acc hdr_len_append)
  have e: "UBX_BUF_LEN_TO_PAYLOAD_SIZE (v_len v') = ucast (ubx_hdr_len body)"
    using payload_size_eq [of "v_len v'" "ubx_hdr_len body"] v' len by simp
  have "take (length body) (v_dat v') = take (length body) (take (length body + 2) (v_dat v'))"
    by (simp add: take_take min_def del: take_Suc_Cons)
  also have "take (length body + 2) (v_dat v') = body @ [ck_a, ck_b]"
    using v' by (simp add: acc_def)
  finally have "take (length body) (v_dat v') = body"
    by simp
  then have ck: "ubx_calc_crc (v_dat v') (unat (ubx_hdr_len body) + 4) = ubx_calc_crc body (length body)"
    using len by (simp add: ubx_calc_crc_def)
  have "v_dat v' ! length body = acc v' ! length body" and "v_dat v' ! (length body + 1) = acc v' ! (length body + 1)"
    using v' by (simp_all add: acc_nth)
  moreover have "4 + unat (ubx_hdr_len body) = length body"
    using len by simp
  ultimately have "v_dat v' ! (4 + unat (ubx_hdr_len body)) = ck_a" and "v_dat v' ! (4 + unat (ubx_hdr_len body) + 1) = ck_b"
    using v' by (simp_all only: nth_append) simp_all
  with v' d h e ck st show ?thesis
    by (intro exI [of _ v'] exI [of _ d]) (auto simp: ubx_byte_def ubx_rest_byte_def Let_def ubx_tail_def)
qed

lemma ubx_start_feed:
  assumes "rx_state p = RESET"
  shows "feed [0xb5, 0x62] p out = Some ((ubx_reset p) \<lparr> rx_state := UBX_WAIT_LENGTH \<rparr>, out)"
  using assms by (simp add: ubx_byte_def ubx_start_byte_def ubx_reset_def)

lemma ubx_header_feed:
  assumes fr: "frames_ok p out" and st: "rx_state p = UBX_WAIT_LENGTH" and "acc (ubx_buf p) = []"
    and hdr: "length hdr = 4" and fits: "unat (ubx_hdr_len hdr) + 6 \<le> unat (v_max (ubx_buf p))"
  shows "\<exists>v'. feed hdr p out = Some (p \<lparr> ubx_buf := v', rx_state := UBX_WAIT_REST \<rparr>, out) \<and>
     vec8_ok v' \<and> v_max v' = v_max (ubx_buf p) \<and> acc v' = hdr"
proof -
  obtain hs c where hs: "hdr = hs @ [c]" "length hs = 3"
    using hdr by (cases hdr rule: rev_cases) auto
  obtain v where v: "feed hs p out = Some (p \<lparr> ubx_buf := v \<rparr>, out)" "vec8_ok v"
     "v_max v = v_max (ubx_buf p)" "acc v = hs"
    using feed_length [OF assms(1-3), of hs] hs by auto
  then have "unat (v_len v) = 3"
    using hs acc_length by fastforce
  with v fits obtain v' where v': "vec8_push c v = Some v'" "vec8_ok v'" "acc v' = hdr" "v_max v' = v_max (ubx_buf p)"
    "unat (v_len v') = 4"
    using vec8_push_ok [OF v(2), of c] hs by auto
  then have "v_len v' = 4"
    by (intro word_eq_by_unat) simp
  moreover have "unat (UBX_BUF_LEN_TO_PAYLOAD_SIZE (v_max v')) = unat (v_max v') - 6"
    using v'(2) by (intro payload_size_unat) (simp add: vec8_ok_def)
  ultimately have "ubx_length_byte c (p \<lparr> ubx_buf := v \<rparr>) = Some (p \<lparr> ubx_buf := v', rx_state := UBX_WAIT_REST \<rparr>)"
    using v' fits hdr_len_acc(1) [of v'] by (auto simp: ubx_length_byte_def word_less_nat_alt Let_def)
  then have "feed hdr p out = Some (p \<lparr> ubx_buf := v', rx_state := UBX_WAIT_REST \<rparr>, out)"
    using v st hs by (simp add: feed_append ubx_byte_def)
  then show ?thesis
    using v' by blast
qed

text \<open>A frame with any two checksum bytes, received from the RESET state.\<close>

lemma ubx_frame_feed:
  fixes cls idn :: u8 and payload :: "u8 list"
  assumes inv: "ubx_inv p out" and st: "rx_state p = RESET"
    and fits: "length payload + 6 \<le> unat (v_max (ubx_buf p))"
  defines "body \<equiv> ubx_body cls idn payload"
  shows "\<exists>v' d r. vec8_ok v' \<and> unat (v_len v') = length body + 2 \<and> length d = length (v_dat (ubx_frame out)) \<and>
     take (length body + 2) d = body @ [ck_a, ck_b] \<and>
     feed ([0xb5, 0x62] @ body @ [ck_a, ck_b]) p out =
       (if [ck_a, ck_b] = ubx_tail body
        then Some (p \<lparr> ubx_buf := v', rtcm_buf := r, ubx_frame_cnt := ubx_frame_cnt p + 1 \<rparr>,
                   out \<lparr> ubx_frame := (ubx_frame out) \<lparr> v_dat := d, v_len := v_len v' \<rparr>, ubx_frame_updated := True \<rparr>)
        else Some (p \<lparr> ubx_buf := v', rtcm_buf := r, ubx_err_crc_cnt := ubx_err_crc_cnt p + 1 \<rparr>, out))"
proof -
  let ?p1 = "(ubx_reset p) \<lparr> rx_state := UBX_WAIT_LENGTH \<rparr>"
  let ?hdr = "take 4 body"
  have lp: "length payload < 65536"
    using inv fits by (auto simp: ubx_inv_def frames_ok_def vec8_ok_def)
  have body: "body = ?hdr @ payload" "length ?hdr = 4" "length body = length payload + 4"
    by (simp_all add: body_def ubx_body_def)
  have h: "ubx_hdr_len body = word_of_nat (length payload)"
    using ubx_body_hdr_len [OF lp, of cls idn "[]"] by (simp add: body_def)
  have hl: "unat (ubx_hdr_len body) = length payload"
    unfolding h using lp by (intro unat_word_of_nat_less) simp
  have hh: "ubx_hdr_len ?hdr = ubx_hdr_len body"
    by (simp add: ubx_hdr_len_def)
  have fr1: "frames_ok ?p1 out" and a1: "acc (ubx_buf ?p1) = []" and st1: "rx_state ?p1 = UBX_WAIT_LENGTH"
    and m1: "v_max (ubx_buf ?p1) = v_max (ubx_buf p)"
    using inv by (auto simp: ubx_inv_def frames_ok_def ubx_reset_def vec8_ok_def acc_def)
  have f1: "unat (ubx_hdr_len ?hdr) + 6 \<le> unat (v_max (ubx_buf ?p1))"
    using fits hl hh m1 by simp
  obtain v1 where v1: "feed ?hdr ?p1 out = Some (?p1 \<lparr> ubx_buf := v1, rx_state := UBX_WAIT_REST \<rparr>, out)"
    "vec8_ok v1" "v_max v1 = v_max (ubx_buf p)" "acc v1 = ?hdr"
    using ubx_header_feed [OF fr1 st1 a1 body(2) f1] m1 by auto
  let ?p2 = "?p1 \<lparr> ubx_buf := v1, rx_state := UBX_WAIT_REST \<rparr>"
  have fr2: "frames_ok ?p2 out"
    using fr1 v1 m1 by (auto simp: frames_ok_def)
  have "\<exists>v'. feed (payload @ [ck_a]) ?p2 out = Some (?p2 \<lparr> ubx_buf := v' \<rparr>, out) \<and> vec8_ok v' \<and>
     v_max v' = v_max (ubx_buf ?p2) \<and> acc v' = ?hdr @ payload @ [ck_a]"
    by (rule feed_rest [OF fr2]) (use v1 body hl hh fits in \<open>simp_all\<close>)
  then obtain v2 where v2: "feed (payload @ [ck_a]) ?p2 out = Some (?p2 \<lparr> ubx_buf := v2 \<rparr>, out)" "vec8_ok v2"
    "v_max v2 = v_max (ubx_buf ?p2)" "acc v2 = ?hdr @ payload @ [ck_a]"
    by blast
  let ?p3 = "?p2 \<lparr> ubx_buf := v2 \<rparr>"
  have fr3: "frames_ok ?p3 out"
    using fr2 v2 v1 by (simp add: frames_ok_def)
  have st3: "rx_state ?p3 = UBX_WAIT_REST"
    by simp
  have lenb: "length body = unat (ubx_hdr_len body) + 4"
    using hl body(3) by simp
  have fits3: "length body + 2 \<le> unat (v_max (ubx_buf ?p3))"
    using fits body(3) v2(3) v1(3) by simp
  have "(?hdr @ payload) @ [ck_a] = body @ [ck_a]"
    by (simp only: body(1) [symmetric])
  then have acc3: "acc (ubx_buf ?p3) = body @ [ck_a]"
    using v2(4) by simp
  have feed3: "feed ([0xb5, 0x62] @ body @ [ck_a, ck_b]) p out = feed [ck_b] ?p3 out"
  proof -
    have "[0xb5, 0x62] @ body @ [ck_a, ck_b] = [0xb5, 0x62] @ ?hdr @ (payload @ [ck_a]) @ [ck_b]"
      using body(1) by simp
    then show ?thesis
      using ubx_start_feed [OF st, of out] v1(1) v2(1) by (simp only: feed_append option.case prod.case)
  qed
  obtain v' d where "vec8_ok v'" and "length d = length (v_dat (ubx_frame out))" and "unat (v_len v') = length body + 2"
    and "take (length body + 2) d = body @ [ck_a, ck_b]"
    and l: "ubx_byte ck_b ?p3 out =
       (if [ck_a, ck_b] = ubx_tail body
        then Some (?p3 \<lparr> ubx_buf := v', ubx_frame_cnt := ubx_frame_cnt ?p3 + 1, rx_state := RESET \<rparr>,
                   out \<lparr> ubx_frame := (ubx_frame out) \<lparr> v_dat := d, v_len := v_len v' \<rparr>, ubx_frame_updated := True \<rparr>)
        else Some (?p3 \<lparr> ubx_buf := v', ubx_err_crc_cnt := ubx_err_crc_cnt ?p3 + 1, rx_state := RESET \<rparr>, out))"
    using ubx_last_byte [OF fr3 st3 acc3 lenb fits3, of ck_b] by blast
  then show ?thesis
    unfolding feed3 using st
    by (intro exI [of _ v'] exI [of _ d] exI [of _ "(rtcm_buf p) \<lparr> v_len := 0 \<rparr>"]) (simp add: ubx_reset_def)
qed

section \<open>Reading in chunks\<close>

declare ubx_process.simps [simp del] exec.simps [simp del]

definition updated :: "rx_out \<Rightarrow> bool" where
  "updated out \<longleftrightarrow> ubx_frame_updated out \<or> rtcm_frame_updated out"

text \<open>The abstract receiver: consume a byte stream up to the end of the first frame.\<close>

fun run_to_frame :: "u8 list \<Rightarrow> ubx_parse \<Rightarrow> rx_out \<Rightarrow> (u8 list \<times> ubx_parse \<times> rx_out) option" where
  "run_to_frame [] p out = Some ([], p, out)"
| "run_to_frame (c # cs) p out = (case ubx_byte c p out of None \<Rightarrow> None
     | Some (p', out') \<Rightarrow> if updated out' then Some (cs, p', out') else run_to_frame cs p' out')"

text \<open>What the buffer still holds.\<close>

definition unread :: "rx_framing \<Rightarrow> u8 list" where
  "unread s = drop (unat (rx_buf_index s)) (acc (rx_buf s))"

definition rx_ok :: "rx_framing \<Rightarrow> bool" where
  "rx_ok s \<longleftrightarrow> unat (v_len (rx_buf s)) \<le> length (v_dat (rx_buf s)) \<and> length (v_dat (rx_buf s)) < 65536 \<and>
     unat (rx_buf_index s) \<le> unat (v_len (rx_buf s))"

text \<open>A frame is reported exactly when the state machine returns to RESET with it.\<close>

lemma ubx_byte_updated:
  assumes "ubx_byte c p out = Some (p', out')" and "\<not> updated out" and "updated out'"
  shows "rx_state p' = RESET"
  using assms
  by (auto simp: ubx_byte_def ubx_rest_byte_def rtcm_rest_byte_def updated_def Let_def split: bind_splits if_splits)

lemma unread_Cons:
  assumes "rx_ok s" and "rx_buf_index s < v_len (rx_buf s)"
  shows "unread s = v_dat (rx_buf s) ! unat (rx_buf_index s) # unread (s \<lparr> parse := p, rx_buf_index := rx_buf_index s + 1 \<rparr>) \<and>
     rx_ok (s \<lparr> parse := p, rx_buf_index := rx_buf_index s + 1 \<rparr>)"
proof -
  have "unat (rx_buf_index s) < unat (v_len (rx_buf s))"
    using assms(2) by (simp add: word_less_nat_alt)
  then show ?thesis
    using assms unat_Suc_below [OF assms(2)]
    by (simp add: unread_def rx_ok_def acc_def Cons_nth_drop_Suc [symmetric])
qed

text \<open>The loop of \<open>ubx_process\<close> consumes a prefix of the unread bytes.\<close>

lemma ubx_process_run:
  assumes "rx_ok s" and "rx_buf_index s < v_len (rx_buf s)" and "\<not> updated out"
  shows "(case ubx_process s out of
       None \<Rightarrow> run_to_frame (unread s @ ys) (parse s) out = None
     | Some (s', out') \<Rightarrow> rx_ok s' \<and> length (v_dat (rx_buf s')) = length (v_dat (rx_buf s)) \<and>
         (if updated out' then run_to_frame (unread s @ ys) (parse s) out = Some (unread s' @ ys, parse s', out')
          else run_to_frame (unread s @ ys) (parse s) out = run_to_frame (unread s' @ ys) (parse s') out'))"
  using assms
proof (induction s out rule: ubx_process.induct)
  case (1 s out)
  let ?c = "v_dat (rx_buf s) ! unat (rx_buf_index s)"
  have c: "arr_get (v_dat (rx_buf s)) (unat (rx_buf_index s)) = Some ?c"
    using "1.prems" by (simp add: arr_get_def rx_ok_def word_less_nat_alt)
  note un = unread_Cons [OF "1.prems"(1,2)]
  show ?case
  proof (cases "ubx_byte ?c (parse s) out")
    case None
    then have "ubx_process s out = None"
      using c by (subst ubx_process.simps) simp
    then show ?thesis
      using None un [of "parse s"] by simp
  next
    case (Some po)
    obtain p out1 where po: "po = (p, out1)"
      by (cases po)
    let ?s = "s \<lparr> parse := p, rx_buf_index := rx_buf_index s + 1 \<rparr>"
    have step: "run_to_frame (unread s @ ys) (parse s) out =
        (if updated out1 then Some (unread ?s @ ys, p, out1) else run_to_frame (unread ?s @ ys) p out1)"
      using un [of p] Some po by simp
    show ?thesis
    proof (cases "rx_buf_index ?s < v_len (rx_buf ?s) \<and> rx_state p \<noteq> RESET")
      case True
      then have nu: "\<not> updated out1"
        using ubx_byte_updated Some po "1.prems"(3) by blast
      have "ubx_process s out = ubx_process ?s out1"
        using c Some po True by (subst ubx_process.simps) (simp add: Let_def)
      moreover have "run_to_frame (unread s @ ys) (parse s) out = run_to_frame (unread ?s @ ys) p out1"
        using step nu by simp
      moreover have "rx_ok ?s"
        using un [of p] by blast
      ultimately show ?thesis
        using "1.IH" [OF c Some po [symmetric] refl True _ _ nu] True by (simp split: option.splits prod.splits if_splits)
    next
      case False
      then have "ubx_process s out = Some (?s, out1)"
        using c Some po by (subst ubx_process.simps) (auto simp: Let_def)
      then show ?thesis
        using un [of p] step by simp
    qed
  qed
qed

lemma rx_load_ok:
  assumes "rx_ok s" and "length bs \<le> length (v_dat (rx_buf s))"
  shows "\<exists>s1. rx_load bs s = Some s1 \<and> rx_ok s1 \<and> unread s1 = bs \<and> parse s1 = parse s \<and>
     length (v_dat (rx_buf s1)) = length (v_dat (rx_buf s)) \<and> (bs \<noteq> [] \<longrightarrow> rx_buf_index s1 < v_len (rx_buf s1))"
proof -
  have "length bs < 2 ^ LENGTH(32)"
    using assms by (simp add: rx_ok_def)
  then have "unat (word_of_nat (length bs) :: u32) = length bs"
    by (rule unat_word_of_nat_less)
  then show ?thesis
    using assms by (auto simp: rx_load_def memcpy_def rx_ok_def unread_def acc_def word_less_nat_alt)
qed

definition exec_abs :: "(errno + u8 list) list \<Rightarrow> rx_framing \<Rightarrow> rx_out \<Rightarrow> exec_end \<Rightarrow> bool" where
  "exec_abs rds s out r \<longleftrightarrow> (let stream = unread s @ concat (map (case_sum (\<lambda>_. []) id) rds) in
     case r of
       Crashed \<Rightarrow> run_to_frame stream (parse s) out = None
     | Waiting s' out' \<Rightarrow> \<not> updated out' \<and> run_to_frame stream (parse s) out = Some ([], parse s', out')
     | Returned rds' s' out' \<Rightarrow> updated out' \<and> run_to_frame stream (parse s) out =
         Some (unread s' @ concat (map (case_sum (\<lambda>_. []) id) rds'), parse s', out'))"

definition good_reads :: "nat \<Rightarrow> (errno + u8 list) list \<Rightarrow> bool" where
  "good_reads n rds \<longleftrightarrow> (\<forall>r \<in> set rds. case r of Inl e \<Rightarrow> False | Inr bs \<Rightarrow> bs \<noteq> [] \<and> length bs \<le> n)"

lemma exec_after_process:
  assumes "rx_ok s" and "rx_buf_index s < v_len (rx_buf s)" and "\<not> updated out"
    and p: "ubx_process s out = Some (s', out')"
    and r: "r = (if \<not> updated out' then r' else Returned rds s' out')"
    and r': "\<not> updated out' \<Longrightarrow> exec_abs rds s' out' r'"
  shows "exec_abs rds s out r"
proof -
  let ?m = "concat (map (case_sum (\<lambda>_. []) id) rds)"
  note run = ubx_process_run [OF assms(1-3), of ?m, unfolded p, simplified]
  show ?thesis
  proof (cases "updated out'")
    case True
    then show ?thesis
      using run r by (simp add: exec_abs_def Let_def)
  next
    case False
    then show ?thesis
      using run r r' by (cases r') (simp_all add: exec_abs_def Let_def)
  qed
qed

lemma exec_refines_stream:
  assumes "rx_ok s" and "\<not> updated out" and "good_reads (length (v_dat (rx_buf s))) rds"
  shows "exec_abs rds s out (exec rds s out)"
  using assms
proof (induction rds s out rule: exec.induct)
  case (1 rds s out)
  show ?case
  proof (cases "v_len (rx_buf s) \<le> rx_buf_index s")
    case True
    then have un: "unread s = []"
      using "1.prems" by (simp add: unread_def acc_def word_le_nat_alt)
    show ?thesis
    proof (cases rds)
      case Nil
      then show ?thesis
        using True un "1.prems" by (subst exec.simps) (simp add: exec_abs_def)
    next
      case (Cons x rds')
      obtain bs where x: "x = Inr bs" and bs: "bs \<noteq> []" "length bs \<le> length (v_dat (rx_buf s))"
        using Cons "1.prems"(3) by (auto simp: good_reads_def split: sum.splits)
      obtain s1 where s1: "rx_load bs s = Some s1" "rx_ok s1" "unread s1 = bs" "parse s1 = parse s"
         "length (v_dat (rx_buf s1)) = length (v_dat (rx_buf s))" "rx_buf_index s1 < v_len (rx_buf s1)"
        using rx_load_ok [OF "1.prems"(1) bs(2)] bs(1) by auto
      have gr: "good_reads (length (v_dat (rx_buf s))) rds'"
        using "1.prems"(3) Cons by (simp add: good_reads_def)
      have eq: "exec_abs rds s out r = exec_abs rds' s1 out r" for r
        using un s1 x Cons by (cases r) (simp_all add: exec_abs_def Let_def)
      note run = ubx_process_run [OF s1(2,6) "1.prems"(2)]
      show ?thesis
      proof (cases "ubx_process s1 out")
        case None
        then have "exec rds s out = Crashed"
          using True Cons x s1 by (subst exec.simps) simp
        then show ?thesis
          unfolding eq using run None by (simp add: exec_abs_def)
      next
        case (Some so)
        obtain s' out' where so: "so = (s', out')"
          by (cases so)
        have r: "exec rds s out = (if \<not> updated out' then exec rds' s' out' else Returned rds' s' out')"
          using True Cons x s1 Some so by (subst exec.simps) (simp add: updated_def)
        have ok: "rx_ok s'" "length (v_dat (rx_buf s')) = length (v_dat (rx_buf s))"
          using run Some so s1 by auto
        show ?thesis
          unfolding eq
        proof (rule exec_after_process [OF s1(2,6) "1.prems"(2) Some [unfolded so] r])
          assume "\<not> updated out'"
          then show "exec_abs rds' s' out' (exec rds' s' out')"
            using "1.IH"(1) [OF True Cons x s1(1) Some so [symmetric]] ok gr by (simp add: updated_def)
        qed
      qed
    qed
  next
    case False
    then have lt: "rx_buf_index s < v_len (rx_buf s)"
      by simp
    note run = ubx_process_run [OF "1.prems"(1) lt "1.prems"(2)]
    show ?thesis
    proof (cases "ubx_process s out")
      case None
      then have "exec rds s out = Crashed"
        using False by (subst exec.simps) simp
      then show ?thesis
        using run None by (simp add: exec_abs_def)
    next
      case (Some so)
      obtain s' out' where so: "so = (s', out')"
        by (cases so)
      have r: "exec rds s out = (if \<not> updated out' then exec rds s' out' else Returned rds s' out')"
        using False Some so by (subst exec.simps) (simp add: updated_def)
      have ok: "rx_ok s'" "length (v_dat (rx_buf s')) = length (v_dat (rx_buf s))"
        using run Some so by auto
      show ?thesis
      proof (rule exec_after_process [OF "1.prems"(1) lt "1.prems"(2) Some [unfolded so] r])
        assume "\<not> updated out'"
        then show "exec_abs rds s' out' (exec rds s' out')"
          using "1.IH"(2) [OF False Some so [symmetric]] ok "1.prems"(3) by (simp add: updated_def)
      qed
    qed
  qed
qed

lemma run_to_frame_inv:
  assumes "run_to_frame bs p out = Some (rest, p', out')" and "ubx_inv p out"
  shows "ubx_inv p' out'"
  using assms
  by (induction bs arbitrary: p out) (auto split: option.splits if_splits prod.splits dest: ubx_byte_keeps)

text \<open>Every byte that makes a UBX frame appear completes a frame whose length field and
  checksum agree with its bytes.\<close>

lemma ubx_rest_byte_sound:
  assumes inv: "ubx_inv p out" and st: "rx_state p = UBX_WAIT_REST"
    and nu: "\<not> ubx_frame_updated out" and r: "ubx_rest_byte c p out = Some (p', out')" and u: "ubx_frame_updated out'"
  shows "\<exists>body. acc (ubx_frame out') = body @ ubx_tail body \<and> length body = unat (ubx_hdr_len body) + 4"
proof -
  let ?n = "unat (v_len (ubx_buf p))" and ?h = "ubx_hdr_len (acc (ubx_buf p))"
  have fr: "frames_ok p out" and v: "vec8_ok (ubx_buf p)" and n: "4 \<le> ?n" "?n < unat ?h + 6" "unat ?h + 6 \<le> unat (v_max (ubx_buf p))"
    using inv st by (auto simp: ubx_inv_def frames_ok_def state_ok_def Let_def)
  have l: "length (acc (ubx_buf p)) = ?n"
    using v by (rule acc_length)
  obtain v' where v': "vec8_push c (ubx_buf p) = Some v'"
    using r by (auto simp: ubx_rest_byte_def split: bind_splits)
  have p: "vec8_ok v'" "acc v' = acc (ubx_buf p) @ [c]" "unat (v_len v') = ?n + 1"
    using vec8_push_Some [OF v v'] by blast+
  have h: "ubx_hdr_len (v_dat v') = ?h"
    using p n l by (simp add: hdr_len_acc hdr_len_append)
  have "UBX_BUF_LEN_TO_PAYLOAD_SIZE (v_len v') = ucast ?h"
    using r v' u nu h by (auto simp: ubx_rest_byte_def Let_def split: if_splits)
  then have full: "?n = unat ?h + 5"
    using payload_size_eq [of "v_len v'" ?h] p n by simp
  define body where "body = butlast (acc (ubx_buf p))"
  have xs: "acc (ubx_buf p) = body @ [last (acc (ubx_buf p))]"
    using l n by (cases "acc (ubx_buf p) = []") (auto simp: body_def)
  have lb: "length body = unat ?h + 4"
    using l full by (simp add: body_def)
  have hb: "ubx_hdr_len body = ?h"
    using lb by (subst xs) (simp add: hdr_len_append)
  have byte: "ubx_byte c p out = Some (p', out')"
    using r st by (simp add: ubx_byte_def)
  have fits: "length body + 2 \<le> unat (v_max (ubx_buf p))" and lb': "length body = unat (ubx_hdr_len body) + 4"
    using lb n hb by simp_all
  obtain w d where w: "unat (v_len w) = length body + 2" "take (length body + 2) d = body @ [last (acc (ubx_buf p)), c]"
    and b: "ubx_byte c p out =
       (if [last (acc (ubx_buf p)), c] = ubx_tail body
        then Some (p \<lparr> ubx_buf := w, ubx_frame_cnt := ubx_frame_cnt p + 1, rx_state := RESET \<rparr>,
                   out \<lparr> ubx_frame := (ubx_frame out) \<lparr> v_dat := d, v_len := v_len w \<rparr>, ubx_frame_updated := True \<rparr>)
        else Some (p \<lparr> ubx_buf := w, ubx_err_crc_cnt := ubx_err_crc_cnt p + 1, rx_state := RESET \<rparr>, out))"
    using ubx_last_byte [OF fr st xs lb' fits, of c] by blast
  have "[last (acc (ubx_buf p)), c] = ubx_tail body"
    using b byte u nu by (auto split: if_splits)
  with b byte w have "acc (ubx_frame out') = body @ ubx_tail body"
    by (auto simp: acc_def)
  with lb' show ?thesis
    by blast
qed

lemma ubx_byte_sound:
  assumes "ubx_inv p out" and "\<not> ubx_frame_updated out" and "ubx_byte c p out = Some (p', out')"
    and "ubx_frame_updated out'"
  shows "\<exists>body. acc (ubx_frame out') = body @ ubx_tail body \<and> length body = unat (ubx_hdr_len body) + 4"
proof -
  have "rx_state p = UBX_WAIT_REST"
    using assms(2-4) by (auto simp: ubx_byte_def rtcm_rest_byte_def Let_def split: bind_splits if_splits)
  moreover from this have "ubx_rest_byte c p out = Some (p', out')"
    using assms(3) by (simp add: ubx_byte_def)
  ultimately show ?thesis
    using ubx_rest_byte_sound assms by blast
qed

lemma run_to_frame_sound:
  assumes "run_to_frame bs p out = Some (rest, p', out')" and "ubx_inv p out" and "\<not> updated out" and "ubx_frame_updated out'"
  shows "\<exists>body. acc (ubx_frame out') = body @ ubx_tail body \<and> length body = unat (ubx_hdr_len body) + 4"
  using assms
proof (induction bs arbitrary: p out)
  case (Cons c cs)
  obtain p1 out1 where b: "ubx_byte c p out = Some (p1, out1)"
    using Cons.prems(1) by (auto split: option.splits)
  show ?case
  proof (cases "updated out1")
    case True
    then have "out1 = out'"
      using Cons.prems(1) b by simp
    then show ?thesis
      using ubx_byte_sound [OF Cons.prems(2) _ b] Cons.prems(3,4) by (simp add: updated_def)
  next
    case False
    then show ?thesis
      using Cons.IH [of p1 out1] Cons.prems b ubx_byte_keeps [OF Cons.prems(2) b] by simp
  qed
qed (simp add: updated_def)

section \<open>Properties\<close>

text \<open>C4: The framing call does not depend on how the serial driver chunks the bytes:
  with non-empty reads that fit the receive buffer, \<open>exec\<close> returns exactly the first frame of the
  concatenated stream (what is still unread, then all reads), leaves the parser where the
  byte-by-byte receiver leaves it with the rest of the stream unread, and waits for more input
  exactly when the stream holds no complete frame.\<close>

theorem ubx_exec_chunking:
  assumes "rx_ok s" and "\<not> updated out" and "good_reads (length (v_dat (rx_buf s))) rds"
  shows "case exec rds s out of
      Crashed \<Rightarrow> run_to_frame (unread s @ concat (map (case_sum (\<lambda>_. []) id) rds)) (parse s) out = None
    | Waiting s' out' \<Rightarrow> \<not> updated out' \<and>
        run_to_frame (unread s @ concat (map (case_sum (\<lambda>_. []) id) rds)) (parse s) out = Some ([], parse s', out')
    | Returned rds' s' out' \<Rightarrow> updated out' \<and>
        run_to_frame (unread s @ concat (map (case_sum (\<lambda>_. []) id) rds)) (parse s) out =
          Some (unread s' @ concat (map (case_sum (\<lambda>_. []) id) rds'), parse s', out')"
  using exec_refines_stream [OF assms] by (simp add: exec_abs_def Let_def)

text \<open>C5: A well-formed UBX frame whose payload fits the buffer, received from the RESET
  state byte by byte, is output unchanged (header, payload and checksum, without the two sync bytes)
  and counted; with any other two bytes in place of its checksum it is not output and the checksum
  error counter is incremented instead.\<close>

theorem ubx_frame_decoded:
  assumes "ubx_inv p out" and "rx_state p = RESET" and "length payload + 6 \<le> unat (v_max (ubx_buf p))"
    and "\<not> ubx_frame_updated out"
  shows "\<exists>p' out'. feed ([0xb5, 0x62] @ ubx_body cls idn payload @ [ck_a, ck_b]) p out = Some (p', out') \<and> rx_state p' = RESET \<and>
     (if [ck_a, ck_b] = ubx_tail (ubx_body cls idn payload)
      then ubx_frame_updated out' \<and> acc (ubx_frame out') = ubx_body cls idn payload @ [ck_a, ck_b] \<and>
           ubx_frame_cnt p' = ubx_frame_cnt p + 1 \<and> ubx_err_crc_cnt p' = ubx_err_crc_cnt p
      else out' = out \<and> ubx_frame_cnt p' = ubx_frame_cnt p \<and> ubx_err_crc_cnt p' = ubx_err_crc_cnt p + 1)"
proof -
  obtain v' d r where "unat (v_len v') = length (ubx_body cls idn payload) + 2"
    and "take (length (ubx_body cls idn payload) + 2) d = ubx_body cls idn payload @ [ck_a, ck_b]"
    and "feed ([0xb5, 0x62] @ ubx_body cls idn payload @ [ck_a, ck_b]) p out =
       (if [ck_a, ck_b] = ubx_tail (ubx_body cls idn payload)
        then Some (p \<lparr> ubx_buf := v', rtcm_buf := r, ubx_frame_cnt := ubx_frame_cnt p + 1 \<rparr>,
                   out \<lparr> ubx_frame := (ubx_frame out) \<lparr> v_dat := d, v_len := v_len v' \<rparr>, ubx_frame_updated := True \<rparr>)
        else Some (p \<lparr> ubx_buf := v', rtcm_buf := r, ubx_err_crc_cnt := ubx_err_crc_cnt p + 1 \<rparr>, out))"
    using ubx_frame_feed [OF assms(1-3), of cls idn ck_a ck_b] by blast
  then show ?thesis
    using assms(2) by (simp add: acc_def)
qed

text \<open>C6: No false frames: whatever bytes arrive, a UBX frame that the receiver
  outputs consists of a header, as many payload bytes as its length field says, and the checksum
  computed over them.\<close>

theorem ubx_frame_sound:
  assumes "ubx_inv p out" and "\<not> updated out" and "run_to_frame bs p out = Some (rest, p', out')"
    and "ubx_frame_updated out'"
  shows "\<exists>body. acc (ubx_frame out') = body @ ubx_tail body \<and> length body = unat (ubx_hdr_len body) + 4"
  using run_to_frame_sound [OF assms(3,1,2,4)] .

text \<open>C7: Memory safety of the byte step, exactly: from a well-formed state the step leaves
  the frame buffers only when an RTCM frame has filled its buffer and is still not complete, which the
  size check of \<open>RTCM_WAIT_LENGTH\<close> (against \<open>max_len - 4\<close>, not \<open>max_len - 6\<close>) lets happen; every other
  step succeeds and keeps the state well-formed.\<close>

theorem ubx_byte_memory_safe:
  assumes "ubx_inv p out"
  shows "case ubx_byte c p out of
      None \<Rightarrow> rx_state p = RTCM_WAIT_REST \<and> v_len (rtcm_buf p) = v_max (rtcm_buf p) \<and>
        unat (v_max (rtcm_buf p)) < unat (swap_bytes (rtcm_hdr_len (acc (rtcm_buf p)))) + 6
    | Some (p', out') \<Rightarrow> ubx_inv p' out'"
proof (cases "ubx_byte c p out")
  case None
  then show ?thesis
    using assms ubx_byte_None [OF assms, of c] by (simp add: ubx_inv_def state_ok_def Let_def)
next
  case (Some po)
  then show ?thesis
    using ubx_byte_keeps [OF assms] by (cases po) simp
qed

section \<open>Concrete instances\<close>

definition empty_vec :: "nat \<Rightarrow> vec8" where
  "empty_vec n = \<lparr> v_len = 0, v_max = word_of_nat n, v_dat = replicate n 0 \<rparr>"

definition parse0 :: "nat \<Rightarrow> ubx_parse" where
  "parse0 n = \<lparr> rx_state = RESET, rx_unframed_bytes_cnt = 0, ubx_buf = empty_vec n, rtcm_buf = empty_vec n,
     ubx_err_crc_cnt = 0, ubx_frame_cnt = 0, rtcm_err_crc_cnt = 0, rtcm_frame_cnt = 0 \<rparr>"

definition out0 :: "nat \<Rightarrow> rx_out" where
  "out0 n = \<lparr> ubx_frame = empty_vec n, rtcm_frame = empty_vec n, ubx_frame_updated = False, rtcm_frame_updated = False \<rparr>"

definition rx0 :: "nat \<Rightarrow> rx_framing" where
  "rx0 n = \<lparr> rx_fd = 3, rx_buf = empty_vec n, rx_buf_index = 0, rx_bytes_cnt = 0, parse = parse0 n \<rparr>"

text \<open>A frame with one byte of payload.\<close>

definition ack_frame :: "u8 list" where
  "ack_frame = [0xb5, 0x62, 5, 1, 1, 0, 7, 0x0e, 0x27]"

lemma start_inv: "ubx_inv (parse0 8) (out0 8)"
  by (simp add: ubx_inv_def frames_ok_def state_ok_def Let_def parse0_def out0_def empty_vec_def vec8_ok_def)

lemma start_rx_ok: "rx_ok (rx0 8)"
  by (simp add: rx_ok_def rx0_def empty_vec_def)

lemma ack_chunks: "ubx_tail (ubx_body 5 1 [7]) = [0x0e, 0x27]"
  by (simp add: ubx_tail_def ubx_body_def ubx_calc_crc_def Let_def)

lemma ubx_frame_decoded_witness:
  "\<exists>p' out'. feed ack_frame (parse0 8) (out0 8) = Some (p', out') \<and> rx_state p' = RESET \<and>
     ubx_frame_updated out' \<and> acc (ubx_frame out') = [5, 1, 1, 0, 7, 0x0e, 0x27]"
proof -
  have "rx_state (parse0 8) = RESET" and "length [7 :: u8] + 6 \<le> unat (v_max (ubx_buf (parse0 8)))"
    and "\<not> ubx_frame_updated (out0 8)"
    by (simp_all add: parse0_def empty_vec_def out0_def)
  from ubx_frame_decoded [OF start_inv this, of 5 1 "0x0e" "0x27"] show ?thesis
    unfolding ack_chunks by (auto simp: ack_frame_def ubx_body_def)
qed

lemma ubx_byte_memory_safe_witness:
  "case ubx_byte 0xb5 (parse0 8) (out0 8) of None \<Rightarrow> False | Some (p', out') \<Rightarrow> ubx_inv p' out'"
  using ubx_byte_memory_safe [OF start_inv, of "0xb5"]
  by (simp add: parse0_def split: option.splits prod.splits)

lemma ack_run:
  "run_to_frame ack_frame (parse0 8) (out0 8) \<noteq> None \<and>
   (case run_to_frame ack_frame (parse0 8) (out0 8) of None \<Rightarrow> False
    | Some (rest, p', out') \<Rightarrow> rest = [] \<and> ubx_frame_updated out')"
  by code_simp

lemma ubx_frame_sound_witness:
  "\<exists>rest p' out' body. run_to_frame ack_frame (parse0 8) (out0 8) = Some (rest, p', out') \<and>
     acc (ubx_frame out') = body @ ubx_tail body \<and> length body = unat (ubx_hdr_len body) + 4"
proof -
  obtain rest p' out' where r: "run_to_frame ack_frame (parse0 8) (out0 8) = Some (rest, p', out')"
    and u: "ubx_frame_updated out'"
    using ack_run by (auto split: option.splits)
  have "\<not> updated (out0 8)"
    by (simp add: updated_def out0_def)
  from ubx_frame_sound [OF start_inv this r u] r show ?thesis
    by blast
qed

lemma ubx_exec_chunking_witness:
  "case exec [Inr [0xb5, 0x62, 5, 1, 1], Inr [0, 7, 0x0e, 0x27, 0xd3]] (rx0 8) (out0 8) of
     Returned rds' s' out' \<Rightarrow> updated out' \<and>
       run_to_frame (ack_frame @ [0xd3]) (parse0 8) (out0 8) = Some (unread s' @ concat (map (case_sum (\<lambda>_. []) id) rds'), parse s', out')
   | _ \<Rightarrow> False"
proof -
  let ?rds = "[Inr [0xb5, 0x62, 5, 1, 1], Inr [0, 7, 0x0e, 0x27, 0xd3]] :: (errno + u8 list) list"
  have u: "\<not> updated (out0 8)" and g: "good_reads (length (v_dat (rx_buf (rx0 8)))) ?rds"
    and s: "unread (rx0 8) @ concat (map (case_sum (\<lambda>_. []) id) ?rds) = ack_frame @ [0xd3]" and p: "parse (rx0 8) = parse0 8"
    by (simp_all add: updated_def out0_def good_reads_def rx0_def empty_vec_def unread_def acc_def ack_frame_def)
  have run: "case run_to_frame (ack_frame @ [0xd3]) (parse0 8) (out0 8) of None \<Rightarrow> False
    | Some (rest, p', out') \<Rightarrow> updated out'"
    by code_simp
  show ?thesis
    using ubx_exec_chunking [OF start_rx_ok u g] run unfolding s p
    by (auto split: exec_end.splits option.splits)
qed

end
