(* ===== verification/CubeIO.thy ===== *)
theory CubeIO
  imports Bits Complex_Main
begin

text \<open>
  The driver of the IO co-processor, bsp/ics/cubeio.c with cubeio.h and
  cubeio_reg.h: packets and their CRC, register reads and writes with their three
  attempts, the event mask, the setters and getters, the scaling of channels and
  the state machine. The serial port and the clock are parameters (a record of
  functions on the state of the world); an access outside an array, or a
  conversion to \<open>uint16_t\<close> of a value that does not fit, is None. Doubles are
  modelled as real numbers.
\<close>

section \<open>Constants\<close>

definition CUBEIO_PKT_MAX_REGS :: nat where "CUBEIO_PKT_MAX_REGS = 22"
definition CUBEIO_MAX_CHANNELS :: nat where "CUBEIO_MAX_CHANNELS = 16"
definition PAGE_CONFIG :: u8 where "PAGE_CONFIG = 0"
definition PAGE_STATUS :: u8 where "PAGE_STATUS = 1"
definition PAGE_SERVOS :: u8 where "PAGE_SERVOS = 3"
definition PAGE_RAW_RCIN :: u8 where "PAGE_RAW_RCIN = 4"
definition PAGE_SETUP :: u8 where "PAGE_SETUP = 50"
definition PAGE_DIRECT_PWM :: u8 where "PAGE_DIRECT_PWM = 54"
definition PAGE_FAILSAFE_PWM :: u8 where "PAGE_FAILSAFE_PWM = 55"
definition PROTOCOL_VERSION :: u16 where "PROTOCOL_VERSION = 4"
definition PROTOCOL_VERSION2 :: u16 where "PROTOCOL_VERSION2 = 10"
definition PAGE_REG_SETUP_FEATURES :: u8 where "PAGE_REG_SETUP_FEATURES = 0"
definition P_SETUP_FEATURES_SBUS1_OUT :: u16 where "P_SETUP_FEATURES_SBUS1_OUT = 1"
definition P_SETUP_FEATURES_ONESHOT :: u16 where "P_SETUP_FEATURES_ONESHOT = 16"
definition P_SETUP_FEATURES_BRUSHED :: u16 where "P_SETUP_FEATURES_BRUSHED = 32"
definition PAGE_REG_SETUP_ARMING :: u8 where "PAGE_REG_SETUP_ARMING = 1"
definition P_SETUP_ARMING_IO_ARM_OK :: u16 where "P_SETUP_ARMING_IO_ARM_OK = 1"
definition P_SETUP_ARMING_FMU_ARMED :: u16 where "P_SETUP_ARMING_FMU_ARMED = 2"
definition P_SETUP_ARMING_RC_HANDLING_DISABLED :: u16 where "P_SETUP_ARMING_RC_HANDLING_DISABLED = 64"
definition P_SETUP_ARMING_SAFETY_DISABLE_ON :: u16 where "P_SETUP_ARMING_SAFETY_DISABLE_ON = 2048"
definition P_SETUP_ARMING_SAFETY_DISABLE_OFF :: u16 where "P_SETUP_ARMING_SAFETY_DISABLE_OFF = 4096"
definition PAGE_REG_SETUP_PWM_RATE_MASK :: u8 where "PAGE_REG_SETUP_PWM_RATE_MASK = 2"
definition PAGE_REG_SETUP_DEFAULTRATE :: u8 where "PAGE_REG_SETUP_DEFAULTRATE = 3"
definition PAGE_REG_SETUP_ALTRATE :: u8 where "PAGE_REG_SETUP_ALTRATE = 4"
definition PAGE_REG_SETUP_FORCE_SAFETY_OFF :: u8 where "PAGE_REG_SETUP_FORCE_SAFETY_OFF = 12"
definition PAGE_REG_SETUP_FORCE_SAFETY_ON :: u8 where "PAGE_REG_SETUP_FORCE_SAFETY_ON = 14"
definition PAGE_REG_SETUP_SBUS_RATE :: u8 where "PAGE_REG_SETUP_SBUS_RATE = 19"
definition PAGE_REG_SETUP_IGNORE_SAFETY :: u8 where "PAGE_REG_SETUP_IGNORE_SAFETY = 20"
definition PAGE_REG_SETUP_HEATER_DUTY_CYCLE :: u8 where "PAGE_REG_SETUP_HEATER_DUTY_CYCLE = 21"
definition PAGE_REG_SETUP_RC_PROTOCOLS :: u8 where "PAGE_REG_SETUP_RC_PROTOCOLS = 23"
definition FORCE_SAFETY_MAGIC :: u16 where "FORCE_SAFETY_MAGIC = 22027"
definition PKT_CODE_READ :: u8 where "PKT_CODE_READ = 0"
definition PKT_CODE_WRITE :: u8 where "PKT_CODE_WRITE = 1"
definition PKT_CODE_SUCCESS :: u8 where "PKT_CODE_SUCCESS = 0"

section \<open>Packets\<close>

text \<open>\<open>count\<close> and \<open>code\<close> are bit fields of 6 and 2 bits in the first byte.\<close>

record cubeio_packet =
  pk_count :: u8
  pk_code :: u8
  pk_crc :: u8
  pk_page :: u8
  pk_offset :: u8
  pk_regs :: "u16 list"

definition pkt_zero :: cubeio_packet where
  "pkt_zero = \<lparr> pk_count = 0, pk_code = 0, pk_crc = 0, pk_page = 0, pk_offset = 0,
     pk_regs = replicate CUBEIO_PKT_MAX_REGS 0 \<rparr>"

definition reg_bytes :: "u16 \<Rightarrow> u8 list" where
  "reg_bytes r = [ucast r, ucast (drop_bit 8 r)]"

text \<open>The memory of the packed structure, whose address the driver hands to the serial port as an array of bytes: the
  bit fields from the lowest bit on, the registers with the low byte first.\<close>

definition pkt_bytes :: "cubeio_packet \<Rightarrow> u8 list" where
  "pkt_bytes p = [pk_count p OR push_bit 6 (pk_code p), pk_crc p, pk_page p, pk_offset p] @
     concat (map reg_bytes (pk_regs p))"

fun regs_of_bytes :: "u8 list \<Rightarrow> u16 list" where
  "regs_of_bytes (l # h # bs) = msb_lsb_16 h l # regs_of_bytes bs"
| "regs_of_bytes _ = []"

definition pkt_of_bytes :: "u8 list \<Rightarrow> cubeio_packet" where
  "pkt_of_bytes bs = \<lparr> pk_count = take_bit 6 (bs ! 0), pk_code = drop_bit 6 (bs ! 0), pk_crc = bs ! 1,
     pk_page = bs ! 2, pk_offset = bs ! 3, pk_regs = regs_of_bytes (drop 4 bs) \<rparr>"

definition get_pkt_count :: "cubeio_packet \<Rightarrow> u16" where
  "get_pkt_count p = ucast (pk_count p)"

definition get_pkt_code :: "cubeio_packet \<Rightarrow> u16" where
  "get_pkt_code p = ucast (pk_code p)"

text \<open>The size in the message on a bad count reads the register \<open>regs[count]\<close> itself, not its address, and subtracts the address \<open>pkt\<close> of
  the packet; None is a read behind the array.\<close>

definition get_pkt_size :: "int \<Rightarrow> cubeio_packet \<Rightarrow> int option" where
  "get_pkt_size pkt p = map_option (\<lambda>r. uint r - pkt) (arr_get (pk_regs p) (unat (get_pkt_count p)))"

definition crc8_tab :: "u8 list" where
  "crc8_tab = [
     0x00, 0x07, 0x0E, 0x09, 0x1C, 0x1B, 0x12, 0x15, 0x38, 0x3F, 0x36, 0x31, 0x24, 0x23, 0x2A, 0x2D,
     0x70, 0x77, 0x7E, 0x79, 0x6C, 0x6B, 0x62, 0x65, 0x48, 0x4F, 0x46, 0x41, 0x54, 0x53, 0x5A, 0x5D,
     0xE0, 0xE7, 0xEE, 0xE9, 0xFC, 0xFB, 0xF2, 0xF5, 0xD8, 0xDF, 0xD6, 0xD1, 0xC4, 0xC3, 0xCA, 0xCD,
     0x90, 0x97, 0x9E, 0x99, 0x8C, 0x8B, 0x82, 0x85, 0xA8, 0xAF, 0xA6, 0xA1, 0xB4, 0xB3, 0xBA, 0xBD,
     0xC7, 0xC0, 0xC9, 0xCE, 0xDB, 0xDC, 0xD5, 0xD2, 0xFF, 0xF8, 0xF1, 0xF6, 0xE3, 0xE4, 0xED, 0xEA,
     0xB7, 0xB0, 0xB9, 0xBE, 0xAB, 0xAC, 0xA5, 0xA2, 0x8F, 0x88, 0x81, 0x86, 0x93, 0x94, 0x9D, 0x9A,
     0x27, 0x20, 0x29, 0x2E, 0x3B, 0x3C, 0x35, 0x32, 0x1F, 0x18, 0x11, 0x16, 0x03, 0x04, 0x0D, 0x0A,
     0x57, 0x50, 0x59, 0x5E, 0x4B, 0x4C, 0x45, 0x42, 0x6F, 0x68, 0x61, 0x66, 0x73, 0x74, 0x7D, 0x7A,
     0x89, 0x8E, 0x87, 0x80, 0x95, 0x92, 0x9B, 0x9C, 0xB1, 0xB6, 0xBF, 0xB8, 0xAD, 0xAA, 0xA3, 0xA4,
     0xF9, 0xFE, 0xF7, 0xF0, 0xE5, 0xE2, 0xEB, 0xEC, 0xC1, 0xC6, 0xCF, 0xC8, 0xDD, 0xDA, 0xD3, 0xD4,
     0x69, 0x6E, 0x67, 0x60, 0x75, 0x72, 0x7B, 0x7C, 0x51, 0x56, 0x5F, 0x58, 0x4D, 0x4A, 0x43, 0x44,
     0x19, 0x1E, 0x17, 0x10, 0x05, 0x02, 0x0B, 0x0C, 0x21, 0x26, 0x2F, 0x28, 0x3D, 0x3A, 0x33, 0x34,
     0x4E, 0x49, 0x40, 0x47, 0x52, 0x55, 0x5C, 0x5B, 0x76, 0x71, 0x78, 0x7F, 0x6A, 0x6D, 0x64, 0x63,
     0x3E, 0x39, 0x30, 0x37, 0x22, 0x25, 0x2C, 0x2B, 0x06, 0x01, 0x08, 0x0F, 0x1A, 0x1D, 0x14, 0x13,
     0xAE, 0xA9, 0xA0, 0xA7, 0xB2, 0xB5, 0xBC, 0xBB, 0x96, 0x91, 0x98, 0x9F, 0x8A, 0x8D, 0x84, 0x83,
     0xDE, 0xD9, 0xD0, 0xD7, 0xC2, 0xC5, 0xCC, 0xCB, 0xE6, 0xE1, 0xE8, 0xEF, 0xFA, 0xFD, 0xF4, 0xF3]"

fun crc8 :: "u8 \<Rightarrow> u8 list \<Rightarrow> u8" where
  "crc8 c [] = c"
| "crc8 c (b # bs) = crc8 (crc8_tab ! unat (c XOR b)) bs"

text \<open>The bytes from the start of the packet up to the register \<open>regs[count]\<close>.\<close>

definition crc_packet :: "cubeio_packet \<Rightarrow> u8 option" where
  "crc_packet p = (let n = 4 + 2 * unat (pk_count p) in
     if n \<le> length (pkt_bytes p) then Some (crc8 0 (take n (pkt_bytes p))) else None)"

text \<open>The table is that of the polynomial 0x07, most significant bit first.\<close>

definition crc8_shift :: "u8 \<Rightarrow> u8" where
  "crc8_shift c = (if bit c 7 then push_bit 1 c XOR 0x07 else push_bit 1 c)"

definition crc8_bitwise :: "u8 \<Rightarrow> u8" where
  "crc8_bitwise c = crc8_shift (crc8_shift (crc8_shift (crc8_shift (crc8_shift (crc8_shift (crc8_shift (crc8_shift c)))))))"

fun crc8_tab_from :: "nat \<Rightarrow> u8 \<Rightarrow> u8 list" where
  "crc8_tab_from 0 c = []"
| "crc8_tab_from (Suc k) c = crc8_bitwise c # crc8_tab_from k (c + 1)"

lemma crc8_tab_from_nth: "i < k \<Longrightarrow> crc8_tab_from k c ! i = crc8_bitwise (c + word_of_nat i)"
  by (induction k arbitrary: c i) (auto simp: nth_Cons add.assoc split: nat.splits)

lemma crc8_tab_eq: "crc8_tab = crc8_tab_from 256 0"
  by code_simp

lemma crc8_tab_nth: "crc8_tab ! unat b = crc8_bitwise b"
  by (simp add: crc8_tab_eq crc8_tab_from_nth)

lemma crc8_shift_bit: "bit (crc8_shift c) 0 \<longleftrightarrow> bit c 7"
  unfolding crc8_shift_def by (simp only: bit_xor_iff bit_push_bit_iff split: if_split) simp

lemma crc8_shift_inject: "crc8_shift c = crc8_shift d \<longleftrightarrow> c = d"
proof
  assume eq: "crc8_shift c = crc8_shift d"
  then have top: "bit c 7 \<longleftrightarrow> bit d 7"
    using crc8_shift_bit by metis
  with eq have p: "push_bit 1 c = push_bit 1 d"
    by (auto simp: crc8_shift_def xor_right_inject split: if_splits)
  show "c = d"
  proof (rule bit_word_eqI)
    fix n assume "n < LENGTH(8)"
    then have "n = 7 \<or> Suc n < 8"
      by auto
    then show "bit c n \<longleftrightarrow> bit d n"
      using top arg_cong [OF p, of "\<lambda>w. bit w (Suc n)", unfolded bit_push_bit_iff] by auto
  qed
qed simp

lemma crc8_tab_inject: "crc8_tab ! unat a = crc8_tab ! unat b \<longleftrightarrow> a = b" for a b :: u8
  unfolding crc8_tab_nth crc8_bitwise_def crc8_shift_inject ..

lemma crc8_append: "crc8 c (xs @ ys) = crc8 (crc8 c xs) ys"
  by (induction xs arbitrary: c) auto

lemma crc8_state_inject: "crc8 c xs = crc8 d xs \<longleftrightarrow> c = d"
  by (induction xs arbitrary: c d) (auto simp: crc8_tab_inject xor_right_inject)

lemma crc8_one_byte: "crc8 c (xs @ a # ys) = crc8 c (xs @ b # ys) \<longleftrightarrow> a = b"
  by (simp add: crc8_append crc8_state_inject crc8_tab_inject xor_left_inject)

text \<open>The CRC as the protocol defines it, bit by bit, and a packet that carries its CRC; the CRC byte counts as 0.\<close>

definition crc8_reference :: "u8 list \<Rightarrow> u8" where
  "crc8_reference bs = fold (\<lambda>b c. crc8_bitwise (c XOR b)) bs 0"

definition crc_ok :: "cubeio_packet \<Rightarrow> bool" where
  "crc_ok p \<longleftrightarrow> crc_packet (p \<lparr> pk_crc := 0 \<rparr>) = Some (pk_crc p)"

lemma crc8_fold: "crc8 c bs = fold (\<lambda>b c. crc8_bitwise (c XOR b)) bs c"
  by (induction bs arbitrary: c) (auto simp: crc8_tab_nth)

lemma pkt_bytes_crc: "pkt_bytes (p \<lparr> pk_crc := c \<rparr>) = (pkt_bytes p)[1 := c]" "pkt_bytes p ! 1 = pk_crc p"
  by (simp_all add: pkt_bytes_def)

lemma crc_packet_reference:
  "4 + 2 * unat (pk_count p) \<le> length (pkt_bytes p) \<Longrightarrow>
   crc_packet p = Some (crc8_reference (take (4 + 2 * unat (pk_count p)) (pkt_bytes p)))"
  by (simp add: crc_packet_def crc8_reference_def crc8_fold Let_def)

lemma crc_ok_covered: "crc_ok p \<Longrightarrow> 4 + 2 * unat (pk_count p) \<le> length (pkt_bytes p)"
  by (auto simp: crc_ok_def crc_packet_def Let_def pkt_bytes_crc split: if_splits)

lemma crc8_update: "i < length xs \<Longrightarrow> crc8 c (xs[i := b]) = crc8 c xs \<longleftrightarrow> b = xs ! i"
  using crc8_one_byte [of c "take i xs" b "drop (Suc i) xs" "xs ! i"] by (simp add: upd_conv_take_nth_drop id_take_nth_drop [symmetric])

lemma crc_ok_one_byte:
  assumes ok: "crc_ok p" and cnt: "pk_count q = pk_count p" and i: "i < 4 + 2 * unat (pk_count p)"
    and q: "pkt_bytes q = (pkt_bytes p)[i := b]" and b: "b \<noteq> pkt_bytes p ! i"
  shows "\<not> crc_ok q"
proof -
  let ?n = "4 + 2 * unat (pk_count p)"
  define xs where "xs = take ?n ((pkt_bytes p)[1 := 0])"
  have len: "?n \<le> length (pkt_bytes p)" "length xs = ?n"
    using crc_ok_covered [OF ok] by (simp_all add: xs_def)
  have p: "crc8 0 xs = pk_crc p"
    using ok len by (simp add: crc_ok_def crc_packet_def pkt_bytes_crc xs_def Let_def)
  show ?thesis
  proof (cases "i = 1")
    case True
    then have "take ?n ((pkt_bytes q)[1 := 0]) = xs" "pk_crc q = b" "pk_crc p \<noteq> b"
      using q b pkt_bytes_crc(2) [of q] pkt_bytes_crc(2) [of p] len by (simp_all add: xs_def)
    then show ?thesis
      using p len cnt q by (simp add: crc_ok_def crc_packet_def pkt_bytes_crc Let_def)
  next
    case False
    then have new: "take ?n ((pkt_bytes q)[1 := 0]) = xs[i := b]"
      using q by (simp add: xs_def take_update_swap list_update_swap)
    have "pk_crc q = pk_crc p"
      using False q pkt_bytes_crc(2) [of q] pkt_bytes_crc(2) [of p] by simp
    moreover have "xs ! i = pkt_bytes p ! i"
      using False i by (simp add: xs_def)
    ultimately show ?thesis
      using p crc8_update [of i xs 0 b] new i b len cnt q by (auto simp: crc_ok_def crc_packet_def pkt_bytes_crc Let_def)
  qed
qed

section \<open>The device\<close>

datatype cubeio_state = CUBEIO_RESET | CUBEIO_CONF | CUBEIO_OPERATION | CUBEIO_FAIL

datatype cubeio_event =
    CUBEIO_SET_PWM | CUBEIO_SET_FAILSAFE_PWM | CUBEIO_FORCE_SAFETY_OFF | CUBEIO_FORCE_SAFETY_ON
  | CUBEIO_ENABLE_SBUS_OUT | CUBEIO_ONESHOT_ON | CUBEIO_BRUSHED_ON | CUBEIO_SET_RATES
  | CUBEIO_SET_IMU_HEATER_DUTY | CUBEIO_SET_DEFAULT_RATE | CUBEIO_SET_SAFETY_MASK | CUBEIO_MIXING | CUBEIO_GPIO

fun event_number :: "cubeio_event \<Rightarrow> nat" where
  "event_number CUBEIO_SET_PWM = 1"
| "event_number CUBEIO_SET_FAILSAFE_PWM = 2"
| "event_number CUBEIO_FORCE_SAFETY_OFF = 3"
| "event_number CUBEIO_FORCE_SAFETY_ON = 4"
| "event_number CUBEIO_ENABLE_SBUS_OUT = 5"
| "event_number CUBEIO_ONESHOT_ON = 6"
| "event_number CUBEIO_BRUSHED_ON = 7"
| "event_number CUBEIO_SET_RATES = 8"
| "event_number CUBEIO_SET_IMU_HEATER_DUTY = 9"
| "event_number CUBEIO_SET_DEFAULT_RATE = 10"
| "event_number CUBEIO_SET_SAFETY_MASK = 11"
| "event_number CUBEIO_MIXING = 12"
| "event_number CUBEIO_GPIO = 13"

datatype cubeio_channel_type = CUBEIO_CHANNEL_UNIPOLAR | CUBEIO_CHANNEL_BIPOLAR | CUBEIO_CHANNEL_OTHER u16

definition channel_type :: "u16 \<Rightarrow> cubeio_channel_type" where
  "channel_type t = (if t = 0 then CUBEIO_CHANNEL_UNIPOLAR
     else if t = 1 then CUBEIO_CHANNEL_BIPOLAR else CUBEIO_CHANNEL_OTHER t)"

record cubeio_range_cfg =
  rc_type :: u16
  rc_min :: u16
  rc_max :: u16

record cubeio_pwm_out =
  num_channels :: u8
  po_pwm :: "u16 list"
  po_failsafe_pwm :: "u16 list"
  heater_duty :: u8
  safety_mask :: u16

record cubeio_rate =
  rt_freq :: u16
  rt_chmask :: u16
  rt_default_freq :: u16
  rt_sbus_rate_hz :: u16
  oneshot_enabled :: u8
  brushed_enabled :: u8

text \<open>The pages that are filled from the co-processor are kept as their 16 bit
  registers: \<open>config\<close> (2), \<open>pwm_in\<close> (16), \<open>page_reg_status\<close> (14) and
  \<open>page_rc_input\<close> (19), in the layout of the structures on the target.\<close>

record cubeio =
  cb_state :: cubeio_state
  iordy_semaphore :: bool
  timeout_semaphore :: bool
  cb_now :: u32
  last_rc_read_ms :: u32
  last_status_read_ms :: u32
  last_servo_read_ms :: u32
  last_safety_ms :: u32
  eventmask :: u32
  cb_config :: "u16 list"
  pwm_out :: cubeio_pwm_out
  pwm_in :: "u16 list"
  rate :: cubeio_rate
  page_reg_status :: "u16 list"
  page_rc_input :: "u16 list"
  rc_range_cfg :: "cubeio_range_cfg list"
  pwm_range_cfg :: "cubeio_range_cfg list"
  cb_pwm :: "real list"
  cb_failsafe_pwm :: real
  cb_rc :: "real list"
  cb_attempt :: u32

definition range_zero :: cubeio_range_cfg where
  "range_zero = \<lparr> rc_type = 0, rc_min = 0, rc_max = 0 \<rparr>"

text \<open>What \<open>calloc\<close> and \<open>cubeio_start\<close> leave in the structure.\<close>

definition cubeio_zero :: cubeio where
  "cubeio_zero = \<lparr> cb_state = CUBEIO_RESET, iordy_semaphore = False, timeout_semaphore = False, cb_now = 0,
     last_rc_read_ms = 0, last_status_read_ms = 0, last_servo_read_ms = 0, last_safety_ms = 0, eventmask = 0,
     cb_config = replicate 2 0,
     pwm_out = \<lparr> num_channels = 0, po_pwm = replicate 16 0, po_failsafe_pwm = replicate 16 0, heater_duty = 0, safety_mask = 0 \<rparr>,
     pwm_in = replicate 16 0,
     rate = \<lparr> rt_freq = 0, rt_chmask = 0, rt_default_freq = 0, rt_sbus_rate_hz = 0, oneshot_enabled = 0, brushed_enabled = 0 \<rparr>,
     page_reg_status = replicate 14 0, page_rc_input = replicate 19 0,
     rc_range_cfg = replicate 16 range_zero, pwm_range_cfg = replicate 16 range_zero,
     cb_pwm = replicate 16 0, cb_failsafe_pwm = 0, cb_rc = replicate 16 0, cb_attempt = 0 \<rparr>"

text \<open>\<open>cubeio_start\<close> up to the start of the service: \<open>alloc\<close> are the allocation of the
  structure and of its three semaphores, \<open>started\<close> the result of \<open>service_start\<close>.\<close>

definition cubeio_start :: "bool \<Rightarrow> bool \<Rightarrow> (nat \<Rightarrow> bool) \<Rightarrow> bool \<Rightarrow> cubeio option" where
  "cubeio_start usart_null name_null alloc started =
     (if usart_null \<or> name_null then None
      else if \<not> alloc 0 then None
      else if \<not> alloc 1 then None
      else if \<not> alloc 2 then None
      else if \<not> alloc 3 then None
      else let dev = cubeio_zero \<lparr> cb_state := CUBEIO_RESET \<rparr> in
        if \<not> started then None else Some dev)"

section \<open>Scaling\<close>

definition SAT :: "real \<Rightarrow> real \<Rightarrow> real \<Rightarrow> real" where
  "SAT inp mx mn = min (max inp mn) mx"

definition u2r :: "u16 \<Rightarrow> real" where
  "u2r w = of_nat (unat w)"

text \<open>The conversion of a double to \<open>uint16_t\<close> truncates; it is undefined when the
  result does not fit.\<close>

definition to_uint16 :: "real \<Rightarrow> u16 option" where
  "to_uint16 r = (if - 1 < r \<and> r < 65536 then Some (word_of_int (if 0 \<le> r then \<lfloor>r\<rfloor> else 0)) else None)"

definition cubeio_scale_output :: "real \<Rightarrow> cubeio_range_cfg \<Rightarrow> u16 option" where
  "cubeio_scale_output out cfg =
     (case channel_type (rc_type cfg) of
        CUBEIO_CHANNEL_UNIPOLAR \<Rightarrow> to_uint16 (out * (u2r (rc_max cfg) - u2r (rc_min cfg)) + u2r (rc_min cfg))
      | CUBEIO_CHANNEL_BIPOLAR \<Rightarrow> to_uint16 ((out + 1) * (u2r (rc_max cfg) - u2r (rc_min cfg)) / 2 + u2r (rc_min cfg))
      | CUBEIO_CHANNEL_OTHER _ \<Rightarrow> Some 0)"

text \<open>With \<open>max = min\<close> the quotient is not a number in the code and 0 here; \<open>SAT\<close> gives
  the same result for both.\<close>

definition cubeio_scale_input :: "u16 \<Rightarrow> cubeio_range_cfg \<Rightarrow> real" where
  "cubeio_scale_input inp cfg =
     (if inp < rc_min cfg \<or> inp > rc_max cfg then 0
      else case channel_type (rc_type cfg) of
        CUBEIO_CHANNEL_UNIPOLAR \<Rightarrow> SAT ((u2r inp - u2r (rc_min cfg)) / (u2r (rc_max cfg) - u2r (rc_min cfg))) 1 0
      | CUBEIO_CHANNEL_BIPOLAR \<Rightarrow> SAT (2 * (u2r inp - u2r (rc_min cfg)) / (u2r (rc_max cfg) - u2r (rc_min cfg)) - 1) 1 (- 1)
      | CUBEIO_CHANNEL_OTHER _ \<Rightarrow> 0)"

section \<open>Events, setters and getters\<close>

definition cubeio_pop_event :: "cubeio \<Rightarrow> cubeio_event \<Rightarrow> bool \<times> cubeio" where
  "cubeio_pop_event dev ev =
     (if eventmask dev AND push_bit (event_number ev) 1 \<noteq> 0
      then (True, dev \<lparr> eventmask := eventmask dev AND NOT (push_bit (event_number ev) 1) \<rparr>)
      else (False, dev))"

definition cubeio_push_event :: "cubeio \<Rightarrow> cubeio_event \<Rightarrow> cubeio" where
  "cubeio_push_event dev ev = dev \<lparr> eventmask := eventmask dev OR push_bit (event_number ev) 1 \<rparr>"

text \<open>\<open>typ\<close> 0 is \<open>CUBEIO_RC\<close> and 1 \<open>CUBEIO_PWM\<close>; the arrays have \<open>CUBEIO_MAX_CHANNELS\<close> elements.\<close>

definition cubeio_set_range :: "cubeio \<Rightarrow> int \<Rightarrow> u8 \<Rightarrow> u16 \<Rightarrow> u16 \<Rightarrow> u16 \<Rightarrow> cubeio option" where
  "cubeio_set_range dev typ channel ctype mn mx =
     (if typ = 0 \<or> typ = 1 then
        (if unat channel > CUBEIO_MAX_CHANNELS then Some dev
         else let cfg = \<lparr> rc_type = ctype, rc_min = mn, rc_max = mx \<rparr> in
           if typ = 0 then do {
             a \<leftarrow> arr_set (rc_range_cfg dev) (unat channel) cfg;
             Some (dev \<lparr> rc_range_cfg := a \<rparr>) }
           else do {
             a \<leftarrow> arr_set (pwm_range_cfg dev) (unat channel) cfg;
             Some (dev \<lparr> pwm_range_cfg := a \<rparr>) })
      else Some dev)"

definition cubeio_set_pwm :: "cubeio \<Rightarrow> u8 \<Rightarrow> real list \<Rightarrow> cubeio option" where
  "cubeio_set_pwm dev channels pwm =
     (if channels < 1 then Some dev
      else do {
        let dev = dev \<lparr> pwm_out := (pwm_out dev) \<lparr> num_channels := min channels (word_of_nat CUBEIO_MAX_CHANNELS) \<rparr> \<rparr>;
        a \<leftarrow> memcpy (cb_pwm dev) 0 pwm 0 CUBEIO_MAX_CHANNELS;
        let dev = cubeio_push_event (dev \<lparr> cb_pwm := a \<rparr>) CUBEIO_SET_PWM;
        Some (dev \<lparr> timeout_semaphore := True \<rparr>) })"

definition cubeio_set_failsafe_pwm :: "cubeio \<Rightarrow> real \<Rightarrow> cubeio" where
  "cubeio_set_failsafe_pwm dev pwm = cubeio_push_event (dev \<lparr> cb_failsafe_pwm := pwm \<rparr>) CUBEIO_SET_FAILSAFE_PWM"

definition cubeio_get_rc :: "cubeio \<Rightarrow> real list" where
  "cubeio_get_rc dev = cb_rc dev"

definition cubeio_get_pwm_channel :: "cubeio \<Rightarrow> u8 \<Rightarrow> u16 option" where
  "cubeio_get_pwm_channel dev channel =
     (if unat channel \<ge> CUBEIO_MAX_CHANNELS then Some 0xFFFF else arr_get (pwm_in dev) (unat channel))"

definition cubeio_set_safety_mask :: "cubeio \<Rightarrow> u16 \<Rightarrow> cubeio" where
  "cubeio_set_safety_mask dev m =
     cubeio_push_event (dev \<lparr> pwm_out := (pwm_out dev) \<lparr> safety_mask := m \<rparr> \<rparr>) CUBEIO_SET_SAFETY_MASK"

text \<open>A channel group that is touched is set as a whole.\<close>

definition spread_masks :: "u16 \<Rightarrow> u16" where
  "spread_masks chmask = fold (\<lambda>m c. if c AND m \<noteq> 0 then c OR m else c) [0x03, 0x0C, 0xF0] chmask"

definition cubeio_set_freq :: "cubeio \<Rightarrow> u16 \<Rightarrow> u16 \<Rightarrow> cubeio" where
  "cubeio_set_freq dev chmask freq =
     cubeio_push_event (dev \<lparr> rate := (rate dev) \<lparr> rt_freq := freq, rt_chmask := spread_masks chmask \<rparr> \<rparr>) CUBEIO_SET_RATES"

text \<open>A shift of an int by 32 or more is undefined.\<close>

definition cubeio_get_freq :: "cubeio \<Rightarrow> u16 \<Rightarrow> u16 option" where
  "cubeio_get_freq dev channel =
     (if unat channel < 32 then
        Some (if (push_bit (unat channel) 1 :: u32) AND ucast (rt_chmask (rate dev)) \<noteq> 0
              then rt_freq (rate dev) else rt_default_freq (rate dev))
      else None)"

definition cubeio_set_default_freq :: "cubeio \<Rightarrow> u16 \<Rightarrow> cubeio" where
  "cubeio_set_default_freq dev freq =
     (if rt_default_freq (rate dev) \<noteq> freq
      then cubeio_push_event (dev \<lparr> rate := (rate dev) \<lparr> rt_default_freq := freq \<rparr> \<rparr>) CUBEIO_SET_DEFAULT_RATE
      else dev)"

definition cubeio_set_oneshot_mode :: "cubeio \<Rightarrow> cubeio" where
  "cubeio_set_oneshot_mode dev =
     cubeio_push_event (dev \<lparr> rate := (rate dev) \<lparr> oneshot_enabled := 1 \<rparr> \<rparr>) CUBEIO_ONESHOT_ON"

definition cubeio_set_brushed_mode :: "cubeio \<Rightarrow> cubeio" where
  "cubeio_set_brushed_mode dev =
     cubeio_push_event (dev \<lparr> rate := (rate dev) \<lparr> brushed_enabled := 1 \<rparr> \<rparr>) CUBEIO_BRUSHED_ON"

text \<open>\<open>flag_safety_off\<close> and \<open>safety_forced_off\<close> are the low and high byte of register 10
  of the status page.\<close>

definition cubeio_get_safety_switch_state :: "cubeio \<Rightarrow> bool" where
  "cubeio_get_safety_switch_state dev \<longleftrightarrow> (ucast (page_reg_status dev ! 10) :: u8) \<noteq> 0"

definition set_safety_forced_off :: "u8 \<Rightarrow> cubeio \<Rightarrow> cubeio" where
  "set_safety_forced_off v dev = dev \<lparr> page_reg_status :=
     (page_reg_status dev)[10 := msb_lsb_16 v (ucast (page_reg_status dev ! 10))] \<rparr>"

definition cubeio_force_safety_on :: "cubeio \<Rightarrow> cubeio" where
  "cubeio_force_safety_on dev =
     (cubeio_push_event (set_safety_forced_off 0 dev) CUBEIO_FORCE_SAFETY_ON) \<lparr> timeout_semaphore := True \<rparr>"

definition cubeio_force_safety_off :: "cubeio \<Rightarrow> cubeio" where
  "cubeio_force_safety_off dev =
     (cubeio_push_event (set_safety_forced_off 1 dev) CUBEIO_FORCE_SAFETY_OFF) \<lparr> timeout_semaphore := True \<rparr>"

definition cubeio_set_imu_heater_duty :: "cubeio \<Rightarrow> u8 \<Rightarrow> cubeio" where
  "cubeio_set_imu_heater_duty dev duty =
     cubeio_push_event (dev \<lparr> pwm_out := (pwm_out dev) \<lparr> heater_duty := duty \<rparr> \<rparr>) CUBEIO_SET_IMU_HEATER_DUTY"

definition cubeio_get_rssi :: "cubeio \<Rightarrow> int" where
  "cubeio_get_rssi dev = sint (page_rc_input dev ! 18)"

definition cubeio_enable_sbus_out :: "cubeio \<Rightarrow> u16 \<Rightarrow> cubeio" where
  "cubeio_enable_sbus_out dev freq =
     cubeio_push_event (dev \<lparr> rate := (rate dev) \<lparr> rt_sbus_rate_hz := freq \<rparr> \<rparr>) CUBEIO_ENABLE_SBUS_OUT"

section \<open>Register access\<close>

text \<open>The world of the driver: the transfer on the serial port (sent bytes, old receive
  buffer, and the result with the new receive buffer), the clock in milliseconds,
  the task delay and the debug output. They are the code's parameters.\<close>

record 'w cubeio_env =
  usart_transmit_receive :: "u8 list \<Rightarrow> u8 list \<Rightarrow> 'w \<Rightarrow> errno \<times> u8 list \<times> 'w"
  now_ms :: "'w \<Rightarrow> u32"
  task_delay :: "nat \<Rightarrow> 'w \<Rightarrow> 'w"
  debug_gpio_reset :: "'w \<Rightarrow> 'w"

definition make_pkt :: "u8 \<Rightarrow> u8 \<Rightarrow> u8 \<Rightarrow> u8 \<Rightarrow> u16 list \<Rightarrow> cubeio_packet option" where
  "make_pkt code page offset count regs = do {
     let pkt = pkt_zero \<lparr> pk_count := take_bit 6 count, pk_code := code, pk_page := page, pk_offset := offset, pk_crc := 0 \<rparr>;
     r \<leftarrow> memcpy (pk_regs pkt) 0 regs 0 (unat count);
     let pkt = pkt \<lparr> pk_regs := r \<rparr>;
     c \<leftarrow> crc_packet pkt;
     Some (pkt \<lparr> pk_crc := c \<rparr>) }"

text \<open>The loop over the attempts: \<open>n\<close> are left, \<open>rv\<close> and \<open>rx\<close> are the values of the
  last one.\<close>

primrec write_attempts ::
    "nat \<Rightarrow> 'w cubeio_env \<Rightarrow> cubeio_packet \<Rightarrow> errno \<Rightarrow> cubeio_packet \<Rightarrow> 'w \<Rightarrow> (errno \<times> 'w) option" where
  "write_attempts 0 env tx rv rx w = Some (rv, w)"
| "write_attempts (Suc n) env tx rv rx w =
     (case usart_transmit_receive env (pkt_bytes tx) (pkt_bytes rx) w of (rv, bytes, w) \<Rightarrow>
        (let rx = pkt_of_bytes bytes in
         if rv \<noteq> EOK then write_attempts n env tx rv rx w
         else if get_pkt_code rx \<noteq> ucast PKT_CODE_SUCCESS then write_attempts n env tx EINVAL rx w
         else (let got_crc = pk_crc rx; rx = rx \<lparr> pk_crc := 0 \<rparr> in
           case crc_packet rx of None \<Rightarrow> None
           | Some c \<Rightarrow> if c \<noteq> got_crc then write_attempts n env tx EPROTO rx w else Some (rv, w))))"

definition cubeio_write_regs ::
    "'w cubeio_env \<Rightarrow> u8 \<Rightarrow> u8 \<Rightarrow> u8 \<Rightarrow> u16 list \<Rightarrow> 'w \<Rightarrow> (errno \<times> 'w) option" where
  "cubeio_write_regs env page offset count regs w = do {
     tx \<leftarrow> make_pkt PKT_CODE_WRITE page offset count regs;
     write_attempts 3 env tx EOK pkt_zero w }"

text \<open>On a bad count the message prints the size of the packet, which has to be evaluated; its value has no effect.\<close>

primrec read_attempts ::
    "nat \<Rightarrow> 'w cubeio_env \<Rightarrow> cubeio_packet \<Rightarrow> u8 \<Rightarrow> u16 list \<Rightarrow> errno \<Rightarrow> cubeio_packet \<Rightarrow> 'w \<Rightarrow>
     (errno \<times> u16 list \<times> 'w) option" where
  "read_attempts 0 env tx count regs rv rx w = Some (rv, regs, w)"
| "read_attempts (Suc n) env tx count regs rv rx w =
     (case usart_transmit_receive env (pkt_bytes tx) (pkt_bytes rx) w of (rv, bytes, w) \<Rightarrow>
        (let rx = pkt_of_bytes bytes in
         if rv \<noteq> EOK then read_attempts n env tx count regs rv rx w
         else if get_pkt_code rx \<noteq> ucast PKT_CODE_SUCCESS then read_attempts n env tx count regs EINVAL rx w
         else if get_pkt_count rx \<noteq> ucast count then
           (case get_pkt_size 0 rx of None \<Rightarrow> None | Some _ \<Rightarrow> read_attempts n env tx count regs EINVAL rx w)
         else (let got_crc = pk_crc rx; rx = rx \<lparr> pk_crc := 0 \<rparr> in
           case crc_packet rx of None \<Rightarrow> None
           | Some c \<Rightarrow>
               if c \<noteq> got_crc then read_attempts n env tx count regs EPROTO rx w
               else (case memcpy regs 0 (pk_regs rx) 0 (unat count) of None \<Rightarrow> None
                 | Some regs \<Rightarrow> Some (rv, regs, w)))))"

definition cubeio_read_regs ::
    "'w cubeio_env \<Rightarrow> u8 \<Rightarrow> u8 \<Rightarrow> u8 \<Rightarrow> u16 list \<Rightarrow> 'w \<Rightarrow> (errno \<times> u16 list \<times> 'w) option" where
  "cubeio_read_regs env page offset count regs w = do {
     tx \<leftarrow> make_pkt PKT_CODE_READ page offset count regs;
     read_attempts 3 env tx count regs EOK pkt_zero w }"

definition cubeio_write_reg :: "'w cubeio_env \<Rightarrow> u8 \<Rightarrow> u8 \<Rightarrow> u16 \<Rightarrow> 'w \<Rightarrow> (errno \<times> 'w) option" where
  "cubeio_write_reg env page offset reg w = cubeio_write_regs env page offset 1 [reg] w"

text \<open>The result is whether the call failed.\<close>

definition cubeio_set_clear_reg ::
    "'w cubeio_env \<Rightarrow> u8 \<Rightarrow> u8 \<Rightarrow> u16 \<Rightarrow> u16 \<Rightarrow> 'w \<Rightarrow> (bool \<times> 'w) option" where
  "cubeio_set_clear_reg env page offset setbits clearbits w = do {
     (rv, regs, w) \<leftarrow> cubeio_read_regs env page offset 1 [0] w;
     (if rv \<noteq> EOK then Some (True, w)
      else do {
        (rv, w) \<leftarrow> cubeio_write_reg env page offset ((regs ! 0 AND NOT clearbits) OR setbits) w;
        Some (rv \<noteq> EOK, w) }) }"

definition cubeio_update_safety_options :: "'w cubeio_env \<Rightarrow> 'w \<Rightarrow> 'w option" where
  "cubeio_update_safety_options env w = do {
     let reg = P_SETUP_ARMING_SAFETY_DISABLE_OFF;
     let mask = P_SETUP_ARMING_SAFETY_DISABLE_OFF OR P_SETUP_ARMING_SAFETY_DISABLE_ON;
     (_, w) \<leftarrow> cubeio_set_clear_reg env PAGE_SETUP PAGE_REG_SETUP_ARMING (reg AND mask) (NOT reg AND mask) w;
     Some w }"

section \<open>The state machine\<close>

text \<open>State RESET. The result of the first read is not looked at, and \<open>attempt\<close> is
  cleared whatever the versions are.\<close>

definition fsm_reset :: "'w cubeio_env \<Rightarrow> cubeio \<times> 'w \<Rightarrow> (cubeio \<times> 'w) option" where
  "fsm_reset env = (\<lambda>(dev, w). do {
     let w = task_delay env 100 w;
     let dev = dev \<lparr> cb_state := CUBEIO_CONF \<rparr>;
     (_, cfg, w) \<leftarrow> cubeio_read_regs env PAGE_CONFIG 0 2 (cb_config dev) w;
     let dev = dev \<lparr> cb_config := cfg \<rparr>;
     let dev = (if cfg ! 0 \<noteq> PROTOCOL_VERSION \<or> cfg ! 1 \<noteq> PROTOCOL_VERSION2
       then let dev = dev \<lparr> cb_attempt := cb_attempt dev + 1 \<rparr> in
            if cb_attempt dev > 5 then dev \<lparr> cb_state := CUBEIO_FAIL \<rparr> else dev
       else dev);
     let dev = dev \<lparr> cb_attempt := 0 \<rparr>;
     (failed, w) \<leftarrow> cubeio_set_clear_reg env PAGE_SETUP PAGE_REG_SETUP_ARMING
       (P_SETUP_ARMING_IO_ARM_OK OR P_SETUP_ARMING_FMU_ARMED OR P_SETUP_ARMING_RC_HANDLING_DISABLED) 0 w;
     Some (if failed then dev \<lparr> cb_state := CUBEIO_FAIL \<rparr> else dev, w) })"

definition on_event :: "cubeio_event \<Rightarrow> (cubeio \<times> 'w \<Rightarrow> (cubeio \<times> 'w) option) \<Rightarrow> cubeio \<times> 'w \<Rightarrow> (cubeio \<times> 'w) option" where
  "on_event ev act = (\<lambda>(dev, w). case cubeio_pop_event dev ev of
     (True, dev) \<Rightarrow> act (dev, w) | (False, dev) \<Rightarrow> Some (dev, w))"

text \<open>Scaling the first \<open>n\<close> channels into an array of the outgoing page.\<close>

fun scale_channels :: "nat \<Rightarrow> nat \<Rightarrow> (nat \<Rightarrow> real) \<Rightarrow> cubeio_range_cfg list \<Rightarrow> u16 list \<Rightarrow> u16 list option" where
  "scale_channels i 0 val cfg a = Some a"
| "scale_channels i (Suc n) val cfg a = do {
     c \<leftarrow> arr_get cfg i;
     v \<leftarrow> cubeio_scale_output (val i) c;
     a \<leftarrow> arr_set a i v;
     scale_channels (Suc i) n val cfg a }"

definition ev_set_pwm :: "'w cubeio_env \<Rightarrow> cubeio \<times> 'w \<Rightarrow> (cubeio \<times> 'w) option" where
  "ev_set_pwm env = (\<lambda>(dev, w). do {
     let n = num_channels (pwm_out dev);
     a \<leftarrow> scale_channels 0 (unat n) (\<lambda>i. cb_pwm dev ! i) (pwm_range_cfg dev) (po_pwm (pwm_out dev));
     let dev = dev \<lparr> pwm_out := (pwm_out dev) \<lparr> po_pwm := a \<rparr> \<rparr>;
     (_, w) \<leftarrow> cubeio_write_regs env PAGE_DIRECT_PWM 0 n a w;
     Some (dev, debug_gpio_reset env w) })"

definition ev_set_failsafe_pwm :: "'w cubeio_env \<Rightarrow> cubeio \<times> 'w \<Rightarrow> (cubeio \<times> 'w) option" where
  "ev_set_failsafe_pwm env = (\<lambda>(dev, w). do {
     a \<leftarrow> scale_channels 0 CUBEIO_MAX_CHANNELS (\<lambda>_. cb_failsafe_pwm dev) (pwm_range_cfg dev) (po_failsafe_pwm (pwm_out dev));
     let dev = dev \<lparr> pwm_out := (pwm_out dev) \<lparr> po_failsafe_pwm := a \<rparr> \<rparr>;
     (_, w) \<leftarrow> cubeio_write_regs env PAGE_FAILSAFE_PWM 0 (word_of_nat CUBEIO_MAX_CHANNELS) a w;
     Some (dev, w) })"

text \<open>An event that writes one register of the setup page, and one that sets bits of a
  register of it; their results are not looked at.\<close>

definition ev_write :: "'w cubeio_env \<Rightarrow> u8 \<Rightarrow> (cubeio \<Rightarrow> u16) \<Rightarrow> cubeio \<times> 'w \<Rightarrow> (cubeio \<times> 'w) option" where
  "ev_write env offset val = (\<lambda>(dev, w). do {
     (_, w) \<leftarrow> cubeio_write_reg env PAGE_SETUP offset (val dev) w;
     Some (dev, w) })"

definition ev_set_bits :: "'w cubeio_env \<Rightarrow> u16 \<Rightarrow> cubeio \<times> 'w \<Rightarrow> (cubeio \<times> 'w) option" where
  "ev_set_bits env bits = (\<lambda>(dev, w). do {
     (_, w) \<leftarrow> cubeio_set_clear_reg env PAGE_SETUP PAGE_REG_SETUP_FEATURES bits 0 w;
     Some (dev, w) })"

definition fsm_events :: "'w cubeio_env \<Rightarrow> cubeio \<times> 'w \<Rightarrow> (cubeio \<times> 'w) option" where
  "fsm_events env s = do {
     s \<leftarrow> on_event CUBEIO_SET_PWM (ev_set_pwm env) s;
     s \<leftarrow> on_event CUBEIO_SET_FAILSAFE_PWM (ev_set_failsafe_pwm env) s;
     s \<leftarrow> on_event CUBEIO_FORCE_SAFETY_OFF (ev_write env PAGE_REG_SETUP_FORCE_SAFETY_OFF (\<lambda>_. FORCE_SAFETY_MAGIC)) s;
     s \<leftarrow> on_event CUBEIO_FORCE_SAFETY_ON (ev_write env PAGE_REG_SETUP_FORCE_SAFETY_ON (\<lambda>_. FORCE_SAFETY_MAGIC)) s;
     s \<leftarrow> on_event CUBEIO_ENABLE_SBUS_OUT (\<lambda>s. do {
            s \<leftarrow> ev_write env PAGE_REG_SETUP_SBUS_RATE (\<lambda>dev. rt_sbus_rate_hz (rate dev)) s;
            ev_set_bits env P_SETUP_FEATURES_SBUS1_OUT s }) s;
     s \<leftarrow> on_event CUBEIO_SET_RATES (\<lambda>s. do {
            s \<leftarrow> ev_write env PAGE_REG_SETUP_ALTRATE (\<lambda>dev. rt_freq (rate dev)) s;
            ev_write env PAGE_REG_SETUP_PWM_RATE_MASK (\<lambda>dev. rt_chmask (rate dev)) s }) s;
     s \<leftarrow> on_event CUBEIO_SET_IMU_HEATER_DUTY
            (ev_write env PAGE_REG_SETUP_HEATER_DUTY_CYCLE (\<lambda>dev. ucast (heater_duty (pwm_out dev)))) s;
     s \<leftarrow> on_event CUBEIO_SET_DEFAULT_RATE
            (ev_write env PAGE_REG_SETUP_DEFAULTRATE (\<lambda>dev. rt_default_freq (rate dev))) s;
     s \<leftarrow> on_event CUBEIO_BRUSHED_ON (ev_set_bits env P_SETUP_FEATURES_BRUSHED) s;
     s \<leftarrow> on_event CUBEIO_ONESHOT_ON (ev_set_bits env P_SETUP_FEATURES_ONESHOT) s;
     on_event CUBEIO_SET_SAFETY_MASK
       (ev_write env PAGE_REG_SETUP_IGNORE_SAFETY (\<lambda>dev. safety_mask (pwm_out dev))) s }"

text \<open>The periodic part: a page is read again when its age, in wrapping 32 bit
  arithmetic, exceeds its period.\<close>

definition due :: "cubeio \<Rightarrow> (cubeio \<Rightarrow> u32) \<Rightarrow> u32 \<Rightarrow> bool" where
  "due dev stamp period \<longleftrightarrow> cb_now dev - stamp dev > period"

definition poll_rc :: "'w cubeio_env \<Rightarrow> cubeio \<times> 'w \<Rightarrow> (cubeio \<times> 'w) option" where
  "poll_rc env = (\<lambda>(dev, w).
     if due dev last_rc_read_ms 20 then do {
       (_, page, w) \<leftarrow> cubeio_read_regs env PAGE_RAW_RCIN 0 19 (page_rc_input dev) w;
       let dev = dev \<lparr> page_rc_input := page,
         cb_rc := map (\<lambda>i. cubeio_scale_input (page ! (2 + i)) (rc_range_cfg dev ! i)) [0..<CUBEIO_MAX_CHANNELS] \<rparr>;
       Some (dev \<lparr> last_rc_read_ms := now_ms env w \<rparr>, w) }
     else Some (dev, w))"

definition poll_status :: "'w cubeio_env \<Rightarrow> cubeio \<times> 'w \<Rightarrow> (cubeio \<times> 'w) option" where
  "poll_status env = (\<lambda>(dev, w).
     if due dev last_status_read_ms 50 then do {
       (_, page, w) \<leftarrow> cubeio_read_regs env PAGE_STATUS 0 14 (page_reg_status dev) w;
       Some (dev \<lparr> page_reg_status := page, last_status_read_ms := now_ms env w \<rparr>, w) }
     else Some (dev, w))"

definition poll_servos :: "'w cubeio_env \<Rightarrow> cubeio \<times> 'w \<Rightarrow> (cubeio \<times> 'w) option" where
  "poll_servos env = (\<lambda>(dev, w).
     if due dev last_servo_read_ms 50 then do {
       (_, page, w) \<leftarrow> cubeio_read_regs env PAGE_SERVOS 0 (num_channels (pwm_out dev)) (pwm_in dev) w;
       Some (dev \<lparr> pwm_in := page, last_servo_read_ms := now_ms env w \<rparr>, w) }
     else Some (dev, w))"

definition poll_safety :: "'w cubeio_env \<Rightarrow> cubeio \<times> 'w \<Rightarrow> (cubeio \<times> 'w) option" where
  "poll_safety env = (\<lambda>(dev, w).
     if due dev last_safety_ms 1000 then do {
       w \<leftarrow> cubeio_update_safety_options env w;
       Some (dev \<lparr> last_safety_ms := now_ms env w \<rparr>, w) }
     else Some (dev, w))"

text \<open>State OPERATION: up to 20 ms of waiting for a setter, the events, the periodic
  reads and the selection of the RC protocol (the 32 bit value 1, low register first).\<close>

definition fsm_operation :: "'w cubeio_env \<Rightarrow> cubeio \<times> 'w \<Rightarrow> (cubeio \<times> 'w) option" where
  "fsm_operation env = (\<lambda>(dev, w). do {
     let w = (if timeout_semaphore dev then w else task_delay env 20 w);
     let dev = dev \<lparr> timeout_semaphore := False, cb_now := now_ms env w \<rparr>;
     s \<leftarrow> fsm_events env (dev, w);
     s \<leftarrow> poll_rc env s;
     s \<leftarrow> poll_status env s;
     s \<leftarrow> poll_servos env s;
     (dev, w) \<leftarrow> poll_safety env s;
     (_, w) \<leftarrow> cubeio_write_regs env PAGE_SETUP PAGE_REG_SETUP_RC_PROTOCOLS 2 [1, 0] w;
     Some (dev \<lparr> iordy_semaphore := True \<rparr>, w) })"

text \<open>One call of the service's function; the last component is whether the task is
  still there.\<close>

definition cubeio_fsm :: "'w cubeio_env \<Rightarrow> cubeio \<times> 'w \<Rightarrow> (cubeio \<times> 'w \<times> bool) option" where
  "cubeio_fsm env s =
     (case cb_state (fst s) of
        CUBEIO_RESET \<Rightarrow> do { (dev, w) \<leftarrow> fsm_reset env s; Some (dev, w, True) }
      | CUBEIO_CONF \<Rightarrow> Some ((fst s) \<lparr> cb_state := CUBEIO_OPERATION \<rparr>, snd s, True)
      | CUBEIO_OPERATION \<Rightarrow> do { (dev, w) \<leftarrow> fsm_operation env s; Some (dev, w, True) }
      | CUBEIO_FAIL \<Rightarrow> Some ((fst s) \<lparr> iordy_semaphore := True \<rparr>, snd s, False))"

section \<open>Packets and bytes\<close>

definition pkt_ok :: "cubeio_packet \<Rightarrow> bool" where
  "pkt_ok p \<longleftrightarrow> take_bit 6 (pk_count p) = pk_count p \<and> take_bit 2 (pk_code p) = pk_code p \<and>
     length (pk_regs p) = CUBEIO_PKT_MAX_REGS"

lemma reg_bytes_length: "length (concat (map reg_bytes rs)) = 2 * length rs"
  by (induction rs) (auto simp: reg_bytes_def)

lemma pkt_bytes_length [len_simps]: "length (pkt_bytes p) = 4 + 2 * length (pk_regs p)"
  by (simp add: pkt_bytes_def reg_bytes_length)

lemma regs_of_reg_bytes [simp]: "regs_of_bytes (concat (map reg_bytes rs)) = rs"
  by (induction rs) (auto simp: reg_bytes_def)

lemma reg_bytes_of_regs: "even (length bs) \<Longrightarrow> concat (map reg_bytes (regs_of_bytes bs)) = bs"
  by (induction bs rule: regs_of_bytes.induct) (auto simp: reg_bytes_def)

lemma regs_of_bytes_length: "length (regs_of_bytes bs) = length bs div 2"
  by (induction bs rule: regs_of_bytes.induct) auto

lemma first_byte_fields:
  assumes "take_bit 6 (c :: u8) = c" and "take_bit 2 (k :: u8) = k"
  shows "take_bit 6 (c OR push_bit 6 k) = c" and "drop_bit 6 (c OR push_bit 6 k) = k"
proof -
  have c: "bit c n \<Longrightarrow> n < 6" for n
    using assms(1) by (metis bit_take_bit_iff)
  have k: "bit k n \<Longrightarrow> n < 2" for n
    using assms(2) by (metis bit_take_bit_iff)
  show "take_bit 6 (c OR push_bit 6 k) = c"
    by (rule bit_word_eqI) (auto simp: bit_simps dest: c)
  show "drop_bit 6 (c OR push_bit 6 k) = k"
    by (rule bit_word_eqI) (auto simp: bit_simps dest: c k)
qed

lemma pkt_of_pkt_bytes: "pkt_ok p \<Longrightarrow> pkt_of_bytes (pkt_bytes p) = p"
proof -
  assume "pkt_ok p"
  then have c: "take_bit 6 (pk_count p) = pk_count p" and k: "take_bit 2 (pk_code p) = pk_code p"
    by (auto simp: pkt_ok_def)
  have "pkt_bytes p ! 0 = pk_count p OR push_bit 6 (pk_code p)" and "pkt_bytes p ! 1 = pk_crc p"
    and "pkt_bytes p ! 2 = pk_page p" and "pkt_bytes p ! 3 = pk_offset p"
    and "regs_of_bytes (drop 4 (pkt_bytes p)) = pk_regs p"
    by (simp_all add: pkt_bytes_def eval_nat_numeral)
  then show ?thesis
    by (simp only: pkt_of_bytes_def first_byte_fields [OF c k]) simp
qed

lemma pkt_of_bytes_ok:
  "length bs = 4 + 2 * CUBEIO_PKT_MAX_REGS \<Longrightarrow> pkt_ok (pkt_of_bytes bs)"
proof -
  assume "length bs = 4 + 2 * CUBEIO_PKT_MAX_REGS"
  moreover have "take_bit 2 (drop_bit 6 (bs ! 0)) = drop_bit 6 (bs ! 0)"
    by (rule bit_word_eqI) (auto simp: bit_simps dest: bit_imp_le_length)
  ultimately show ?thesis
    by (simp add: pkt_ok_def pkt_of_bytes_def regs_of_bytes_length)
qed

lemma first_byte_split: "take_bit 6 b OR push_bit 6 (drop_bit 6 b) = b" for b :: u8
proof (rule bit_word_eqI)
  fix n assume "n < LENGTH(8)"
  then show "bit (take_bit 6 b OR push_bit 6 (drop_bit 6 b)) n \<longleftrightarrow> bit b n"
    by (cases "n < 6") (auto simp: bit_simps not_less)
qed

lemma pkt_bytes_of_bytes: "length bs = 4 + 2 * CUBEIO_PKT_MAX_REGS \<Longrightarrow> pkt_bytes (pkt_of_bytes bs) = bs"
proof -
  assume l: "length bs = 4 + 2 * CUBEIO_PKT_MAX_REGS"
  then obtain a b c d r where bs: "bs = a # b # c # d # r"
    by (auto simp: CUBEIO_PKT_MAX_REGS_def length_Suc_conv eval_nat_numeral)
  have "even (length r)"
    using l bs by (simp add: CUBEIO_PKT_MAX_REGS_def)
  then show ?thesis
    by (simp add: bs pkt_bytes_def pkt_of_bytes_def first_byte_split reg_bytes_of_regs numeral_2_eq_2 numeral_3_eq_3)
qed

text \<open>The CRC of a packet with at most 22 registers is defined.\<close>

lemma crc_packet_defined: "length (pk_regs p) = CUBEIO_PKT_MAX_REGS \<Longrightarrow>
    crc_packet p \<noteq> None \<longleftrightarrow> unat (pk_count p) \<le> CUBEIO_PKT_MAX_REGS"
  by (simp add: crc_packet_def pkt_bytes_length Let_def)

lemma small_count: "unat (c :: u8) \<le> CUBEIO_PKT_MAX_REGS \<Longrightarrow> take_bit 6 c = c"
  by (rule word_eq_by_unat) (simp add: CUBEIO_PKT_MAX_REGS_def unsigned_take_bit_eq take_bit_nat_eq_self)

lemma make_pkt_ok:
  assumes "unat count \<le> CUBEIO_PKT_MAX_REGS" and "unat count \<le> length regs" and "take_bit 2 code = code"
  shows "\<exists>tx. make_pkt code page offset count regs = Some tx \<and> pkt_ok tx \<and> pk_code tx = code \<and> pk_page tx = page \<and>
     pk_offset tx = offset \<and> pk_count tx = count \<and> take (unat count) (pk_regs tx) = take (unat count) regs"
proof -
  let ?r = "take (unat count) regs @ drop (unat count) (replicate CUBEIO_PKT_MAX_REGS 0)"
  let ?p = "pkt_zero \<lparr> pk_count := count, pk_code := code, pk_page := page, pk_offset := offset, pk_crc := 0, pk_regs := ?r \<rparr>"
  have len: "length ?r = CUBEIO_PKT_MAX_REGS"
    using assms by simp
  obtain c where "crc_packet ?p = Some c"
    using crc_packet_defined [of ?p] len assms(1) by auto
  then have "make_pkt code page offset count regs = Some (?p \<lparr> pk_crc := c \<rparr>)"
    using assms by (simp add: make_pkt_def small_count memcpy_def pkt_zero_def)
  then show ?thesis
    using assms len by (simp add: pkt_ok_def small_count pkt_zero_def)
qed

section \<open>Outcome of the register accesses\<close>

text \<open>The only assumption on the port: it fills the receive buffer it is given.\<close>

definition env_ok :: "'w cubeio_env \<Rightarrow> bool" where
  "env_ok env \<longleftrightarrow> (\<forall>tx rx w. length (fst (snd (usart_transmit_receive env tx rx w))) = length rx)"

definition rx_valid :: "u8 list \<Rightarrow> bool" where
  "rx_valid bytes \<longleftrightarrow> length bytes = 4 + 2 * CUBEIO_PKT_MAX_REGS \<and>
     get_pkt_code (pkt_of_bytes bytes) = ucast PKT_CODE_SUCCESS \<and>
     crc_packet ((pkt_of_bytes bytes) \<lparr> pk_crc := 0 \<rparr>) = Some (pk_crc (pkt_of_bytes bytes))"

lemma env_reply_ok:
  assumes "env_ok env" and "pkt_ok rx" and "usart_transmit_receive env tx (pkt_bytes rx) w = (rv, bytes, w')"
  shows "length bytes = 4 + 2 * CUBEIO_PKT_MAX_REGS \<and> pkt_ok (pkt_of_bytes bytes)"
proof -
  have "length bytes = length (pkt_bytes rx)"
    using assms(1,3) by (metis env_ok_def fst_conv snd_conv)
  then show ?thesis
    using assms(2) pkt_of_bytes_ok by (simp add: pkt_ok_def pkt_bytes_length)
qed

lemma pkt_zero_ok: "pkt_ok pkt_zero"
  by (simp add: pkt_ok_def pkt_zero_def)

text \<open>A reply that claims success with a count other than the one asked for, which indexes the registers behind their end.\<close>

definition bad_count :: "u8 \<Rightarrow> u8 list \<Rightarrow> bool" where
  "bad_count count bytes \<longleftrightarrow> get_pkt_code (pkt_of_bytes bytes) = ucast PKT_CODE_SUCCESS \<and> pk_count (pkt_of_bytes bytes) \<noteq> count \<and>
     CUBEIO_PKT_MAX_REGS \<le> unat (pk_count (pkt_of_bytes bytes))"

definition gets_bad_count :: "'w cubeio_env \<Rightarrow> u8 list \<Rightarrow> u8 \<Rightarrow> bool" where
  "gets_bad_count env tx count \<longleftrightarrow> (\<exists>rx w bytes w'. usart_transmit_receive env tx rx w = (EOK, bytes, w') \<and> bad_count count bytes)"

definition read_result :: "'w cubeio_env \<Rightarrow> u8 list \<Rightarrow> u8 \<Rightarrow> u16 list \<Rightarrow> (errno \<times> u16 list \<times> 'w) option \<Rightarrow> bool" where
  "read_result env tx count regs r = (case r of
     None \<Rightarrow> gets_bad_count env tx count
   | Some (rv, regs', w') \<Rightarrow>
      (rv \<noteq> EOK \<and> regs' = regs) \<or>
      (rv = EOK \<and> (\<exists>bytes. rx_valid bytes \<and> pk_count (pkt_of_bytes bytes) = count \<and>
         regs' = take (unat count) (pk_regs (pkt_of_bytes bytes)) @ drop (unat count) regs)))"

lemma get_pkt_size_some: "pkt_ok p \<Longrightarrow> get_pkt_size a p \<noteq> None \<longleftrightarrow> unat (pk_count p) < CUBEIO_PKT_MAX_REGS"
  by (simp add: get_pkt_size_def get_pkt_count_def pkt_ok_def arr_get_def)

lemma read_attempts_outcome:
  assumes "env_ok env" and "pkt_ok rx" and "unat count \<le> CUBEIO_PKT_MAX_REGS" and "unat count \<le> length regs"
    and "n = 0 \<longrightarrow> rv \<noteq> EOK"
  shows "read_result env (pkt_bytes tx) count regs (read_attempts n env tx count regs rv rx w)"
  using assms
proof (induction n arbitrary: rv rx w)
  case (Suc n)
  obtain rv1 bytes w1 where t: "usart_transmit_receive env (pkt_bytes tx) (pkt_bytes rx) w = (rv1, bytes, w1)"
    by (metis prod_cases3)
  note ok = env_reply_ok [OF Suc.prems(1,2) t]
  let ?p = "pkt_of_bytes bytes"
  have retry: "e \<noteq> EOK \<Longrightarrow> pkt_ok rx' \<Longrightarrow> ?case"
    if "read_attempts (Suc n) env tx count regs rv rx w = read_attempts n env tx count regs e rx' w1" for e rx'
    using that Suc.IH [of rx' e w1] Suc.prems by simp
  consider "rv1 \<noteq> EOK \<or> get_pkt_code ?p \<noteq> ucast PKT_CODE_SUCCESS"
    | "rv1 = EOK" "get_pkt_code ?p = ucast PKT_CODE_SUCCESS" "get_pkt_count ?p \<noteq> ucast count"
    | "rv1 = EOK" "get_pkt_code ?p = ucast PKT_CODE_SUCCESS" "get_pkt_count ?p = ucast count"
    by blast
  then show ?case
  proof cases
    case 1
    then show ?thesis
      using t ok retry [of rv1 ?p] retry [of EINVAL ?p] by (auto simp: Let_def)
  next
    case 2
    show ?thesis
    proof (cases "get_pkt_size 0 ?p")
      case None
      then have "CUBEIO_PKT_MAX_REGS \<le> unat (pk_count ?p)"
        using get_pkt_size_some [of ?p 0] ok by auto
      moreover have "pk_count ?p \<noteq> count"
        using 2(3) by (auto simp: get_pkt_count_def)
      ultimately have "gets_bad_count env (pkt_bytes tx) count"
        using t 2 by (auto simp: gets_bad_count_def bad_count_def)
      then show ?thesis
        using t 2 None by (simp add: Let_def read_result_def)
    next
      case (Some k)
      then show ?thesis
        using t 2 ok retry [of EINVAL ?p] by (simp add: Let_def)
    qed
  next
    case 3
    then have cnt: "pk_count ?p = count"
      by (metis get_pkt_count_def unat_u8_u16 word_eq_by_unat)
    let ?q = "?p \<lparr> pk_crc := 0 \<rparr>"
    have q: "pkt_ok ?q" and lr: "length (pk_regs ?p) = CUBEIO_PKT_MAX_REGS"
      using ok by (auto simp: pkt_ok_def)
    obtain c where c: "crc_packet ?q = Some c"
      using crc_packet_defined [of ?q] lr cnt Suc.prems(3) by auto
    show ?thesis
    proof (cases "c = pk_crc ?p")
      case True
      have "rx_valid bytes"
        using ok 3 True c by (simp add: rx_valid_def)
      moreover have "read_attempts (Suc n) env tx count regs rv rx w =
          Some (EOK, take (unat count) (pk_regs ?p) @ drop (unat count) regs, w1)"
        using t 3 True c lr Suc.prems by (simp add: Let_def memcpy_def)
      ultimately show ?thesis
        using cnt by (auto simp: read_result_def)
    next
      case False
      then show ?thesis
        using t 3 c q retry [of EPROTO ?q] by (auto simp: Let_def)
    qed
  qed
qed (simp add: read_result_def)

lemma read_regs_result:
  assumes "env_ok env" and "unat count \<le> CUBEIO_PKT_MAX_REGS" and "unat count \<le> length regs"
    and "make_pkt PKT_CODE_READ page offset count regs = Some tx"
  shows "read_result env (pkt_bytes tx) count regs (cubeio_read_regs env page offset count regs w)"
  using read_attempts_outcome [OF assms(1) pkt_zero_ok assms(2,3), of 3] assms(4) by (simp add: cubeio_read_regs_def)

text \<open>The accesses are defined as long as no reply that claims success carries a larger count than a packet has registers, or, to a
  read, the count 22 that was not asked for.\<close>

definition replies_ok :: "'w cubeio_env \<Rightarrow> bool" where
  "replies_ok env \<longleftrightarrow> (\<forall>tx rx w. case usart_transmit_receive env tx rx w of (rv, bytes, w') \<Rightarrow>
     rv = EOK \<longrightarrow> get_pkt_code (pkt_of_bytes bytes) = ucast PKT_CODE_SUCCESS \<longrightarrow>
     unat (pk_count (pkt_of_bytes bytes)) \<le> CUBEIO_PKT_MAX_REGS \<and>
     (pk_code (pkt_of_bytes tx) = PKT_CODE_READ \<longrightarrow> unat (pk_count (pkt_of_bytes bytes)) = CUBEIO_PKT_MAX_REGS \<longrightarrow>
        pk_count (pkt_of_bytes tx) = pk_count (pkt_of_bytes bytes)))"

lemma replies_okD:
  assumes "replies_ok env" and "usart_transmit_receive env tx rx w = (EOK, bytes, w')"
    and "get_pkt_code (pkt_of_bytes bytes) = ucast PKT_CODE_SUCCESS"
  shows "unat (pk_count (pkt_of_bytes bytes)) \<le> CUBEIO_PKT_MAX_REGS"
    and "pk_code (pkt_of_bytes tx) = PKT_CODE_READ \<Longrightarrow> unat (pk_count (pkt_of_bytes bytes)) = CUBEIO_PKT_MAX_REGS \<Longrightarrow>
      pk_count (pkt_of_bytes tx) = pk_count (pkt_of_bytes bytes)"
  using assms unfolding replies_ok_def by (metis (mono_tags, lifting) case_prod_conv)+

lemma replies_ok_count:
  assumes "replies_ok env" and "pkt_ok tx" and "pk_code tx = PKT_CODE_READ" and "pk_count tx = count"
  shows "\<not> gets_bad_count env (pkt_bytes tx) count"
proof
  assume "gets_bad_count env (pkt_bytes tx) count"
  then obtain rx w bytes w' where t: "usart_transmit_receive env (pkt_bytes tx) rx w = (EOK, bytes, w')" and bad: "bad_count count bytes"
    by (auto simp: gets_bad_count_def)
  have c: "get_pkt_code (pkt_of_bytes bytes) = ucast PKT_CODE_SUCCESS" "pk_count (pkt_of_bytes bytes) \<noteq> count"
      "CUBEIO_PKT_MAX_REGS \<le> unat (pk_count (pkt_of_bytes bytes))"
    using bad by (simp_all add: bad_count_def)
  show False
    using replies_okD [OF assms(1) t c(1)] pkt_of_pkt_bytes [OF assms(2)] assms(3,4) c(2,3) by simp
qed

lemma read_regs_outcome:
  assumes "env_ok env" and "replies_ok env" and "unat count \<le> CUBEIO_PKT_MAX_REGS" and "unat count \<le> length regs"
  shows "\<exists>rv regs' w'. cubeio_read_regs env page offset count regs w = Some (rv, regs', w') \<and>
     ((rv \<noteq> EOK \<and> regs' = regs) \<or>
      (rv = EOK \<and> (\<exists>bytes. rx_valid bytes \<and> pk_count (pkt_of_bytes bytes) = count \<and>
         regs' = take (unat count) (pk_regs (pkt_of_bytes bytes)) @ drop (unat count) regs)))"
proof -
  have "take_bit 2 PKT_CODE_READ = PKT_CODE_READ"
    by (simp add: PKT_CODE_READ_def)
  then obtain tx where tx: "make_pkt PKT_CODE_READ page offset count regs = Some tx" "pkt_ok tx" "pk_code tx = PKT_CODE_READ" "pk_count tx = count"
    using make_pkt_ok [OF assms(3,4)] by blast
  show ?thesis
    using read_regs_result [OF assms(1,3,4) tx(1), of w] replies_ok_count [OF assms(2) tx(2-4)]
    by (auto simp: read_result_def split: option.splits)
qed

text \<open>The result of a write says whether an attempt was acknowledged.\<close>

lemma write_attempts_outcome:
  assumes "env_ok env" and "replies_ok env" and "pkt_ok rx" and "n = 0 \<longrightarrow> rv \<noteq> EOK"
  shows "\<exists>rv' w'. write_attempts n env tx rv rx w = Some (rv', w') \<and> (rv' = EOK \<longrightarrow> (\<exists>bytes. rx_valid bytes))"
  using assms
proof (induction n arbitrary: rv rx w)
  case (Suc n)
  obtain rv1 bytes w1 where t: "usart_transmit_receive env (pkt_bytes tx) (pkt_bytes rx) w = (rv1, bytes, w1)"
    by (metis prod_cases3)
  note ok = env_reply_ok [OF Suc.prems(1,3) t]
  let ?p = "pkt_of_bytes bytes"
  have retry: "e \<noteq> EOK \<Longrightarrow> pkt_ok rx' \<Longrightarrow> ?case"
    if "write_attempts (Suc n) env tx rv rx w = write_attempts n env tx e rx' w1" for e rx'
    using that Suc.IH [of rx' e w1] Suc.prems by simp
  show ?case
  proof (cases "rv1 \<noteq> EOK \<or> get_pkt_code ?p \<noteq> ucast PKT_CODE_SUCCESS")
    case True
    then show ?thesis
      using t ok retry [of rv1 ?p] retry [of EINVAL ?p] by (auto simp: Let_def)
  next
    case False
    then have cnt: "unat (pk_count ?p) \<le> CUBEIO_PKT_MAX_REGS"
      using replies_okD(1) [OF Suc.prems(2), of "pkt_bytes tx" "pkt_bytes rx" w] t by auto
    let ?q = "?p \<lparr> pk_crc := 0 \<rparr>"
    have q: "pkt_ok ?q" and lr: "length (pk_regs ?p) = CUBEIO_PKT_MAX_REGS"
      using ok by (auto simp: pkt_ok_def)
    obtain c where c: "crc_packet ?q = Some c"
      using crc_packet_defined [of ?q] lr cnt by auto
    show ?thesis
    proof (cases "c = pk_crc ?p")
      case True
      have "rx_valid bytes"
        using ok False True c by (simp add: rx_valid_def)
      then show ?thesis
        using t False True c by (auto simp: Let_def)
    next
      case cf: False
      then show ?thesis
        using t False c q retry [of EPROTO ?q] by (auto simp: Let_def)
    qed
  qed
qed simp

lemma write_regs_outcome:
  assumes "env_ok env" and "replies_ok env" and "unat count \<le> CUBEIO_PKT_MAX_REGS" and "unat count \<le> length regs"
  shows "\<exists>rv w'. cubeio_write_regs env page offset count regs w = Some (rv, w') \<and> (rv = EOK \<longrightarrow> (\<exists>bytes. rx_valid bytes))"
proof -
  have "take_bit 2 PKT_CODE_WRITE = PKT_CODE_WRITE"
    by (simp add: PKT_CODE_WRITE_def)
  then obtain tx where tx: "make_pkt PKT_CODE_WRITE page offset count regs = Some tx"
    using make_pkt_ok [OF assms(3,4)] by blast
  show ?thesis
    using write_attempts_outcome [OF assms(1,2) pkt_zero_ok, of 3] tx by (simp add: cubeio_write_regs_def)
qed

lemma write_reg_defined [mem_simps]:
  "env_ok env \<Longrightarrow> replies_ok env \<Longrightarrow> \<exists>rv w'. cubeio_write_reg env page offset reg w = Some (rv, w')"
  using write_regs_outcome [of env 1 "[reg]" page offset w]
  by (auto simp: cubeio_write_reg_def CUBEIO_PKT_MAX_REGS_def)

lemma set_clear_defined [mem_simps]:
  assumes "env_ok env" and "replies_ok env"
  shows "\<exists>b w'. cubeio_set_clear_reg env page offset sb cb w = Some (b, w')"
proof -
  have "unat (1 :: u8) \<le> CUBEIO_PKT_MAX_REGS" and "unat (1 :: u8) \<le> length [0 :: u16]"
    by (simp_all add: CUBEIO_PKT_MAX_REGS_def)
  from read_regs_outcome [OF assms this, of page offset w] obtain rv regs w1
    where r: "cubeio_read_regs env page offset 1 [0] w = Some (rv, regs, w1)"
    by blast
  obtain rv2 w2 where "cubeio_write_reg env page offset ((regs ! 0 AND NOT cb) OR sb) w1 = Some (rv2, w2)"
    using write_reg_defined [OF assms] by blast
  then show ?thesis
    using r by (auto simp: cubeio_set_clear_reg_def)
qed

section \<open>The state machine is total and keeps the device well formed\<close>

definition cubeio_wf :: "cubeio \<Rightarrow> bool" where
  "cubeio_wf dev \<longleftrightarrow> length (cb_config dev) = 2 \<and> length (po_pwm (pwm_out dev)) = 16 \<and>
     length (po_failsafe_pwm (pwm_out dev)) = 16 \<and> length (pwm_in dev) = 16 \<and> length (page_reg_status dev) = 14 \<and>
     length (page_rc_input dev) = 19 \<and> length (rc_range_cfg dev) = 16 \<and> length (pwm_range_cfg dev) = 16 \<and>
     length (cb_pwm dev) = 16 \<and> length (cb_rc dev) = 16 \<and> unat (num_channels (pwm_out dev)) \<le> 16"

text \<open>Every channel's output value can be converted.\<close>

definition outputs_ok :: "cubeio \<Rightarrow> bool" where
  "outputs_ok dev \<longleftrightarrow> (\<forall>i < 16. cubeio_scale_output (cb_pwm dev ! i) (pwm_range_cfg dev ! i) \<noteq> None \<and>
     cubeio_scale_output (cb_failsafe_pwm dev) (pwm_range_cfg dev ! i) \<noteq> None)"

definition dev_ok :: "cubeio \<times> 'w \<Rightarrow> bool" where
  "dev_ok s \<longleftrightarrow> cubeio_wf (fst s) \<and> outputs_ok (fst s)"

definition keeps :: "('s \<Rightarrow> bool) \<Rightarrow> ('s \<Rightarrow> 's option) \<Rightarrow> bool" where
  "keeps P f \<longleftrightarrow> (\<forall>s. P s \<longrightarrow> (\<exists>s'. f s = Some s' \<and> P s'))"

definition clears :: "u32 \<Rightarrow> (cubeio \<times> 'w \<Rightarrow> (cubeio \<times> 'w) option) \<Rightarrow> bool" where
  "clears m f \<longleftrightarrow> (\<forall>s s'. f s = Some s' \<longrightarrow> eventmask (fst s') = eventmask (fst s) AND NOT m)"

lemma keeps_bind [inv_intros]: "keeps P f \<Longrightarrow> keeps P g \<Longrightarrow> keeps P (\<lambda>s. do { s \<leftarrow> f s; g s })"
  unfolding keeps_def by fastforce

lemma clears_bind: "clears m f \<Longrightarrow> clears k g \<Longrightarrow> clears (m OR k) (\<lambda>s. do { s \<leftarrow> f s; g s })"
  unfolding clears_def by (fastforce simp: and.assoc split: bind_splits)

lemma clears_bind_0 [inv_intros]: "clears 0 f \<Longrightarrow> clears 0 g \<Longrightarrow> clears 0 (\<lambda>s. do { s \<leftarrow> f s; g s })"
  using clears_bind [of 0 f 0 g] by simp

lemma pop_event_ok [simp]: "dev_ok (snd (cubeio_pop_event dev ev), w) \<longleftrightarrow> dev_ok (dev, w)"
  by (simp add: cubeio_pop_event_def dev_ok_def cubeio_wf_def outputs_ok_def)

lemma on_event_keeps [inv_intros]: "keeps dev_ok act \<Longrightarrow> keeps dev_ok (on_event ev act)"
proof -
  assume act: "keeps dev_ok act"
  have "\<exists>s'. on_event ev act (dev, w) = Some s' \<and> dev_ok s'" if "dev_ok (dev, w)" for dev :: cubeio and w
  proof (cases "cubeio_pop_event dev ev")
    case (Pair b d)
    then have "dev_ok (d, w)"
      using that pop_event_ok [of dev ev w] by simp
    then show ?thesis
      using act Pair by (cases b) (auto simp: on_event_def keeps_def)
  qed
  then show ?thesis
    by (auto simp: keeps_def)
qed

lemma single_bit_zero: "w AND push_bit n 1 = 0 \<longleftrightarrow> \<not> bit w n \<or> \<not> n < 32" for w :: u32
proof
  assume "w AND push_bit n 1 = 0"
  then have "bit (w AND push_bit n 1) n = bit (0 :: u32) n"
    by simp
  then show "\<not> bit w n \<or> \<not> n < 32"
    by (auto simp: bit_simps)
next
  assume "\<not> bit w n \<or> \<not> n < 32"
  then show "w AND push_bit n 1 = 0"
    by (intro bit_word_eqI) (auto simp: bit_simps)
qed

lemma and_not_clear_bit: "\<not> bit w k \<or> \<not> k < 32 \<Longrightarrow> w AND NOT (push_bit k 1) = w" for w :: u32
proof (rule bit_word_eqI)
  fix n assume "\<not> bit w k \<or> \<not> k < 32" and "n < LENGTH(32)"
  then show "bit (w AND NOT (push_bit k 1)) n \<longleftrightarrow> bit w n"
    by (cases "n = k") (auto simp only: bit_and_iff bit_not_iff bit_push_bit_iff bit_1_iff possible_bit_word, auto)
qed

lemma pop_event_mask: "eventmask (snd (cubeio_pop_event dev ev)) = eventmask dev AND NOT (push_bit (event_number ev) 1)"
proof (cases "eventmask dev AND push_bit (event_number ev) 1 = 0")
  case True
  then have "eventmask dev AND NOT (push_bit (event_number ev) 1) = eventmask dev"
    unfolding single_bit_zero by (rule and_not_clear_bit)
  with True show ?thesis
    by (simp add: cubeio_pop_event_def)
qed (simp add: cubeio_pop_event_def)

lemma on_event_clears:
  assumes act: "clears 0 act" and m: "m = push_bit (event_number ev) 1"
  shows "clears m (on_event ev act)"
  unfolding clears_def
proof (intro allI impI)
  fix s s' assume r: "on_event ev act s = Some s'"
  obtain dev w b d where s: "s = (dev, w)" and p: "cubeio_pop_event dev ev = (b, d)"
    by (metis surj_pair)
  have "eventmask d = eventmask dev AND NOT m"
    using pop_event_mask [of dev ev] p m by simp
  moreover have "eventmask (fst s') = eventmask d"
    using r s p act by (cases b; cases s') (auto simp: on_event_def clears_def)
  ultimately show "eventmask (fst s') = eventmask (fst s) AND NOT m"
    using s by simp
qed

lemma ev_write_ok [inv_intros]: "env_ok env \<Longrightarrow> replies_ok env \<Longrightarrow> keeps dev_ok (ev_write env offset val)"
  unfolding keeps_def
proof (intro allI impI)
  fix s :: "cubeio \<times> 'a"
  assume "env_ok env" and "replies_ok env" and "dev_ok s"
  then show "\<exists>s'. ev_write env offset val s = Some s' \<and> dev_ok s'"
    using write_reg_defined [of env PAGE_SETUP offset "val (fst s)" "snd s"]
    by (auto simp: ev_write_def dev_ok_def split: prod.splits)
qed

lemma ev_write_clears [inv_intros]: "clears 0 (ev_write env offset val)"
  by (auto simp: clears_def ev_write_def split: bind_splits)

lemma ev_set_bits_ok [inv_intros]: "env_ok env \<Longrightarrow> replies_ok env \<Longrightarrow> keeps dev_ok (ev_set_bits env bits)"
  unfolding keeps_def
proof (intro allI impI)
  fix s :: "cubeio \<times> 'a"
  assume "env_ok env" and "replies_ok env" and "dev_ok s"
  then show "\<exists>s'. ev_set_bits env bits s = Some s' \<and> dev_ok s'"
    using set_clear_defined [of env PAGE_SETUP PAGE_REG_SETUP_FEATURES bits 0 "snd s"]
    by (auto simp: ev_set_bits_def dev_ok_def split: prod.splits)
qed

lemma ev_set_bits_clears [inv_intros]: "clears 0 (ev_set_bits env bits)"
  by (auto simp: clears_def ev_set_bits_def split: bind_splits)

lemma scale_channels_defined:
  "i + n \<le> length cfg \<Longrightarrow> i + n \<le> length a \<Longrightarrow> (\<forall>j. i \<le> j \<and> j < i + n \<longrightarrow> cubeio_scale_output (val j) (cfg ! j) \<noteq> None) \<Longrightarrow>
   \<exists>a'. scale_channels i n val cfg a = Some a' \<and> length a' = length a"
proof (induction n arbitrary: i a)
  case (Suc n)
  then have "cubeio_scale_output (val i) (cfg ! i) \<noteq> None"
    by simp
  then obtain v where v: "cubeio_scale_output (val i) (cfg ! i) = Some v"
    by blast
  then show ?case
    using Suc.IH [of "Suc i" "a[i := v]"] Suc.prems by (simp add: arr_get_def arr_set_def)
qed simp

lemma ev_set_pwm_ok [inv_intros]: "env_ok env \<Longrightarrow> replies_ok env \<Longrightarrow> keeps dev_ok (ev_set_pwm env)"
  unfolding keeps_def
proof (intro allI impI)
  fix s :: "cubeio \<times> 'a"
  assume env: "env_ok env" "replies_ok env" and ok: "dev_ok s"
  obtain dev w where s: "s = (dev, w)"
    by (cases s)
  let ?n = "num_channels (pwm_out dev)"
  obtain a where a: "scale_channels 0 (unat ?n) (\<lambda>i. cb_pwm dev ! i) (pwm_range_cfg dev) (po_pwm (pwm_out dev)) = Some a" "length a = 16"
    using scale_channels_defined [of 0 "unat ?n" "pwm_range_cfg dev" "po_pwm (pwm_out dev)" "\<lambda>i. cb_pwm dev ! i"] ok s
    by (auto simp: dev_ok_def cubeio_wf_def outputs_ok_def)
  have "unat ?n \<le> CUBEIO_PKT_MAX_REGS" and "unat ?n \<le> length a"
    using ok s a by (auto simp: dev_ok_def cubeio_wf_def CUBEIO_PKT_MAX_REGS_def)
  then obtain rv w' where "cubeio_write_regs env PAGE_DIRECT_PWM 0 ?n a w = Some (rv, w')"
    using write_regs_outcome [OF env] by blast
  then show "\<exists>s'. ev_set_pwm env s = Some s' \<and> dev_ok s'"
    using s a ok by (auto simp: ev_set_pwm_def Let_def dev_ok_def cubeio_wf_def outputs_ok_def)
qed

lemma ev_set_pwm_clears [inv_intros]: "clears 0 (ev_set_pwm env)"
  by (auto simp: clears_def ev_set_pwm_def Let_def split: bind_splits)

lemma ev_set_failsafe_ok [inv_intros]: "env_ok env \<Longrightarrow> replies_ok env \<Longrightarrow> keeps dev_ok (ev_set_failsafe_pwm env)"
  unfolding keeps_def
proof (intro allI impI)
  fix s :: "cubeio \<times> 'a"
  assume env: "env_ok env" "replies_ok env" and ok: "dev_ok s"
  obtain dev w where s: "s = (dev, w)"
    by (cases s)
  obtain a where a: "scale_channels 0 CUBEIO_MAX_CHANNELS (\<lambda>_. cb_failsafe_pwm dev) (pwm_range_cfg dev) (po_failsafe_pwm (pwm_out dev)) = Some a"
    "length a = 16"
    using scale_channels_defined [of 0 CUBEIO_MAX_CHANNELS "pwm_range_cfg dev" "po_failsafe_pwm (pwm_out dev)" "\<lambda>_. cb_failsafe_pwm dev"] ok s
    by (auto simp: dev_ok_def cubeio_wf_def outputs_ok_def CUBEIO_MAX_CHANNELS_def)
  have "unat (word_of_nat CUBEIO_MAX_CHANNELS :: u8) \<le> CUBEIO_PKT_MAX_REGS" and "unat (word_of_nat CUBEIO_MAX_CHANNELS :: u8) \<le> length a"
    using a by (auto simp: CUBEIO_PKT_MAX_REGS_def CUBEIO_MAX_CHANNELS_def)
  then obtain rv w' where "cubeio_write_regs env PAGE_FAILSAFE_PWM 0 (word_of_nat CUBEIO_MAX_CHANNELS) a w = Some (rv, w')"
    using write_regs_outcome [OF env] by blast
  then show "\<exists>s'. ev_set_failsafe_pwm env s = Some s' \<and> dev_ok s'"
    using s a ok by (auto simp: ev_set_failsafe_pwm_def Let_def dev_ok_def cubeio_wf_def outputs_ok_def)
qed

lemma ev_set_failsafe_clears [inv_intros]: "clears 0 (ev_set_failsafe_pwm env)"
  by (auto simp: clears_def ev_set_failsafe_pwm_def Let_def split: bind_splits)

lemma fsm_events_keeps [inv_intros]: "env_ok env \<Longrightarrow> replies_ok env \<Longrightarrow> keeps dev_ok (fsm_events env)"
  unfolding fsm_events_def by (intro inv_intros)

lemma fsm_events_clears: "clears 0xFFE (fsm_events env)"
proof -
  have "clears (push_bit 1 1 OR (push_bit 2 1 OR (push_bit 3 1 OR (push_bit 4 1 OR (push_bit 5 1 OR (push_bit 8 1 OR
     (push_bit 9 1 OR (push_bit 10 1 OR (push_bit 7 1 OR (push_bit 6 1 OR push_bit 11 1)))))))))) (fsm_events env)"
    unfolding fsm_events_def
    by (intro clears_bind on_event_clears inv_intros) simp_all
  then show ?thesis
    by simp
qed

lemma page_after_read:
  assumes "env_ok env" and "replies_ok env" and "unat count \<le> CUBEIO_PKT_MAX_REGS" and "unat count \<le> length regs"
  shows "\<exists>rv regs' w'. cubeio_read_regs env page offset count regs w = Some (rv, regs', w') \<and> length regs' = length regs"
proof -
  have l: "rx_valid bytes \<Longrightarrow> length (pk_regs (pkt_of_bytes bytes)) = CUBEIO_PKT_MAX_REGS" for bytes
    using pkt_of_bytes_ok [of bytes] by (simp add: rx_valid_def pkt_ok_def)
  obtain rv regs' w' where r: "cubeio_read_regs env page offset count regs w = Some (rv, regs', w')"
    and o: "(rv \<noteq> EOK \<and> regs' = regs) \<or> (rv = EOK \<and> (\<exists>bytes. rx_valid bytes \<and> pk_count (pkt_of_bytes bytes) = count \<and>
         regs' = take (unat count) (pk_regs (pkt_of_bytes bytes)) @ drop (unat count) regs))"
    using read_regs_outcome [OF assms] by blast
  have "length regs' = length regs"
    using o l assms by auto
  with r show ?thesis
    by blast
qed

lemma page_read_const:
  assumes "env_ok env" and "replies_ok env" and "n \<le> CUBEIO_PKT_MAX_REGS" and "n = length regs" and "count = word_of_nat n"
  shows "\<exists>rv regs' w'. cubeio_read_regs env page offset count regs w = Some (rv, regs', w') \<and> length regs' = n"
proof -
  have "unat count = n"
    using assms unat_word_of_nat_less [of n, where 'a = 8] by (simp add: CUBEIO_PKT_MAX_REGS_def)
  then show ?thesis
    using page_after_read [OF assms(1,2), of count regs page offset w] assms by auto
qed

lemma poll_rc_keeps [inv_intros]: "env_ok env \<Longrightarrow> replies_ok env \<Longrightarrow> keeps dev_ok (poll_rc env)"
  unfolding keeps_def
proof (intro allI impI)
  fix s :: "cubeio \<times> 'a"
  assume env: "env_ok env" "replies_ok env" and ok: "dev_ok s"
  obtain dev w where s: "s = (dev, w)"
    by (cases s)
  obtain rv page w' where "cubeio_read_regs env PAGE_RAW_RCIN 0 19 (page_rc_input dev) w = Some (rv, page, w')" "length page = 19"
    using page_read_const [OF env, of 19 "page_rc_input dev" 19 PAGE_RAW_RCIN 0 w] ok s
    by (auto simp: dev_ok_def cubeio_wf_def CUBEIO_PKT_MAX_REGS_def)
  then show "\<exists>s'. poll_rc env s = Some s' \<and> dev_ok s'"
    using ok s by (auto simp: poll_rc_def dev_ok_def cubeio_wf_def outputs_ok_def Let_def CUBEIO_MAX_CHANNELS_def)
qed

lemma poll_status_keeps [inv_intros]: "env_ok env \<Longrightarrow> replies_ok env \<Longrightarrow> keeps dev_ok (poll_status env)"
  unfolding keeps_def
proof (intro allI impI)
  fix s :: "cubeio \<times> 'a"
  assume env: "env_ok env" "replies_ok env" and ok: "dev_ok s"
  obtain dev w where s: "s = (dev, w)"
    by (cases s)
  obtain rv page w' where "cubeio_read_regs env PAGE_STATUS 0 14 (page_reg_status dev) w = Some (rv, page, w')" "length page = 14"
    using page_read_const [OF env, of 14 "page_reg_status dev" 14 PAGE_STATUS 0 w] ok s
    by (auto simp: dev_ok_def cubeio_wf_def CUBEIO_PKT_MAX_REGS_def)
  then show "\<exists>s'. poll_status env s = Some s' \<and> dev_ok s'"
    using ok s by (auto simp: poll_status_def dev_ok_def cubeio_wf_def outputs_ok_def Let_def)
qed

lemma poll_servos_keeps [inv_intros]: "env_ok env \<Longrightarrow> replies_ok env \<Longrightarrow> keeps dev_ok (poll_servos env)"
  unfolding keeps_def
proof (intro allI impI)
  fix s :: "cubeio \<times> 'a"
  assume env: "env_ok env" "replies_ok env" and ok: "dev_ok s"
  obtain dev w where s: "s = (dev, w)"
    by (cases s)
  let ?n = "num_channels (pwm_out dev)"
  have "unat ?n \<le> CUBEIO_PKT_MAX_REGS" and "unat ?n \<le> length (pwm_in dev)" and "length (pwm_in dev) = 16"
    using ok s by (auto simp: dev_ok_def cubeio_wf_def CUBEIO_PKT_MAX_REGS_def)
  then obtain rv page w' where "cubeio_read_regs env PAGE_SERVOS 0 ?n (pwm_in dev) w = Some (rv, page, w')" "length page = 16"
    using page_after_read [OF env, of ?n "pwm_in dev" PAGE_SERVOS 0 w] by auto
  then show "\<exists>s'. poll_servos env s = Some s' \<and> dev_ok s'"
    using ok s by (auto simp: poll_servos_def dev_ok_def cubeio_wf_def outputs_ok_def Let_def)
qed

lemma poll_safety_keeps [inv_intros]: "env_ok env \<Longrightarrow> replies_ok env \<Longrightarrow> keeps dev_ok (poll_safety env)"
  unfolding keeps_def
proof (intro allI impI)
  fix s :: "cubeio \<times> 'a"
  assume env: "env_ok env" "replies_ok env" and ok: "dev_ok s"
  obtain dev w where s: "s = (dev, w)"
    by (cases s)
  obtain w' where "cubeio_update_safety_options env w = Some w'"
    using set_clear_defined [OF env, of PAGE_SETUP PAGE_REG_SETUP_ARMING
        "P_SETUP_ARMING_SAFETY_DISABLE_OFF AND (P_SETUP_ARMING_SAFETY_DISABLE_OFF OR P_SETUP_ARMING_SAFETY_DISABLE_ON)"
        "NOT P_SETUP_ARMING_SAFETY_DISABLE_OFF AND (P_SETUP_ARMING_SAFETY_DISABLE_OFF OR P_SETUP_ARMING_SAFETY_DISABLE_ON)" w]
    unfolding cubeio_update_safety_options_def Let_def by force
  then show "\<exists>s'. poll_safety env s = Some s' \<and> dev_ok s'"
    using ok s by (auto simp: poll_safety_def dev_ok_def cubeio_wf_def outputs_ok_def)
qed

lemma rc_protocol_write:
  assumes "env_ok env" and "replies_ok env"
  shows "\<exists>rv w'. cubeio_write_regs env PAGE_SETUP PAGE_REG_SETUP_RC_PROTOCOLS 2 [1, 0] w = Some (rv, w')"
  using write_regs_outcome [OF assms, of 2 "[1, 0]" PAGE_SETUP PAGE_REG_SETUP_RC_PROTOCOLS w]
  by (auto simp: CUBEIO_PKT_MAX_REGS_def)

lemma fsm_operation_keeps [inv_intros]:
  assumes env: "env_ok env" "replies_ok env"
  shows "keeps dev_ok (fsm_operation env)"
  unfolding keeps_def
proof (intro allI impI)
  fix s :: "cubeio \<times> 'a"
  assume ok: "dev_ok s"
  obtain dev w where s: "s = (dev, w)"
    by (cases s)
  let ?w = "if timeout_semaphore dev then w else task_delay env 20 w"
  let ?s = "(dev \<lparr> timeout_semaphore := False, cb_now := now_ms env ?w \<rparr>, ?w)"
  have "dev_ok ?s"
    using ok s by (simp add: dev_ok_def cubeio_wf_def outputs_ok_def)
  moreover have "keeps dev_ok (\<lambda>s. do { s \<leftarrow> fsm_events env s; s \<leftarrow> poll_rc env s; s \<leftarrow> poll_status env s;
      s \<leftarrow> poll_servos env s; poll_safety env s })"
    by (intro inv_intros env)
  ultimately obtain s2 where s2: "do { s \<leftarrow> fsm_events env ?s; s \<leftarrow> poll_rc env s; s \<leftarrow> poll_status env s;
      s \<leftarrow> poll_servos env s; poll_safety env s } = Some s2" "dev_ok s2"
    unfolding keeps_def by blast
  obtain d2 w2 where p: "s2 = (d2, w2)"
    by (cases s2)
  obtain rv w3 where "cubeio_write_regs env PAGE_SETUP PAGE_REG_SETUP_RC_PROTOCOLS 2 [1, 0] w2 = Some (rv, w3)"
    using rc_protocol_write [OF env] by blast
  then have "fsm_operation env s = Some (d2 \<lparr> iordy_semaphore := True \<rparr>, w3)"
    using s2(1) s p by (auto simp: fsm_operation_def Let_def bind_eq_Some_conv)
  then show "\<exists>s'. fsm_operation env s = Some s' \<and> dev_ok s'"
    using s2(2) p by (auto simp: dev_ok_def cubeio_wf_def outputs_ok_def)
qed

lemma fsm_reset_result:
  assumes env: "env_ok env" "replies_ok env" and ok: "dev_ok (dev, w)"
  shows "\<exists>dev' w' failed. fsm_reset env (dev, w) = Some (dev', w') \<and> dev_ok (dev', w') \<and> cb_attempt dev' = 0 \<and>
     cb_state dev' = (if failed \<or> (cb_attempt dev + 1 > 5 \<and>
        (cb_config dev' ! 0 \<noteq> PROTOCOL_VERSION \<or> cb_config dev' ! 1 \<noteq> PROTOCOL_VERSION2)) then CUBEIO_FAIL else CUBEIO_CONF)"
proof -
  obtain rv cfg w1 where r: "cubeio_read_regs env PAGE_CONFIG 0 2 (cb_config dev) (task_delay env 100 w) = Some (rv, cfg, w1)" "length cfg = 2"
    using page_read_const [OF env, of 2 "cb_config dev" 2 PAGE_CONFIG 0 "task_delay env 100 w"] ok
    by (auto simp: dev_ok_def cubeio_wf_def CUBEIO_PKT_MAX_REGS_def)
  obtain b w2 where sc: "cubeio_set_clear_reg env PAGE_SETUP PAGE_REG_SETUP_ARMING
       (P_SETUP_ARMING_IO_ARM_OK OR P_SETUP_ARMING_FMU_ARMED OR P_SETUP_ARMING_RC_HANDLING_DISABLED) 0 w1 = Some (b, w2)"
    using set_clear_defined [OF env] by blast
  define st where "st = (if b \<or> (cb_attempt dev + 1 > 5 \<and> (cfg ! 0 \<noteq> PROTOCOL_VERSION \<or> cfg ! 1 \<noteq> PROTOCOL_VERSION2))
      then CUBEIO_FAIL else CUBEIO_CONF)"
  let ?d = "dev \<lparr> cb_state := st, cb_config := cfg, cb_attempt := 0 \<rparr>"
  have "fsm_reset env (dev, w) = Some (?d, w2)"
    using r(1) sc by (cases b) (simp_all add: fsm_reset_def Let_def st_def)
  moreover have "dev_ok (?d, w2)"
    using ok r(2) by (simp add: dev_ok_def cubeio_wf_def outputs_ok_def)
  moreover have "cb_state ?d = (if b \<or> (cb_attempt dev + 1 > 5 \<and>
        (cb_config ?d ! 0 \<noteq> PROTOCOL_VERSION \<or> cb_config ?d ! 1 \<noteq> PROTOCOL_VERSION2)) then CUBEIO_FAIL else CUBEIO_CONF)"
    and "cb_attempt ?d = 0"
    by (simp_all add: st_def)
  ultimately show ?thesis
    by blast
qed

lemma cubeio_fsm_total:
  assumes env: "env_ok env" "replies_ok env" and ok: "dev_ok s"
  shows "\<exists>dev w alive. cubeio_fsm env s = Some (dev, w, alive) \<and> dev_ok (dev, w) \<and>
     (cb_state (fst s) = CUBEIO_FAIL \<longrightarrow> cb_state dev = CUBEIO_FAIL)"
proof (cases "cb_state (fst s)")
  case CUBEIO_RESET
  then show ?thesis
    using fsm_reset_result [OF env, of "fst s" "snd s"] ok by (auto simp: cubeio_fsm_def)
next
  case CUBEIO_OPERATION
  obtain s' where "fsm_operation env s = Some s'" and "dev_ok s'"
    using fsm_operation_keeps [OF env] ok unfolding keeps_def by blast
  then show ?thesis
    using CUBEIO_OPERATION by (cases s') (auto simp: cubeio_fsm_def)
qed (use ok in \<open>auto simp: cubeio_fsm_def dev_ok_def cubeio_wf_def outputs_ok_def\<close>)

section \<open>A co-processor that answers as the protocol says\<close>

text \<open>\<open>get w page offset\<close> is the register of the co-processor in the world \<open>w\<close>: every valid
  request is answered with a valid success packet; a read returns the registers, a
  write stores them.\<close>

definition request_ok :: "cubeio_packet \<Rightarrow> bool" where
  "request_ok p \<longleftrightarrow> pkt_ok p \<and> unat (pk_count p) \<le> CUBEIO_PKT_MAX_REGS \<and>
     crc_packet (p \<lparr> pk_crc := 0 \<rparr>) = Some (pk_crc p)"

definition io_store :: "(u8 \<Rightarrow> u8 \<Rightarrow> u16) \<Rightarrow> cubeio_packet \<Rightarrow> u8 \<Rightarrow> u8 \<Rightarrow> u16" where
  "io_store m p = (\<lambda>pg off. if pg = pk_page p \<and> unat (off - pk_offset p) < unat (pk_count p)
     then pk_regs p ! unat (off - pk_offset p) else m pg off)"

definition io_answers :: "'w cubeio_env \<Rightarrow> ('w \<Rightarrow> u8 \<Rightarrow> u8 \<Rightarrow> u16) \<Rightarrow> bool" where
  "io_answers env get \<longleftrightarrow> (\<forall>p rx w. request_ok p \<and> length rx = 4 + 2 * CUBEIO_PKT_MAX_REGS \<longrightarrow>
     (case usart_transmit_receive env (pkt_bytes p) rx w of (rv, bytes, w') \<Rightarrow>
        rv = EOK \<and> rx_valid bytes \<and>
        (pk_code p = PKT_CODE_READ \<longrightarrow> pk_count (pkt_of_bytes bytes) = pk_count p \<and> get w' = get w \<and>
           (\<forall>i < unat (pk_count p). pk_regs (pkt_of_bytes bytes) ! i = get w (pk_page p) (pk_offset p + word_of_nat i))) \<and>
        (pk_code p = PKT_CODE_WRITE \<longrightarrow> get w' = io_store (get w) p)))"

lemma make_pkt_request:
  assumes "unat count \<le> CUBEIO_PKT_MAX_REGS" and "unat count \<le> length regs" and "take_bit 2 code = code"
  shows "\<exists>tx. make_pkt code page offset count regs = Some tx \<and> request_ok tx \<and> pk_code tx = code \<and> pk_page tx = page \<and>
     pk_offset tx = offset \<and> pk_count tx = count \<and> take (unat count) (pk_regs tx) = take (unat count) regs"
proof -
  obtain tx where tx: "make_pkt code page offset count regs = Some tx" "pkt_ok tx" "pk_code tx = code" "pk_page tx = page"
    "pk_offset tx = offset" "pk_count tx = count" "take (unat count) (pk_regs tx) = take (unat count) regs"
    using make_pkt_ok [OF assms] by blast
  moreover have "crc_packet (tx \<lparr> pk_crc := 0 \<rparr>) = Some (pk_crc tx)"
    using tx(1) by (auto simp: make_pkt_def Let_def pkt_zero_def split: bind_splits)
  ultimately show ?thesis
    using assms by (auto simp: request_ok_def)
qed

lemma rx_zero_length: "length (pkt_bytes pkt_zero) = 4 + 2 * CUBEIO_PKT_MAX_REGS"
  by (simp add: pkt_bytes_length pkt_zero_def)

lemma get_count_cast: "get_pkt_count p = ucast c \<longleftrightarrow> pk_count p = c"
  by (metis get_pkt_count_def unat_u8_u16 word_eq_by_unat)

lemma io_answersD:
  assumes "io_answers env get" and "request_ok p" and "length rx = 4 + 2 * CUBEIO_PKT_MAX_REGS"
    and t: "usart_transmit_receive env (pkt_bytes p) rx w = (rv, bytes, w')"
  shows "rv = EOK" and "rx_valid bytes"
    and "pk_code p = PKT_CODE_READ \<Longrightarrow> pk_count (pkt_of_bytes bytes) = pk_count p"
    and "pk_code p = PKT_CODE_READ \<Longrightarrow> get w' = get w"
    and "pk_code p = PKT_CODE_READ \<Longrightarrow> \<forall>i < unat (pk_count p). pk_regs (pkt_of_bytes bytes) ! i = get w (pk_page p) (pk_offset p + word_of_nat i)"
    and "pk_code p = PKT_CODE_WRITE \<Longrightarrow> get w' = io_store (get w) p"
proof -
  have "case usart_transmit_receive env (pkt_bytes p) rx w of (rv, bytes, w') \<Rightarrow>
        rv = EOK \<and> rx_valid bytes \<and>
        (pk_code p = PKT_CODE_READ \<longrightarrow> pk_count (pkt_of_bytes bytes) = pk_count p \<and> get w' = get w \<and>
           (\<forall>i < unat (pk_count p). pk_regs (pkt_of_bytes bytes) ! i = get w (pk_page p) (pk_offset p + word_of_nat i))) \<and>
        (pk_code p = PKT_CODE_WRITE \<longrightarrow> get w' = io_store (get w) p)"
    by (rule assms(1) [unfolded io_answers_def, THEN spec, THEN spec, THEN spec, THEN mp, OF conjI [OF assms(2,3)]])
  then show "rv = EOK" and "rx_valid bytes"
    and "pk_code p = PKT_CODE_READ \<Longrightarrow> pk_count (pkt_of_bytes bytes) = pk_count p"
    and "pk_code p = PKT_CODE_READ \<Longrightarrow> get w' = get w"
    and "pk_code p = PKT_CODE_READ \<Longrightarrow> \<forall>i < unat (pk_count p). pk_regs (pkt_of_bytes bytes) ! i = get w (pk_page p) (pk_offset p + word_of_nat i)"
    and "pk_code p = PKT_CODE_WRITE \<Longrightarrow> get w' = io_store (get w) p"
    unfolding t by simp_all
qed

lemma read_regs_answered:
  assumes a: "io_answers env get" and "unat count \<le> CUBEIO_PKT_MAX_REGS" and "unat count \<le> length regs"
  shows "\<exists>w'. cubeio_read_regs env page offset count regs w =
      Some (EOK, map (\<lambda>i. get w page (offset + word_of_nat i)) [0..<unat count] @ drop (unat count) regs, w') \<and> get w' = get w"
proof -
  have "take_bit 2 PKT_CODE_READ = PKT_CODE_READ"
    by (simp add: PKT_CODE_READ_def)
  then obtain tx where tx: "make_pkt PKT_CODE_READ page offset count regs = Some tx" "request_ok tx" "pk_code tx = PKT_CODE_READ"
    "pk_page tx = page" "pk_offset tx = offset" "pk_count tx = count"
    using make_pkt_request [OF assms(2,3)] by blast
  obtain rv bytes w' where t: "usart_transmit_receive env (pkt_bytes tx) (pkt_bytes pkt_zero) w = (rv, bytes, w')"
    by (metis prod_cases3)
  note d = io_answersD [OF a tx(2) rx_zero_length t]
  have r: "rv = EOK" "rx_valid bytes" "pk_count (pkt_of_bytes bytes) = count" "get w' = get w"
    "\<forall>i < unat count. pk_regs (pkt_of_bytes bytes) ! i = get w page (offset + word_of_nat i)"
    using d tx by simp_all
  have l: "length (pk_regs (pkt_of_bytes bytes)) = CUBEIO_PKT_MAX_REGS"
    using r(2) pkt_of_bytes_ok [of bytes] by (simp add: rx_valid_def pkt_ok_def)
  have "take (unat count) (pk_regs (pkt_of_bytes bytes)) = map (\<lambda>i. get w page (offset + word_of_nat i)) [0..<unat count]"
    using l assms(2) r(5) by (intro nth_equalityI) auto
  then have "read_attempts 3 env tx count regs EOK pkt_zero w =
      Some (EOK, map (\<lambda>i. get w page (offset + word_of_nat i)) [0..<unat count] @ drop (unat count) regs, w')"
    using t r l assms by (simp add: numeral_3_eq_3 Let_def rx_valid_def memcpy_def get_count_cast)
  then show ?thesis
    using tx(1) r(4) by (simp add: cubeio_read_regs_def)
qed

lemma write_regs_answered:
  assumes a: "io_answers env get" and "unat count \<le> CUBEIO_PKT_MAX_REGS" and "unat count \<le> length regs"
  shows "\<exists>w'. cubeio_write_regs env page offset count regs w = Some (EOK, w') \<and>
     get w' = (\<lambda>pg off. if pg = page \<and> unat (off - offset) < unat count then regs ! unat (off - offset) else get w pg off)"
proof -
  have "take_bit 2 PKT_CODE_WRITE = PKT_CODE_WRITE"
    by (simp add: PKT_CODE_WRITE_def)
  then obtain tx where tx: "make_pkt PKT_CODE_WRITE page offset count regs = Some tx" "request_ok tx" "pk_code tx = PKT_CODE_WRITE"
    "pk_page tx = page" "pk_offset tx = offset" "pk_count tx = count" and tk: "take (unat count) (pk_regs tx) = take (unat count) regs"
    using make_pkt_request [OF assms(2,3)] by blast
  obtain rv bytes w' where t: "usart_transmit_receive env (pkt_bytes tx) (pkt_bytes pkt_zero) w = (rv, bytes, w')"
    by (metis prod_cases3)
  note d = io_answersD [OF a tx(2) rx_zero_length t]
  have r: "rv = EOK" "rx_valid bytes" "get w' = io_store (get w) tx"
    using d tx by simp_all
  have "i < unat count \<Longrightarrow> pk_regs tx ! i = regs ! i" for i
    using tk by (metis nth_take)
  then have "get w' = (\<lambda>pg off. if pg = page \<and> unat (off - offset) < unat count then regs ! unat (off - offset) else get w pg off)"
    using r(3) tx by (auto simp: io_store_def fun_eq_iff)
  moreover have "write_attempts 3 env tx EOK pkt_zero w = Some (EOK, w')"
    using t r by (simp add: numeral_3_eq_3 Let_def rx_valid_def)
  ultimately show ?thesis
    using tx(1) by (simp add: cubeio_write_regs_def)
qed

lemma set_clear_answered:
  assumes a: "io_answers env get"
  shows "\<exists>w'. cubeio_set_clear_reg env page offset sb cb w = Some (False, w') \<and>
     get w' = (\<lambda>pg off. if pg = page \<and> off = offset then (get w page offset AND NOT cb) OR sb else get w pg off)"
proof -
  have one: "unat (1 :: u8) \<le> CUBEIO_PKT_MAX_REGS" "unat (1 :: u8) \<le> length [x :: u16]" for x
    by (simp_all add: CUBEIO_PKT_MAX_REGS_def)
  obtain w1 where r: "cubeio_read_regs env page offset 1 [0] w = Some (EOK, [get w page offset], w1)" "get w1 = get w"
    using read_regs_answered [OF a one, of page offset 0 w] by auto
  obtain w2 where "cubeio_write_regs env page offset 1 [(get w page offset AND NOT cb) OR sb] w1 = Some (EOK, w2)"
    and "get w2 = (\<lambda>pg off. if pg = page \<and> unat (off - offset) < 1 then [(get w page offset AND NOT cb) OR sb] ! unat (off - offset) else get w1 pg off)"
    using write_regs_answered [OF a one, of page offset "(get w page offset AND NOT cb) OR sb" w1] by auto
  then show ?thesis
    using r by (auto simp: cubeio_set_clear_reg_def cubeio_write_reg_def unat_eq_0 fun_eq_iff)
qed

section \<open>Scaling\<close>

lemma u2r_le: "a \<le> b \<longleftrightarrow> u2r a \<le> u2r b"
  unfolding u2r_def word_le_nat_alt by (rule of_nat_le_iff [symmetric])

lemma u2r_less: "a < b \<longleftrightarrow> u2r a < u2r b"
  unfolding u2r_def word_less_nat_alt by (rule of_nat_less_iff [symmetric])

lemma u2r_bounds: "0 \<le> u2r a" "u2r a < 65536"
proof -
  have "real (unat a) < real 65536"
    by (simp only: of_nat_less_iff unat_lt_65536)
  then show "0 \<le> u2r a" "u2r a < 65536"
    unfolding u2r_def by (simp_all only: of_nat_0_le_iff of_nat_numeral)
qed

lemma u2r_le_Suc: "u2r a < u2r b + 1 \<Longrightarrow> a \<le> b"
proof -
  assume "u2r a < u2r b + 1"
  then have "real (unat a) < real (unat b + 1)"
    unfolding u2r_def by (simp only: of_nat_add of_nat_1)
  then have "unat a < unat b + 1"
    by (simp only: of_nat_less_iff)
  then show ?thesis
    by (simp add: word_le_nat_alt)
qed

lemma to_uint16_ok:
  assumes "0 \<le> r" and "r < 65536"
  shows "\<exists>v. to_uint16 r = Some v \<and> u2r v \<le> r \<and> r < u2r v + 1"
proof -
  have f: "0 \<le> \<lfloor>r\<rfloor>" "\<lfloor>r\<rfloor> < 65536"
    using assms by (simp_all add: floor_less_iff)
  then have "unat (word_of_int \<lfloor>r\<rfloor> :: u16) = nat \<lfloor>r\<rfloor>"
    by (simp add: unat_eq_nat_uint uint_word_of_int_eq take_bit_int_eq_self)
  then have "u2r (word_of_int \<lfloor>r\<rfloor>) = of_int \<lfloor>r\<rfloor>"
    unfolding u2r_def using f(1) by simp
  then show ?thesis
    using assms by (simp add: to_uint16_def)
qed

text \<open>A value in the nominal range is converted to a pulse between the two ends.\<close>

lemma scale_unipolar:
  assumes "rc_type cfg = 0" and "rc_min cfg \<le> rc_max cfg" and "0 \<le> x" and "x \<le> 1"
  shows "\<exists>v. cubeio_scale_output x cfg = Some v \<and> rc_min cfg \<le> v \<and> v \<le> rc_max cfg \<and>
     u2r v \<le> x * (u2r (rc_max cfg) - u2r (rc_min cfg)) + u2r (rc_min cfg) \<and>
     x * (u2r (rc_max cfg) - u2r (rc_min cfg)) + u2r (rc_min cfg) < u2r v + 1"
proof -
  let ?d = "u2r (rc_max cfg) - u2r (rc_min cfg)"
  have d: "0 \<le> ?d"
    using assms(2) by (simp add: u2r_le)
  have lo: "0 \<le> x * ?d" and hi: "x * ?d \<le> ?d"
    using assms d by (simp_all add: mult_left_le_one_le)
  obtain v where v: "to_uint16 (x * ?d + u2r (rc_min cfg)) = Some v"
    "u2r v \<le> x * ?d + u2r (rc_min cfg)" "x * ?d + u2r (rc_min cfg) < u2r v + 1"
    using to_uint16_ok [of "x * ?d + u2r (rc_min cfg)"] lo hi u2r_bounds [of "rc_min cfg"] u2r_bounds [of "rc_max cfg"] by auto
  have "u2r (rc_min cfg) < u2r v + 1" and "u2r v \<le> u2r (rc_max cfg)"
    using v lo hi by linarith+
  then have "rc_min cfg \<le> v" and "v \<le> rc_max cfg"
    using u2r_le_Suc u2r_le by blast+
  with v assms show ?thesis
    by (simp add: cubeio_scale_output_def channel_type_def)
qed

lemma scale_unipolar_inverse:
  assumes "rc_type cfg = 0" and "rc_min cfg < rc_max cfg" and "0 \<le> x" and "x \<le> 1"
    and "cubeio_scale_output x cfg = Some v"
  shows "cubeio_scale_input v cfg \<le> x \<and> x < cubeio_scale_input v cfg + 1 / (u2r (rc_max cfg) - u2r (rc_min cfg))"
proof -
  let ?d = "u2r (rc_max cfg) - u2r (rc_min cfg)"
  have d: "0 < ?d"
    using assms(2) by (simp add: u2r_less)
  have v: "rc_min cfg \<le> v" "v \<le> rc_max cfg" "u2r v \<le> x * ?d + u2r (rc_min cfg)" "x * ?d + u2r (rc_min cfg) < u2r v + 1"
    using scale_unipolar [OF assms(1) less_imp_le [OF assms(2)] assms(3,4)] assms(5) by auto
  let ?q = "(u2r v - u2r (rc_min cfg)) / ?d"
  have q: "0 \<le> ?q" "?q \<le> 1"
    using v d by (simp_all add: u2r_le divide_le_eq)
  moreover have "\<not> (v < rc_min cfg \<or> v > rc_max cfg)"
    using v by auto
  ultimately have "cubeio_scale_input v cfg = ?q"
    using assms(1) by (simp only: cubeio_scale_input_def channel_type_def SAT_def) simp
  moreover have "?q \<le> x"
    using v d by (simp add: divide_le_eq)
  moreover have "x < ?q + 1 / ?d"
    using v d by (simp add: add_divide_distrib [symmetric] less_divide_eq)
  ultimately show ?thesis
    by simp
qed

section \<open>Properties\<close>



text \<open>Such a reply does make the read leave its buffers: the message about a bad count reads the register behind the last one.\<close>

theorem cubeio_bad_count_overrun:
  assumes "env_ok env" and "make_pkt PKT_CODE_READ page offset count regs = Some tx"
    and "usart_transmit_receive env (pkt_bytes tx) (pkt_bytes pkt_zero) w = (EOK, bytes, w')"
    and "get_pkt_code (pkt_of_bytes bytes) = ucast PKT_CODE_SUCCESS" and "pk_count (pkt_of_bytes bytes) \<noteq> count"
    and "CUBEIO_PKT_MAX_REGS \<le> unat (pk_count (pkt_of_bytes bytes))"
  shows "cubeio_read_regs env page offset count regs w = None"
proof -
  have "pkt_ok (pkt_of_bytes bytes)"
    using env_reply_ok [OF assms(1) pkt_zero_ok assms(3)] by simp
  then have "get_pkt_size 0 (pkt_of_bytes bytes) = None"
    using get_pkt_size_some assms(6) by (metis not_le)
  then show ?thesis
    using assms(2-5) by (simp add: cubeio_read_regs_def numeral_3_eq_3 Let_def get_count_cast)
qed

text \<open>Against a co-processor that answers as the protocol says,
  \<open>cubeio_set_clear_reg\<close> succeeds and changes exactly the addressed register, to its old value with
  the clear bits cleared and then the set bits set.\<close>

theorem cubeio_set_clear_exact:
  assumes "io_answers env get"
  shows "\<exists>w'. cubeio_set_clear_reg env page offset sb cb w = Some (False, w') \<and>
     get w' = (\<lambda>pg off. if pg = page \<and> off = offset then (get w page offset AND NOT cb) OR sb else get w pg off)"
  using set_clear_answered [OF assms] .


text \<open>C11: One pass over the events consumes every request that the setters can post (the
  bits 1 to 11 of the mask) and touches no other bit, so a request is served once.\<close>

theorem cubeio_events_consumed:
  assumes "env_ok env" and "replies_ok env" and "cubeio_wf dev" and "outputs_ok dev"
  shows "\<exists>dev' w'. fsm_events env (dev, w) = Some (dev', w') \<and> eventmask dev' = eventmask dev AND NOT 0xFFE"
proof -
  have "dev_ok (dev, w)"
    using assms by (simp add: dev_ok_def)
  then obtain dev' w' where r: "fsm_events env (dev, w) = Some (dev', w')"
    using fsm_events_keeps [OF assms(1,2)] unfolding keeps_def by fast
  moreover have "eventmask dev' = eventmask dev AND NOT 0xFFE"
    using fsm_events_clears r unfolding clears_def by fastforce
  ultimately show ?thesis
    by blast
qed

text \<open>A unipolar channel value between 0 and 1 is sent as a pulse between the
  configured ends, and reading that pulse back gives the value up to one unit of the range.\<close>

theorem cubeio_scale_roundtrip:
  assumes "rc_type cfg = 0" and "rc_min cfg < rc_max cfg" and "0 \<le> x" and "x \<le> 1"
  shows "\<exists>v. cubeio_scale_output x cfg = Some v \<and> rc_min cfg \<le> v \<and> v \<le> rc_max cfg \<and>
     cubeio_scale_input v cfg \<le> x \<and> x < cubeio_scale_input v cfg + 1 / (u2r (rc_max cfg) - u2r (rc_min cfg))"
  using scale_unipolar [OF assms(1) less_imp_le [OF assms(2)] assms(3,4)] scale_unipolar_inverse [OF assms] by blast

text \<open>The protocol check does not do what it means to: since the attempt counter is
  cleared right after it was incremented, the RESET state goes on to CONF with a co-processor of any
  protocol version, as long as it accepts the arming request.\<close>

theorem cubeio_version_check_ineffective:
  assumes "io_answers env get" and "env_ok env" and "replies_ok env" and "cubeio_wf dev" and "outputs_ok dev"
    and "cb_state dev = CUBEIO_RESET" and "cb_attempt dev = 0"
  shows "\<exists>dev' w'. cubeio_fsm env (dev, w) = Some (dev', w', True) \<and> cb_state dev' = CUBEIO_CONF \<and> cb_attempt dev' = 0"
proof -
  have "unat (2 :: u8) \<le> CUBEIO_PKT_MAX_REGS" and "unat (2 :: u8) \<le> length (cb_config dev)"
    using assms by (simp_all add: CUBEIO_PKT_MAX_REGS_def cubeio_wf_def)
  from read_regs_answered [OF assms(1) this, of PAGE_CONFIG 0 "task_delay env 100 w"] obtain cfg w1
    where "cubeio_read_regs env PAGE_CONFIG 0 2 (cb_config dev) (task_delay env 100 w) = Some (EOK, cfg, w1)"
    by blast
  moreover obtain w2 where "cubeio_set_clear_reg env PAGE_SETUP PAGE_REG_SETUP_ARMING
       (P_SETUP_ARMING_IO_ARM_OK OR P_SETUP_ARMING_FMU_ARMED OR P_SETUP_ARMING_RC_HANDLING_DISABLED) 0 w1 = Some (False, w2)"
    using set_clear_answered [OF assms(1)] by blast
  ultimately show ?thesis
    using assms by (auto simp: cubeio_fsm_def fsm_reset_def Let_def)
qed

text \<open>The channel check of \<open>cubeio_set_range\<close> lets channel 16 through, one behind the
  arrays of 16 elements.\<close>

theorem cubeio_set_range_overflow:
  "cubeio_set_range cubeio_zero 0 15 0 1000 2000 \<noteq> None \<and> cubeio_set_range cubeio_zero 0 16 0 1000 2000 = None \<and>
   cubeio_set_range cubeio_zero 0 17 0 1000 2000 = Some cubeio_zero"
  by (simp add: cubeio_set_range_def CUBEIO_MAX_CHANNELS_def arr_set_def cubeio_zero_def Let_def)

section \<open>A concrete co-processor\<close>

definition io_reply :: "(u8 \<Rightarrow> u8 \<Rightarrow> u16) \<Rightarrow> cubeio_packet \<Rightarrow> cubeio_packet" where
  "io_reply m p = (let n = (if pk_code p = PKT_CODE_READ then pk_count p else 0) in
     case make_pkt PKT_CODE_SUCCESS (pk_page p) (pk_offset p) n (map (\<lambda>i. m (pk_page p) (pk_offset p + word_of_nat i)) [0..<unat n]) of
       None \<Rightarrow> pkt_zero | Some q \<Rightarrow> q)"

definition io_env :: "(u8 \<Rightarrow> u8 \<Rightarrow> u16) cubeio_env" where
  "io_env = \<lparr> usart_transmit_receive = (\<lambda>tx rx m. let p = pkt_of_bytes tx in
       if length rx = 48 then (EOK, pkt_bytes (io_reply m p), if pk_code p = PKT_CODE_WRITE then io_store m p else m)
       else (EIO, rx, m)),
     now_ms = (\<lambda>_. 100), task_delay = (\<lambda>_ w. w), debug_gpio_reset = (\<lambda>w. w) \<rparr>"

lemma success_code: "take_bit 2 PKT_CODE_SUCCESS = PKT_CODE_SUCCESS"
  by (simp add: PKT_CODE_SUCCESS_def)

lemma make_pkt_count: "make_pkt code page offset count regs = Some q \<Longrightarrow> unat count \<le> CUBEIO_PKT_MAX_REGS \<and> unat count \<le> length regs"
  by (auto simp: make_pkt_def Let_def memcpy_eq_Some pkt_zero_def split: bind_splits)

lemma io_reply_ok: "pkt_ok (io_reply m p) \<and> unat (pk_count (io_reply m p)) \<le> CUBEIO_PKT_MAX_REGS"
proof -
  define n where "n = (if pk_code p = PKT_CODE_READ then pk_count p else 0)"
  define regs where "regs = map (\<lambda>i. m (pk_page p) (pk_offset p + word_of_nat i)) [0..<unat n]"
  show ?thesis
  proof (cases "make_pkt PKT_CODE_SUCCESS (pk_page p) (pk_offset p) n regs")
    case None
    then show ?thesis
      by (simp add: io_reply_def n_def [symmetric] regs_def [symmetric] pkt_zero_ok) (simp add: pkt_zero_def)
  next
    case (Some q)
    then have "io_reply m p = q"
      by (simp add: io_reply_def n_def [symmetric] regs_def [symmetric])
    moreover have "unat n \<le> CUBEIO_PKT_MAX_REGS" and "unat n \<le> length regs"
      using make_pkt_count [OF Some] by blast+
    from make_pkt_ok [OF this success_code, of "pk_page p" "pk_offset p"] Some this have "pkt_ok q \<and> unat (pk_count q) \<le> CUBEIO_PKT_MAX_REGS"
      by auto
    ultimately show ?thesis
      by simp
  qed
qed

lemma io_reply_request:
  assumes "unat (pk_count p) \<le> CUBEIO_PKT_MAX_REGS"
  shows "rx_valid (pkt_bytes (io_reply m p)) \<and>
    (pk_code p = PKT_CODE_READ \<longrightarrow> pk_count (io_reply m p) = pk_count p \<and>
       (\<forall>i < unat (pk_count p). pk_regs (io_reply m p) ! i = m (pk_page p) (pk_offset p + word_of_nat i)))"
proof -
  define n where "n = (if pk_code p = PKT_CODE_READ then pk_count p else 0)"
  define regs where "regs = map (\<lambda>i. m (pk_page p) (pk_offset p + word_of_nat i)) [0..<unat n]"
  have "unat n \<le> CUBEIO_PKT_MAX_REGS" and "unat n \<le> length regs"
    using assms by (simp_all add: n_def regs_def)
  from make_pkt_request [OF this success_code] obtain q where q: "make_pkt PKT_CODE_SUCCESS (pk_page p) (pk_offset p) n regs = Some q"
    "request_ok q" "pk_code q = PKT_CODE_SUCCESS" "pk_count q = n" "take (unat n) (pk_regs q) = take (unat n) regs"
    by blast
  then have r: "io_reply m p = q"
    by (simp add: io_reply_def n_def [symmetric] regs_def [symmetric])
  have "rx_valid (pkt_bytes q)"
    using q pkt_of_pkt_bytes [of q] by (simp add: rx_valid_def request_ok_def pkt_bytes_length pkt_ok_def get_pkt_code_def)
  moreover have "i < unat n \<Longrightarrow> pk_regs q ! i = regs ! i" for i
    using q(5) by (metis nth_take)
  ultimately show ?thesis
    using r q by (auto simp: n_def regs_def)
qed

lemma io_env_ok: "env_ok io_env"
  using io_reply_ok by (auto simp: env_ok_def io_env_def Let_def pkt_bytes_length pkt_ok_def CUBEIO_PKT_MAX_REGS_def)

lemma io_reply_count:
  "unat (pk_count (io_reply m p)) = CUBEIO_PKT_MAX_REGS \<Longrightarrow> pk_code p = PKT_CODE_READ \<Longrightarrow> pk_count p = pk_count (io_reply m p)"
proof -
  assume c: "unat (pk_count (io_reply m p)) = CUBEIO_PKT_MAX_REGS" and r: "pk_code p = PKT_CODE_READ"
  define regs where "regs = map (\<lambda>i. m (pk_page p) (pk_offset p + word_of_nat i)) [0..<unat (pk_count p)]"
  show "pk_count p = pk_count (io_reply m p)"
  proof (cases "make_pkt PKT_CODE_SUCCESS (pk_page p) (pk_offset p) (pk_count p) regs")
    case None
    then show ?thesis
      using c r by (simp add: io_reply_def Let_def regs_def [symmetric]) (simp add: pkt_zero_def CUBEIO_PKT_MAX_REGS_def)
  next
    case (Some q)
    have "unat (pk_count p) \<le> CUBEIO_PKT_MAX_REGS" and "unat (pk_count p) \<le> length regs"
      using make_pkt_count [OF Some] by blast+
    from make_pkt_ok [OF this success_code, of "pk_page p" "pk_offset p"] Some have "pk_count q = pk_count p"
      by auto
    then show ?thesis
      using Some r by (simp add: io_reply_def Let_def regs_def [symmetric])
  qed
qed

lemma io_env_replies: "replies_ok io_env"
  using io_reply_ok io_reply_count by (simp add: replies_ok_def io_env_def Let_def pkt_of_pkt_bytes)

lemma io_env_answers: "io_answers io_env (\<lambda>m. m)"
proof -
  have "request_ok p \<Longrightarrow> pkt_of_bytes (pkt_bytes p) = p \<and> unat (pk_count p) \<le> CUBEIO_PKT_MAX_REGS" for p
    by (simp add: request_ok_def pkt_of_pkt_bytes)
  moreover have "PKT_CODE_WRITE \<noteq> PKT_CODE_READ"
    by (simp add: PKT_CODE_WRITE_def PKT_CODE_READ_def)
  ultimately show ?thesis
    using io_reply_request io_reply_ok
    by (auto simp: io_answers_def io_env_def Let_def CUBEIO_PKT_MAX_REGS_def pkt_of_pkt_bytes)
qed

lemma cubeio_zero_wf: "cubeio_wf cubeio_zero" "outputs_ok cubeio_zero"
  by (simp_all add: cubeio_wf_def outputs_ok_def cubeio_zero_def range_zero_def cubeio_scale_output_def channel_type_def
      to_uint16_def u2r_def)



lemma cubeio_set_clear_exact_witness:
  "\<exists>w'. cubeio_set_clear_reg io_env 50 1 0x40 0x01 (\<lambda>_ _. 0x03) = Some (False, w') \<and> w' 50 1 = 0x42 \<and> w' 50 2 = 0x03"
  using cubeio_set_clear_exact [OF io_env_answers, of 50 1 "0x40" "0x01" "\<lambda>_ _. 0x03"] by auto


lemma cubeio_events_consumed_witness:
  "\<exists>dev' w'. fsm_events io_env (cubeio_push_event cubeio_zero CUBEIO_SET_RATES, \<lambda>_ _. 0) = Some (dev', w') \<and> eventmask dev' = 0"
proof -
  have "cubeio_wf (cubeio_push_event cubeio_zero CUBEIO_SET_RATES)" and "outputs_ok (cubeio_push_event cubeio_zero CUBEIO_SET_RATES)"
    using cubeio_zero_wf by (simp_all add: cubeio_wf_def outputs_ok_def cubeio_push_event_def)
  from cubeio_events_consumed [OF io_env_ok io_env_replies this, of "\<lambda>_ _. 0"] show ?thesis
    by (simp add: cubeio_push_event_def cubeio_zero_def)
qed

lemma cubeio_scale_roundtrip_witness:
  "\<exists>v. cubeio_scale_output (1 / 2) \<lparr> rc_type = 0, rc_min = 1000, rc_max = 2000 \<rparr> = Some v \<and> 1000 \<le> v \<and> v \<le> 2000"
  using cubeio_scale_roundtrip [of "\<lparr> rc_type = 0, rc_min = 1000, rc_max = 2000 \<rparr>" "1 / 2"] by auto

lemma cubeio_version_check_ineffective_witness:
  "\<exists>dev' w'. cubeio_fsm io_env (cubeio_zero, \<lambda>_ _. 99) = Some (dev', w', True) \<and> cb_state dev' = CUBEIO_CONF"
  using cubeio_version_check_ineffective [OF io_env_answers io_env_ok io_env_replies cubeio_zero_wf, of "\<lambda>_ _. 99"]
  by (auto simp: cubeio_zero_def)

end
