(* ===== verification/VfsNode.thy ===== *)
theory VfsNode
  imports Prelude "HOL-Library.Sublist"
begin

text \<open>
  The tree of mount points, os/fatfs/fsa/node.c. A node holds its name, its
  operations (None while all of them are NULL) and its children, oldest sibling
  first; a pointer to a node is its address, the names on the way from the root,
  which never change since nodes are neither moved nor removed. Paths are C strings
  without their final zero.
\<close>

section \<open>Paths\<close>

definition NODE_MAX_NAME_LENGTH :: nat where
  "NODE_MAX_NAME_LENGTH = 64"

datatype node_mode = NODE_MODE_NEAREST_PATH | NODE_MODE_FULL_PATH

definition is_slash :: "char \<Rightarrow> bool" where
  "is_slash c \<longleftrightarrow> c = CHR ''/''"

text \<open>The next token and the rest of the string, or None at the end of the string, at a
  trailing slash and where the string does not go on with a slash.\<close>

definition node_get_token :: "string \<Rightarrow> (string \<times> string) option" where
  "node_get_token s =
     (case s of
        [] \<Rightarrow> None
      | c # _ \<Rightarrow>
          (if \<not> is_slash c then None
           else let token_start = dropWhile is_slash s;
                    token = takeWhile (\<lambda>c. \<not> is_slash c) token_start;
                    token_end = dropWhile (\<lambda>c. \<not> is_slash c) token_start
                in if token = [] then None else Some (token, token_end)))"

lemma node_get_token_less: "node_get_token s = Some (tok, rest) \<Longrightarrow> length rest < length s"
proof -
  assume *: "node_get_token s = Some (tok, rest)"
  then obtain c s' where s: "s = c # s'" and c: "is_slash c"
    by (auto simp: node_get_token_def split: list.splits if_splits)
  have "rest = dropWhile (\<lambda>c. \<not> is_slash c) (dropWhile is_slash s')"
    using * s c by (auto simp: node_get_token_def Let_def split: if_splits)
  then have "length rest \<le> length s'"
    by (metis length_dropWhile_le order_trans)
  then show ?thesis
    using s by simp
qed

text \<open>The tokens of a path.\<close>

function path_tokens :: "string \<Rightarrow> string list" where
  "path_tokens s = (case node_get_token s of None \<Rightarrow> [] | Some (tok, rest) \<Rightarrow> tok # path_tokens rest)"
  by pat_completeness auto

termination
  by (relation "measure length") (auto dest: node_get_token_less)

declare path_tokens.simps [simp del]

section \<open>The tree\<close>

datatype 'f node = Node (node_name: string) (node_op: "'f option") (node_children: "'f node list")

definition root_node :: "'f node" where
  "root_node = Node [] None []"

definition node_find_sibling :: "'f node list \<Rightarrow> string \<Rightarrow> 'f node option" where
  "node_find_sibling ns dir_name = List.find (\<lambda>n. node_name n = dir_name) ns"

text \<open>The node at an address.\<close>

fun node_at :: "'f node \<Rightarrow> string list \<Rightarrow> 'f node option" where
  "node_at n [] = Some n"
| "node_at n (a # as) = (case node_find_sibling (node_children n) a of None \<Rightarrow> None | Some c \<Rightarrow> node_at c as)"

text \<open>The loop of \<open>node_find\<close>: \<open>node\<close> with its address, and the previous node's address.\<close>

function find_loop :: "node_mode \<Rightarrow> string \<Rightarrow> 'f node \<Rightarrow> string list \<Rightarrow> string list option \<Rightarrow> string list option" where
  "find_loop mode s node addr prev =
     (case node_get_token s of
        None \<Rightarrow> Some addr
      | Some (dir_name, rest) \<Rightarrow>
          (case node_find_sibling (node_children node) dir_name of
             None \<Rightarrow> (if mode = NODE_MODE_NEAREST_PATH then prev else None)
           | Some c \<Rightarrow> find_loop mode rest c (addr @ [dir_name]) (Some (addr @ [dir_name]))))"
  by pat_completeness auto

termination
  by (relation "measure (\<lambda>(mode, s, node, addr, prev). length s)") (auto dest: node_get_token_less)

declare find_loop.simps [simp del]

text \<open>The address of the node and the errno; \<open>path\<close> None is a null pointer.\<close>

definition node_find :: "'f node \<Rightarrow> string option \<Rightarrow> node_mode \<Rightarrow> string list option \<times> errno" where
  "node_find root path mode =
     (case path of
        None \<Rightarrow> (None, EINVAL)
      | Some s \<Rightarrow> (case find_loop mode s root [] None of None \<Rightarrow> (None, ENOENT) | Some a \<Rightarrow> (Some a, EOK)))"

text \<open>A new node; None when the name does not fit the array with its final zero.\<close>

definition node_create :: "string \<Rightarrow> 'f node option" where
  "node_create nm = (if length nm < NODE_MAX_NAME_LENGTH then Some (Node nm None []) else None)"

text \<open>The new node becomes the last sibling.\<close>

definition node_add_child :: "'f node list \<Rightarrow> 'f node \<Rightarrow> 'f node list" where
  "node_add_child cs c = cs @ [c]"

fun replace_child :: "string \<Rightarrow> 'f node \<Rightarrow> 'f node list \<Rightarrow> 'f node list" where
  "replace_child nm c' [] = []"
| "replace_child nm c' (c # cs) = (if node_name c = nm then c' # cs else c # replace_child nm c' cs)"

text \<open>The loop of \<open>node_mount\<close> from a node on: walk the existing nodes, create the missing
  ones, set the operations of the last. \<open>alloc k\<close> tells whether the allocation of the
  k-th created node succeeds. The result is the changed node and whether the walk
  ended; None is a name that overflows its array.\<close>

function mount_loop :: "(nat \<Rightarrow> bool) \<Rightarrow> nat \<Rightarrow> string \<Rightarrow> 'f \<Rightarrow> 'f node \<Rightarrow> ('f node \<times> bool) option" where
  "mount_loop alloc k s f node =
     (case node_get_token s of
        None \<Rightarrow> Some (Node (node_name node) (Some f) (node_children node), True)
      | Some (dir_name, rest) \<Rightarrow>
          (case node_find_sibling (node_children node) dir_name of
             Some c \<Rightarrow>
               (case mount_loop alloc k rest f c of None \<Rightarrow> None
                | Some (c', ok) \<Rightarrow> Some (Node (node_name node) (node_op node) (replace_child dir_name c' (node_children node)), ok))
           | None \<Rightarrow>
               (if \<not> alloc k then Some (node, False)
                else case node_create dir_name of None \<Rightarrow> None
                | Some c \<Rightarrow>
                    (case mount_loop alloc (Suc k) rest f c of None \<Rightarrow> None
                     | Some (c', ok) \<Rightarrow>
                         Some (Node (node_name node) (node_op node) (node_add_child (node_children node) c'), ok)))))"
  by pat_completeness auto

termination
  by (relation "measure (\<lambda>(alloc, k, s, f, node). length s)") (auto dest: node_get_token_less)

declare mount_loop.simps [simp del]

text \<open>\<open>node_mount\<close>: the new tree, the address of the mounted node (None for NULL) and the
  errno. The errno of a failed allocation is the one calloc sets.\<close>

definition node_mount ::
    "(nat \<Rightarrow> bool) \<Rightarrow> string option \<Rightarrow> 'f option \<Rightarrow> 'f node \<Rightarrow> ('f node \<times> string list option \<times> errno) option" where
  "node_mount alloc mounting_point f_op root =
     (case (mounting_point, f_op) of
        (Some s, Some f) \<Rightarrow>
          (if fst (node_find root (Some s) NODE_MODE_FULL_PATH) \<noteq> None then Some (root, None, EEXIST)
           else (case mount_loop alloc 0 s f root of None \<Rightarrow> None
             | Some (root', ok) \<Rightarrow> Some (root', if ok then Some (path_tokens s) else None, if ok then EOK else ENOMEM)))
      | _ \<Rightarrow> Some (root, None, EINVAL))"

section \<open>Lookup\<close>

lemma path_tokens_None [simp]: "node_get_token s = None \<Longrightarrow> path_tokens s = []"
  by (subst path_tokens.simps) simp

lemma path_tokens_Some [simp]: "node_get_token s = Some (tok, rest) \<Longrightarrow> path_tokens s = tok # path_tokens rest"
  by (subst path_tokens.simps) simp

text \<open>In full mode the loop finds the address that the tokens spell, if there is a node.\<close>

lemma find_loop_full:
  "find_loop NODE_MODE_FULL_PATH s node addr prev =
     (if node_at node (path_tokens s) = None then None else Some (addr @ path_tokens s))"
proof (induction "NODE_MODE_FULL_PATH" s node addr prev rule: find_loop.induct)
  case (1 s node addr prev)
  show ?case
  proof (cases "node_get_token s")
    case None
    then show ?thesis
      by (subst find_loop.simps) simp
  next
    case (Some tr)
    obtain tok rest where t: "node_get_token s = Some (tok, rest)"
      using Some by (cases tr) simp
    show ?thesis
    proof (cases "node_find_sibling (node_children node) tok")
      case None
      then show ?thesis
        using t by (subst find_loop.simps) simp
    next
      case (Some c)
      then show ?thesis
        using 1 [OF t refl Some] t by (subst find_loop.simps) simp
    qed
  qed
qed

lemma node_find_full:
  "node_find root (Some s) NODE_MODE_FULL_PATH =
     (if node_at root (path_tokens s) = None then (None, ENOENT) else (Some (path_tokens s), EOK))"
  by (simp add: node_find_def find_loop_full)

text \<open>The longest prefix of an address that is in the tree.\<close>

fun nearest :: "'f node \<Rightarrow> string list \<Rightarrow> string list" where
  "nearest n [] = []"
| "nearest n (a # as) = (case node_find_sibling (node_children n) a of None \<Rightarrow> [] | Some c \<Rightarrow> a # nearest c as)"

lemma nearest_prefix: "prefix (nearest n as) as"
  by (induction n as rule: nearest.induct) (auto split: option.splits)

lemma nearest_exists: "node_at n (nearest n as) \<noteq> None"
  by (induction n as rule: nearest.induct) (auto split: option.splits)

lemma nearest_longest: "prefix bs as \<Longrightarrow> node_at n bs \<noteq> None \<Longrightarrow> prefix bs (nearest n as)"
proof (induction n as arbitrary: bs rule: nearest.induct)
  case (2 n a as)
  then show ?case
    by (cases bs) (auto split: option.splits)
qed simp

lemma find_loop_nearest:
  "find_loop NODE_MODE_NEAREST_PATH s node addr prev =
     (if node_at node (path_tokens s) \<noteq> None \<or> nearest node (path_tokens s) \<noteq> []
      then Some (addr @ nearest node (path_tokens s)) else prev)"
proof (induction "NODE_MODE_NEAREST_PATH" s node addr prev rule: find_loop.induct)
  case (1 s node addr prev)
  show ?case
  proof (cases "node_get_token s")
    case None
    then show ?thesis
      by (subst find_loop.simps) simp
  next
    case (Some tr)
    obtain tok rest where t: "node_get_token s = Some (tok, rest)"
      using Some by (cases tr) simp
    show ?thesis
    proof (cases "node_find_sibling (node_children node) tok")
      case None
      then show ?thesis
        using t by (subst find_loop.simps) simp
    next
      case (Some c)
      then show ?thesis
        using 1 [OF t refl Some] t by (subst find_loop.simps) simp
    qed
  qed
qed

section \<open>Mounting\<close>

definition tree_op :: "'f node \<Rightarrow> string list \<Rightarrow> 'f option option" where
  "tree_op n as = map_option node_op (node_at n as)"

lemma find_sibling_name: "node_find_sibling cs a = Some c \<Longrightarrow> node_name c = a"
  by (auto simp: node_find_sibling_def find_Some_iff)

lemma find_sibling_replace:
  "node_find_sibling cs nm = Some c \<Longrightarrow> node_name c' = nm \<Longrightarrow>
   node_find_sibling (replace_child nm c' cs) a = (if a = nm then Some c' else node_find_sibling cs a)"
  by (induction cs) (auto simp: node_find_sibling_def split: if_splits)

lemma find_sibling_add:
  "node_find_sibling (node_add_child cs c') a =
     (case node_find_sibling cs a of Some x \<Rightarrow> Some x | None \<Rightarrow> if node_name c' = a then Some c' else None)"
  by (induction cs) (auto simp: node_find_sibling_def node_add_child_def)

lemma mount_loop_name: "mount_loop alloc k s f n = Some (n', ok) \<Longrightarrow> node_name n' = node_name n"
  by (subst (asm) mount_loop.simps) (auto split: option.splits prod.splits if_splits)

lemma tree_op_fresh: "tree_op (Node nm None []) as = (if as = [] then Some None else None)"
  by (cases as) (auto simp: tree_op_def node_find_sibling_def)

text \<open>The effect of a complete walk: the last token's node has the operations, the missing
  nodes on the way exist without operations, every other address is as before.\<close>

definition mounted :: "'f option option \<Rightarrow> 'f \<Rightarrow> string list \<Rightarrow> string list \<Rightarrow> 'f option option" where
  "mounted old f toks as =
     (if as = toks then Some (Some f) else if prefix as toks \<and> old = None then Some None else old)"

lemma mount_loop_tree:
  "mount_loop alloc k s f n = Some (n', True) \<Longrightarrow> tree_op n' as = mounted (tree_op n as) f (path_tokens s) as"
proof (induction alloc k s f n arbitrary: n' as rule: mount_loop.induct)
  case (1 alloc k s f n)
  show ?case
  proof (cases "node_get_token s")
    case None
    then have "n' = Node (node_name n) (Some f) (node_children n)"
      using "1.prems" by (subst (asm) mount_loop.simps) simp
    then show ?thesis
      using None by (cases as) (auto simp: tree_op_def mounted_def)
  next
    case (Some tr)
    obtain tok rest where t: "node_get_token s = Some (tok, rest)"
      using Some by (cases tr) simp
    show ?thesis
    proof (cases "node_find_sibling (node_children n) tok")
      case (Some c)
      then obtain c' where m: "mount_loop alloc k rest f c = Some (c', True)"
        and n': "n' = Node (node_name n) (node_op n) (replace_child tok c' (node_children n))"
        using "1.prems" t by (subst (asm) mount_loop.simps) (auto split: option.splits)
      have "node_name c' = tok"
        using mount_loop_name [OF m] find_sibling_name [OF Some] by simp
      then have sib: "node_find_sibling (node_children n') a = (if a = tok then Some c' else node_find_sibling (node_children n) a)" for a
        using find_sibling_replace [OF Some] n' by simp
      have IH: "tree_op c' as' = mounted (tree_op c as') f (path_tokens rest) as'" for as'
        using "1.IH"(2) [OF t refl Some m] .
      show ?thesis
      proof (cases as)
        case Nil
        then show ?thesis
          using t n' by (simp add: tree_op_def mounted_def)
      next
        case (Cons a as')
        then show ?thesis
          using t sib [of a] Some IH [of as'] by (auto simp: tree_op_def mounted_def split: option.splits)
      qed
    next
      case None
      then obtain c c' where al: "alloc k" and cr: "node_create tok = Some c" and m: "mount_loop alloc (Suc k) rest f c = Some (c', True)"
        and n': "n' = Node (node_name n) (node_op n) (node_add_child (node_children n) c')"
        using "1.prems" t by (subst (asm) mount_loop.simps) (auto split: option.splits if_splits)
      have c: "c = Node tok None []"
        using cr by (auto simp: node_create_def split: if_splits)
      then have "node_name c' = tok"
        using mount_loop_name [OF m] by simp
      then have sib: "node_find_sibling (node_children n') a = (if a = tok then Some c' else node_find_sibling (node_children n) a)" for a
        using None n' by (auto simp: find_sibling_add split: option.splits)
      have IH: "tree_op c' as' = mounted (if as' = [] then Some None else None) f (path_tokens rest) as'" for as'
        using "1.IH"(1) [OF t refl None _ cr m] al c by (simp add: tree_op_fresh)
      show ?thesis
      proof (cases as)
        case Nil
        then show ?thesis
          using t n' by (simp add: tree_op_def mounted_def)
      next
        case (Cons a as')
        then show ?thesis
          using t sib [of a] None IH [of as'] by (auto simp: tree_op_def mounted_def split: option.splits)
      qed
    qed
  qed
qed

lemma mount_loop_total:
  fixes f :: 'f
  assumes "\<forall>i. alloc i" and "\<forall>t \<in> set (path_tokens s). length t < NODE_MAX_NAME_LENGTH"
  shows "\<exists>n'. mount_loop alloc k s f n = Some (n', True)"
  using assms
proof (induction alloc k s f n rule: mount_loop.induct)
  case (1 alloc k s f n)
  show ?case
  proof (cases "node_get_token s")
    case None
    then show ?thesis
      by (subst mount_loop.simps) simp
  next
    case (Some tr)
    obtain tok rest where t: "node_get_token s = Some (tok, rest)"
      using Some by (cases tr) simp
    then have lens: "length tok < NODE_MAX_NAME_LENGTH" "\<forall>t \<in> set (path_tokens rest). length t < NODE_MAX_NAME_LENGTH"
      using "1.prems" by simp_all
    show ?thesis
    proof (cases "node_find_sibling (node_children n) tok")
      case (Some c)
      then obtain c' where "mount_loop alloc k rest f c = Some (c', True)"
        using "1.IH"(2) [OF t refl Some] "1.prems"(1) lens(2) by blast
      then show ?thesis
        using t Some by (subst mount_loop.simps) simp
    next
      case None
      have cr: "node_create tok = Some (Node tok None [] :: 'f node)"
        using lens by (simp add: node_create_def)
      then obtain c' where "mount_loop alloc (Suc k) rest f (Node tok None []) = Some (c', True)"
        using "1.IH"(1) [OF t refl None _ cr] "1.prems"(1) lens(2) by blast
      moreover have "alloc k"
        using "1.prems"(1) by blast
      ultimately show ?thesis
        using t None cr by (subst mount_loop.simps) simp
    qed
  qed
qed

lemma node_at_tree_op: "node_at n as = None \<longleftrightarrow> tree_op n as = None"
  by (simp add: tree_op_def)

section \<open>Properties\<close>

text \<open>C12: Mounting at a path that names no node yet, with names that fit and memory for
  the nodes, succeeds and changes the tree exactly so: the path's node has the given operations, the
  missing nodes on the way to it exist without operations, and every other address looks up as
  before.\<close>

theorem node_mount_effect:
  assumes "\<forall>i. alloc i" and "\<forall>t \<in> set (path_tokens s). length t < NODE_MAX_NAME_LENGTH"
    and "tree_op root (path_tokens s) = None"
  shows "\<exists>root'. node_mount alloc (Some s) (Some f) root = Some (root', Some (path_tokens s), EOK) \<and>
     (\<forall>as. tree_op root' as = (if as = path_tokens s then Some (Some f)
        else if prefix as (path_tokens s) \<and> tree_op root as = None then Some None else tree_op root as)) \<and>
     node_find root' (Some s) NODE_MODE_FULL_PATH = (Some (path_tokens s), EOK)"
proof -
  obtain root' where m: "mount_loop alloc 0 s f root = Some (root', True)"
    using mount_loop_total [OF assms(1,2), where k = 0 and f = f and n = root] by blast
  note tree = mount_loop_tree [OF m, unfolded mounted_def]
  have "node_mount alloc (Some s) (Some f) root = Some (root', Some (path_tokens s), EOK)"
    using m assms(3) by (simp add: node_mount_def node_find_full node_at_tree_op)
  moreover have "node_find root' (Some s) NODE_MODE_FULL_PATH = (Some (path_tokens s), EOK)"
    using tree [of "path_tokens s"] by (simp add: node_find_full node_at_tree_op)
  ultimately show ?thesis
    using tree by blast
qed


lemma node_mount_effect_witness:
  "\<exists>root'. node_mount (\<lambda>_. True) (Some ''/dev/ttyS0'') (Some (7 :: nat)) root_node = Some (root', Some [''dev'', ''ttyS0''], EOK) \<and>
     tree_op root' [''dev''] = Some None"
proof -
  have toks: "path_tokens ''/dev/ttyS0'' = [''dev'', ''ttyS0'']"
    by (simp add: path_tokens.simps node_get_token_def is_slash_def)
  have none: "tree_op (root_node :: nat node) [''dev'', ''ttyS0''] = None" "tree_op (root_node :: nat node) [''dev''] = None"
    by (simp_all add: tree_op_def root_node_def node_find_sibling_def)
  then show ?thesis
    using node_mount_effect [of "\<lambda>_. True" "''/dev/ttyS0''" "root_node :: nat node" 7]
    unfolding toks by (fastforce simp: NODE_MAX_NAME_LENGTH_def)
qed


end
