(* ===== verification/Stdio.thy ===== *)
theory Stdio
  imports VfsNode
begin

text \<open>
  The file layer, os/fatfs/fsa/stdio.c with stdio.h, and the null device of null.c:
  the table of descriptors, the POSIX calls and the streams over it, which dispatch
  to the operations of the mounted nodes. The drivers are functions on a world of
  type 'w; they get and return the errno and the flags of the file. A null or
  dangling pointer that would be dereferenced is None. FILE pointers are indices of
  the static table.
\<close>

section \<open>State\<close>

definition MAX_FILES :: nat where "MAX_FILES = 32"
definition SERR :: u32 where "SERR = 0x10"
definition SEOF :: u32 where "SEOF = 0x20"
definition O_CREAT :: u32 where "O_CREAT = 0x0002"
definition O_TRUNC :: u32 where "O_TRUNC = 0x0040"
definition O_APPEND :: u32 where "O_APPEND = 0x0100"
definition O_RDONLY :: u32 where "O_RDONLY = 0x2000"
definition O_RDWR :: u32 where "O_RDWR = 0xA000"
definition O_WRONLY :: u32 where "O_WRONLY = 0x8000"

type_synonym 'w file_op = "nat \<Rightarrow> u32 \<Rightarrow> 'w \<Rightarrow> errno \<Rightarrow> int \<times> u32 \<times> 'w \<times> errno"

text \<open>None is a null function pointer. \<open>read\<close> also returns the bytes it stores at the
  start of the buffer.\<close>

record 'w file_operations =
  fo_open :: "(string \<Rightarrow> 'w file_op) option"
  fo_write :: "(u8 list \<Rightarrow> 'w file_op) option"
  fo_read :: "(nat \<Rightarrow> nat \<Rightarrow> u32 \<Rightarrow> 'w \<Rightarrow> errno \<Rightarrow> int \<times> u8 list \<times> u32 \<times> 'w \<times> errno) option"
  fo_close :: "'w file_op option"
  fo_ioctl :: "(int \<Rightarrow> int list \<Rightarrow> 'w file_op) option"
  fo_flush :: "'w file_op option"
  fo_fsync :: "'w file_op option"
  fo_lseek :: "(int \<Rightarrow> int \<Rightarrow> 'w file_op) option"
  fo_mkdir :: "(string \<Rightarrow> u32 \<Rightarrow> 'w \<Rightarrow> errno \<Rightarrow> int \<times> 'w \<times> errno) option"
  fo_rmdir :: "(string \<Rightarrow> 'w \<Rightarrow> errno \<Rightarrow> int \<times> 'w \<times> errno) option"

definition zero_ops :: "'w file_operations" where
  "zero_ops = \<lparr> fo_open = None, fo_write = None, fo_read = None, fo_close = None, fo_ioctl = None,
     fo_flush = None, fo_fsync = None, fo_lseek = None, fo_mkdir = None, fo_rmdir = None \<rparr>"

datatype node_ref = Tree_node "string list" | Null_node

record vfile =
  fl_flags :: u32
  fl_node :: node_ref

text \<open>\<open>vf_used\<close> are the pointers of \<open>files\<close> (null or the slot of the same index of
  \<open>__files\<close>), \<open>vf_files\<close> the slots.\<close>

record 'w vfs =
  vf_root :: "'w file_operations node"
  vf_used :: "bool list"
  vf_files :: "vfile list"
  vf_errno :: errno
  vf_world :: 'w

section \<open>The null device\<close>

definition null_open :: "string \<Rightarrow> 'w file_op" where
  "null_open path fd fl w e = (0, fl, w, e)"

definition null_write :: "u8 list \<Rightarrow> 'w file_op" where
  "null_write buf fd fl w e = (int (length buf), fl, w, e)"

text \<open>It sleeps, then claims \<open>count\<close> bytes without storing any.\<close>

definition null_read :: "nat \<Rightarrow> nat \<Rightarrow> u32 \<Rightarrow> 'w \<Rightarrow> errno \<Rightarrow> int \<times> u8 list \<times> u32 \<times> 'w \<times> errno" where
  "null_read count fd fl w e = (int count, [], fl, w, e)"

definition null_close :: "'w file_op" where
  "null_close fd fl w e = (0, fl, w, e)"

definition null_ioctl :: "int \<Rightarrow> int list \<Rightarrow> 'w file_op" where
  "null_ioctl req args fd fl w e = (0, fl, w, e)"

definition null_flush :: "'w file_op" where
  "null_flush fd fl w e = (0, fl, w, e)"

definition null_fsync :: "'w file_op" where
  "null_fsync fd fl w e = (0, fl, w, e)"

definition null_node :: "'w file_operations" where
  "null_node = zero_ops \<lparr> fo_open := Some null_open, fo_write := Some null_write, fo_read := Some null_read,
     fo_close := Some null_close, fo_flush := Some null_flush, fo_ioctl := Some null_ioctl, fo_fsync := Some null_fsync \<rparr>"

section \<open>Descriptors\<close>

text \<open>The operations of a node pointer; None when there is no such node.\<close>

definition ops_of :: "'w vfs \<Rightarrow> node_ref \<Rightarrow> 'w file_operations option" where
  "ops_of s r = (case r of
     Null_node \<Rightarrow> Some null_node
   | Tree_node a \<Rightarrow> (case node_at (vf_root s) a of None \<Rightarrow> None
       | Some n \<Rightarrow> Some (case node_op n of None \<Rightarrow> zero_ops | Some f \<Rightarrow> f)))"

fun first_free :: "nat \<Rightarrow> bool list \<Rightarrow> int" where
  "first_free i [] = - 1"
| "first_free i (b # bs) = (if \<not> b then int i else first_free (Suc i) bs)"

definition fd_new :: "'w vfs \<Rightarrow> int" where
  "fd_new s = first_free 0 (vf_used s)"

text \<open>An access to \<open>files\<close> or \<open>__files\<close> at a descriptor; None when it is outside the array.\<close>

definition table_get :: "'a list \<Rightarrow> int \<Rightarrow> 'a option" where
  "table_get xs fd = (if fd < 0 then None else arr_get xs (nat fd))"

definition table_set :: "'a list \<Rightarrow> int \<Rightarrow> 'a \<Rightarrow> 'a list option" where
  "table_set xs fd v = (if fd < 0 then None else arr_set xs (nat fd) v)"

definition fd_delete :: "int \<Rightarrow> 'w vfs \<Rightarrow> (int \<times> 'w vfs) option" where
  "fd_delete fd s = (if fd \<ge> int MAX_FILES \<or> fd < 0 then Some (- 1, s)
     else (case table_set (vf_used s) fd False of None \<Rightarrow> None | Some u \<Rightarrow> Some (0, s \<lparr> vf_used := u \<rparr>)))"

definition fd_check :: "int \<Rightarrow> 'w vfs \<Rightarrow> int \<times> 'w vfs" where
  "fd_check fd s = (if fd < 0 \<or> fd \<ge> int MAX_FILES then (- 1, s \<lparr> vf_errno := EBADF \<rparr>) else (0, s))"

fun strstr :: "string \<Rightarrow> string \<Rightarrow> string option" where
  "strstr [] pat = (if pat = [] then Some [] else None)"
| "strstr (c # cs) pat = (if prefix pat (c # cs) then Some (c # cs) else strstr cs pat)"

definition node_ref_name :: "string list \<Rightarrow> string" where
  "node_ref_name a = (if a = [] then [] else last a)"

text \<open>The path handed to the driver: what follows the first occurrence of the node's name
  in the path, without leading slashes.\<close>

definition relative_pathname :: "string \<Rightarrow> string \<Rightarrow> string option" where
  "relative_pathname pathname nm =
     map_option (\<lambda>t. dropWhile is_slash (drop (length nm) t)) (strstr pathname nm)"

text \<open>The result of a driver operation is put back into the state.\<close>

definition after_op :: "nat \<Rightarrow> int \<times> u32 \<times> 'w \<times> errno \<Rightarrow> 'w vfs \<Rightarrow> int \<times> 'w vfs" where
  "after_op fd r s = (case r of (rv, fl, w, e) \<Rightarrow>
     (rv, s \<lparr> vf_files := (vf_files s)[fd := (vf_files s ! fd) \<lparr> fl_flags := fl \<rparr>], vf_world := w, vf_errno := e \<rparr>))"

text \<open>\<open>open\<close>. \<open>pathname\<close> None is a null pointer.\<close>

definition vfs_open :: "string option \<Rightarrow> u32 \<Rightarrow> 'w vfs \<Rightarrow> (int \<times> 'w vfs) option" where
  "vfs_open pathname flags s =
     (let node = fst (node_find (vf_root s) pathname NODE_MODE_NEAREST_PATH); s = s \<lparr> vf_errno := EOK \<rparr> in
      case (node, pathname) of
        (Some a, Some path) \<Rightarrow>
          (case ops_of s (Tree_node a) of None \<Rightarrow> None
           | Some ops \<Rightarrow>
             (case fo_open ops of
                None \<Rightarrow> Some (- 1, s \<lparr> vf_errno := ENOENT \<rparr>)
              | Some op \<Rightarrow>
                (let fd = fd_new s in
                 if fst (fd_check fd s) \<noteq> 0 then Some (- 1, s \<lparr> vf_errno := ENOENT \<rparr>)
                 else
                   (case (table_set (vf_used s) fd True, table_set (vf_files s) fd \<lparr> fl_flags = flags, fl_node = Tree_node a \<rparr>,
                          relative_pathname path (node_ref_name a)) of
                      (Some used, Some files, Some rel) \<Rightarrow>
                        (let i = nat fd; s = s \<lparr> vf_used := used, vf_files := files \<rparr> in
                         case after_op i (op rel i flags (vf_world s) (vf_errno s)) s of (rv, s) \<Rightarrow>
                           if rv \<noteq> 0 then
                             (let s = (if vf_errno s = EOK then s \<lparr> vf_errno := EIO \<rparr> else s) in
                              case fd_delete fd s of None \<Rightarrow> None | Some (_, s) \<Rightarrow> Some (- 1, s))
                           else Some (fd, s \<lparr> vf_errno := EOK \<rparr>))
                    | _ \<Rightarrow> None))))
      | _ \<Rightarrow> Some (- 1, s \<lparr> vf_errno := ENOENT \<rparr>))"

text \<open>The common guard of the calls on a descriptor: a bad number, then a closed
  descriptor or a missing operation. \<open>act\<close> gets the operation and the state. An index that the
  guard let through outside the table, or a node that does not exist, is None.\<close>

definition on_fd ::
    "int \<Rightarrow> ('w file_operations \<Rightarrow> 'op option) \<Rightarrow> 'r \<Rightarrow> ('op \<Rightarrow> nat \<Rightarrow> 'w vfs \<Rightarrow> ('r \<times> 'w vfs) option) \<Rightarrow>
     'w vfs \<Rightarrow> ('r \<times> 'w vfs) option" where
  "on_fd fd sel fail act s =
     (let s = s \<lparr> vf_errno := EOK \<rparr> in
      case fd_check fd s of (bad, s) \<Rightarrow>
        if bad \<noteq> 0 then Some (fail, s)
        else (case (table_get (vf_used s) fd, table_get (vf_files s) fd) of
            (Some used, Some fl) \<Rightarrow>
              if \<not> used then Some (fail, s \<lparr> vf_errno := ENOENT \<rparr>)
              else (case ops_of s (fl_node fl) of None \<Rightarrow> None
                | Some ops \<Rightarrow> (case sel ops of None \<Rightarrow> Some (fail, s \<lparr> vf_errno := ENOENT \<rparr>)
                    | Some op \<Rightarrow> act op (nat fd) s))
          | _ \<Rightarrow> None))"

definition flags_of :: "'w vfs \<Rightarrow> nat \<Rightarrow> u32" where
  "flags_of s i = fl_flags (vf_files s ! i)"

definition vfs_write :: "int \<Rightarrow> u8 list \<Rightarrow> 'w vfs \<Rightarrow> (int \<times> 'w vfs) option" where
  "vfs_write fd buf = on_fd fd fo_write (- 1) (\<lambda>op i s.
     Some (after_op i (op buf i (flags_of s i) (vf_world s) (vf_errno s)) s))"

definition vfs_read :: "int \<Rightarrow> nat \<Rightarrow> 'w vfs \<Rightarrow> ((int \<times> u8 list) \<times> 'w vfs) option" where
  "vfs_read fd count = on_fd fd fo_read (- 1, []) (\<lambda>op i s.
     (case op count i (flags_of s i) (vf_world s) (vf_errno s) of (rv, bytes, fl, w, e) \<Rightarrow>
        (case after_op i (rv, fl, w, e) s of (rv, s) \<Rightarrow> Some ((rv, bytes), s))))"

definition vfs_ioctl :: "int \<Rightarrow> int \<Rightarrow> int list \<Rightarrow> 'w vfs \<Rightarrow> (int \<times> 'w vfs) option" where
  "vfs_ioctl fd request args = on_fd fd fo_ioctl (- 1) (\<lambda>op i s.
     Some (after_op i (op request args i (flags_of s i) (vf_world s) (vf_errno s)) s))"

definition vfs_close :: "int \<Rightarrow> 'w vfs \<Rightarrow> (int \<times> 'w vfs) option" where
  "vfs_close fd = on_fd fd fo_close (- 1) (\<lambda>op i s.
     (case after_op i (op i (flags_of s i) (vf_world s) (vf_errno s)) s of (rv, s) \<Rightarrow>
        if rv \<noteq> 0 then Some (rv, s) else (case fd_delete fd s of None \<Rightarrow> None | Some (_, s) \<Rightarrow> Some (rv, s))))"

definition set_file_flags :: "nat \<Rightarrow> (u32 \<Rightarrow> u32) \<Rightarrow> 'w vfs \<Rightarrow> 'w vfs" where
  "set_file_flags i g s = s \<lparr> vf_files := (vf_files s)[i := (vf_files s ! i) \<lparr> fl_flags := g (flags_of s i) \<rparr>] \<rparr>"

definition vfs_fsync :: "int \<Rightarrow> 'w vfs \<Rightarrow> (int \<times> 'w vfs) option" where
  "vfs_fsync fd = on_fd fd fo_fsync (- 1) (\<lambda>op i s.
     (case after_op i (op i (flags_of s i) (vf_world s) (vf_errno s)) s of (rv, s) \<Rightarrow>
        if rv \<noteq> 0 then Some (- 1, set_file_flags i (\<lambda>f. f OR SERR) s) else Some (0, s)))"

definition vfs_lseek :: "int \<Rightarrow> int \<Rightarrow> int \<Rightarrow> 'w vfs \<Rightarrow> (int \<times> 'w vfs) option" where
  "vfs_lseek fd offset whence = on_fd fd fo_lseek (- 1) (\<lambda>op i s.
     (case after_op i (op offset whence i (flags_of s i) (vf_world s) (vf_errno s)) s of (rv, s) \<Rightarrow>
        if rv \<noteq> 0 then Some (- 1, s) else Some (0, s)))"

text \<open>\<open>sync\<close> from slot \<open>i\<close> on; it does not touch the errno itself.\<close>

fun vfs_sync_from :: "nat \<Rightarrow> nat \<Rightarrow> 'w vfs \<Rightarrow> 'w vfs option" where
  "vfs_sync_from i 0 s = Some s"
| "vfs_sync_from i (Suc n) s =
     (case (table_get (vf_used s) (int i), table_get (vf_files s) (int i)) of
        (Some used, Some fl) \<Rightarrow>
          if \<not> used then vfs_sync_from (Suc i) n s
          else (case ops_of s (fl_node fl) of None \<Rightarrow> None
            | Some ops \<Rightarrow> (case fo_fsync ops of None \<Rightarrow> vfs_sync_from (Suc i) n s
                | Some op \<Rightarrow> (case after_op i (op i (flags_of s i) (vf_world s) (vf_errno s)) s of (rv, s) \<Rightarrow>
                    vfs_sync_from (Suc i) n (if rv \<noteq> 0 then set_file_flags i (\<lambda>f. f OR SERR) s else s))))
      | _ \<Rightarrow> None)"

definition vfs_sync :: "'w vfs \<Rightarrow> 'w vfs option" where
  "vfs_sync s = vfs_sync_from 0 MAX_FILES s"

section \<open>Streams\<close>

text \<open>A stream is None for NULL or the index of its slot.\<close>

fun fileno_from :: "nat \<Rightarrow> bool list \<Rightarrow> nat option \<Rightarrow> int" where
  "fileno_from i [] stream = - 1"
| "fileno_from i (b # bs) stream =
     (if (if b then Some i else None) = stream then int i else fileno_from (Suc i) bs stream)"

definition vfs_fileno :: "nat option \<Rightarrow> 'w vfs \<Rightarrow> int \<times> 'w vfs" where
  "vfs_fileno stream s = (let fd = fileno_from 0 (vf_used s) stream in
     case fd_check fd s of (bad, s) \<Rightarrow> if bad \<noteq> 0 then (- 1, s) else (fd, s))"

definition isatty :: "int \<Rightarrow> bool" where
  "isatty fd \<longleftrightarrow> fd > 0 \<and> fd < 3"

text \<open>The flags of a mode string; None when no comparison sets them and the variable is
  used without a value.\<close>

definition fopen_flags :: "string \<Rightarrow> u32 option" where
  "fopen_flags mode =
     (if mode \<in> {''r'', ''rb''} then Some O_RDONLY
      else if mode \<in> {''r+'', ''r+b'', ''rb+''} then Some (O_RDWR OR O_TRUNC)
      else if mode \<in> {''w'', ''wb''} then Some (O_WRONLY OR O_CREAT OR O_TRUNC)
      else if mode \<in> {''w+'', ''w+b'', ''wb+''} then Some (O_RDWR OR O_CREAT OR O_TRUNC)
      else if mode \<in> {''a'', ''ab''} then Some (O_WRONLY OR O_CREAT OR O_APPEND)
      else if mode \<in> {''a+'', ''a+b'', ''ab+''} then Some (O_RDWR OR O_CREAT OR O_APPEND)
      else None)"

definition vfs_fopen :: "string \<Rightarrow> string \<Rightarrow> 'w vfs \<Rightarrow> (nat option \<times> 'w vfs) option" where
  "vfs_fopen filename mode s =
     (let s = s \<lparr> vf_errno := EOK \<rparr> in
      case fopen_flags mode of None \<Rightarrow> None
      | Some flag \<Rightarrow>
        (case vfs_open (Some filename) flag s of None \<Rightarrow> None
         | Some (fd, s) \<Rightarrow>
           (case fd_check fd s of (bad, s) \<Rightarrow>
              if bad \<noteq> 0 then Some (None, s)
              else (case table_get (vf_files s) fd of None \<Rightarrow> None
                | Some _ \<Rightarrow> Some (Some (nat fd), set_file_flags (nat fd) (\<lambda>f. f AND NOT SERR) s)))))"

definition may_read :: "u32 \<Rightarrow> bool" where
  "may_read fl \<longleftrightarrow> fl AND O_RDWR \<noteq> 0 \<or> fl AND O_RDONLY \<noteq> 0"

definition may_write :: "u32 \<Rightarrow> bool" where
  "may_write fl \<longleftrightarrow> fl AND O_RDWR \<noteq> 0 \<or> fl AND O_WRONLY \<noteq> 0"

text \<open>The results are of type \<open>size_t\<close>; -1 is its largest value.\<close>

definition vfs_fread :: "u32 \<Rightarrow> u32 \<Rightarrow> nat option \<Rightarrow> 'w vfs \<Rightarrow> ((u32 \<times> u8 list) \<times> 'w vfs) option" where
  "vfs_fread sz nmemb stream s =
     (let s = s \<lparr> vf_errno := EOK \<rparr> in
      case stream of None \<Rightarrow> Some ((- 1, []), s \<lparr> vf_errno := ENOENT \<rparr>)
      | Some i \<Rightarrow>
        (case vfs_fileno stream s of (fd, s) \<Rightarrow>
           if fd < 0 then Some ((0, []), s)
           else if \<not> may_read (flags_of s i) then Some ((- 1, []), s \<lparr> vf_errno := EACCES \<rparr>)
           else (case vfs_read fd (unat (sz * nmemb)) s of None \<Rightarrow> None
             | Some ((rv, bytes), s) \<Rightarrow> if rv < 0 then Some ((0, bytes), s) else Some ((word_of_int rv, bytes), s))))"

definition vfs_fwrite :: "u8 list \<Rightarrow> u32 \<Rightarrow> u32 \<Rightarrow> nat option \<Rightarrow> 'w vfs \<Rightarrow> (u32 \<times> 'w vfs) option" where
  "vfs_fwrite ptr sz nmemb stream s =
     (let s = s \<lparr> vf_errno := EOK \<rparr> in
      case stream of None \<Rightarrow> Some (- 1, s \<lparr> vf_errno := ENOENT \<rparr>)
      | Some i \<Rightarrow>
        (case vfs_fileno stream s of (fd, s) \<Rightarrow>
           if fd < 0 then Some (0, s)
           else if \<not> may_write (flags_of s i) then Some (- 1, s \<lparr> vf_errno := EACCES \<rparr>)
           else if unat (sz * nmemb) > length ptr then None
           else (case vfs_write fd (take (unat (sz * nmemb)) ptr) s of None \<Rightarrow> None
             | Some (rv, s) \<Rightarrow> if rv < 0 then Some (0, s) else Some (word_of_int rv, s))))"

text \<open>\<open>fclose\<close> calls the driver's close itself, without looking for a null pointer, and
  then \<open>close\<close>, which calls it again.\<close>

definition vfs_fclose :: "nat option \<Rightarrow> 'w vfs \<Rightarrow> (int \<times> 'w vfs) option" where
  "vfs_fclose stream s =
     (let s = s \<lparr> vf_errno := EOK \<rparr> in
      case stream of None \<Rightarrow> Some (- 1, s \<lparr> vf_errno := ENOENT \<rparr>)
      | Some i \<Rightarrow>
        (case Option.bind (arr_get (vf_files s) i) (\<lambda>fl. ops_of s (fl_node fl)) of None \<Rightarrow> None
         | Some ops \<Rightarrow> (case fo_close ops of None \<Rightarrow> None
            | Some op \<Rightarrow>
              (case after_op i (op i (flags_of s i) (vf_world s) (vf_errno s)) s of (rv, s) \<Rightarrow>
                 if rv \<noteq> 0 then Some (rv, set_file_flags i (\<lambda>f. f OR SERR) s)
                 else (case vfs_fileno stream s of (fd, s) \<Rightarrow> vfs_close fd s)))))"

definition vfs_clearerr :: "nat \<Rightarrow> 'w vfs \<Rightarrow> 'w vfs" where
  "vfs_clearerr i s = set_file_flags i (\<lambda>f. f AND NOT SEOF AND NOT SERR) s"

definition vfs_ferror :: "nat \<Rightarrow> 'w vfs \<Rightarrow> bool" where
  "vfs_ferror i s \<longleftrightarrow> flags_of s i AND SERR \<noteq> 0"

section \<open>Directories and standard streams\<close>

definition vfs_mkdir :: "string option \<Rightarrow> u32 \<Rightarrow> 'w vfs \<Rightarrow> (int \<times> 'w vfs) option" where
  "vfs_mkdir pathname mode s =
     (let node = fst (node_find (vf_root s) pathname NODE_MODE_NEAREST_PATH); s = s \<lparr> vf_errno := EOK \<rparr> in
      case (node, pathname) of
        (Some a, Some path) \<Rightarrow>
          (case ops_of s (Tree_node a) of None \<Rightarrow> None
           | Some ops \<Rightarrow> (case fo_mkdir ops of None \<Rightarrow> Some (- 1, s \<lparr> vf_errno := ENOENT \<rparr>)
              | Some op \<Rightarrow> (case relative_pathname path (node_ref_name a) of None \<Rightarrow> None
                  | Some rel \<Rightarrow> (case op rel mode (vf_world s) (vf_errno s) of (rv, w, e) \<Rightarrow>
                      Some (rv, s \<lparr> vf_world := w, vf_errno := e \<rparr>)))))
      | _ \<Rightarrow> Some (- 1, s \<lparr> vf_errno := ENOENT \<rparr>))"

definition vfs_rmdir :: "string option \<Rightarrow> 'w vfs \<Rightarrow> (int \<times> 'w vfs) option" where
  "vfs_rmdir pathname s =
     (let node = fst (node_find (vf_root s) pathname NODE_MODE_NEAREST_PATH); s = s \<lparr> vf_errno := EOK \<rparr> in
      case (node, pathname) of
        (Some a, Some path) \<Rightarrow>
          (case ops_of s (Tree_node a) of None \<Rightarrow> None
           | Some ops \<Rightarrow> (case fo_rmdir ops of None \<Rightarrow> Some (- 1, s \<lparr> vf_errno := ENOENT \<rparr>)
              | Some op \<Rightarrow> (case relative_pathname path (node_ref_name a) of None \<Rightarrow> None
                  | Some rel \<Rightarrow> (case op rel (vf_world s) (vf_errno s) of (rv, w, e) \<Rightarrow>
                      Some (rv, s \<lparr> vf_world := w, vf_errno := e \<rparr>)))))
      | _ \<Rightarrow> Some (- 1, s \<lparr> vf_errno := ENOENT \<rparr>))"

definition std_stream_init :: "string option \<Rightarrow> 'w file_operations option \<Rightarrow> 'w vfs \<Rightarrow> (int \<times> 'w vfs) option" where
  "std_stream_init stream fops s =
     (case (stream, fops) of
        (Some nm, Some fo) \<Rightarrow>
          (let f_op = zero_ops \<lparr> fo_open := fo_open fo, fo_close := fo_close fo \<rparr>;
               chosen = (if nm = ''stdin'' then Some (f_op \<lparr> fo_read := fo_read fo \<rparr>, O_RDONLY)
                 else if nm = ''stdout'' \<or> nm = ''stderr'' then Some (f_op \<lparr> fo_write := fo_write fo \<rparr>, O_WRONLY)
                 else None) in
           case chosen of None \<Rightarrow> Some (- 1, s)
           | Some (f_op, flags) \<Rightarrow>
             (case node_mount (\<lambda>_. True) (Some (''/dev/'' @ nm)) (Some f_op) (vf_root s) of None \<Rightarrow> None
              | Some (root, node, e) \<Rightarrow>
                (let s = s \<lparr> vf_root := root, vf_errno := e \<rparr> in
                 if node = None then Some (- 1, s)
                 else (case vfs_open (Some (''/dev/'' @ nm)) flags s of None \<Rightarrow> None
                   | Some (fd, s) \<Rightarrow> if fd < 0 then Some (- 1, s) else Some (0, s)))))
      | _ \<Rightarrow> Some (- 1, s))"

definition std_stream_deinit :: "string \<Rightarrow> 'w vfs \<Rightarrow> int \<times> 'w vfs" where
  "std_stream_deinit stream s =
     (let fd = (if stream = ''stdin'' then Some 0 else if stream = ''stdout'' then Some 1
                else if stream = ''stderr'' then Some 2 else None) in
      case fd of None \<Rightarrow> (- 1, s)
      | Some i \<Rightarrow> if \<not> vf_used s ! i then (- 1, s)
          else (0, s \<lparr> vf_files := (vf_files s)[i := (vf_files s ! i) \<lparr> fl_node := Null_node \<rparr>] \<rparr>))"

section \<open>Messages\<close>

definition num_EBADMSG :: int where "num_EBADMSG = 35"
definition num_ETIMEDOUT :: int where "num_ETIMEDOUT = 116"

text \<open>The array without its final null pointer.\<close>

definition sys_errlist :: "string list" where
  "sys_errlist = [
    ''OK'', ''Operation not permitted'', ''No such file or directory'', ''No such process'',
    ''Interrupted system call'', ''I/O error'', ''No such device or address'', ''Argument list too long'',
    ''Exec format error'', ''Bad file number'', ''No child processes'', ''Try again'', ''Out of memory'',
    ''Permission denied'', ''Bad address'', ''Block device required'', ''Device or resource busy'',
    ''File exists'', ''Cross-device link'', ''No such device'', ''Not a directory'', ''Is a directory'',
    ''Invalid argument'', ''File table overflow'', ''Too many open files'', ''Not a typewriter'',
    ''Text file busy'', ''File too large'', ''No space left on device'', ''Illegal seek'',
    ''Read-only file system'', ''Too many links'', ''Broken pipe'', ''Math argument out of domain of func'',
    ''Math result not representable'', ''Bad Message'']"

definition sys_errtimedout :: string where
  "sys_errtimedout = ''Connection timed out''"

definition errlist_at :: "int \<Rightarrow> string option" where
  "errlist_at k = (if 0 \<le> k \<and> k < int (length sys_errlist) then Some (sys_errlist ! nat k) else None)"

text \<open>The message for \<open>errnum\<close> while the errno is \<open>eno\<close>: the table is indexed with the latter.
  None is the null pointer or a read outside the array.\<close>

definition strerror :: "int \<Rightarrow> int \<Rightarrow> string option" where
  "strerror errnum eno =
     (if errnum \<ge> 0 \<and> errnum < num_EBADMSG then errlist_at eno
      else if errnum = num_ETIMEDOUT then Some sys_errtimedout
      else errlist_at num_EBADMSG)"

text \<open>What \<open>perror\<close> prints.\<close>

definition perror_text :: "string option \<Rightarrow> int \<Rightarrow> string option" where
  "perror_text s eno =
     (let ptr = (if eno \<ge> 0 \<and> eno < num_EBADMSG then errlist_at eno
                 else if eno = num_ETIMEDOUT then Some sys_errtimedout
                 else errlist_at num_EBADMSG) in
      map_option (\<lambda>m. (case s of None \<Rightarrow> [] | Some t \<Rightarrow> if t = [] then [] else t @ '': '') @ m @ [CHR 0x0A]) ptr)"

section \<open>Invariant\<close>

definition vfs_wf :: "'w vfs \<Rightarrow> bool" where
  "vfs_wf s \<longleftrightarrow> length (vf_used s) = MAX_FILES \<and> length (vf_files s) = MAX_FILES \<and>
     (\<forall>i < MAX_FILES. vf_used s ! i \<longrightarrow> ops_of s (fl_node (vf_files s ! i)) \<noteq> None)"

lemma ops_of_cong [simp]:
  "ops_of (s \<lparr> vf_errno := e \<rparr>) r = ops_of s r"
  "ops_of (s \<lparr> vf_used := u \<rparr>) r = ops_of s r"
  "ops_of (s \<lparr> vf_files := f \<rparr>) r = ops_of s r"
  "ops_of (s \<lparr> vf_world := w \<rparr>) r = ops_of s r"
  by (auto simp: ops_of_def split: node_ref.splits option.splits)

lemma first_free_bounds: "first_free i bs = - 1 \<or> (int i \<le> first_free i bs \<and> first_free i bs < int (i + length bs))"
  by (induction i bs rule: first_free.induct) auto

lemma first_free_full: "first_free i bs = - 1 \<longleftrightarrow> (\<forall>b \<in> set bs. b)"
  by (induction i bs rule: first_free.induct) auto

lemma first_free_is: "first_free i bs = int (i + k) \<Longrightarrow> k < length bs \<and> \<not> bs ! k \<and> (\<forall>j < k. bs ! j)"
proof (induction i bs arbitrary: k rule: first_free.induct)
  case (2 i b bs)
  show ?case
  proof (cases b)
    case False
    then show ?thesis
      using 2(2) by simp
  next
    case True
    then have ff: "first_free (Suc i) bs = int (i + k)"
      using 2(2) by simp
    then have "k \<noteq> 0"
      using first_free_bounds [of "Suc i" bs] by auto
    then obtain m where "k = Suc m"
      by (cases k) auto
    then show ?thesis
      using 2(1) [of m] True ff by (auto simp: nth_Cons split: nat.splits)
  qed
qed simp

lemma fd_new_slot:
  assumes "fd_new s \<noteq> - 1"
  shows "\<exists>i. fd_new s = int i \<and> i < length (vf_used s) \<and> \<not> vf_used s ! i \<and> (\<forall>j < i. vf_used s ! j)"
proof -
  have "0 \<le> fd_new s"
    using assms first_free_bounds [of 0 "vf_used s"] by (auto simp: fd_new_def)
  then obtain i where "fd_new s = int i"
    using nonneg_int_cases by blast
  then show ?thesis
    using first_free_is [of 0 "vf_used s" i] by (auto simp: fd_new_def)
qed

text \<open>A token of a path is a part of it, so the search for its name succeeds.\<close>

lemma strstr_some: "strstr (p @ pat @ q) pat \<noteq> None"
proof (induction p)
  case Nil
  show ?case
  proof (cases "pat @ q")
    case (Cons c cs)
    then have "prefix pat (c # cs)"
      by (metis prefixI)
    then show ?thesis
      by (simp add: Cons)
  qed simp
qed auto

lemma token_part: "node_get_token s = Some (tok, rest) \<Longrightarrow> \<exists>p. s = p @ tok @ rest"
proof -
  assume *: "node_get_token s = Some (tok, rest)"
  then have "dropWhile is_slash s = tok @ rest"
    by (auto simp: node_get_token_def Let_def split: list.splits if_splits)
  then show ?thesis
    by (metis takeWhile_dropWhile_id)
qed

lemma path_token_part: "t \<in> set (path_tokens s) \<Longrightarrow> \<exists>p q. s = p @ t @ q"
proof (induction s rule: path_tokens.induct)
  case (1 s)
  show ?case
  proof (cases "node_get_token s")
    case None
    then show ?thesis
      using 1(2) by simp
  next
    case (Some tr)
    obtain tok rest where t: "node_get_token s = Some (tok, rest)"
      using Some by (cases tr) simp
    obtain p where p: "s = p @ tok @ rest"
      using token_part [OF t] by blast
    show ?thesis
    proof (cases "t = tok")
      case True
      then show ?thesis
        using p by blast
    next
      case False
      then have "t \<in> set (path_tokens rest)"
        using 1(2) t by simp
      then obtain p' q' where "rest = p' @ t @ q'"
        using 1(1) [OF t refl] by blast
      then show ?thesis
        using p by (metis append_assoc)
    qed
  qed
qed

lemma relative_defined:
  assumes "fst (node_find root (Some path) mode) = Some a"
  shows "relative_pathname path (node_ref_name a) \<noteq> None"
proof -
  have a: "prefix a (path_tokens path)"
    using assms nearest_prefix [of root "path_tokens path"]
    by (cases mode) (auto simp: node_find_def find_loop_nearest find_loop_full split: if_splits)
  have "\<exists>p q. path = p @ node_ref_name a @ q"
  proof (cases "a = []")
    case False
    then have "last a \<in> set (path_tokens path)"
      using a by (meson last_in_set set_mono_prefix subsetD)
    then show ?thesis
      using path_token_part False by (simp add: node_ref_name_def)
  qed (auto simp: node_ref_name_def)
  then show ?thesis
    using strstr_some by (auto simp: relative_pathname_def)
qed

lemma find_ops_defined:
  assumes "fst (node_find (vf_root s) (Some path) mode) = Some a"
  shows "ops_of s (Tree_node a) \<noteq> None"
proof -
  have "node_at (vf_root s) a \<noteq> None"
    using assms nearest_exists [of "vf_root s" "path_tokens path"]
    by (cases mode) (auto simp: node_find_def find_loop_nearest find_loop_full split: if_splits)
  then show ?thesis
    by (auto simp: ops_of_def)
qed

lemma vfs_wf_slot: "vfs_wf s \<Longrightarrow> i < MAX_FILES \<Longrightarrow> vf_used s ! i \<Longrightarrow> \<exists>ops. ops_of s (fl_node (vf_files s ! i)) = Some ops"
  by (auto simp: vfs_wf_def)

text \<open>Storing a driver's result keeps the table.\<close>

lemma after_op_wf:
  assumes "vfs_wf s" and "i < MAX_FILES" and "after_op i r s = (rv, s')"
  shows "vfs_wf s' \<and> vf_used s' = vf_used s \<and> vf_root s' = vf_root s"
proof -
  have "ops_of s' r' = ops_of s r'" for r'
    using assms(3) by (auto simp: after_op_def split: prod.splits)
  moreover have "fl_node (vf_files s' ! j) = fl_node (vf_files s ! j)" if "j < MAX_FILES" for j
    using assms that by (auto simp: after_op_def vfs_wf_def nth_list_update split: prod.splits)
  ultimately show ?thesis
    using assms by (auto simp: vfs_wf_def after_op_def split: prod.splits)
qed

lemma set_file_flags_wf: "vfs_wf s \<Longrightarrow> i < MAX_FILES \<Longrightarrow> vfs_wf (set_file_flags i g s)"
  by (auto simp: vfs_wf_def set_file_flags_def nth_list_update)

lemma table_get_at [mem_simps]: "i < length xs \<Longrightarrow> table_get xs (int i) = Some (xs ! i)"
  by (simp add: table_get_def mem_simps)

lemma table_set_at [mem_simps]: "i < length xs \<Longrightarrow> table_set xs (int i) v = Some (xs[i := v])"
  by (simp add: table_set_def mem_simps)

lemma table_get_Some: "table_get xs fd = Some x \<Longrightarrow> 0 \<le> fd \<and> nat fd < length xs \<and> x = xs ! nat fd"
  by (auto simp: table_get_def arr_get_eq_Some split: if_splits)

lemma fd_delete_at: "i < MAX_FILES \<Longrightarrow> vfs_wf s \<Longrightarrow> fd_delete (int i) s = Some (0, s \<lparr> vf_used := (vf_used s)[i := False] \<rparr>)"
  by (simp add: fd_delete_def vfs_wf_def mem_simps)

lemma fd_delete_wf:
  assumes "vfs_wf s" and "i < MAX_FILES"
  shows "\<exists>s'. fd_delete (int i) s = Some (0, s') \<and> vfs_wf s'"
  using assms(1) unfolding fd_delete_at [OF assms(2,1)] by (auto simp: vfs_wf_def nth_update_if)

lemma fd_check_ok [simp]: "i < MAX_FILES \<Longrightarrow> fd_check (int i) s = (0, s)"
  by (simp add: fd_check_def)

text \<open>The possible courses of \<open>open\<close>: it gives up before the driver is called, or calls it
  on the lowest free slot.\<close>

lemma vfs_wf_errno [simp]: "vfs_wf (s \<lparr> vf_errno := e \<rparr>) = vfs_wf s"
  by (simp add: vfs_wf_def)

lemma vfs_open_run:
  assumes wf: "vfs_wf s" and nd: "fst (node_find (vf_root s) (Some path) NODE_MODE_NEAREST_PATH) = Some a"
    and ops: "ops_of s (Tree_node a) = Some ops" and op: "fo_open ops = Some op"
    and i: "fd_new s = int i" "i < length (vf_used s)" "\<not> vf_used s ! i"
  shows "\<exists>rel rv fl w e. op rel i flags (vf_world s) EOK = (rv, fl, w, e) \<and>
     vfs_open (Some path) flags s =
       (if rv \<noteq> 0 then Some (- 1, s \<lparr> vf_files := (vf_files s)[i := \<lparr> fl_flags = fl, fl_node = Tree_node a \<rparr>],
            vf_errno := (if e = EOK then EIO else e), vf_world := w \<rparr>)
        else Some (int i, s \<lparr> vf_used := (vf_used s)[i := True],
            vf_files := (vf_files s)[i := \<lparr> fl_flags = fl, fl_node = Tree_node a \<rparr>], vf_errno := EOK, vf_world := w \<rparr>))"
proof -
  obtain rel where rel: "relative_pathname path (node_ref_name a) = Some rel"
    using relative_defined [OF nd] by blast
  have lens: "length (vf_used s) = MAX_FILES" "length (vf_files s) = MAX_FILES"
    using wf by (simp_all add: vfs_wf_def)
  obtain rv fl w e where r: "op rel i flags (vf_world s) EOK = (rv, fl, w, e)"
    by (metis prod_cases4)
  have fdn: "fd_new (s \<lparr> vf_errno := EOK \<rparr>) = int i"
    using i(1) by (simp add: fd_new_def)
  have undo: "(vf_used s)[i := True, i := False] = vf_used s"
    using i by (metis list_update_id list_update_overwrite)
  have upd: "\<lparr> fl_flags = flags, fl_node = Tree_node a \<rparr> \<lparr> fl_flags := fl \<rparr> = \<lparr> fl_flags = fl, fl_node = Tree_node a \<rparr>"
    by simp
  show ?thesis
  proof (cases "rv = 0")
    case True
    then show ?thesis
      using r nd ops op rel fdn lens i(2) by (intro exI [of _ rel]) (simp add: vfs_open_def Let_def after_op_def mem_simps)
  next
    case False
    then show ?thesis
      using r nd ops op rel fdn lens i(2) undo
      by (intro exI [of _ rel]) (simp add: vfs_open_def Let_def after_op_def fd_delete_def mem_simps)
  qed
qed

lemma vfs_open_cases:
  assumes wf: "vfs_wf s"
  obtains (fail) e where "vfs_open (Some path) flags s = Some (- 1, s \<lparr> vf_errno := e \<rparr>)" and "e \<noteq> EOK"
  | (run) i a ops op rel rv fl w e
    where "i < MAX_FILES" and "\<not> vf_used s ! i" and "\<forall>j < i. vf_used s ! j"
      and "fst (node_find (vf_root s) (Some path) NODE_MODE_NEAREST_PATH) = Some a"
      and "ops_of s (Tree_node a) = Some ops" and "fo_open ops = Some op"
      and "op rel i flags (vf_world s) EOK = (rv, fl, w, e)"
      and "vfs_open (Some path) flags s =
       (if rv \<noteq> 0 then Some (- 1, s \<lparr> vf_files := (vf_files s)[i := \<lparr> fl_flags = fl, fl_node = Tree_node a \<rparr>],
            vf_errno := (if e = EOK then EIO else e), vf_world := w \<rparr>)
        else Some (int i, s \<lparr> vf_used := (vf_used s)[i := True],
            vf_files := (vf_files s)[i := \<lparr> fl_flags = fl, fl_node = Tree_node a \<rparr>], vf_errno := EOK, vf_world := w \<rparr>))"
proof (cases "fst (node_find (vf_root s) (Some path) NODE_MODE_NEAREST_PATH)")
  case None
  then have "vfs_open (Some path) flags s = Some (- 1, s \<lparr> vf_errno := ENOENT \<rparr>)"
    by (simp add: vfs_open_def Let_def)
  then show ?thesis
    by (rule fail) simp
next
  case nd: (Some a)
  obtain ops where ops: "ops_of s (Tree_node a) = Some ops"
    using find_ops_defined [OF nd] by blast
  show ?thesis
  proof (cases "fo_open ops")
    case None
    then have "vfs_open (Some path) flags s = Some (- 1, s \<lparr> vf_errno := ENOENT \<rparr>)"
      using nd ops by (simp add: vfs_open_def Let_def)
    then show ?thesis
      by (rule fail) simp
  next
    case op: (Some op)
    show ?thesis
    proof (cases "fd_new s = - 1")
      case True
      then have "fd_new (s \<lparr> vf_errno := EOK \<rparr>) = - 1"
        by (simp add: fd_new_def)
      then have "vfs_open (Some path) flags s = Some (- 1, s \<lparr> vf_errno := ENOENT \<rparr>)"
        using nd ops op by (simp add: vfs_open_def Let_def fd_check_def)
      then show ?thesis
        by (rule fail) simp
    next
      case False
      then obtain i where i: "fd_new s = int i" "i < length (vf_used s)" "\<not> vf_used s ! i" "\<forall>j < i. vf_used s ! j"
        using fd_new_slot by blast
      have "i < MAX_FILES"
        using i wf by (simp add: vfs_wf_def)
      then show ?thesis
        using vfs_open_run [OF wf nd ops op i(1-3), of flags] run [OF _ i(3,4) nd ops op] by blast
    qed
  qed
qed

text \<open>A slot that points at a node of the tree keeps the table well formed.\<close>

lemma vfs_wf_slot_update:
  assumes "vfs_wf s" and "ops_of s (Tree_node a) = Some ops"
  shows "vfs_wf (s \<lparr> vf_files := (vf_files s)[i := \<lparr> fl_flags = fl, fl_node = Tree_node a \<rparr>], vf_errno := e, vf_world := w \<rparr>)"
    and "vfs_wf (s \<lparr> vf_used := (vf_used s)[i := True],
      vf_files := (vf_files s)[i := \<lparr> fl_flags = fl, fl_node = Tree_node a \<rparr>], vf_errno := e, vf_world := w \<rparr>)"
  using assms by (auto simp: vfs_wf_def nth_update_if)

text \<open>The calls on a descriptor stop at the guard, or run the operation of its node.\<close>

lemma on_fd_bad:
  "fd < 0 \<or> int MAX_FILES \<le> fd \<Longrightarrow> on_fd fd sel fail act s = Some (fail, s \<lparr> vf_errno := EBADF \<rparr>)"
  by (auto simp: on_fd_def fd_check_def Let_def)

lemma on_fd_closed:
  "vfs_wf s \<Longrightarrow> i < MAX_FILES \<Longrightarrow> \<not> vf_used s ! i \<Longrightarrow> on_fd (int i) sel fail act s = Some (fail, s \<lparr> vf_errno := ENOENT \<rparr>)"
  by (simp add: on_fd_def Let_def vfs_wf_def mem_simps)

text \<open>The descriptor \<open>i\<close> is inside the table and open.\<close>

definition fd_used :: "nat \<Rightarrow> 'w vfs \<Rightarrow> bool" where
  "fd_used i s \<longleftrightarrow> i < MAX_FILES \<and> i < length (vf_used s) \<and> i < length (vf_files s) \<and> vf_used s ! i"

lemma fd_usedI: "vfs_wf s \<Longrightarrow> i < MAX_FILES \<Longrightarrow> vf_used s ! i \<Longrightarrow> fd_used i s"
  by (simp add: fd_used_def vfs_wf_def)

lemma on_fd_run:
  "fd_used i s \<Longrightarrow> ops_of s (fl_node (vf_files s ! i)) = Some ops \<Longrightarrow>
   on_fd (int i) sel fail act s =
     (case sel ops of None \<Rightarrow> Some (fail, s \<lparr> vf_errno := ENOENT \<rparr>) | Some op \<Rightarrow> act op i (s \<lparr> vf_errno := EOK \<rparr>))"
  by (simp add: fd_used_def on_fd_def Let_def mem_simps split: option.split)

section \<open>The contract of the drivers\<close>

text \<open>The operations that the calls on an open descriptor may run.\<close>

inductive driver_op :: "'w file_operations \<Rightarrow> 'w file_op \<Rightarrow> bool" where
  "fo_write f = Some g \<Longrightarrow> driver_op f (g buf)"
| "fo_read f = Some g \<Longrightarrow> driver_op f (\<lambda>i fl w e. case g n i fl w e of (rv, bytes, fl, w, e) \<Rightarrow> (rv, fl, w, e))"
| "fo_ioctl f = Some g \<Longrightarrow> driver_op f (g req args)"
| "fo_close f = Some g \<Longrightarrow> driver_op f g"
| "fo_fsync f = Some g \<Longrightarrow> driver_op f g"
| "fo_lseek f = Some g \<Longrightarrow> driver_op f (g off wh)"

text \<open>\<open>drv\<close> are the drivers that may be mounted, \<open>winv\<close> is the invariant of their world
  and \<open>ready f i\<close> what the driver \<open>f\<close> has set up for the slot \<open>i\<close> that it opened.\<close>

locale file_drivers =
  fixes drv :: "'w file_operations \<Rightarrow> bool"
    and winv :: "'w \<Rightarrow> bool"
    and ready :: "'w file_operations \<Rightarrow> nat \<Rightarrow> 'w \<Rightarrow> bool"
  assumes drv_zero: "drv zero_ops"
    and drv_null: "drv null_node"
    and ready_null: "ready null_node i w"
    and open_law: "drv f \<Longrightarrow> fo_open f = Some g \<Longrightarrow> i < MAX_FILES \<Longrightarrow> winv w \<Longrightarrow> g path i fl w e = (rv, fl', w', e') \<Longrightarrow>
      winv w' \<and> (rv = 0 \<longrightarrow> ready f i w') \<and> (\<forall>h j. drv h \<longrightarrow> j \<noteq> i \<longrightarrow> ready h j w \<longrightarrow> ready h j w')"
    and op_law: "drv f \<Longrightarrow> driver_op f op \<Longrightarrow> i < MAX_FILES \<Longrightarrow> winv w \<Longrightarrow> ready f i w \<Longrightarrow> op i fl w e = (rv, fl', w', e') \<Longrightarrow>
      winv w' \<and> (\<forall>h j. drv h \<longrightarrow> ready h j w \<longrightarrow> ready h j w')"
begin

text \<open>A table whose nodes are such drivers, with every open slot set up.\<close>

definition driven :: "'w vfs \<Rightarrow> bool" where
  "driven s \<longleftrightarrow> vfs_wf s \<and> winv (vf_world s) \<and> (\<forall>r f. ops_of s r = Some f \<longrightarrow> drv f) \<and>
     (\<forall>i f. i < MAX_FILES \<longrightarrow> vf_used s ! i \<longrightarrow> ops_of s (fl_node (vf_files s ! i)) = Some f \<longrightarrow> ready f i (vf_world s))"

lemma driven_errno [simp]: "driven (s \<lparr> vf_errno := e \<rparr>) = driven s"
  by (simp add: driven_def)

lemma driven_wf: "driven s \<Longrightarrow> vfs_wf s"
  by (simp add: driven_def)

lemma set_file_flags_driven: "driven s \<Longrightarrow> i < MAX_FILES \<Longrightarrow> driven (set_file_flags i g s)"
  using set_file_flags_wf [of s i g]
  by (auto simp: driven_def set_file_flags_def nth_update_if vfs_wf_def)

lemma fd_delete_driven: "driven s \<Longrightarrow> i < MAX_FILES \<Longrightarrow> \<exists>s'. fd_delete (int i) s = Some (0, s') \<and> driven s'"
  using fd_delete_at [of i s] fd_delete_wf [of s i]
  by (auto simp: driven_def nth_update_if vfs_wf_def split: if_splits)

lemma driven_step:
  assumes d: "driven s" and i: "i < MAX_FILES" "vf_used s ! i"
    and f: "ops_of s (fl_node (vf_files s ! i)) = Some f" and op: "driver_op f op"
    and r: "op i fl (vf_world s) e = (rv, fl', w', e')"
  shows "driven (s \<lparr> vf_files := (vf_files s)[i := (vf_files s ! i) \<lparr> fl_flags := fl' \<rparr>], vf_world := w', vf_errno := e' \<rparr>)"
proof -
  have drv: "drv f" and rdy: "ready f i (vf_world s)" and w: "winv (vf_world s)"
    using d f i by (auto simp: driven_def)
  have law: "winv w'" "\<And>h j. drv h \<Longrightarrow> ready h j (vf_world s) \<Longrightarrow> ready h j w'"
    using op_law [OF drv op i(1) w rdy r] by blast+
  have wf: "vfs_wf (s \<lparr> vf_files := (vf_files s)[i := (vf_files s ! i) \<lparr> fl_flags := fl' \<rparr>], vf_world := w', vf_errno := e' \<rparr>)"
    using d by (auto simp: driven_def vfs_wf_def nth_update_if)
  have node: "fl_node ((vf_files s)[i := (vf_files s ! i) \<lparr> fl_flags := fl' \<rparr>] ! j) = fl_node (vf_files s ! j)" if "j < MAX_FILES" for j
    using d that by (auto simp: driven_def vfs_wf_def nth_update_if)
  show ?thesis
    using d wf law node by (auto simp: driven_def)
qed

lemma after_op_driven:
  assumes d: "driven s" and i: "i < MAX_FILES" "vf_used s ! i"
    and f: "ops_of s (fl_node (vf_files s ! i)) = Some f" and op: "driver_op f op"
  shows "\<exists>rv s'. after_op i (op i (flags_of s i) (vf_world s) (vf_errno s)) s = (rv, s') \<and> driven s'"
proof -
  obtain rv fl w e where r: "op i (flags_of s i) (vf_world s) (vf_errno s) = (rv, fl, w, e)"
    by (metis prod_cases4)
  show ?thesis
    using driven_step [OF d i f op r] r by (simp add: after_op_def)
qed

text \<open>The guard of the calls on a descriptor leaves an operation of a driver that is ready.\<close>

lemma on_fd_driven:
  assumes d: "driven s"
    and k: "\<And>i op f s'. fd = int i \<Longrightarrow> i < MAX_FILES \<Longrightarrow> vf_used s' ! i \<Longrightarrow> ops_of s' (fl_node (vf_files s' ! i)) = Some f \<Longrightarrow>
      sel f = Some op \<Longrightarrow> driven s' \<Longrightarrow> \<exists>r s''. act op i s' = Some (r, s'') \<and> driven s''"
  shows "\<exists>r s'. on_fd fd sel fail act s = Some (r, s') \<and> driven s'"
proof (cases "fd < 0 \<or> int MAX_FILES \<le> fd")
  case True
  then show ?thesis
    using d on_fd_bad [OF True, of sel fail act s] by simp
next
  case False
  then obtain i where i: "fd = int i" "i < MAX_FILES"
    by (metis nonneg_int_cases not_less of_nat_less_iff)
  show ?thesis
  proof (cases "vf_used s ! i")
    case False
    then show ?thesis
      using d i on_fd_closed [OF driven_wf [OF d] i(2) False, of sel fail act] by simp
  next
    case True
    then obtain ops where ops: "ops_of s (fl_node (vf_files s ! i)) = Some ops"
      using vfs_wf_slot [OF driven_wf [OF d] i(2)] by blast
    show ?thesis
      using d i on_fd_run [OF fd_usedI [OF driven_wf [OF d] i(2) True] ops, of sel fail act] k [OF i, of "s \<lparr> vf_errno := EOK \<rparr>" ops] True ops
      by (cases "sel ops") auto
  qed
qed

lemma vfs_write_driven: "driven s \<Longrightarrow> \<exists>r s'. vfs_write fd buf s = Some (r, s') \<and> driven s'"
  unfolding vfs_write_def using after_op_driven [OF _ _ _ _ driver_op.intros(1)] by (intro on_fd_driven) simp_all

lemma vfs_ioctl_driven: "driven s \<Longrightarrow> \<exists>r s'. vfs_ioctl fd req args s = Some (r, s') \<and> driven s'"
  unfolding vfs_ioctl_def using after_op_driven [OF _ _ _ _ driver_op.intros(3)] by (intro on_fd_driven) simp_all

lemma vfs_read_driven: "driven s \<Longrightarrow> \<exists>r s'. vfs_read fd n s = Some (r, s') \<and> driven s'"
  unfolding vfs_read_def
proof (rule on_fd_driven, assumption)
  fix i f and s' :: "'w vfs" and g :: "nat \<Rightarrow> nat \<Rightarrow> u32 \<Rightarrow> 'w \<Rightarrow> errno \<Rightarrow> int \<times> u8 list \<times> u32 \<times> 'w \<times> errno"
  assume fd: "fd = int i" and *: "i < MAX_FILES" "vf_used s' ! i" "ops_of s' (fl_node (vf_files s' ! i)) = Some f" "fo_read f = Some g" "driven s'"
  obtain rv bytes fl w e where r: "g n i (flags_of s' i) (vf_world s') (vf_errno s') = (rv, bytes, fl, w, e)"
    by (metis prod_cases5)
  show "\<exists>r s''. (case g n i (flags_of s' i) (vf_world s') (vf_errno s') of (rv, bytes, fl, w, e) \<Rightarrow>
      case after_op i (rv, fl, w, e) s' of (rv, s) \<Rightarrow> Some ((rv, bytes), s)) = Some (r, s'') \<and> driven s''"
    using after_op_driven [OF *(5,1,2,3) driver_op.intros(2) [OF *(4), of n]] unfolding r by auto
qed

lemma vfs_close_driven: "driven s \<Longrightarrow> \<exists>r s'. vfs_close fd s = Some (r, s') \<and> driven s'"
  unfolding vfs_close_def
proof (rule on_fd_driven, assumption)
  fix i f and s' :: "'w vfs" and g :: "'w file_op"
  assume fd: "fd = int i" and *: "i < MAX_FILES" "vf_used s' ! i" "ops_of s' (fl_node (vf_files s' ! i)) = Some f" "fo_close f = Some g" "driven s'"
  show "\<exists>r s''. (case after_op i (g i (flags_of s' i) (vf_world s') (vf_errno s')) s' of (rv, s) \<Rightarrow>
      if rv \<noteq> 0 then Some (rv, s) else (case fd_delete fd s of None \<Rightarrow> None | Some (_, s) \<Rightarrow> Some (rv, s))) = Some (r, s'') \<and> driven s''"
    using after_op_driven [OF *(5,1,2,3) driver_op.intros(4) [OF *(4)]] fd_delete_driven [OF _ *(1)] unfolding fd by fastforce
qed

lemma vfs_fsync_driven: "driven s \<Longrightarrow> \<exists>r s'. vfs_fsync fd s = Some (r, s') \<and> driven s'"
  unfolding vfs_fsync_def
proof (rule on_fd_driven, assumption)
  fix i f and s' :: "'w vfs" and g :: "'w file_op"
  assume fd: "fd = int i" and *: "i < MAX_FILES" "vf_used s' ! i" "ops_of s' (fl_node (vf_files s' ! i)) = Some f" "fo_fsync f = Some g" "driven s'"
  show "\<exists>r s''. (case after_op i (g i (flags_of s' i) (vf_world s') (vf_errno s')) s' of (rv, s) \<Rightarrow>
      if rv \<noteq> 0 then Some (- 1, set_file_flags i (\<lambda>f. f OR SERR) s) else Some (0, s)) = Some (r, s'') \<and> driven s''"
    using after_op_driven [OF *(5,1,2,3) driver_op.intros(5) [OF *(4)]] set_file_flags_driven [OF _ *(1)] by auto
qed

lemma vfs_lseek_driven: "driven s \<Longrightarrow> \<exists>r s'. vfs_lseek fd off wh s = Some (r, s') \<and> driven s'"
  unfolding vfs_lseek_def
proof (rule on_fd_driven, assumption)
  fix i f and s' :: "'w vfs" and g :: "int \<Rightarrow> int \<Rightarrow> 'w file_op"
  assume fd: "fd = int i" and *: "i < MAX_FILES" "vf_used s' ! i" "ops_of s' (fl_node (vf_files s' ! i)) = Some f" "fo_lseek f = Some g" "driven s'"
  show "\<exists>r s''. (case after_op i (g off wh i (flags_of s' i) (vf_world s') (vf_errno s')) s' of (rv, s) \<Rightarrow>
      if rv \<noteq> 0 then Some (- 1, s) else Some (0, s)) = Some (r, s'') \<and> driven s''"
    using after_op_driven [OF *(5,1,2,3) driver_op.intros(6) [OF *(4), of off wh]] by auto
qed

lemma open_slot_driven:
  assumes d: "driven s" and i: "i < MAX_FILES" and f: "ops_of s (Tree_node a) = Some f" and g: "fo_open f = Some g"
    and r: "g rel i flags (vf_world s) EOK = (rv, fl, w, e)"
  shows "\<not> vf_used s ! i \<Longrightarrow> driven (s \<lparr> vf_files := (vf_files s)[i := \<lparr> fl_flags = fl, fl_node = Tree_node a \<rparr>], vf_errno := e', vf_world := w \<rparr>)"
    and "rv = 0 \<Longrightarrow> driven (s \<lparr> vf_used := (vf_used s)[i := True],
      vf_files := (vf_files s)[i := \<lparr> fl_flags = fl, fl_node = Tree_node a \<rparr>], vf_errno := e', vf_world := w \<rparr>)"
proof -
  have drv: "drv f" and w: "winv (vf_world s)" and lens: "length (vf_files s) = MAX_FILES" "length (vf_used s) = MAX_FILES"
    using d f by (auto simp: driven_def vfs_wf_def)
  have law: "winv w" "rv = 0 \<Longrightarrow> ready f i w"
    "\<And>h j. drv h \<Longrightarrow> j \<noteq> i \<Longrightarrow> ready h j (vf_world s) \<Longrightarrow> ready h j w"
    using open_law [OF drv g i w r] by blast+
  note wf = vfs_wf_slot_update [OF driven_wf [OF d] f, where i = i and fl = fl and e = e' and w = w]
  show "driven (s \<lparr> vf_files := (vf_files s)[i := \<lparr> fl_flags = fl, fl_node = Tree_node a \<rparr>], vf_errno := e', vf_world := w \<rparr>)"
    if "\<not> vf_used s ! i"
    using d law wf(1) that lens by (auto simp: driven_def nth_update_if)
  show "driven (s \<lparr> vf_used := (vf_used s)[i := True],
      vf_files := (vf_files s)[i := \<lparr> fl_flags = fl, fl_node = Tree_node a \<rparr>], vf_errno := e', vf_world := w \<rparr>)"
    if "rv = 0"
    using d law wf(2) f that i lens by (auto simp: driven_def nth_update_if split: if_splits)
qed

lemma vfs_open_driven:
  assumes d: "driven s"
  shows "\<exists>r s'. vfs_open (Some path) flags s = Some (r, s') \<and> driven s'"
  using driven_wf [OF d]
proof (cases rule: vfs_open_cases [where path = path and flags = flags])
  case (fail e)
  then show ?thesis
    using d by simp
next
  case (run i a ops op rel rv fl w e)
  show ?thesis
    using run(8) open_slot_driven [OF d run(1,5,6,7)] run(2) by (cases "rv = 0") simp_all
qed

end

text \<open>The descriptor calls as commands, for statements about every sequence of them.\<close>

datatype fd_call =
    Open string u32 | Write int "u8 list" | Read int nat | Ioctl int int "int list" | Close int | Fsync int | Lseek int int int

fun fd_call_step :: "fd_call \<Rightarrow> 'w vfs \<Rightarrow> 'w vfs option" where
  "fd_call_step (Open path flags) s = map_option snd (vfs_open (Some path) flags s)"
| "fd_call_step (Write fd buf) s = map_option snd (vfs_write fd buf s)"
| "fd_call_step (Read fd n) s = map_option snd (vfs_read fd n s)"
| "fd_call_step (Ioctl fd req args) s = map_option snd (vfs_ioctl fd req args s)"
| "fd_call_step (Close fd) s = map_option snd (vfs_close fd s)"
| "fd_call_step (Fsync fd) s = map_option snd (vfs_fsync fd s)"
| "fd_call_step (Lseek fd off wh) s = map_option snd (vfs_lseek fd off wh s)"

fun fd_calls :: "fd_call list \<Rightarrow> 'w vfs \<Rightarrow> 'w vfs option" where
  "fd_calls [] s = Some s"
| "fd_calls (c # cs) s = (case fd_call_step c s of None \<Rightarrow> None | Some s' \<Rightarrow> fd_calls cs s')"

lemma map_snd_some: "\<exists>r s'. x = Some (r, s') \<and> P s' \<Longrightarrow> \<exists>s'. map_option snd x = Some s' \<and> P s'"
  by auto

context file_drivers
begin

lemma fd_call_driven:
  assumes "driven s"
  shows "\<exists>s'. fd_call_step c s = Some s' \<and> driven s'"
proof (cases c)
  case (Open p f)
  show ?thesis
    unfolding Open fd_call_step.simps by (rule map_snd_some, rule vfs_open_driven, rule assms)
next
  case (Write fd buf)
  show ?thesis
    unfolding Write fd_call_step.simps by (rule map_snd_some, rule vfs_write_driven, rule assms)
next
  case (Read fd n)
  show ?thesis
    unfolding Read fd_call_step.simps by (rule map_snd_some, rule vfs_read_driven, rule assms)
next
  case (Ioctl fd req args)
  show ?thesis
    unfolding Ioctl fd_call_step.simps by (rule map_snd_some, rule vfs_ioctl_driven, rule assms)
next
  case (Close fd)
  show ?thesis
    unfolding Close fd_call_step.simps by (rule map_snd_some, rule vfs_close_driven, rule assms)
next
  case (Fsync fd)
  show ?thesis
    unfolding Fsync fd_call_step.simps by (rule map_snd_some, rule vfs_fsync_driven, rule assms)
next
  case (Lseek fd off wh)
  show ?thesis
    unfolding Lseek fd_call_step.simps by (rule map_snd_some, rule vfs_lseek_driven, rule assms)
qed

lemma fd_calls_driven: "driven s \<Longrightarrow> \<exists>s'. fd_calls cs s = Some s' \<and> driven s'"
proof (induction cs arbitrary: s)
  case (Cons c cs)
  then show ?case
    using fd_call_driven [of s c] by auto
qed simp

end

text \<open>Any drivers at all meet the contract that asks for nothing.\<close>

interpretation any_drivers: file_drivers "\<lambda>_. True" "\<lambda>_. True" "\<lambda>_ _ _. True"
  by unfold_locales simp_all

lemma any_driven [simp]: "any_drivers.driven s = vfs_wf s"
  by (simp add: any_drivers.driven_def)

section \<open>Properties\<close>

text \<open>A table for the concrete instances: a device that counts its closes is mounted as /null,
  and the first descriptor is open.\<close>

definition counting_node :: "nat file_operations" where
  "counting_node = null_node \<lparr> fo_close := Some (\<lambda>fd fl w e. (0, fl, Suc w, e)) \<rparr>"

definition demo_vfs :: "nat vfs" where
  "demo_vfs = \<lparr> vf_root = Node [] None [Node ''null'' (Some counting_node) []],
     vf_used = True # replicate 31 False,
     vf_files = replicate 32 \<lparr> fl_flags = O_RDWR, fl_node = Tree_node [''null''] \<rparr>,
     vf_errno = EOK, vf_world = 0 \<rparr>"

lemma demo_vfs_ops: "ops_of demo_vfs (Tree_node [''null'']) = Some counting_node"
  by (simp add: ops_of_def demo_vfs_def node_find_sibling_def)

lemma demo_vfs_wf: "vfs_wf demo_vfs"
  using demo_vfs_ops by (simp add: vfs_wf_def demo_vfs_def MAX_FILES_def)

text \<open>C14: Opening a path either fails with an errno set and the descriptor table as it
  was, or takes the lowest free descriptor, marks exactly that one used and points it at the
  deepest mounted node of the path; it never runs off the table and leaves the table well formed.\<close>

theorem open_lowest_descriptor:
  assumes "vfs_wf s"
  shows "\<exists>fd s'. vfs_open (Some path) flags s = Some (fd, s') \<and> vfs_wf s' \<and> vf_root s' = vf_root s \<and>
     ((fd = - 1 \<and> vf_errno s' \<noteq> EOK \<and> vf_used s' = vf_used s) \<or>
      (\<exists>i a. fd = int i \<and> i < MAX_FILES \<and> \<not> vf_used s ! i \<and> (\<forall>j < i. vf_used s ! j) \<and>
         vf_errno s' = EOK \<and> vf_used s' = (vf_used s)[i := True] \<and>
         fst (node_find (vf_root s) (Some path) NODE_MODE_NEAREST_PATH) = Some a \<and>
         fl_node (vf_files s' ! i) = Tree_node a))"
  using assms
proof (cases rule: vfs_open_cases [where path = path and flags = flags])
  case (fail e)
  then show ?thesis
    using assms by simp
next
  case (run i a ops op rel rv fl w e)
  have lens: "length (vf_files s) = MAX_FILES"
    using assms by (simp add: vfs_wf_def)
  note wf = vfs_wf_slot_update [OF assms run(5)]
  show ?thesis
  proof (cases "rv = 0")
    case True
    then show ?thesis
      using run(1-4,8) wf(2) lens by auto
  next
    case False
    then show ?thesis
      using run(8) wf(1) by auto
  qed
qed

theorem open_lowest_descriptor_witness:
  "vfs_wf demo_vfs \<and> map_option fst (vfs_open (Some ''/null/a'') O_RDWR demo_vfs) = Some 1"
proof -
  obtain fd s' where o: "vfs_open (Some ''/null/a'') O_RDWR demo_vfs = Some (fd, s')"
    and "(fd = - 1 \<and> vf_errno s' \<noteq> EOK) \<or> (\<exists>i. fd = int i \<and> \<not> vf_used demo_vfs ! i \<and> (\<forall>j < i. vf_used demo_vfs ! j))"
    using open_lowest_descriptor [OF demo_vfs_wf, of "''/null/a''" O_RDWR] by blast
  moreover have "fd \<noteq> - 1"
  proof -
    have "map_option fst (vfs_open (Some ''/null/a'') O_RDWR demo_vfs) \<noteq> Some (- 1)"
      by code_simp
    then show ?thesis
      using o by auto
  qed
  moreover have "i = 1" if "\<not> vf_used demo_vfs ! i" and "\<forall>j < i. vf_used demo_vfs ! j" for i
  proof -
    have "vf_used demo_vfs ! 0" and "\<not> vf_used demo_vfs ! 1"
      by (simp_all add: demo_vfs_def)
    then show ?thesis
      using that by (metis less_one linorder_neqE_nat)
  qed
  ultimately show ?thesis
    using demo_vfs_wf by auto
qed

text \<open>C15: Any sequence of descriptor calls (open, write, read, ioctl, close, fsync, lseek) with any arguments, negative and
  too large descriptors included, on any drivers, never indexes the table of descriptors outside its bounds and never uses a node
  that does not exist (in the model both are the result None), and leaves the table well formed.\<close>

theorem fd_calls_safe:
  assumes "vfs_wf s"
  shows "\<exists>s'. fd_calls cs s = Some s' \<and> vfs_wf s'"
  using any_drivers.fd_calls_driven [of s cs] assms by simp

theorem fd_calls_safe_witness:
  "vfs_wf demo_vfs \<and> (\<exists>s'. fd_calls [Open ''/null'' 0, Write 1 [7], Close 5, Read (- 1) 3, Close 1] demo_vfs = Some s' \<and> vfs_wf s')"
  by (rule conjI [OF demo_vfs_wf fd_calls_safe [OF demo_vfs_wf]])

lemma fopen_flags_range:
  "(if a then Some x1 else if b then Some x2 else if c then Some x3 else if d then Some x4
    else if e then Some x5 else if f then Some x6 else None) = Some fl \<Longrightarrow>
   fl = x1 \<or> fl = x2 \<or> fl = x3 \<or> fl = x4 \<or> fl = x5 \<or> fl = x6"
  by (auto split: if_split_asm)

lemma stream_access_flags:
  "may_read O_RDONLY \<and> may_write O_RDONLY" "may_read (O_RDWR OR O_TRUNC) \<and> may_write (O_RDWR OR O_TRUNC)"
  "may_read (O_WRONLY OR O_CREAT OR O_TRUNC) \<and> may_write (O_WRONLY OR O_CREAT OR O_TRUNC)"
  "may_read (O_RDWR OR O_CREAT OR O_TRUNC) \<and> may_write (O_RDWR OR O_CREAT OR O_TRUNC)"
  "may_read (O_WRONLY OR O_CREAT OR O_APPEND) \<and> may_write (O_WRONLY OR O_CREAT OR O_APPEND)"
  "may_read (O_RDWR OR O_CREAT OR O_APPEND) \<and> may_write (O_RDWR OR O_CREAT OR O_APPEND)"
  by (simp_all add: may_read_def may_write_def O_RDONLY_def O_RDWR_def O_WRONLY_def O_CREAT_def O_TRUNC_def O_APPEND_def)

text \<open>The access check of the streams has no effect: every mode string that fopen
  understands yields flags with which both \<open>fread\<close> and \<open>fwrite\<close> pass it, so a file opened for
  reading can be written and one opened for writing can be read.\<close>

theorem stream_access_check_ineffective:
  assumes "fopen_flags mode = Some fl"
  shows "may_read fl \<and> may_write fl"
proof -
  have "fl = O_RDONLY \<or> fl = (O_RDWR OR O_TRUNC) \<or> fl = (O_WRONLY OR O_CREAT OR O_TRUNC) \<or>
      fl = (O_RDWR OR O_CREAT OR O_TRUNC) \<or> fl = (O_WRONLY OR O_CREAT OR O_APPEND) \<or> fl = (O_RDWR OR O_CREAT OR O_APPEND)"
    by (rule fopen_flags_range, rule assms [unfolded fopen_flags_def])
  then show ?thesis
    by (elim disjE) (simp_all only: stream_access_flags)
qed

theorem stream_access_check_ineffective_witness: "fopen_flags ''r'' = Some 0x2000 \<and> may_write 0x2000"
proof -
  have "fopen_flags ''r'' = Some 0x2000"
    by code_simp
  then show ?thesis
    using stream_access_check_ineffective [of "''r''" "0x2000"] by simp
qed

text \<open>\<open>fclose\<close> closes the file twice: on an open stream it runs the driver's close, and
  when that succeeds runs it again on the state the first one left, through \<open>close\<close>.\<close>

theorem fclose_closes_twice:
  assumes "vfs_wf s" and "i < MAX_FILES" and "vf_used s ! i"
    and "ops_of s (fl_node (vf_files s ! i)) = Some ops" and "fo_close ops = Some op"
    and "op i (fl_flags (vf_files s ! i)) (vf_world s) EOK = (0, fl1, w1, e1)" and "op i fl1 w1 EOK = (rv2, fl2, w2, e2)"
  shows "\<exists>s'. vfs_fclose (Some i) s = Some (rv2, s') \<and> vf_world s' = w2 \<and> (rv2 = 0 \<longrightarrow> \<not> vf_used s' ! i)"
proof -
  have lens: "length (vf_used s) = MAX_FILES" "length (vf_files s) = MAX_FILES"
    using assms(1) by (simp_all add: vfs_wf_def)
  let ?s1 = "s \<lparr> vf_files := (vf_files s)[i := (vf_files s ! i) \<lparr> fl_flags := fl1 \<rparr>], vf_world := w1, vf_errno := e1 \<rparr>"
  have f: "fileno_from k bs (Some (k + j)) = int (k + j)" if "j < length bs" and "bs ! j" for k j and bs
    using that
  proof (induction bs arbitrary: k j)
    case (Cons b bs)
    then show ?case
      using Cons.IH [of "j - 1" "Suc k"] by (cases j) auto
  qed simp
  have fno: "vfs_fileno (Some i) ?s1 = (int i, ?s1)"
    using f [of i "vf_used s" 0] assms(2,3) lens by (simp add: vfs_fileno_def)
  have ops1: "ops_of ?s1 (fl_node (vf_files ?s1 ! i)) = Some ops"
    using assms(2,4) lens by simp
  have "vfs_close (int i) ?s1 = (case after_op i (op i fl1 w1 EOK) (?s1 \<lparr> vf_errno := EOK \<rparr>) of (rv, s) \<Rightarrow>
        if rv \<noteq> 0 then Some (rv, s) else (case fd_delete (int i) s of None \<Rightarrow> None | Some (_, s) \<Rightarrow> Some (rv, s)))"
    unfolding vfs_close_def
    by (subst on_fd_run [OF _ ops1]) (use assms(2,3,5) lens in \<open>simp_all add: flags_of_def fd_used_def\<close>)
  then have "\<exists>s'. vfs_close (int i) ?s1 = Some (rv2, s') \<and> vf_world s' = w2 \<and> (rv2 = 0 \<longrightarrow> \<not> vf_used s' ! i)"
    using assms(2,7) lens by (auto simp: after_op_def fd_delete_def mem_simps)
  moreover have "vfs_fclose (Some i) s = vfs_close (int i) ?s1"
    using assms(2,4,5,6) lens fno by (simp add: vfs_fclose_def flags_of_def after_op_def mem_simps)
  ultimately show ?thesis
    by simp
qed

theorem fclose_closes_twice_witness:
  "vfs_wf demo_vfs \<and> (\<exists>s'. vfs_fclose (Some 0) demo_vfs = Some (0, s') \<and> vf_world s' = 2 \<and> \<not> vf_used s' ! 0)"
proof -
  have "ops_of demo_vfs (fl_node (vf_files demo_vfs ! 0)) = Some counting_node"
    using demo_vfs_ops by (simp add: demo_vfs_def)
  then show ?thesis
    using fclose_closes_twice [of demo_vfs 0 counting_node "\<lambda>fd fl w e. (0, fl, Suc w, e)" O_RDWR 1 EOK 0 O_RDWR 2 EOK]
      demo_vfs_wf by (simp add: demo_vfs_def MAX_FILES_def counting_node_def)
qed

end
