(* ===== verification/FatFsAdapter.thy ===== *)
theory FatFsAdapter
  imports Stdio
begin

text \<open>
  The file system driver, os/fatfs/fsa/fatfs.c, and the directory calls of dirent.c, over
  the FatFs library. The library is a parameter, the record \<open>fatfs_api\<close>: its functions
  on a file object of type 'h, a directory object of type 'p and a volume of type 'd. The
  driver is mounted as the node /fs (board_sd_card_init).
\<close>

section \<open>The library\<close>

datatype fresult =
    FR_OK | FR_DISK_ERR | FR_INT_ERR | FR_NOT_READY | FR_NO_FILE | FR_NO_PATH | FR_INVALID_NAME | FR_DENIED
  | FR_EXIST | FR_INVALID_OBJECT | FR_WRITE_PROTECTED | FR_INVALID_DRIVE | FR_NOT_ENABLED | FR_NO_FILESYSTEM
  | FR_MKFS_ABORTED | FR_TIMEOUT | FR_LOCKED | FR_NOT_ENOUGH_CORE | FR_TOO_MANY_OPEN_FILES | FR_INVALID_PARAMETER

fun fresult_code :: "fresult \<Rightarrow> int" where
  "fresult_code FR_OK = 0"
| "fresult_code FR_DISK_ERR = 1"
| "fresult_code FR_INT_ERR = 2"
| "fresult_code FR_NOT_READY = 3"
| "fresult_code FR_NO_FILE = 4"
| "fresult_code FR_NO_PATH = 5"
| "fresult_code FR_INVALID_NAME = 6"
| "fresult_code FR_DENIED = 7"
| "fresult_code FR_EXIST = 8"
| "fresult_code FR_INVALID_OBJECT = 9"
| "fresult_code FR_WRITE_PROTECTED = 10"
| "fresult_code FR_INVALID_DRIVE = 11"
| "fresult_code FR_NOT_ENABLED = 12"
| "fresult_code FR_NO_FILESYSTEM = 13"
| "fresult_code FR_MKFS_ABORTED = 14"
| "fresult_code FR_TIMEOUT = 15"
| "fresult_code FR_LOCKED = 16"
| "fresult_code FR_NOT_ENOUGH_CORE = 17"
| "fresult_code FR_TOO_MANY_OPEN_FILES = 18"
| "fresult_code FR_INVALID_PARAMETER = 19"

definition FA_READ :: u32 where "FA_READ = 0x01"
definition FA_WRITE :: u32 where "FA_WRITE = 0x02"
definition FA_CREATE_NEW :: u32 where "FA_CREATE_NEW = 0x04"
definition FA_CREATE_ALWAYS :: u32 where "FA_CREATE_ALWAYS = 0x08"

record filinfo =
  fi_fsize :: u32
  fi_fattrib :: u8
  fi_fname :: string

record ('h, 'p, 'd) fatfs_api =
  fil0 :: 'h  \<comment> \<open>the zeroed file object\<close>
  f_open :: "'h \<Rightarrow> string \<Rightarrow> u8 \<Rightarrow> 'd \<Rightarrow> fresult \<times> 'h \<times> 'd"
  f_write :: "'h \<Rightarrow> u8 list \<Rightarrow> 'd \<Rightarrow> fresult \<times> u32 \<times> 'h \<times> 'd"
  f_read :: "'h \<Rightarrow> u32 \<Rightarrow> 'd \<Rightarrow> fresult \<times> u32 \<times> u8 list \<times> 'h \<times> 'd"
  f_close :: "'h \<Rightarrow> 'd \<Rightarrow> fresult \<times> 'h \<times> 'd"
  f_sync :: "'h \<Rightarrow> 'd \<Rightarrow> fresult \<times> 'h \<times> 'd"
  f_lseek :: "'h \<Rightarrow> u32 \<Rightarrow> 'd \<Rightarrow> fresult \<times> 'h \<times> 'd"
  f_size :: "'h \<Rightarrow> u32"
  f_getfree :: "string \<Rightarrow> 'd \<Rightarrow> fresult \<times> u32 \<times> u16 \<times> u32 \<times> 'd"  \<comment> \<open>free clusters, csize, n_fatent\<close>
  f_mkdir :: "string \<Rightarrow> 'd \<Rightarrow> fresult \<times> 'd"
  f_unlink :: "string \<Rightarrow> 'd \<Rightarrow> fresult \<times> 'd"
  f_chdir :: "string \<Rightarrow> 'd \<Rightarrow> fresult \<times> 'd"
  f_rename :: "string \<Rightarrow> string \<Rightarrow> 'd \<Rightarrow> fresult \<times> 'd"
  f_getcwd :: "u32 \<Rightarrow> 'd \<Rightarrow> fresult \<times> string \<times> 'd"
  f_stat :: "string \<Rightarrow> 'd \<Rightarrow> fresult \<times> filinfo \<times> 'd"
  f_opendir :: "'p \<Rightarrow> string \<Rightarrow> 'd \<Rightarrow> fresult \<times> 'p \<times> 'd"
  f_readdir :: "'p \<Rightarrow> 'd \<Rightarrow> fresult \<times> filinfo \<times> 'p \<times> 'd"
  f_closedir :: "'p \<Rightarrow> 'd \<Rightarrow> fresult \<times> 'p \<times> 'd"

fun fatfs_to_errno :: "fresult \<Rightarrow> errno" where
  "fatfs_to_errno FR_OK = EOK"
| "fatfs_to_errno FR_DISK_ERR = EIO"
| "fatfs_to_errno FR_INT_ERR = EPERM"
| "fatfs_to_errno FR_NOT_READY = EBUSY"
| "fatfs_to_errno FR_NO_FILE = ENOENT"
| "fatfs_to_errno FR_NO_PATH = ENOENT"
| "fatfs_to_errno FR_INVALID_NAME = EINVAL"
| "fatfs_to_errno FR_DENIED = EACCES"
| "fatfs_to_errno FR_EXIST = EEXIST"
| "fatfs_to_errno FR_INVALID_OBJECT = EINVAL"
| "fatfs_to_errno FR_WRITE_PROTECTED = EROFS"
| "fatfs_to_errno FR_INVALID_DRIVE = ENXIO"
| "fatfs_to_errno FR_NOT_ENABLED = ENOSPC"
| "fatfs_to_errno FR_NO_FILESYSTEM = ENXIO"
| "fatfs_to_errno FR_MKFS_ABORTED = EINVAL"
| "fatfs_to_errno FR_TIMEOUT = EBUSY"
| "fatfs_to_errno FR_LOCKED = EBUSY"
| "fatfs_to_errno FR_NOT_ENOUGH_CORE = ENOMEM"
| "fatfs_to_errno FR_TOO_MANY_OPEN_FILES = EMFILE"
| "fatfs_to_errno FR_INVALID_PARAMETER = EINVAL"

section \<open>State\<close>

definition FATFS_MAX_FILES :: nat where "FATFS_MAX_FILES = 32"

text \<open>The \<open>private_data\<close> of a file: null, the address of the local \<open>tmp_file\<close> of a call
  of \<open>fatfs_open\<close> that has ended, or an element of \<open>fatfs_files\<close>.\<close>

datatype fil_ref = Null_fil | Stack_fil | Fil nat

text \<open>\<open>fw_priv\<close> has the \<open>private_data\<close> of the slots of \<open>__files\<close>. \<open>fw_ub\<close> records that
  a dangling pointer was handed to the library, or that \<open>fatfs_files\<close> was indexed outside its bounds.\<close>

record ('h, 'd) fat_world =
  fw_priv :: "fil_ref list"
  fw_files :: "'h list"
  fw_index :: nat
  fw_disk :: 'd
  fw_ub :: bool

definition stream_to_fatfs :: "nat \<Rightarrow> ('h, 'd) fat_world \<Rightarrow> fil_ref" where
  "stream_to_fatfs i w = fw_priv w ! i"

text \<open>A call of the library on the file object of slot \<open>i\<close>: the common guard, the call, and
  its effect on the object and on the volume.\<close>

definition with_fil ::
    "nat \<Rightarrow> ('h, 'd) fat_world \<Rightarrow> 'r \<Rightarrow> ('h \<Rightarrow> 'd \<Rightarrow> fresult \<times> 'r \<times> 'h \<times> 'd) \<Rightarrow> errno \<times> 'r \<times> ('h, 'd) fat_world" where
  "with_fil i w bad act =
     (case stream_to_fatfs i w of
        Null_fil \<Rightarrow> (EBADF, bad, w)
      | Stack_fil \<Rightarrow> (EOK, bad, w \<lparr> fw_ub := True \<rparr>)
      | Fil k \<Rightarrow>
          (case arr_get (fw_files w) k of None \<Rightarrow> (EOK, bad, w \<lparr> fw_ub := True \<rparr>)
           | Some h \<Rightarrow> (case act h (fw_disk w) of (res, r, h, d) \<Rightarrow>
               (fatfs_to_errno res, r, w \<lparr> fw_files := (fw_files w)[k := h], fw_disk := d \<rparr>))))"

section \<open>File operations\<close>

definition fatfs_modes :: "u32 \<Rightarrow> u32" where
  "fatfs_modes flags =
     (let m = (if flags AND 0xF000 = O_RDWR then FA_READ OR FA_WRITE
               else if flags AND 0xF000 = O_RDONLY then FA_READ else FA_WRITE) in
      if flags AND O_CREAT \<noteq> 0
      then (if flags AND O_TRUNC \<noteq> 0 then m OR FA_CREATE_ALWAYS else m OR FA_CREATE_NEW) else m)"

text \<open>\<open>fatfs_open\<close> on the slot \<open>i\<close>. The library works on the local object, which is copied to
  the next element of \<open>fatfs_files\<close> at the end.\<close>

definition fatfs_open :: "('h, 'p, 'd) fatfs_api \<Rightarrow> string \<Rightarrow> ('h, 'd) fat_world file_op" where
  "fatfs_open api path i flags w e =
     (if fw_index w \<ge> FATFS_MAX_FILES - 1 then (- 1, flags, w, ENOMEM)
      else
        (let w = w \<lparr> fw_priv := (fw_priv w)[i := Stack_fil] \<rparr> in
         case f_open api (fil0 api) path (ucast (fatfs_modes flags AND 0xFF)) (fw_disk w) of (res, fh, d) \<Rightarrow>
           (let w = w \<lparr> fw_disk := d \<rparr> in
            if res \<noteq> FR_OK then (- 1, flags, w, fatfs_to_errno res)
            else
              (case (if flags AND O_APPEND \<noteq> 0 then f_lseek api fh (f_size api fh) d else (FR_OK, fh, d)) of (res, fh, d) \<Rightarrow>
                 if res \<noteq> FR_OK
                 then (case f_close api fh d of (_, _, d) \<Rightarrow> (- 1, flags, w \<lparr> fw_disk := d \<rparr>, fatfs_to_errno res))
                 else
                   (case arr_set (fw_files w) (fw_index w) fh of
                      None \<Rightarrow> (0, flags, w \<lparr> fw_disk := d, fw_ub := True \<rparr>, EOK)
                    | Some files \<Rightarrow> (0, flags, w \<lparr> fw_disk := d, fw_files := files,
                        fw_priv := (fw_priv w)[i := Fil (fw_index w)], fw_index := Suc (fw_index w) \<rparr>, EOK))))))"

definition fatfs_write :: "('h, 'p, 'd) fatfs_api \<Rightarrow> u8 list \<Rightarrow> ('h, 'd) fat_world file_op" where
  "fatfs_write api buf i fl w e =
     (case with_fil i w (- 1) (\<lambda>h d. case f_write api h buf d of (res, n, h, d) \<Rightarrow>
            (res, if res \<noteq> FR_OK \<or> n \<noteq> word_of_nat (length buf) then - 1 else sint n, h, d)) of
        (e, rv, w) \<Rightarrow> (rv, fl, w, e))"

definition fatfs_read :: "('h, 'p, 'd) fatfs_api \<Rightarrow> nat \<Rightarrow> nat \<Rightarrow> u32 \<Rightarrow> ('h, 'd) fat_world \<Rightarrow> errno \<Rightarrow>
    int \<times> u8 list \<times> u32 \<times> ('h, 'd) fat_world \<times> errno" where
  "fatfs_read api count i fl w e =
     (case with_fil i w (- 1, []) (\<lambda>h d. case f_read api h (word_of_nat count) d of (res, n, bytes, h, d) \<Rightarrow>
            (res, (if res \<noteq> FR_OK then - 1 else sint n, bytes), h, d)) of
        (e, (rv, bytes), w) \<Rightarrow> (rv, bytes, fl, w, e))"

definition fatfs_close :: "('h, 'p, 'd) fatfs_api \<Rightarrow> ('h, 'd) fat_world file_op" where
  "fatfs_close api i fl w e =
     (case with_fil i w (- 1) (\<lambda>h d. case f_close api h d of (res, h, d) \<Rightarrow> (res, if res \<noteq> FR_OK then - 1 else 0, h, d)) of (e, rv, w) \<Rightarrow> (rv, fl, w, e))"

definition SUNGET :: u32 where "SUNGET = 0x40"

definition fatfs_syncfs :: "('h, 'p, 'd) fatfs_api \<Rightarrow> ('h, 'd) fat_world file_op" where
  "fatfs_syncfs api i fl w e =
     (case with_fil i w (- 1) (\<lambda>h d. case f_sync api h d of (res, h, d) \<Rightarrow> (res, if res \<noteq> FR_OK then - 1 else 0, h, d)) of
        (e, rv, w) \<Rightarrow> (rv, fl OR SUNGET, w, e))"

definition FATFS_SEEK_SET :: int where "FATFS_SEEK_SET = 0"
definition FATFS_SEEK_CUR :: int where "FATFS_SEEK_CUR = 1"
definition FATFS_SEEK_END :: int where "FATFS_SEEK_END = 2"

definition fatfs_lseek :: "('h, 'p, 'd) fatfs_api \<Rightarrow> int \<Rightarrow> int \<Rightarrow> ('h, 'd) fat_world file_op" where
  "fatfs_lseek api offset whence i fl w e =
     (case with_fil i w (- 1) (\<lambda>h d.
          case f_lseek api h (if whence = FATFS_SEEK_SET then word_of_int offset
              else if whence = FATFS_SEEK_CUR then word_of_int offset
              else if whence = FATFS_SEEK_END then f_size api h
              else word_of_int offset) d of (res, h, d) \<Rightarrow> (res, if res \<noteq> FR_OK then - 1 else 0, h, d)) of
        (e, rv, w) \<Rightarrow> (rv, fl, w, e))"

section \<open>Volume and directories\<close>

text \<open>The byte counts are 512 times a 32-bit sector count; an error is its positive code.\<close>

definition fatfs_getfree :: "('h, 'p, 'd) fatfs_api \<Rightarrow> 'd \<Rightarrow> int \<times> 'd" where
  "fatfs_getfree api d =
     (case f_getfree api ''/'' d of (res, fre_clust, csize, n_fatent, d) \<Rightarrow>
        if res \<noteq> FR_OK then (fresult_code res, d)
        else (let fre_sect = fre_clust * ucast csize in (int (unat fre_sect) * 512, d)))"

definition fatfs_gettotal :: "('h, 'p, 'd) fatfs_api \<Rightarrow> 'd \<Rightarrow> int \<times> 'd" where
  "fatfs_gettotal api d =
     (case f_getfree api ''/'' d of (res, fre_clust, csize, n_fatent, d) \<Rightarrow>
        if res \<noteq> FR_OK then (fresult_code res, d)
        else (let tot_sect = (n_fatent - 2) * ucast csize in (int (unat tot_sect) * 512, d)))"

text \<open>The calls on a path that set the errno when the library fails; \<open>e\<close> is the errno
  they leave when it succeeds.\<close>

definition path_call :: "errno \<Rightarrow> (fresult \<times> 'd) \<Rightarrow> int \<times> 'd \<times> errno" where
  "path_call e r = (case r of (res, d) \<Rightarrow> if res \<noteq> FR_OK then (- 1, d, fatfs_to_errno res) else (0, d, e))"

definition fatfs_mkdir :: "('h, 'p, 'd) fatfs_api \<Rightarrow> string \<Rightarrow> u32 \<Rightarrow> 'd \<Rightarrow> errno \<Rightarrow> int \<times> 'd \<times> errno" where
  "fatfs_mkdir api pathname mode d e = path_call EOK (f_mkdir api pathname d)"

definition fatfs_rmdir :: "('h, 'p, 'd) fatfs_api \<Rightarrow> string \<Rightarrow> 'd \<Rightarrow> errno \<Rightarrow> int \<times> 'd \<times> errno" where
  "fatfs_rmdir api pathname d e = path_call EOK (f_unlink api pathname d)"

definition fatfs_rename :: "('h, 'p, 'd) fatfs_api \<Rightarrow> string \<Rightarrow> string \<Rightarrow> 'd \<Rightarrow> errno \<Rightarrow> int \<times> 'd \<times> errno" where
  "fatfs_rename api oldpath newpath d e = path_call EOK (f_rename api oldpath newpath d)"

definition fatfs_chdir :: "('h, 'p, 'd) fatfs_api \<Rightarrow> string \<Rightarrow> 'd \<Rightarrow> errno \<Rightarrow> int \<times> 'd \<times> errno" where
  "fatfs_chdir api path d e = path_call e (f_chdir api path d)"

definition fatfs_remove :: "('h, 'p, 'd) fatfs_api \<Rightarrow> string \<Rightarrow> 'd \<Rightarrow> errno \<Rightarrow> int \<times> 'd \<times> errno" where
  "fatfs_remove api pathname d e = path_call e (f_unlink api pathname d)"

definition fatfs_getcwd :: "('h, 'p, 'd) fatfs_api \<Rightarrow> int \<Rightarrow> 'd \<Rightarrow> errno \<Rightarrow> string option \<times> 'd \<times> errno" where
  "fatfs_getcwd api len d e =
     (case f_getcwd api (word_of_int len) d of (res, path, d) \<Rightarrow>
        if res \<noteq> FR_OK then (None, d, fatfs_to_errno res) else (Some path, d, EOK))"

record stat =
  st_size :: int
  st_mode :: u32
  st_mtime :: int

definition fatfs_stat :: "('h, 'p, 'd) fatfs_api \<Rightarrow> string \<Rightarrow> 'd \<Rightarrow> errno \<Rightarrow> stat option \<times> 'd \<times> errno" where
  "fatfs_stat api pathname d e =
     (case f_stat api pathname d of (res, info, d) \<Rightarrow>
        if res \<noteq> FR_OK then (None, d, fatfs_to_errno res)
        else (Some \<lparr> st_size = sint (fi_fsize info), st_mode = ucast (fi_fattrib info), st_mtime = 0 \<rparr>, d, e))"

text \<open>\<open>fatfs_dirname\<close>: \<open>ind\<close> counts the characters, \<open>fin\<close> is the last slash; the result is
  the tail of the string from there on.\<close>

fun dirname_loop :: "string \<Rightarrow> nat \<Rightarrow> nat \<Rightarrow> nat" where
  "dirname_loop [] ind fin = fin"
| "dirname_loop (c # cs) ind fin = dirname_loop cs (Suc ind) (if c = CHR ''/'' then ind else fin)"

text \<open>The pointer \<open>str\<close> has moved to the end of the string when it is indexed, so all but
  \<open>end\<close> 0 is outside the string.\<close>

definition fatfs_dirname :: "string option \<Rightarrow> string option option" where
  "fatfs_dirname str =
     (case str of None \<Rightarrow> Some None
      | Some s \<Rightarrow> if dirname_loop s 0 0 = 0 then Some (Some []) else None)"

text \<open>The volume of a world as the argument of the calls on paths.\<close>

definition on_disk :: "('d \<Rightarrow> errno \<Rightarrow> 'r \<times> 'd \<times> errno) \<Rightarrow> ('h, 'd) fat_world \<Rightarrow> errno \<Rightarrow> 'r \<times> ('h, 'd) fat_world \<times> errno" where
  "on_disk f w e = (case f (fw_disk w) e of (r, d, e) \<Rightarrow> (r, w \<lparr> fw_disk := d \<rparr>, e))"

definition fatfs_ops :: "('h, 'p, 'd) fatfs_api \<Rightarrow> ('h, 'd) fat_world file_operations" where
  "fatfs_ops api = zero_ops \<lparr> fo_open := Some (fatfs_open api), fo_write := Some (fatfs_write api),
     fo_read := Some (fatfs_read api), fo_close := Some (fatfs_close api), fo_fsync := Some (fatfs_syncfs api),
     fo_mkdir := Some (\<lambda>p m. on_disk (fatfs_mkdir api p m)), fo_rmdir := Some (\<lambda>p. on_disk (fatfs_rmdir api p)),
     fo_lseek := Some (fatfs_lseek api) \<rparr>"

text \<open>The directory stream and the entry of dirent.c are static. An entry's name has 32 bytes;
  its final zero is stored at the length of the full name. None is a store outside it.\<close>

definition MAX_NAME_LEN :: nat where "MAX_NAME_LEN = 32"

record dirent =
  d_name :: string
  d_size :: u32

record 'p dir_state =
  ds_dir :: 'p
  ds_de :: dirent
  ds_errno :: errno

definition vfs_opendir :: "('h, 'p, 'd) fatfs_api \<Rightarrow> string \<Rightarrow> 'p dir_state \<Rightarrow> 'd \<Rightarrow> bool \<times> 'p dir_state \<times> 'd" where
  "vfs_opendir api nm s d =
     (case f_opendir api (ds_dir s) nm d of (res, dir, d) \<Rightarrow>
        if res \<noteq> FR_OK then (False, s \<lparr> ds_dir := dir, ds_errno := fatfs_to_errno res \<rparr>, d)
        else (True, s \<lparr> ds_dir := dir \<rparr>, d))"

definition vfs_readdir :: "('h, 'p, 'd) fatfs_api \<Rightarrow> 'p dir_state \<Rightarrow> 'd \<Rightarrow> (dirent option \<times> 'p dir_state \<times> 'd) option" where
  "vfs_readdir api s d =
     (let de = (ds_de s) \<lparr> d_name := [] \<rparr> in
      case f_readdir api (ds_dir s) d of (res, fno, dir, d) \<Rightarrow>
        if res \<noteq> FR_OK \<or> fi_fname fno = []
        then Some (None, s \<lparr> ds_dir := dir, ds_de := de, ds_errno := fatfs_to_errno res \<rparr>, d)
        else if length (fi_fname fno) \<ge> MAX_NAME_LEN then None
        else (let de = \<lparr> d_name = fi_fname fno, d_size = fi_fsize fno \<rparr> in
              Some (Some de, s \<lparr> ds_dir := dir, ds_de := de, ds_errno := EOK \<rparr>, d)))"

definition vfs_closedir :: "('h, 'p, 'd) fatfs_api \<Rightarrow> 'p dir_state \<Rightarrow> 'd \<Rightarrow> int \<times> 'p dir_state \<times> 'd" where
  "vfs_closedir api s d =
     (case f_closedir api (ds_dir s) d of (res, dir, d) \<Rightarrow>
        if res \<noteq> FR_OK then (- 1, s \<lparr> ds_dir := dir, ds_errno := fatfs_to_errno res \<rparr>, d)
        else (0, s \<lparr> ds_dir := dir \<rparr>, d))"

section \<open>Invariant\<close>

text \<open>Every file object that a slot points at is one of the first \<open>n\<close>, which have been handed out, and no two
  slots point at the same one.\<close>

definition own_objects :: "fil_ref list \<Rightarrow> nat \<Rightarrow> bool" where
  "own_objects ps n \<longleftrightarrow> (\<forall>i < length ps. \<forall>k. ps ! i = Fil k \<longrightarrow> k < n \<and> (\<forall>j < length ps. j \<noteq> i \<longrightarrow> ps ! j \<noteq> Fil k))"

lemma own_objectsD:
  "own_objects ps n \<Longrightarrow> i < length ps \<Longrightarrow> ps ! i = Fil k \<Longrightarrow> k < n \<and> (\<forall>j < length ps. j \<noteq> i \<longrightarrow> ps ! j \<noteq> Fil k)"
  by (simp add: own_objects_def)

lemma own_objects_none: "set ps \<subseteq> {Null_fil, Stack_fil} \<Longrightarrow> own_objects ps n"
proof -
  assume *: "set ps \<subseteq> {Null_fil, Stack_fil}"
  have "ps ! i \<noteq> Fil k" if "i < length ps" for i k
    using nth_mem [OF that] * by auto
  then show ?thesis
    by (simp add: own_objects_def)
qed

lemma own_objects_put:
  assumes own: "own_objects ps n" and p: "\<And>k. p = Fil k \<Longrightarrow> n \<le> k \<and> k < m" and nm: "n \<le> m"
  shows "own_objects (ps[i := p]) m"
  unfolding own_objects_def
proof (intro allI impI)
  fix j k
  assume "j < length (ps[i := p])" and k: "ps[i := p] ! j = Fil k"
  then have j: "j < length ps"
    by simp
  have other: "ps ! l \<noteq> Fil k" if "l < length ps" "l \<noteq> j" "ps ! j = Fil k \<or> n \<le> k" for l
    using own_objectsD [OF own] j that by (metis not_le)
  show "k < m \<and> (\<forall>l < length (ps[i := p]). l \<noteq> j \<longrightarrow> ps[i := p] ! l \<noteq> Fil k)"
  proof (cases "j = i")
    case True
    then have "p = Fil k"
      using j k by simp
    then show ?thesis
      using other p True by auto
  next
    case False
    then have at: "ps ! j = Fil k"
      using k by simp
    then have lt: "k < n"
      using own_objectsD [OF own j] by blast
    have "ps[i := p] ! l \<noteq> Fil k" if "l < length ps" "l \<noteq> j" for l
      using other [OF that] at p [of k] lt that by (cases "l = i") auto
    then show ?thesis
      using lt nm by simp
  qed
qed

lemma own_objects_stack: "own_objects ps n \<Longrightarrow> own_objects (ps[i := Stack_fil]) n"
  using own_objects_put [of ps n Stack_fil n i] by simp

lemma own_objects_next: "own_objects ps n \<Longrightarrow> own_objects (ps[i := Fil n]) (Suc n)"
  using own_objects_put [of ps n "Fil n" "Suc n" i] by simp

definition fat_inv :: "('h, 'd) fat_world \<Rightarrow> bool" where
  "fat_inv w \<longleftrightarrow> \<not> fw_ub w \<and> length (fw_priv w) = MAX_FILES \<and> length (fw_files w) = FATFS_MAX_FILES \<and>
     fw_index w \<le> FATFS_MAX_FILES - 1 \<and> own_objects (fw_priv w) (fw_index w)"

definition fat_driver :: "('h, 'p, 'd) fatfs_api \<Rightarrow> ('h, 'd) fat_world file_operations \<Rightarrow> bool" where
  "fat_driver api f \<longleftrightarrow> f = zero_ops \<or> f = null_node \<or> f = fatfs_ops api"

text \<open>A slot that the driver opened has a file object of its own table.\<close>

definition fat_ready ::
    "('h, 'p, 'd) fatfs_api \<Rightarrow> ('h, 'd) fat_world file_operations \<Rightarrow> nat \<Rightarrow> ('h, 'd) fat_world \<Rightarrow> bool" where
  "fat_ready api f i w \<longleftrightarrow> (f = fatfs_ops api \<longrightarrow> (\<exists>k < fw_index w. fw_priv w ! i = Fil k))"

lemma fat_ops_sel [simp]:
  "fo_open (fatfs_ops api) = Some (fatfs_open api)" "fo_write (fatfs_ops api) = Some (fatfs_write api)"
  "fo_read (fatfs_ops api) = Some (fatfs_read api)" "fo_close (fatfs_ops api) = Some (fatfs_close api)"
  "fo_fsync (fatfs_ops api) = Some (fatfs_syncfs api)" "fo_lseek (fatfs_ops api) = Some (fatfs_lseek api)"
  "fo_ioctl (fatfs_ops api) = None" "fo_mkdir (fatfs_ops api) = Some (\<lambda>p m. on_disk (fatfs_mkdir api p m))"
  by (simp_all add: fatfs_ops_def zero_ops_def)

lemma null_ops_sel [simp]:
  "fo_open null_node = Some null_open" "fo_write null_node = Some null_write" "fo_read null_node = Some null_read"
  "fo_close null_node = Some null_close" "fo_fsync null_node = Some null_fsync" "fo_lseek null_node = None"
  "fo_ioctl null_node = Some null_ioctl" "fo_mkdir null_node = None"
  by (simp_all add: null_node_def zero_ops_def)

lemma zero_ops_sel [simp]:
  "fo_open zero_ops = None" "fo_write zero_ops = None" "fo_read zero_ops = None" "fo_close zero_ops = None"
  "fo_fsync zero_ops = None" "fo_lseek zero_ops = None" "fo_ioctl zero_ops = None" "fo_mkdir zero_ops = None"
  by (simp_all add: zero_ops_def)

lemma fat_null_distinct [simp]: "null_node \<noteq> fatfs_ops api"
  by (metis fat_ops_sel(8) null_ops_sel(8) option.distinct(1))

text \<open>The operations on an open file change neither the table of open files nor its use.\<close>

definition same_handles :: "('h, 'd) fat_world \<Rightarrow> ('h, 'd) fat_world \<Rightarrow> bool" where
  "same_handles w w' \<longleftrightarrow> fw_priv w' = fw_priv w \<and> fw_index w' = fw_index w \<and> length (fw_files w') = length (fw_files w)"

lemma with_fil_ready:
  assumes "fw_priv w ! i = Fil k" and "k < length (fw_files w)" and "with_fil i w bad act = (e, r, w')"
  shows "same_handles w w' \<and> fw_ub w' = fw_ub w"
  using assms by (auto simp: with_fil_def stream_to_fatfs_def same_handles_def mem_simps split: prod.splits)

lemma fat_op_ready:
  assumes "driver_op (fatfs_ops api) op" and "fw_priv w ! i = Fil k" "k < length (fw_files w)" and "op i fl w e = (rv, fl', w', e')"
  shows "same_handles w w' \<and> fw_ub w' = fw_ub w"
  using assms(1)
proof cases
  case (1 g buf)
  then show ?thesis
    using assms(4) by (auto simp: fatfs_write_def split: prod.splits dest!: with_fil_ready [OF assms(2,3)])
next
  case (2 g n)
  then show ?thesis
    using assms(4) by (auto simp: fatfs_read_def split: prod.splits dest!: with_fil_ready [OF assms(2,3)])
next
  case (4)
  then show ?thesis
    using assms(4) by (auto simp: fatfs_close_def split: prod.splits dest!: with_fil_ready [OF assms(2,3)])
next
  case (5)
  then show ?thesis
    using assms(4) by (auto simp: fatfs_syncfs_def split: prod.splits dest!: with_fil_ready [OF assms(2,3)])
next
  case (6 g off wh)
  then show ?thesis
    using assms(4) by (auto simp: fatfs_lseek_def split: prod.splits dest!: with_fil_ready [OF assms(2,3)])
qed simp

lemma null_op_world:
  assumes "driver_op null_node op" and "op i fl w e = (rv, fl', w', e')"
  shows "w' = w"
  using assms(1)
  by cases (use assms(2) in \<open>auto simp: null_write_def null_read_def null_ioctl_def null_close_def null_fsync_def\<close>)

lemma zero_op_none: "\<not> driver_op zero_ops op"
  by (auto elim: driver_op.cases)

text \<open>\<open>fatfs_open\<close> uses up an element of the table exactly when it succeeds.\<close>

lemma fatfs_open_effect:
  assumes "fatfs_open api path i fl w e = (rv, fl', w', e')" and "length (fw_files w) = FATFS_MAX_FILES"
  shows "(rv = - 1 \<and> (w' = w \<or> fw_priv w' = (fw_priv w)[i := Stack_fil]) \<and> fw_index w' = fw_index w \<and> fw_files w' = fw_files w \<and>
        fw_ub w' = fw_ub w) \<or>
     (rv = 0 \<and> fw_index w < FATFS_MAX_FILES - 1 \<and> fw_priv w' = (fw_priv w)[i := Fil (fw_index w)] \<and> fw_index w' = Suc (fw_index w) \<and>
        length (fw_files w') = length (fw_files w) \<and> fw_ub w' = fw_ub w)"
  using assms by (auto simp: fatfs_open_def Let_def mem_simps split: prod.splits if_splits)

text \<open>Opening keeps the objects apart.\<close>

lemma fatfs_open_inv:
  assumes "fatfs_open api path i fl w e = (rv, fl', w', e')" and "fat_inv w"
  shows "fat_inv w'"
proof -
  have len: "length (fw_files w) = FATFS_MAX_FILES" and own: "own_objects (fw_priv w) (fw_index w)"
    using assms(2) by (simp_all add: fat_inv_def)
  from fatfs_open_effect [OF assms(1) len] show ?thesis
    using assms(2) own own_objects_stack [OF own, of i] own_objects_next [OF own, of i] by (auto simp: fat_inv_def)
qed

lemma fat_open_law:
  assumes "fat_driver api f" and "fo_open f = Some g" and "i < MAX_FILES" and "fat_inv w" and "g path i fl w e = (rv, fl', w', e')"
  shows "fat_inv w' \<and> (rv = 0 \<longrightarrow> fat_ready api f i w') \<and> (\<forall>h j. j \<noteq> i \<longrightarrow> fat_ready api h j w \<longrightarrow> fat_ready api h j w')"
proof (cases "f = fatfs_ops api")
  case True
  then have op: "fatfs_open api path i fl w e = (rv, fl', w', e')"
    using assms(2,5) by simp
  have "length (fw_files w) = FATFS_MAX_FILES" "length (fw_priv w) = MAX_FILES"
    using assms(4) by (simp_all add: fat_inv_def)
  then show ?thesis
    using fatfs_open_effect [OF op] fatfs_open_inv [OF op assms(4)] assms(3) by (auto simp: fat_ready_def less_Suc_eq)
next
  case False
  then have "f = null_node"
    using assms(1,2) by (auto simp: fat_driver_def)
  then show ?thesis
    using assms by (auto simp: fat_ready_def null_open_def)
qed

lemma fat_op_law:
  assumes "fat_driver api f" and "driver_op f op" and "fat_inv w" and "fat_ready api f i w" and "op i fl w e = (rv, fl', w', e')"
  shows "fat_inv w' \<and> (\<forall>h j. fat_ready api h j w \<longrightarrow> fat_ready api h j w') \<and> fw_index w' = fw_index w"
proof (cases "f = fatfs_ops api")
  case True
  then obtain k where "fw_priv w ! i = Fil k" "k < length (fw_files w)"
    using assms(3,4) by (auto simp: fat_ready_def fat_inv_def FATFS_MAX_FILES_def)
  then have "same_handles w w' \<and> fw_ub w' = fw_ub w"
    using fat_op_ready assms(2,5) True by blast
  then show ?thesis
    using assms(3) by (auto simp: fat_inv_def fat_ready_def same_handles_def)
next
  case False
  then have "f = null_node"
    using assms(1,2) zero_op_none by (auto simp: fat_driver_def)
  then have "w' = w"
    using null_op_world [of op] assms(2,5) by simp
  then show ?thesis
    using assms(3) by simp
qed

interpretation fat: file_drivers "fat_driver api" fat_inv "fat_ready api" for api
proof unfold_locales
  show "fat_driver api zero_ops" and "fat_driver api null_node"
    by (simp_all add: fat_driver_def)
  show "fat_ready api null_node i w" for i and w
    by (simp add: fat_ready_def)
  show "fat_inv w' \<and> (rv = 0 \<longrightarrow> fat_ready api f i w') \<and>
      (\<forall>h j. fat_driver api h \<longrightarrow> j \<noteq> i \<longrightarrow> fat_ready api h j w \<longrightarrow> fat_ready api h j w')"
    if "fat_driver api f" "fo_open f = Some g" "i < MAX_FILES" "fat_inv w" "g path i fl w e = (rv, fl', w', e')"
    for f g i w path fl e rv fl' w' e'
    using fat_open_law [OF that] by simp
  show "fat_inv w' \<and> (\<forall>h j. fat_driver api h \<longrightarrow> fat_ready api h j w \<longrightarrow> fat_ready api h j w')"
    if "fat_driver api f" "driver_op f op" "i < MAX_FILES" "fat_inv w" "fat_ready api f i w" "op i fl w e = (rv, fl', w', e')"
    for f op i w fl e rv fl' w' e'
    using fat_op_law [OF that(1,2,4-6)] by simp
qed

text \<open>A second instance of the contract: a world whose table is used up stays so.\<close>

definition fat_full :: "('h, 'd) fat_world \<Rightarrow> bool" where
  "fat_full w \<longleftrightarrow> fat_inv w \<and> fw_index w = FATFS_MAX_FILES - 1"

interpretation fat_full: file_drivers "fat_driver api" fat_full "fat_ready api" for api
proof unfold_locales
  show "fat_driver api zero_ops" and "fat_driver api null_node"
    by (simp_all add: fat_driver_def)
  show "fat_ready api null_node i w" for i and w
    by (simp add: fat_ready_def)
  show "fat_full w' \<and> (\<forall>h j. fat_driver api h \<longrightarrow> fat_ready api h j w \<longrightarrow> fat_ready api h j w')"
    if "fat_driver api f" "driver_op f op" "i < MAX_FILES" "fat_full w" "fat_ready api f i w" "op i fl w e = (rv, fl', w', e')"
    for f op i w fl e rv fl' w' e'
    using fat_op_law [OF that(1,2) _ that(5,6)] that(4) by (auto simp: fat_full_def)
  show "fat_full w' \<and> (rv = 0 \<longrightarrow> fat_ready api f i w') \<and>
      (\<forall>h j. fat_driver api h \<longrightarrow> j \<noteq> i \<longrightarrow> fat_ready api h j w \<longrightarrow> fat_ready api h j w')"
    if "fat_driver api f" "fo_open f = Some g" "i < MAX_FILES" "fat_full w" "g path i fl w e = (rv, fl', w', e')"
    for f g i w path fl e rv fl' w' e'
  proof -
    have "fw_index w' = fw_index w"
    proof (cases "f = fatfs_ops api")
      case True
      then show ?thesis
        using that(2,4,5) by (auto simp: fat_full_def fatfs_open_def)
    next
      case False
      then show ?thesis
        using that(1,2,5) by (auto simp: fat_driver_def null_open_def)
    qed
    then show ?thesis
      using fat_open_law [OF that(1-3) _ that(5)] that(4) by (auto simp: fat_full_def)
  qed
qed

section \<open>Properties\<close>

text \<open>A volume on which every file exists, for the concrete instances. File objects are the
  bytes written.\<close>

definition demo_api :: "(u8 list, unit, unit) fatfs_api" where
  "demo_api = \<lparr> fil0 = [],
     f_open = (\<lambda>h p m d. (if m AND 4 \<noteq> 0 then FR_EXIST else FR_OK, h, d)),
     f_write = (\<lambda>h b d. (FR_OK, word_of_nat (length b), h @ b, d)),
     f_read = (\<lambda>h n d. (FR_OK, 0, [], h, d)), f_close = (\<lambda>h d. (FR_OK, h, d)), f_sync = (\<lambda>h d. (FR_OK, h, d)),
     f_lseek = (\<lambda>h n d. (FR_OK, h, d)), f_size = (\<lambda>h. word_of_nat (length h)),
     f_getfree = (\<lambda>p d. (FR_OK, 1, 1, 3, d)), f_mkdir = (\<lambda>p d. (FR_EXIST, d)), f_unlink = (\<lambda>p d. (FR_OK, d)),
     f_chdir = (\<lambda>p d. (FR_OK, d)), f_rename = (\<lambda>p q d. (FR_OK, d)), f_getcwd = (\<lambda>n d. (FR_OK, ''/'', d)),
     f_stat = (\<lambda>p d. (FR_OK, \<lparr> fi_fsize = 0, fi_fattrib = 0, fi_fname = p \<rparr>, d)),
     f_opendir = (\<lambda>h p d. (FR_OK, h, d)), f_readdir = (\<lambda>h d. (FR_OK, \<lparr> fi_fsize = 0, fi_fattrib = 0, fi_fname = [] \<rparr>, h, d)),
     f_closedir = (\<lambda>h d. (FR_OK, h, d)) \<rparr>"

definition demo_fat :: "nat \<Rightarrow> fil_ref \<Rightarrow> bool \<Rightarrow> (u8 list, unit) fat_world vfs" where
  "demo_fat n p u = \<lparr> vf_root = Node [] None [Node ''fs'' (Some (fatfs_ops demo_api)) []],
     vf_used = u # replicate 31 False,
     vf_files = replicate 32 \<lparr> fl_flags = O_RDWR, fl_node = Tree_node [''fs''] \<rparr>,
     vf_errno = EOK,
     vf_world = \<lparr> fw_priv = p # replicate 31 Null_fil, fw_files = replicate 32 [], fw_index = n, fw_disk = (), fw_ub = False \<rparr> \<rparr>"

lemma demo_fat_ops [simp]: "ops_of (demo_fat n p u) (Tree_node [''fs'']) = Some (fatfs_ops demo_api)"
  by (simp add: ops_of_def demo_fat_def node_find_sibling_def)

lemma demo_fat_drivers: "ops_of (demo_fat n p u) r = Some f \<Longrightarrow> fat_driver demo_api f"
proof (cases r)
  case (Tree_node a)
  assume *: "ops_of (demo_fat n p u) r = Some f"
  have none: "node_at (Node nm fo []) (b # bs) = None" for nm :: string and fo :: "(u8 list, unit) fat_world file_operations option" and b bs
    by (simp add: node_find_sibling_def)
  show ?thesis
  proof (cases a)
    case Nil
    then show ?thesis
      using * Tree_node by (simp add: ops_of_def demo_fat_def fat_driver_def)
  next
    case (Cons b bs)
    then show ?thesis
      using * Tree_node none by (cases bs) (auto simp: ops_of_def demo_fat_def fat_driver_def node_find_sibling_def split: if_splits)
  qed
next
  case Null_node
  then show "ops_of (demo_fat n p u) r = Some f \<Longrightarrow> fat_driver demo_api f"
    by (simp add: ops_of_def fat_driver_def)
qed

lemma demo_fat_wf: "vfs_wf (demo_fat n p u)"
proof -
  have "fl_node (vf_files (demo_fat n p u) ! i) = Tree_node [''fs'']" if "i < MAX_FILES" for i
    using that by (simp add: demo_fat_def MAX_FILES_def)
  then show ?thesis
    by (auto simp: vfs_wf_def) (simp_all add: demo_fat_def MAX_FILES_def)
qed

lemma demo_fat_find: "fst (node_find (vf_root (demo_fat n p u)) (Some ''/fs/a'') NODE_MODE_NEAREST_PATH) = Some [''fs'']"
  unfolding demo_fat_def vfs.simps by code_simp

text \<open>C16: On a table whose nodes are the FatFs driver or the null device, whatever the library
  answers, no sequence of descriptor calls hands the library a dangling file object or indexes the driver's table of objects
  outside its bounds, and every descriptor that is open on a file of the driver has a file object of that table for itself:
  no other slot points at it.\<close>

theorem fat_calls_safe:
  fixes api :: "('h, 'p, 'd) fatfs_api"
  assumes "vfs_wf s" and "\<forall>r f. ops_of s r = Some f \<longrightarrow> fat_driver api f" and "\<forall>i < MAX_FILES. \<not> vf_used s ! i"
    and "fat_inv (vf_world s)"
  shows "\<exists>s'. fd_calls cs s = Some s' \<and> vfs_wf s' \<and> \<not> fw_ub (vf_world s') \<and> fat_inv (vf_world s') \<and>
     (\<forall>i < MAX_FILES. vf_used s' ! i \<longrightarrow> ops_of s' (fl_node (vf_files s' ! i)) = Some (fatfs_ops api) \<longrightarrow>
        (\<exists>k < length (fw_files (vf_world s')). fw_priv (vf_world s') ! i = Fil k \<and>
           (\<forall>j < MAX_FILES. j \<noteq> i \<longrightarrow> fw_priv (vf_world s') ! j \<noteq> Fil k)))"
proof -
  have "fat.driven TYPE('p) api s"
    using assms by (simp add: fat.driven_def)
  then obtain s' where s': "fd_calls cs s = Some s'" "fat.driven TYPE('p) api s'"
    using fat.fd_calls_driven [of api s cs] by blast
  have inv: "vfs_wf s'" "fat_inv (vf_world s')"
    using s'(2) by (simp_all add: fat.driven_def)
  have "\<exists>k < length (fw_files (vf_world s')). fw_priv (vf_world s') ! i = Fil k \<and>
      (\<forall>j < MAX_FILES. j \<noteq> i \<longrightarrow> fw_priv (vf_world s') ! j \<noteq> Fil k)"
    if i: "i < MAX_FILES" "vf_used s' ! i" "ops_of s' (fl_node (vf_files s' ! i)) = Some (fatfs_ops api)" for i
  proof -
    obtain k where "k < fw_index (vf_world s')" "fw_priv (vf_world s') ! i = Fil k"
      using s'(2) i by (auto simp: fat.driven_def fat_ready_def)
    then show ?thesis
      using inv(2) i(1) own_objectsD [of "fw_priv (vf_world s')" "fw_index (vf_world s')" i k] by (auto simp: fat_inv_def FATFS_MAX_FILES_def)
  qed
  then show ?thesis
    using s'(1) inv by (auto simp: fat_inv_def)
qed

theorem fat_calls_safe_witness:
  "\<exists>s'. fd_calls [Open ''/fs/a'' O_RDWR, Write 0 [1, 2], Close 0, Read 0 3] (demo_fat 0 Null_fil False) = Some s' \<and>
     vfs_wf s' \<and> fat_inv (vf_world s')"
proof -
  have "\<forall>r f. ops_of (demo_fat 0 Null_fil False) r = Some f \<longrightarrow> fat_driver demo_api f"
    using demo_fat_drivers by blast
  moreover have "\<forall>i < MAX_FILES. \<not> vf_used (demo_fat 0 Null_fil False) ! i"
    by (simp add: demo_fat_def MAX_FILES_def nth_Cons split: nat.split)
  moreover have "fat_inv (vf_world (demo_fat 0 Null_fil False))"
    by (simp add: fat_inv_def demo_fat_def MAX_FILES_def FATFS_MAX_FILES_def own_objects_none)
  ultimately show ?thesis
    using fat_calls_safe [OF demo_fat_wf] by blast
qed

text \<open>With a full table every open of a path under the driver fails before the library is called.\<close>

lemma open_full_fails:
  assumes "vfs_wf s" and "fw_index (vf_world s) = FATFS_MAX_FILES - 1"
    and "fst (node_find (vf_root s) (Some path) NODE_MODE_NEAREST_PATH) = Some a" and "ops_of s (Tree_node a) = Some (fatfs_ops api)"
  shows "\<exists>s'. vfs_open (Some path) flags s = Some (- 1, s') \<and> fw_disk (vf_world s') = fw_disk (vf_world s)"
  using assms(1)
proof (cases rule: vfs_open_cases [where path = path and flags = flags])
  case (fail e)
  then show ?thesis
    by simp
next
  case (run i a' ops op rel rv fl w e)
  then have "ops = fatfs_ops api"
    using assms(3,4) by simp
  then have "rv = - 1 \<and> w = vf_world s"
    using run(6,7) assms(2) by (auto simp: fatfs_open_def)
  then show ?thesis
    using run(8) by simp
qed

text \<open>File objects are never given back: once 31 files have been opened through the
  driver, no further sequence of calls, closes included, makes any open of a path under it succeed again.\<close>

theorem fat_handles_exhausted:
  fixes api :: "('h, 'p, 'd) fatfs_api"
  assumes "vfs_wf s" and "\<forall>r f. ops_of s r = Some f \<longrightarrow> fat_driver api f" and "\<forall>i < MAX_FILES. \<not> vf_used s ! i"
    and "fat_inv (vf_world s)" and "fw_index (vf_world s) = 31"
  shows "\<exists>s'. fd_calls cs s = Some s' \<and>
     (\<forall>path flags a. fst (node_find (vf_root s') (Some path) NODE_MODE_NEAREST_PATH) = Some a \<longrightarrow>
        ops_of s' (Tree_node a) = Some (fatfs_ops api) \<longrightarrow>
        (\<exists>s''. vfs_open (Some path) flags s' = Some (- 1, s'') \<and> fw_disk (vf_world s'') = fw_disk (vf_world s')))"
proof -
  have "fat_full.driven TYPE('p) api s"
    using assms by (simp add: fat_full.driven_def fat_full_def FATFS_MAX_FILES_def)
  then obtain s' where "fd_calls cs s = Some s'" and "fat_full.driven TYPE('p) api s'"
    using fat_full.fd_calls_driven by blast
  then show ?thesis
    using open_full_fails by (fastforce simp: fat_full.driven_def fat_full_def)
qed

theorem fat_handles_exhausted_witness:
  "\<exists>s'. fd_calls [Close 0] (demo_fat 31 Null_fil False) = Some s' \<and>
     (\<forall>path flags a. fst (node_find (vf_root s') (Some path) NODE_MODE_NEAREST_PATH) = Some a \<longrightarrow>
        ops_of s' (Tree_node a) = Some (fatfs_ops demo_api) \<longrightarrow>
        (\<exists>s''. vfs_open (Some path) flags s' = Some (- 1, s'') \<and> fw_disk (vf_world s'') = fw_disk (vf_world s')))"
proof (rule fat_handles_exhausted [OF demo_fat_wf])
  show "\<forall>r f. ops_of (demo_fat 31 Null_fil False) r = Some f \<longrightarrow> fat_driver demo_api f"
    using demo_fat_drivers by blast
  show "\<forall>i < MAX_FILES. \<not> vf_used (demo_fat 31 Null_fil False) ! i"
    by (simp add: demo_fat_def MAX_FILES_def nth_Cons split: nat.split)
  show "fat_inv (vf_world (demo_fat 31 Null_fil False))"
    by (simp add: fat_inv_def demo_fat_def MAX_FILES_def FATFS_MAX_FILES_def own_objects_none)
  show "fw_index (vf_world (demo_fat 31 Null_fil False)) = 31"
    by (simp add: demo_fat_def)
qed

text \<open>C17: A write through the whole stack returns the number of bytes exactly when the library
  stores all of them, and -1 otherwise; the errno is the one of the library's result, so it stays
  0 for a short write (a full volume). The object and the volume are the ones the library leaves.\<close>

theorem fat_write_all_or_error:
  assumes "vfs_wf s" and "i < MAX_FILES" and "vf_used s ! i"
    and "ops_of s (fl_node (vf_files s ! i)) = Some (fatfs_ops api)"
    and "fw_priv (vf_world s) ! i = Fil k" and "k < length (fw_files (vf_world s))"
    and "f_write api (fw_files (vf_world s) ! k) buf (fw_disk (vf_world s)) = (res, n, h, d)" and "length buf < 2 ^ 31"
  shows "\<exists>s'. vfs_write (int i) buf s = Some (if res = FR_OK \<and> unat n = length buf then int (length buf) else - 1, s') \<and>
     vf_errno s' = fatfs_to_errno res \<and> fw_files (vf_world s') ! k = h \<and> fw_disk (vf_world s') = d"
proof -
  have n: "n = word_of_nat (length buf) \<longleftrightarrow> unat n = length buf"
  proof -
    have "unat (word_of_nat (length buf) :: u32) = length buf"
      using assms(8) by (intro unat_word_of_nat_less) simp
    then show ?thesis
      by (metis word_eq_by_unat)
  qed
  have s: "sint n = int (length buf)" if "unat n = length buf"
    using that assms(8) sint_of_small by metis
  have "vfs_write (int i) buf s = Some (after_op i (fatfs_write api buf i (flags_of s i) (vf_world s) EOK) (s \<lparr> vf_errno := EOK \<rparr>))"
    by (simp add: vfs_write_def on_fd_run [OF fd_usedI [OF assms(1-3)] assms(4)] flags_of_def)
  then show ?thesis
    using assms(5-7) n s by (auto simp: fatfs_write_def with_fil_def stream_to_fatfs_def after_op_def mem_simps)
qed

theorem fat_write_all_or_error_witness:
  "\<exists>s'. vfs_write 0 [1, 2] (demo_fat 1 (Fil 0) True) = Some (2, s') \<and> vf_errno s' = EOK \<and> fw_files (vf_world s') ! 0 = [1, 2]"
proof -
  have "ops_of (demo_fat 1 (Fil 0) True) (fl_node (vf_files (demo_fat 1 (Fil 0) True) ! 0)) = Some (fatfs_ops demo_api)"
    using demo_fat_ops [of 1 "Fil 0" True] by (simp add: demo_fat_def)
  then show ?thesis
    using fat_write_all_or_error [OF demo_fat_wf, of 0 1 "Fil 0" True demo_api 0 "[1, 2]" FR_OK 2 "[1, 2]" "()"]
    by (simp add: MAX_FILES_def demo_fat_def demo_api_def)
qed

text \<open>Seeking relative to the current position is seeking to an absolute position, and
  seeking relative to the end goes to the end whatever the offset.\<close>

theorem fat_lseek_whence:
  "fatfs_lseek api offset FATFS_SEEK_CUR = fatfs_lseek api offset FATFS_SEEK_SET \<and>
   fatfs_lseek api offset FATFS_SEEK_END = fatfs_lseek api 0 FATFS_SEEK_END"
  by (simp add: fatfs_lseek_def FATFS_SEEK_SET_def FATFS_SEEK_CUR_def FATFS_SEEK_END_def fun_eq_iff)

text \<open>Append mode cannot append: when the library refuses to create a file that exists, a
  stream opened with mode "a" on an existing file is NULL, and the errno that is left is not the
  refusal but EBADF, which the check of the returned descriptor stores over it.\<close>

theorem fopen_append_existing_fails:
  assumes "vfs_wf s" and "fst (node_find (vf_root s) (Some path) NODE_MODE_NEAREST_PATH) = Some a"
    and "ops_of s (Tree_node a) = Some (fatfs_ops api)"
    and "\<forall>rel mode. mode AND 4 \<noteq> 0 \<longrightarrow> fst (f_open api (fil0 api) rel mode (fw_disk (vf_world s))) = FR_EXIST"
  shows "\<exists>s'. vfs_fopen path ''a'' s = Some (None, s') \<and> vf_errno s' = EBADF"
proof -
  let ?fl = "O_WRONLY OR O_CREAT OR O_APPEND"
  have fl: "fopen_flags ''a'' = Some ?fl"
    by (simp add: fopen_flags_def)
  have m: "ucast (fatfs_modes ?fl AND 0xFF) = (6 :: u8)"
    by (simp add: fatfs_modes_def O_WRONLY_def O_CREAT_def O_APPEND_def O_RDWR_def O_RDONLY_def O_TRUNC_def FA_WRITE_def
        FA_CREATE_NEW_def)
  have "vfs_wf (s \<lparr> vf_errno := EOK \<rparr>)"
    using assms(1) by simp
  then have "\<exists>s'. vfs_open (Some path) ?fl (s \<lparr> vf_errno := EOK \<rparr>) = Some (- 1, s')"
  proof (cases rule: vfs_open_cases [where path = path and flags = ?fl])
    case (fail e)
    then show ?thesis
      by simp
  next
    case (run i a' ops op rel rv f w e)
    have "fst (f_open api (fil0 api) rel 6 (fw_disk (vf_world s))) = FR_EXIST"
      using assms(4) by simp
    then obtain h d where "f_open api (fil0 api) rel 6 (fw_disk (vf_world s)) = (FR_EXIST, h, d)"
      by (cases "f_open api (fil0 api) rel 6 (fw_disk (vf_world s))") auto
    then have "rv = - 1"
      using run(4-7) assms(2,3) m by (auto simp: fatfs_open_def Let_def split: if_splits)
    then show ?thesis
      using run(8) by simp
  qed
  then obtain s' where "vfs_open (Some path) ?fl (s \<lparr> vf_errno := EOK \<rparr>) = Some (- 1, s')"
    by blast
  then show ?thesis
    using fl by (simp add: vfs_fopen_def fd_check_def)
qed

theorem fopen_append_existing_fails_witness:
  "\<exists>s'. vfs_fopen ''/fs/a'' ''a'' (demo_fat 0 Null_fil False) = Some (None, s') \<and> vf_errno s' = EBADF"
  by (rule fopen_append_existing_fails [OF demo_fat_wf demo_fat_find demo_fat_ops]) (simp add: demo_api_def)

end
