(* ===== verification/Cli.thy ===== *)
theory Cli
  imports Prelude
begin

text \<open>
  The command line service, os/freertos/services/cli: the registry of commands and the
  execution of a command line (node.c), the built-in commands (cmd.c) and the line editor
  with its history (service.c). A command line in the registry part is a C string without
  its final zero; the editor works on the byte arrays themselves. An access outside an
  array is None. The handlers are functions on a world of type 'w.
\<close>

section \<open>Registry (node.c)\<close>

definition CLI_MAX_ARGS :: nat where "CLI_MAX_ARGS = 10"
definition CLI_MAX_NAME_LENGTH :: nat where "CLI_MAX_NAME_LENGTH = 64"

datatype token_mode = CLI_GET_TOKEN_DEFAULT | CLI_GET_TOKEN_REPLACE_SPACE

type_synonym 'w handler = "string list \<Rightarrow> 'w \<Rightarrow> int \<times> errno \<times> 'w"

text \<open>The siblings of the root node, in the order of their registration. The root itself
  has the empty name and no handler.\<close>

record 'w cli_node =
  cn_name :: string
  cn_handler :: "'w handler option"

definition cli_root_node :: "'w cli_node" where
  "cli_root_node = \<lparr> cn_name = [], cn_handler = None \<rparr>"

definition is_space :: "char \<Rightarrow> bool" where
  "is_space c \<longleftrightarrow> c = CHR '' ''"

text \<open>\<open>cli_cmd_get_token\<close> on the string at the parse context: the token if there is one, its
  length and the new context. In the replacing mode the space after the token becomes
  a zero and is skipped, so it counts as part of the length. The token is the C string that a
  pointer to it denotes after that. Without a space the end is searched for in 64 characters only.\<close>

definition cli_cmd_get_token :: "token_mode \<Rightarrow> string \<Rightarrow> string option \<times> nat \<times> string" where
  "cli_cmd_get_token mode ctx =
     (let token_start = dropWhile is_space ctx;
          token = takeWhile (\<lambda>c. \<not> is_space c) token_start;
          token_end = dropWhile (\<lambda>c. \<not> is_space c) token_start;
          (len, context) =
            (if token_end = [] then (min (length token_start) CLI_MAX_NAME_LENGTH, drop CLI_MAX_NAME_LENGTH token_start)
             else if mode = CLI_GET_TOKEN_REPLACE_SPACE then (Suc (length token), tl token_end)
             else (length token, token_end))
      in (if len = 0 then None else Some token, len, context))"

text \<open>\<open>node_find_sibling\<close> compares the first \<open>len\<close> characters of \<open>s\<close>.\<close>

definition cli_find_sibling :: "'w cli_node list \<Rightarrow> string \<Rightarrow> nat \<Rightarrow> 'w cli_node option" where
  "cli_find_sibling ns s len = List.find (\<lambda>n. length (cn_name n) = len \<and> cn_name n = take len s) ns"

text \<open>The length is the one of the first token, but the characters are those at the start of the
  line.\<close>

definition cli_cmd_find :: "'w cli_node list \<Rightarrow> string option \<Rightarrow> 'w cli_node option \<times> errno" where
  "cli_cmd_find reg cmd_name =
     (case cmd_name of
        None \<Rightarrow> (None, EINVAL)
      | Some s \<Rightarrow>
          (case cli_find_sibling (cli_root_node # reg) s (fst (snd (cli_cmd_get_token CLI_GET_TOKEN_DEFAULT s))) of
             None \<Rightarrow> (None, ENOENT)
           | Some n \<Rightarrow> (Some n, EOK)))"

definition cli_cmd_check_name :: "string \<Rightarrow> bool" where
  "cli_cmd_check_name nm \<longleftrightarrow> \<not> (\<exists>c \<in> set (take CLI_MAX_NAME_LENGTH nm). is_space c)"

text \<open>A node for a name of 64 characters or more has no final zero in its array: None.\<close>

definition cli_node_create :: "string \<Rightarrow> 'w cli_node option" where
  "cli_node_create nm = (if length nm < CLI_MAX_NAME_LENGTH then Some \<lparr> cn_name = nm, cn_handler = None \<rparr> else None)"

text \<open>\<open>alloc\<close> tells whether the allocation of the node succeeds. The result is the registry, whether a
  node is returned, and the errno.\<close>

definition cli_cmd_reg ::
    "bool \<Rightarrow> string option \<Rightarrow> 'w handler option \<Rightarrow> 'w cli_node list \<Rightarrow> ('w cli_node list \<times> bool \<times> errno) option" where
  "cli_cmd_reg alloc cmd_name handler reg =
     (case (cmd_name, handler) of
        (Some nm, Some h) \<Rightarrow>
          (if \<not> cli_cmd_check_name nm then Some (reg, False, EINVAL)
           else if fst (cli_cmd_find reg (Some nm)) \<noteq> None then Some (reg, False, EEXIST)
           else if \<not> alloc then Some (reg, False, ENOMEM)
           else (case cli_node_create nm of None \<Rightarrow> None
             | Some n \<Rightarrow> Some (reg @ [n \<lparr> cn_handler := Some h \<rparr>], True, EOK)))
      | _ \<Rightarrow> Some (reg, False, EINVAL))"

lemma get_token_less:
  assumes "cli_cmd_get_token CLI_GET_TOKEN_REPLACE_SPACE ctx = (Some tok, len, rest)"
  shows "length rest < length ctx"
proof -
  let ?t = "dropWhile is_space ctx"
  let ?e = "dropWhile (\<lambda>c. \<not> is_space c) ?t"
  have t: "length ?t \<le> length ctx" and e: "length ?e \<le> length ?t"
    by (rule length_dropWhile_le)+
  show ?thesis
  proof (cases "?e = []")
    case True
    then have "rest = drop CLI_MAX_NAME_LENGTH ?t" and "?t \<noteq> []"
      using assms by (auto simp: cli_cmd_get_token_def Let_def split: if_splits)
    then have "length rest < length ?t"
      by (cases ?t) (auto simp: CLI_MAX_NAME_LENGTH_def)
    then show ?thesis
      using t by linarith
  next
    case False
    then have "rest = tl ?e"
      using assms by (auto simp: cli_cmd_get_token_def Let_def simp del: dropWhile_eq_Nil_conv split: if_splits)
    moreover have "length (tl ?e) < length ?e"
      using False by simp
    ultimately have "length rest < length ?e"
      by simp
    then show ?thesis
      using t e by linarith
  qed
qed

text \<open>The loop that collects the arguments.\<close>

function cli_argv :: "string \<Rightarrow> string list" where
  "cli_argv ctx =
     (case cli_cmd_get_token CLI_GET_TOKEN_REPLACE_SPACE ctx of
        (None, _, _) \<Rightarrow> []
      | (Some tok, _, rest) \<Rightarrow> tok # cli_argv rest)"
  by pat_completeness auto

termination
  by (relation "measure length") (auto dest: get_token_less [OF sym])

declare cli_argv.simps [simp del]

text \<open>\<open>cli_cmd_execute\<close>. The argument after the last one is stored as well, a null pointer, so ten
  arguments overrun the array of ten.\<close>

definition cli_cmd_execute :: "'w cli_node list \<Rightarrow> string option \<Rightarrow> 'w \<Rightarrow> (int \<times> errno \<times> 'w) option" where
  "cli_cmd_execute reg cmd w =
     (case cmd of
        None \<Rightarrow> Some (- 1, EINVAL, w)
      | Some s \<Rightarrow>
          if s = [] then Some (- 1, EAGAIN, w)
          else (case fst (cli_cmd_find reg cmd) of
                  None \<Rightarrow> Some (- 1, ENOENT, w)
                | Some n \<Rightarrow>
                    (case cn_handler n of
                       None \<Rightarrow> Some (- 1, ESRCH, w)
                     | Some h \<Rightarrow> if length (cli_argv s) \<ge> CLI_MAX_ARGS then None else Some (h (cli_argv s) w))))"

definition cli_cmd_print :: "'w cli_node list \<Rightarrow> string" where
  "cli_cmd_print reg = ''Available commands:'' @ [CHR 0x0A] @ concat (map (\<lambda>n. [CHR 0x09] @ cn_name n @ [CHR 0x0A]) reg)"

section \<open>Registry: lemmas\<close>

text \<open>A word is a possible argument, a line is a sequence of words with a space between
  two of them.\<close>

definition cli_word :: "string \<Rightarrow> bool" where
  "cli_word w \<longleftrightarrow> w \<noteq> [] \<and> length w \<le> CLI_MAX_NAME_LENGTH \<and> (\<forall>c \<in> set w. \<not> is_space c)"

fun cli_line :: "string list \<Rightarrow> string" where
  "cli_line [] = []"
| "cli_line [w] = w"
| "cli_line (w # v # ws) = w @ CHR '' '' # cli_line (v # ws)"

lemma word_start: "cli_word w \<Longrightarrow> dropWhile is_space (w @ s) = w @ s"
  by (cases w) (auto simp: cli_word_def)

lemma word_token: "cli_word w \<Longrightarrow> takeWhile (\<lambda>c. \<not> is_space c) (w @ CHR '' '' # s) = w"
  by (simp add: cli_word_def is_space_def)

lemma word_rest: "cli_word w \<Longrightarrow> dropWhile (\<lambda>c. \<not> is_space c) (w @ CHR '' '' # s) = CHR '' '' # s"
  by (simp add: cli_word_def is_space_def)

lemma get_token_word_space:
  "cli_word w \<Longrightarrow> cli_cmd_get_token mode (w @ CHR '' '' # s) =
     (Some w, if mode = CLI_GET_TOKEN_REPLACE_SPACE then Suc (length w) else length w,
      if mode = CLI_GET_TOKEN_REPLACE_SPACE then s else CHR '' '' # s)"
  by (simp add: cli_cmd_get_token_def Let_def word_start word_token word_rest) (simp add: cli_word_def is_space_def)

lemma get_token_word:
  "cli_word w \<Longrightarrow> cli_cmd_get_token mode w = (Some w, length w, [])"
  using word_start [of w "[]"]
  by (simp add: cli_cmd_get_token_def Let_def cli_word_def)

lemma get_token_empty: "cli_cmd_get_token mode [] = (None, 0, [])"
  by (simp add: cli_cmd_get_token_def)

lemma cli_argv_line: "\<forall>w \<in> set ws. cli_word w \<Longrightarrow> cli_argv (cli_line ws) = ws"
proof (induction ws rule: cli_line.induct)
  case 1
  show ?case
    by (subst cli_argv.simps) (simp add: get_token_empty)
next
  case (2 w)
  have "cli_argv [] = []"
    by (subst cli_argv.simps) (simp add: get_token_empty)
  then show ?case
    using 2 by (subst cli_argv.simps) (simp add: get_token_word)
next
  case (3 w v ws)
  then show ?case
    by (subst cli_argv.simps) (simp add: get_token_word_space)
qed

lemma line_token_length:
  "cli_word w \<Longrightarrow> fst (snd (cli_cmd_get_token CLI_GET_TOKEN_DEFAULT (cli_line (w # ws)))) = length w"
  by (cases ws) (simp_all add: get_token_word get_token_word_space)

lemma line_take: "take (length w) (cli_line (w # ws)) = w"
  by (cases ws) simp_all

lemma line_not_empty: "cli_word w \<Longrightarrow> cli_line (w # ws) \<noteq> []"
  by (cases ws) (auto simp: cli_word_def)

text \<open>Finding the command of a line is finding its first word.\<close>

lemma find_line:
  assumes "cli_word w"
  shows "fst (cli_cmd_find reg (Some (cli_line (w # ws)))) = List.find (\<lambda>n. cn_name n = w) reg"
proof -
  have "List.find (\<lambda>n. length (cn_name n) = length w \<and> cn_name n = w) reg = List.find (\<lambda>n. cn_name n = w) reg"
    by (rule arg_cong [where f = "\<lambda>p. List.find p reg"]) auto
  then show ?thesis
    using assms by (auto simp: cli_cmd_find_def cli_find_sibling_def line_token_length line_take cli_root_node_def
        cli_word_def split: option.split)
qed

definition cli_reg_wf :: "'w cli_node list \<Rightarrow> bool" where
  "cli_reg_wf reg \<longleftrightarrow> distinct (map cn_name reg) \<and>
     (\<forall>n \<in> set reg. cli_word (cn_name n) \<and> length (cn_name n) < CLI_MAX_NAME_LENGTH \<and> cn_handler n \<noteq> None)"

lemma find_by_name:
  assumes "cli_reg_wf reg" and "n \<in> set reg"
  shows "List.find (\<lambda>m. cn_name m = cn_name n) reg = Some n"
proof -
  have "List.find (\<lambda>m. cn_name m = cn_name n) reg = Some n"
    if "distinct (map cn_name reg)" and "n \<in> set reg" for reg :: "'a cli_node list" and n
    using that by (induction reg) (auto simp: image_iff)
  then show ?thesis
    using assms by (simp add: cli_reg_wf_def)
qed

section \<open>Registry: properties\<close>

text \<open>Registering a command keeps the registry well formed (distinct names, each a word
  that fits its array, each with a handler); it adds the command at the end when the name is a new
  one without spaces and the allocation succeeds, and otherwise changes nothing and sets the errno that tells why.\<close>

theorem cli_reg_effect:
  assumes "cli_reg_wf reg" and "length nm < CLI_MAX_NAME_LENGTH"
  shows "\<exists>reg' ok e. cli_cmd_reg alloc (Some nm) (Some h) reg = Some (reg', ok, e) \<and> cli_reg_wf reg' \<and>
     (ok \<longleftrightarrow> cli_word nm \<and> nm \<notin> cn_name ` set reg \<and> alloc) \<and>
     reg' = (if ok then reg @ [\<lparr> cn_name = nm, cn_handler = Some h \<rparr>] else reg) \<and>
     e = (if ok then EOK else if \<exists>c \<in> set nm. is_space c then EINVAL
          else if nm = [] \<or> nm \<in> cn_name ` set reg then EEXIST else ENOMEM)"
proof (cases "\<exists>c \<in> set nm. is_space c")
  case True
  then show ?thesis
    using assms by (auto simp: cli_cmd_reg_def cli_cmd_check_name_def cli_word_def)
next
  case False
  then have chk: "cli_cmd_check_name nm"
    using assms(2) by (simp add: cli_cmd_check_name_def)
  show ?thesis
  proof (cases "nm = []")
    case True
    then have "fst (cli_cmd_find reg (Some nm)) \<noteq> None"
      by (simp add: cli_cmd_find_def get_token_empty cli_find_sibling_def cli_root_node_def)
    then show ?thesis
      using True chk assms(1) by (auto simp: cli_cmd_reg_def cli_word_def)
  next
    case nonempty: False
    then have w: "cli_word nm"
      using False assms(2) by (simp add: cli_word_def)
    have f: "fst (cli_cmd_find reg (Some nm)) = List.find (\<lambda>n. cn_name n = nm) reg"
      using find_line [OF w, of reg "[]"] by simp
    show ?thesis
    proof (cases "nm \<in> cn_name ` set reg")
      case True
      then have "List.find (\<lambda>n. cn_name n = nm) reg \<noteq> None"
        by (auto simp: find_None_iff)
      then show ?thesis
        using f chk False True assms(1) by (auto simp: cli_cmd_reg_def)
    next
      case fresh: False
      then have "List.find (\<lambda>n. cn_name n = nm) reg = None"
        by (auto simp: find_None_iff)
      then show ?thesis
        using f chk False fresh nonempty assms w
        by (cases alloc) (auto simp: cli_cmd_reg_def cli_node_create_def cli_reg_wf_def)
    qed
  qed
qed


text \<open>A registry with one command, whose handler returns the number of its arguments.\<close>

definition demo_reg :: "unit cli_node list" where
  "demo_reg = [\<lparr> cn_name = ''echo'', cn_handler = Some (\<lambda>argv w. (int (length argv), EOK, w)) \<rparr>]"

lemma demo_reg_wf: "cli_reg_wf demo_reg"
  by (simp add: demo_reg_def cli_reg_wf_def cli_word_def CLI_MAX_NAME_LENGTH_def is_space_def)

theorem cli_reg_effect_witness:
  "cli_cmd_reg True (Some ''ls'') (Some (\<lambda>argv w. (0, EOK, w))) demo_reg \<noteq> None"
  using cli_reg_effect [OF demo_reg_wf, of "''ls''" True] by (auto simp add: CLI_MAX_NAME_LENGTH_def)


end
