(* ===== verification/CliEditor.thy ===== *)
theory CliEditor
  imports Cli
begin

text \<open>
  The line editor of the command line service, os/freertos/services/cli/service.c, and the
  system command and the registration of the built-in commands of cmd.c. Bytes are
  unsigned, as char is on the target. The buffers are arrays of bytes; None is an access outside one.
\<close>

section \<open>C strings in arrays\<close>

definition c_str :: "u8 list \<Rightarrow> u8 list" where
  "c_str a = takeWhile (\<lambda>b. b \<noteq> 0) a"

definition strlen :: "u8 list \<Rightarrow> nat option" where
  "strlen a = (if 0 \<in> set a then Some (length (c_str a)) else None)"

text \<open>Whether \<open>strncmp\<close> returns 0.\<close>

fun strncmp_eq :: "u8 list \<Rightarrow> u8 list \<Rightarrow> nat \<Rightarrow> bool option" where
  "strncmp_eq _ _ 0 = Some True"
| "strncmp_eq (x # xs) (y # ys) (Suc n) =
     (if x \<noteq> y then Some False else if x = 0 then Some True else strncmp_eq xs ys n)"
| "strncmp_eq _ _ (Suc n) = None"

definition strncpy :: "u8 list \<Rightarrow> u8 list \<Rightarrow> nat \<Rightarrow> u8 list option" where
  "strncpy dst src n =
     (if length dst < n \<or> (length src < n \<and> 0 \<notin> set src) then None
      else Some (take n (c_str src @ replicate n 0) @ drop n dst))"

section \<open>The editor\<close>

definition nl :: "u8 list" where "nl = [0x0D, 0x0A]"
definition inv_prompt :: "u8 list" where "inv_prompt = [0x23, 0x20]"

definition key_delete :: "u8 list" where "key_delete = [0x1B, 0x5B, 0x33, 0x7E, 0]"
definition key_up :: "u8 list" where "key_up = [0x1B, 0x5B, 0x41, 0]"
definition key_up_tail :: "u8 list" where "key_up_tail = [0x5B, 0x41, 0]"
definition key_down :: "u8 list" where "key_down = [0x1B, 0x5B, 0x42, 0]"
definition key_down_tail :: "u8 list" where "key_down_tail = [0x5B, 0x42, 0]"

record cli_service =
  cs_buf_size :: nat
  cs_rbuf :: "u8 list"
  cs_wbuf :: "u8 list"
  cs_cmd :: "u8 list"
  cs_cmd_prev :: "u8 list list"
  cs_rlen :: nat
  cs_wlen :: nat
  cs_cmd_len :: nat
  cs_history_size :: nat
  cs_history_pos :: nat

text \<open>What the other side sees: bytes written to the terminal, and the wake-up of the thread that
  executes the command.\<close>

datatype cli_out = Wr "u8 list" | Wake

fun history_shift :: "nat \<Rightarrow> nat \<Rightarrow> u8 list list \<Rightarrow> u8 list list option" where
  "history_shift n 0 prev = Some prev"
| "history_shift n (Suc i) prev =
     (if Suc i < 2 then Some prev
      else do {
        src \<leftarrow> arr_get prev i;
        dst \<leftarrow> arr_get prev (Suc i);
        d \<leftarrow> strncpy dst src n;
        history_shift n i (prev[Suc i := d])
      })"

definition cli_add_to_history :: "cli_service \<Rightarrow> cli_service option" where
  "cli_add_to_history s = do {
     p1 \<leftarrow> arr_get (cs_cmd_prev s) 1;
     same \<leftarrow> strncmp_eq p1 (cs_cmd s) (cs_buf_size s - 1);
     if same then Some s
     else do {
       prev \<leftarrow> history_shift (cs_buf_size s - 1) (cs_history_size s) (cs_cmd_prev s);
       p1 \<leftarrow> arr_get prev 1;
       d \<leftarrow> strncpy p1 (cs_cmd s) (cs_buf_size s - 1);
       Some (s \<lparr> cs_cmd_prev := prev[1 := d] \<rparr>)
     }
   }"

definition cli_get_last_command :: "cli_service \<Rightarrow> u8 list option" where
  "cli_get_last_command s = arr_get (cs_cmd_prev s) (cs_history_pos s)"

definition put_wbuf :: "u8 \<Rightarrow> cli_service \<Rightarrow> cli_service option" where
  "put_wbuf b s = do {
     wb \<leftarrow> arr_set (cs_wbuf s) (cs_wlen s) b;
     Some (s \<lparr> cs_wbuf := wb, cs_wlen := Suc (cs_wlen s) \<rparr>)
   }"

text \<open>The cases of the loop body for the byte at \<open>i\<close>. The flag is False when the loop is left.\<close>

definition echo_enter :: "cli_service \<Rightarrow> (bool \<times> cli_service \<times> cli_out list) option" where
  "echo_enter s = do {
     c \<leftarrow> arr_set (cs_cmd s) (cs_cmd_len s) 0;
     s \<leftarrow> (if cs_cmd_len s \<noteq> 0 then cli_add_to_history (s \<lparr> cs_cmd := c \<rparr>) else Some (s \<lparr> cs_cmd := c \<rparr>));
     Some (True, s \<lparr> cs_cmd_len := 0, cs_history_pos := 0 \<rparr>, [Wake])
   }"

definition echo_erase :: "cli_service \<Rightarrow> (bool \<times> cli_service \<times> cli_out list) option" where
  "echo_erase s =
     (if cs_cmd_len s = 0 then Some (False, s, [])
      else do {
        s \<leftarrow> put_wbuf 0x08 s;
        s \<leftarrow> put_wbuf 0x20 s;
        s \<leftarrow> put_wbuf 0x08 s;
        Some (True, s \<lparr> cs_cmd_len := cs_cmd_len s - 1 \<rparr>, [])
      })"

definition recall :: "u8 list \<Rightarrow> cli_service \<Rightarrow> cli_service option" where
  "recall c s = do {
     wb \<leftarrow> strncpy (cs_wbuf s) c (cs_buf_size s);
     cm \<leftarrow> strncpy (cs_cmd s) c (cs_buf_size s);
     l \<leftarrow> strlen c;
     Some (s \<lparr> cs_wbuf := wb, cs_cmd := cm, cs_wlen := l, cs_cmd_len := l \<rparr>)
   }"

definition wipe :: "cli_service \<Rightarrow> cli_out list" where
  "wipe s = replicate (cs_cmd_len s) (Wr [0x08, 0x20, 0x08])"

definition echo_up :: "cli_service \<Rightarrow> (bool \<times> cli_service \<times> cli_out list) option" where
  "echo_up s =
     (let s = s \<lparr> cs_history_pos := cs_history_pos s + 1 \<rparr>;
          s = (if cs_history_pos s \<ge> cs_history_size s then s \<lparr> cs_history_pos := cs_history_size s - 1 \<rparr> else s)
      in do {
        c \<leftarrow> cli_get_last_command s;
        l \<leftarrow> strlen c;
        if l = 0 then Some (False, s \<lparr> cs_history_pos := cs_history_pos s - 1 \<rparr>, [])
        else do {
          s' \<leftarrow> recall c s;
          Some (False, s', wipe s)
        }
      })"

definition echo_down :: "cli_service \<Rightarrow> (bool \<times> cli_service \<times> cli_out list) option" where
  "echo_down s =
     (let s = s \<lparr> cs_history_pos := cs_history_pos s - 1 \<rparr>
      in do {
        c \<leftarrow> cli_get_last_command s;
        s' \<leftarrow> recall c s;
        Some (False, s', wipe s)
      })"

definition echo_char :: "u8 \<Rightarrow> cli_service \<Rightarrow> (bool \<times> cli_service \<times> cli_out list) option" where
  "echo_char b s = do {
     s \<leftarrow> put_wbuf b s;
     if cs_cmd_len s < cs_buf_size s
     then do {
       c \<leftarrow> arr_set (cs_cmd s) (cs_cmd_len s) b;
       Some (True, s \<lparr> cs_cmd := c, cs_cmd_len := Suc (cs_cmd_len s) \<rparr>, [])
     }
     else Some (True, s, [])
   }"

text \<open>One of the two spellings of an arrow key, compared with the whole of what was read.\<close>

definition is_key :: "u8 list \<Rightarrow> u8 list \<Rightarrow> cli_service \<Rightarrow> bool option" where
  "is_key k1 k2 s = do {
     a \<leftarrow> strncmp_eq (cs_rbuf s) k1 (cs_rlen s);
     if a then Some True else strncmp_eq (cs_rbuf s) k2 (cs_rlen s)
   }"

definition is_erase :: "u8 \<Rightarrow> nat \<Rightarrow> cli_service \<Rightarrow> bool option" where
  "is_erase b i s = (if b = 0x08 \<or> b = 0x7F then Some True else strncmp_eq key_delete (drop i (cs_rbuf s)) 4)"

definition echo_byte :: "nat \<Rightarrow> cli_service \<Rightarrow> (bool \<times> cli_service \<times> cli_out list) option" where
  "echo_byte i s = do {
     b \<leftarrow> arr_get (cs_rbuf s) i;
     if b = 0x0D then echo_enter s
     else do {
       er \<leftarrow> is_erase b i s;
       if er then echo_erase s
       else do {
         up \<leftarrow> is_key key_up key_up_tail s;
         if up then echo_up s
         else do {
           down \<leftarrow> is_key key_down key_down_tail s;
           if down then echo_down s
           else if b < 0x20 \<or> b > 127 then Some (False, s, [])
           else echo_char b s
         }
       }
     }
   }"

text \<open>The loop over the bytes read: from byte \<open>i\<close> on, \<open>n\<close> bytes to go.\<close>

fun echo_loop :: "nat \<Rightarrow> nat \<Rightarrow> cli_service \<Rightarrow> (cli_service \<times> cli_out list) option" where
  "echo_loop i 0 s = Some (s, [])"
| "echo_loop i (Suc n) s = do {
     (go, s, o1) \<leftarrow> echo_byte i s;
     if go then do { (s, o2) \<leftarrow> echo_loop (Suc i) n s; Some (s, o1 @ o2) }
     else Some (s, o1)
   }"

text \<open>One round of \<open>cli_echo\<close>: \<open>bytes\<close> are what \<open>read\<close> returns, at most as many as fit the buffer; a read that
  fails returns -1, a count for which the loop has no pass, and is a round of no bytes.\<close>

definition cli_echo_round :: "u8 list \<Rightarrow> cli_service \<Rightarrow> (cli_service \<times> cli_out list) option" where
  "cli_echo_round bytes s = do {
     rb \<leftarrow> memcpy (cs_rbuf s) 0 bytes 0 (length bytes);
     (s, o1) \<leftarrow> echo_loop 0 (length bytes) (s \<lparr> cs_rbuf := rb, cs_rlen := length bytes, cs_wlen := 0 \<rparr>);
     Some (s, o1 @ [Wr (take (cs_wlen s) (cs_wbuf s))])
   }"

fun cli_echo :: "u8 list list \<Rightarrow> cli_service \<Rightarrow> (cli_service \<times> cli_out list) option" where
  "cli_echo [] s = Some (s, [])"
| "cli_echo (r # rs) s = do {
     (s, o1) \<leftarrow> cli_echo_round r s;
     (s, o2) \<leftarrow> cli_echo rs s;
     Some (s, o1 @ o2)
   }"

section \<open>Start\<close>

text \<open>\<open>init\<close> is the static flag. \<open>alloc k\<close> tells whether the allocation number \<open>k\<close> of the call
  succeeds: the service, the three buffers, the array of lines and the lines. The result is the
  return value, the flag and the service that is running, if any. A line of no bytes has no
  first byte to clear: None.\<close>

definition cli_service_start ::
    "(nat \<Rightarrow> bool) \<Rightarrow> nat \<Rightarrow> nat \<Rightarrow> bool \<Rightarrow> (int \<times> bool \<times> cli_service option) option" where
  "cli_service_start alloc buf_size history_size init =
     (if init then Some (0, init, None)
      else if \<exists>k < 5 + (history_size + 1). \<not> alloc k then Some (- 1, True, None)
      else if buf_size = 0 then None
      else Some (0, True, Some \<lparr> cs_buf_size = buf_size, cs_rbuf = replicate buf_size 0, cs_wbuf = replicate buf_size 0,
             cs_cmd = replicate buf_size 0, cs_cmd_prev = replicate (history_size + 1) (replicate buf_size 0),
             cs_rlen = 0, cs_wlen = 0, cs_cmd_len = 0, cs_history_size = (if history_size < 2 then 2 else history_size),
             cs_history_pos = 0 \<rparr>))"

section \<open>Built-in commands (cmd.c)\<close>

datatype system_action = System_help | Already_running | Run_app | Board_reset

text \<open>\<open>running\<close> is what \<open>board_get_app_status\<close> returns.\<close>

definition system_commander :: "string list \<Rightarrow> bool \<Rightarrow> system_action" where
  "system_commander argv running =
     (if length argv \<noteq> 2 then System_help
      else if argv ! 1 = ''start'' then (if running then Already_running else Run_app)
      else if argv ! 1 = ''reset'' then Board_reset
      else System_help)"

fun reg_all :: "(string \<times> 'w handler) list \<Rightarrow> (nat \<Rightarrow> bool) \<Rightarrow> nat \<Rightarrow> 'w cli_node list \<Rightarrow> (int \<times> 'w cli_node list) option" where
  "reg_all [] alloc k reg = Some (0, reg)"
| "reg_all ((nm, h) # cs) alloc k reg =
     (case cli_cmd_reg (alloc k) (Some nm) (Some h) reg of
        None \<Rightarrow> None
      | Some (reg, ok, e) \<Rightarrow> if \<not> ok then Some (- 1, reg) else reg_all cs alloc (Suc k) reg)"

definition builtin_names :: "string list" where
  "builtin_names = [''cat'', ''help'', ''version'', ''clear'', ''system'', ''ls'', ''cd'', ''pwd'', ''rm'']"

definition cli_cmd_init :: "(string \<Rightarrow> 'w handler) \<Rightarrow> (nat \<Rightarrow> bool) \<Rightarrow> 'w cli_node list \<Rightarrow> (int \<times> 'w cli_node list) option" where
  "cli_cmd_init handlers alloc reg = reg_all (map (\<lambda>nm. (nm, handlers nm)) builtin_names) alloc 0 reg"

section \<open>Invariant of the editor\<close>

lemma c_str_length: "length (c_str a) \<le> length a"
  by (simp add: c_str_def length_takeWhile_le)

lemma strncmp_eq_lengths: "n \<le> length a \<Longrightarrow> n \<le> length b \<Longrightarrow> \<exists>r. strncmp_eq a b n = Some r"
  by (induction a b n rule: strncmp_eq.induct) auto

lemma strncmp_eq_literal: "n \<le> length a \<Longrightarrow> 0 \<in> set b \<Longrightarrow> \<exists>r. strncmp_eq a b n = Some r"
  by (induction a b n rule: strncmp_eq.induct) auto

lemma strncpy_Some:
  assumes "n \<le> length dst" and "n \<le> length src"
  shows "\<exists>d. strncpy dst src n = Some d \<and> length d = length dst \<and> (\<forall>k. n \<le> k \<longrightarrow> k < length dst \<longrightarrow> d ! k = dst ! k)"
proof -
  let ?new = "take n (c_str src @ replicate n 0)"
  have len: "length ?new = n"
    by simp
  have "(?new @ drop n dst) ! k = dst ! k" if "n \<le> k" and "k < length dst" for k
    using that len assms(1) by (simp only: nth_append len) simp
  then show ?thesis
    using assms len by (simp add: strncpy_def)
qed

text \<open>A stored line fills its array and ends with a zero.\<close>

definition line_ok :: "nat \<Rightarrow> u8 list \<Rightarrow> bool" where
  "line_ok n p \<longleftrightarrow> length p = n \<and> 0 < n \<and> p ! (n - 1) = 0"

lemma line_ok_strlen:
  assumes "line_ok n p"
  shows "\<exists>l. strlen p = Some l \<and> l < n"
proof -
  have "p ! (n - 1) \<in> set p"
    using assms by (intro nth_mem) (simp add: line_ok_def)
  then have z: "0 \<in> set p"
    using assms by (simp add: line_ok_def)
  then have "c_str p \<noteq> p"
    by (auto simp: c_str_def takeWhile_eq_all_conv)
  then have "length (c_str p) < length p"
    by (metis c_str_def c_str_length le_neq_implies_less takeWhile_eq_take take_all_iff order_refl)
  then show ?thesis
    using z assms by (simp add: strlen_def line_ok_def)
qed

lemma strncpy_line_ok: "line_ok n dst \<Longrightarrow> length src = n \<Longrightarrow> \<exists>d. strncpy dst src (n - 1) = Some d \<and> line_ok n d"
  using strncpy_Some [of "n - 1" dst src] by (auto simp: line_ok_def)

definition editor_wf :: "cli_service \<Rightarrow> bool" where
  "editor_wf s \<longleftrightarrow> length (cs_rbuf s) = cs_buf_size s \<and> length (cs_wbuf s) = cs_buf_size s \<and>
     length (cs_cmd s) = cs_buf_size s \<and> length (cs_cmd_prev s) = cs_history_size s + 1 \<and> 2 \<le> cs_history_size s \<and>
     (\<forall>p \<in> set (cs_cmd_prev s). line_ok (cs_buf_size s) p) \<and> cs_cmd_len s \<le> cs_buf_size s \<and>
     cs_history_pos s < cs_history_size s \<and> cs_wlen s \<le> cs_buf_size s"

lemma history_shift_ok:
  assumes "\<forall>p \<in> set prev. line_ok n p" and "i < length prev"
  shows "\<exists>prev'. history_shift (n - 1) i prev = Some prev' \<and> length prev' = length prev \<and> (\<forall>p \<in> set prev'. line_ok n p)"
  using assms
proof (induction i arbitrary: prev)
  case (Suc i)
  show ?case
  proof (cases "Suc i < 2")
    case False
    have "line_ok n (prev ! i)" and "line_ok n (prev ! Suc i)"
      using Suc.prems by simp_all
    then obtain d where d: "strncpy (prev ! Suc i) (prev ! i) (n - 1) = Some d" "line_ok n d"
      using strncpy_line_ok by (metis line_ok_def)
    have "\<forall>p \<in> set (prev[Suc i := d]). line_ok n p"
      using Suc.prems(1) d(2) set_update_subset_insert by fast
    then show ?thesis
      using Suc.IH [of "prev[Suc i := d]"] Suc.prems(2) False d(1) by (simp add: arr_get_Some)
  qed (use Suc.prems in simp)
qed simp

lemma add_to_history_ok:
  assumes "editor_wf s"
  shows "\<exists>s'. cli_add_to_history s = Some s' \<and> editor_wf s' \<and> cs_rbuf s' = cs_rbuf s \<and> cs_buf_size s' = cs_buf_size s \<and>
     cs_wlen s' = cs_wlen s \<and> cs_rlen s' = cs_rlen s \<and> cs_cmd s' = cs_cmd s \<and> cs_history_size s' = cs_history_size s"
proof -
  let ?n = "cs_buf_size s"
  have len: "1 < length (cs_cmd_prev s)" "cs_history_size s < length (cs_cmd_prev s)" "length (cs_cmd s) = ?n"
    and all: "\<forall>p \<in> set (cs_cmd_prev s). line_ok ?n p"
    using assms by (auto simp: editor_wf_def)
  have "line_ok ?n (cs_cmd_prev s ! 1)"
    using all len(1) by simp
  then obtain same where same: "strncmp_eq (cs_cmd_prev s ! 1) (cs_cmd s) (?n - 1) = Some same"
    using strncmp_eq_lengths [of "?n - 1" "cs_cmd_prev s ! 1" "cs_cmd s"] len(3) by (auto simp: line_ok_def)
  obtain prev where prev: "history_shift (?n - 1) (cs_history_size s) (cs_cmd_prev s) = Some prev"
    "length prev = length (cs_cmd_prev s)" "\<forall>p \<in> set prev. line_ok ?n p"
    using history_shift_ok [OF all len(2)] by blast
  have "line_ok ?n (prev ! 1)"
    using prev(2,3) len(1) by simp
  then obtain d where d: "strncpy (prev ! 1) (cs_cmd s) (?n - 1) = Some d" "line_ok ?n d"
    using strncpy_line_ok len(3) by blast
  have "\<forall>p \<in> set (prev[1 := d]). line_ok ?n p"
    using prev(3) d(2) set_update_subset_insert by fast
  then show ?thesis
    using assms same prev(1,2) d(1) len(1) by (cases same) (auto simp: cli_add_to_history_def arr_get_Some editor_wf_def)
qed

text \<open>What every case of the loop body keeps; \<open>k\<close> bounds the bytes it adds to the output buffer.\<close>

definition byte_ok :: "cli_service \<Rightarrow> (bool \<times> cli_service \<times> cli_out list) option \<Rightarrow> bool" where
  "byte_ok s r \<longleftrightarrow> (\<exists>go s' outs. r = Some (go, s', outs) \<and> editor_wf s' \<and> cs_buf_size s' = cs_buf_size s \<and>
     cs_rlen s' = cs_rlen s \<and> (go \<longrightarrow> cs_wlen s' \<le> cs_wlen s + 3 \<and> cs_cmd_len s' \<le> cs_cmd_len s + 1))"

lemma byte_ok_leave [simp]:
  "byte_ok s (Some (False, s', outs)) \<longleftrightarrow> editor_wf s' \<and> cs_buf_size s' = cs_buf_size s \<and> cs_rlen s' = cs_rlen s"
  by (auto simp: byte_ok_def)

lemma put_wbuf_Some:
  "cs_wlen s < length (cs_wbuf s) \<Longrightarrow>
   put_wbuf b s = Some (s \<lparr> cs_wbuf := (cs_wbuf s)[cs_wlen s := b], cs_wlen := Suc (cs_wlen s) \<rparr>)"
  by (simp add: put_wbuf_def arr_set_Some)

lemma echo_enter_ok:
  assumes wf: "editor_wf s" and "cs_cmd_len s < cs_buf_size s"
  shows "byte_ok s (echo_enter s)"
proof -
  let ?s = "s \<lparr> cs_cmd := (cs_cmd s)[cs_cmd_len s := 0] \<rparr>"
  have c: "arr_set (cs_cmd s) (cs_cmd_len s) 0 = Some ((cs_cmd s)[cs_cmd_len s := 0])"
    using assms by (simp add: editor_wf_def arr_set_Some)
  have wf': "editor_wf ?s"
    using wf by (simp add: editor_wf_def)
  show ?thesis
  proof (cases "cs_cmd_len s = 0")
    case True
    then show ?thesis
      using c wf' by (auto simp: byte_ok_def echo_enter_def editor_wf_def)
  next
    case False
    then show ?thesis
      using c add_to_history_ok [OF wf'] by (auto simp: byte_ok_def echo_enter_def editor_wf_def)
  qed
qed

lemma echo_erase_ok:
  assumes "editor_wf s" and "cs_wlen s + 3 \<le> cs_buf_size s"
  shows "byte_ok s (echo_erase s)"
  using assms by (auto simp: byte_ok_def echo_erase_def put_wbuf_Some editor_wf_def)

lemma echo_char_ok:
  assumes "editor_wf s" and "cs_wlen s + 3 \<le> cs_buf_size s"
  shows "byte_ok s (echo_char b s)"
  using assms by (auto simp: byte_ok_def echo_char_def put_wbuf_Some editor_wf_def arr_set_Some)

lemma recall_ok:
  assumes "editor_wf s" and "line_ok (cs_buf_size s) c"
  shows "\<exists>s'. recall c s = Some s' \<and> editor_wf s' \<and> cs_buf_size s' = cs_buf_size s \<and> cs_rlen s' = cs_rlen s"
proof -
  let ?n = "cs_buf_size s"
  obtain wb where wb: "strncpy (cs_wbuf s) c ?n = Some wb" "length wb = ?n"
    using strncpy_Some [of ?n "cs_wbuf s" c] assms by (auto simp: editor_wf_def line_ok_def)
  obtain cm where cm: "strncpy (cs_cmd s) c ?n = Some cm" "length cm = ?n"
    using strncpy_Some [of ?n "cs_cmd s" c] assms by (auto simp: editor_wf_def line_ok_def)
  obtain l where "strlen c = Some l" "l < ?n"
    using line_ok_strlen assms(2) by blast
  then show ?thesis
    using wb cm assms(1) by (auto simp: recall_def editor_wf_def)
qed

lemma last_command_ok:
  "editor_wf s \<Longrightarrow> \<exists>c. cli_get_last_command s = Some c \<and> line_ok (cs_buf_size s) c"
  by (auto simp: cli_get_last_command_def arr_get_Some editor_wf_def)

lemma echo_up_ok:
  assumes "editor_wf s"
  shows "byte_ok s (echo_up s)"
proof -
  let ?p = "if cs_history_pos s + 1 \<ge> cs_history_size s then cs_history_size s - 1 else cs_history_pos s + 1"
  let ?s = "s \<lparr> cs_history_pos := ?p \<rparr>"
  have wf: "editor_wf ?s" and wf': "editor_wf (?s \<lparr> cs_history_pos := ?p - 1 \<rparr>)"
    using assms by (auto simp: editor_wf_def)
  obtain c where c: "cli_get_last_command ?s = Some c" "line_ok (cs_buf_size s) c"
    using last_command_ok [OF wf] by auto
  obtain l where l: "strlen c = Some l"
    using line_ok_strlen [OF c(2)] by blast
  obtain s' where s': "recall c ?s = Some s'" "editor_wf s'" "cs_buf_size s' = cs_buf_size s" "cs_rlen s' = cs_rlen s"
    using recall_ok [OF wf, of c] c(2) by auto
  have "echo_up s = (if l = 0 then Some (False, ?s \<lparr> cs_history_pos := ?p - 1 \<rparr>, []) else Some (False, s', wipe ?s))"
    using c(1) l s'(1) by (simp add: echo_up_def Let_def split: if_splits)
  then show ?thesis
    using wf' s' by (cases "l = 0") simp_all
qed

lemma echo_down_ok:
  assumes "editor_wf s"
  shows "byte_ok s (echo_down s)"
proof -
  let ?s = "s \<lparr> cs_history_pos := cs_history_pos s - 1 \<rparr>"
  have wf: "editor_wf ?s"
    using assms by (auto simp: editor_wf_def)
  obtain c where c: "cli_get_last_command ?s = Some c" "line_ok (cs_buf_size s) c"
    using last_command_ok [OF wf] by auto
  obtain s' where s': "recall c ?s = Some s'" "editor_wf s'" "cs_buf_size s' = cs_buf_size s" "cs_rlen s' = cs_rlen s"
    using recall_ok [OF wf, of c] c(2) by auto
  then show ?thesis
    using c(1) by (simp add: echo_down_def)
qed

lemma is_key_total:
  assumes "editor_wf s" and "cs_rlen s \<le> cs_buf_size s" and "0 \<in> set k1" and "0 \<in> set k2"
  shows "\<exists>r. is_key k1 k2 s = Some r"
proof -
  have "cs_rlen s \<le> length (cs_rbuf s)"
    using assms(1,2) by (simp add: editor_wf_def)
  then obtain a b where "strncmp_eq (cs_rbuf s) k1 (cs_rlen s) = Some a" and "strncmp_eq (cs_rbuf s) k2 (cs_rlen s) = Some b"
    using strncmp_eq_literal assms(3,4) by metis
  then show ?thesis
    by (cases a) (auto simp: is_key_def)
qed

lemma echo_byte_ok:
  assumes wf: "editor_wf s" and "i + 4 \<le> cs_buf_size s" and "cs_rlen s \<le> cs_buf_size s"
    and w: "cs_wlen s + 3 \<le> cs_buf_size s" and c: "cs_cmd_len s < cs_buf_size s"
  shows "byte_ok s (echo_byte i s)"
proof -
  obtain b where b: "arr_get (cs_rbuf s) i = Some b"
    using assms(1,2) by (simp add: editor_wf_def arr_get_Some)
  have "4 \<le> length (drop i (cs_rbuf s))" and "4 \<le> length key_delete"
    using assms(1,2) by (simp_all add: editor_wf_def key_delete_def)
  then obtain er where er: "is_erase b i s = Some er"
    using strncmp_eq_lengths by (metis is_erase_def)
  obtain up where up: "is_key key_up key_up_tail s = Some up"
    using is_key_total [OF wf assms(3)] by (metis key_up_def key_up_tail_def list.set_intros)
  obtain down where down: "is_key key_down key_down_tail s = Some down"
    using is_key_total [OF wf assms(3)] by (metis key_down_def key_down_tail_def list.set_intros)
  have stop: "byte_ok s (Some (False, s, []))"
    using wf by simp
  show ?thesis
    using echo_enter_ok [OF wf c] echo_erase_ok [OF wf w] echo_up_ok [OF wf] echo_down_ok [OF wf] echo_char_ok [OF wf w, of b] stop
    by (simp add: echo_byte_def b er up down)
qed

lemma echo_loop_ok:
  assumes "editor_wf s" and "cs_rlen s \<le> cs_buf_size s" and "i + n + 3 \<le> cs_buf_size s"
    and "cs_wlen s + 3 * n \<le> cs_buf_size s" and "cs_cmd_len s + n \<le> cs_buf_size s"
  shows "\<exists>s' outs. echo_loop i n s = Some (s', outs) \<and> editor_wf s' \<and> cs_buf_size s' = cs_buf_size s"
  using assms
proof (induction n arbitrary: i s)
  case (Suc n)
  have "byte_ok s (echo_byte i s)"
    using Suc.prems by (intro echo_byte_ok) simp_all
  then obtain go s' outs where e: "echo_byte i s = Some (go, s', outs)" "editor_wf s'" "cs_buf_size s' = cs_buf_size s"
    "cs_rlen s' = cs_rlen s" "go \<Longrightarrow> cs_wlen s' \<le> cs_wlen s + 3 \<and> cs_cmd_len s' \<le> cs_cmd_len s + 1"
    by (auto simp: byte_ok_def)
  show ?case
  proof (cases go)
    case True
    then have "\<exists>s'' o2. echo_loop (Suc i) n s' = Some (s'', o2) \<and> editor_wf s'' \<and> cs_buf_size s'' = cs_buf_size s'"
      using Suc.prems e by (intro Suc.IH) auto
    then show ?thesis
      using e True by auto
  qed (use e in auto)
qed simp

section \<open>Typing a line\<close>

text \<open>A character that the editor takes as itself when it comes alone.\<close>

definition plain_char :: "u8 \<Rightarrow> bool" where
  "plain_char b \<longleftrightarrow> 0x20 \<le> b \<and> b < 0x7F \<and> b \<noteq> 0x5B"

lemma plain_char_facts:
  assumes "plain_char b"
  shows "b \<noteq> 0" "b \<noteq> 0x0D" "b \<noteq> 0x08" "b \<noteq> 0x7F" "b \<noteq> 0x1B" "b \<noteq> 0x5B" "\<not> b < 0x20" "\<not> b > 127"
  using assms by (auto simp: plain_char_def)

lemma type_byte:
  assumes b: "plain_char b" and r: "cs_rbuf s = b # bs" and "cs_rlen s = 1"
  shows "echo_byte 0 s = echo_char b s"
proof -
  note f = plain_char_facts [OF b]
  have "is_erase b 0 s = Some False"
    using f r by (simp add: is_erase_def key_delete_def numeral_eq_Suc)
  moreover have "is_key key_up key_up_tail s = Some False" and "is_key key_down key_down_tail s = Some False"
    using f r assms(3) by (simp_all add: is_key_def key_up_def key_up_tail_def key_down_def key_down_tail_def)
  moreover have "arr_get (cs_rbuf s) 0 = Some b"
    using r by (simp add: arr_get_Some)
  ultimately show ?thesis
    using f(2,7,8) by (simp add: echo_byte_def)
qed

text \<open>The command buffer after \<open>cs\<close> have been typed into an empty line.\<close>

definition typed :: "u8 list \<Rightarrow> cli_service \<Rightarrow> cli_service \<Rightarrow> bool" where
  "typed cs s0 s \<longleftrightarrow> editor_wf s \<and> cs_cmd_len s = min (length cs) (cs_buf_size s) \<and>
     take (cs_cmd_len s) (cs_cmd s) = take (cs_buf_size s) cs \<and> cs_cmd_prev s = cs_cmd_prev s0 \<and>
     cs_buf_size s = cs_buf_size s0 \<and> cs_history_size s = cs_history_size s0"

lemma type_round:
  assumes t: "typed cs s0 s" and b: "plain_char b" and pos: "0 < cs_buf_size s"
  shows "\<exists>s'. cli_echo_round [b] s = Some (s', [Wr [b]]) \<and> typed (cs @ [b]) s0 s'"
proof -
  have wf: "editor_wf s" and l: "cs_cmd_len s = min (length cs) (cs_buf_size s)"
    and tk: "take (cs_cmd_len s) (cs_cmd s) = take (cs_buf_size s) cs"
    using t unfolding typed_def by blast+
  obtain x xs where r: "cs_rbuf s = x # xs"
    using wf pos by (cases "cs_rbuf s") (auto simp: editor_wf_def)
  obtain y ys where w: "cs_wbuf s = y # ys"
    using wf pos by (cases "cs_wbuf s") (auto simp: editor_wf_def)
  let ?s = "s \<lparr> cs_rbuf := b # xs, cs_rlen := 1, cs_wlen := 0 \<rparr>"
  have byte: "echo_byte 0 ?s = echo_char b ?s"
    using type_byte [OF b, of ?s xs] by simp
  show ?thesis
  proof (cases "cs_cmd_len s < cs_buf_size s")
    case True
    then have len: "cs_cmd_len s = length cs" "length cs < length (cs_cmd s)" "take (length cs) (cs_cmd s) = cs"
      using l tk wf by (auto simp: editor_wf_def)
    let ?s' = "?s \<lparr> cs_wbuf := b # ys, cs_wlen := 1, cs_cmd := (cs_cmd s)[length cs := b], cs_cmd_len := Suc (length cs) \<rparr>"
    have "echo_char b ?s = Some (True, ?s', [])"
      using True len w by (simp add: echo_char_def put_wbuf_Some arr_set_Some)
    then have "cli_echo_round [b] s = Some (?s', [Wr [b]])"
      using r byte by (simp add: cli_echo_round_def memcpy_def)
    moreover have "typed (cs @ [b]) s0 ?s'"
      using t r w True len by (auto simp: typed_def editor_wf_def take_Suc_conv_app_nth)
    ultimately show ?thesis
      by blast
  next
    case False
    let ?s' = "?s \<lparr> cs_wbuf := b # ys, cs_wlen := 1 \<rparr>"
    have "echo_char b ?s = Some (True, ?s', [])"
      using False w by (simp add: echo_char_def put_wbuf_Some)
    then have "cli_echo_round [b] s = Some (?s', [Wr [b]])"
      using r byte by (simp add: cli_echo_round_def memcpy_def)
    moreover have "typed (cs @ [b]) s0 ?s'"
      using t r w False pos by (auto simp: typed_def editor_wf_def)
    ultimately show ?thesis
      by blast
  qed
qed

lemma cli_echo_append:
  "cli_echo (r1 @ r2) s = do { (s, o1) \<leftarrow> cli_echo r1 s; (s, o2) \<leftarrow> cli_echo r2 s; Some (s, o1 @ o2) }"
  by (induction r1 arbitrary: s) (auto split: bind_splits)

lemma type_line:
  assumes "typed [] s s" and "\<forall>b \<in> set cs. plain_char b" and "0 < cs_buf_size s"
  shows "\<exists>s'. cli_echo (map (\<lambda>b. [b]) cs) s = Some (s', map (\<lambda>b. Wr [b]) cs) \<and> typed cs s s'"
  using assms(2)
proof (induction cs rule: rev_induct)
  case Nil
  then show ?case
    using assms(1) by simp
next
  case (snoc b cs)
  then obtain s' where s': "cli_echo (map (\<lambda>b. [b]) cs) s = Some (s', map (\<lambda>b. Wr [b]) cs)" "typed cs s s'"
    by auto
  then obtain s'' where "cli_echo_round [b] s' = Some (s'', [Wr [b]])" "typed (cs @ [b]) s s''"
    using type_round [OF s'(2), of b] snoc.prems assms(3) by (auto simp: typed_def)
  then show ?case
    using s'(1) by (simp add: cli_echo_append)
qed

lemma strncmp_eq_c_str: "strncmp_eq a b n = Some True \<Longrightarrow> take n (c_str a) = take n (c_str b)"
proof (induction a b n rule: strncmp_eq.induct)
  case (2 x xs y ys n)
  then show ?case
    by (cases "x = y"; cases "x = 0") (simp_all add: c_str_def)
qed (simp_all add: c_str_def)

lemma c_str_append_zero: "0 \<notin> set cs \<Longrightarrow> c_str (cs @ 0 # xs) = cs"
  by (induction cs) (auto simp: c_str_def)

lemma line_ok_c_str_length: "line_ok n p \<Longrightarrow> length (c_str p) \<le> n - 1"
  using line_ok_strlen [of n p] by (auto simp: strlen_def split: if_splits)

lemma strncpy_line_c_str:
  assumes "line_ok n dst" and "c_str src = cs" and "length cs < n" and "strncpy dst src (n - 1) = Some d" and "0 \<notin> set cs"
  shows "c_str d = cs"
proof -
  have "drop (n - 1) dst = [0]"
  proof -
    have "n - 1 < length dst" and "Suc (n - 1) = length dst" and "dst ! (n - 1) = 0"
      using assms(1) by (simp_all add: line_ok_def)
    then show ?thesis
      using Cons_nth_drop_Suc [of "n - 1" dst] by simp
  qed
  moreover have "take (n - 1) (cs @ replicate (n - 1) 0) = cs @ replicate (n - 1 - length cs) 0"
    using assms(3) by simp
  ultimately have d: "d = cs @ replicate (n - 1 - length cs) 0 @ [0]"
    using assms(2,4) by (simp add: strncpy_def split: if_split_asm)
  show ?thesis
  proof (cases "n - 1 - length cs")
    case 0
    then show ?thesis
      using d c_str_append_zero [OF assms(5), of "[]"] by simp
  next
    case (Suc k)
    then show ?thesis
      using d c_str_append_zero [OF assms(5), of "replicate k 0 @ [0]"] by simp
  qed
qed

text \<open>After a line is entered it is the newest of the history.\<close>

lemma add_to_history_newest:
  assumes wf: "editor_wf s" and c: "c_str (cs_cmd s) = cs" "length cs < cs_buf_size s" "0 \<notin> set cs"
    and a: "cli_add_to_history s = Some s'"
  shows "c_str (cs_cmd_prev s' ! 1) = cs"
proof -
  let ?n = "cs_buf_size s"
  have len: "1 < length (cs_cmd_prev s)" "cs_history_size s < length (cs_cmd_prev s)"
    and all: "\<forall>p \<in> set (cs_cmd_prev s). line_ok ?n p"
    using wf by (auto simp: editor_wf_def)
  have p1: "line_ok ?n (cs_cmd_prev s ! 1)"
    using all len(1) by simp
  have cl: "length (cs_cmd s) = ?n"
    using wf by (simp add: editor_wf_def)
  obtain same where same: "strncmp_eq (cs_cmd_prev s ! 1) (cs_cmd s) (?n - 1) = Some same"
    using strncmp_eq_lengths [of "?n - 1" "cs_cmd_prev s ! 1" "cs_cmd s"] p1 cl by (auto simp: line_ok_def)
  show ?thesis
  proof (cases same)
    case True
    then have "take (?n - 1) (c_str (cs_cmd_prev s ! 1)) = take (?n - 1) cs"
      using strncmp_eq_c_str [of "cs_cmd_prev s ! 1" "cs_cmd s" "?n - 1"] same c(1) by simp
    moreover have "length (c_str (cs_cmd_prev s ! 1)) \<le> ?n - 1" and "length cs \<le> ?n - 1"
      using line_ok_c_str_length [OF p1] c(2) by simp_all
    ultimately have "c_str (cs_cmd_prev s ! 1) = cs"
      by (metis take_all)
    moreover have "s' = s"
      using a same True len(1) by (simp add: cli_add_to_history_def arr_get_Some)
    ultimately show ?thesis
      by simp
  next
    case False
    obtain prev where prev: "history_shift (?n - 1) (cs_history_size s) (cs_cmd_prev s) = Some prev"
      "length prev = length (cs_cmd_prev s)" "\<forall>p \<in> set prev. line_ok ?n p"
      using history_shift_ok [OF all len(2)] by blast
    have ok: "line_ok ?n (prev ! 1)"
      using prev(2,3) len(1) by simp
    then obtain d where d: "strncpy (prev ! 1) (cs_cmd s) (?n - 1) = Some d"
      using strncpy_line_ok cl by blast
    have "s' = s \<lparr> cs_cmd_prev := prev[1 := d] \<rparr>"
      using a same False len(1) prev(1,2) d by (simp add: cli_add_to_history_def arr_get_Some)
    then show ?thesis
      using strncpy_line_c_str [OF ok c(1,2) d c(3)] prev(2) len(1) by simp
  qed
qed

section \<open>Properties of the editor\<close>

text \<open>A started editor with room for eight bytes, for the concrete instances.\<close>

definition demo_editor :: cli_service where
  "demo_editor = \<lparr> cs_buf_size = 8, cs_rbuf = replicate 8 0, cs_wbuf = replicate 8 0, cs_cmd = replicate 8 0,
     cs_cmd_prev = replicate 4 (replicate 8 0), cs_rlen = 0, cs_wlen = 0, cs_cmd_len = 0, cs_history_size = 3,
     cs_history_pos = 0 \<rparr>"

lemma demo_editor_started: "cli_service_start (\<lambda>_. True) 8 3 False = Some (0, True, Some demo_editor)"
  by (simp add: cli_service_start_def demo_editor_def)

lemma demo_editor_wf: "editor_wf demo_editor"
  by (simp add: editor_wf_def demo_editor_def line_ok_def)

text \<open>C19: One round of the editor on what a read returned stays inside all its buffers and leaves
  them well formed (stored lines terminated, lengths and history position in range), for any bytes,
  as long as a third of the buffer, and the buffer less four bytes, hold what was read and the
  command has room for it.\<close>

theorem editor_round_safe:
  assumes "editor_wf s" and "length bytes + 3 \<le> cs_buf_size s" and "3 * length bytes \<le> cs_buf_size s"
    and "cs_cmd_len s + length bytes \<le> cs_buf_size s"
  shows "\<exists>s' outs. cli_echo_round bytes s = Some (s', outs) \<and> editor_wf s' \<and> cs_buf_size s' = cs_buf_size s"
proof -
  let ?s = "s \<lparr> cs_rbuf := bytes @ drop (length bytes) (cs_rbuf s), cs_rlen := length bytes, cs_wlen := 0 \<rparr>"
  have "editor_wf ?s"
    using assms by (auto simp: editor_wf_def)
  then obtain s' outs where "echo_loop 0 (length bytes) ?s = Some (s', outs)" and "editor_wf s'" and "cs_buf_size s' = cs_buf_size s"
    using echo_loop_ok [of ?s 0 "length bytes"] assms by auto
  moreover have "memcpy (cs_rbuf s) 0 bytes 0 (length bytes) = Some (bytes @ drop (length bytes) (cs_rbuf s))"
    using assms(1,2) by (simp add: memcpy_def editor_wf_def)
  ultimately show ?thesis
    by (simp add: cli_echo_round_def)
qed

theorem editor_round_safe_witness:
  "\<exists>s' outs. cli_echo_round [0x6C, 0x0D] demo_editor = Some (s', outs) \<and> editor_wf s'"
  using editor_round_safe [OF demo_editor_wf, of "[0x6C, 0x0D]"] by (simp add: demo_editor_def) blast

text \<open>C20: Typing plain characters one at a time and then the enter key echoes each of them, wakes the
  executing thread with exactly the typed line as the command, and makes it the newest line of the
  history; but when the line fills the command buffer, the enter key stores its final zero behind it.\<close>

theorem editor_line_entered:
  assumes "editor_wf s" and "cs_cmd_len s = 0" and "0 < cs_buf_size s" and "\<forall>b \<in> set cs. plain_char b"
  shows "case cli_echo (map (\<lambda>b. [b]) cs @ [[0x0D]]) s of
      None \<Rightarrow> length cs \<ge> cs_buf_size s
    | Some (s', outs) \<Rightarrow> length cs < cs_buf_size s \<and> outs = map (\<lambda>b. Wr [b]) cs @ [Wake, Wr []] \<and>
        c_str (cs_cmd s') = cs \<and> cs_cmd_len s' = 0 \<and> (cs \<noteq> [] \<longrightarrow> c_str (cs_cmd_prev s' ! 1) = cs)"
proof -
  obtain t where t: "cli_echo (map (\<lambda>b. [b]) cs) s = Some (t, map (\<lambda>b. Wr [b]) cs)" "typed cs s t"
    using type_line [of s cs] assms by (auto simp: typed_def)
  have wf: "editor_wf t" and l: "cs_cmd_len t = min (length cs) (cs_buf_size t)" and n: "cs_buf_size t = cs_buf_size s"
    and tk: "take (cs_cmd_len t) (cs_cmd t) = take (cs_buf_size t) cs"
    using t(2) unfolding typed_def by blast+
  obtain x xs where r: "cs_rbuf t = x # xs"
    using wf n assms(3) by (cases "cs_rbuf t") (auto simp: editor_wf_def)
  have nz: "0 \<notin> set cs"
    using assms(4) plain_char_facts(1) by blast
  let ?t = "t \<lparr> cs_rbuf := 0x0D # xs, cs_rlen := 1, cs_wlen := 0 \<rparr>"
  have round: "cli_echo_round [0x0D] t = (case echo_enter ?t of None \<Rightarrow> None
      | Some (go, s', o1) \<Rightarrow> Some (s', o1 @ [Wr (take (cs_wlen s') (cs_wbuf s'))]))"
    using r by (auto simp: cli_echo_round_def memcpy_def echo_byte_def arr_get_Some split: bind_splits option.splits)
  have all: "cli_echo (map (\<lambda>b. [b]) cs @ [[0x0D]]) s =
      (case cli_echo_round [0x0D] t of None \<Rightarrow> None | Some (s', o2) \<Rightarrow> Some (s', map (\<lambda>b. Wr [b]) cs @ o2))"
    by (auto simp: cli_echo_append t(1) split: bind_splits option.splits)
  show ?thesis
  proof (cases "length cs < cs_buf_size s")
    case False
    then have "echo_enter ?t = None"
      using l n wf by (simp add: echo_enter_def arr_set_def editor_wf_def)
    then show ?thesis
      using False round all by simp
  next
    case True
    then have len: "cs_cmd_len t = length cs" "length cs < length (cs_cmd t)" "take (length cs) (cs_cmd t) = cs"
      using l tk n wf by (auto simp: editor_wf_def)
    let ?u = "?t \<lparr> cs_cmd := (cs_cmd t)[length cs := 0] \<rparr>"
    have cmd: "c_str ((cs_cmd t)[length cs := 0]) = cs"
      using c_str_append_zero [OF nz] len(2,3) by (simp add: upd_conv_take_nth_drop)
    have wfu: "editor_wf ?u"
      using wf r by (auto simp: editor_wf_def)
    obtain v where v: "cli_add_to_history ?u = Some v" "cs_cmd v = cs_cmd ?u" "cs_wlen v = 0"
      using add_to_history_ok [OF wfu] by auto
    have new: "c_str (cs_cmd_prev v ! 1) = cs"
      using add_to_history_newest [OF wfu _ _ nz v(1)] cmd True n by simp
    have "echo_enter ?t = Some (True, (if cs = [] then ?u else v) \<lparr> cs_cmd_len := 0, cs_history_pos := 0 \<rparr>, [Wake])"
      using len v(1) by (simp add: echo_enter_def arr_set_Some)
    then show ?thesis
      using True round all cmd v new by (cases "cs = []") simp_all
  qed
qed

theorem editor_line_entered_witness:
  "case cli_echo [[0x6C], [0x73], [0x0D]] demo_editor of None \<Rightarrow> False
    | Some (s', outs) \<Rightarrow> outs = [Wr [0x6C], Wr [0x73], Wake, Wr []] \<and> c_str (cs_cmd_prev s' ! 1) = [0x6C, 0x73]"
  using editor_line_entered [OF demo_editor_wf, of "[0x6C, 0x73]"]
  by (cases "cli_echo [[0x6C], [0x73], [0x0D]] demo_editor")
    (auto simp: demo_editor_def plain_char_def simp del: cli_echo.simps)

lemma four_Suc: "(4 :: nat) = Suc (Suc (Suc (Suc 0)))"
  by simp

lemma is_erase_Suc:
  "is_erase b i s = (if b = 0x08 \<or> b = 0x7F then Some True
     else strncmp_eq key_delete (drop i (cs_rbuf s)) (Suc (Suc (Suc (Suc 0)))))"
  by (simp only: is_erase_def four_Suc)

text \<open>The delete key erases the last character of the line and then types the rest of its own
  code: after it the line has lost one character and gained the three of "[3~".\<close>

theorem editor_delete_key_types:
  assumes "editor_wf s" and "cs_cmd_len s = Suc n" and "n + 3 \<le> cs_buf_size s" and "8 \<le> cs_buf_size s"
  shows "\<exists>s' outs. cli_echo_round [0x1B, 0x5B, 0x33, 0x7E] s = Some (s', outs) \<and> cs_cmd_len s' = n + 3 \<and>
     take (n + 3) (cs_cmd s') = take n (cs_cmd s) @ [0x5B, 0x33, 0x7E]"
proof -
  let ?k = "[0x1B, 0x5B, 0x33, 0x7E] :: u8 list"
  let ?r = "?k @ drop 4 (cs_rbuf s)"
  let ?s0 = "s \<lparr> cs_rbuf := ?r, cs_rlen := Suc (Suc (Suc (Suc 0))), cs_wlen := 0 \<rparr>"
  have len: "length (cs_rbuf s) = cs_buf_size s" "length (cs_wbuf s) = cs_buf_size s" "length (cs_cmd s) = cs_buf_size s"
    using assms(1) by (simp_all add: editor_wf_def)
  have mem: "memcpy (cs_rbuf s) 0 ?k 0 (length ?k) = Some ?r"
    using len assms(4) by (simp add: memcpy_def four_Suc)
  let ?w = "(cs_wbuf s)[0 := 0x08, Suc 0 := 0x20, Suc (Suc 0) := 0x08]"
  let ?s1 = "?s0 \<lparr> cs_wbuf := ?w, cs_wlen := 3, cs_cmd_len := n \<rparr>"
  have b0: "echo_byte 0 ?s0 = Some (True, ?s1, [])"
  proof -
    have "is_erase 0x1B 0 ?s0 = Some True"
      by (simp add: is_erase_Suc key_delete_def)
    moreover have "echo_erase ?s0 = Some (True, ?s1, [])"
      using len assms by (simp add: echo_erase_def put_wbuf_Some numeral_3_eq_3)
    ultimately show ?thesis
      by (simp add: echo_byte_def arr_get_Some)
  qed
  have keys: "is_key key_up key_up_tail t = Some False \<and> is_key key_down key_down_tail t = Some False"
    if "cs_rbuf t = ?r" and "cs_rlen t = Suc (Suc (Suc (Suc 0)))" for t
    using that by (simp add: is_key_def key_up_def key_up_tail_def key_down_def key_down_tail_def)
  have plain: "echo_byte i t = echo_char b t"
    if "cs_rbuf t = ?r" "cs_rlen t = Suc (Suc (Suc (Suc 0)))" "?r ! i = b" "i < 4" "b \<noteq> 0x0D" "b \<noteq> 8" "b \<noteq> 0x7F" "b \<noteq> 0x1B" "\<not> b < 0x20" "\<not> b > 127" for i t b
  proof -
    have g: "arr_get (cs_rbuf t) i = Some b"
      using that by (simp add: arr_get_Some)
    obtain bs where "drop i (cs_rbuf t) = b # bs"
      using g by (metis Cons_nth_drop_Suc arr_get_eq_Some)
    then have "is_erase b i t = Some False"
      using that(6-8) by (simp add: is_erase_Suc key_delete_def)
    then show ?thesis
      using g keys [OF that(1,2)] that(5,9,10) by (simp add: echo_byte_def)
  qed
  have char: "echo_char b t = Some (True, t \<lparr> cs_wbuf := (cs_wbuf t)[cs_wlen t := b], cs_wlen := Suc (cs_wlen t),
       cs_cmd := (cs_cmd t)[cs_cmd_len t := b], cs_cmd_len := Suc (cs_cmd_len t) \<rparr>, [])"
    if "cs_wlen t < length (cs_wbuf t)" "cs_cmd_len t < cs_buf_size t" "length (cs_cmd t) = cs_buf_size t" for b t
    using that by (simp add: echo_char_def put_wbuf_Some arr_set_Some)
  have "\<exists>s'. echo_loop 1 3 ?s1 = Some (s', []) \<and> cs_cmd_len s' = n + 3 \<and>
      cs_cmd s' = (cs_cmd s)[n := 0x5B, Suc n := 0x33, Suc (Suc n) := 0x7E]"
    using len assms by (simp add: numeral_3_eq_3 plain char)
  then obtain s' where s': "echo_loop 1 3 ?s1 = Some (s', [])" "cs_cmd_len s' = n + 3"
    "cs_cmd s' = (cs_cmd s)[n := 0x5B, Suc n := 0x33, Suc (Suc n) := 0x7E]"
    by blast
  have "echo_loop 0 (Suc (Suc (Suc (Suc 0)))) ?s0 = Some (s', [])"
    using b0 s'(1) by (simp add: numeral_3_eq_3)
  moreover have "take (n + 3) (cs_cmd s') = take n (cs_cmd s) @ [0x5B, 0x33, 0x7E]"
    using s'(3) len(3) assms(3) by (simp add: numeral_3_eq_3 take_Suc_conv_app_nth)
  ultimately show ?thesis
    using mem s'(2) by (simp add: cli_echo_round_def del: echo_loop.simps)
qed

theorem editor_delete_key_types_witness:
  "\<exists>s' outs. cli_echo_round [0x1B, 0x5B, 0x33, 0x7E] (demo_editor \<lparr> cs_cmd_len := 1 \<rparr>) = Some (s', outs) \<and> cs_cmd_len s' = 3"
proof -
  have "editor_wf (demo_editor \<lparr> cs_cmd_len := 1 \<rparr>)"
    using demo_editor_wf by (simp add: editor_wf_def demo_editor_def)
  from editor_delete_key_types [OF this, of 0] show ?thesis
    by (auto simp: demo_editor_def)
qed

end
