(* ===== verification/Rtos.thy ===== *)
theory Rtos
  imports Prelude
begin

text \<open>
  The FreeRTOS objects the drivers use, as the calls on them are documented and configured in
  this repository. A task is a number. A mutex is its holder. Taking a mutex that another task
  holds depends on whether that task gives it back in time; a task that waits for a mutex of
  its own waits in vain. Giving a mutex that another task holds fails an assertion of
  the kernel (xTaskPriorityDisinherit), and configASSERT stops the system: None.
\<close>

text \<open>A call returns, waits in this state for another task or an interrupt, or is undefined.\<close>

datatype 'a outcome = Done 'a | Waits | Undef

type_synonym task = nat
type_synonym mutex = "task option"

definition mutex_take :: "task \<Rightarrow> bool \<Rightarrow> mutex \<Rightarrow> bool \<times> mutex" where
  "mutex_take me released m =
     (if m = None \<or> (m \<noteq> Some me \<and> released) then (True, Some me) else (False, m))"

text \<open>With portMAX_DELAY the call does not return unless it gets the mutex.\<close>

definition mutex_take_forever :: "task \<Rightarrow> bool \<Rightarrow> mutex \<Rightarrow> mutex option" where
  "mutex_take_forever me released m = (case mutex_take me released m of (ok, m) \<Rightarrow> if ok then Some m else None)"

definition mutex_give :: "task \<Rightarrow> mutex \<Rightarrow> mutex option" where
  "mutex_give me m = (case m of None \<Rightarrow> Some None | Some t \<Rightarrow> if t = me then Some None else None)"

lemma mutex_take_free [simp]: "mutex_take me r None = (True, Some me)"
  by (simp add: mutex_take_def)

lemma mutex_take_own [simp]: "mutex_take me r (Some me) = (False, Some me)"
  by (simp add: mutex_take_def)

lemma mutex_take_other [simp]: "t \<noteq> me \<Longrightarrow> mutex_take me r (Some t) = (if r then (True, Some me) else (False, Some t))"
  by (simp add: mutex_take_def)

lemma mutex_give_own [simp]: "mutex_give me (Some me) = Some None"
  by (simp add: mutex_give_def)

lemma mutex_give_other [simp]: "t \<noteq> me \<Longrightarrow> mutex_give me (Some t) = None"
  by (simp add: mutex_give_def)

lemma mutex_give_free [simp]: "mutex_give me None = Some None"
  by (simp add: mutex_give_def)

lemma mutex_take_forever_free [simp]: "mutex_take_forever me r None = Some (Some me)"
  by (simp add: mutex_take_forever_def)

lemma mutex_take_forever_own [simp]: "mutex_take_forever me r (Some me) = None"
  by (simp add: mutex_take_forever_def)

end
