(* ===== verification/Irq.thy ===== *)
theory Irq
  imports Prelude
begin

text \<open>
  Interrupts and pins of the microcontroller: the table of interrupt handlers and the
  vectors that use it (bsp/mcu/periph/irq/stm32/irq.c), the external interrupt lines
  (exti.c), the DMA streams (dma.c) and the pins (gpio.c). The calls of the vendor library
  are recorded in the state of the hardware; their results are arguments. A peripheral
  stands for its base address.
\<close>

section \<open>Pins (gpio.c)\<close>

datatype gpio_port = GPIOA | GPIOB | GPIOC | GPIOD | GPIOE | GPIOF | GPIOG | GPIOH | Other_port nat

record gpio =
  gp_port :: gpio_port
  gp_pin :: nat

text \<open>The clocks that are on, the pins that have been set up and the levels of the pins.\<close>

record gpio_hw =
  gh_clocks :: "gpio_port list"
  gh_init :: "gpio list"
  gh_level :: "gpio \<Rightarrow> bool"

definition gpio_clock_init :: "gpio \<Rightarrow> gpio_hw \<Rightarrow> errno \<times> gpio_hw" where
  "gpio_clock_init cfg hw =
     (case gp_port cfg of Other_port _ \<Rightarrow> (EINVAL, hw) | p \<Rightarrow> (EOK, hw \<lparr> gh_clocks := p # gh_clocks hw \<rparr>))"

text \<open>\<open>cfg\<close> None is a null pointer.\<close>

definition gpio_init :: "gpio option \<Rightarrow> gpio_hw \<Rightarrow> errno \<times> gpio_hw" where
  "gpio_init cfg hw =
     (case cfg of None \<Rightarrow> (EINVAL, hw)
      | Some g \<Rightarrow> (case gpio_clock_init g hw of (rv, hw) \<Rightarrow>
          if rv \<noteq> EOK then (rv, hw) else (rv, hw \<lparr> gh_init := g # gh_init hw \<rparr>)))"

definition gpio_set :: "gpio \<Rightarrow> gpio_hw \<Rightarrow> gpio_hw" where
  "gpio_set g hw = hw \<lparr> gh_level := (gh_level hw)(g := True) \<rparr>"

definition gpio_reset :: "gpio \<Rightarrow> gpio_hw \<Rightarrow> gpio_hw" where
  "gpio_reset g hw = hw \<lparr> gh_level := (gh_level hw)(g := False) \<rparr>"

definition gpio_toggle :: "gpio \<Rightarrow> gpio_hw \<Rightarrow> gpio_hw" where
  "gpio_toggle g hw = hw \<lparr> gh_level := (gh_level hw)(g := \<not> gh_level hw g) \<rparr>"

definition gpio_set_state :: "gpio \<Rightarrow> u8 \<Rightarrow> gpio_hw \<Rightarrow> gpio_hw" where
  "gpio_set_state g state hw = (if state \<noteq> 0 then gpio_set g hw else gpio_reset g hw)"

definition gpio_read :: "gpio \<Rightarrow> gpio_hw \<Rightarrow> int" where
  "gpio_read g hw = (if gh_level hw g then 1 else 0)"

section \<open>The table of handlers (irq.c)\<close>

definition MAX_IRQ :: nat where "MAX_IRQ = 149"

text \<open>A handler of type 'h and its argument of type 'a; None is a null pointer.\<close>

record ('h, 'a) irq_entry =
  ie_handler :: "'h option"
  ie_area :: "'a option"
  ie_priority :: int

text \<open>The table and the interrupt controller: the priorities it has been told and the
  interrupts that are enabled.\<close>

record ('h, 'a) irq_state =
  irq_table :: "('h, 'a) irq_entry list"
  nvic_priority :: "(nat \<times> int) list"
  nvic_enabled :: "nat \<Rightarrow> bool"

definition irq_init ::
    "nat \<Rightarrow> int \<Rightarrow> 'h option \<Rightarrow> 'a option \<Rightarrow> ('h, 'a) irq_state \<Rightarrow> (errno \<times> ('h, 'a) irq_state) option" where
  "irq_init irqn priority handler area s =
     (if handler \<noteq> None \<and> area = None then Some (EINVAL, s)
      else do {
        e \<leftarrow> arr_get (irq_table s) irqn;
        if ie_handler e \<noteq> None then Some (EEXIST, s)
        else Some (EOK, s \<lparr> irq_table := (irq_table s)[irqn :=
               \<lparr> ie_handler = handler, ie_area = area, ie_priority = priority \<rparr>] \<rparr>)
      })"

definition irq_enable :: "nat \<Rightarrow> ('h, 'a) irq_state \<Rightarrow> (errno \<times> ('h, 'a) irq_state) option" where
  "irq_enable irqn s = do {
     e \<leftarrow> arr_get (irq_table s) irqn;
     if ie_handler e = None then Some (EINVAL, s)
     else Some (EOK, s \<lparr> nvic_priority := (irqn, ie_priority e) # nvic_priority s, nvic_enabled := (nvic_enabled s)(irqn := True) \<rparr>)
   }"

definition irq_disable :: "nat \<Rightarrow> ('h, 'a) irq_state \<Rightarrow> errno \<times> ('h, 'a) irq_state" where
  "irq_disable irqn s = (EOK, s \<lparr> nvic_enabled := (nvic_enabled s)(irqn := False) \<rparr>)"

text \<open>The vectors of the file, in its order, each with the number of the interrupt it looks up.\<close>

definition irq_vectors :: "(string \<times> nat) list" where
  "irq_vectors = [
    (''ADC'', 18), (''ADC3'', 127), (''FDCAN1_IT0'', 19), (''FDCAN1_IT1'', 21), (''FDCAN2_IT0'', 20),
    (''FDCAN2_IT1'', 22), (''DMA1_Stream0'', 11), (''DMA1_Stream1'', 12), (''DMA1_Stream2'', 13),
    (''DMA1_Stream3'', 14), (''DMA1_Stream4'', 15), (''DMA1_Stream5'', 16), (''DMA1_Stream6'', 17),
    (''DMA1_Stream7'', 47), (''DMA2_Stream0'', 56), (''DMA2_Stream1'', 57), (''DMA2_Stream2'', 58),
    (''DMA2_Stream3'', 59), (''DMA2_Stream4'', 60), (''DMA2_Stream5'', 68), (''DMA2_Stream6'', 69),
    (''DMA2_Stream7'', 70), (''I2C1_EV'', 31), (''I2C1_ER'', 32), (''I2C2_EV'', 33), (''I2C2_ER'', 34),
    (''I2C3_EV'', 72), (''I2C3_ER'', 73), (''SDMMC1'', 49), (''SDMMC2'', 124), (''SPI1'', 35),
    (''SPI2'', 36), (''SPI3'', 51), (''SPI4'', 84), (''SPI5'', 85), (''SPI6'', 86), (''TIM2'', 28),
    (''USART1'', 37), (''USART2'', 38), (''USART3'', 39), (''UART4'', 52), (''UART5'', 53),
    (''USART6'', 71), (''UART7'', 82), (''UART8'', 83), (''EXTI4'', 10), (''EXTI9_5'', 23),
    (''EXTI15_10'', 40)]"

text \<open>What a vector does: run a handler on its argument, or loop for ever in the default handler.\<close>

datatype ('h, 'a) irq_action = Run 'h "'a option" | Loop_forever

definition IRQ_Handler :: "nat \<Rightarrow> ('h, 'a) irq_state \<Rightarrow> ('h, 'a) irq_action option" where
  "IRQ_Handler irqn s = do {
     e \<leftarrow> arr_get (irq_table s) irqn;
     Some (case ie_handler e of None \<Rightarrow> Loop_forever | Some h \<Rightarrow> Run h (ie_area e))
   }"

text \<open>An interrupt whose vector the file does not define runs the weak default of the startup code,
  a loop for ever.\<close>

definition irq_fire :: "nat \<Rightarrow> ('h, 'a) irq_state \<Rightarrow> ('h, 'a) irq_action option" where
  "irq_fire irqn s = (if irqn \<in> snd ` set irq_vectors then IRQ_Handler irqn s else Some Loop_forever)"

section \<open>External interrupt lines (exti.c)\<close>

text \<open>The interrupt of a pin; the pins are numbered, in the code they are bits.\<close>

definition exti_get_id :: "nat \<Rightarrow> nat res" where
  "exti_get_id pin =
     (if pin = 0 then Inr 6
      else if pin = 1 then Inr 7
      else if pin = 2 then Inr 8
      else if pin = 3 then Inr 9
      else if pin = 4 then Inr 10
      else if pin = 5 \<or> pin = 6 \<or> pin = 7 \<or> pin = 8 \<or> pin = 9 then Inr 23
      else if pin = 10 \<or> pin = 11 \<or> pin = 12 \<or> pin = 13 \<or> pin = 14 \<or> pin = 15 then Inr 40
      else Inl EINVAL)"

text \<open>\<open>line\<close> is the result of configuring the line. The codes of the vendor library and
  the error numbers are kept apart: the result is one or the other.\<close>

datatype init_result = Errno errno | Hal int

definition exti_init ::
    "(gpio \<times> int) option \<Rightarrow> int \<Rightarrow> 'h option \<Rightarrow> 'a option \<Rightarrow> gpio_hw \<Rightarrow> ('h, 'a) irq_state \<Rightarrow>
     (init_result \<times> gpio_hw \<times> ('h, 'a) irq_state) option" where
  "exti_init cfg line handler area hw s =
     (case cfg of None \<Rightarrow> Some (Errno EINVAL, hw, s)
      | Some (g, priority) \<Rightarrow>
        (case exti_get_id (gp_pin g) of Inl e \<Rightarrow> Some (Errno e, hw, s)
         | Inr irqn \<Rightarrow>
           (case gpio_init (Some g) hw of (rv, hw) \<Rightarrow>
              if rv \<noteq> EOK then Some (Errno rv, hw, s)
              else if line \<noteq> 0 then Some (Hal line, hw, s)
              else do {
                (rv, s) \<leftarrow> irq_init irqn priority handler area s;
                if rv \<noteq> EOK then Some (Errno rv, hw, s)
                else Some (Errno EOK, hw, snd (irq_disable irqn s))
              })))"

section \<open>DMA streams (dma.c)\<close>

datatype dma_stream =
    DMA1_Stream0 | DMA1_Stream1 | DMA1_Stream2 | DMA1_Stream3 | DMA1_Stream4 | DMA1_Stream5 | DMA1_Stream6 | DMA1_Stream7
  | DMA2_Stream0 | DMA2_Stream1 | DMA2_Stream2 | DMA2_Stream3 | DMA2_Stream4 | DMA2_Stream5 | DMA2_Stream6 | DMA2_Stream7
  | Other_stream nat

fun dma_id_init :: "dma_stream \<Rightarrow> nat res" where
  "dma_id_init DMA1_Stream0 = Inr 11"
| "dma_id_init DMA1_Stream1 = Inr 12"
| "dma_id_init DMA1_Stream2 = Inr 13"
| "dma_id_init DMA1_Stream3 = Inr 14"
| "dma_id_init DMA1_Stream4 = Inr 15"
| "dma_id_init DMA1_Stream5 = Inr 16"
| "dma_id_init DMA1_Stream6 = Inr 17"
| "dma_id_init DMA1_Stream7 = Inr 47"
| "dma_id_init DMA2_Stream0 = Inr 56"
| "dma_id_init DMA2_Stream1 = Inr 57"
| "dma_id_init DMA2_Stream2 = Inr 58"
| "dma_id_init DMA2_Stream3 = Inr 59"
| "dma_id_init DMA2_Stream4 = Inr 60"
| "dma_id_init DMA2_Stream5 = Inr 68"
| "dma_id_init DMA2_Stream6 = Inr 69"
| "dma_id_init DMA2_Stream7 = Inr 70"
| "dma_id_init (Other_stream _) = Inl EINVAL"

text \<open>The DMA controller whose clock is turned on.\<close>

definition dma_clock_init :: "nat \<Rightarrow> nat res" where
  "dma_clock_init irqn =
     (if irqn \<in> {11, 12, 13, 14, 15, 16, 17, 47} then Inr 1
      else if irqn \<in> {56, 57, 58, 59, 60, 68, 69, 70} then Inr 2
      else Inl EINVAL)"

definition dma_init ::
    "(dma_stream \<times> int) option \<Rightarrow> int \<Rightarrow> 'h option \<Rightarrow> 'a option \<Rightarrow> nat list \<Rightarrow> ('h, 'a) irq_state \<Rightarrow>
     (init_result \<times> nat list \<times> ('h, 'a) irq_state) option" where
  "dma_init cfg hal handler area clocks s =
     (case cfg of None \<Rightarrow> Some (Errno EINVAL, clocks, s)
      | Some (stream, priority) \<Rightarrow>
        (case dma_id_init stream of Inl e \<Rightarrow> Some (Errno e, clocks, s)
         | Inr irqn \<Rightarrow>
           (case dma_clock_init irqn of Inl e \<Rightarrow> Some (Errno e, clocks, s)
            | Inr c \<Rightarrow> do {
                (rv, s) \<leftarrow> irq_init irqn priority handler area s;
                if rv \<noteq> EOK then Some (Errno rv, c # clocks, s)
                else do {
                  (rv, s) \<leftarrow> irq_enable irqn s;
                  if rv \<noteq> EOK then Some (Errno rv, c # clocks, s)
                  else Some (Hal hal, c # clocks, s)
                }
              })))"

section \<open>Properties\<close>

lemma irq_init_free:
  assumes "irqn < length (irq_table s)" and "ie_handler (irq_table s ! irqn) = None"
  shows "irq_init irqn p (Some h) (Some a) s =
     Some (EOK, s \<lparr> irq_table := (irq_table s)[irqn := \<lparr> ie_handler = Some h, ie_area = Some a, ie_priority = p \<rparr>] \<rparr>)"
  using assms by (simp add: irq_init_def arr_get_Some)

lemma irq_init_taken:
  "irqn < length (irq_table s) \<Longrightarrow> ie_handler (irq_table s ! irqn) = Some h' \<Longrightarrow>
   irq_init irqn p (Some h) (Some a) s = Some (EEXIST, s)"
  by (simp add: irq_init_def arr_get_Some)

lemma irq_init_ok:
  assumes "irq_init irqn p (Some h) (Some a) s = Some (EOK, s')"
  shows "irqn < length (irq_table s) \<and> ie_handler (irq_table s ! irqn) = None \<and>
     s' = s \<lparr> irq_table := (irq_table s)[irqn := \<lparr> ie_handler = Some h, ie_area = Some a, ie_priority = p \<rparr>] \<rparr>"
  using assms by (auto simp: irq_init_def arr_get_def split: if_splits)

lemma irq_handler_installed:
  assumes "irq_init irqn p (Some h) (Some a) s = Some (EOK, s')"
  shows "IRQ_Handler irqn s' = Some (Run h (Some a))" and "j \<noteq> irqn \<Longrightarrow> IRQ_Handler j s' = IRQ_Handler j s"
  using irq_init_ok [OF assms] by (simp_all add: IRQ_Handler_def arr_get_def)

lemma irq_handler_controller [simp]:
  "IRQ_Handler j (s \<lparr> nvic_enabled := e \<rparr>) = IRQ_Handler j s"
  "IRQ_Handler j (s \<lparr> nvic_priority := q \<rparr>) = IRQ_Handler j s"
  by (simp_all add: IRQ_Handler_def)


text \<open>An empty table, for the concrete instances.\<close>

definition no_irqs :: "(nat, nat) irq_state" where
  "no_irqs = \<lparr> irq_table = replicate 149 \<lparr> ie_handler = None, ie_area = None, ie_priority = 0 \<rparr>,
     nvic_priority = [], nvic_enabled = (\<lambda>_. False) \<rparr>"

definition reset_hw :: gpio_hw where
  "reset_hw = \<lparr> gh_clocks = [], gh_init = [], gh_level = (\<lambda>_. False) \<rparr>"


lemma exti_vectors: "exti_get_id pin = Inr n \<Longrightarrow> n \<in> snd ` set irq_vectors \<longleftrightarrow> 4 \<le> pin"
  by (auto simp: exti_get_id_def irq_vectors_def split: if_splits)

text \<open>When the set-up of an external interrupt line succeeds, an interrupt on the line runs the
  handler on its argument for the pins 4 to 15. For the pins 0 to 3 the set-up succeeds as well,
  but there is no vector for their interrupts, and the first one stops the program.\<close>

theorem exti_line_served:
  assumes "exti_init (Some (g, p)) line (Some h) (Some a) hw s = Some (Errno EOK, hw', s')"
  shows "\<exists>n. exti_get_id (gp_pin g) = Inr n \<and> \<not> nvic_enabled s' n \<and>
     irq_fire n s' = Some (if 4 \<le> gp_pin g then Run h (Some a) else Loop_forever)"
proof (cases "exti_get_id (gp_pin g)")
  case (Inl e)
  then show ?thesis
    using assms by (auto simp: exti_init_def exti_get_id_def split: if_splits)
next
  case (Inr n)
  obtain t where t: "irq_init n p (Some h) (Some a) s = Some (EOK, t)" and s': "s' = snd (irq_disable n t)"
    using assms Inr by (auto simp: exti_init_def split: prod.splits if_splits bind_splits)
  have "IRQ_Handler n s' = Some (Run h (Some a))"
    using irq_handler_installed(1) [OF t] s' by (simp add: irq_disable_def)
  then show ?thesis
    using exti_vectors [OF Inr] Inr s' by (simp add: irq_fire_def irq_disable_def)
qed

lemma dma_vectors: "dma_id_init st = Inr n \<Longrightarrow> n \<in> snd ` set irq_vectors"
  by (cases st) (auto simp: irq_vectors_def)

lemma dma_id_dom: "dma_id_init st = Inr n \<Longrightarrow> st = the (map_of (map (\<lambda>s. (dma_id_init s, s))
    [DMA1_Stream0, DMA1_Stream1, DMA1_Stream2, DMA1_Stream3, DMA1_Stream4, DMA1_Stream5, DMA1_Stream6, DMA1_Stream7,
     DMA2_Stream0, DMA2_Stream1, DMA2_Stream2, DMA2_Stream3, DMA2_Stream4, DMA2_Stream5, DMA2_Stream6, DMA2_Stream7]) (Inr n))"
  by (cases st) auto

lemma dma_id_inject: "dma_id_init st' = Inr n \<Longrightarrow> dma_id_init st = Inr n \<Longrightarrow> st' = st"
  using dma_id_dom [of st n] dma_id_dom [of st' n] by (simp only:)

theorem exti_line_served_witness:
  "\<exists>hw s'. exti_init (Some (\<lparr> gp_port = GPIOD, gp_pin = 15 \<rparr>, 5)) 0 (Some 1) (Some 2) reset_hw no_irqs = Some (Errno EOK, hw, s') \<and>
     irq_fire 40 s' = Some (Run 1 (Some 2))"
proof -
  let ?g = "\<lparr> gp_port = GPIOD, gp_pin = 15 \<rparr>"
  obtain hw s' where e: "exti_init (Some (?g, 5)) 0 (Some 1) (Some 2) reset_hw no_irqs = Some (Errno EOK, hw, s')"
    by (simp add: exti_init_def exti_get_id_def gpio_init_def gpio_clock_init_def irq_init_def arr_get_def no_irqs_def)
  from exti_line_served [OF this] show ?thesis
    using e by (auto simp: exti_get_id_def)
qed

text \<open>Every stream of the two DMA controllers has an interrupt of its own with a vector and a
  controller clock: the set-up of a stream whose interrupt is free ends with the result of the vendor
  library, the interrupt enabled, and the handler run by it.\<close>

theorem dma_stream_served:
  assumes "dma_id_init st = Inr n" and "length (irq_table s) = MAX_IRQ" and "ie_handler (irq_table s ! n) = None"
  shows "\<exists>c s'. dma_init (Some (st, p)) hal (Some h) (Some a) clocks s = Some (Hal hal, c # clocks, s') \<and>
     nvic_enabled s' n \<and> irq_fire n s' = Some (Run h (Some a)) \<and> (\<forall>st'. dma_id_init st' = Inr n \<longrightarrow> st' = st)"
proof -
  have n: "n < length (irq_table s)"
    using assms(1,2) by (cases st) (auto simp: MAX_IRQ_def)
  obtain c where c: "dma_clock_init n = Inr c"
    using assms(1) by (cases st) (auto simp: dma_clock_init_def)
  obtain t where t: "irq_init n p (Some h) (Some a) s = Some (EOK, t)"
    using irq_init_free [OF n assms(3)] by blast
  have e: "irq_enable n t = Some (EOK, t \<lparr> nvic_priority := (n, p) # nvic_priority t, nvic_enabled := (nvic_enabled t)(n := True) \<rparr>)"
    using irq_init_ok [OF t] by (simp add: irq_enable_def arr_get_def)
  have "\<forall>st'. dma_id_init st' = Inr n \<longrightarrow> st' = st"
  proof (intro allI impI)
    show "st' = st" if "dma_id_init st' = Inr n" for st'
      by (rule dma_id_inject [OF that assms(1)])
  qed
  moreover have "irq_fire n (t \<lparr> nvic_priority := (n, p) # nvic_priority t, nvic_enabled := (nvic_enabled t)(n := True) \<rparr>)
      = Some (Run h (Some a))"
    using irq_handler_installed(1) [OF t] dma_vectors [OF assms(1)] by (simp add: irq_fire_def)
  moreover have "dma_init (Some (st, p)) hal (Some h) (Some a) clocks s = Some (Hal hal, c # clocks,
      t \<lparr> nvic_priority := (n, p) # nvic_priority t, nvic_enabled := (nvic_enabled t)(n := True) \<rparr>)"
    using c t e assms(1) by (simp add: dma_init_def)
  moreover have "nvic_enabled (t \<lparr> nvic_priority := (n, p) # nvic_priority t, nvic_enabled := (nvic_enabled t)(n := True) \<rparr>) n"
    by simp
  ultimately show ?thesis
    by blast
qed

theorem dma_stream_served_witness:
  "\<exists>c s'. dma_init (Some (DMA1_Stream0, 5)) 0 (Some 1) (Some 2) [] no_irqs = Some (Hal 0, [c], s') \<and> nvic_enabled s' 11"
proof -
  have "length (irq_table no_irqs) = MAX_IRQ" and "ie_handler (irq_table no_irqs ! 11) = None"
    by (simp_all add: no_irqs_def MAX_IRQ_def)
  from dma_stream_served [OF dma_id_init.simps(1) this, of 5 0 1 2 "[]"] show ?thesis
    by blast
qed

end
