(* ===== verification/Sd.thy ===== *)
theory Sd
  imports Rtos Irq
begin

text \<open>
  The SD card: the driver of the controller (bsp/mcu/periph/sdio/stm32/sdio.c), the card
  (bsp/ics/sd/sd.c) and the glue of the file system library to it (os/fatfs/port/diskio.c).
  What the vendor library, the tick counter and the other tasks do during a call is the argument \<open>env\<close>
  of the call. A call that never returns, or an access through a null pointer, is None.
\<close>

section \<open>The controller (sdio.c)\<close>

datatype sdmmc = SDMMC1 | SDMMC2 | Other_sdmmc nat
datatype sdio_ex_state = SDIO_FREE | SDIO_WRITE | SDIO_READ
datatype sdio_cd_state = SDIO_CONNECTED | SDIO_NOT_CONNECTED

definition num_EINVAL :: u32 where "num_EINVAL = 22"
definition num_ENXIO :: u32 where "num_ENXIO = 6"
definition num_ETIMEDOUT :: u32 where "num_ETIMEDOUT = 116"

definition HAL_SD_CARD_TRANSFER :: u32 where "HAL_SD_CARD_TRANSFER = 4"
definition HAL_SD_CARD_DISCONNECTED :: u32 where "HAL_SD_CARD_DISCONNECTED = 8"
definition HAL_SD_CARD_ERROR :: u32 where "HAL_SD_CARD_ERROR = 0xFF"

text \<open>What is started on the hardware during a transfer.\<close>

datatype sd_hw_op = Clean_dcache nat | Start_read u32 u32 | Start_write u32 u32

record sdio =
  sd_instance :: sdmmc
  sd_pins :: "gpio option list"  \<comment> \<open>ck, cmd, d0, d1, d2, d3, cd\<close>
  sd_timeout :: u32
  sd_irq_priority :: int
  sd_id :: nat
  sd_state :: sdio_ex_state
  sd_connected :: sdio_cd_state
  sd_sem :: bool
  sd_mutex :: mutex
  sd_ops :: "sd_hw_op list"

text \<open>\<open>released\<close>: a mutex held by another task is given back in time. \<open>tick\<close>, \<open>card\<close>: the
  results of the successive calls of xTaskGetTickCount and HAL_SD_GetCardState. \<open>start\<close>: the
  result of starting the transfer. \<open>done\<close>: its interrupt arrives in time. \<open>error\<close>: the error code of the
  library after it. \<open>dcache\<close>: the data cache is on.\<close>

record sd_env =
  e_released :: bool
  e_tick :: "nat \<Rightarrow> u32"
  e_card :: "nat \<Rightarrow> u32"
  e_start :: u32
  e_done :: bool
  e_error :: u32
  e_dcache :: bool

text \<open>The loop of \<open>sdio_check_status_with_timeout\<close>; it may run for ever, which is None.\<close>

partial_function (option) status_loop :: "sd_env \<Rightarrow> u32 \<Rightarrow> nat \<Rightarrow> u32 \<Rightarrow> u32 option" where
  "status_loop env timeout i dt =
     (if dt < timeout
      then (if e_card env i = HAL_SD_CARD_TRANSFER then Some 0
            else status_loop env timeout (Suc i) (e_tick env (Suc i) - e_tick env 0))
      else Some num_ETIMEDOUT)"

definition sdio_check_status_with_timeout :: "sd_env \<Rightarrow> u32 \<Rightarrow> u32 option" where
  "sdio_check_status_with_timeout env timeout = status_loop env timeout 0 0"

text \<open>The label \<open>free\<close> of the transfers.\<close>

definition sdio_free :: "task \<Rightarrow> u32 \<Rightarrow> sdio \<Rightarrow> (u32 \<times> sdio) option" where
  "sdio_free me rv s = do {
     m \<leftarrow> mutex_give me (sd_mutex s);
     Some (rv, s \<lparr> sd_state := SDIO_FREE, sd_mutex := m \<rparr>)
   }"

text \<open>Waiting for the end of a transfer that has been started.\<close>

definition sdio_wait :: "sd_env \<Rightarrow> u32" where
  "sdio_wait env =
     (let rv = (if \<not> e_done env then num_ETIMEDOUT else 0)
      in if e_error env \<noteq> 0 then rv OR e_error env else rv)"

definition sdio_read_blocks ::
    "task \<Rightarrow> sd_env \<Rightarrow> bool \<Rightarrow> u32 \<Rightarrow> u32 \<Rightarrow> sdio \<Rightarrow> (u32 \<times> sdio) option" where
  "sdio_read_blocks me env null address num s =
     (if num = 0 \<or> null then Some (num_EINVAL, s)
      else (case mutex_take me (e_released env) (sd_mutex s) of (ok, m) \<Rightarrow>
        if \<not> ok then sdio_free me num_ETIMEDOUT s
        else (let s = s \<lparr> sd_mutex := m, sd_sem := False, sd_state := SDIO_READ \<rparr> in do {
          rv \<leftarrow> sdio_check_status_with_timeout env (sd_timeout s);
          if rv \<noteq> 0 then sdio_free me rv s
          else (let s = s \<lparr> sd_ops := sd_ops s @ [Start_read address num] \<rparr> in
            if e_start env \<noteq> 0 then sdio_free me (e_start env) s
            else sdio_free me (sdio_wait env) s)
        })))"

definition sdio_write_blocks ::
    "task \<Rightarrow> sd_env \<Rightarrow> bool \<Rightarrow> u32 \<Rightarrow> u32 \<Rightarrow> sdio \<Rightarrow> (u32 \<times> sdio) option" where
  "sdio_write_blocks me env null address num s =
     (if num = 0 \<or> null then Some (num_EINVAL, s)
      else (case mutex_take me (e_released env) (sd_mutex s) of (ok, m) \<Rightarrow>
        if \<not> ok then sdio_free me num_ETIMEDOUT s
        else (let s = s \<lparr> sd_mutex := m, sd_sem := False, sd_state := SDIO_WRITE \<rparr> in do {
          rv \<leftarrow> sdio_check_status_with_timeout env (sd_timeout s);
          if rv \<noteq> 0 then sdio_free me rv s
          else (let s = (if e_dcache env then s \<lparr> sd_ops := sd_ops s @ [Clean_dcache (unat (num * 512))] \<rparr> else s);
                    s = s \<lparr> sd_ops := sd_ops s @ [Start_write address num] \<rparr> in
            if e_start env \<noteq> 0 then sdio_free me (e_start env) s
            else sdio_free me (sdio_wait env) s)
        })))"

text \<open>The level of the card detect pin is read through the pin \<open>cd\<close>.\<close>

definition sdio_detect :: "gpio_hw \<Rightarrow> sdio \<Rightarrow> (u32 \<times> sdio) option" where
  "sdio_detect hw s = do {
     p \<leftarrow> arr_get (sd_pins s) 6;
     g \<leftarrow> p;
     if gpio_read g hw = 0 then Some (num_ENXIO, s \<lparr> sd_connected := SDIO_NOT_CONNECTED \<rparr>)
     else Some (0, s \<lparr> sd_connected := SDIO_CONNECTED \<rparr>)
   }"

definition sdio_get_status :: "sd_env \<Rightarrow> u32" where
  "sdio_get_status env =
     (if e_card env 0 = HAL_SD_CARD_ERROR \<or> e_card env 0 = HAL_SD_CARD_DISCONNECTED then e_card env 0 else 0)"

text \<open>The interrupt; \<open>ready\<close>: the library has left its state ready.\<close>

definition sdio_handler :: "bool \<Rightarrow> sdio \<Rightarrow> sdio" where
  "sdio_handler ready s = (if ready then s \<lparr> sd_sem := True \<rparr> else s)"

definition sdio_id_init :: "sdio \<Rightarrow> errno \<times> sdio" where
  "sdio_id_init s =
     (case sd_instance s of
        SDMMC1 \<Rightarrow> (EOK, s \<lparr> sd_id := 49 \<rparr>)
      | SDMMC2 \<Rightarrow> (EOK, s \<lparr> sd_id := 124 \<rparr>)
      | Other_sdmmc _ \<Rightarrow> (EINVAL, s))"

definition sdio_clock_init :: "sdio \<Rightarrow> errno" where
  "sdio_clock_init s = (if sd_id s = 49 \<or> sd_id s = 124 then EOK else EINVAL)"

fun init_pins :: "gpio option list \<Rightarrow> gpio_hw \<Rightarrow> errno \<times> gpio_hw" where
  "init_pins [] hw = (EOK, hw)"
| "init_pins (g # gs) hw = (case gpio_init g hw of (rv, hw) \<Rightarrow> if rv \<noteq> EOK then (rv, hw) else init_pins gs hw)"

text \<open>\<open>hal1\<close>, \<open>hal2\<close>: the results of HAL_SD_Init and HAL_SD_ConfigSpeedBusOperation. \<open>mtx\<close>, \<open>sm\<close>: the
  mutex and the semaphore can be created. The handler is the number \<open>h\<close>.\<close>

definition sdio_init ::
    "int \<Rightarrow> int \<Rightarrow> bool \<Rightarrow> bool \<Rightarrow> 'h \<Rightarrow> 'a \<Rightarrow> sdio \<Rightarrow> gpio_hw \<Rightarrow> ('h, 'a) irq_state \<Rightarrow>
     (init_result \<times> sdio \<times> gpio_hw \<times> ('h, 'a) irq_state) option" where
  "sdio_init hal1 hal2 mtx sm h a s hw irqs =
     (case sdio_id_init s of (rv, s) \<Rightarrow>
        if rv \<noteq> EOK then Some (Errno rv, s, hw, irqs)
        else if sdio_clock_init s \<noteq> EOK then Some (Errno (sdio_clock_init s), s, hw, irqs)
        else (case init_pins (sd_pins s) hw of (rv, hw) \<Rightarrow>
          if rv \<noteq> EOK then Some (Errno rv, s, hw, irqs)
          else if hal1 \<noteq> 0 then Some (Hal hal1, s, hw, irqs)
          else if hal2 \<noteq> 0 then Some (Hal hal2, s, hw, irqs)
          else do {
            (rv, irqs) \<leftarrow> irq_init (sd_id s) (sd_irq_priority s) (Some h) (Some a) irqs;
            if rv \<noteq> EOK then Some (Errno rv, s, hw, irqs)
            else do {
              (rv, irqs) \<leftarrow> irq_enable (sd_id s) irqs;
              if rv \<noteq> EOK then Some (Errno rv, s, hw, irqs)
              else if \<not> mtx then Some (Hal (- 1), s, hw, irqs)
              else if \<not> sm then Some (Hal (- 1), s \<lparr> sd_mutex := None \<rparr>, hw, irqs)
              else Some (Errno EOK, s \<lparr> sd_mutex := None, sd_sem := False \<rparr>, hw, irqs)
            }
          }))"

section \<open>The card (sd.c)\<close>

text \<open>The card; \<open>sc_has_mutex\<close> is False when its mutex could not be created.\<close>

record sdcard =
  sc_name :: string
  sc_sdio :: sdio
  sc_has_mutex :: bool
  sc_mutex :: mutex
  sc_LogBlockNbr :: u32
  sc_LogBlockSize :: u32

text \<open>The pointer \<open>dev\<close> is None before the card is started. \<open>sdcard_start\<close> sets it even when it
  fails.\<close>

definition sdcard_start :: "string option \<Rightarrow> sdio option \<Rightarrow> bool \<Rightarrow> sdcard option \<Rightarrow> bool \<times> sdcard option" where
  "sdcard_start nm sdio mtx dev =
     (case (nm, sdio) of
        (Some n, Some s) \<Rightarrow>
          (mtx, Some \<lparr> sc_name = take 31 n, sc_sdio = s, sc_has_mutex = mtx, sc_mutex = None, sc_LogBlockNbr = 0, sc_LogBlockSize = 0 \<rparr>)
      | _ \<Rightarrow> (False, dev))"

definition sdcard_init :: "sdcard option \<Rightarrow> int" where
  "sdcard_init dev = (if dev = None then - 1 else 0)"

definition card_take :: "task \<Rightarrow> sd_env \<Rightarrow> sdcard \<Rightarrow> sdcard option" where
  "card_take me env c =
     (if \<not> sc_has_mutex c then None
      else map_option (\<lambda>m. c \<lparr> sc_mutex := m \<rparr>) (mutex_take_forever me (e_released env) (sc_mutex c)))"

definition card_give :: "task \<Rightarrow> sdcard \<Rightarrow> sdcard option" where
  "card_give me c = map_option (\<lambda>m. c \<lparr> sc_mutex := m \<rparr>) (mutex_give me (sc_mutex c))"

definition sdcard_read :: "task \<Rightarrow> sd_env \<Rightarrow> bool \<Rightarrow> u32 \<Rightarrow> u32 \<Rightarrow> sdcard \<Rightarrow> (u32 \<times> sdcard) option" where
  "sdcard_read me env null address num c = do {
     c \<leftarrow> card_take me env c;
     (rv, s) \<leftarrow> sdio_read_blocks me env null address num (sc_sdio c);
     c \<leftarrow> card_give me (c \<lparr> sc_sdio := s \<rparr>);
     Some (rv, c)
   }"

definition sdcard_write :: "task \<Rightarrow> sd_env \<Rightarrow> bool \<Rightarrow> u32 \<Rightarrow> u32 \<Rightarrow> sdcard \<Rightarrow> (u32 \<times> sdcard) option" where
  "sdcard_write me env null address num c = do {
     c \<leftarrow> card_take me env c;
     (rv, s) \<leftarrow> sdio_write_blocks me env null address num (sc_sdio c);
     c \<leftarrow> card_give me (c \<lparr> sc_sdio := s \<rparr>);
     Some (rv, c)
   }"

text \<open>\<open>info\<close>: what HAL_SD_GetCardInfo returns and stores (blocks, block size).\<close>

definition sdcard_get_info :: "task \<Rightarrow> sd_env \<Rightarrow> u32 \<times> u32 \<times> u32 \<Rightarrow> sdcard \<Rightarrow> (u32 \<times> sdcard) option" where
  "sdcard_get_info me env info c = do {
     c \<leftarrow> card_take me env c;
     c \<leftarrow> card_give me (c \<lparr> sc_LogBlockNbr := fst (snd info), sc_LogBlockSize := snd (snd info) \<rparr>);
     Some (fst info, c)
   }"

definition sdcard_get_status :: "task \<Rightarrow> sd_env \<Rightarrow> sdcard \<Rightarrow> (u32 \<times> sdcard) option" where
  "sdcard_get_status me env c = do {
     c \<leftarrow> card_take me env c;
     c \<leftarrow> card_give me c;
     Some (sdio_get_status env, c)
   }"

definition sdcard_get_status_with_timeout :: "task \<Rightarrow> sd_env \<Rightarrow> sdcard \<Rightarrow> (u32 \<times> sdcard) option" where
  "sdcard_get_status_with_timeout me env c = do {
     c \<leftarrow> card_take me env c;
     rv \<leftarrow> sdio_check_status_with_timeout env 10000;
     c \<leftarrow> card_give me c;
     Some (rv, c)
   }"

definition sdcard_get_sector_count :: "task \<Rightarrow> sd_env \<Rightarrow> u32 \<times> u32 \<times> u32 \<Rightarrow> sdcard \<Rightarrow> (u32 \<times> sdcard) option" where
  "sdcard_get_sector_count me env info c = do {
     c \<leftarrow> card_take me env c;
     (rv, c) \<leftarrow> sdcard_get_info me env info c;
     c \<leftarrow> card_give me c;
     Some (sc_LogBlockNbr c, c)
   }"

definition sdcard_get_sector_size :: "task \<Rightarrow> sd_env \<Rightarrow> u32 \<times> u32 \<times> u32 \<Rightarrow> sdcard \<Rightarrow> (u16 \<times> sdcard) option" where
  "sdcard_get_sector_size me env info c = do {
     c \<leftarrow> card_take me env c;
     (rv, c) \<leftarrow> sdcard_get_info me env info c;
     c \<leftarrow> card_give me c;
     Some (ucast (sc_LogBlockSize c), c)
   }"

definition sdcard_get_block_size :: "task \<Rightarrow> sd_env \<Rightarrow> u32 \<times> u32 \<times> u32 \<Rightarrow> sdcard \<Rightarrow> (u32 \<times> sdcard) option" where
  "sdcard_get_block_size me env info c = do {
     c \<leftarrow> card_take me env c;
     (rv, c) \<leftarrow> sdcard_get_info me env info c;
     c \<leftarrow> card_give me c;
     Some (sc_LogBlockSize c div 512, c)
   }"

section \<open>The glue (diskio.c)\<close>

datatype dresult = RES_OK | RES_ERROR | RES_WRPRT | RES_NOTRDY | RES_PARERR

definition disk_status :: "task \<Rightarrow> sd_env \<Rightarrow> sdcard option \<Rightarrow> (u8 \<times> sdcard option) option" where
  "disk_status me env dev = do {
     c \<leftarrow> dev;
     (rv, c) \<leftarrow> sdcard_get_status me env c;
     Some (if rv \<noteq> 0 then 3 else 0, Some c)
   }"

definition disk_initialize :: "sdcard option \<Rightarrow> u8" where
  "disk_initialize dev = (if sdcard_init dev \<noteq> 0 then 1 else 0)"

definition disk_read :: "task \<Rightarrow> sd_env \<Rightarrow> bool \<Rightarrow> u32 \<Rightarrow> u32 \<Rightarrow> sdcard option \<Rightarrow> (dresult \<times> sdcard option) option" where
  "disk_read me env null sector count dev = do {
     c \<leftarrow> dev;
     (rv, c) \<leftarrow> sdcard_read me env null sector count c;
     Some (if rv \<noteq> 0 then RES_ERROR else RES_OK, Some c)
   }"

definition disk_write :: "task \<Rightarrow> sd_env \<Rightarrow> bool \<Rightarrow> u32 \<Rightarrow> u32 \<Rightarrow> sdcard option \<Rightarrow> (dresult \<times> sdcard option) option" where
  "disk_write me env null sector count dev = do {
     c \<leftarrow> dev;
     (rv, c) \<leftarrow> sdcard_write me env null sector count c;
     Some (if rv \<noteq> 0 then RES_ERROR else RES_OK, Some c)
   }"

text \<open>The result, the value stored in the buffer if any, and the card.\<close>

definition disk_ioctl ::
    "task \<Rightarrow> sd_env \<Rightarrow> u32 \<times> u32 \<times> u32 \<Rightarrow> u8 \<Rightarrow> sdcard option \<Rightarrow> (dresult \<times> u32 option \<times> sdcard option) option" where
  "disk_ioctl me env info cmd dev =
     (if cmd = 0 then Some (RES_OK, None, dev)
      else if cmd = 1 then do {
        c \<leftarrow> dev; (v, c) \<leftarrow> sdcard_get_sector_count me env info c; Some (RES_OK, Some v, Some c) }
      else if cmd = 2 then do {
        c \<leftarrow> dev; (v, c) \<leftarrow> sdcard_get_sector_size me env info c; Some (RES_OK, Some (ucast v), Some c) }
      else if cmd = 3 then do {
        c \<leftarrow> dev; (v, c) \<leftarrow> sdcard_get_block_size me env info c; Some (RES_OK, Some v, Some c) }
      else Some (RES_PARERR, None, dev))"

section \<open>Properties\<close>

declare status_loop.simps [simp del]

text \<open>The loop runs up to the first round whose card state is the wanted one or after which the
  time is up.\<close>

lemma status_loop_until:
  assumes "i \<le> n" and "dt < timeout"
    and "\<forall>m. i \<le> m \<longrightarrow> m < n \<longrightarrow> e_card env m \<noteq> HAL_SD_CARD_TRANSFER \<and> e_tick env (Suc m) - e_tick env 0 < timeout"
    and "e_card env n = HAL_SD_CARD_TRANSFER \<or> \<not> e_tick env (Suc n) - e_tick env 0 < timeout"
  shows "status_loop env timeout i dt = Some (if e_card env n = HAL_SD_CARD_TRANSFER then 0 else num_ETIMEDOUT)"
  using assms
proof (induction "n - i" arbitrary: i dt)
  case 0
  then show ?case
    by (subst status_loop.simps) (auto simp: status_loop.simps [of env timeout "Suc i"])
next
  case (Suc k)
  then have i: "i < n" "e_card env i \<noteq> HAL_SD_CARD_TRANSFER" "e_tick env (Suc i) - e_tick env 0 < timeout"
    by auto
  then have "status_loop env timeout (Suc i) (e_tick env (Suc i) - e_tick env 0) =
      Some (if e_card env n = HAL_SD_CARD_TRANSFER then 0 else num_ETIMEDOUT)"
    using Suc.prems Suc.hyps(2) by (intro Suc.hyps(1)) auto
  then show ?case
    using i Suc.prems(2) by (subst status_loop.simps) simp
qed

text \<open>C22: Waiting for the card returns, whatever the tick counter does at its wrap-around, as soon
  as one poll finds the card ready or sees the time up; it returns 0 exactly when a poll finds the card
  ready before one sees the time up, and the timeout error otherwise.\<close>

theorem status_wait_returns:
  assumes "0 < timeout" and "e_card env k = HAL_SD_CARD_TRANSFER \<or> timeout \<le> e_tick env (Suc k) - e_tick env 0"
  shows "\<exists>r. sdio_check_status_with_timeout env timeout = Some r \<and> (r = 0 \<or> r = num_ETIMEDOUT) \<and>
     (r = 0 \<longleftrightarrow> (\<exists>n. e_card env n = HAL_SD_CARD_TRANSFER \<and> (\<forall>m < n. e_tick env (Suc m) - e_tick env 0 < timeout)))"
proof -
  let ?P = "\<lambda>n. e_card env n = HAL_SD_CARD_TRANSFER \<or> \<not> e_tick env (Suc n) - e_tick env 0 < timeout"
  have "?P k"
    using assms(2) by auto
  then obtain n where n: "?P n" "\<And>m. m < n \<Longrightarrow> \<not> ?P m"
    using exists_least_iff [of ?P] by blast
  have r: "sdio_check_status_with_timeout env timeout = Some (if e_card env n = HAL_SD_CARD_TRANSFER then 0 else num_ETIMEDOUT)"
    unfolding sdio_check_status_with_timeout_def
    using n assms(1) by (intro status_loop_until) auto
  have "(\<exists>n. e_card env n = HAL_SD_CARD_TRANSFER \<and> (\<forall>m < n. e_tick env (Suc m) - e_tick env 0 < timeout)) \<longleftrightarrow>
      e_card env n = HAL_SD_CARD_TRANSFER"
  proof
    assume "\<exists>n. e_card env n = HAL_SD_CARD_TRANSFER \<and> (\<forall>m < n. e_tick env (Suc m) - e_tick env 0 < timeout)"
    then obtain n' where "e_card env n' = HAL_SD_CARD_TRANSFER" and "\<forall>m < n'. e_tick env (Suc m) - e_tick env 0 < timeout"
      by blast
    then show "e_card env n = HAL_SD_CARD_TRANSFER"
      using n by (metis linorder_neqE_nat)
  next
    assume "e_card env n = HAL_SD_CARD_TRANSFER"
    then show "\<exists>n. e_card env n = HAL_SD_CARD_TRANSFER \<and> (\<forall>m < n. e_tick env (Suc m) - e_tick env 0 < timeout)"
      using n(2) by blast
  qed
  then show ?thesis
    using r by (auto simp: num_ETIMEDOUT_def)
qed

text \<open>A card that becomes ready at the third poll.\<close>

definition demo_env :: sd_env where
  "demo_env = \<lparr> e_released = False, e_tick = (\<lambda>n. 0xFFFFFFFF + word_of_nat n), e_card = (\<lambda>n. if n < 2 then 7 else 4),
     e_start = 0, e_done = True, e_error = 0, e_dcache = True \<rparr>"

definition demo_sdio :: sdio where
  "demo_sdio = \<lparr> sd_instance = SDMMC1, sd_pins = [], sd_timeout = 100, sd_irq_priority = 5, sd_id = 49, sd_state = SDIO_FREE,
     sd_connected = SDIO_CONNECTED, sd_sem = False, sd_mutex = None, sd_ops = [] \<rparr>"

theorem status_wait_returns_witness:
  "\<exists>r. sdio_check_status_with_timeout demo_env 100 = Some r \<and> (r = 0 \<or> r = num_ETIMEDOUT)"
  using status_wait_returns [of 100 demo_env 2] by (simp add: demo_env_def HAL_SD_CARD_TRANSFER_def) blast



text \<open>The queries of the geometry of the card never return: they take the mutex of the card and
  then call a function that takes it again.\<close>

theorem sd_geometry_queries_block:
  "disk_ioctl me env info 1 dev = None \<and> disk_ioctl me env info 2 dev = None \<and> disk_ioctl me env info 3 dev = None"
proof -
  have twice: "card_take me env c = Some c' \<Longrightarrow> sdcard_get_info me env info c' = None" for c c'
    by (auto simp: card_take_def mutex_take_forever_def mutex_take_def sdcard_get_info_def split: if_splits)
  have "sdcard_get_sector_count me env info c = None" and "sdcard_get_sector_size me env info c = None"
    and "sdcard_get_block_size me env info c = None" for c
    using twice by (cases "card_take me env c";
        simp add: sdcard_get_sector_count_def sdcard_get_sector_size_def sdcard_get_block_size_def)+
  then show ?thesis
    by (cases dev) (simp_all add: disk_ioctl_def)
qed

end
