(* ===== verification/Platform.thy ===== *)
theory Platform
  imports Irq VfsNode Rtos
begin

text \<open>
  What the initialisers of the drivers share: the platform they set up (pins, clocks, table of
  interrupt handlers, tree of mount points) and the chain of calls that stops at the first
  failure, \<open>if ((rv = call())) return rv;\<close> in the code.
\<close>

section \<open>Chains of calls\<close>

text \<open>A call of a driver returns an error number or a code of the vendor library; both are 0
  for success.\<close>

definition init_ok :: "init_result \<Rightarrow> bool" where
  "init_ok r \<longleftrightarrow> r = Errno EOK \<or> r = Hal 0"

lemma init_ok_simps [simp]:
  "init_ok (Errno e) \<longleftrightarrow> e = EOK" "init_ok (Hal n) \<longleftrightarrow> n = 0"
  by (auto simp: init_ok_def)

text \<open>\<open>and_then m k\<close> goes on with \<open>k\<close> when \<open>m\<close> succeeds; None is undefined behaviour.\<close>

type_synonym 's action = "'s \<Rightarrow> (init_result \<times> 's) option"

definition and_then :: "'s action \<Rightarrow> 's action \<Rightarrow> 's action" where
  "and_then m k s = (case m s of None \<Rightarrow> None | Some (r, s') \<Rightarrow> if init_ok r then k s' else Some (r, s'))"

fun chain :: "'s action list \<Rightarrow> 's action" where
  "chain [] s = Some (Errno EOK, s)"
| "chain [m] s = m s"
| "chain (m # m' # ms) s = and_then m (chain (m' # ms)) s"

lemma and_then_ok:
  assumes "and_then m k s = Some (r, s')" and "init_ok r"
  obtains r1 s1 where "m s = Some (r1, s1)" and "init_ok r1" and "k s1 = Some (r, s')"
  using assms by (auto simp: and_then_def split: option.splits if_splits)

lemma and_then_run: "m s = Some (r1, s1) \<Longrightarrow> init_ok r1 \<Longrightarrow> and_then m k s = k s1"
  by (simp add: and_then_def)

lemma and_then_fail: "m s = Some (r1, s1) \<Longrightarrow> \<not> init_ok r1 \<Longrightarrow> and_then m k s = Some (r1, s1)"
  by (simp add: and_then_def)

lemma chain_ok_iff:
  "(\<exists>r. chain (m # m' # ms) s = Some (r, s') \<and> init_ok r) \<longleftrightarrow>
   (\<exists>r1 s1. m s = Some (r1, s1) \<and> init_ok r1 \<and> (\<exists>r. chain (m' # ms) s1 = Some (r, s') \<and> init_ok r))"
  by (auto simp: and_then_def split: option.splits if_splits)

text \<open>A failing call ends the chain: what follows is not run.\<close>

lemma chain_stops:
  "m s = Some (r, s') \<Longrightarrow> \<not> init_ok r \<Longrightarrow> chain (m # ms) s = Some (r, s')"
  by (cases ms) (simp_all add: and_then_def)

lemma chain_goes_on:
  "m s = Some (r, s') \<Longrightarrow> init_ok r \<Longrightarrow> ms \<noteq> [] \<Longrightarrow> chain (m # ms) s = chain ms s'"
  by (cases ms) (simp_all add: and_then_def)

text \<open>What every call of a chain keeps, the chain keeps.\<close>

lemma chain_invariant:
  assumes "\<And>m s r s'. m \<in> set ms \<Longrightarrow> P s \<Longrightarrow> m s = Some (r, s') \<Longrightarrow> P s'"
    and "P s" and "chain ms s = Some (r, s')"
  shows "P s'"
  using assms
proof (induction ms s arbitrary: r s' rule: chain.induct)
  case (3 m m' ms s)
  show ?case
  proof (cases "m s")
    case None
    then show ?thesis
      using "3.prems" by (simp add: and_then_def)
  next
    case (Some a)
    obtain r1 s1 where a: "a = (r1, s1)"
      by (cases a)
    have s1: "P s1"
      using "3.prems"(1) [of m s r1 s1] "3.prems"(2) Some a by simp
    show ?thesis
    proof (cases "init_ok r1")
      case True
      then have "chain (m' # ms) s1 = Some (r, s')"
        using "3.prems"(3) Some a by (simp add: and_then_def)
      moreover have "\<And>n s r s'. n \<in> set (m' # ms) \<Longrightarrow> P s \<Longrightarrow> n s = Some (r, s') \<Longrightarrow> P s'"
        using "3.prems"(1) by auto
      ultimately show ?thesis
        using "3.IH" s1 by blast
    next
      case False
      then show ?thesis
        using "3.prems"(3) s1 Some a by (simp add: and_then_def)
    qed
  qed
qed auto

section \<open>The platform\<close>

text \<open>\<open>pf_bus\<close>: the clocks of the peripherals that have been turned on, by interrupt number.\<close>

record ('h, 'a, 'f) platform =
  pf_gpio :: gpio_hw
  pf_dma_clocks :: "nat list"
  pf_bus :: "nat list"
  pf_irqs :: "('h, 'a) irq_state"
  pf_root :: "'f node"

text \<open>The calls on the platform, on the state of a driver beside it.\<close>

definition on_platform ::
    "('p \<Rightarrow> (init_result \<times> 'p) option) \<Rightarrow> ('c \<times> 'p) action" where
  "on_platform f s = (case s of (c, p) \<Rightarrow> (case f p of None \<Rightarrow> None | Some (r, p) \<Rightarrow> Some (r, c, p)))"

definition on_device :: "('c \<Rightarrow> init_result \<times> 'c) \<Rightarrow> ('c \<times> 'p) action" where
  "on_device f s = (case s of (c, p) \<Rightarrow> (case f c of (r, c) \<Rightarrow> Some (r, c, p)))"

definition pf_gpio_init :: "gpio option \<Rightarrow> ('h, 'a, 'f) platform \<Rightarrow> (init_result \<times> ('h, 'a, 'f) platform) option" where
  "pf_gpio_init g p = (case gpio_init g (pf_gpio p) of (rv, hw) \<Rightarrow> Some (Errno rv, p \<lparr> pf_gpio := hw \<rparr>))"

definition pf_irq_init ::
    "nat \<Rightarrow> int \<Rightarrow> 'h \<Rightarrow> 'a \<Rightarrow> ('h, 'a, 'f) platform \<Rightarrow> (init_result \<times> ('h, 'a, 'f) platform) option" where
  "pf_irq_init n prio h a p = map_option (\<lambda>(rv, irqs). (Errno rv, p \<lparr> pf_irqs := irqs \<rparr>)) (irq_init n prio (Some h) (Some a) (pf_irqs p))"

definition pf_irq_enable :: "nat \<Rightarrow> ('h, 'a, 'f) platform \<Rightarrow> (init_result \<times> ('h, 'a, 'f) platform) option" where
  "pf_irq_enable n p = map_option (\<lambda>(rv, irqs). (Errno rv, p \<lparr> pf_irqs := irqs \<rparr>)) (irq_enable n (pf_irqs p))"

definition pf_dma_init ::
    "dma_stream \<times> int \<Rightarrow> int \<Rightarrow> 'h \<Rightarrow> 'a \<Rightarrow> ('h, 'a, 'f) platform \<Rightarrow> (init_result \<times> ('h, 'a, 'f) platform) option" where
  "pf_dma_init cfg hal h a p =
     map_option (\<lambda>(rv, clocks, irqs). (rv, p \<lparr> pf_dma_clocks := clocks, pf_irqs := irqs \<rparr>))
       (dma_init (Some cfg) hal (Some h) (Some a) (pf_dma_clocks p) (pf_irqs p))"

text \<open>Mounting at a path; without a node the driver's initialiser returns -1.\<close>

definition pf_mount ::
    "(nat \<Rightarrow> bool) \<Rightarrow> string \<Rightarrow> 'f \<Rightarrow> ('h, 'a, 'f) platform \<Rightarrow> (init_result \<times> ('h, 'a, 'f) platform) option" where
  "pf_mount alloc path f p =
     map_option (\<lambda>(root, n, e). (if n = None then Hal (- 1) else Errno EOK, p \<lparr> pf_root := root \<rparr>))
       (node_mount alloc (Some path) (Some f) (pf_root p))"

definition pf_bus_on :: "nat \<Rightarrow> ('h, 'a, 'f) platform \<Rightarrow> (init_result \<times> ('h, 'a, 'f) platform) option" where
  "pf_bus_on n p = Some (Errno EOK, p \<lparr> pf_bus := n # pf_bus p \<rparr>)"

text \<open>An object of the operating system or a piece of memory: when it cannot be had the initialiser
  returns -1.\<close>

definition create :: "bool \<Rightarrow> ('c \<Rightarrow> 'c) \<Rightarrow> ('c \<times> 'p) action" where
  "create ok f = on_device (\<lambda>c. if ok then (Errno EOK, f c) else (Hal (- 1), c))"

text \<open>A call of the vendor library, whose result is an argument.\<close>

definition hal_call :: "int \<Rightarrow> 's action" where
  "hal_call n s = Some (Hal n, s)"

section \<open>What the calls do\<close>

text \<open>The handler table and the tree of mount points after a successful call.\<close>

lemma on_platform_eq: "on_platform f (c, p) = Some (r, s') \<longleftrightarrow> (\<exists>p'. f p = Some (r, p') \<and> s' = (c, p'))"
  by (cases s') (auto simp: on_platform_def split: option.splits)

lemma on_device_eq: "on_device f (c, p) = Some (r, s') \<longleftrightarrow> (\<exists>c'. f c = (r, c') \<and> s' = (c', p))"
  by (cases s') (auto simp: on_device_def split: prod.splits)

lemma create_eq: "create ok f (c, p) = Some (r, s') \<longleftrightarrow> (if ok then r = Errno EOK \<and> s' = (f c, p) else r = Hal (- 1) \<and> s' = (c, p))"
  by (auto simp: create_def on_device_def)

lemma hal_call_eq: "hal_call n s = Some (r, s') \<longleftrightarrow> r = Hal n \<and> s' = s"
  by (auto simp: hal_call_def)

lemmas action_eqs = on_platform_eq on_device_eq create_eq hal_call_eq

lemma pf_gpio_init_keeps:
  "pf_gpio_init g p = Some (r, p') \<Longrightarrow> pf_irqs p' = pf_irqs p \<and> pf_root p' = pf_root p"
  by (auto simp: pf_gpio_init_def split: prod.splits)

lemma pf_bus_on_keeps:
  "pf_bus_on n p = Some (r, p') \<Longrightarrow> pf_irqs p' = pf_irqs p \<and> pf_root p' = pf_root p"
  by (auto simp: pf_bus_on_def)

lemma pf_dma_init_keeps: "pf_dma_init cfg hal h a p = Some (r, p') \<Longrightarrow> pf_root p' = pf_root p"
  by (auto simp: pf_dma_init_def split: option.splits)

lemma pf_irq_init_ok:
  assumes "pf_irq_init n prio h a p = Some (r, p')" and "init_ok r"
  shows "IRQ_Handler n (pf_irqs p') = Some (Run h (Some a)) \<and> pf_root p' = pf_root p \<and>
     (\<forall>j. j \<noteq> n \<longrightarrow> IRQ_Handler j (pf_irqs p') = IRQ_Handler j (pf_irqs p))"
proof -
  obtain irqs where "irq_init n prio (Some h) (Some a) (pf_irqs p) = Some (EOK, irqs)" and "p' = p \<lparr> pf_irqs := irqs \<rparr>"
    using assms by (auto simp: pf_irq_init_def)
  then show ?thesis
    using irq_handler_installed [of n prio h a "pf_irqs p" irqs] by simp
qed

text \<open>A handler can be installed only where there is none.\<close>

lemma pf_irq_init_twice:
  assumes "IRQ_Handler n (pf_irqs p) = Some (Run h' a')"
  shows "pf_irq_init n prio h a p = Some (Errno EEXIST, p)"
proof -
  have "n < length (irq_table (pf_irqs p))" and "ie_handler (irq_table (pf_irqs p) ! n) = Some h'"
    using assms by (auto simp: IRQ_Handler_def arr_get_eq_Some bind_eq_Some_conv split: option.splits)
  then have "irq_init n prio (Some h) (Some a) (pf_irqs p) = Some (EEXIST, pf_irqs p)"
    by (rule irq_init_taken)
  then show ?thesis
    by (simp add: pf_irq_init_def)
qed

lemma pf_irq_enable_ok:
  assumes "pf_irq_enable n p = Some (r, p')" and "init_ok r"
  shows "(\<forall>j. IRQ_Handler j (pf_irqs p') = IRQ_Handler j (pf_irqs p)) \<and> nvic_enabled (pf_irqs p') n \<and> pf_root p' = pf_root p \<and>
     (\<forall>j. nvic_enabled (pf_irqs p) j \<longrightarrow> nvic_enabled (pf_irqs p') j)"
proof -
  obtain irqs where e: "irq_enable n (pf_irqs p) = Some (EOK, irqs)" and p': "p' = p \<lparr> pf_irqs := irqs \<rparr>"
    using assms by (auto simp: pf_irq_enable_def)
  obtain q b where "irqs = pf_irqs p \<lparr> nvic_priority := q, nvic_enabled := b \<rparr>" and "b n" and "\<forall>j. nvic_enabled (pf_irqs p) j \<longrightarrow> b j"
    using e by (auto simp: irq_enable_def arr_get_def split: if_splits)
  then show ?thesis
    using p' by (simp add: IRQ_Handler_def)
qed

lemma pf_mount_ok:
  assumes "pf_mount alloc path f p = Some (r, p')" and "init_ok r"
  shows "tree_op (pf_root p') (path_tokens path) = Some (Some f) \<and> pf_irqs p' = pf_irqs p"
proof -
  obtain root t e where n: "node_mount alloc (Some path) (Some f) (pf_root p) = Some (root, Some t, e)"
      and p': "p' = p \<lparr> pf_root := root \<rparr>"
    using assms by (auto simp: pf_mount_def split: if_splits)
  have m: "mount_loop alloc 0 path f (pf_root p) = Some (root, True)"
    using n by (simp add: node_mount_def split: if_splits option.splits prod.splits)
  then show ?thesis
    using mount_loop_tree [OF m, of "path_tokens path"] p' by (simp add: mounted_def)
qed

section \<open>Reasoning about chains\<close>

text \<open>What holds after an action that succeeds, from what holds before.\<close>

definition triple :: "('s \<Rightarrow> bool) \<Rightarrow> 's action \<Rightarrow> ('s \<Rightarrow> bool) \<Rightarrow> bool" where
  "triple P m Q \<longleftrightarrow> (\<forall>s r s'. P s \<longrightarrow> m s = Some (r, s') \<longrightarrow> init_ok r \<longrightarrow> Q s')"

lemma tripleI: "(\<And>s r s'. P s \<Longrightarrow> m s = Some (r, s') \<Longrightarrow> init_ok r \<Longrightarrow> Q s') \<Longrightarrow> triple P m Q"
  by (simp add: triple_def)

lemma tripleD: "triple P m Q \<Longrightarrow> m s = Some (r, s') \<Longrightarrow> init_ok r \<Longrightarrow> P s \<Longrightarrow> Q s'"
  by (simp add: triple_def)

lemma triple_and_then: "triple P m R \<Longrightarrow> triple R k Q \<Longrightarrow> triple P (and_then m k) Q"
  unfolding triple_def by (metis and_then_ok)

lemma triple_chain: "triple P m R \<Longrightarrow> triple R (chain ms) Q \<Longrightarrow> triple P (chain (m # ms)) Q"
  by (cases ms) (auto simp: triple_def elim!: and_then_ok)

lemma triple_nil: "(\<And>s. P s \<Longrightarrow> Q s) \<Longrightarrow> triple P (chain []) Q"
  by (simp add: triple_def)

text \<open>The actions; the assertions are about the driver and the platform.\<close>

lemma triple_platform:
  "(\<And>c p r p'. P c p \<Longrightarrow> f c p = Some (r, p') \<Longrightarrow> init_ok r \<Longrightarrow> Q c p') \<Longrightarrow>
   triple (\<lambda>(c, p). P c p) (\<lambda>s. on_platform (f (fst s)) s) (\<lambda>(c, p). Q c p)"
  by (auto simp: triple_def action_eqs)

lemma triple_device:
  "(\<And>c p r c'. P c p \<Longrightarrow> f c = (r, c') \<Longrightarrow> init_ok r \<Longrightarrow> Q c' p) \<Longrightarrow> triple (\<lambda>(c, p). P c p) (on_device f) (\<lambda>(c, p). Q c p)"
  by (auto simp: triple_def action_eqs)

lemma triple_create:
  "(\<And>c p. ok \<Longrightarrow> P c p \<Longrightarrow> Q (f c) p) \<Longrightarrow> triple (\<lambda>(c, p). P c p) (create ok f) (\<lambda>(c, p). Q c p)"
  by (auto simp: triple_def action_eqs split: if_splits)

lemma triple_hal: "triple P (hal_call n) P"
  by (simp add: triple_def hal_call_def)

lemmas triples = triple_platform triple_device triple_create triple_hal

end
