(* ===== verification/Usart.thy ===== *)
theory Usart
  imports Platform RingBuf
begin

text \<open>
  The serial ports (bsp/mcu/periph/usart/stm32/usart.c): setting a port up, transfers with their
  mutexes, semaphores and interrupts, the two tasks that move bytes between the transfers and the ring
  buffers of the port, and the file operations on it. What the vendor library, the line and the
  other tasks do during a call is an argument of the call. A call that never returns, or an access outside
  an array, is None.
\<close>

section \<open>State\<close>

datatype usart_instance = USART1 | USART2 | USART3 | UART4 | UART5 | USART6 | UART7 | UART8 | Other_usart nat
datatype usart_state = USART_FREE | USART_TRANSMIT | USART_RECEIVE
datatype usart_receive_mode = USART_TIMEOUT | USART_IDLE
datatype usart_isr = usart_handler_isr | usart_dma_tx_handler | usart_dma_rx_handler

text \<open>The state the vendor library and the controller have reached when an interrupt is handled:
  its two state fields are ready, its counters, the remaining count of the receiving DMA stream and the
  idle flag of the line.\<close>

record uart_hw =
  gState_ready :: bool
  RxState_ready :: bool
  TxXferSize :: u16
  RxXferSize :: u16
  RxXferCount :: u16
  NDTR :: u32
  ISR_IDLE :: bool

text \<open>What is started on the hardware; the boolean tells whether DMA is used.\<close>

datatype uart_op = Start_tx bool "u8 list" | Start_rx bool u16 | Abort_rx

record usart =
  us_name :: string
  us_instance :: usart_instance
  us_dma_tx :: "(dma_stream \<times> int) option"  \<comment> \<open>None: the instance is null\<close>
  us_dma_rx :: "(dma_stream \<times> int) option"
  us_mode :: usart_receive_mode
  us_gpio_tx :: "gpio option"
  us_gpio_rx :: "gpio option"
  us_buf_size :: int
  us_irq_priority :: int
  us_read_timeout :: int
  us_BaudRate :: u32
  us_ClockPrescaler :: nat
  us_BRR :: u16
  us_idle_irq :: bool  \<comment> \<open>CR1.IDLEIE\<close>
  us_ops :: "uart_op list"
  us_id :: nat
  us_tx_sem :: bool
  us_rx_sem :: bool
  us_tx_mutex :: mutex
  us_rx_mutex :: mutex
  us_tx_state :: usart_state
  us_rx_state :: usart_state
  us_rx_count :: int
  us_tx_count :: int
  us_write_buf :: "ring_buf option"
  us_read_buf :: "ring_buf option"
  us_dma_rx_buf :: "u8 list option"
  us_dma_tx_buf :: "u8 list option"
  us_error :: bool
  us_periph_init :: bool
  us_tasks_init :: bool
  us_port_open :: bool
  us_use_dma :: bool
  us_stdio :: bool
  us_tasks :: "string list"

section \<open>Setting a port up\<close>

fun usart_irqn :: "usart_instance \<Rightarrow> nat option" where
  "usart_irqn USART1 = Some 37"
| "usart_irqn USART2 = Some 38"
| "usart_irqn USART3 = Some 39"
| "usart_irqn UART4 = Some 52"
| "usart_irqn UART5 = Some 53"
| "usart_irqn USART6 = Some 71"
| "usart_irqn UART7 = Some 82"
| "usart_irqn UART8 = Some 83"
| "usart_irqn (Other_usart _) = None"

definition usart_id_init :: "usart \<Rightarrow> init_result \<times> usart" where
  "usart_id_init c = (case usart_irqn (us_instance c) of None \<Rightarrow> (Errno EINVAL, c)
     | Some n \<Rightarrow> (Errno EOK, c \<lparr> us_id := n \<rparr>))"

definition usart_clock_init :: "(usart \<times> ('h, 'a, 'f) platform) action" where
  "usart_clock_init s = (case s of (c, p) \<Rightarrow>
     if us_id c \<in> {37, 38, 39, 52, 53, 71, 82, 83} then on_platform (pf_bus_on (us_id c)) s
     else Some (Errno EINVAL, s))"

text \<open>Both streams are given, or the port does not use DMA.\<close>

definition usart_dma_setup :: "int \<Rightarrow> int \<Rightarrow> (usart_isr \<Rightarrow> 'h) \<Rightarrow> 'a \<Rightarrow> (usart \<times> ('h, 'a, 'f) platform) action" where
  "usart_dma_setup hal_tx hal_rx h a s =
     (case (us_dma_tx (fst s), us_dma_rx (fst s)) of
        (Some tx, Some rx) \<Rightarrow>
          chain [on_platform (pf_dma_init tx hal_tx (h usart_dma_tx_handler) a),
                 on_platform (pf_dma_init rx hal_rx (h usart_dma_rx_handler) a),
                 on_device (\<lambda>c. (Errno EOK, c \<lparr> us_use_dma := True \<rparr>))] s
      | _ \<Rightarrow> on_device (\<lambda>c. (Errno EOK, c \<lparr> us_use_dma := False \<rparr>)) s)"

text \<open>The results of the vendor library and of the allocations during \<open>usart_init\<close>: the mutexes
  and semaphores and the two transfer buffers (\<open>ui_made\<close>), the objects of the ring buffers
  and the nodes of the mount point.\<close>

record usart_init_env =
  ui_dma_tx :: int
  ui_dma_rx :: int
  ui_uart :: int
  ui_made :: "nat \<Rightarrow> bool"
  ui_read_alloc :: "nat \<Rightarrow> bool"
  ui_write_alloc :: "nat \<Rightarrow> bool"
  ui_node_alloc :: "nat \<Rightarrow> bool"

text \<open>The argument of \<open>ring_buf_init\<close> is truncated to 16 bits.\<close>

definition new_ring :: "(nat \<Rightarrow> bool) \<Rightarrow> int \<Rightarrow> ring_buf option" where
  "new_ring alloc n = ring_buf_init alloc (word_of_int n)"

definition zeros :: "int \<Rightarrow> u8 list" where
  "zeros n = replicate (nat n) 0"

text \<open>The first part sets up the hardware, the second part the objects of the port; \<open>h\<close> and
  \<open>a\<close> are the addresses of the handlers and of the port, \<open>f\<close> is its file operations.\<close>

definition usart_init_hw ::
    "usart_init_env \<Rightarrow> (usart_isr \<Rightarrow> 'h) \<Rightarrow> 'a \<Rightarrow> 'f \<Rightarrow> (usart \<times> ('h, 'a, 'f) platform) action" where
  "usart_init_hw env h a f = chain [
     on_device usart_id_init,
     usart_clock_init,
     (\<lambda>s. on_platform (pf_gpio_init (us_gpio_rx (fst s))) s),
     (\<lambda>s. on_platform (pf_gpio_init (us_gpio_tx (fst s))) s),
     usart_dma_setup (ui_dma_tx env) (ui_dma_rx env) h a,
     (\<lambda>s. on_platform (pf_irq_init (us_id (fst s)) (us_irq_priority (fst s)) (h usart_handler_isr) a) s),
     (\<lambda>s. on_platform (pf_irq_enable (us_id (fst s))) s),
     hal_call (ui_uart env),
     (\<lambda>s. on_platform (pf_mount (ui_node_alloc env) (''/dev/'' @ us_name (fst s)) f) s)]"

definition usart_init_objects :: "usart_init_env \<Rightarrow> (usart \<times> 'p) action" where
  "usart_init_objects env = chain [
     create (ui_made env 0) (\<lambda>c. c \<lparr> us_tx_mutex := None \<rparr>),
     create (ui_made env 1) (\<lambda>c. c \<lparr> us_rx_mutex := None \<rparr>),
     create (ui_made env 2) (\<lambda>c. c \<lparr> us_tx_sem := False \<rparr>),
     create (ui_made env 3) (\<lambda>c. c \<lparr> us_rx_sem := False \<rparr>),
     on_device (\<lambda>c. case new_ring (ui_read_alloc env) (us_buf_size c) of
        None \<Rightarrow> (Hal (- 1), c \<lparr> us_read_buf := None \<rparr>) | Some rb \<Rightarrow> (Errno EOK, c \<lparr> us_read_buf := Some rb \<rparr>)),
     on_device (\<lambda>c. case new_ring (ui_write_alloc env) (us_buf_size c) of
        None \<Rightarrow> (Hal (- 1), c \<lparr> us_write_buf := None \<rparr>) | Some rb \<Rightarrow> (Errno EOK, c \<lparr> us_write_buf := Some rb \<rparr>)),
     create (ui_made env 4) (\<lambda>c. c \<lparr> us_dma_rx_buf := Some (zeros (us_buf_size c)) \<rparr>),
     create (ui_made env 5) (\<lambda>c. c \<lparr> us_dma_tx_buf := Some (zeros (us_buf_size c)) \<rparr>),
     on_device (\<lambda>c. (Errno EOK, c \<lparr> us_periph_init := True \<rparr>))]"

definition usart_init ::
    "usart_init_env \<Rightarrow> (usart_isr \<Rightarrow> 'h) \<Rightarrow> 'a \<Rightarrow> 'f \<Rightarrow> (usart \<times> ('h, 'a, 'f) platform) action" where
  "usart_init env h a f s =
     (if us_periph_init (fst s) then Some (Errno EOK, s)
      else and_then (usart_init_hw env h a f) (usart_init_objects env) s)"

section \<open>The interrupt\<close>

text \<open>The interrupt of the port, after the vendor library has brought its state to \<open>hw\<close>. The counts
  are int; the difference with the 32-bit register wraps around.\<close>

definition usart_handler :: "uart_hw \<Rightarrow> usart \<Rightarrow> usart" where
  "usart_handler hw c =
     (let c = (if gState_ready hw \<and> us_tx_state c = USART_TRANSMIT
               then c \<lparr> us_tx_count := (if us_use_dma c then sint (NDTR hw) else uint (TxXferSize hw)), us_tx_sem := True \<rparr>
               else c);
          c = (if RxState_ready hw \<and> us_rx_state c = USART_RECEIVE \<and> us_mode c = USART_TIMEOUT
               then c \<lparr> us_rx_count := (if us_use_dma c then sint (NDTR hw) else uint (RxXferSize hw)), us_rx_sem := True \<rparr>
               else c)
      in if ISR_IDLE hw \<and> us_rx_state c = USART_RECEIVE \<and> us_mode c = USART_IDLE
         then c \<lparr> us_rx_count := (if us_use_dma c then sint (ucast (RxXferSize hw) - NDTR hw)
                                  else uint (RxXferSize hw) - uint (RxXferCount hw)),
                  us_ops := us_ops c @ [Abort_rx], us_idle_irq := False, us_rx_sem := True \<rparr>
         else c)"

text \<open>A task that waits for a semaphore of the port, while the interrupts of a list occur: the first
  that gives the semaphore ends the wait. Without one the wait times out.\<close>

fun wait_sem :: "(usart \<Rightarrow> bool) \<Rightarrow> uart_hw list \<Rightarrow> usart \<Rightarrow> usart" where
  "wait_sem sem [] c = c"
| "wait_sem sem (hw # hws) c = (if sem c then c else wait_sem sem hws (usart_handler hw c))"

section \<open>Transfers\<close>

text \<open>During a transfer: the results of starting it, the states in which its interrupts find the
  library, and the bytes that arrive in the receive buffer.\<close>

record uart_env =
  ue_start_tx :: int
  ue_start_rx :: int
  ue_irqs :: "uart_hw list"
  ue_bytes :: "u8 list"

text \<open>The bytes the hardware has stored at the start of a buffer of which it may use \<open>n\<close> bytes.\<close>

definition stored :: "u8 list \<Rightarrow> nat \<Rightarrow> u8 list \<Rightarrow> u8 list option" where
  "stored bytes n buf = (let b = take n bytes in memcpy buf 0 b 0 (length b))"

definition usart_transmit :: "task \<Rightarrow> uart_env \<Rightarrow> u8 list option \<Rightarrow> u16 \<Rightarrow> usart \<Rightarrow> (init_result \<times> usart) option" where
  "usart_transmit me env pdata n c =
     (case pdata of None \<Rightarrow> Some (Errno EINVAL, c)
      | Some data \<Rightarrow>
        if n = 0 then Some (Errno EINVAL, c)
        else (case mutex_take me False (us_tx_mutex c) of (ok, m) \<Rightarrow>
          if \<not> ok then Some (Errno EBUSY, c)
          else if length data < unat n then None
          else (let
            c = c \<lparr> us_tx_mutex := m, us_tx_sem := False, us_tx_state := USART_TRANSMIT, us_tx_count := 0 \<rparr>;
            c = c \<lparr> us_ops := us_ops c @ [Start_tx (us_use_dma c) (take (unat n) data)] \<rparr>;
            (rv, c) = (if ue_start_tx env = 0
                       then (let c = wait_sem us_tx_sem (ue_irqs env) c
                             in (if us_tx_sem c then Hal 0 else Errno ETIMEDOUT, c \<lparr> us_tx_sem := False \<rparr>))
                       else (Hal (ue_start_tx env), c))
            in do {
              m \<leftarrow> mutex_give me (us_tx_mutex c);
              Some (rv, c \<lparr> us_tx_state := USART_FREE, us_tx_mutex := m \<rparr>)
            })))"

text \<open>The receive buffer after the call is part of the result.\<close>

definition usart_receive ::
    "task \<Rightarrow> uart_env \<Rightarrow> u8 list option \<Rightarrow> u16 \<Rightarrow> usart \<Rightarrow> (init_result \<times> u8 list option \<times> usart) option" where
  "usart_receive me env pdata n c =
     (case pdata of None \<Rightarrow> Some (Errno EINVAL, pdata, c)
      | Some buf \<Rightarrow>
        if n = 0 then Some (Errno EINVAL, pdata, c)
        else (case mutex_take me False (us_rx_mutex c) of (ok, m) \<Rightarrow>
          if \<not> ok then Some (Errno EBUSY, pdata, c)
          else (let
            c = c \<lparr> us_rx_mutex := m, us_rx_sem := False, us_rx_state := USART_RECEIVE, us_rx_count := 0 \<rparr>;
            c = (if us_mode c = USART_IDLE then c \<lparr> us_idle_irq := True \<rparr> else c);
            c = c \<lparr> us_ops := us_ops c @ [Start_rx (us_use_dma c) n] \<rparr>;
            (rv, c) = (if ue_start_rx env = 0
                       then (let c = wait_sem us_rx_sem (ue_irqs env) c
                             in (if us_rx_sem c then Hal 0 else Errno ETIMEDOUT, c \<lparr> us_rx_sem := False \<rparr>))
                       else (Hal (ue_start_rx env), c))
            in do {
              buf \<leftarrow> stored (ue_bytes env) (unat n) buf;
              m \<leftarrow> mutex_give me (us_rx_mutex c);
              Some (rv, Some buf, c \<lparr> us_rx_state := USART_FREE, us_rx_mutex := m \<rparr>)
            })))"

text \<open>The two mutexes are taken one after the other; the call fails when one of them is taken.\<close>

definition usart_transmit_receive ::
    "task \<Rightarrow> uart_env \<Rightarrow> u8 list option \<Rightarrow> u8 list option \<Rightarrow> u16 \<Rightarrow> u16 \<Rightarrow> usart \<Rightarrow>
     (init_result \<times> u8 list option \<times> usart) option" where
  "usart_transmit_receive me env tx rx tx_n rx_n c =
     (case (tx, rx) of
        (Some data, Some buf) \<Rightarrow>
          if tx_n = 0 \<or> rx_n = 0 then Some (Errno EINVAL, rx, c)
          else (case mutex_take me False (us_tx_mutex c) of (ok, m) \<Rightarrow>
            let c = c \<lparr> us_tx_mutex := m \<rparr> in
            if \<not> ok then Some (Errno EBUSY, rx, c)
            else (case mutex_take me False (us_rx_mutex c) of (ok, m) \<Rightarrow>
              let c = c \<lparr> us_rx_mutex := m \<rparr> in
              if \<not> ok then Some (Errno EBUSY, rx, c)
              else if length data < unat tx_n then None
              else (let
                c = c \<lparr> us_rx_sem := False, us_tx_state := USART_TRANSMIT, us_rx_state := USART_RECEIVE,
                        us_tx_count := 0, us_rx_count := 0, us_idle_irq := True \<rparr>;
                c = c \<lparr> us_ops := us_ops c @ [Start_rx (us_use_dma c) rx_n, Start_tx (us_use_dma c) (take (unat tx_n) data)] \<rparr>;
                rv = ue_start_rx env OR ue_start_tx env;
                (rv, c) = (if rv = 0
                           then (let c = wait_sem us_rx_sem (ue_irqs env) c
                                 in (if us_rx_sem c then Hal 0 else Errno ETIMEDOUT, c \<lparr> us_rx_sem := False \<rparr>))
                           else (Hal rv, c))
                in do {
                  buf \<leftarrow> stored (ue_bytes env) (unat rx_n) buf;
                  m \<leftarrow> mutex_give me (us_tx_mutex c);
                  m' \<leftarrow> mutex_give me (us_rx_mutex c);
                  Some (rv, Some buf, c \<lparr> us_tx_state := USART_FREE, us_rx_state := USART_FREE, us_tx_mutex := m, us_rx_mutex := m' \<rparr>)
                })))
      | _ \<Rightarrow> Some (Errno EINVAL, rx, c))"

text \<open>The divider for 16-fold sampling; \<open>pclk\<close> is HAL\_RCC\_GetPCLK1Freq. A speed of 0 divides by
  zero.\<close>

definition UARTPrescTable :: "u32 list" where
  "UARTPrescTable = [1, 2, 4, 6, 8, 10, 12, 16, 32, 64, 128, 256]"

definition usart_set_speed :: "u32 \<Rightarrow> u32 \<Rightarrow> usart \<Rightarrow> (int \<times> usart) option" where
  "usart_set_speed pclk speed c = do {
     p \<leftarrow> arr_get UARTPrescTable (us_ClockPrescaler c);
     if speed = 0 then None
     else Some (0, c \<lparr> us_BaudRate := speed, us_BRR := ucast ((pclk div p + speed div 2) div speed) \<rparr>)
   }"

definition usart_get_speed :: "usart \<Rightarrow> u32" where
  "usart_get_speed c = us_BaudRate c"

section \<open>The ring buffers under a schedule\<close>

text \<open>\<open>ring_buf_write\<close> of the first \<open>counter\<close> bytes of \<open>buf\<close>, which copies what fits and waits for the reader
  when the buffer is full; \<open>ds\<close> are the sizes of the reads that end its waits. The result tells whether the call
  returns or waits for a read that does not come, and has the bytes these reads took and the buffer. None is an access outside
  the memory of the buffer or of the caller. (All interleavings of the two threads are in the step relation of the ring buffer.)\<close>

function ring_write_run :: "u16 list \<Rightarrow> ring_buf \<Rightarrow> u8 list \<Rightarrow> u16 \<Rightarrow> (bool \<times> u8 list \<times> ring_buf) option" where
  "ring_write_run ds rb buf counter =
     (if counter = 0 then Some (True, [], rb)
      else if ring_buf_get_free_size rb = 0
      then (case ds of [] \<Rightarrow> Some (False, [], rb)
            | d # ds \<Rightarrow> do {
                (out, rb) \<leftarrow> ring_buf_read_ready rb d;
                (returns, outs, rb) \<leftarrow> ring_write_run ds rb buf counter;
                Some (returns, out @ outs, rb)
              })
      else (let t_length = min (ring_buf_get_free_size rb) counter in
        do {
          rb \<leftarrow> ring_buf_write_section rb buf t_length;
          ring_write_run ds rb (drop (unat t_length) buf) (counter - t_length)
        }))"
  by pat_completeness auto

termination
proof (relation "measure (\<lambda>(ds, rb, buf, counter). length ds + unat counter)")
  fix ds rb buf and counter x :: u16 and x2
  assume c: "counter \<noteq> 0" and f: "ring_buf_get_free_size rb \<noteq> 0" and x: "x = min (ring_buf_get_free_size rb) counter"
  have "unat (counter - x) < unat counter"
    using c f x by (auto simp: min_def unat_minus_le unat_gt_0 split: if_splits)
  then show "((ds, x2, drop (unat x) buf, counter - x), ds, rb, buf, counter)
      \<in> measure (\<lambda>(ds, rb, buf, counter). length ds + unat counter)"
    by simp
qed auto

declare ring_write_run.simps [simp del]

text \<open>The calls that return.\<close>

definition ring_write_loop :: "u16 list \<Rightarrow> ring_buf \<Rightarrow> u8 list \<Rightarrow> u16 \<Rightarrow> (u8 list \<times> ring_buf) option" where
  "ring_write_loop ds rb buf counter = (case ring_write_run ds rb buf counter of Some (True, outs, rb) \<Rightarrow> Some (outs, rb) | _ \<Rightarrow> None)"

lemma ring_write_loop_rec:
  "ring_write_loop ds rb buf counter =
     (if counter = 0 then Some ([], rb)
      else if ring_buf_get_free_size rb = 0
      then (case ds of [] \<Rightarrow> None
            | d # ds \<Rightarrow> do {
                (out, rb) \<leftarrow> ring_buf_read_ready rb d;
                (outs, rb) \<leftarrow> ring_write_loop ds rb buf counter;
                Some (out @ outs, rb)
              })
      else (let t_length = min (ring_buf_get_free_size rb) counter in
        do {
          rb \<leftarrow> ring_buf_write_section rb buf t_length;
          ring_write_loop ds rb (drop (unat t_length) buf) (counter - t_length)
        }))"
  by (subst ring_write_loop_def, subst ring_write_run.simps)
    (auto simp: ring_write_loop_def Let_def split: list.split option.split bool.split bind_splits)

text \<open>The call on a pointer that may be null; the result is an int.\<close>

definition ring_buf_write :: "u16 list \<Rightarrow> ring_buf option \<Rightarrow> u8 list \<Rightarrow> u16 \<Rightarrow> (int \<times> u8 list \<times> ring_buf option) option" where
  "ring_buf_write ds p buf n =
     (case p of None \<Rightarrow> Some (- 1, [], p)
      | Some rb \<Rightarrow>
        if start_ptr rb = None then Some (- 1, [], p)
        else do {
          (out, rb) \<leftarrow> ring_write_loop ds rb buf n;
          Some (uint n, out, Some rb)
        })"

text \<open>\<open>ring_buf_read\<close>: on an empty buffer it waits for the writer, in this schedule for ever.\<close>

definition ring_buf_read :: "ring_buf option \<Rightarrow> u16 \<Rightarrow> (int \<times> u8 list \<times> ring_buf option) option" where
  "ring_buf_read p n =
     (case p of None \<Rightarrow> Some (- 1, [], p)
      | Some rb \<Rightarrow>
        if start_ptr rb = None then Some (- 1, [], p)
        else do {
          (out, rb) \<leftarrow> ring_buf_read_ready rb n;
          Some (int (length out), out, Some rb)
        })"

text \<open>The wait of \<open>ring_buf_read_timeout\<close> for data: \<open>ws\<close> are the writes that occur in time, one for
  each wake-up.\<close>

fun ring_wait_data :: "u8 list list \<Rightarrow> ring_buf \<Rightarrow> ring_buf option" where
  "ring_wait_data [] rb = Some rb"
| "ring_wait_data (w # ws) rb =
     (if ring_buf_get_data_size rb < 1
      then (case ring_buf_write_iter rb w of None \<Rightarrow> None | Some (rest, rb) \<Rightarrow> ring_wait_data ws rb)
      else Some rb)"

text \<open>A timeout of 0 is replaced by portMAX_DELAY, with which the kernel waits for ever.\<close>

definition endless :: "u32 \<Rightarrow> bool" where
  "endless timeout \<longleftrightarrow> timeout = 0 \<or> timeout = 0xFFFFFFFF"

definition ring_buf_read_timeout ::
    "u8 list list \<Rightarrow> ring_buf option \<Rightarrow> u32 \<Rightarrow> u32 \<Rightarrow> (int \<times> u8 list \<times> ring_buf option) option" where
  "ring_buf_read_timeout ws p n timeout =
     (case p of None \<Rightarrow> Some (- 1, [], p)
      | Some rb \<Rightarrow>
        if start_ptr rb = None then Some (- 1, [], p)
        else do {
          rb \<leftarrow> ring_wait_data ws rb;
          if ring_buf_get_data_size rb < 1
          then (if endless timeout then None else Some (- 1, [], Some rb))
          else do {
            (out, rb) \<leftarrow> ring_buf_read_timeout_section rb n (ring_buf_get_data_size rb);
            Some (int (length out), out, Some rb)
          }
        })"

section \<open>The tasks of a port\<close>

text \<open>A round of \<open>usart_read_task\<close>: a transfer into the receive buffer, whose first bytes then go to the
  ring buffer, also after a failed transfer. \<open>rx_count\<close> is then the count of the last transfer
  that started. The bytes the readers of the port took meanwhile are the result.\<close>

definition usart_read_round :: "task \<Rightarrow> uart_env \<Rightarrow> u16 list \<Rightarrow> usart \<Rightarrow> (u8 list \<times> usart) option" where
  "usart_read_round me env ds c = do {
     (rv, buf, c) \<leftarrow> usart_receive me env (us_dma_rx_buf c) (word_of_int (us_buf_size c)) c;
     let c = c \<lparr> us_dma_rx_buf := buf, us_error := \<not> init_ok rv \<rparr>;
     (n, out, rb) \<leftarrow> ring_buf_write ds (us_read_buf c) (case buf of None \<Rightarrow> [] | Some b \<Rightarrow> b)
        (word_of_int (min (us_rx_count c) (us_buf_size c)));
     Some (out, c \<lparr> us_read_buf := rb \<rparr>)
   }"

text \<open>A round of \<open>usart_write_task\<close>; its length is the result of the read truncated to 16 bits.\<close>

definition usart_write_round :: "task \<Rightarrow> uart_env \<Rightarrow> usart \<Rightarrow> usart option" where
  "usart_write_round me env c = do {
     (n, out, rb) \<leftarrow> ring_buf_read (us_write_buf c) (word_of_int (us_buf_size c));
     buf \<leftarrow> (case us_dma_tx_buf c of
               None \<Rightarrow> if out = [] then Some None else None
             | Some b \<Rightarrow> map_option Some (memcpy b 0 out 0 (length out)));
     (rv, c) \<leftarrow> usart_transmit me env buf (word_of_int n) (c \<lparr> us_write_buf := rb, us_dma_tx_buf := buf \<rparr>);
     Some (c \<lparr> us_error := \<not> init_ok rv \<rparr>)
   }"

section \<open>The file operations\<close>

definition usart_open :: "usart \<Rightarrow> int \<times> errno \<times> usart" where
  "usart_open c =
     (if us_port_open c \<and> \<not> us_stdio c then (- 1, EACCES, c)
      else if us_tasks_init c then (0, EOK, c)
      else if us_buf_size c \<le> 0 then (- 1, EINVAL, c)
      else if us_read_buf c = None \<or> us_write_buf c = None then (- 1, ENOMEM, c)
      else (0, EOK, c \<lparr> us_tasks_init := True, us_port_open := True,
        us_tasks := us_tasks c @ [take 31 (us_name c @ ''_read_thread''), take 31 (us_name c @ ''_write_thread'')] \<rparr>))"

text \<open>\<open>count\<close> is truncated to 16 bits by the call of \<open>ring_buf_write\<close>. The result has the bytes
  the write task took meanwhile.\<close>

definition usart_write :: "u16 list \<Rightarrow> u8 list \<Rightarrow> u32 \<Rightarrow> usart \<Rightarrow> (int \<times> errno \<times> u8 list \<times> usart) option" where
  "usart_write ds buf count c = do {
     (rv, out, rb) \<leftarrow> ring_buf_write ds (us_write_buf c) buf (ucast count);
     let c = c \<lparr> us_write_buf := rb \<rparr>;
     if us_error c then Some (- 1, EPROTO, out, c) else Some (rv, EOK, out, c)
   }"

text \<open>The bytes are stored in the caller's buffer also when the call fails.\<close>

definition usart_read :: "u8 list list \<Rightarrow> u32 \<Rightarrow> usart \<Rightarrow> (int \<times> errno \<times> u8 list \<times> usart) option" where
  "usart_read ws count c = do {
     (rv, out, rb) \<leftarrow> ring_buf_read_timeout ws (us_read_buf c) count (word_of_int (us_read_timeout c));
     let c = c \<lparr> us_read_buf := rb \<rparr>;
     if rv < 0 then Some (- 1, ETIMEDOUT, out, c)
     else if us_error c then Some (- 1, EPROTO, out, c)
     else Some (rv, EOK, out, c)
   }"

text \<open>The state in which a write waits for room, or a read without a timeout for data, that never comes.\<close>

definition usart_write_waits :: "u16 list \<Rightarrow> u8 list \<Rightarrow> u32 \<Rightarrow> usart \<Rightarrow> (u8 list \<times> usart) option" where
  "usart_write_waits ds buf count c = do {
     rb \<leftarrow> us_write_buf c;
     (returns, out, rb) \<leftarrow> ring_write_run ds rb buf (ucast count);
     if returns then None else Some (out, c \<lparr> us_write_buf := Some rb \<rparr>)
   }"

definition usart_read_waits :: "u8 list list \<Rightarrow> usart \<Rightarrow> usart option" where
  "usart_read_waits ws c = do {
     rb \<leftarrow> us_read_buf c;
     rb \<leftarrow> ring_wait_data ws rb;
     if ring_buf_get_data_size rb < 1 \<and> endless (word_of_int (us_read_timeout c)) then Some (c \<lparr> us_read_buf := Some rb \<rparr>) else None
   }"

definition usart_close :: "usart \<Rightarrow> int \<times> errno \<times> usart" where
  "usart_close c = (if us_port_open c then (0, EOK, c \<lparr> us_port_open := False \<rparr>) else (0, ENOENT, c))"

definition usart_ioctl_set_read_timeout :: "u32 \<Rightarrow> usart \<Rightarrow> usart" where
  "usart_ioctl_set_read_timeout t c = c \<lparr> us_read_timeout := sint t \<rparr>"

definition usart_ioctl :: "int \<Rightarrow> u32 \<Rightarrow> usart \<Rightarrow> int \<times> errno \<times> usart" where
  "usart_ioctl request arg c =
     (if request = 0 then (0, EOK, usart_ioctl_set_read_timeout arg c) else (- 1, ENOENT, c))"

section \<open>The ring buffers under a schedule: nothing lost, nothing reordered\<close>

lemma read_ready_get: "ring_buf_read_ready rb d = rb_get (unat d) rb"
  by (simp add: rb_get_def)

lemma rb_cap_eq: "rb_cap rb' = rb_cap rb \<longleftrightarrow> rb_size rb' = rb_size rb"
  by (auto simp: rb_cap_def intro: word_eq_by_unat)

lemma read_ready_takes:
  assumes "rb_inv rb" and "ring_buf_read_ready rb d = Some (out, rb')"
  shows "rb_inv rb' \<and> rb_contents rb = out @ rb_contents rb' \<and> rb_size rb' = rb_size rb"
proof -
  have get: "rb_get (unat d) rb = Some (out, rb')"
    using assms(2) by (simp add: read_ready_get)
  have "rb_size rb' = rb_size rb"
    using rbq.get_takes [OF assms(1) _ get] by (simp add: rb_cap_eq)
  then show ?thesis
    using rbq.get_takes [OF assms(1) _ get] by simp
qed

lemma read_ready_all:
  assumes "rb_inv rb" and "rb_contents rb \<noteq> []" and "length (rb_contents rb) \<le> unat d"
  shows "\<exists>rb'. ring_buf_read_ready rb d = Some (rb_contents rb, rb') \<and> rb_inv rb' \<and> rb_contents rb' = [] \<and> rb_size rb' = rb_size rb"
  using rb_get_ok [OF assms(1) _ assms(2), of "unat d"] assms(3) by (auto simp: read_ready_get rb_cap_eq)

lemma write_section_appends:
  assumes inv: "rb_inv rb" and fits: "t \<le> ring_buf_get_free_size rb" and buf: "unat t \<le> length buf"
  shows "\<exists>rb'. ring_buf_write_section rb buf t = Some rb' \<and> rb_inv rb' \<and>
     rb_contents rb' = rb_contents rb @ take (unat t) buf \<and> rb_size rb' = rb_size rb"
proof -
  have "unat (rb_count rb) \<le> unat (rb_size rb)"
    using inv by (simp add: rb_inv_def word_le_nat_alt)
  then have "unat (rb_count rb) + unat t \<le> unat (rb_size rb)"
    using fits rb_free_unat [OF inv] by (simp add: word_le_nat_alt)
  from ring_buf_write_section_refines [OF inv this buf] show ?thesis
    by (auto simp: Let_def)
qed

lemma ring_write_loop_fifo:
  assumes "rb_inv rb" and "unat counter \<le> length buf" and "ring_write_loop ds rb buf counter = Some (outs, rb')"
  shows "rb_inv rb' \<and> rb_contents rb @ take (unat counter) buf = outs @ rb_contents rb' \<and> rb_size rb' = rb_size rb"
  using assms
proof (induction ds rb buf counter arbitrary: outs rb' rule: ring_write_run.induct)
  case (1 ds rb buf counter)
  show ?case
  proof (cases "counter = 0 \<or> ring_buf_get_free_size rb = 0")
    case True
    then show ?thesis
    proof (cases "counter = 0")
      case False
      then obtain d ds1 out rb1 outs1 where ds: "ds = d # ds1" and r: "ring_buf_read_ready rb d = Some (out, rb1)"
        and w: "ring_write_loop ds1 rb1 buf counter = Some (outs1, rb')" and outs: "outs = out @ outs1"
        using True "1.prems"(3) by (subst (asm) ring_write_loop_rec) (auto split: list.splits bind_splits)
      then show ?thesis
        using "1.IH"(1) [of d ds1 "(out, rb1)" out rb1] read_ready_takes [OF "1.prems"(1) r] "1.prems"(2) False True by simp
    qed (use "1.prems" in \<open>simp add: ring_write_loop_rec\<close>)
  next
    case False
    let ?t = "min (ring_buf_get_free_size rb) counter"
    have t: "?t \<le> ring_buf_get_free_size rb" "?t \<le> counter"
      by simp_all
    then have n: "unat (counter - ?t) = unat counter - unat ?t" and le: "unat ?t \<le> unat counter"
      by (simp_all add: unat_minus_le word_le_nat_alt)
    obtain rb1 where s: "ring_buf_write_section rb buf ?t = Some rb1" and rb1: "rb_inv rb1"
      "rb_contents rb1 = rb_contents rb @ take (unat ?t) buf" "rb_size rb1 = rb_size rb"
      using write_section_appends [OF "1.prems"(1) t(1)] le "1.prems"(2) by (meson le_trans)
    have w: "ring_write_loop ds rb1 (drop (unat ?t) buf) (counter - ?t) = Some (outs, rb')"
      using False s "1.prems"(3) by (subst (asm) ring_write_loop_rec) (simp add: Let_def)
    have "take (unat ?t) buf @ take (unat counter - unat ?t) (drop (unat ?t) buf) = take (unat counter) buf"
      using le by (simp add: take_add [symmetric])
    then show ?thesis
      using "1.IH"(2) [OF _ _ refl, of rb1 outs rb'] False s w rb1 n "1.prems"(2) by (simp add: diff_le_mono)
  qed
qed

text \<open>What fits is written without waiting.\<close>

lemma ring_write_loop_fits:
  assumes inv: "rb_inv rb" and fits: "counter \<le> ring_buf_get_free_size rb" and buf: "unat counter \<le> length buf"
  shows "\<exists>rb'. ring_write_loop ds rb buf counter = Some ([], rb') \<and> rb_inv rb' \<and>
     rb_contents rb' = rb_contents rb @ take (unat counter) buf \<and> rb_size rb' = rb_size rb"
proof (cases "counter = 0")
  case False
  then have "ring_buf_get_free_size rb \<noteq> 0"
    using fits by auto
  moreover have "min (ring_buf_get_free_size rb) counter = counter"
    using fits by simp
  ultimately show ?thesis
    using False write_section_appends [OF inv fits buf]
    by (subst ring_write_loop_rec) (auto simp: Let_def ring_write_loop_rec [of _ _ _ 0])
qed (use inv in \<open>simp add: ring_write_loop_rec\<close>)

text \<open>The loop ends when the reader comes once, for at least a byte, for every byte that finds no
  room.\<close>

lemma free_size_contents: "rb_inv rb \<Longrightarrow> unat (ring_buf_get_free_size rb) = unat (rb_size rb) - length (rb_contents rb)"
  by (simp add: rb_free_unat rb_contents_length)

lemma read_ready_frees:
  assumes inv: "rb_inv rb" and full: "ring_buf_get_free_size rb = 0" and size: "rb_size rb \<noteq> 0" and d: "d \<noteq> 0"
  shows "\<exists>out rb'. ring_buf_read_ready rb d = Some (out, rb') \<and> rb_inv rb' \<and> rb_size rb' = rb_size rb \<and> 0 < unat (ring_buf_get_free_size rb')"
proof -
  have len: "length (rb_contents rb) = unat (rb_size rb)"
    using free_size_contents [OF inv] rbq.cap [OF inv] full by (simp add: rb_cap_def)
  have size0: "0 < unat (rb_size rb)"
    using size by (simp add: unat_gt_0)
  have ne: "rb_contents rb \<noteq> []"
    using size0 len by auto
  obtain rb' where r: "ring_buf_read_ready rb d = Some (take (unat d) (rb_contents rb), rb')" and rb': "rb_inv rb'"
      "rb_contents rb' = drop (unat d) (rb_contents rb)" "rb_size rb' = rb_size rb"
    using rb_get_ok [OF inv _ ne, of "unat d"] by (auto simp: read_ready_get rb_cap_eq)
  have "0 < unat d"
    using d by (simp add: unat_gt_0)
  then have "0 < unat (ring_buf_get_free_size rb')"
    using free_size_contents [OF rb'(1)] rb' len size0 by simp
  then show ?thesis
    using r rb' by blast
qed

lemma write_section_free:
  assumes inv: "rb_inv rb" and t: "t \<le> ring_buf_get_free_size rb" and buf: "unat t \<le> length buf"
    and s: "ring_buf_write_section rb buf t = Some rb'"
  shows "rb_inv rb' \<and> rb_size rb' = rb_size rb \<and> unat (ring_buf_get_free_size rb') = unat (ring_buf_get_free_size rb) - unat t"
  using write_section_appends [OF inv t buf] s free_size_contents [OF inv] free_size_contents [of rb'] buf
  by (auto simp: min_absorb1)

lemma ring_write_loop_ends:
  assumes "rb_inv rb" and "rb_size rb \<noteq> 0" and "unat counter \<le> length buf" and "\<forall>d \<in> set ds. d \<noteq> 0"
    and "unat counter \<le> length ds + unat (ring_buf_get_free_size rb)"
  shows "\<exists>outs rb'. ring_write_loop ds rb buf counter = Some (outs, rb')"
  using assms
proof (induction ds rb buf counter rule: ring_write_run.induct)
  case (1 ds rb buf counter)
  consider "counter = 0" | "counter \<noteq> 0" "ring_buf_get_free_size rb = 0" | "counter \<noteq> 0" "ring_buf_get_free_size rb \<noteq> 0"
    by blast
  then show ?case
  proof cases
    case 2
    then have "0 < unat counter"
      by (simp add: unat_gt_0)
    then obtain d ds1 where ds: "ds = d # ds1"
      using "1.prems"(5) 2(2) by (cases ds) auto
    obtain out rb1 where r: "ring_buf_read_ready rb d = Some (out, rb1)" "rb_inv rb1" "rb_size rb1 = rb_size rb" "0 < unat (ring_buf_get_free_size rb1)"
      using read_ready_frees [OF "1.prems"(1) 2(2) "1.prems"(2), of d] "1.prems"(4) ds by auto
    then have "\<exists>outs rb'. ring_write_loop ds1 rb1 buf counter = Some (outs, rb')"
      using "1.IH"(1) [OF 2 ds r(1) refl] "1.prems" ds 2(2) by simp
    then show ?thesis
      using 2 ds r(1) by (subst ring_write_loop_rec) auto
  next
    case 3
    let ?t = "min (ring_buf_get_free_size rb) counter"
    have t: "?t \<le> ring_buf_get_free_size rb" "?t \<le> counter"
      by simp_all
    then have n: "unat (counter - ?t) = unat counter - unat ?t" and le: "unat ?t \<le> unat counter"
      by (simp_all add: unat_minus_le word_le_nat_alt)
    have buf: "unat ?t \<le> length buf"
      using le "1.prems"(3) by simp
    obtain rb1 where s: "ring_buf_write_section rb buf ?t = Some rb1"
      using write_section_appends [OF "1.prems"(1) t(1) buf] by blast
    have "\<exists>outs rb'. ring_write_loop ds rb1 (drop (unat ?t) buf) (counter - ?t) = Some (outs, rb')"
      using "1.IH"(2) [OF 3 refl, of rb1] write_section_free [OF "1.prems"(1) t(1) buf s] s n "1.prems" le
      by (simp add: diff_le_mono)
    then show ?thesis
      using 3 s by (subst ring_write_loop_rec) (simp add: Let_def)
  qed (simp add: ring_write_loop_rec)
qed

text \<open>Whether it returns or not, a call never leaves the buffers, and the ring buffer stays sound.\<close>

lemma read_ready_full:
  assumes inv: "rb_inv rb" and full: "ring_buf_get_free_size rb = 0" and size: "rb_size rb \<noteq> 0"
  shows "\<exists>out rb'. ring_buf_read_ready rb d = Some (out, rb') \<and> rb_inv rb' \<and> rb_size rb' = rb_size rb"
proof -
  have "rb_contents rb \<noteq> []"
    using free_size_contents [OF inv] full size by (auto simp: unat_eq_zero)
  then show ?thesis
    using rb_get_ok [OF inv, of "unat d"] by (auto simp: read_ready_get rb_cap_eq)
qed

lemma ring_write_run_total:
  assumes "rb_inv rb" and "rb_size rb \<noteq> 0" and "unat counter \<le> length buf"
  shows "\<exists>returns outs rb'. ring_write_run ds rb buf counter = Some (returns, outs, rb') \<and> rb_inv rb' \<and> rb_size rb' = rb_size rb"
  using assms
proof (induction ds rb buf counter rule: ring_write_run.induct)
  case (1 ds rb buf counter)
  consider "counter = 0" | "counter \<noteq> 0" "ring_buf_get_free_size rb = 0" | "counter \<noteq> 0" "ring_buf_get_free_size rb \<noteq> 0"
    by blast
  then show ?case
  proof cases
    case 2
    show ?thesis
    proof (cases ds)
      case Nil
      then show ?thesis
        using 2 "1.prems"(1) by (subst ring_write_run.simps) auto
    next
      case (Cons d ds1)
      obtain out rb1 where r: "ring_buf_read_ready rb d = Some (out, rb1)" "rb_inv rb1" "rb_size rb1 = rb_size rb"
        using read_ready_full [OF "1.prems"(1) 2(2) "1.prems"(2)] by blast
      obtain q outs rb' where "ring_write_run ds1 rb1 buf counter = Some (q, outs, rb')" "rb_inv rb'" "rb_size rb' = rb_size rb"
        using "1.IH"(1) [OF 2 Cons r(1) refl] "1.prems" r by auto
      then show ?thesis
        using 2 Cons r(1) by (subst ring_write_run.simps) auto
    qed
  next
    case 3
    let ?t = "min (ring_buf_get_free_size rb) counter"
    have t: "?t \<le> ring_buf_get_free_size rb" "?t \<le> counter"
      by simp_all
    then have n: "unat (counter - ?t) = unat counter - unat ?t" and le: "unat ?t \<le> unat counter"
      by (simp_all add: unat_minus_le word_le_nat_alt)
    have buf: "unat ?t \<le> length buf"
      using le "1.prems"(3) by simp
    obtain rb1 where s: "ring_buf_write_section rb buf ?t = Some rb1" "rb_inv rb1" "rb_size rb1 = rb_size rb"
      using write_section_appends [OF "1.prems"(1) t(1) buf] by blast
    obtain q outs rb' where "ring_write_run ds rb1 (drop (unat ?t) buf) (counter - ?t) = Some (q, outs, rb')" "rb_inv rb'" "rb_size rb' = rb_size rb"
      using "1.IH"(2) [OF 3 refl s(1)] s n "1.prems" by (auto simp: diff_le_mono)
    then show ?thesis
      using 3 s(1) by (subst ring_write_run.simps) (simp add: Let_def)
  qed (use "1.prems" in \<open>auto simp: ring_write_run.simps\<close>)
qed

section \<open>Transfers\<close>

text \<open>The interrupt leaves the buffers, the mutexes and the flags of the port alone.\<close>

lemma usart_handler_keeps [simp]:
  "us_tx_mutex (usart_handler hw c) = us_tx_mutex c" "us_rx_mutex (usart_handler hw c) = us_rx_mutex c"
  "us_tx_state (usart_handler hw c) = us_tx_state c" "us_rx_state (usart_handler hw c) = us_rx_state c"
  "us_mode (usart_handler hw c) = us_mode c" "us_use_dma (usart_handler hw c) = us_use_dma c"
  "us_write_buf (usart_handler hw c) = us_write_buf c" "us_read_buf (usart_handler hw c) = us_read_buf c"
  "us_buf_size (usart_handler hw c) = us_buf_size c"
  by (simp_all add: usart_handler_def Let_def)

lemma wait_sem_keeps [simp]:
  "us_tx_mutex (wait_sem sem hws c) = us_tx_mutex c" "us_rx_mutex (wait_sem sem hws c) = us_rx_mutex c"
  "us_tx_state (wait_sem sem hws c) = us_tx_state c" "us_rx_state (wait_sem sem hws c) = us_rx_state c"
  "us_mode (wait_sem sem hws c) = us_mode c" "us_use_dma (wait_sem sem hws c) = us_use_dma c"
  "us_write_buf (wait_sem sem hws c) = us_write_buf c" "us_read_buf (wait_sem sem hws c) = us_read_buf c"
  "us_buf_size (wait_sem sem hws c) = us_buf_size c"
  by (induction hws arbitrary: c) simp_all

text \<open>When an interrupt ends a transmission, and when one ends a reception.\<close>

definition tx_end :: "uart_hw \<Rightarrow> bool" where "tx_end hw \<longleftrightarrow> gState_ready hw"

definition rx_end :: "usart_receive_mode \<Rightarrow> uart_hw \<Rightarrow> bool" where
  "rx_end mode hw \<longleftrightarrow> (case mode of USART_TIMEOUT \<Rightarrow> RxState_ready hw | USART_IDLE \<Rightarrow> ISR_IDLE hw)"

lemma usart_handler_tx_sem: "us_tx_sem (usart_handler hw c) \<longleftrightarrow> us_tx_sem c \<or> (us_tx_state c = USART_TRANSMIT \<and> tx_end hw)"
  by (auto simp: usart_handler_def Let_def tx_end_def)

lemma usart_handler_rx_sem: "us_rx_sem (usart_handler hw c) \<longleftrightarrow> us_rx_sem c \<or> (us_rx_state c = USART_RECEIVE \<and> rx_end (us_mode c) hw)"
  by (cases "us_mode c") (auto simp: usart_handler_def Let_def rx_end_def)

lemma wait_tx_sem:
  "us_tx_state c = USART_TRANSMIT \<Longrightarrow> us_tx_sem (wait_sem us_tx_sem hws c) \<longleftrightarrow> us_tx_sem c \<or> (\<exists>hw \<in> set hws. tx_end hw)"
  by (induction hws arbitrary: c) (auto simp: usart_handler_tx_sem)

lemma wait_rx_sem:
  "us_rx_state c = USART_RECEIVE \<Longrightarrow> us_rx_sem (wait_sem us_rx_sem hws c) \<longleftrightarrow> us_rx_sem c \<or> (\<exists>hw \<in> set hws. rx_end (us_mode c) hw)"
  by (induction hws arbitrary: c) (auto simp: usart_handler_rx_sem)

text \<open>The interrupts before the one that ends a reception have no effect on the count, the
  one that ends it sets it.\<close>

definition rx_taken :: "usart \<Rightarrow> uart_hw \<Rightarrow> int" where
  "rx_taken c hw = (case us_mode c of
      USART_TIMEOUT \<Rightarrow> if us_use_dma c then sint (NDTR hw) else uint (RxXferSize hw)
    | USART_IDLE \<Rightarrow> if us_use_dma c then sint (ucast (RxXferSize hw) - NDTR hw) else uint (RxXferSize hw) - uint (RxXferCount hw))"

lemma wait_rx_count:
  assumes "us_rx_state c = USART_RECEIVE" and "\<not> us_rx_sem c"
    and "\<forall>hw \<in> set before. \<not> rx_end (us_mode c) hw" and "rx_end (us_mode c) hw"
  shows "us_rx_count (wait_sem us_rx_sem (before @ hw # after) c) = rx_taken c hw"
  using assms
proof (induction before arbitrary: c)
  case Nil
  then have "us_rx_sem (usart_handler hw c)"
    by (simp add: usart_handler_rx_sem)
  then have "wait_sem us_rx_sem ([] @ hw # after) c = usart_handler hw c"
    using Nil(2) by (cases after) simp_all
  moreover have "us_rx_count (usart_handler hw c) = rx_taken c hw"
    using Nil by (cases "us_mode c") (auto simp: usart_handler_def Let_def rx_end_def rx_taken_def)
  ultimately show ?case
    by simp
next
  case (Cons x before)
  have "rx_taken (usart_handler x c) hw = rx_taken c hw"
    by (simp add: rx_taken_def)
  then show ?case
    using Cons.IH [of "usart_handler x c"] Cons.prems by (simp add: usart_handler_rx_sem)
qed

section \<open>The invariant of a port\<close>

text \<open>A ring buffer of a port: sound, of the size of the port.\<close>

definition ring_ok :: "int \<Rightarrow> ring_buf option \<Rightarrow> bool" where
  "ring_ok n p \<longleftrightarrow> (\<exists>rb. p = Some rb \<and> rb_inv rb \<and> rb_size rb = word_of_int n)"

definition port_inv :: "usart \<Rightarrow> bool" where
  "port_inv c \<longleftrightarrow> 0 < us_buf_size c \<and> us_buf_size c \<le> 2048 \<and>
     ring_ok (us_buf_size c) (us_read_buf c) \<and> ring_ok (us_buf_size c) (us_write_buf c) \<and>
     (\<exists>b. us_dma_rx_buf c = Some b \<and> length b = nat (us_buf_size c)) \<and>
     (\<exists>b. us_dma_tx_buf c = Some b \<and> length b = nat (us_buf_size c)) \<and> 0 \<le> us_rx_count c"

text \<open>The counters of the hardware do not exceed the size of the transfer.\<close>

definition hw_ok :: "uart_hw \<Rightarrow> bool" where
  "hw_ok hw \<longleftrightarrow> NDTR hw \<le> ucast (RxXferSize hw) \<and> RxXferCount hw \<le> RxXferSize hw"

lemma sint_u16_range: "a \<le> ucast (n :: u16) \<Longrightarrow> sint (a :: u32) = int (unat a)"
proof -
  assume "a \<le> ucast n"
  then have "unat a \<le> unat n"
    by (simp add: word_le_nat_alt)
  then have "unat a < 65536"
    by (rule le_less_trans) simp
  then have "unat a < 2 ^ 31"
    by simp
  then show ?thesis
    by (rule sint_of_small)
qed

lemma sint_received:
  assumes "a \<le> ucast (n :: u16)"
  shows "sint (ucast n - a :: u32) = int (unat n - unat a)"
proof -
  have "ucast n - a \<le> ucast n"
    using assms by (simp add: word_le_nat_alt unat_minus_le)
  then have "sint (ucast n - a) = int (unat (ucast n - a))"
    by (rule sint_u16_range)
  then show ?thesis
    using assms by (simp add: unat_minus_le)
qed

lemma usart_handler_rx_count: "hw_ok hw \<Longrightarrow> 0 \<le> us_rx_count c \<Longrightarrow> 0 \<le> us_rx_count (usart_handler hw c)"
  by (auto simp: usart_handler_def Let_def hw_ok_def sint_received sint_u16_range word_le_def)

lemma usart_handler_bufs [simp]:
  "us_dma_rx_buf (usart_handler hw c) = us_dma_rx_buf c" "us_dma_tx_buf (usart_handler hw c) = us_dma_tx_buf c"
  "us_error (usart_handler hw c) = us_error c" "us_read_timeout (usart_handler hw c) = us_read_timeout c"
  by (simp_all add: usart_handler_def Let_def)

lemma wait_sem_bufs [simp]:
  "us_dma_rx_buf (wait_sem sem hws c) = us_dma_rx_buf c" "us_dma_tx_buf (wait_sem sem hws c) = us_dma_tx_buf c"
  "us_error (wait_sem sem hws c) = us_error c" "us_read_timeout (wait_sem sem hws c) = us_read_timeout c"
  by (induction hws arbitrary: c) simp_all

lemma wait_sem_rx_count:
  "\<forall>hw \<in> set hws. hw_ok hw \<Longrightarrow> 0 \<le> us_rx_count c \<Longrightarrow> 0 \<le> us_rx_count (wait_sem sem hws c)"
  by (induction hws arbitrary: c) (simp_all add: usart_handler_rx_count)

lemma port_inv_handler: "port_inv c \<Longrightarrow> hw_ok hw \<Longrightarrow> port_inv (usart_handler hw c)"
  by (simp add: port_inv_def usart_handler_rx_count)

lemma port_inv_wait: "port_inv c \<Longrightarrow> \<forall>hw \<in> set hws. hw_ok hw \<Longrightarrow> port_inv (wait_sem sem hws c)"
  by (induction hws arbitrary: c) (simp_all add: port_inv_handler)

text \<open>Updates of the other fields.\<close>

lemma port_inv_upd [simp]:
  "port_inv (c \<lparr> us_tx_mutex := m \<rparr>) = port_inv c" "port_inv (c \<lparr> us_rx_mutex := m \<rparr>) = port_inv c"
  "port_inv (c \<lparr> us_tx_sem := b \<rparr>) = port_inv c" "port_inv (c \<lparr> us_rx_sem := b \<rparr>) = port_inv c"
  "port_inv (c \<lparr> us_tx_state := st \<rparr>) = port_inv c" "port_inv (c \<lparr> us_rx_state := st \<rparr>) = port_inv c"
  "port_inv (c \<lparr> us_tx_count := n \<rparr>) = port_inv c" "port_inv (c \<lparr> us_ops := ops \<rparr>) = port_inv c"
  "port_inv (c \<lparr> us_idle_irq := b \<rparr>) = port_inv c" "port_inv (c \<lparr> us_error := b \<rparr>) = port_inv c"
  "port_inv (c \<lparr> us_tasks_init := b \<rparr>) = port_inv c" "port_inv (c \<lparr> us_port_open := b \<rparr>) = port_inv c"
  "port_inv (c \<lparr> us_tasks := ts \<rparr>) = port_inv c" "port_inv (c \<lparr> us_read_timeout := n \<rparr>) = port_inv c"
  by (simp_all add: port_inv_def)

lemma port_inv_rx_count: "port_inv c \<Longrightarrow> 0 \<le> n \<Longrightarrow> port_inv (c \<lparr> us_rx_count := n \<rparr>)"
  by (simp add: port_inv_def)

lemma port_inv_rings [simp]:
  "port_inv c \<Longrightarrow> ring_ok (us_buf_size c) p \<Longrightarrow> port_inv (c \<lparr> us_read_buf := p \<rparr>)"
  "port_inv c \<Longrightarrow> ring_ok (us_buf_size c) p \<Longrightarrow> port_inv (c \<lparr> us_write_buf := p \<rparr>)"
  by (simp_all add: port_inv_def)

lemma port_inv_dma [simp]:
  "port_inv c \<Longrightarrow> length b = nat (us_buf_size c) \<Longrightarrow> port_inv (c \<lparr> us_dma_rx_buf := Some b \<rparr>)"
  "port_inv c \<Longrightarrow> length b = nat (us_buf_size c) \<Longrightarrow> port_inv (c \<lparr> us_dma_tx_buf := Some b \<rparr>)"
  by (simp_all add: port_inv_def)

text \<open>The transfers.\<close>

lemma mutex_take_now: "mutex_take me False m = (m = None, if m = None then Some me else m)"
  by (auto simp: mutex_take_def)

lemma usart_transmit_some:
  assumes "unat n \<le> length data"
  shows "\<exists>rv c'. usart_transmit me env (Some data) n c = Some (rv, c')"
  using assms by (auto simp: usart_transmit_def mutex_take_now Let_def)

lemma usart_transmit_inv:
  "usart_transmit me env pdata n c = Some (rv, c') \<Longrightarrow> port_inv c \<Longrightarrow> \<forall>hw \<in> set (ue_irqs env). hw_ok hw \<Longrightarrow> port_inv c'"
  by (auto simp: usart_transmit_def mutex_take_now Let_def port_inv_wait split: option.splits if_splits)

lemma usart_transmit_keeps:
  "usart_transmit me env pdata n c = Some (rv, c') \<Longrightarrow> us_write_buf c' = us_write_buf c \<and> us_read_buf c' = us_read_buf c"
  by (auto simp: usart_transmit_def mutex_take_now Let_def split: option.splits if_splits)

lemma stored_length: "stored bytes n buf = Some b \<Longrightarrow> length b = length buf"
  by (auto simp: stored_def Let_def dest: memcpy_length)

lemma stored_some: "n \<le> length buf \<Longrightarrow> \<exists>b. stored bytes n buf = Some b"
  by (auto simp: stored_def Let_def memcpy_def)

lemma usart_receive_some:
  assumes "unat n \<le> length buf"
  shows "\<exists>rv b c'. usart_receive me env (Some buf) n c = Some (rv, Some b, c')"
  using assms stored_some [of "unat n" buf "ue_bytes env"] by (auto simp: usart_receive_def mutex_take_now Let_def)

lemma usart_receive_inv:
  assumes "usart_receive me env (Some buf) n c = Some (rv, Some b, c')" and "port_inv c" and "\<forall>hw \<in> set (ue_irqs env). hw_ok hw"
  shows "port_inv c' \<and> us_buf_size c' = us_buf_size c \<and> us_read_buf c' = us_read_buf c \<and> us_write_buf c' = us_write_buf c \<and> length b = length buf"
  using assms by (auto simp: usart_receive_def mutex_take_now Let_def port_inv_wait port_inv_rx_count
      dest: stored_length split: option.splits if_splits bind_splits)

lemma usart_transmit_receive_some:
  assumes "unat tx_n \<le> length data" and "unat rx_n \<le> length buf"
  shows "\<exists>rv b c'. usart_transmit_receive me env (Some data) (Some buf) tx_n rx_n c = Some (rv, Some b, c')"
  using assms stored_some [of "unat rx_n" buf "ue_bytes env"] by (auto simp: usart_transmit_receive_def mutex_take_now Let_def)

lemma usart_transmit_receive_inv:
  assumes "usart_transmit_receive me env tx rx tx_n rx_n c = Some (rv, b, c')" and "port_inv c" and "\<forall>hw \<in> set (ue_irqs env). hw_ok hw"
  shows "port_inv c'"
  using assms by (auto simp: usart_transmit_receive_def mutex_take_now Let_def port_inv_wait port_inv_rx_count
      split: option.splits if_splits bind_splits)

text \<open>The rounds of the tasks and the file operations.\<close>

lemma port_ring_read:
  assumes "port_inv c"
  obtains rb where "us_read_buf c = Some rb" and "rb_inv rb" and "rb_size rb = word_of_int (us_buf_size c)"
  using assms by (auto simp: port_inv_def ring_ok_def)

lemma port_ring_write:
  assumes "port_inv c"
  obtains rb where "us_write_buf c = Some rb" and "rb_inv rb" and "rb_size rb = word_of_int (us_buf_size c)"
  using assms by (auto simp: port_inv_def ring_ok_def)

lemma rb_inv_start: "rb_inv rb \<Longrightarrow> \<exists>mem. start_ptr rb = Some mem"
  by (auto simp: rb_inv_def split: option.splits)

lemma uint_size: "0 \<le> n \<Longrightarrow> n < 65536 \<Longrightarrow> unat (word_of_int n :: u16) = nat n"
  by (simp add: unat_eq_nat_uint uint_word_of_int)

lemma ring_size_pos: "port_inv c \<Longrightarrow> (word_of_int (us_buf_size c) :: u16) \<noteq> 0"
proof
  assume "port_inv c" and "(word_of_int (us_buf_size c) :: u16) = 0"
  moreover have "unat (word_of_int (us_buf_size c) :: u16) = nat (us_buf_size c)"
    using \<open>port_inv c\<close> by (intro uint_size) (simp_all add: port_inv_def)
  ultimately show False
    by (simp add: port_inv_def)
qed

lemma unat_buf_size: "port_inv c \<Longrightarrow> unat (word_of_int (us_buf_size c) :: u16) = nat (us_buf_size c)"
  by (intro uint_size) (simp_all add: port_inv_def)

text \<open>A write to a sound ring buffer, with a reader that comes often enough.\<close>

lemma ring_buf_write_total:
  assumes "ring_ok sz (Some rb)" and "(word_of_int sz :: u16) \<noteq> 0" and "unat n \<le> length buf" and "\<forall>d \<in> set ds. d \<noteq> 0"
    and "unat n \<le> length ds + unat (ring_buf_get_free_size rb)"
  shows "\<exists>out rb'. ring_buf_write ds (Some rb) buf n = Some (uint n, out, Some rb') \<and> ring_ok sz (Some rb') \<and>
     rb_contents rb @ take (unat n) buf = out @ rb_contents rb'"
proof -
  have inv: "rb_inv rb" and size: "rb_size rb = word_of_int sz"
    using assms(1) by (simp_all add: ring_ok_def)
  obtain outs rb' where w: "ring_write_loop ds rb buf n = Some (outs, rb')"
    using ring_write_loop_ends [OF inv _ assms(3,4,5)] size assms(2) by auto
  then show ?thesis
    using ring_write_loop_fifo [OF inv assms(3) w] rb_inv_start [OF inv] size by (auto simp: ring_buf_write_def ring_ok_def)
qed

definition free_of :: "ring_buf option \<Rightarrow> nat" where
  "free_of p = (case p of None \<Rightarrow> 0 | Some rb \<Rightarrow> unat (ring_buf_get_free_size rb))"

definition bytes_of :: "ring_buf option \<Rightarrow> u8 list" where
  "bytes_of p = (case p of None \<Rightarrow> [] | Some rb \<Rightarrow> rb_contents rb)"

lemma of_Some [simp]: "free_of (Some rb) = unat (ring_buf_get_free_size rb)" "bytes_of (Some rb) = rb_contents rb"
  by (simp_all add: free_of_def bytes_of_def)

text \<open>The count of a round of the read task never exceeds the buffer.\<close>

lemma read_round_count:
  assumes "port_inv c"
  shows "unat (word_of_int (min (us_rx_count c) (us_buf_size c)) :: u16) = nat (min (us_rx_count c) (us_buf_size c))"
    and "nat (min (us_rx_count c) (us_buf_size c)) \<le> nat (us_buf_size c)"
  using assms by (auto intro!: uint_size simp: port_inv_def)

lemma usart_read_round_total:
  assumes inv: "port_inv c" and hw: "\<forall>hw \<in> set (ue_irqs env). hw_ok hw" and ds: "\<forall>d \<in> set ds. d \<noteq> 0"
    and room: "nat (us_buf_size c) \<le> length ds + free_of (us_read_buf c)"
  shows "\<exists>out c'. usart_read_round me env ds c = Some (out, c') \<and> port_inv c'"
proof -
  obtain buf where buf: "us_dma_rx_buf c = Some buf" "length buf = nat (us_buf_size c)"
    using inv by (auto simp: port_inv_def)
  let ?n = "word_of_int (us_buf_size c) :: u16"
  obtain rv b c1 where r: "usart_receive me env (Some buf) ?n c = Some (rv, Some b, c1)"
    using usart_receive_some [of ?n buf me env c] unat_buf_size [OF inv] buf by auto
  have c1: "port_inv c1" "us_buf_size c1 = us_buf_size c" "us_read_buf c1 = us_read_buf c" "length b = length buf"
    using usart_receive_inv [OF r inv hw] by auto
  obtain rb where rb: "us_read_buf c = Some rb" "rb_inv rb" "rb_size rb = ?n"
    using inv by (rule port_ring_read)
  let ?k = "word_of_int (min (us_rx_count c1) (us_buf_size c1)) :: u16"
  have k: "unat ?k \<le> nat (us_buf_size c)"
    using read_round_count [OF c1(1)] c1(2) by simp
  then have "unat ?k \<le> length b" and "unat ?k \<le> length ds + unat (ring_buf_get_free_size rb)"
    using buf c1 room rb by simp_all
  then obtain out rb' where w: "ring_buf_write ds (Some rb) b ?k = Some (uint ?k, out, Some rb')" "ring_ok (us_buf_size c) (Some rb')"
    using ring_buf_write_total [of "us_buf_size c" rb ?k b ds] rb ring_size_pos [OF inv] ds by (auto simp: ring_ok_def)
  then show ?thesis
    using r c1 w buf rb by (auto simp: usart_read_round_def Let_def)
qed

lemma usart_write_round_total:
  assumes inv: "port_inv c" and hw: "\<forall>hw \<in> set (ue_irqs env). hw_ok hw" and ne: "bytes_of (us_write_buf c) \<noteq> []"
  shows "\<exists>c'. usart_write_round me env c = Some c' \<and> port_inv c' \<and> bytes_of (us_write_buf c') = []"
proof -
  obtain buf where buf: "us_dma_tx_buf c = Some buf" "length buf = nat (us_buf_size c)"
    using inv by (auto simp: port_inv_def)
  let ?n = "word_of_int (us_buf_size c) :: u16"
  obtain rb where rb: "us_write_buf c = Some rb" "rb_inv rb" "rb_size rb = ?n"
    using inv by (rule port_ring_write)
  have len: "length (rb_contents rb) \<le> unat ?n"
    using rbq.cap [OF rb(2)] rb(3) by (simp add: rb_cap_def)
  obtain rb' where r: "ring_buf_read_ready rb ?n = Some (rb_contents rb, rb')" "rb_inv rb'" "rb_contents rb' = []" "rb_size rb' = rb_size rb"
    using read_ready_all [OF rb(2) _ len] ne rb(1) by auto
  obtain b where b: "memcpy buf 0 (rb_contents rb) 0 (length (rb_contents rb)) = Some b"
    using len buf unat_buf_size [OF inv] by (auto simp: memcpy_def)
  have lb: "length b = nat (us_buf_size c)"
    using memcpy_length [OF b] buf by simp
  let ?k = "word_of_int (int (length (rb_contents rb))) :: u16"
  let ?c = "c \<lparr> us_write_buf := Some rb', us_dma_tx_buf := Some b \<rparr>"
  have lt: "length (rb_contents rb) < 65536"
    using len by (rule le_less_trans) simp
  then have k: "unat ?k = length (rb_contents rb)"
    using uint_size [of "int (length (rb_contents rb))"] by simp
  then have "unat ?k \<le> length b"
    using len lb unat_buf_size [OF inv] by simp
  then obtain rv c' where t: "usart_transmit me env (Some b) ?k ?c = Some (rv, c')"
    using usart_transmit_some [of ?k b] by blast
  have "port_inv ?c"
    using inv r rb lb by (simp add: port_inv_def ring_ok_def)
  then have "port_inv c'" and "us_write_buf c' = Some rb'"
    using usart_transmit_inv [OF t _ hw] usart_transmit_keeps [OF t] by auto
  moreover have "usart_write_round me env c = Some (c' \<lparr> us_error := \<not> init_ok rv \<rparr>)"
    using r rb b buf t rb_inv_start [OF rb(2)] by (auto simp: usart_write_round_def ring_buf_read_def)
  ultimately show ?thesis
    using r by simp
qed

lemma usart_write_total:
  assumes inv: "port_inv c" and ds: "\<forall>d \<in> set ds. d \<noteq> 0" and buf: "unat (ucast count :: u16) \<le> length buf"
    and room: "unat (ucast count :: u16) \<le> length ds + free_of (us_write_buf c)"
  shows "\<exists>out c'. usart_write ds buf count c = Some (if us_error c then (- 1, EPROTO, out, c') else (uint (ucast count :: u16), EOK, out, c')) \<and>
     port_inv c' \<and> bytes_of (us_write_buf c) @ take (unat (ucast count :: u16)) buf = out @ bytes_of (us_write_buf c')"
proof -
  let ?n = "ucast count :: u16"
  obtain rb where rb: "us_write_buf c = Some rb" "rb_inv rb" "rb_size rb = word_of_int (us_buf_size c)"
    using inv by (rule port_ring_write)
  obtain out rb' where "ring_buf_write ds (Some rb) buf ?n = Some (uint ?n, out, Some rb')" "ring_ok (us_buf_size c) (Some rb')"
      "rb_contents rb @ take (unat ?n) buf = out @ rb_contents rb'"
    using ring_buf_write_total [of "us_buf_size c" rb ?n buf ds] rb ring_size_pos [OF inv] ds buf room by (auto simp: ring_ok_def)
  then show ?thesis
    using rb inv by (auto simp: usart_write_def Let_def)
qed

text \<open>Reading with a timeout.\<close>

lemma data_size_0: "rb_inv rb \<Longrightarrow> ring_buf_get_data_size rb = 0 \<longleftrightarrow> rb_contents rb = []"
  using rb_contents_length [of rb] by (auto simp: ring_buf_get_data_size_def unat_eq_zero)

lemma ring_wait_data_total:
  assumes "rb_inv rb" and "\<forall>w \<in> set ws. length w < 65536"
  shows "\<exists>rb'. ring_wait_data ws rb = Some rb' \<and> rb_inv rb' \<and> rb_size rb' = rb_size rb"
  using assms
proof (induction ws arbitrary: rb)
  case (Cons w ws)
  obtain rest rb1 where p: "ring_buf_write_iter rb w = Some (rest, rb1)" and rb1: "rb_inv rb1" "rb_size rb1 = rb_size rb"
    using rb_put_ok [OF Cons.prems(1), of w] Cons.prems(2) by (auto simp: rb_put_def rb_cap_eq)
  have "\<exists>rb'. ring_wait_data ws rb1 = Some rb' \<and> rb_inv rb' \<and> rb_size rb' = rb_size rb1"
    using Cons.IH [OF rb1(1)] Cons.prems(2) by simp
  then show ?case
    using p rb1 Cons.prems(1) by simp
qed simp

lemma ring_wait_data_ready: "rb_inv rb \<Longrightarrow> rb_contents rb \<noteq> [] \<Longrightarrow> ring_wait_data ws rb = Some rb"
  by (cases ws) (simp_all add: data_size_0)

lemma read_timeout_takes:
  assumes inv: "rb_inv rb" and ne: "rb_contents rb \<noteq> []"
  shows "\<exists>rb'. ring_buf_read_timeout_section rb n (ring_buf_get_data_size rb) = Some (take (min (unat n) 65535) (rb_contents rb), rb') \<and>
     rb_inv rb' \<and> rb_contents rb' = drop (min (unat n) 65535) (rb_contents rb) \<and> rb_size rb' = rb_size rb"
proof -
  let ?d = "ucast (min n 0xFFFF) :: u16"
  have d: "unat ?d = min (unat n) 65535"
    by (simp add: unsigned_ucast_eq unat_min take_bit_nat_eq_self)
  have "ring_buf_read_timeout_section rb n (ring_buf_get_data_size rb) = ring_buf_read_ready rb ?d"
    using data_size_0 [OF inv] ne ring_buf_read_timeout_section_eq [of "ring_buf_get_data_size rb" rb n]
    by (simp add: ring_buf_read_ready_def) (simp add: ring_buf_get_data_size_def)
  then show ?thesis
    using rb_get_ok [OF inv _ ne, of "min (unat n) 65535"] by (auto simp: min_less_iff_disj read_ready_get d rb_cap_eq)
qed

lemma usart_read_ready:
  assumes inv: "port_inv c" and ne: "bytes_of (us_read_buf c) \<noteq> []"
  shows "\<exists>c'. usart_read ws n c = Some
       (if us_error c then (- 1, EPROTO, take (min (unat n) 65535) (bytes_of (us_read_buf c)), c')
        else (int (length (take (min (unat n) 65535) (bytes_of (us_read_buf c)))), EOK, take (min (unat n) 65535) (bytes_of (us_read_buf c)), c')) \<and>
     port_inv c' \<and> bytes_of (us_read_buf c') = drop (min (unat n) 65535) (bytes_of (us_read_buf c)) \<and> us_error c' = us_error c"
proof -
  obtain rb where rb: "us_read_buf c = Some rb" "rb_inv rb" "rb_size rb = word_of_int (us_buf_size c)"
    using inv by (rule port_ring_read)
  have ne': "rb_contents rb \<noteq> []"
    using ne rb(1) by simp
  obtain rb' where t: "ring_buf_read_timeout_section rb n (ring_buf_get_data_size rb) = Some (take (min (unat n) 65535) (rb_contents rb), rb')"
      "rb_inv rb'" "rb_contents rb' = drop (min (unat n) 65535) (rb_contents rb)" "rb_size rb' = rb_size rb"
    using read_timeout_takes [OF rb(2) ne'] by blast
  have ok: "ring_ok (us_buf_size c) (Some rb')"
    using t(2,4) rb(3) by (simp add: ring_ok_def)
  have "ring_buf_read_timeout ws (Some rb) n tm = Some (int (length (take (min (unat n) 65535) (rb_contents rb))),
      take (min (unat n) 65535) (rb_contents rb), Some rb')" for tm
    using rb_inv_start [OF rb(2)] ring_wait_data_ready [OF rb(2) ne'] data_size_0 [OF rb(2)] ne' t(1)
    by (auto simp: ring_buf_read_timeout_def simp del: length_take)
  then show ?thesis
    using rb(1) inv ok t(3) by (simp add: usart_read_def Let_def del: length_take)
qed

lemma usart_read_total:
  assumes inv: "port_inv c" and ws: "\<forall>w \<in> set ws. length w < 65536"
    and wake: "bytes_of (us_read_buf c) \<noteq> [] \<or> \<not> endless (word_of_int (us_read_timeout c))"
  shows "\<exists>rv e out c'. usart_read ws n c = Some (rv, e, out, c') \<and> port_inv c'"
proof -
  obtain rb where rb: "us_read_buf c = Some rb" "rb_inv rb" "rb_size rb = word_of_int (us_buf_size c)"
    using inv by (rule port_ring_read)
  obtain rb1 where w: "ring_wait_data ws rb = Some rb1" "rb_inv rb1" "rb_size rb1 = rb_size rb"
    using ring_wait_data_total [OF rb(2) ws] by blast
  show ?thesis
  proof (cases "rb_contents rb1 = []")
    case False
    obtain rb' where t: "ring_buf_read_timeout_section rb1 n (ring_buf_get_data_size rb1) = Some (take (min (unat n) 65535) (rb_contents rb1), rb')"
        "rb_inv rb'" "rb_size rb' = rb_size rb1"
      using read_timeout_takes [OF w(2) False] by blast
    then have "ring_ok (us_buf_size c) (Some rb')"
      using w(3) rb(3) by (simp add: ring_ok_def)
    then show ?thesis
      using rb_inv_start [OF rb(2)] w data_size_0 [OF w(2)] False t(1) rb(1) inv
      by (auto simp: usart_read_def ring_buf_read_timeout_def Let_def)
  next
    case True
    then have "bytes_of (us_read_buf c) = []"
      using ring_wait_data_ready [OF rb(2), of ws] w(1) rb(1) by auto
    then have "\<not> endless (word_of_int (us_read_timeout c))"
      using wake by simp
    moreover have "ring_ok (us_buf_size c) (Some rb1)"
      using w rb(3) by (simp add: ring_ok_def)
    ultimately show ?thesis
      using rb_inv_start [OF rb(2)] w data_size_0 [OF w(2)] True rb(1) inv
      by (auto simp: usart_read_def ring_buf_read_timeout_def Let_def)
  qed
qed

section \<open>Properties\<close>

text \<open>The calls on a port, with what happens around them.\<close>

datatype port_call =
    Irq_call uart_hw
  | Transmit_call task uart_env "u8 list" u16
  | Receive_call task uart_env "u8 list" u16
  | Transmit_receive_call task uart_env "u8 list" "u8 list" u16 u16
  | Read_task_round task uart_env "u16 list"
  | Write_task_round task uart_env
  | Open_call | Close_call
  | Write_call "u16 list" "u8 list" u32
  | Read_call "u8 list list" u32
  | Ioctl_call int u32

fun port_step :: "port_call \<Rightarrow> usart \<Rightarrow> usart option" where
  "port_step (Irq_call hw) c = Some (usart_handler hw c)"
| "port_step (Transmit_call me env data n) c = map_option snd (usart_transmit me env (Some data) n c)"
| "port_step (Receive_call me env buf n) c = map_option (\<lambda>(rv, b, c). c) (usart_receive me env (Some buf) n c)"
| "port_step (Transmit_receive_call me env data buf n k) c =
     map_option (\<lambda>(rv, b, c). c) (usart_transmit_receive me env (Some data) (Some buf) n k c)"
| "port_step (Read_task_round me env ds) c = map_option snd (usart_read_round me env ds c)"
| "port_step (Write_task_round me env) c = usart_write_round me env c"
| "port_step Open_call c = Some (snd (snd (usart_open c)))"
| "port_step Close_call c = Some (snd (snd (usart_close c)))"
| "port_step (Write_call ds buf n) c = map_option (\<lambda>(rv, e, out, c). c) (usart_write ds buf n c)"
| "port_step (Read_call ws n) c = map_option (\<lambda>(rv, e, out, c). c) (usart_read ws n c)"
| "port_step (Ioctl_call r a) c = Some (snd (snd (usart_ioctl r a c)))"

text \<open>Buffers as long as the caller says, counters as the hardware has them, and for the calls that
  block: what they wait for happens.\<close>

fun port_legal :: "port_call \<Rightarrow> usart \<Rightarrow> bool" where
  "port_legal (Irq_call hw) c = hw_ok hw"
| "port_legal (Transmit_call me env data n) c \<longleftrightarrow> unat n \<le> length data \<and> (\<forall>hw \<in> set (ue_irqs env). hw_ok hw)"
| "port_legal (Receive_call me env buf n) c \<longleftrightarrow> unat n \<le> length buf \<and> (\<forall>hw \<in> set (ue_irqs env). hw_ok hw)"
| "port_legal (Transmit_receive_call me env data buf n k) c \<longleftrightarrow>
     unat n \<le> length data \<and> unat k \<le> length buf \<and> (\<forall>hw \<in> set (ue_irqs env). hw_ok hw)"
| "port_legal (Read_task_round me env ds) c \<longleftrightarrow> (\<forall>hw \<in> set (ue_irqs env). hw_ok hw) \<and> (\<forall>d \<in> set ds. d \<noteq> 0) \<and>
     nat (us_buf_size c) \<le> length ds + free_of (us_read_buf c)"
| "port_legal (Write_task_round me env) c \<longleftrightarrow> (\<forall>hw \<in> set (ue_irqs env). hw_ok hw) \<and> bytes_of (us_write_buf c) \<noteq> []"
| "port_legal (Write_call ds buf n) c \<longleftrightarrow> (\<forall>d \<in> set ds. d \<noteq> 0) \<and> unat (ucast n :: u16) \<le> length buf \<and>
     unat (ucast n :: u16) \<le> length ds + free_of (us_write_buf c)"
| "port_legal (Read_call ws n) c \<longleftrightarrow> (\<forall>w \<in> set ws. length w < 65536) \<and>
     (bytes_of (us_read_buf c) \<noteq> [] \<or> \<not> endless (word_of_int (us_read_timeout c)))"
| "port_legal _ c = True"

text \<open>C24: Every call on a port that has been set up, of the tasks, of the users and of the
  interrupts, stays inside the buffers and leaves the port as well-formed as it was: the ring buffers
  sound and of the size of the port, the transfer buffers as large, the count of received bytes not negative.\<close>

theorem usart_calls_safe:
  assumes "port_inv c" and "port_legal call c"
  shows "\<exists>c'. port_step call c = Some c' \<and> port_inv c'"
  using assms
proof (cases call)
  case (Transmit_call me env data n)
  then show ?thesis
    using assms usart_transmit_some [of n data me env c] usart_transmit_inv [of me env "Some data" n c] by fastforce
next
  case (Receive_call me env buf n)
  then show ?thesis
    using assms usart_receive_some [of n buf me env c] usart_receive_inv [of me env buf n c] by fastforce
next
  case (Transmit_receive_call me env data buf n k)
  then show ?thesis
    using assms usart_transmit_receive_some [of n data k buf me env c] usart_transmit_receive_inv [of me env "Some data" "Some buf" n k c] by fastforce
next
  case (Read_task_round me env ds)
  then show ?thesis
    using assms usart_read_round_total [of c env ds me] by auto
next
  case (Write_task_round me env)
  then show ?thesis
    using assms usart_write_round_total [of c env me] by auto
next
  case (Write_call ds buf n)
  then show ?thesis
    using assms usart_write_total [of c ds n buf] by (auto split: if_splits)
next
  case (Read_call ws n)
  then show ?thesis
    using assms usart_read_total [of c ws n] by auto
qed (auto simp: port_inv_handler usart_open_def usart_close_def usart_ioctl_def usart_ioctl_set_read_timeout_def)

section \<open>A port that has been set up\<close>

text \<open>The hardware part of the initialisation, when it succeeds.\<close>

definition set_up :: "usart \<Rightarrow> usart \<Rightarrow> bool" where
  "set_up c c' \<longleftrightarrow> usart_irqn (us_instance c) = Some (us_id c') \<and> us_name c' = us_name c \<and>
     us_buf_size c' = us_buf_size c \<and> us_rx_count c' = us_rx_count c"

lemma usart_id_init_set_up: "usart_id_init c = (r, c') \<Longrightarrow> init_ok r \<Longrightarrow> set_up c c'"
  by (auto simp: usart_id_init_def set_up_def split: option.splits)

lemma set_up_dma [simp]: "set_up c (c' \<lparr> us_use_dma := d \<rparr>) = set_up c c'"
  by (simp add: set_up_def)

lemma set_up_name: "set_up c c' \<Longrightarrow> us_name c' = us_name c"
  by (simp add: set_up_def)

lemma usart_clock_init_triple: "triple (\<lambda>(x, q). set_up c x) usart_clock_init (\<lambda>(x, q). set_up c x)"
  by (auto simp: triple_def usart_clock_init_def action_eqs split: if_splits)

lemma usart_dma_setup_triple: "triple (\<lambda>(x, q). set_up c x) (usart_dma_setup hal1 hal2 h a) (\<lambda>(x, q). set_up c x)"
  by (rule tripleI) (auto simp: usart_dma_setup_def action_eqs elim!: and_then_ok split: option.splits)

text \<open>The handler is installed, its interrupt enabled and the file operations mounted.\<close>

definition installed :: "'h \<Rightarrow> 'a \<Rightarrow> 'f \<Rightarrow> usart \<Rightarrow> usart \<Rightarrow> ('h, 'a, 'f) platform \<Rightarrow> bool" where
  "installed h a f c x q \<longleftrightarrow> set_up c x \<and> IRQ_Handler (us_id x) (pf_irqs q) = Some (Run h (Some a)) \<and>
     nvic_enabled (pf_irqs q) (us_id x) \<and> tree_op (pf_root q) (path_tokens (''/dev/'' @ us_name c)) = Some (Some f)"

lemma usart_init_hw_triple:
  "triple (\<lambda>(x, q). x = c) (usart_init_hw env h a f)
     (\<lambda>(x, q). installed (h usart_handler_isr) a f c x q)"
proof -
  let ?s = "\<lambda>(x, q :: ('a, 'b, 'c) platform). set_up c x"
  let ?h = "\<lambda>(x, q). set_up c x \<and> IRQ_Handler (us_id x) (pf_irqs q) = Some (Run (h usart_handler_isr) (Some a))"
  let ?e = "\<lambda>(x, q). set_up c x \<and> IRQ_Handler (us_id x) (pf_irqs q) = Some (Run (h usart_handler_isr) (Some a)) \<and>
        nvic_enabled (pf_irqs q) (us_id x)"
  let ?t = "\<lambda>(x, q). installed (h usart_handler_isr) a f c x q"
  have 1: "triple (\<lambda>(x, q). x = c) (on_device usart_id_init) ?s"
    by (rule triple_device) (simp add: usart_id_init_set_up)
  have 2: "triple ?s (\<lambda>s. on_platform (pf_gpio_init (g (fst s))) s) ?s" for g
    by (rule triple_platform [where f = "\<lambda>x. pf_gpio_init (g x)"])
  have 3: "triple ?s (\<lambda>s. on_platform (pf_irq_init (us_id (fst s)) (us_irq_priority (fst s)) (h usart_handler_isr) a) s) ?h"
    by (rule triple_platform [where f = "\<lambda>x. pf_irq_init (us_id x) (us_irq_priority x) (h usart_handler_isr) a"]) (simp add: pf_irq_init_ok)
  have 4: "triple ?h (\<lambda>s. on_platform (pf_irq_enable (us_id (fst s))) s) ?e"
    by (rule triple_platform [where f = "\<lambda>x. pf_irq_enable (us_id x)"]) (simp add: pf_irq_enable_ok)
  have 5: "triple ?e (\<lambda>s. on_platform (pf_mount (ui_node_alloc env) (''/dev/'' @ us_name (fst s)) f) s) ?t"
    by (rule triple_platform [where f = "\<lambda>x. pf_mount (ui_node_alloc env) (''/dev/'' @ us_name x) f"]) (auto simp: installed_def set_up_name dest: pf_mount_ok)
  show ?thesis
    unfolding usart_init_hw_def
    by (rule triple_chain [OF 1 triple_chain [OF usart_clock_init_triple triple_chain [OF 2 triple_chain [OF 2
          triple_chain [OF usart_dma_setup_triple triple_chain [OF 3 triple_chain [OF 4 triple_chain [OF triple_hal
          triple_chain [OF 5 triple_nil]]]]]]]]])
qed


lemma installed_upd [simp]:
  "installed h a f c (x \<lparr> us_tx_mutex := m \<rparr>) q = installed h a f c x q"
  "installed h a f c (x \<lparr> us_rx_mutex := m \<rparr>) q = installed h a f c x q"
  "installed h a f c (x \<lparr> us_tx_sem := b \<rparr>) q = installed h a f c x q"
  "installed h a f c (x \<lparr> us_rx_sem := b \<rparr>) q = installed h a f c x q"
  "installed h a f c (x \<lparr> us_read_buf := rb \<rparr>) q = installed h a f c x q"
  "installed h a f c (x \<lparr> us_write_buf := rb \<rparr>) q = installed h a f c x q"
  "installed h a f c (x \<lparr> us_dma_rx_buf := d \<rparr>) q = installed h a f c x q"
  "installed h a f c (x \<lparr> us_dma_tx_buf := d \<rparr>) q = installed h a f c x q"
  "installed h a f c (x \<lparr> us_periph_init := b \<rparr>) q = installed h a f c x q"
  by (simp_all add: installed_def set_up_def)

lemma installed_size: "installed h a f c x q \<Longrightarrow> us_buf_size x = us_buf_size c \<and> us_rx_count x = us_rx_count c"
  by (simp add: installed_def set_up_def)

text \<open>A new ring buffer, when its memory could be had.\<close>

definition empty_ring :: "int \<Rightarrow> ring_buf option \<Rightarrow> bool" where
  "empty_ring n p \<longleftrightarrow> ring_ok n p \<and> bytes_of p = []"

lemma new_ring_empty: "new_ring alloc n = Some rb \<Longrightarrow> alloc 5 \<Longrightarrow> empty_ring n (Some rb)"
  using ring_buf_init_inv [of alloc "word_of_int n" rb]
  by (auto simp: new_ring_def empty_ring_def ring_ok_def ring_buf_init_def split: if_splits)

text \<open>The objects of the port.\<close>

lemma usart_init_objects_triple:
  assumes "ui_read_alloc env 5" and "ui_write_alloc env 5"
  shows "triple (\<lambda>(x, q). installed h a f c x q) (usart_init_objects env)
     (\<lambda>(x, q). installed h a f c x q \<and> us_tx_mutex x = None \<and> us_rx_mutex x = None \<and> empty_ring (us_buf_size c) (us_read_buf x) \<and>
        empty_ring (us_buf_size c) (us_write_buf x) \<and> us_dma_rx_buf x = Some (zeros (us_buf_size c)) \<and>
        us_dma_tx_buf x = Some (zeros (us_buf_size c)) \<and> us_periph_init x)"
proof -
  let ?i = "installed h a f c"
  let ?m = "\<lambda>x q. ?i x q \<and> us_tx_mutex x = None \<and> us_rx_mutex x = None"
  let ?r = "\<lambda>x q. ?m x q \<and> empty_ring (us_buf_size c) (us_read_buf x)"
  let ?w = "\<lambda>x q. ?r x q \<and> empty_ring (us_buf_size c) (us_write_buf x)"
  let ?dr = "\<lambda>x q. ?w x q \<and> us_dma_rx_buf x = Some (zeros (us_buf_size c))"
  let ?dt = "\<lambda>x q. ?dr x q \<and> us_dma_tx_buf x = Some (zeros (us_buf_size c))"
  have 1: "triple (\<lambda>(x, q). ?i x q) (create ok (\<lambda>c. c \<lparr> us_tx_mutex := None \<rparr>)) (\<lambda>(x, q). ?i x q \<and> us_tx_mutex x = None)" for ok
    by (rule triple_create) simp
  have 2: "triple (\<lambda>(x, q). ?i x q \<and> us_tx_mutex x = None) (create ok (\<lambda>c. c \<lparr> us_rx_mutex := None \<rparr>)) (\<lambda>(x, q). ?m x q)" for ok
    by (rule triple_create) simp
  have 3: "triple (\<lambda>(x, q). ?m x q) (create ok (\<lambda>c. c \<lparr> us_tx_sem := False \<rparr>)) (\<lambda>(x, q). ?m x q)" for ok
    by (rule triple_create) simp
  have 4: "triple (\<lambda>(x, q). ?m x q) (create ok (\<lambda>c. c \<lparr> us_rx_sem := False \<rparr>)) (\<lambda>(x, q). ?m x q)" for ok
    by (rule triple_create) simp
  have 5: "triple (\<lambda>(x, q). ?m x q) (on_device (\<lambda>c. case new_ring (ui_read_alloc env) (us_buf_size c) of
        None \<Rightarrow> (Hal (- 1), c \<lparr> us_read_buf := None \<rparr>) | Some rb \<Rightarrow> (Errno EOK, c \<lparr> us_read_buf := Some rb \<rparr>))) (\<lambda>(x, q). ?r x q)"
    by (rule triple_device) (use assms installed_size in \<open>fastforce dest: new_ring_empty split: option.splits\<close>)
  have 6: "triple (\<lambda>(x, q). ?r x q) (on_device (\<lambda>c. case new_ring (ui_write_alloc env) (us_buf_size c) of
        None \<Rightarrow> (Hal (- 1), c \<lparr> us_write_buf := None \<rparr>) | Some rb \<Rightarrow> (Errno EOK, c \<lparr> us_write_buf := Some rb \<rparr>))) (\<lambda>(x, q). ?w x q)"
    by (rule triple_device) (use assms installed_size in \<open>fastforce dest: new_ring_empty split: option.splits\<close>)
  have 7: "triple (\<lambda>(x, q). ?w x q) (create ok (\<lambda>c. c \<lparr> us_dma_rx_buf := Some (zeros (us_buf_size c)) \<rparr>)) (\<lambda>(x, q). ?dr x q)" for ok
    by (rule triple_create) (auto dest: installed_size)
  have 8: "triple (\<lambda>(x, q). ?dr x q) (create ok (\<lambda>c. c \<lparr> us_dma_tx_buf := Some (zeros (us_buf_size c)) \<rparr>)) (\<lambda>(x, q). ?dt x q)" for ok
    by (rule triple_create) (auto dest: installed_size)
  have 9: "triple (\<lambda>(x, q). ?dt x q) (on_device (\<lambda>c. (Errno EOK, c \<lparr> us_periph_init := True \<rparr>))) (\<lambda>(x, q). ?dt x q \<and> us_periph_init x)"
    by (rule triple_device) auto
  show ?thesis
    unfolding usart_init_objects_def
    by (rule triple_chain [OF 1 triple_chain [OF 2 triple_chain [OF 3 triple_chain [OF 4 triple_chain [OF 5 triple_chain [OF 6
          triple_chain [OF 7 triple_chain [OF 8 triple_chain [OF 9 triple_nil]]]]]]]]]) auto
qed

text \<open>When setting up a port succeeds, the interrupt of its instance runs the handler of the port
  on it and is enabled, its file operations are mounted under its name, and the port is well-formed with
  free mutexes and empty buffers. Setting it up again changes nothing.\<close>

theorem usart_init_ready:
  assumes "usart_init env h a f (c, p) = Some (r, c', p')" and "init_ok r" and "\<not> us_periph_init c"
    and "0 < us_buf_size c" and "us_buf_size c \<le> 2048" and "us_rx_count c = 0"
    and "ui_read_alloc env 5" and "ui_write_alloc env 5"
  shows "(\<exists>n. usart_irqn (us_instance c) = Some n \<and> irq_fire n (pf_irqs p') = Some (Run (h usart_handler_isr) (Some a)) \<and> nvic_enabled (pf_irqs p') n) \<and>
     tree_op (pf_root p') (path_tokens (''/dev/'' @ us_name c)) = Some (Some f) \<and>
     port_inv c' \<and> us_tx_mutex c' = None \<and> us_rx_mutex c' = None \<and> bytes_of (us_read_buf c') = [] \<and> bytes_of (us_write_buf c') = [] \<and>
     usart_init env h a f (c', p') = Some (Errno EOK, c', p')"
proof -
  have run: "and_then (usart_init_hw env h a f) (usart_init_objects env) (c, p) = Some (r, c', p')"
    using assms(1,3) by (simp add: usart_init_def)
  note t = tripleD [OF triple_and_then [OF usart_init_hw_triple usart_init_objects_triple [OF assms(7,8)]] run assms(2)]
  have c': "installed (h usart_handler_isr) a f c c' p'" "us_tx_mutex c' = None" "us_rx_mutex c' = None"
    "empty_ring (us_buf_size c) (us_read_buf c')" "empty_ring (us_buf_size c) (us_write_buf c')"
    "us_dma_rx_buf c' = Some (zeros (us_buf_size c))" "us_dma_tx_buf c' = Some (zeros (us_buf_size c))" "us_periph_init c'"
    using t by simp_all
  have "port_inv c'"
    using c' installed_size [OF c'(1)] assms(4,5,6) by (simp add: port_inv_def empty_ring_def zeros_def)
  moreover have "us_id c' \<in> snd ` set irq_vectors" if "usart_irqn (us_instance c) = Some (us_id c')"
    using that by (cases "us_instance c") (simp_all add: irq_vectors_def)
  ultimately show ?thesis
    using c' by (auto simp: installed_def set_up_def irq_fire_def empty_ring_def usart_init_def)
qed

text \<open>A port for the concrete instances, and a platform without devices.\<close>

definition demo_usart :: usart where
  "demo_usart = \<lparr> us_name = ''ttyS0'', us_instance = USART1, us_dma_tx = None, us_dma_rx = None, us_mode = USART_IDLE,
     us_gpio_tx = Some \<lparr> gp_port = GPIOA, gp_pin = 9 \<rparr>, us_gpio_rx = Some \<lparr> gp_port = GPIOA, gp_pin = 10 \<rparr>, us_buf_size = 4,
     us_irq_priority = 5, us_read_timeout = 0, us_BaudRate = 115200, us_ClockPrescaler = 0, us_BRR = 0, us_idle_irq = False,
     us_ops = [], us_id = 0, us_tx_sem = False, us_rx_sem = False, us_tx_mutex = None, us_rx_mutex = None,
     us_tx_state = USART_FREE, us_rx_state = USART_FREE, us_rx_count = 0, us_tx_count = 0, us_write_buf = None, us_read_buf = None,
     us_dma_rx_buf = None, us_dma_tx_buf = None, us_error = False, us_periph_init = False, us_tasks_init = False,
     us_port_open = False, us_use_dma = False, us_stdio = False, us_tasks = [] \<rparr>"

definition demo_platform :: "(nat, nat, nat) platform" where
  "demo_platform = \<lparr> pf_gpio = reset_hw, pf_dma_clocks = [], pf_bus = [], pf_irqs = no_irqs, pf_root = root_node \<rparr>"

definition demo_init_env :: usart_init_env where
  "demo_init_env = \<lparr> ui_dma_tx = 0, ui_dma_rx = 0, ui_uart = 0, ui_made = (\<lambda>_. True), ui_read_alloc = (\<lambda>_. True),
     ui_write_alloc = (\<lambda>_. True), ui_node_alloc = (\<lambda>_. True) \<rparr>"

definition demo_isr :: "usart_isr \<Rightarrow> nat" where
  "demo_isr h = (case h of usart_handler_isr \<Rightarrow> 1 | usart_dma_tx_handler \<Rightarrow> 2 | usart_dma_rx_handler \<Rightarrow> 3)"

definition demo_ring :: ring_buf where
  "demo_ring = \<lparr> write_ptr = 2, read_ptr = 0, start_ptr = Some [7, 8, 0, 0], rb_size = 4, rb_count = 2,
     cont_mutex = False, rw_mutex = False, r_sem = False, w_sem = False \<rparr>"

definition demo_port :: usart where
  "demo_port = demo_usart \<lparr> us_write_buf := Some demo_ring, us_read_buf := Some demo_ring, us_dma_rx_buf := Some [0, 0, 0, 0],
     us_dma_tx_buf := Some [0, 0, 0, 0], us_periph_init := True \<rparr>"

lemma demo_port_inv: "port_inv demo_port"
  by (simp add: port_inv_def demo_port_def demo_usart_def ring_ok_def demo_ring_def rb_inv_def)

lemma demo_ring_bytes: "rb_contents demo_ring = [7, 8]"
  by (simp add: rb_contents_def demo_ring_def ring_view_def ring_index_def upt_rec)

lemma demo_init_runs:
  "case usart_init demo_init_env demo_isr 77 9 (demo_usart, demo_platform) of None \<Rightarrow> False | Some (r, s) \<Rightarrow> init_ok r"
  by code_simp

theorem usart_init_ready_witness:
  "\<exists>c' p'. usart_init demo_init_env demo_isr (77 :: nat) (9 :: nat) (c', p') = Some (Errno EOK, c', p') \<and> port_inv c' \<and>
     irq_fire 37 (pf_irqs p') = Some (Run 1 (Some 77)) \<and> tree_op (pf_root p') (path_tokens ''/dev/ttyS0'') = Some (Some 9)"
proof -
  obtain r c' p' where run: "usart_init demo_init_env demo_isr 77 9 (demo_usart, demo_platform) = Some (r, c', p')" "init_ok r"
    using demo_init_runs by (auto split: option.splits)
  show ?thesis
    using usart_init_ready [OF run] by (auto simp: demo_usart_def demo_init_env_def demo_isr_def)
qed

text \<open>The witness of the safety of the calls: a round of the write task on a port with two bytes to send.\<close>

theorem usart_calls_safe_witness:
  "\<exists>c'. port_step (Write_task_round 1 \<lparr> ue_start_tx = 0, ue_start_rx = 0, ue_irqs = [], ue_bytes = [] \<rparr>) demo_port = Some c' \<and> port_inv c'"
  by (rule usart_calls_safe [OF demo_port_inv]) (simp add: demo_port_def demo_ring_bytes)

lemma stored_take:
  assumes "stored bytes n buf = Some b" and "k \<le> n" and "k \<le> length bytes"
  shows "take k b = take k bytes"
  using assms by (auto simp: stored_def Let_def memcpy_def min_absorb1 split: if_splits)

lemma usart_receive_idle:
  assumes mutex: "us_rx_mutex c = None" and mode: "us_mode c = USART_IDLE" and n: "n \<noteq> 0" "unat n \<le> length buf"
    and start: "ue_start_rx env = 0" and irqs: "ue_irqs env = before @ hw # after" "\<forall>x \<in> set before. \<not> ISR_IDLE x" "ISR_IDLE hw"
  shows "\<exists>b c'. usart_receive me env (Some buf) n c = Some (Hal 0, Some b, c') \<and> stored (ue_bytes env) (unat n) buf = Some b \<and>
     us_rx_count c' = rx_taken c hw \<and> us_rx_mutex c' = None \<and> us_rx_state c' = USART_FREE \<and> us_buf_size c' = us_buf_size c \<and>
     us_read_buf c' = us_read_buf c"
proof -
  obtain b where b: "stored (ue_bytes env) (unat n) buf = Some b"
    using stored_some [OF n(2)] by blast
  let ?c = "c \<lparr> us_rx_mutex := Some me, us_rx_sem := False, us_rx_state := USART_RECEIVE, us_rx_count := 0, us_idle_irq := True,
      us_ops := us_ops c @ [Start_rx (us_use_dma c) n] \<rparr>"
  have "us_rx_sem (wait_sem us_rx_sem (ue_irqs env) ?c)"
    using irqs mode wait_rx_sem [of ?c "ue_irqs env"] by (simp add: rx_end_def)
  moreover have "us_rx_count (wait_sem us_rx_sem (ue_irqs env) ?c) = rx_taken ?c hw"
    unfolding irqs(1) using irqs mode by (intro wait_rx_count) (simp_all add: rx_end_def)
  moreover have "rx_taken ?c hw = rx_taken c hw"
    by (simp add: rx_taken_def)
  ultimately show ?thesis
    using mutex mode n start b by (simp add: usart_receive_def mutex_take_now Let_def)
qed

lemma read_round_idle:
  assumes inv: "port_inv c" and mutex: "us_rx_mutex c = None" and mode: "us_mode c = USART_IDLE"
    and start: "ue_start_rx env = 0" and irqs: "ue_irqs env = before @ hw # after" "\<forall>x \<in> set before. \<not> ISR_IDLE x" "ISR_IDLE hw"
    and count: "rx_taken c hw = int k" and k: "k \<le> nat (us_buf_size c)" "k \<le> length (ue_bytes env)"
    and ds: "\<forall>d \<in> set ds. d \<noteq> 0" "k \<le> length ds + free_of (us_read_buf c)"
  shows "\<exists>out c'. usart_read_round me env ds c = Some (out, c') \<and> \<not> us_error c' \<and> us_rx_mutex c' = None \<and>
     bytes_of (us_read_buf c) @ take k (ue_bytes env) = out @ bytes_of (us_read_buf c') \<and>
     (k \<le> free_of (us_read_buf c) \<longrightarrow> out = [])"
proof -
  obtain buf where buf: "us_dma_rx_buf c = Some buf" "length buf = nat (us_buf_size c)"
    using inv by (auto simp: port_inv_def)
  let ?n = "word_of_int (us_buf_size c) :: u16"
  have n: "unat ?n = nat (us_buf_size c)" "?n \<noteq> 0"
    using unat_buf_size [OF inv] ring_size_pos [OF inv] by simp_all
  obtain b c1 where r: "usart_receive me env (Some buf) ?n c = Some (Hal 0, Some b, c1)" and b: "stored (ue_bytes env) (unat ?n) buf = Some b"
    and c1: "us_rx_count c1 = int k" "us_rx_mutex c1 = None" "us_buf_size c1 = us_buf_size c" "us_read_buf c1 = us_read_buf c"
    using usart_receive_idle [OF mutex mode n(2) _ start irqs, of buf me] n(1) buf(2) count by auto
  obtain rb where rb: "us_read_buf c = Some rb" "rb_inv rb" "rb_size rb = ?n"
    using inv by (rule port_ring_read)
  have m: "min (us_rx_count c1) (us_buf_size c1) = int k"
    using c1 k(1) inv by (auto simp: port_inv_def min_def)
  have "us_buf_size c \<le> 2048"
    using inv by (simp add: port_inv_def)
  then have small: "k < 65536"
    using k(1) by linarith
  have nk: "unat (word_of_int (int k) :: u16) = k"
    using small uint_size [of "int k"] by simp
  have bits: "take k b = take k (ue_bytes env)" "k \<le> length b"
    using stored_take [OF b] stored_length [OF b] k n(1) buf(2) by simp_all
  obtain out rb' where w: "ring_buf_write ds (Some rb) b (word_of_int (int k)) = Some (uint (word_of_int (int k) :: u16), out, Some rb')"
      "rb_contents rb @ take k b = out @ rb_contents rb'"
    using ring_buf_write_total [of "us_buf_size c" rb "word_of_int (int k)" b ds] rb n nk ds bits(2) unfolding nk by (auto simp: ring_ok_def)
  have "out = []" if "k \<le> free_of (us_read_buf c)"
  proof -
    have "word_of_int (int k) \<le> ring_buf_get_free_size rb"
      using that rb(1) nk by (simp add: word_le_nat_alt)
    then show ?thesis
      using ring_write_loop_fits [OF rb(2), of "word_of_int (int k)" b ds] w(1) bits(2) nk rb_inv_start [OF rb(2)]
      by (auto simp: ring_buf_write_def)
  qed
  then show ?thesis
    using r buf(1) c1 m w rb(1) bits(1) by (simp add: usart_read_round_def Let_def)
qed

text \<open>C25: In the idle mode a round of the read task whose reception an idle line ends after \<open>k\<close> bytes puts exactly these
  bytes behind those in the ring buffer, in their order: what was there followed by the
  new bytes is what the readers took meanwhile followed by what is there now. The bytes behind them in the receive buffer, left
  from earlier receptions, do not get in.\<close>

theorem usart_idle_reception:
  assumes inv: "port_inv c" and mutex: "us_rx_mutex c = None" and mode: "us_mode c = USART_IDLE"
    and start: "ue_start_rx env = 0" and irqs: "ue_irqs env = before @ hw # after" "\<forall>x \<in> set before. \<not> ISR_IDLE x" "ISR_IDLE hw"
    and count: "rx_taken c hw = int k" and k: "k \<le> nat (us_buf_size c)" "k \<le> length (ue_bytes env)"
    and ds: "\<forall>d \<in> set ds. d \<noteq> 0" "k \<le> length ds + free_of (us_read_buf c)"
  shows "\<exists>out c'. usart_read_round me env ds c = Some (out, c') \<and> \<not> us_error c' \<and> us_rx_mutex c' = None \<and>
     bytes_of (us_read_buf c) @ take k (ue_bytes env) = out @ bytes_of (us_read_buf c')"
  using read_round_idle [OF assms] by blast

text \<open>A line that sends two bytes and falls idle, with DMA off.\<close>

theorem usart_idle_reception_witness:
  "\<exists>out c'. usart_read_round 1 \<lparr> ue_start_tx = 0, ue_start_rx = 0,
      ue_irqs = [\<lparr> gState_ready = True, RxState_ready = False, TxXferSize = 0, RxXferSize = 4, RxXferCount = 3, NDTR = 0, ISR_IDLE = False \<rparr>,
        \<lparr> gState_ready = True, RxState_ready = False, TxXferSize = 0, RxXferSize = 4, RxXferCount = 2, NDTR = 0, ISR_IDLE = True \<rparr>],
      ue_bytes = [5, 6] \<rparr> [] demo_port = Some (out, c') \<and> \<not> us_error c' \<and> [7, 8, 5, 6] = out @ bytes_of (us_read_buf c')"
proof -
  let ?hw = "\<lparr> gState_ready = True, RxState_ready = False, TxXferSize = 0, RxXferSize = 4, RxXferCount = 2, NDTR = 0, ISR_IDLE = True \<rparr>"
  let ?busy = "\<lparr> gState_ready = True, RxState_ready = False, TxXferSize = 0, RxXferSize = 4, RxXferCount = 3, NDTR = 0, ISR_IDLE = False \<rparr>"
  let ?env = "\<lparr> ue_start_tx = 0, ue_start_rx = 0, ue_irqs = [?busy, ?hw], ue_bytes = [5, 6] \<rparr>"
  have "\<exists>out c'. usart_read_round 1 ?env [] demo_port = Some (out, c') \<and> \<not> us_error c' \<and> us_rx_mutex c' = None \<and>
     bytes_of (us_read_buf demo_port) @ take 2 (ue_bytes ?env) = out @ bytes_of (us_read_buf c')"
    by (rule usart_idle_reception [OF demo_port_inv, where before = "[?busy]" and hw = ?hw and after = "[]"])
       (simp_all add: demo_port_def demo_usart_def rx_taken_def demo_ring_def ring_buf_get_free_size_def)
  then show ?thesis
    by (auto simp: demo_port_def demo_ring_bytes)
qed

text \<open>While the last transfer of one of the tasks has failed, the calls of the user take effect although they
  fail: a read takes its bytes out of the buffer and a write puts its bytes into it, and both report
  EPROTO. The program that reads on loses these bytes, the program that repeats its write sends them twice.\<close>

theorem usart_error_takes_effect:
  assumes inv: "port_inv c" and err: "us_error c" and ne: "bytes_of (us_read_buf c) \<noteq> []"
    and fits: "length buf \<le> free_of (us_write_buf c)"
  shows "(\<exists>out c'. usart_read ws n c = Some (- 1, EPROTO, out, c') \<and>
       bytes_of (us_read_buf c') = drop (min (unat n) 65535) (bytes_of (us_read_buf c))) \<and>
     (\<exists>c'. usart_write [] buf (word_of_nat (length buf)) c = Some (- 1, EPROTO, [], c') \<and>
       bytes_of (us_write_buf c') = bytes_of (us_write_buf c) @ buf)"
proof
  show "\<exists>out c'. usart_read ws n c = Some (- 1, EPROTO, out, c') \<and>
       bytes_of (us_read_buf c') = drop (min (unat n) 65535) (bytes_of (us_read_buf c))"
    using usart_read_ready [OF inv ne, of ws n] err by auto
  obtain rb where rb: "us_write_buf c = Some rb" "rb_inv rb" "rb_size rb = word_of_int (us_buf_size c)"
    using inv by (rule port_ring_write)
  let ?n = "ucast (word_of_nat (length buf) :: u32) :: u16"
  have small: "length buf < 65536"
    using fits rb(1) by (simp add: le_less_trans [OF _ unat_lt_65536])
  then have n: "unat ?n = length buf"
    by (simp add: unsigned_ucast_eq unat_of_nat take_bit_nat_eq_self)
  then have "?n \<le> ring_buf_get_free_size rb"
    using fits rb(1) by (simp add: word_le_nat_alt)
  then obtain rb' where "ring_write_loop [] rb buf ?n = Some ([], rb')" "rb_contents rb' = rb_contents rb @ buf"
    using ring_write_loop_fits [OF rb(2), of ?n buf] n by auto
  then show "\<exists>c'. usart_write [] buf (word_of_nat (length buf)) c = Some (- 1, EPROTO, [], c') \<and>
       bytes_of (us_write_buf c') = bytes_of (us_write_buf c) @ buf"
    using rb(1) rb_inv_start [OF rb(2)] err by (auto simp: usart_write_def ring_buf_write_def Let_def)
qed

theorem usart_error_takes_effect_witness:
  "(\<exists>out c'. usart_read [] 1 (demo_port \<lparr> us_error := True \<rparr>) = Some (- 1, EPROTO, out, c') \<and> bytes_of (us_read_buf c') = [8]) \<and>
   (\<exists>c'. usart_write [] [9] 1 (demo_port \<lparr> us_error := True \<rparr>) = Some (- 1, EPROTO, [], c') \<and> bytes_of (us_write_buf c') = [7, 8, 9])"
proof -
  let ?c = "demo_port \<lparr> us_error := True \<rparr>"
  have "port_inv ?c" and "us_error ?c" and "bytes_of (us_read_buf ?c) \<noteq> []" and "length [9 :: u8] \<le> free_of (us_write_buf ?c)"
    using demo_port_inv by (simp_all add: demo_port_def demo_ring_bytes) (simp add: demo_ring_def ring_buf_get_free_size_def)
  from usart_error_takes_effect [OF this, of "[]" 1] show ?thesis
    by (simp add: demo_port_def demo_ring_bytes)
qed

text \<open>When the receiver is busy, a combined transfer fails with EBUSY and keeps the transmit mutex, which its task never
  gives back: from then on every transmission over the port, of any task, fails with EBUSY.\<close>

theorem usart_transmit_receive_leaks:
  assumes "us_tx_mutex c = None" and "us_rx_mutex c = Some t" and "tx_n \<noteq> 0" and "rx_n \<noteq> 0"
  shows "\<exists>c'. usart_transmit_receive me env (Some data) (Some buf) tx_n rx_n c = Some (Errno EBUSY, Some buf, c') \<and>
     us_rx_mutex c' = us_rx_mutex c \<and>
     (\<forall>me' env' data' n. n \<noteq> 0 \<longrightarrow> usart_transmit me' env' (Some data') n c' = Some (Errno EBUSY, c')) \<and>
     (\<forall>me' env' data' buf' n k. n \<noteq> 0 \<longrightarrow> k \<noteq> 0 \<longrightarrow>
        usart_transmit_receive me' env' (Some data') (Some buf') n k c' = Some (Errno EBUSY, Some buf', c'))"
  using assms by (simp add: usart_transmit_receive_def usart_transmit_def mutex_take_now Let_def)

theorem usart_transmit_receive_leaks_witness:
  "\<exists>c'. usart_transmit_receive 1 \<lparr> ue_start_tx = 0, ue_start_rx = 0, ue_irqs = [], ue_bytes = [] \<rparr> (Some [1]) (Some [0]) 1 1
       (demo_port \<lparr> us_rx_mutex := Some 2 \<rparr>) = Some (Errno EBUSY, Some [0], c') \<and>
     usart_transmit 2 \<lparr> ue_start_tx = 0, ue_start_rx = 0, ue_irqs = [], ue_bytes = [] \<rparr> (Some [1]) 1 c' = Some (Errno EBUSY, c')"
proof -
  let ?c = "demo_port \<lparr> us_rx_mutex := Some 2 \<rparr>"
  have "us_tx_mutex ?c = None" and "us_rx_mutex ?c = Some 2" and "(1 :: u16) \<noteq> 0" and "(1 :: u16) \<noteq> 0"
    by (simp_all add: demo_port_def demo_usart_def)
  from usart_transmit_receive_leaks [OF this, of 1 "\<lparr> ue_start_tx = 0, ue_start_rx = 0, ue_irqs = [], ue_bytes = [] \<rparr>" "[1]" "[0]"]
  show ?thesis
    by auto
qed

text \<open>The first open of a port takes it: while it is open, further opens fail with EACCES. Once it has been
  closed the next open succeeds without taking it, so two programs can have it open at once.\<close>

theorem usart_open_exclusive:
  assumes "port_inv c" and "\<not> us_stdio c" and "\<not> us_port_open c" and "\<not> us_tasks_init c"
  shows "\<exists>c1 c2. usart_open c = (0, EOK, c1) \<and> length (us_tasks c1) = length (us_tasks c) + 2 \<and> usart_open c1 = (- 1, EACCES, c1) \<and>
     usart_close c1 = (0, EOK, c2) \<and> usart_open c2 = (0, EOK, c2) \<and> usart_open c2 = (0, EOK, c2)"
  using assms by (auto simp: usart_open_def usart_close_def port_inv_def ring_ok_def)

theorem usart_open_exclusive_witness:
  "\<exists>c1 c2. usart_open demo_port = (0, EOK, c1) \<and> usart_open c1 = (- 1, EACCES, c1) \<and> usart_close c1 = (0, EOK, c2) \<and> usart_open c2 = (0, EOK, c2)"
proof -
  have "\<not> us_stdio demo_port" and "\<not> us_port_open demo_port" and "\<not> us_tasks_init demo_port"
    by (simp_all add: demo_port_def demo_usart_def)
  from usart_open_exclusive [OF demo_port_inv this] show ?thesis
    by blast
qed

text \<open>The interrupts of a transmission while nothing is received start nothing on the hardware.\<close>

lemma usart_handler_ops: "us_rx_state c \<noteq> USART_RECEIVE \<Longrightarrow> us_ops (usart_handler hw c) = us_ops c"
  by (simp add: usart_handler_def Let_def)

lemma wait_sem_ops: "us_rx_state c \<noteq> USART_RECEIVE \<Longrightarrow> us_ops (wait_sem sem hws c) = us_ops c"
  by (induction hws arbitrary: c) (simp_all add: usart_handler_ops)

text \<open>C26: A transmission of at least one byte, while no reception is under way. When the mutex is free it hands its bytes to the hardware, in one piece, and leaves the mutex free; it succeeds
  exactly when the library starts it and an interrupt finds the transmitter ready before the time is up, and fails with the
  code of the library or with ETIMEDOUT. While another task transmits it fails with EBUSY and changes nothing.\<close>

theorem usart_transmit_outcome:
  assumes "n \<noteq> 0" and "unat n \<le> length data" and "us_rx_state c = USART_FREE"
  shows "\<exists>r c'. usart_transmit me env (Some data) n c = Some (r, c') \<and>
     (if us_tx_mutex c \<noteq> None then r = Errno EBUSY \<and> c' = c
      else r = (if ue_start_tx env \<noteq> 0 then Hal (ue_start_tx env)
                else if \<exists>hw \<in> set (ue_irqs env). gState_ready hw then Hal 0 else Errno ETIMEDOUT) \<and>
        us_tx_mutex c' = None \<and> us_tx_state c' = USART_FREE \<and> us_ops c' = us_ops c @ [Start_tx (us_use_dma c) (take (unat n) data)])"
proof (cases "us_tx_mutex c = None \<and> ue_start_tx env = 0")
  case True
  let ?c = "c \<lparr> us_tx_mutex := Some me, us_tx_sem := False, us_tx_state := USART_TRANSMIT, us_tx_count := 0,
      us_ops := us_ops c @ [Start_tx (us_use_dma c) (take (unat n) data)] \<rparr>"
  have "us_tx_sem (wait_sem us_tx_sem (ue_irqs env) ?c) \<longleftrightarrow> (\<exists>hw \<in> set (ue_irqs env). gState_ready hw)"
    by (simp add: wait_tx_sem tx_end_def)
  moreover have "us_ops (wait_sem us_tx_sem (ue_irqs env) ?c) = us_ops ?c"
    using assms(3) by (intro wait_sem_ops) simp
  ultimately show ?thesis
    using assms True by (simp add: usart_transmit_def mutex_take_now Let_def)
qed (use assms in \<open>auto simp: usart_transmit_def mutex_take_now Let_def\<close>)

theorem usart_transmit_outcome_witness:
  "\<exists>c'. usart_transmit 1 \<lparr> ue_start_tx = 0, ue_start_rx = 0, ue_irqs = [], ue_bytes = [] \<rparr> (Some [5, 6, 7]) 2 demo_port = Some (Errno ETIMEDOUT, c') \<and>
     us_tx_mutex c' = None \<and> us_ops c' = [Start_tx False [5, 6]]"
proof -
  have "(2 :: u16) \<noteq> 0" and "unat (2 :: u16) \<le> length [5, 6, 7 :: u8]" and "us_rx_state demo_port = USART_FREE"
    by (simp_all add: demo_port_def demo_usart_def)
  from usart_transmit_outcome [OF this, of 1 "\<lparr> ue_start_tx = 0, ue_start_rx = 0, ue_irqs = [], ue_bytes = [] \<rparr>"] show ?thesis
    by (auto simp: demo_port_def demo_usart_def)
qed

end
