(* ===== verification/SerialPorts.thy ===== *)
theory SerialPorts
  imports Stdio Usart
begin

text \<open>
  The serial ports under the file layer: the operations that \<open>usart_init\<close> mounts (bsp/mcu/periph/usart/stm32/usart.c) as
  a driver of the calls of os/fatfs/fsa/stdio.c. The world of the driver are the ports, by the number of their
  device, and what the tasks of a port do while a call waits for them. The contract of the drivers holds for
  them, so every sequence of calls leaves all ports sound, and what is written to
  a descriptor on one side is read from a descriptor on the other.
\<close>

section \<open>The ports as a driver\<close>

text \<open>\<open>pw_takes\<close>: the sizes of the reads of the write task that end the waits of a write; \<open>pw_comes\<close>: the writes of the
  read task that end the waits of a read. \<open>pw_sent\<close> has the bytes that the write task took during the writes. \<open>pw_stuck\<close> tells
  that a call waits and never returns (the other tasks go on, with the buffers as the call has left them), \<open>pw_noarg\<close> that a
  caller of \<open>ioctl\<close> did not pass the argument that the request reads, and \<open>pw_overrun\<close> that a call left a buffer.\<close>

record serial_world =
  pw_ports :: "nat \<Rightarrow> usart"
  pw_takes :: "nat \<Rightarrow> u16 list"
  pw_comes :: "nat \<Rightarrow> u8 list list"
  pw_sent :: "nat \<Rightarrow> u8 list"
  pw_stuck :: bool
  pw_noarg :: bool
  pw_overrun :: bool

definition put_port :: "nat \<Rightarrow> usart \<Rightarrow> serial_world \<Rightarrow> serial_world" where
  "put_port k c w = w \<lparr> pw_ports := (pw_ports w)(k := c) \<rparr>"

definition port_open_op :: "nat \<Rightarrow> string \<Rightarrow> serial_world file_op" where
  "port_open_op k path fd fl w e = (case usart_open (pw_ports w k) of (rv, e, c) \<Rightarrow> (rv, fl, put_port k c w, e))"

definition port_write_op :: "nat \<Rightarrow> u8 list \<Rightarrow> serial_world file_op" where
  "port_write_op k buf fd fl w e =
     (case usart_write (pw_takes w k) buf (word_of_nat (length buf)) (pw_ports w k) of
        None \<Rightarrow>
          (case usart_write_waits (pw_takes w k) buf (word_of_nat (length buf)) (pw_ports w k) of
             None \<Rightarrow> (0, fl, w \<lparr> pw_overrun := True \<rparr>, e)
           | Some (out, c) \<Rightarrow> (0, fl, (put_port k c w) \<lparr> pw_sent := (pw_sent w)(k := pw_sent w k @ out), pw_stuck := True \<rparr>, e))
      | Some (rv, e, out, c) \<Rightarrow> (rv, fl, (put_port k c w) \<lparr> pw_sent := (pw_sent w)(k := pw_sent w k @ out) \<rparr>, e))"

definition port_read_op :: "nat \<Rightarrow> nat \<Rightarrow> nat \<Rightarrow> u32 \<Rightarrow> serial_world \<Rightarrow> errno \<Rightarrow> int \<times> u8 list \<times> u32 \<times> serial_world \<times> errno" where
  "port_read_op k count fd fl w e =
     (case usart_read (pw_comes w k) (word_of_nat count) (pw_ports w k) of
        None \<Rightarrow>
          (case usart_read_waits (pw_comes w k) (pw_ports w k) of
             None \<Rightarrow> (0, [], fl, w \<lparr> pw_overrun := True \<rparr>, e)
           | Some c \<Rightarrow> (0, [], fl, (put_port k c w) \<lparr> pw_stuck := True \<rparr>, e))
      | Some (rv, e, out, c) \<Rightarrow> (rv, out, fl, put_port k c w, e))"

definition port_close_op :: "nat \<Rightarrow> serial_world file_op" where
  "port_close_op k fd fl w e = (case usart_close (pw_ports w k) of (rv, e, c) \<Rightarrow> (rv, fl, put_port k c w, e))"

definition port_ioctl_op :: "nat \<Rightarrow> int \<Rightarrow> int list \<Rightarrow> serial_world file_op" where
  "port_ioctl_op k request args fd fl w e =
     (if request = 0 \<and> args = [] then (0, fl, w \<lparr> pw_noarg := True \<rparr>, e)
      else (case usart_ioctl request (if args = [] then 0 else word_of_int (hd args)) (pw_ports w k) of
        (rv, e, c) \<Rightarrow> (rv, fl, put_port k c w, e)))"

definition usart_ops :: "nat \<Rightarrow> serial_world file_operations" where
  "usart_ops k = zero_ops \<lparr> fo_open := Some (port_open_op k), fo_write := Some (port_write_op k), fo_read := Some (port_read_op k),
     fo_close := Some (port_close_op k), fo_ioctl := Some (port_ioctl_op k) \<rparr>"

lemma usart_ops_simps [simp]:
  "fo_open (usart_ops k) = Some (port_open_op k)" "fo_write (usart_ops k) = Some (port_write_op k)"
  "fo_read (usart_ops k) = Some (port_read_op k)" "fo_close (usart_ops k) = Some (port_close_op k)"
  "fo_ioctl (usart_ops k) = Some (port_ioctl_op k)" "fo_fsync (usart_ops k) = None" "fo_lseek (usart_ops k) = None"
  by (simp_all add: usart_ops_def zero_ops_def)

lemma put_port_simps [simp]:
  "pw_ports (put_port k c w) = (pw_ports w)(k := c)" "pw_takes (put_port k c w) = pw_takes w" "pw_comes (put_port k c w) = pw_comes w"
  "pw_sent (put_port k c w) = pw_sent w" "pw_stuck (put_port k c w) = pw_stuck w" "pw_noarg (put_port k c w) = pw_noarg w"
  "pw_overrun (put_port k c w) = pw_overrun w"
  by (simp_all add: put_port_def)

section \<open>The ports stay sound\<close>

definition serial_inv :: "serial_world \<Rightarrow> bool" where
  "serial_inv w \<longleftrightarrow> \<not> pw_overrun w \<and> (\<forall>k. port_inv (pw_ports w k)) \<and> (\<forall>k. \<forall>b \<in> set (pw_comes w k). length b < 65536)"

definition serial_driver :: "serial_world file_operations \<Rightarrow> bool" where
  "serial_driver f \<longleftrightarrow> f = zero_ops \<or> f = null_node \<or> (\<exists>k. f = usart_ops k)"

lemma usart_open_inv: "port_inv c \<Longrightarrow> usart_open c = (rv, e, c') \<Longrightarrow> port_inv c'"
  by (auto simp: usart_open_def split: if_splits)

lemma usart_close_inv: "port_inv c \<Longrightarrow> usart_close c = (rv, e, c') \<Longrightarrow> port_inv c'"
  by (auto simp: usart_close_def split: if_splits)

lemma usart_ioctl_inv: "port_inv c \<Longrightarrow> usart_ioctl request arg c = (rv, e, c') \<Longrightarrow> port_inv c'"
  by (auto simp: usart_ioctl_def usart_ioctl_set_read_timeout_def split: if_splits)

lemma count16_le: "unat (ucast (word_of_nat (length buf) :: u32) :: u16) \<le> length buf"
proof -
  have "unat (ucast (word_of_nat (length buf) :: u32) :: u16) = length buf mod 2 ^ 16"
    by (simp add: unsigned_ucast_eq unat_of_nat take_bit_eq_mod mod_mod_cancel)
  then show ?thesis
    by simp
qed

lemma usart_write_inv:
  assumes inv: "port_inv c" and w: "usart_write ds buf (word_of_nat (length buf)) c = Some (rv, e, out, c')"
  shows "port_inv c'"
proof -
  let ?n = "ucast (word_of_nat (length buf) :: u32) :: u16"
  obtain rb where rb: "us_write_buf c = Some rb" "rb_inv rb" "rb_size rb = word_of_int (us_buf_size c)"
    using inv by (rule port_ring_write)
  obtain rb' where "ring_write_loop ds rb buf ?n = Some (out, rb')" "c' = c \<lparr> us_write_buf := Some rb' \<rparr>"
    using w rb(1) rb_inv_start [OF rb(2)] by (auto simp: usart_write_def ring_buf_write_def Let_def split: bind_splits if_splits)
  moreover have "rb_inv rb' \<and> rb_size rb' = rb_size rb"
    using ring_write_loop_fifo [OF rb(2) count16_le calculation(1)] by simp
  ultimately show ?thesis
    using inv rb(3) by (simp add: ring_ok_def)
qed

lemma usart_read_inv:
  assumes inv: "port_inv c" and ws: "\<forall>b \<in> set ws. length b < 65536" and r: "usart_read ws n c = Some (rv, e, out, c')"
  shows "port_inv c'"
proof -
  obtain rb where rb: "us_read_buf c = Some rb" "rb_inv rb" "rb_size rb = word_of_int (us_buf_size c)"
    using inv by (rule port_ring_read)
  obtain rb1 where w: "ring_wait_data ws rb = Some rb1" "rb_inv rb1" "rb_size rb1 = rb_size rb"
    using ring_wait_data_total [OF rb(2) ws] by blast
  have "\<exists>rb'. us_read_buf c' = Some rb' \<and> rb_inv rb' \<and> rb_size rb' = rb_size rb \<and> c' = c \<lparr> us_read_buf := Some rb' \<rparr>"
  proof (cases "rb_contents rb1 = []")
    case True
    then show ?thesis
      using r rb(1) rb_inv_start [OF rb(2)] w data_size_0 [OF w(2)]
      by (auto simp: usart_read_def ring_buf_read_timeout_def Let_def split: if_splits)
  next
    case False
    obtain rb' where "ring_buf_read_timeout_section rb1 n (ring_buf_get_data_size rb1) = Some (take (min (unat n) 65535) (rb_contents rb1), rb')"
        "rb_inv rb'" "rb_size rb' = rb_size rb1"
      using read_timeout_takes [OF w(2) False] by blast
    then show ?thesis
      using r rb(1) rb_inv_start [OF rb(2)] w data_size_0 [OF w(2)] False
      by (auto simp: usart_read_def ring_buf_read_timeout_def Let_def split: if_splits)
  qed
  then show ?thesis
    using inv rb(3) by (auto simp: ring_ok_def)
qed

text \<open>A call that does not return is one that waits.\<close>

lemma usart_write_none:
  assumes inv: "port_inv c" and w: "usart_write ds buf (word_of_nat (length buf)) c = None"
  shows "\<exists>out c'. usart_write_waits ds buf (word_of_nat (length buf)) c = Some (out, c') \<and> port_inv c'"
proof -
  let ?n = "ucast (word_of_nat (length buf) :: u32) :: u16"
  obtain rb where rb: "us_write_buf c = Some rb" "rb_inv rb" "rb_size rb = word_of_int (us_buf_size c)"
    using inv by (rule port_ring_write)
  obtain returns out rb' where r: "ring_write_run ds rb buf ?n = Some (returns, out, rb')" "rb_inv rb'" "rb_size rb' = rb_size rb"
    using ring_write_run_total [OF rb(2) _ count16_le, of ds buf] ring_size_pos [OF inv] rb(3) by auto
  have "\<not> returns"
    using w rb(1) rb_inv_start [OF rb(2)] r(1) by (auto simp: usart_write_def ring_buf_write_def ring_write_loop_def Let_def split: if_splits)
  then show ?thesis
    using inv rb r by (simp add: usart_write_waits_def ring_ok_def)
qed

lemma usart_read_none:
  assumes inv: "port_inv c" and ws: "\<forall>b \<in> set ws. length b < 65536" and r: "usart_read ws n c = None"
  shows "\<exists>c'. usart_read_waits ws c = Some c' \<and> port_inv c'"
proof -
  obtain rb where rb: "us_read_buf c = Some rb" "rb_inv rb" "rb_size rb = word_of_int (us_buf_size c)"
    using inv by (rule port_ring_read)
  obtain rb1 where w: "ring_wait_data ws rb = Some rb1" "rb_inv rb1" "rb_size rb1 = rb_size rb"
    using ring_wait_data_total [OF rb(2) ws] by blast
  have "rb_contents rb1 = []"
  proof (rule ccontr)
    assume ne: "rb_contents rb1 \<noteq> []"
    obtain rb' where "ring_buf_read_timeout_section rb1 n (ring_buf_get_data_size rb1) = Some (take (min (unat n) 65535) (rb_contents rb1), rb')"
      using read_timeout_takes [OF w(2) ne] by blast
    then show False
      using r rb(1) rb_inv_start [OF rb(2)] w(1) data_size_0 [OF w(2)] ne
      by (auto simp: usart_read_def ring_buf_read_timeout_def Let_def split: if_splits)
  qed
  moreover from this have "endless (word_of_int (us_read_timeout c))"
    using r rb(1) rb_inv_start [OF rb(2)] w(1) data_size_0 [OF w(2)]
    by (auto simp: usart_read_def ring_buf_read_timeout_def Let_def split: if_splits)
  ultimately show ?thesis
    using inv rb w data_size_0 [OF w(2)] by (simp add: usart_read_waits_def ring_ok_def)
qed

lemma serial_inv_put: "serial_inv w \<Longrightarrow> port_inv c \<Longrightarrow> serial_inv (put_port k c w)"
  by (simp add: serial_inv_def)

lemma serial_inv_upd [simp]:
  "serial_inv (w \<lparr> pw_stuck := b \<rparr>) = serial_inv w" "serial_inv (w \<lparr> pw_noarg := b \<rparr>) = serial_inv w" "serial_inv (w \<lparr> pw_sent := f \<rparr>) = serial_inv w"
  by (simp_all add: serial_inv_def)

lemma serial_inv_port: "serial_inv w \<Longrightarrow> port_inv (pw_ports w k)"
  by (simp add: serial_inv_def)

lemma port_ops_inv:
  assumes "serial_inv w"
  shows "port_open_op k path i fl w e = (rv, fl', w', e') \<Longrightarrow> serial_inv w'"
    and "port_write_op k buf i fl w e = (rv, fl', w', e') \<Longrightarrow> serial_inv w'"
    and "port_read_op k n i fl w e = (rv, out, fl', w', e') \<Longrightarrow> serial_inv w'"
    and "port_close_op k i fl w e = (rv, fl', w', e') \<Longrightarrow> serial_inv w'"
    and "port_ioctl_op k req args i fl w e = (rv, fl', w', e') \<Longrightarrow> serial_inv w'"
proof -
  note port = serial_inv_port [OF assms, of k]
  show "port_open_op k path i fl w e = (rv, fl', w', e') \<Longrightarrow> serial_inv w'"
    using assms usart_open_inv [OF port] by (auto simp: port_open_op_def serial_inv_put split: prod.splits)
  show "port_write_op k buf i fl w e = (rv, fl', w', e') \<Longrightarrow> serial_inv w'"
    using assms usart_write_inv [OF port] usart_write_none [OF port, of "pw_takes w k" buf]
    by (auto simp: port_write_op_def serial_inv_put split: option.splits)
  have "\<forall>b \<in> set (pw_comes w k). length b < 65536"
    using assms by (simp add: serial_inv_def)
  then show "port_read_op k n i fl w e = (rv, out, fl', w', e') \<Longrightarrow> serial_inv w'"
    using assms usart_read_inv [OF port] usart_read_none [OF port, of "pw_comes w k" "word_of_nat n"]
    by (auto simp: port_read_op_def serial_inv_put split: option.splits)
  show "port_close_op k i fl w e = (rv, fl', w', e') \<Longrightarrow> serial_inv w'"
    using assms usart_close_inv [OF port] by (auto simp: port_close_op_def serial_inv_put split: prod.splits)
  show "port_ioctl_op k req args i fl w e = (rv, fl', w', e') \<Longrightarrow> serial_inv w'"
    using assms usart_ioctl_inv [OF port] by (auto simp: port_ioctl_op_def serial_inv_put split: prod.splits if_splits)
qed

lemma null_ops_world: "driver_op null_node op \<Longrightarrow> op i fl w e = (rv, fl', w', e') \<Longrightarrow> w' = w"
  by (auto simp: null_node_def null_write_def null_read_def null_ioctl_def null_close_def null_fsync_def zero_ops_def
      elim!: driver_op.cases)

lemma no_zero_ops: "\<not> driver_op zero_ops op"
  by (auto simp: zero_ops_def elim!: driver_op.cases)

interpretation serial: file_drivers serial_driver serial_inv "\<lambda>_ _ _. True"
proof unfold_locales
  show "serial_driver zero_ops" "serial_driver null_node"
    by (simp_all add: serial_driver_def)
next
  fix f g i path fl e rv fl' e' and w w' :: serial_world
  assume "serial_driver f" "fo_open f = Some g" "serial_inv w" "g path i fl w e = (rv, fl', w', e')"
  then have "serial_inv w'"
    using port_ops_inv(1) by (auto simp: serial_driver_def null_node_def zero_ops_def null_open_def)
  then show "serial_inv w' \<and> (rv = 0 \<longrightarrow> True) \<and> (\<forall>h j. serial_driver h \<longrightarrow> j \<noteq> i \<longrightarrow> True \<longrightarrow> True)"
    by simp
next
  fix f op i fl e rv fl' e' and w w' :: serial_world
  assume *: "serial_driver f" "driver_op f op" "serial_inv w" "op i fl w e = (rv, fl', w', e')"
  consider "f = zero_ops" | "f = null_node" | k where "f = usart_ops k"
    using *(1) by (auto simp: serial_driver_def)
  then have "serial_inv w'"
  proof cases
    case 1
    then show ?thesis
      using *(2) no_zero_ops by blast
  next
    case 2
    then show ?thesis
      using null_ops_world [of op] * by blast
  next
    case 3
    from *(2) show ?thesis
      using *(3,4) port_ops_inv [OF *(3)] unfolding 3
      by cases (auto split: prod.splits)
  qed
  then show "serial_inv w' \<and> (\<forall>h j. serial_driver h \<longrightarrow> True \<longrightarrow> True)"
    by simp
qed simp_all

section \<open>Bytes written to a descriptor, on the wire, and read from another\<close>

lemma on_port:
  assumes "fd_used i s" and "ops_of s (fl_node (vf_files s ! i)) = Some (usart_ops k)"
  shows "vfs_write (int i) buf s = Some (after_op i (port_write_op k buf i (flags_of s i) (vf_world s) EOK) (s \<lparr> vf_errno := EOK \<rparr>))"
    and "vfs_read (int i) n s = (case port_read_op k n i (flags_of s i) (vf_world s) EOK of (rv, out, fl, w, e) \<Rightarrow>
      case after_op i (rv, fl, w, e) (s \<lparr> vf_errno := EOK \<rparr>) of (rv, s) \<Rightarrow> Some ((rv, out), s))"
  unfolding vfs_write_def vfs_read_def using assms
  by (simp_all add: on_fd_run flags_of_def case_prod_beta)

lemma buf_count_small:
  assumes "length buf < 65536"
  shows "unat (ucast (word_of_nat (length buf) :: u32) :: u16) = length buf"
  using assms by (simp add: unsigned_ucast_eq unat_of_nat take_bit_nat_eq_self)

text \<open>A write that fits puts its bytes behind those in the buffer.\<close>

lemma usart_write_fits:
  assumes inv: "port_inv c" and ok: "\<not> us_error c" and fits: "length buf \<le> free_of (us_write_buf c)"
  shows "\<exists>c'. usart_write ds buf (word_of_nat (length buf)) c = Some (int (length buf), EOK, [], c') \<and> port_inv c' \<and>
     bytes_of (us_write_buf c') = bytes_of (us_write_buf c) @ buf \<and> (\<exists>p. c' = c \<lparr> us_write_buf := p \<rparr>)"
proof -
  obtain rb where rb: "us_write_buf c = Some rb" "rb_inv rb" "rb_size rb = word_of_int (us_buf_size c)"
    using inv by (rule port_ring_write)
  let ?n = "ucast (word_of_nat (length buf) :: u32) :: u16"
  have small: "length buf < 65536"
    using fits rb(1) by (simp add: le_less_trans [OF _ unat_lt_65536])
  have n: "unat ?n = length buf"
    by (rule buf_count_small [OF small])
  have le: "?n \<le> ring_buf_get_free_size rb"
    using fits rb(1) n by (simp add: word_le_nat_alt)
  obtain rb' where w: "ring_write_loop ds rb buf ?n = Some ([], rb')" "rb_contents rb' = rb_contents rb @ buf"
    using ring_write_loop_fits [OF rb(2) le, of buf ds] n by auto
  have "ring_buf_write ds (us_write_buf c) buf ?n = Some (int (length buf), [], Some rb')"
    using rb(1) rb_inv_start [OF rb(2)] w(1) n by (auto simp: ring_buf_write_def uint_nat)
  then have "usart_write ds buf (word_of_nat (length buf)) c = Some (int (length buf), EOK, [], c \<lparr> us_write_buf := Some rb' \<rparr>)"
    using ok by (simp add: usart_write_def)
  moreover have "rb_inv rb' \<and> rb_size rb' = rb_size rb"
    using ring_write_loop_fifo [OF rb(2) _ w(1)] n by simp
  then have "port_inv (c \<lparr> us_write_buf := Some rb' \<rparr>)"
    using inv rb(3) by (simp add: ring_ok_def)
  ultimately show ?thesis
    using rb(1) w(2) by auto
qed

text \<open>The interrupts during a transmission may end a reception, but start nothing.\<close>

lemma handler_ops: "\<exists>j. us_ops (usart_handler hw c) = us_ops c @ replicate j Abort_rx"
proof -
  have "us_ops (usart_handler hw c) = us_ops c @ replicate 0 Abort_rx \<or> us_ops (usart_handler hw c) = us_ops c @ replicate 1 Abort_rx"
    by (simp add: usart_handler_def Let_def)
  then show ?thesis
    by blast
qed

lemma wait_ops: "\<exists>j. us_ops (wait_sem sem hws c) = us_ops c @ replicate j Abort_rx"
proof (induction hws arbitrary: c)
  case Nil
  then show ?case
    using exI [of _ "0 :: nat"] by simp
next
  case (Cons hw hws)
  obtain j where j: "us_ops (usart_handler hw c) = us_ops c @ replicate j Abort_rx"
    using handler_ops by blast
  obtain l where "us_ops (wait_sem sem hws (usart_handler hw c)) = us_ops (usart_handler hw c) @ replicate l Abort_rx"
    using Cons.IH by blast
  then have "us_ops (wait_sem sem hws (usart_handler hw c)) = us_ops c @ replicate (j + l) Abort_rx"
    by (simp add: j replicate_add)
  moreover have "us_ops c = us_ops c @ replicate 0 Abort_rx"
    by simp
  ultimately show ?case
    by auto
qed

lemma transmit_starts:
  assumes "us_tx_mutex c = None" and "n \<noteq> 0" and "unat n \<le> length data" and "ue_start_tx env = 0"
    and "\<exists>hw \<in> set (ue_irqs env). gState_ready hw"
  shows "\<exists>c' j. usart_transmit me env (Some data) n c = Some (Hal 0, c') \<and> us_tx_mutex c' = None \<and>
     us_ops c' = us_ops c @ Start_tx (us_use_dma c) (take (unat n) data) # replicate j Abort_rx"
proof -
  let ?c = "c \<lparr> us_tx_mutex := Some me, us_tx_sem := False, us_tx_state := USART_TRANSMIT, us_tx_count := 0,
      us_ops := us_ops c @ [Start_tx (us_use_dma c) (take (unat n) data)] \<rparr>"
  have "us_tx_sem (wait_sem us_tx_sem (ue_irqs env) ?c)"
    using assms(5) by (simp add: wait_tx_sem tx_end_def)
  moreover obtain j where "us_ops (wait_sem us_tx_sem (ue_irqs env) ?c) = us_ops ?c @ replicate j Abort_rx"
    using wait_ops by blast
  ultimately show ?thesis
    using assms(1-4) by (simp add: usart_transmit_def mutex_take_now Let_def)
qed

text \<open>A round of the write task sends all that has been written.\<close>

lemma write_round_sends:
  assumes inv: "port_inv c" and ne: "bytes_of (us_write_buf c) \<noteq> []" and mutex: "us_tx_mutex c = None"
    and start: "ue_start_tx env = 0" "\<exists>hw \<in> set (ue_irqs env). gState_ready hw"
  shows "\<exists>c' j. usart_write_round me env c = Some c' \<and> \<not> us_error c' \<and> bytes_of (us_write_buf c') = [] \<and>
     us_ops c' = us_ops c @ Start_tx (us_use_dma c) (bytes_of (us_write_buf c)) # replicate j Abort_rx"
proof -
  obtain buf where buf: "us_dma_tx_buf c = Some buf" "length buf = nat (us_buf_size c)"
    using inv by (auto simp: port_inv_def)
  let ?n = "word_of_int (us_buf_size c) :: u16"
  obtain rb where rb: "us_write_buf c = Some rb" "rb_inv rb" "rb_size rb = ?n"
    using inv by (rule port_ring_write)
  have len: "length (rb_contents rb) \<le> unat ?n"
    using rbq.cap [OF rb(2)] rb(3) by (simp add: rb_cap_def)
  obtain rb' where r: "ring_buf_read_ready rb ?n = Some (rb_contents rb, rb')" "rb_contents rb' = []"
    using read_ready_all [OF rb(2) _ len] ne rb(1) by auto
  obtain b where b: "memcpy buf 0 (rb_contents rb) 0 (length (rb_contents rb)) = Some b"
    using len buf unat_buf_size [OF inv] by (auto simp: memcpy_def)
  have front: "take (length (rb_contents rb)) b = rb_contents rb" "length (rb_contents rb) \<le> length b"
    using b by (auto simp: memcpy_def split: if_splits)
  let ?k = "word_of_int (int (length (rb_contents rb))) :: u16"
  have lt: "length (rb_contents rb) < 65536"
    using len by (rule le_less_trans) simp
  then have k: "unat ?k = length (rb_contents rb)"
    using uint_size [of "int (length (rb_contents rb))"] by simp
  then have "?k \<noteq> 0"
    using ne rb(1) by auto
  then obtain c' j where "usart_transmit me env (Some b) ?k (c \<lparr> us_write_buf := Some rb', us_dma_tx_buf := Some b \<rparr>) = Some (Hal 0, c')"
      "us_ops c' = us_ops c @ Start_tx (us_use_dma c) (rb_contents rb) # replicate j Abort_rx"
    using transmit_starts [of "c \<lparr> us_write_buf := Some rb', us_dma_tx_buf := Some b \<rparr>" ?k b env me] mutex start k front by auto
  moreover have "us_write_buf c' = Some rb'"
    using usart_transmit_keeps [OF calculation(1)] by simp
  ultimately show ?thesis
    using r rb(1) b buf(1) rb_inv_start [OF rb(2)] by (auto simp: usart_write_round_def ring_buf_read_def init_ok_def)
qed

text \<open>The descriptor \<open>i\<close> is open on the port \<open>k\<close>.\<close>

definition port_fd :: "serial_world vfs \<Rightarrow> nat \<Rightarrow> nat \<Rightarrow> bool" where
  "port_fd s i k \<longleftrightarrow> serial.driven s \<and> i < MAX_FILES \<and> vf_used s ! i \<and> ops_of s (fl_node (vf_files s ! i)) = Some (usart_ops k)"

abbreviation fd_port :: "serial_world vfs \<Rightarrow> nat \<Rightarrow> usart" where
  "fd_port s k \<equiv> pw_ports (vf_world s) k"

lemma port_fd_used: "port_fd s i k \<Longrightarrow> fd_used i s"
  by (simp add: port_fd_def serial.driven_wf fd_usedI)

lemma port_fd_inv: "port_fd s i k \<Longrightarrow> port_inv (fd_port s k)"
  by (simp add: port_fd_def serial.driven_def serial_inv_def)

lemma fd_write_fits:
  assumes fd: "port_fd s i k" and ok: "\<not> us_error (fd_port s k)" and fits: "length buf \<le> free_of (us_write_buf (fd_port s k))"
  shows "\<exists>s'. vfs_write (int i) buf s = Some (int (length buf), s') \<and> port_inv (fd_port s' k) \<and>
     bytes_of (us_write_buf (fd_port s' k)) = bytes_of (us_write_buf (fd_port s k)) @ buf \<and>
     (\<exists>p. fd_port s' k = fd_port s k \<lparr> us_write_buf := p \<rparr>) \<and> (\<forall>m. m \<noteq> k \<longrightarrow> fd_port s' m = fd_port s m)"
proof -
  have at: "fd_used i s" "ops_of s (fl_node (vf_files s ! i)) = Some (usart_ops k)"
    using port_fd_used [OF fd] fd by (simp_all add: port_fd_def)
  obtain c where c: "usart_write (pw_takes (vf_world s) k) buf (word_of_nat (length buf)) (fd_port s k) = Some (int (length buf), EOK, [], c)"
      "port_inv c" "bytes_of (us_write_buf c) = bytes_of (us_write_buf (fd_port s k)) @ buf" "\<exists>p. c = fd_port s k \<lparr> us_write_buf := p \<rparr>"
    using usart_write_fits [OF port_fd_inv [OF fd] ok fits] by blast
  show ?thesis
    using c(2-4) by (simp add: on_port(1) [OF at] port_write_op_def c(1) after_op_def)
qed

text \<open>A read from a port with data takes them at once, even when the last transfer has failed and the call does too.\<close>

lemma fd_read_now:
  assumes fd: "port_fd s i k" and ne: "bytes_of (us_read_buf (fd_port s k)) \<noteq> []"
    and n: "length (bytes_of (us_read_buf (fd_port s k))) \<le> n" "n < 65536"
  shows "\<exists>c. vfs_read (int i) n s = Some ((if us_error (fd_port s k) then - 1 else int (length (bytes_of (us_read_buf (fd_port s k)))),
        bytes_of (us_read_buf (fd_port s k))),
        s \<lparr> vf_errno := (if us_error (fd_port s k) then EPROTO else EOK), vf_world := put_port k c (vf_world s) \<rparr>) \<and>
     port_inv c \<and> bytes_of (us_read_buf c) = []"
proof -
  let ?b = "bytes_of (us_read_buf (fd_port s k))"
  have at: "fd_used i s" "ops_of s (fl_node (vf_files s ! i)) = Some (usart_ops k)"
    using port_fd_used [OF fd] fd by (simp_all add: port_fd_def)
  have same: "(vf_files s)[i := (vf_files s ! i) \<lparr> fl_flags := flags_of s i \<rparr>] = vf_files s"
    by (simp add: flags_of_def)
  have "min (unat (word_of_nat n :: u32)) 65535 = n"
    using n(2) by (simp add: unat_of_nat)
  then obtain c where c: "usart_read (pw_comes (vf_world s) k) (word_of_nat n) (fd_port s k) =
      Some (if us_error (fd_port s k) then - 1 else int (length ?b), if us_error (fd_port s k) then EPROTO else EOK, ?b, c)"
      "port_inv c" "bytes_of (us_read_buf c) = []"
    using usart_read_ready [OF port_fd_inv [OF fd] ne, of "pw_comes (vf_world s) k" "word_of_nat n"] n(1) by auto
  show ?thesis
    using c(2,3) same by (intro exI [of _ c]) (simp add: on_port(2) [OF at] port_read_op_def c(1) after_op_def)
qed

lemma fd_read_ready:
  assumes fd: "port_fd s i k" and ok: "\<not> us_error (fd_port s k)" and ne: "bytes_of (us_read_buf (fd_port s k)) \<noteq> []"
    and n: "length (bytes_of (us_read_buf (fd_port s k))) \<le> n" "n < 65536"
  shows "\<exists>s'. vfs_read (int i) n s = Some ((int (length (bytes_of (us_read_buf (fd_port s k)))), bytes_of (us_read_buf (fd_port s k))), s') \<and>
     bytes_of (us_read_buf (fd_port s' k)) = []"
  using fd_read_now [OF fd ne n] ok by auto

text \<open>A descriptor stays what it is when a port changes.\<close>

lemma port_fd_put:
  assumes "port_fd s i k" and "port_inv c"
  shows "port_fd (s \<lparr> vf_errno := e, vf_world := put_port m c (vf_world s) \<rparr>) i k"
proof -
  have "ops_of (s \<lparr> vf_errno := e, vf_world := put_port m c (vf_world s) \<rparr>) = ops_of s"
    by (rule ext) (simp add: ops_of_def split: node_ref.split)
  then show ?thesis
    using assms serial_inv_put by (auto simp: port_fd_def serial.driven_def vfs_wf_def)
qed

lemma free_of_empty:
  assumes "port_inv c" and "bytes_of (us_write_buf c) = []"
  shows "free_of (us_write_buf c) = nat (us_buf_size c)"
proof -
  obtain rb where rb: "us_write_buf c = Some rb" "rb_inv rb" "rb_size rb = word_of_int (us_buf_size c)"
    using assms(1) by (rule port_ring_write)
  then show ?thesis
    using assms free_size_contents [OF rb(2)] unat_buf_size [OF assms(1)] by simp
qed

lemma free_of_empty_read:
  assumes "port_inv c" and "bytes_of (us_read_buf c) = []"
  shows "free_of (us_read_buf c) = nat (us_buf_size c)"
proof -
  obtain rb where rb: "us_read_buf c = Some rb" "rb_inv rb" "rb_size rb = word_of_int (us_buf_size c)"
    using assms(1) by (rule port_ring_read)
  then show ?thesis
    using assms free_size_contents [OF rb(2)] unat_buf_size [OF assms(1)] by simp
qed

section \<open>Properties\<close>

text \<open>Any sequence of file calls on a table under which serial ports are mounted leaves the table well formed and every
  port sound: its ring buffers valid and of its size, its transfer buffers in place. No call leaves a buffer.\<close>

theorem serial_calls_keep_ports:
  assumes "serial.driven s"
  shows "\<exists>s'. fd_calls cs s = Some s' \<and> vfs_wf s' \<and> \<not> pw_overrun (vf_world s') \<and> (\<forall>k. port_inv (pw_ports (vf_world s') k))"
  using serial.fd_calls_driven [OF assms, of cs] by (auto simp: serial.driven_def serial_inv_def)

text \<open>C27: From one descriptor to another, over two idle ports: both ring buffers empty, the mutex of the sender's transmitter and of the
  receiver's receiver free, no error of an earlier transfer on the sender, the library starts both transfers and an interrupt finds the transmitter ready, the receiver in the mode that ends at an
  idle line, and not more bytes than either port has buffer or the reader asks for. Bytes
  written to a descriptor of the first port are accepted in full, and the next round of its write task starts exactly these bytes on
  the hardware. When they arrive at the second port and its line falls idle, the round of its read task takes them, and a read from a
  descriptor of that port returns exactly these bytes.\<close>

theorem serial_end_to_end:
  assumes tx_fd: "port_fd s i a" and tx_ok: "\<not> us_error (fd_port s a)" "us_tx_mutex (fd_port s a) = None"
      "bytes_of (us_write_buf (fd_port s a)) = []"
    and buf: "buf \<noteq> []" "length buf \<le> nat (us_buf_size (fd_port s a))" "length buf \<le> nat (us_buf_size (fd_port r b))" "length buf \<le> n" "n < 65536"
    and tx: "ue_start_tx tx = 0" "\<exists>hw \<in> set (ue_irqs tx). gState_ready hw"
    and rx_fd: "port_fd r j b" and rx_ok: "us_rx_mutex (fd_port r b) = None" "us_mode (fd_port r b) = USART_IDLE"
      "bytes_of (us_read_buf (fd_port r b)) = []"
    and rx: "ue_start_rx rx = 0" "ue_irqs rx = before @ hw # after" "\<forall>x \<in> set before. \<not> ISR_IDLE x" "ISR_IDLE hw"
      "\<forall>x \<in> set (ue_irqs rx). hw_ok x" "rx_taken (fd_port r b) hw = int (length buf)" "ue_bytes rx = buf"
  shows "\<exists>s' c q d r'. vfs_write (int i) buf s = Some (int (length buf), s') \<and>
     usart_write_round me tx (fd_port s' a) = Some c \<and>
     us_ops c = us_ops (fd_port s a) @ Start_tx (us_use_dma (fd_port s a)) buf # replicate q Abort_rx \<and>
     usart_read_round you rx [] (fd_port r b) = Some ([], d) \<and>
     vfs_read (int j) n (r \<lparr> vf_world := put_port b d (vf_world r) \<rparr>) = Some ((int (length buf), buf), r')"
proof -
  have "length buf \<le> free_of (us_write_buf (fd_port s a))"
    using free_of_empty [OF port_fd_inv [OF tx_fd] tx_ok(3)] buf(2) by simp
  then obtain s' p where s': "vfs_write (int i) buf s = Some (int (length buf), s')" "port_inv (fd_port s' a)"
      "bytes_of (us_write_buf (fd_port s' a)) = buf" "fd_port s' a = fd_port s a \<lparr> us_write_buf := p \<rparr>"
    using fd_write_fits [OF tx_fd tx_ok(1), of buf] tx_ok(3) by (auto simp del: free_of_def)
  obtain c q where c: "usart_write_round me tx (fd_port s' a) = Some c"
      "us_ops c = us_ops (fd_port s a) @ Start_tx (us_use_dma (fd_port s a)) buf # replicate q Abort_rx"
    using write_round_sends [OF s'(2) _ _ tx, of me] s'(3,4) buf(1) tx_ok(2) by auto
  have inv: "port_inv (fd_port r b)"
    by (rule port_fd_inv [OF rx_fd])
  have room: "length buf \<le> length ([] :: u16 list) + free_of (us_read_buf (fd_port r b))"
    using free_of_empty_read [OF inv rx_ok(3)] buf(3) by simp
  have "length buf \<le> length (ue_bytes rx)" "\<forall>d \<in> set ([] :: u16 list). d \<noteq> 0"
    using rx(7) by simp_all
  from read_round_idle [OF inv rx_ok(1,2) rx(1-4) rx(6) buf(3) this room, of you]
  obtain d where d: "usart_read_round you rx [] (fd_port r b) = Some ([], d)" "\<not> us_error d" "bytes_of (us_read_buf d) = buf"
    using room rx_ok(3) rx(7) by auto
  have "port_inv d"
    using usart_read_round_total [OF inv rx(5), of "[]" you] d(1) room buf(3) free_of_empty_read [OF inv rx_ok(3)] by auto
  then have "port_fd (r \<lparr> vf_world := put_port b d (vf_world r) \<rparr>) j b"
    using rx_fd serial_inv_put by (auto simp: port_fd_def serial.driven_def vfs_wf_def)
  from fd_read_ready [OF this, of n]
  obtain r' where "vfs_read (int j) n (r \<lparr> vf_world := put_port b d (vf_world r) \<rparr>) = Some ((int (length buf), buf), r')"
    using d(2,3) buf(1,4,5) by auto
  then show ?thesis
    using s'(1) c d(1) by blast
qed


text \<open>Two ports, mounted under the root, with empty buffers of four bytes and both descriptors open.\<close>

definition idle_ring :: ring_buf where
  "idle_ring = \<lparr> write_ptr = 0, read_ptr = 0, start_ptr = Some [0, 0, 0, 0], rb_size = 4, rb_count = 0,
     cont_mutex = False, rw_mutex = False, r_sem = False, w_sem = False \<rparr>"

definition idle_port :: usart where
  "idle_port = demo_port \<lparr> us_write_buf := Some idle_ring, us_read_buf := Some idle_ring \<rparr>"

definition demo_serial :: "serial_world vfs" where
  "demo_serial = \<lparr> vf_root = Node [] None [Node ''ttyS0'' (Some (usart_ops 0)) [], Node ''ttyS1'' (Some (usart_ops 1)) []],
     vf_used = True # True # replicate 30 False,
     vf_files = \<lparr> fl_flags = O_RDWR, fl_node = Tree_node [''ttyS0''] \<rparr> # replicate 31 \<lparr> fl_flags = O_RDWR, fl_node = Tree_node [''ttyS1''] \<rparr>,
     vf_errno = EOK,
     vf_world = \<lparr> pw_ports = (\<lambda>_. idle_port), pw_takes = (\<lambda>_. []), pw_comes = (\<lambda>_. []), pw_sent = (\<lambda>_. []), pw_stuck = False, pw_noarg = False, pw_overrun = False \<rparr> \<rparr>"

lemma idle_port_inv: "port_inv idle_port"
  by (simp add: port_inv_def idle_port_def demo_port_def demo_usart_def ring_ok_def idle_ring_def rb_inv_def)

lemma idle_ring_bytes: "rb_contents idle_ring = []"
  by (simp add: rb_contents_def idle_ring_def ring_view_def)

lemma demo_serial_nodes: "ops_of demo_serial r = Some f \<Longrightarrow> serial_driver f"
proof (cases r)
  case (Tree_node a)
  assume f: "ops_of demo_serial r = Some f"
  show ?thesis
  proof (cases a)
    case Nil
    then show ?thesis
      using f Tree_node by (simp add: ops_of_def demo_serial_def serial_driver_def)
  next
    case (Cons x xs)
    then show ?thesis
      using f Tree_node by (cases xs) (auto simp: ops_of_def demo_serial_def serial_driver_def node_find_sibling_def split: if_splits)
  qed
qed (simp add: ops_of_def serial_driver_def)

lemma demo_serial_fds: "port_fd demo_serial 0 0" "port_fd demo_serial 1 1"
proof -
  have ops: "ops_of demo_serial (Tree_node [''ttyS0'']) = Some (usart_ops 0)" "ops_of demo_serial (Tree_node [''ttyS1'']) = Some (usart_ops 1)"
    by (simp_all add: ops_of_def demo_serial_def node_find_sibling_def)
  have node: "fl_node (vf_files demo_serial ! i) = Tree_node [''ttyS0''] \<or> fl_node (vf_files demo_serial ! i) = Tree_node [''ttyS1'']" if "i < MAX_FILES" for i
    using that by (cases i) (simp_all add: demo_serial_def MAX_FILES_def)
  have "length (vf_used demo_serial) = MAX_FILES" "length (vf_files demo_serial) = MAX_FILES"
    by (simp_all add: demo_serial_def MAX_FILES_def)
  then have "vfs_wf demo_serial"
    using node ops unfolding vfs_wf_def by force
  moreover have "serial_inv (vf_world demo_serial)"
    by (simp add: serial_inv_def demo_serial_def idle_port_inv)
  ultimately have "serial.driven demo_serial"
    using demo_serial_nodes by (auto simp: serial.driven_def)
  then show "port_fd demo_serial 0 0" "port_fd demo_serial 1 1"
    using ops by (simp_all add: port_fd_def) (simp_all add: demo_serial_def MAX_FILES_def)
qed

theorem serial_calls_keep_ports_witness:
  "\<exists>s'. fd_calls [Write 0 [5, 6], Read 1 9, Ioctl 0 0 [100], Close 1] demo_serial = Some s' \<and> vfs_wf s'"
proof -
  have "serial.driven demo_serial"
    using demo_serial_fds(1) by (simp add: port_fd_def)
  then show ?thesis
    using serial_calls_keep_ports by blast
qed

theorem serial_end_to_end_witness:
  "\<exists>s' c d r'. vfs_write 0 [5, 6, 7] demo_serial = Some (3, s') \<and>
     usart_write_round 1 \<lparr> ue_start_tx = 0, ue_start_rx = 0, ue_irqs = [\<lparr> gState_ready = True, RxState_ready = False, TxXferSize = 3,
       RxXferSize = 0, RxXferCount = 0, NDTR = 0, ISR_IDLE = False \<rparr>], ue_bytes = [] \<rparr> (fd_port s' 0) = Some c \<and>
     (\<exists>q. us_ops c = Start_tx False [5, 6, 7] # replicate q Abort_rx) \<and>
     vfs_read 1 64 (demo_serial \<lparr> vf_world := put_port 1 d (vf_world demo_serial) \<rparr>) = Some ((3, [5, 6, 7]), r')"
proof -
  let ?tx = "\<lparr> ue_start_tx = 0, ue_start_rx = 0, ue_irqs = [\<lparr> gState_ready = True, RxState_ready = False, TxXferSize = 3,
       RxXferSize = 0, RxXferCount = 0, NDTR = 0, ISR_IDLE = False \<rparr>], ue_bytes = [] \<rparr>"
  let ?idle = "\<lparr> gState_ready = True, RxState_ready = False, TxXferSize = 0, RxXferSize = 4, RxXferCount = 1, NDTR = 0, ISR_IDLE = True \<rparr>"
  let ?rx = "\<lparr> ue_start_tx = 0, ue_start_rx = 0, ue_irqs = [?idle], ue_bytes = [5, 6, 7] \<rparr>"
  have port: "fd_port demo_serial k = idle_port" for k
    by (simp add: demo_serial_def)
  have fields: "\<not> us_error idle_port" "us_tx_mutex idle_port = None" "us_rx_mutex idle_port = None" "us_mode idle_port = USART_IDLE"
      "us_buf_size idle_port = 4" "bytes_of (us_write_buf idle_port) = []" "bytes_of (us_read_buf idle_port) = []" "us_ops idle_port = []"
      "us_use_dma idle_port = False"
    by (simp_all add: idle_port_def demo_port_def demo_usart_def idle_ring_bytes)
  have "\<exists>s' c q d r'. vfs_write (int 0) [5, 6, 7] demo_serial = Some (int (length [5, 6, 7 :: u8]), s') \<and>
     usart_write_round 1 ?tx (fd_port s' 0) = Some c \<and>
     us_ops c = us_ops (fd_port demo_serial 0) @ Start_tx (us_use_dma (fd_port demo_serial 0)) [5, 6, 7] # replicate q Abort_rx \<and>
     usart_read_round 2 ?rx [] (fd_port demo_serial 1) = Some ([], d) \<and>
     vfs_read (int 1) 64 (demo_serial \<lparr> vf_world := put_port 1 d (vf_world demo_serial) \<rparr>) = Some ((int (length [5, 6, 7 :: u8]), [5, 6, 7]), r')"
    by (rule serial_end_to_end [OF demo_serial_fds(1) _ _ _ _ _ _ _ _ _ _ demo_serial_fds(2), where before = "[]" and hw = ?idle and after = "[]"])
      (simp_all add: port fields hw_ok_def rx_taken_def)
  then show ?thesis
    by (force simp: port fields)
qed

end
