(* ===== verification/SerialBridge.thy ===== *)
theory SerialBridge
  imports SerialPorts
begin

text \<open>
  The bridge between two serial ports: os/freertos/services/serial_bridge/serial_bridge.c, with the names of the ports
  (bsp/boards/cube/external.c) and the speed calls it uses
  (os/freertos/osa/FreeRTOS-Plus-POSIX/source/FreeRTOS_POSIX_termios.c). None is undefined behaviour or a call that never
  returns. What is printed is left out but for the message that tells how a command ended.
\<close>

section \<open>Names of ports (external.c)\<close>

definition MAX_NAME_LEN :: nat where "MAX_NAME_LEN = 32"

text \<open>The table of ports: name and other name; None is a null pointer.\<close>

type_synonym tty_table = "(string \<times> string) option list"

definition same_name :: "string \<Rightarrow> string \<Rightarrow> bool" where
  "same_name a b \<longleftrightarrow> take MAX_NAME_LEN a = take MAX_NAME_LEN b"

fun board_get_tty_name :: "tty_table \<Rightarrow> string \<Rightarrow> string option" where
  "board_get_tty_name [] path = None"
| "board_get_tty_name (None # us) path = board_get_tty_name us path"
| "board_get_tty_name (Some (name, alt_name) # us) path =
     (if same_name path name \<or> same_name path alt_name then Some name else board_get_tty_name us path)"

definition board_get_cli_tty_name :: "tty_table \<Rightarrow> string \<Rightarrow> string option" where
  "board_get_cli_tty_name us cli_port = board_get_tty_name us cli_port"

section \<open>Speeds (FreeRTOS_POSIX_termios.c)\<close>

record termios =
  c_ispeed :: u32
  c_ospeed :: u32

text \<open>\<open>dev\<close>: the device in the operations of a node, as the number of its port. A descriptor that is not open is a null pointer.\<close>

definition term_dev :: "(node_ref \<Rightarrow> nat option) \<Rightarrow> int \<Rightarrow> serial_world vfs \<Rightarrow> nat option option" where
  "term_dev dev fd s = (if fd \<ge> int MAX_FILES \<or> \<not> vf_used s ! nat fd then None else Some (dev (fl_node (vf_files s ! nat fd))))"

definition tcgetattr :: "(node_ref \<Rightarrow> nat option) \<Rightarrow> int \<Rightarrow> termios \<Rightarrow> serial_world vfs \<Rightarrow> (int \<times> termios \<times> serial_world vfs) option" where
  "tcgetattr dev fd t s =
     (if fd < 2 then Some (- 1, t, s \<lparr> vf_errno := EBADF \<rparr>)
      else (case term_dev dev fd s of
        None \<Rightarrow> None
      | Some None \<Rightarrow> Some (- 1, t, s \<lparr> vf_errno := ENOENT \<rparr>)
      | Some (Some k) \<Rightarrow> (let speed = usart_get_speed (pw_ports (vf_world s) k) in Some (0, \<lparr> c_ispeed = speed, c_ospeed = speed \<rparr>, s))))"

definition tcsetattr :: "(node_ref \<Rightarrow> nat option) \<Rightarrow> u32 \<Rightarrow> int \<Rightarrow> termios \<Rightarrow> serial_world vfs \<Rightarrow> (int \<times> serial_world vfs) option" where
  "tcsetattr dev pclk fd t s =
     (if fd < 2 then Some (- 1, s \<lparr> vf_errno := EBADF \<rparr>)
      else (case term_dev dev fd s of
        None \<Rightarrow> None
      | Some None \<Rightarrow> Some (- 1, s \<lparr> vf_errno := ENOENT \<rparr>)
      | Some (Some k) \<Rightarrow> do {
          (rv, c) \<leftarrow> usart_set_speed pclk (c_ispeed t) (pw_ports (vf_world s) k);
          let s = s \<lparr> vf_world := put_port k c (vf_world s) \<rparr>;
          Some (if rv < 0 then - 1 else 0, s)
        }))"

definition cfsetispeed :: "u32 \<Rightarrow> termios \<Rightarrow> termios" where
  "cfsetispeed speed t = t \<lparr> c_ispeed := speed \<rparr>"

definition cfsetospeed :: "u32 \<Rightarrow> termios \<Rightarrow> termios" where
  "cfsetospeed speed t = t \<lparr> c_ospeed := speed \<rparr>"

section \<open>The thread of a bridge\<close>

record bridge =
  br_src_path :: string
  br_dst_path :: string
  br_src_fd :: int
  br_dst_fd :: int
  br_buf_size :: int
  br_buf :: "u8 list"
  br_rlen :: int
  br_wlen :: int

text \<open>A write of \<open>n\<close> bytes of the buffer; the driver would read behind its end when it is shorter.\<close>

definition write_n :: "int \<Rightarrow> u8 list \<Rightarrow> u32 \<Rightarrow> serial_world vfs \<Rightarrow> (int \<times> serial_world vfs) option" where
  "write_n fd buf n s =
     (if unat n \<le> length buf then vfs_write fd (take (unat n) buf) s else on_fd fd fo_write (- 1) (\<lambda>op i s. None) s)"

text \<open>One round of the loop.\<close>

definition bridge_round :: "bridge \<times> serial_world vfs \<Rightarrow> (bridge \<times> serial_world vfs) option" where
  "bridge_round bs = (case bs of (br, s) \<Rightarrow> do {
     ((rlen, out), s) \<leftarrow> vfs_read (br_src_fd br) (nat (br_buf_size br)) s;
     buf \<leftarrow> memcpy (br_buf br) 0 out 0 (length out);
     (wlen, s) \<leftarrow> write_n (br_dst_fd br) buf (word_of_int rlen) s;
     Some (br \<lparr> br_buf := buf, br_rlen := rlen, br_wlen := wlen \<rparr>, s)
   })"

text \<open>The name the thread gives itself.\<close>

definition bridge_thread_name :: "bridge \<Rightarrow> string option" where
  "bridge_thread_name br = map_option (\<lambda>t. take (MAX_NAME_LEN - 2) (t @ ''_bridge_thread'')) (strstr (br_src_path br) ''ttyS'')"

section \<open>Start of a bridge\<close>

text \<open>The board, the results of the allocations, and what the service was started with.\<close>

record bridge_cfg =
  bg_table :: tty_table
  bg_cli_port :: string
  bg_dev :: "node_ref \<Rightarrow> nat option"
  bg_pclk :: u32
  bg_made :: "nat \<Rightarrow> bool"
  bg_buf_size :: int

definition serial_bridge_open :: "bridge_cfg \<Rightarrow> string \<Rightarrow> int \<Rightarrow> serial_world vfs \<Rightarrow> (int \<times> serial_world vfs) option" where
  "serial_bridge_open cfg path baudrate s = do {
     (fd, s) \<leftarrow> vfs_open (Some path) O_RDWR s;
     if fd < 0 then Some (- 1, s)
     else if baudrate \<noteq> 0 then do {
       (rv, t, s) \<leftarrow> tcgetattr (bg_dev cfg) fd \<lparr> c_ispeed = 0, c_ospeed = 0 \<rparr> s;
       if rv \<noteq> 0 then Some (- 1, s)
       else do {
         let t = cfsetospeed (word_of_int baudrate) (cfsetispeed (word_of_int baudrate) t);
         (rv, s) \<leftarrow> tcsetattr (bg_dev cfg) (bg_pclk cfg) fd t s;
         Some (if rv \<noteq> 0 then - 1 else fd, s)
       }
     }
     else Some (fd, s)
   }"

text \<open>\<open>i\<close> numbers the allocations.\<close>

definition serial_bridge_init :: "bridge_cfg \<Rightarrow> nat \<Rightarrow> string \<Rightarrow> int \<Rightarrow> string \<Rightarrow> int \<Rightarrow> bridge option" where
  "serial_bridge_init cfg i src_path src_fd dst_path dst_fd =
     (if \<not> bg_made cfg i \<or> \<not> bg_made cfg (Suc i) then None
      else Some \<lparr> br_src_path = take (MAX_NAME_LEN - 1) src_path, br_dst_path = take (MAX_NAME_LEN - 1) dst_path,
        br_src_fd = src_fd, br_dst_fd = dst_fd, br_buf_size = bg_buf_size cfg, br_buf = replicate (nat (bg_buf_size cfg)) 0,
        br_rlen = 0, br_wlen = 0 \<rparr>)"

text \<open>The result has the bridges whose threads run.\<close>

definition serial_bridge_start_service ::
    "bridge_cfg \<Rightarrow> string \<Rightarrow> string \<Rightarrow> int \<Rightarrow> int \<Rightarrow> serial_world vfs \<Rightarrow> (int \<times> bridge list \<times> serial_world vfs) option" where
  "serial_bridge_start_service cfg path1 path2 baudrate1 baudrate2 s = do {
     (fd1, s) \<leftarrow> serial_bridge_open cfg path1 baudrate1 s;
     if fd1 < 0 then Some (- 1, [], s)
     else do {
       (fd2, s) \<leftarrow> serial_bridge_open cfg path2 baudrate2 s;
       if fd2 < 0 then do { (rv, s) \<leftarrow> vfs_close fd1 s; Some (- 1, [], s) }
       else (case (serial_bridge_init cfg 0 path1 fd1 path2 fd2, serial_bridge_init cfg 2 path2 fd2 path1 fd1) of
           (Some bridge1, Some bridge2) \<Rightarrow> Some (0, [bridge1, bridge2], s)
         | _ \<Rightarrow> Some (- 1, [], s))
     }
   }"

section \<open>The command\<close>

definition is_alnum :: "char \<Rightarrow> bool" where
  "is_alnum c \<longleftrightarrow> c \<in> set ''ABCDEFGHIJKLMNOPQRSTUVWXYZabcdefghijklmnopqrstuvwxyz0123456789''"

definition is_digit :: "char \<Rightarrow> bool" where
  "is_digit c \<longleftrightarrow> c \<in> set ''0123456789''"

text \<open>Both loops over the arguments: the longest prefix of characters of a class goes into the next array of
  \<open>MAX_NAME_LEN\<close> characters (the outer None is an overflow of it), until two have been found; an empty prefix ends the
  command (the inner None).\<close>

fun scan_words :: "(char \<Rightarrow> bool) \<Rightarrow> nat \<Rightarrow> string list \<Rightarrow> string list option option" where
  "scan_words p n [] = Some (Some [])"
| "scan_words p n (a # as) =
     (let w = takeWhile p a in
      if w = [] then Some None
      else if length w \<ge> MAX_NAME_LEN then None
      else if n = 0 then Some (Some [w])
      else map_option (map_option (Cons w)) (scan_words p (n - 1) as))"

text \<open>\<open>atoi\<close> on digits; the library stops at the largest int.\<close>

definition atoi_digits :: "string \<Rightarrow> int" where
  "atoi_digits ds = min (2 ^ 31 - 1) (foldl (\<lambda>v c. v * 10 + (int (of_char c) - 48)) 0 ds)"

definition baudrate_ok :: "int \<Rightarrow> bool" where
  "baudrate_ok b \<longleftrightarrow> \<not> ((b > 1000000 \<or> b < 9600) \<and> b \<noteq> 0)"

datatype bridge_reply = Show_help | Too_long_argument | Incorrect_name | Path_not_found | Wrong_baudrate | Started int

text \<open>The arguments: two names and two speeds.\<close>

definition bridge_arguments :: "string \<Rightarrow> string list \<Rightarrow> (bridge_reply + (string \<times> string \<times> int \<times> int)) option" where
  "bridge_arguments cli_port argv =
     (let argc = length argv; args = tl argv in
      if argc = 2 \<and> argv ! 1 = ''-h'' \<or> argc > 5 \<or> argc = 1 then Some (Inl Show_help)
      else if \<exists>a \<in> set args. min (length a) (MAX_NAME_LEN - 1) > MAX_NAME_LEN - 1 then Some (Inl Too_long_argument)
      else do {
        tty \<leftarrow> scan_words is_alnum 1 args;
        case tty of
          None \<Rightarrow> Some (Inl Incorrect_name)
        | Some [] \<Rightarrow> Some (Inl Path_not_found)
        | Some (tty0 # others) \<Rightarrow> do {
            bauds \<leftarrow> scan_words is_digit 1 (drop (length (tty0 # others)) args);
            case bauds of
              None \<Rightarrow> Some (Inl Wrong_baudrate)
            | Some ds \<Rightarrow>
                (let tty1 = (case others of [] \<Rightarrow> take MAX_NAME_LEN cli_port | t # _ \<Rightarrow> t); bs = map atoi_digits ds in
                 if \<not> list_all baudrate_ok bs then Some (Inl Wrong_baudrate)
                 else Some (Inr (tty0, tty1, if bs = [] then 0 else bs ! 0, if length bs < 2 then 0 else bs ! 1)))
          }
      })"

text \<open>The console is closed when one of the two ports is its own.\<close>

definition close_console :: "serial_world vfs \<Rightarrow> serial_world vfs option" where
  "close_console s = do {
     (r0, s) \<leftarrow> vfs_close 0 s;
     (r1, s) \<leftarrow> vfs_close 1 s;
     (r2, s) \<leftarrow> vfs_close 2 s;
     let s = snd (std_stream_deinit ''stdout'' s);
     let s = snd (std_stream_deinit ''stdin'' s);
     Some (snd (std_stream_deinit ''stderr'' s))
   }"

definition serial_bridge_commander :: "bridge_cfg \<Rightarrow> string list \<Rightarrow> serial_world vfs \<Rightarrow> (bridge_reply \<times> bridge list \<times> serial_world vfs) option" where
  "serial_bridge_commander cfg argv s = do {
     args \<leftarrow> bridge_arguments (bg_cli_port cfg) argv;
     case args of
       Inl reply \<Rightarrow> Some (reply, [], s)
     | Inr (tty0, tty1, baud1, baud2) \<Rightarrow>
         (case (board_get_tty_name (bg_table cfg) tty0, board_get_tty_name (bg_table cfg) tty1) of
            (Some name1, Some name2) \<Rightarrow>
              if strstr name1 ''ttyS'' = None \<or> strstr name2 ''ttyS'' = None then Some (Path_not_found, [], s)
              else do {
                cli_name \<leftarrow> board_get_cli_tty_name (bg_table cfg) (bg_cli_port cfg);
                s \<leftarrow> (if name1 = cli_name \<or> name2 = cli_name then close_console s else Some s);
                (rv, bridges, s) \<leftarrow> serial_bridge_start_service cfg (take (MAX_NAME_LEN - 1) (''/dev/'' @ name1))
                    (take (MAX_NAME_LEN - 1) (''/dev/'' @ name2)) baud1 baud2 s;
                Some (Started rv, bridges, s)
              }
          | _ \<Rightarrow> Some (Path_not_found, [], s))
   }"

section \<open>Properties\<close>

text \<open>C33: A round of a bridge moves what has arrived: when the bytes waiting at the source fit the buffer of the bridge and the room at the
  destination, and neither port has failed, exactly these bytes are behind those the destination has to send, none are
  left at the source, and as many are written as were read.\<close>

theorem bridge_forwards:
  assumes fds: "br_src_fd br = int i" "br_dst_fd br = int j" and src: "port_fd s i a" and dst: "port_fd s j b" and ports: "a \<noteq> b"
    and ok: "\<not> us_error (fd_port s a)" "\<not> us_error (fd_port s b)" and ne: "bytes_of (us_read_buf (fd_port s a)) \<noteq> []"
    and size: "length (br_buf br) = nat (br_buf_size br)" "length (bytes_of (us_read_buf (fd_port s a))) \<le> length (br_buf br)" "length (br_buf br) < 65536"
    and room: "length (bytes_of (us_read_buf (fd_port s a))) \<le> free_of (us_write_buf (fd_port s b))"
  shows "\<exists>br' s'. bridge_round (br, s) = Some (br', s') \<and>
     bytes_of (us_write_buf (fd_port s' b)) = bytes_of (us_write_buf (fd_port s b)) @ bytes_of (us_read_buf (fd_port s a)) \<and>
     bytes_of (us_read_buf (fd_port s' a)) = [] \<and> br_rlen br' = int (length (bytes_of (us_read_buf (fd_port s a)))) \<and> br_wlen br' = br_rlen br'"
proof -
  let ?bs = "bytes_of (us_read_buf (fd_port s a))"
  have n: "length ?bs \<le> nat (br_buf_size br)" "nat (br_buf_size br) < 65536"
    using size by simp_all
  obtain c where c: "vfs_read (int i) (nat (br_buf_size br)) s = Some ((int (length ?bs), ?bs), s \<lparr> vf_errno := EOK, vf_world := put_port a c (vf_world s) \<rparr>)"
      "port_inv c" "bytes_of (us_read_buf c) = []"
    using fd_read_now [OF src ne n] ok(1) by auto
  let ?s = "s \<lparr> vf_errno := EOK, vf_world := put_port a c (vf_world s) \<rparr>"
  have d: "port_fd ?s j b"
    by (rule port_fd_put [OF dst c(2)])
  have pb: "fd_port ?s b = fd_port s b" "fd_port ?s a = c"
    using ports by simp_all
  obtain buf where buf: "memcpy (br_buf br) 0 ?bs 0 (length ?bs) = Some buf" "take (length ?bs) buf = ?bs" "length ?bs \<le> length buf"
    using size(2) by (auto simp: memcpy_def)
  obtain s' where s': "vfs_write (int j) ?bs ?s = Some (int (length ?bs), s')"
      "bytes_of (us_write_buf (fd_port s' b)) = bytes_of (us_write_buf (fd_port s b)) @ ?bs" "\<forall>m. m \<noteq> b \<longrightarrow> fd_port s' m = fd_port ?s m"
    using fd_write_fits [OF d, of ?bs] ok(2) room unfolding pb(1) by blast
  have "fd_port s' a = c"
    using s'(3) ports by simp
  have len: "unat (word_of_int (int (length ?bs)) :: u32) = length ?bs"
    using size by (simp add: unat_of_nat)
  have "write_n (br_dst_fd br) buf (word_of_int (int (length ?bs))) ?s = Some (int (length ?bs), s')"
    using buf(2,3) s'(1) fds(2) by (simp only: write_n_def len) simp
  then have "bridge_round (br, s) = Some (br \<lparr> br_buf := buf, br_rlen := int (length ?bs), br_wlen := int (length ?bs) \<rparr>, s')"
    using c(1) buf(1) fds(1) by (simp add: bridge_round_def)
  then show ?thesis
    using s'(2) \<open>fd_port s' a = c\<close> c(3) by simp
qed

lemma minus_one_count: "unat (word_of_int (- 1) :: u32) = 4294967295" "unat (ucast (word_of_int (- 1) :: u32) :: u16) = 65535"
proof -
  show "unat (word_of_int (- 1) :: u32) = 4294967295"
    by (simp add: unsigned_minus_1_eq_mask mask_eq_exp_minus_1)
  have "ucast (word_of_int (- 1) :: u32) = (- 1 :: u16)"
    by (rule bit_word_eqI) (simp add: bit_simps)
  then show "unat (ucast (word_of_int (- 1) :: u32) :: u16) = 65535"
    by (simp add: unsigned_minus_1_eq_mask mask_eq_exp_minus_1)
qed

lemma write_n_overrun:
  assumes "port_fd s j b" and "length buf < unat n"
  shows "write_n (int j) buf n s = None"
proof -
  have d: "fd_used j s" "ops_of s (fl_node (vf_files s ! j)) = Some (usart_ops b)"
    using port_fd_used [OF assms(1)] assms(1) by (simp_all add: port_fd_def)
  have "on_fd (int j) fo_write (- 1) (\<lambda>op i s. None) s = None"
    by (simp add: on_fd_run [OF d])
  then show ?thesis
    using assms(2) by (simp only: write_n_def not_le [symmetric] if_False)
qed

text \<open>When the last transfer of the source port has failed, the read takes the waiting bytes and returns -1, and the bridge passes this -1 on as the
  length of its write: 65535 bytes, from a buffer that is shorter.\<close>

theorem bridge_failed_read_overruns:
  assumes fds: "br_src_fd br = int i" "br_dst_fd br = int j" and src: "port_fd s i a" and dst: "port_fd s j b"
    and err: "us_error (fd_port s a)" and ne: "bytes_of (us_read_buf (fd_port s a)) \<noteq> []"
    and size: "length (br_buf br) = nat (br_buf_size br)" "length (bytes_of (us_read_buf (fd_port s a))) \<le> length (br_buf br)" "length (br_buf br) < 65535"
  shows "\<exists>s'. vfs_read (br_src_fd br) (nat (br_buf_size br)) s = Some ((- 1, bytes_of (us_read_buf (fd_port s a))), s') \<and>
     bytes_of (us_read_buf (fd_port s' a)) = [] \<and> unat (ucast (word_of_int (- 1) :: u32) :: u16) = 65535 \<and> bridge_round (br, s) = None"
proof -
  let ?bs = "bytes_of (us_read_buf (fd_port s a))"
  have n: "length ?bs \<le> nat (br_buf_size br)" "nat (br_buf_size br) < 65536"
    using size by simp_all
  obtain c where c: "vfs_read (int i) (nat (br_buf_size br)) s = Some ((- 1, ?bs), s \<lparr> vf_errno := EPROTO, vf_world := put_port a c (vf_world s) \<rparr>)"
      "port_inv c" "bytes_of (us_read_buf c) = []"
    using fd_read_now [OF src ne n] err by auto
  let ?s = "s \<lparr> vf_errno := EPROTO, vf_world := put_port a c (vf_world s) \<rparr>"
  have d: "port_fd ?s j b"
    by (rule port_fd_put [OF dst c(2)])
  obtain buf where buf: "memcpy (br_buf br) 0 ?bs 0 (length ?bs) = Some buf" "length buf = length (br_buf br)"
    using size(2) by (auto simp: memcpy_def)
  have "length buf < unat (word_of_int (- 1) :: u32)"
    unfolding minus_one_count buf(2) using size(3) by linarith
  then have "write_n (br_dst_fd br) buf (word_of_int (- 1)) ?s = None"
    unfolding fds(2) by (rule write_n_overrun [OF d])
  then have "bridge_round (br, s) = None"
    using c(1) buf(1) by (simp add: bridge_round_def fds(1) del: of_int_minus of_int_1)
  moreover have "bytes_of (us_read_buf (fd_port ?s a)) = []"
    using c(3) by simp
  ultimately show ?thesis
    unfolding fds(1) using c(1) minus_one_count(2) by blast
qed

text \<open>A bridge to the port of the console closes the three standard descriptors, so the ports it opens get the lowest of them, and the calls that set
  a speed refuse descriptors below 2: with a speed for the first port the start fails, no bridge runs, and the
  descriptor stays open.\<close>

theorem bridge_low_descriptor_fails:
  assumes wf: "vfs_wf s" and free: "\<not> vf_used s ! 0" and node: "fst (node_find (vf_root s) (Some path1) NODE_MODE_NEAREST_PATH) = Some a"
    and port: "ops_of s (Tree_node a) = Some (usart_ops k)" and opens: "us_tasks_init (fd_port s k)" "\<not> us_port_open (fd_port s k) \<or> us_stdio (fd_port s k)"
    and speed: "baud1 \<noteq> 0"
  shows "\<exists>s'. serial_bridge_start_service cfg path1 path2 baud1 baud2 s = Some (- 1, [], s') \<and> vf_errno s' = EBADF \<and> vf_used s' = (vf_used s)[0 := True]"
proof -
  have lens: "0 < length (vf_used s)"
    using wf by (simp add: vfs_wf_def MAX_FILES_def)
  then have fd: "fd_new s = int 0"
    using free by (cases "vf_used s") (simp_all add: fd_new_def)
  have op: "fo_open (usart_ops k) = Some (port_open_op k)"
    by simp
  have run: "port_open_op k rel 0 O_RDWR (vf_world s) EOK = (0, O_RDWR, put_port k (fd_port s k) (vf_world s), EOK)" for rel
    using opens by (simp add: port_open_op_def usart_open_def)
  obtain s1 where s1: "vfs_open (Some path1) O_RDWR s = Some (0, s1)" "vf_used s1 = (vf_used s)[0 := True]"
    using vfs_open_run [OF wf node port op fd lens free, of O_RDWR] run by auto
  have "serial_bridge_open cfg path1 baud1 s = Some (- 1, s1 \<lparr> vf_errno := EBADF \<rparr>)"
    using s1(1) speed by (simp add: serial_bridge_open_def tcgetattr_def)
  then show ?thesis
    using s1(2) by (simp add: serial_bridge_start_service_def)
qed

text \<open>A single port cannot be given a speed, as the help text of the command says it can: the second argument is always
  taken for a name, so the command ends with "Path not found" unless a port is called like the number.\<close>

theorem bridge_speed_is_a_name:
  assumes names: "\<forall>c \<in> set port. is_alnum c" "port \<noteq> []" "length port < 32" and digits: "\<forall>c \<in> set speed. is_digit c" "speed \<noteq> []" "length speed < 32"
    and no_port: "board_get_tty_name (bg_table cfg) speed = None"
  shows "serial_bridge_commander cfg [cmd, port, speed] s = Some (Path_not_found, [], s)"
proof -
  have alnum: "is_alnum c" if "is_digit c" for c
    using that by (auto simp: is_digit_def is_alnum_def)
  have whole: "takeWhile is_alnum port = port" "takeWhile is_alnum speed = speed"
    using names(1) digits(1) alnum by (simp_all add: takeWhile_eq_all_conv)
  have "scan_words is_alnum 1 [port, speed] = Some (Some [port, speed])"
    using names(2,3) digits(2,3) by (simp add: whole MAX_NAME_LEN_def Let_def)
  then have "bridge_arguments (bg_cli_port cfg) [cmd, port, speed] = Some (Inr (port, speed, 0, 0))"
    by (simp add: bridge_arguments_def Let_def)
  then show ?thesis
    using no_port by (simp add: serial_bridge_commander_def split: option.split)
qed

text \<open>Concrete instances: five bytes wait at the first of two ports.\<close>

definition wait_ring :: ring_buf where
  "wait_ring = \<lparr> write_ptr = 3, read_ptr = 0, start_ptr = Some [7, 8, 9, 0], rb_size = 4, rb_count = 3,
     cont_mutex = False, rw_mutex = False, r_sem = False, w_sem = False \<rparr>"

definition bridge_table :: "bool \<Rightarrow> serial_world vfs" where
  "bridge_table failed = demo_serial \<lparr> vf_errno := EOK, vf_world := put_port 0 (idle_port \<lparr> us_read_buf := Some wait_ring, us_error := failed \<rparr>) (vf_world demo_serial) \<rparr>"

definition demo_bridge :: bridge where
  "demo_bridge = \<lparr> br_src_path = ''/dev/ttyS0'', br_dst_path = ''/dev/ttyS1'', br_src_fd = 0, br_dst_fd = 1, br_buf_size = 8, br_buf = replicate 8 0,
     br_rlen = 0, br_wlen = 0 \<rparr>"

lemma wait_port_inv: "port_inv (idle_port \<lparr> us_read_buf := Some wait_ring, us_error := failed \<rparr>)"
  using idle_port_inv by (simp add: port_inv_def ring_ok_def wait_ring_def idle_ring_def rb_inv_def idle_port_def demo_port_def demo_usart_def)

lemma bridge_table_fds: "port_fd (bridge_table failed) 0 0" "port_fd (bridge_table failed) 1 1"
  unfolding bridge_table_def by (rule port_fd_put [OF demo_serial_fds(1) wait_port_inv], rule port_fd_put [OF demo_serial_fds(2) wait_port_inv])

lemma wait_ring_bytes: "rb_contents wait_ring = [7, 8, 9]"
  by code_simp

lemma idle_ring_free: "ring_buf_get_free_size idle_ring = 4"
  by (simp add: ring_buf_get_free_size_def idle_ring_def)

lemma bridge_table_ports:
  "bytes_of (us_read_buf (fd_port (bridge_table failed) 0)) = [7, 8, 9]" "us_error (fd_port (bridge_table failed) 0) = failed"
  "\<not> us_error (fd_port (bridge_table failed) 1)" "free_of (us_write_buf (fd_port (bridge_table failed) 1)) = 4"
  "bytes_of (us_write_buf (fd_port (bridge_table failed) 1)) = []"
  by (simp_all add: bridge_table_def wait_ring_bytes demo_serial_def idle_port_def idle_ring_bytes idle_ring_free demo_port_def demo_usart_def)

theorem bridge_forwards_witness:
  "\<exists>br' s'. bridge_round (demo_bridge, bridge_table False) = Some (br', s') \<and> bytes_of (us_write_buf (fd_port s' 1)) = [7, 8, 9] \<and> br_wlen br' = 3"
proof -
  have b: "br_src_fd demo_bridge = int 0" "br_dst_fd demo_bridge = int 1" "length (br_buf demo_bridge) = nat (br_buf_size demo_bridge)"
      "length (br_buf demo_bridge) = 8"
    by (simp_all add: demo_bridge_def)
  have "\<not> us_error (fd_port (bridge_table False) 0)" "bytes_of (us_read_buf (fd_port (bridge_table False) 0)) \<noteq> []"
      "length (bytes_of (us_read_buf (fd_port (bridge_table False) 0))) \<le> length (br_buf demo_bridge)" "length (br_buf demo_bridge) < 65536"
      "length (bytes_of (us_read_buf (fd_port (bridge_table False) 0))) \<le> free_of (us_write_buf (fd_port (bridge_table False) 1))"
    unfolding bridge_table_ports b(4) by simp_all
  from bridge_forwards [OF b(1,2) bridge_table_fds _ this(1) bridge_table_ports(3) this(2) b(3) this(3-5)] show ?thesis
    unfolding bridge_table_ports by auto
qed

theorem bridge_failed_read_overruns_witness:
  "bridge_round (demo_bridge, bridge_table True) = None"
proof -
  have b: "br_src_fd demo_bridge = int 0" "br_dst_fd demo_bridge = int 1" "length (br_buf demo_bridge) = nat (br_buf_size demo_bridge)"
      "length (br_buf demo_bridge) = 8"
    by (simp_all add: demo_bridge_def)
  have "us_error (fd_port (bridge_table True) 0)" "bytes_of (us_read_buf (fd_port (bridge_table True) 0)) \<noteq> []"
      "length (bytes_of (us_read_buf (fd_port (bridge_table True) 0))) \<le> length (br_buf demo_bridge)" "length (br_buf demo_bridge) < 65535"
    unfolding bridge_table_ports b(4) by simp_all
  from bridge_failed_read_overruns [OF b(1,2) bridge_table_fds this(1,2) b(3) this(3,4)] show ?thesis
    by blast
qed

text \<open>The table with the first two descriptors given back.\<close>

definition demo_bridge_cfg :: bridge_cfg where
  "demo_bridge_cfg = \<lparr> bg_table = [Some (''ttyS0'', ''TELEM1''), Some (''ttyS1'', ''TELEM2''), None], bg_cli_port = ''TELEM1'', bg_dev = (\<lambda>_. Some 0),
     bg_pclk = 100000000, bg_made = (\<lambda>_. True), bg_buf_size = 1024 \<rparr>"

definition closed_serial :: "serial_world vfs" where
  "closed_serial = demo_serial \<lparr> vf_used := replicate 32 False,
     vf_world := put_port 0 (idle_port \<lparr> us_tasks_init := True, us_port_open := False \<rparr>) (vf_world demo_serial) \<rparr>"

theorem bridge_low_descriptor_fails_witness:
  "\<exists>s'. serial_bridge_start_service demo_bridge_cfg ''/ttyS0'' ''/ttyS1'' 57600 0 closed_serial = Some (- 1, [], s') \<and> vf_used s' ! 0"
proof -
  have wf: "vfs_wf closed_serial"
    by (simp add: vfs_wf_def closed_serial_def demo_serial_def MAX_FILES_def)
  have free: "\<not> vf_used closed_serial ! 0" "length (vf_used closed_serial) = 32"
    by (simp_all add: closed_serial_def)
  have node: "fst (node_find (vf_root closed_serial) (Some ''/ttyS0'') NODE_MODE_NEAREST_PATH) = Some [''ttyS0'']"
    by (simp add: closed_serial_def demo_serial_def) code_simp
  have port: "ops_of closed_serial (Tree_node [''ttyS0'']) = Some (usart_ops 0)"
    by (simp add: ops_of_def closed_serial_def demo_serial_def node_find_sibling_def)
  have opens: "us_tasks_init (fd_port closed_serial 0)" "\<not> us_port_open (fd_port closed_serial 0) \<or> us_stdio (fd_port closed_serial 0)"
    by (simp_all add: closed_serial_def)
  have "(57600 :: int) \<noteq> 0"
    by simp
  from bridge_low_descriptor_fails [OF wf free(1) node port opens this, of demo_bridge_cfg "''/ttyS1''" 0] show ?thesis
    using free(2) by auto
qed

theorem bridge_speed_is_a_name_witness:
  "serial_bridge_commander demo_bridge_cfg [''serial_bridge'', ''ttyS1'', ''9600''] demo_serial = Some (Path_not_found, [], demo_serial)"
  by (rule bridge_speed_is_a_name) (simp_all add: is_alnum_def is_digit_def demo_bridge_cfg_def same_name_def MAX_NAME_LEN_def)

end
