(* ===== verification/Can.thy ===== *)
theory Can
  imports Platform
begin

text \<open>
  The CAN controllers (bsp/mcu/periph/can/stm32/can.c): setting a controller up, frames to and
  from the vendor library, the interrupt, the two tasks with their queues and the file
  operations on the channels. The printing of the frames is left out. What the library, the bus and the other
  tasks do during a call is an argument of the call.
\<close>

section \<open>Frames\<close>

record can_header =
  ch_id :: u32
  ch_frame_type :: u32
  ch_size :: u32

record can_frame =
  cf_header :: can_header
  cf_data :: "u8 list"  \<comment> \<open>8 bytes\<close>

definition CAN_DATA_FRAME :: u32 where "CAN_DATA_FRAME = 0"
definition CAN_REMOTE_FRAME :: u32 where "CAN_REMOTE_FRAME = 1"
definition FDCAN_DATA_FRAME :: u32 where "FDCAN_DATA_FRAME = 0"
definition FDCAN_REMOTE_FRAME :: u32 where "FDCAN_REMOTE_FRAME = 0x20000000"
definition FDCAN_STANDARD_ID :: u32 where "FDCAN_STANDARD_ID = 0"
definition FDCAN_EXTENDED_ID :: u32 where "FDCAN_EXTENDED_ID = 0x40000000"

definition can_length_to_hal :: "u32 \<Rightarrow> u32" where
  "can_length_to_hal n =
     (if n = 0 then 0 else if n = 1 then 0x10000 else if n = 2 then 0x20000 else if n = 3 then 0x30000
      else if n = 4 then 0x40000 else if n = 5 then 0x50000 else if n = 6 then 0x60000
      else if n = 7 then 0x70000 else if n = 8 then 0x80000 else 0)"

definition can_length_from_hal :: "u32 \<Rightarrow> u32" where
  "can_length_from_hal dlc =
     (if dlc = 0 then 0 else if dlc = 0x10000 then 1 else if dlc = 0x20000 then 2 else if dlc = 0x30000 then 3
      else if dlc = 0x40000 then 4 else if dlc = 0x50000 then 5 else if dlc = 0x60000 then 6
      else if dlc = 0x70000 then 7 else if dlc = 0x80000 then 8 else 0)"

definition can_id_type_to_hal :: "u32 \<Rightarrow> u32" where
  "can_id_type_to_hal i = (if i > 0x7FF \<and> i < 0x20000000 then FDCAN_EXTENDED_ID else FDCAN_STANDARD_ID)"

definition can_frame_type_to_hal :: "u32 \<Rightarrow> u32" where
  "can_frame_type_to_hal t = (if t = CAN_REMOTE_FRAME then FDCAN_REMOTE_FRAME else FDCAN_DATA_FRAME)"

definition can_frame_type_from_hal :: "u32 \<Rightarrow> u32" where
  "can_frame_type_from_hal t = (if t = FDCAN_REMOTE_FRAME then CAN_REMOTE_FRAME else CAN_DATA_FRAME)"

text \<open>A message as the library takes and returns it: identifier, kind of identifier, type, length code and
  the bytes of the message.\<close>

record fdcan_msg =
  fm_Identifier :: u32
  fm_IdType :: u32
  fm_FrameType :: u32
  fm_DataLength :: u32
  fm_data :: "u8 list"

section \<open>State\<close>

datatype can_instance = FDCAN1 | FDCAN2 | Other_fdcan nat
datatype can_state = CAN_FREE | CAN_TRANSMIT | CAN_RECEIVE

text \<open>A queue is the list of its elements; None is a queue that could not be created.\<close>

record can_channel =
  cc_id :: u32
  cc_id_filter_low :: u32
  cc_id_filter_high :: u32
  cc_type :: u32
  cc_rx_queue :: "can_frame list option"

text \<open>The array of channels is the list of its entries before the first null pointer. \<open>ca_sent\<close>: the
  messages given to the library; \<open>ca_fifo\<close>: the messages in its receive buffer 0; \<open>ca_next_id\<close>: the static
  counter of \<open>can_open\<close>, which the controllers share.\<close>

record can =
  ca_name :: string
  ca_instance :: can_instance
  ca_tx :: "gpio option"
  ca_rx :: "gpio option"
  ca_irq_priority :: int
  ca_queue_size :: nat
  ca_it0_id :: nat
  ca_it1_id :: nat
  ca_tx_sem :: bool
  ca_rx_sem :: bool
  ca_tx_mutex :: mutex
  ca_rx_mutex :: mutex
  ca_state :: can_state
  ca_periph_init :: bool
  ca_channels :: "can_channel list"
  ca_tx_queue :: "can_frame list option"
  ca_tasks :: "string list"
  ca_sent :: "fdcan_msg list"
  ca_fifo :: "fdcan_msg list"
  ca_next_id :: u32

definition CAN_MAX_CHANNELS :: nat where "CAN_MAX_CHANNELS = 32"

section \<open>Setting a controller up\<close>

definition can_id_init :: "can \<Rightarrow> init_result \<times> can" where
  "can_id_init c = (case ca_instance c of
      FDCAN1 \<Rightarrow> (Errno EOK, c \<lparr> ca_it0_id := 19, ca_it1_id := 21 \<rparr>)
    | FDCAN2 \<Rightarrow> (Errno EOK, c \<lparr> ca_it0_id := 20, ca_it1_id := 22 \<rparr>)
    | Other_fdcan _ \<Rightarrow> (Errno EINVAL, c))"

definition can_clock_init :: "(can \<times> ('h, 'a, 'f) platform) action" where
  "can_clock_init s = on_platform (pf_bus_on (ca_it0_id (fst s))) s"

definition can_start_service :: "bool \<Rightarrow> bool \<Rightarrow> can \<Rightarrow> init_result \<times> can" where
  "can_start_service ok1 ok2 c =
     (if \<not> ok1 then (Hal (- 1), c)
      else let c = c \<lparr> ca_tasks := ca_tasks c @ [take 31 (ca_name c @ ''_read_thread'')] \<rparr> in
        if \<not> ok2 then (Hal (- 1), c)
        else (Errno EOK, c \<lparr> ca_tasks := ca_tasks c @ [take 31 (ca_name c @ ''_write_thread'')] \<rparr>))"

text \<open>The results of the library (initialisation, start, notifications) and of the creations: five semaphores and
  mutexes, the queue, the two tasks.\<close>

record can_init_env =
  ci_init :: int
  ci_start :: int
  ci_notify :: int
  ci_made :: "nat \<Rightarrow> bool"
  ci_node_alloc :: "nat \<Rightarrow> bool"

definition can_init ::
    "can_init_env \<Rightarrow> 'h \<Rightarrow> 'a \<Rightarrow> 'f \<Rightarrow> (can \<times> ('h, 'a, 'f) platform) action" where
  "can_init env h a f = chain [
     on_device can_id_init,
     can_clock_init,
     (\<lambda>s. on_platform (pf_gpio_init (ca_tx (fst s))) s),
     (\<lambda>s. on_platform (pf_gpio_init (ca_rx (fst s))) s),
     hal_call (ci_init env),
     (\<lambda>s. on_platform (pf_irq_init (ca_it0_id (fst s)) (ca_irq_priority (fst s)) h a) s),
     (\<lambda>s. on_platform (pf_irq_init (ca_it1_id (fst s)) (ca_irq_priority (fst s)) h a) s),
     (\<lambda>s. on_platform (pf_irq_enable (ca_it0_id (fst s))) s),
     (\<lambda>s. on_platform (pf_irq_enable (ca_it1_id (fst s))) s),
     create (ci_made env 0) (\<lambda>c. c \<lparr> ca_tx_mutex := None \<rparr>),
     create (ci_made env 1) (\<lambda>c. c \<lparr> ca_tx_sem := False \<rparr>),
     create (ci_made env 2) (\<lambda>c. c \<lparr> ca_rx_mutex := None \<rparr>),
     create (ci_made env 3) (\<lambda>c. c \<lparr> ca_rx_sem := False \<rparr>),
     create (ci_made env 4) (\<lambda>c. c),
     create (ci_made env 5) (\<lambda>c. c \<lparr> ca_tx_queue := Some [] \<rparr>),
     hal_call (ci_start env),
     hal_call (ci_notify env),
     on_device (\<lambda>c. (Errno EOK, c \<lparr> ca_rx_sem := False \<rparr>)),
     on_device (can_start_service (ci_made env 6) (ci_made env 7)),
     (\<lambda>s. on_platform (pf_mount (ci_node_alloc env) (''/dev/'' @ ca_name (fst s)) f) s),
     on_device (\<lambda>c. (Errno EOK, c \<lparr> ca_periph_init := True \<rparr>))]"

section \<open>The interrupt\<close>

definition FDCAN_IR_TC :: u32 where "FDCAN_IR_TC = 0x200"
definition FDCAN_IR_RF0N :: u32 where "FDCAN_IR_RF0N = 0x1"
definition FDCAN_IR_RF1N :: u32 where "FDCAN_IR_RF1N = 0x10"

definition can_it_handler :: "u32 \<Rightarrow> can \<Rightarrow> can" where
  "can_it_handler ir c =
     (if ir AND FDCAN_IR_TC \<noteq> 0 then c \<lparr> ca_tx_sem := True \<rparr>
      else if ir AND (FDCAN_IR_RF0N OR FDCAN_IR_RF1N) \<noteq> 0 then c \<lparr> ca_rx_sem := True \<rparr>
      else c)"

text \<open>An interrupt: the value of the interrupt register and the messages that have arrived in buffer 0 before it.\<close>

type_synonym can_irq = "u32 \<times> fdcan_msg list"

definition can_interrupt :: "can_irq \<Rightarrow> can \<Rightarrow> can" where
  "can_interrupt i c = can_it_handler (fst i) (c \<lparr> ca_fifo := ca_fifo c @ snd i \<rparr>)"

fun can_wait :: "(can \<Rightarrow> bool) \<Rightarrow> can_irq list \<Rightarrow> can \<Rightarrow> can" where
  "can_wait sem [] c = c"
| "can_wait sem (i # is) c = (if sem c then c else can_wait sem is (can_interrupt i c))"

section \<open>Transfers\<close>

text \<open>\<open>ce_released\<close>: a mutex held by another task is given back in time; \<open>ce_add\<close>: the result of giving the
  message to the library; \<open>ce_irqs\<close>: the interrupts until the timeout.\<close>

record can_env =
  ce_released :: bool
  ce_add :: int
  ce_irqs :: "can_irq list"

text \<open>A header as the library gets it. The controller keeps 29 bits of an identifier; a larger one is not a CAN identifier, and nothing is
  stated of what becomes of it.\<close>

definition hal_msg :: "can_header \<Rightarrow> u8 list \<Rightarrow> fdcan_msg" where
  "hal_msg h data = \<lparr> fm_Identifier = ch_id h, fm_IdType = can_id_type_to_hal (ch_id h),
     fm_FrameType = can_frame_type_to_hal (ch_frame_type h), fm_DataLength = can_length_to_hal (ch_size h),
     fm_data = take (unat (ch_size h)) data \<rparr>"

definition can_transmit ::
    "task \<Rightarrow> can_env \<Rightarrow> can_header option \<Rightarrow> u8 list option \<Rightarrow> can \<Rightarrow> (init_result \<times> can) option" where
  "can_transmit me env header pdata c =
     (case (header, pdata) of
        (Some h, Some data) \<Rightarrow>
          if ch_size h > 8 then Some (Errno EINVAL, c)
          else (case mutex_take me (ce_released env) (ca_tx_mutex c) of (ok, m) \<Rightarrow>
            if \<not> ok then Some (Errno ETIMEDOUT, c)
            else if length data < unat (ch_size h) then None
            else (let
              c = c \<lparr> ca_tx_mutex := m, ca_tx_sem := False, ca_state := CAN_TRANSMIT \<rparr>;
              (rv, c) = (if ce_add env = 0
                 then (let c = can_wait ca_tx_sem (ce_irqs env) (c \<lparr> ca_sent := ca_sent c @ [hal_msg h data] \<rparr>)
                       in (if ca_tx_sem c then Hal 0 else Errno ETIMEDOUT, c \<lparr> ca_tx_sem := False \<rparr>))
                 else (Hal (ce_add env), c))
              in do {
                m \<leftarrow> mutex_give me (ca_tx_mutex c);
                Some (rv, c \<lparr> ca_state := CAN_FREE, ca_tx_mutex := m \<rparr>)
              }))
      | _ \<Rightarrow> Some (Errno EINVAL, c))"

text \<open>Taking a message out of buffer 0: the library fails on an empty buffer. It copies the bytes of
  the message to \<open>pdata\<close>.\<close>

definition can_receive ::
    "task \<Rightarrow> can_env \<Rightarrow> can_header \<Rightarrow> u8 list \<Rightarrow> can \<Rightarrow> (init_result \<times> can_header \<times> u8 list \<times> can) option" where
  "can_receive me env header pdata c =
     (case mutex_take me (ce_released env) (ca_rx_mutex c) of (ok, m) \<Rightarrow>
        if \<not> ok then Some (Errno ETIMEDOUT, header, pdata, c)
        else (let c = can_wait ca_rx_sem (ce_irqs env) (c \<lparr> ca_rx_mutex := m, ca_state := CAN_RECEIVE \<rparr>) in do {
          (rv, header, pdata, c) \<leftarrow>
            (if \<not> ca_rx_sem c then Some (Errno ETIMEDOUT, header, pdata, c)
             else (let c = c \<lparr> ca_rx_sem := False \<rparr> in
               (case ca_fifo c of [] \<Rightarrow> Some (Hal 1, header, pdata, c)
                | x # xs \<Rightarrow> do {
                    pdata \<leftarrow> memcpy pdata 0 (fm_data x) 0 (length (fm_data x));
                    Some (Hal 0, \<lparr> ch_id = fm_Identifier x, ch_frame_type = can_frame_type_from_hal (fm_FrameType x),
                        ch_size = can_length_from_hal (fm_DataLength x) \<rparr>, pdata, c \<lparr> ca_fifo := xs \<rparr>)
                  })));
          m \<leftarrow> mutex_give me (ca_rx_mutex c);
          Some (rv, header, pdata, c \<lparr> ca_state := CAN_FREE, ca_rx_mutex := m \<rparr>)
        }))"

section \<open>The tasks\<close>

definition empty_frame :: can_frame where
  "empty_frame = \<lparr> cf_header = \<lparr> ch_id = 0, ch_frame_type = 0, ch_size = 0 \<rparr>, cf_data = replicate 8 0 \<rparr>"

definition can_write_round :: "task \<Rightarrow> can_env \<Rightarrow> can \<Rightarrow> can outcome" where
  "can_write_round me env c =
     (case ca_tx_queue c of None \<Rightarrow> Undef
      | Some [] \<Rightarrow> Waits
      | Some (f # fs) \<Rightarrow>
        (case can_transmit me env (Some (cf_header f)) (Some (cf_data f)) (c \<lparr> ca_tx_queue := Some fs \<rparr>) of
           None \<Rightarrow> Undef | Some (rv, c) \<Rightarrow> Done c))"

text \<open>A received frame goes to every channel whose filter lets it pass. For a channel whose queue is full the
  oldest frame of the queue is taken out, into the variable that holds the received frame.\<close>

fun can_dispatch :: "nat \<Rightarrow> can_frame \<Rightarrow> can_channel list \<Rightarrow> can_channel list outcome" where
  "can_dispatch qsize f [] = Done []"
| "can_dispatch qsize f (c # cs) =
     (if cc_id_filter_low c \<le> ch_id (cf_header f) \<and> cc_id_filter_high c \<ge> ch_id (cf_header f)
      then (case cc_rx_queue c of None \<Rightarrow> Undef
            | Some q \<Rightarrow>
              if length q < qsize
              then (case can_dispatch qsize f cs of Done cs \<Rightarrow> Done (c \<lparr> cc_rx_queue := Some (q @ [f]) \<rparr> # cs) | x \<Rightarrow> x)
              else (case q of [] \<Rightarrow> Waits
                    | g # q' \<Rightarrow> (case can_dispatch qsize g cs of Done cs \<Rightarrow> Done (c \<lparr> cc_rx_queue := Some q' \<rparr> # cs) | x \<Rightarrow> x)))
      else (case can_dispatch qsize f cs of Done cs \<Rightarrow> Done (c # cs) | x \<Rightarrow> x))"

definition can_read_round :: "task \<Rightarrow> can_env \<Rightarrow> can \<Rightarrow> can outcome" where
  "can_read_round me env c =
     (case can_receive me env (cf_header empty_frame) (cf_data empty_frame) c of
        None \<Rightarrow> Undef
      | Some (rv, h, data, c) \<Rightarrow>
        if \<not> init_ok rv then Done c
        else (case can_dispatch (ca_queue_size c) \<lparr> cf_header = h, cf_data = data \<rparr> (take CAN_MAX_CHANNELS (ca_channels c)) of
            Done cs \<Rightarrow> Done (c \<lparr> ca_channels := cs @ drop CAN_MAX_CHANNELS (ca_channels c) \<rparr>)
          | Waits \<Rightarrow> Waits | Undef \<Rightarrow> Undef))"

section \<open>The file operations\<close>

text \<open>\<open>alloc\<close>, \<open>made\<close>: the memory of the channel and its queue could be had. The result has the channel of the file.
  The search for a free entry of the array looks at the entry behind its end when all are taken.\<close>

definition can_open :: "bool \<Rightarrow> bool \<Rightarrow> can \<Rightarrow> (int \<times> errno \<times> nat option \<times> can) option" where
  "can_open alloc made c =
     (if \<not> ca_periph_init c then Some (- 1, EPERM, None, c)
      else if \<not> alloc then Some (- 1, ENOMEM, None, c)
      else if ca_tx_queue c = None then Some (- 1, ENOMEM, None, c)
      else if CAN_MAX_CHANNELS \<le> length (ca_channels c) then None
      else Some (0, EOK, Some (length (ca_channels c)),
        c \<lparr> ca_channels := ca_channels c @ [\<lparr> cc_id = ca_next_id c, cc_id_filter_low = 0, cc_id_filter_high = 0x1FFFFFFF,
               cc_type = 0, cc_rx_queue = (if made then Some [] else None) \<rparr>],
             ca_next_id := ca_next_id c + 1 \<rparr>))"

text \<open>The operations on the channel \<open>i\<close>.\<close>

definition can_write :: "nat \<Rightarrow> u8 list \<Rightarrow> u32 \<Rightarrow> can \<Rightarrow> (int \<times> errno \<times> can) outcome" where
  "can_write i buf count c =
     (case arr_get (ca_channels c) i of None \<Rightarrow> Undef
      | Some ch \<Rightarrow>
        if count > 8 then Done (- 1, EMSGSIZE, c)
        else (case (if cc_type ch = CAN_DATA_FRAME then memcpy (replicate 8 0) 0 buf 0 (unat count) else Some (replicate 8 0)) of
            None \<Rightarrow> Undef
          | Some data \<Rightarrow>
            (case ca_tx_queue c of None \<Rightarrow> Undef
             | Some q \<Rightarrow>
               if length q < ca_queue_size c
               then Done (int (unat count), EOK,
                 c \<lparr> ca_tx_queue := Some (q @ [\<lparr> cf_header = \<lparr> ch_id = cc_id ch, ch_frame_type = cc_type ch, ch_size = count \<rparr>, cf_data = data \<rparr>]) \<rparr>)
               else Waits)))"

text \<open>The bytes stored in the caller's buffer and the result of the call; the size of the buffer plays no part.\<close>

definition can_read :: "nat \<Rightarrow> u32 \<Rightarrow> can \<Rightarrow> (u8 list \<times> u32 \<times> can) outcome" where
  "can_read i count c =
     (case arr_get (ca_channels c) i of None \<Rightarrow> Undef
      | Some ch \<Rightarrow>
        (case cc_rx_queue ch of None \<Rightarrow> Undef
         | Some [] \<Rightarrow> Waits
         | Some (f # q) \<Rightarrow>
           if length (cf_data f) < unat (ch_size (cf_header f)) then Undef
           else Done (take (unat (ch_size (cf_header f))) (cf_data f), 12 + ch_size (cf_header f),
             c \<lparr> ca_channels := (ca_channels c)[i := ch \<lparr> cc_rx_queue := Some q \<rparr>] \<rparr>)))"

definition can_close :: "can \<Rightarrow> int \<times> errno \<times> can" where
  "can_close c = (- 1, ENOSYS, c)"

definition can_ioctl_set_tx_msg_id :: "u32 \<Rightarrow> can_channel \<Rightarrow> can_channel" where
  "can_ioctl_set_tx_msg_id v ch = ch \<lparr> cc_id := v \<rparr>"

definition can_ioctl_set_rx_filter_id :: "u32 \<Rightarrow> can_channel \<Rightarrow> can_channel" where
  "can_ioctl_set_rx_filter_id v ch = ch \<lparr> cc_id_filter_low := v, cc_id_filter_high := v \<rparr>"

definition can_ioctl_set_rx_filter_id_low :: "u32 \<Rightarrow> can_channel \<Rightarrow> can_channel" where
  "can_ioctl_set_rx_filter_id_low v ch = ch \<lparr> cc_id_filter_low := v \<rparr>"

definition can_ioctl_set_rx_filter_id_high :: "u32 \<Rightarrow> can_channel \<Rightarrow> can_channel" where
  "can_ioctl_set_rx_filter_id_high v ch = ch \<lparr> cc_id_filter_high := v \<rparr>"

definition can_ioctl_set_msg_type :: "u32 \<Rightarrow> can_channel \<Rightarrow> can_channel" where
  "can_ioctl_set_msg_type v ch = ch \<lparr> cc_type := v \<rparr>"

definition can_ioctl :: "nat \<Rightarrow> int \<Rightarrow> u32 \<Rightarrow> can \<Rightarrow> (int \<times> errno \<times> can) option" where
  "can_ioctl i request v c = do {
     ch \<leftarrow> arr_get (ca_channels c) i;
     let set = (\<lambda>g. Some (0, EOK, c \<lparr> ca_channels := (ca_channels c)[i := g v ch] \<rparr>));
     if request = 0x01 then set can_ioctl_set_tx_msg_id
     else if request = 0x02 then set can_ioctl_set_msg_type
     else if request = 0x10 then set can_ioctl_set_rx_filter_id
     else if request = 0x11 then set can_ioctl_set_rx_filter_id_low
     else if request = 0x12 then set can_ioctl_set_rx_filter_id_high
     else Some (- 1, ENOENT, c)
   }"

section \<open>Lengths, delivery and waiting\<close>

lemma can_length_roundtrip: "n \<le> 8 \<Longrightarrow> can_length_from_hal (can_length_to_hal n) = n"
proof -
  assume "n \<le> 8"
  then have "unat n \<le> 8"
    by (simp add: word_le_nat_alt)
  then have "unat n = 0 \<or> unat n = 1 \<or> unat n = 2 \<or> unat n = 3 \<or> unat n = 4 \<or> unat n = 5 \<or> unat n = 6 \<or> unat n = 7 \<or> unat n = 8"
    by arith
  then have "n = 0 \<or> n = 1 \<or> n = 2 \<or> n = 3 \<or> n = 4 \<or> n = 5 \<or> n = 6 \<or> n = 7 \<or> n = 8"
    by (simp add: word_unat_eq_iff)
  then show ?thesis
    by (auto simp: can_length_from_hal_def can_length_to_hal_def)
qed

lemma can_type_roundtrip: "t = CAN_DATA_FRAME \<or> t = CAN_REMOTE_FRAME \<Longrightarrow> can_frame_type_from_hal (can_frame_type_to_hal t) = t"
  by (auto simp: can_frame_type_from_hal_def can_frame_type_to_hal_def CAN_DATA_FRAME_def CAN_REMOTE_FRAME_def
      FDCAN_DATA_FRAME_def FDCAN_REMOTE_FRAME_def)

text \<open>Delivery of a frame to a channel with room.\<close>

definition passes :: "can_channel \<Rightarrow> can_frame \<Rightarrow> bool" where
  "passes ch f \<longleftrightarrow> cc_id_filter_low ch \<le> ch_id (cf_header f) \<and> ch_id (cf_header f) \<le> cc_id_filter_high ch"

definition has_room :: "nat \<Rightarrow> can_channel \<Rightarrow> bool" where
  "has_room n ch \<longleftrightarrow> (case cc_rx_queue ch of None \<Rightarrow> False | Some q \<Rightarrow> length q < n)"

definition deliver :: "can_frame \<Rightarrow> can_channel \<Rightarrow> can_channel" where
  "deliver f ch = (if passes ch f then ch \<lparr> cc_rx_queue := map_option (\<lambda>q. q @ [f]) (cc_rx_queue ch) \<rparr> else ch)"

lemma can_dispatch_room:
  "\<forall>ch \<in> set cs. has_room n ch \<Longrightarrow> can_dispatch n f cs = Done (map (deliver f) cs)"
  by (induction cs) (auto simp: has_room_def deliver_def passes_def split: option.splits)

text \<open>The first channel whose queue is full: what is behind it gets the oldest frame of that queue.\<close>

lemma can_dispatch_full:
  assumes "\<forall>ch \<in> set pre. has_room n ch" and "passes ch f" and "cc_rx_queue ch = Some (g # q)" and "n \<le> length (g # q)"
    and "\<forall>ch \<in> set post. has_room n ch"
  shows "can_dispatch n f (pre @ ch # post) = Done (map (deliver f) pre @ ch \<lparr> cc_rx_queue := Some q \<rparr> # map (deliver g) post)"
  using assms(1)
proof (induction pre)
  case Nil
  show ?case
    using assms(2-4) can_dispatch_room [OF assms(5), of g] by (simp add: passes_def)
next
  case (Cons x pre)
  then show ?case
    by (auto simp: has_room_def deliver_def passes_def split: option.splits)
qed

lemma can_interrupt_keeps [simp]:
  "ca_rx_mutex (can_interrupt i c) = ca_rx_mutex c" "ca_tx_mutex (can_interrupt i c) = ca_tx_mutex c"
  "ca_sent (can_interrupt i c) = ca_sent c" "ca_channels (can_interrupt i c) = ca_channels c"
  "ca_queue_size (can_interrupt i c) = ca_queue_size c" "ca_tx_queue (can_interrupt i c) = ca_tx_queue c"
  "ca_fifo (can_interrupt i c) = ca_fifo c @ snd i"
  by (simp_all add: can_interrupt_def can_it_handler_def)

lemma can_wait_keeps [simp]:
  "ca_rx_mutex (can_wait sem is c) = ca_rx_mutex c" "ca_tx_mutex (can_wait sem is c) = ca_tx_mutex c"
  "ca_sent (can_wait sem is c) = ca_sent c" "ca_channels (can_wait sem is c) = ca_channels c"
  "ca_queue_size (can_wait sem is c) = ca_queue_size c" "ca_tx_queue (can_wait sem is c) = ca_tx_queue c"
  by (induction "is" arbitrary: c) simp_all

lemma can_it_handler_new: "can_it_handler FDCAN_IR_RF0N c = c \<lparr> ca_rx_sem := True \<rparr>"
  by (simp add: can_it_handler_def FDCAN_IR_TC_def FDCAN_IR_RF0N_def FDCAN_IR_RF1N_def)

text \<open>The reception when its message is in the buffer: at once, or with the next interrupt.\<close>

lemma can_receive_message:
  assumes "ca_rx_mutex c = None" and "can_wait ca_rx_sem (ce_irqs env) (c \<lparr> ca_rx_mutex := Some me, ca_state := CAN_RECEIVE \<rparr>) = c1"
    and "ca_rx_sem c1" and "ca_fifo c1 = x # xs" and "length (fm_data x) \<le> length pdata"
  shows "\<exists>c2. can_receive me env h pdata c = Some (Hal 0,
      \<lparr> ch_id = fm_Identifier x, ch_frame_type = can_frame_type_from_hal (fm_FrameType x), ch_size = can_length_from_hal (fm_DataLength x) \<rparr>,
      fm_data x @ drop (length (fm_data x)) pdata, c2) \<and>
    ca_fifo c2 = xs \<and> \<not> ca_rx_sem c2 \<and> ca_rx_mutex c2 = None \<and> ca_channels c2 = ca_channels c \<and> ca_queue_size c2 = ca_queue_size c"
proof -
  have "ca_rx_mutex c1 = Some me" and "ca_channels c1 = ca_channels c" and "ca_queue_size c1 = ca_queue_size c"
    using assms(2) by auto
  then show ?thesis
    using assms by (simp add: can_receive_def Let_def memcpy_def)
qed

section \<open>Properties\<close>

text \<open>A round of the write task that finds the hardware willing hands over the first frame of the queue.\<close>

lemma can_write_round_sends:
  assumes "ca_tx_queue c = Some (f # fs)" and "ca_tx_mutex c = None" and "ce_add env = 0" and "ch_size (cf_header f) \<le> 8" and "length (cf_data f) = 8"
  shows "\<exists>c'. can_write_round me env c = Done c' \<and> ca_sent c' = ca_sent c @ [hal_msg (cf_header f) (cf_data f)] \<and> ca_tx_queue c' = Some fs"
proof -
  have "unat (ch_size (cf_header f)) \<le> 8"
    using assms(4) by (simp add: word_le_nat_alt)
  moreover have "\<not> ch_size (cf_header f) > 8"
    using assms(4) by simp
  ultimately show ?thesis
    using assms by (simp add: can_write_round_def can_transmit_def Let_def)
qed

text \<open>The frame of a written message.\<close>

definition data_frame :: "u32 \<Rightarrow> u8 list \<Rightarrow> can_frame" where
  "data_frame i bytes = \<lparr> cf_header = \<lparr> ch_id = i, ch_frame_type = CAN_DATA_FRAME, ch_size = word_of_nat (length bytes) \<rparr>,
     cf_data = bytes @ replicate (8 - length bytes) 0 \<rparr>"

lemma data_frame_hal:
  assumes "length bytes \<le> 8"
  shows "hal_msg (cf_header (data_frame i bytes)) (cf_data (data_frame i bytes)) =
     \<lparr> fm_Identifier = i, fm_IdType = can_id_type_to_hal i, fm_FrameType = FDCAN_DATA_FRAME,
       fm_DataLength = can_length_to_hal (word_of_nat (length bytes)), fm_data = bytes \<rparr>"
  using assms by (simp add: hal_msg_def data_frame_def can_frame_type_to_hal_def CAN_DATA_FRAME_def CAN_REMOTE_FRAME_def unat_word_of_nat_less)

text \<open>A round of the read task on an arriving message whose channels have room.\<close>

lemma can_read_round_delivers:
  assumes "ca_rx_mutex d = None" and "ca_fifo d = []" and "\<not> ca_rx_sem d" and "length (ca_channels d) \<le> CAN_MAX_CHANNELS"
    and "\<forall>ch \<in> set (ca_channels d). has_room (ca_queue_size d) ch" and "length bytes \<le> 8"
    and "ce_irqs env = [(FDCAN_IR_RF0N, [hal_msg (cf_header (data_frame i bytes)) (cf_data (data_frame i bytes))])]"
  shows "\<exists>d'. can_read_round me env d = Done d' \<and> ca_channels d' = map (deliver (data_frame i bytes)) (ca_channels d)"
proof -
  let ?m = "hal_msg (cf_header (data_frame i bytes)) (cf_data (data_frame i bytes))"
  let ?d = "d \<lparr> ca_rx_mutex := Some me, ca_state := CAN_RECEIVE \<rparr>"
  have wait: "can_wait ca_rx_sem (ce_irqs env) ?d = can_interrupt (FDCAN_IR_RF0N, [?m]) ?d"
    using assms(3,7) by simp
  have 1: "ca_rx_sem (can_interrupt (FDCAN_IR_RF0N, [?m]) ?d)"
    by (simp add: can_interrupt_def can_it_handler_new)
  have 2: "ca_fifo (can_interrupt (FDCAN_IR_RF0N, [?m]) ?d) = ?m # []"
    using assms(2) by simp
  have len: "length (fm_data ?m) \<le> length (cf_data empty_frame)"
    using assms(6) by (simp add: data_frame_hal empty_frame_def)
  obtain c2 where r: "can_receive me env (cf_header empty_frame) (cf_data empty_frame) d = Some (Hal 0,
      \<lparr> ch_id = fm_Identifier ?m, ch_frame_type = can_frame_type_from_hal (fm_FrameType ?m), ch_size = can_length_from_hal (fm_DataLength ?m) \<rparr>,
      fm_data ?m @ drop (length (fm_data ?m)) (cf_data empty_frame), c2)"
      and c2: "ca_channels c2 = ca_channels d" "ca_queue_size c2 = ca_queue_size d"
    using can_receive_message [OF assms(1) wait 1 2 len, of "cf_header empty_frame"] by blast
  have "(word_of_nat (length bytes) :: u32) \<le> 8"
    using assms(6) by (simp add: word_le_nat_alt unat_word_of_nat_less)
  then have "can_length_from_hal (can_length_to_hal (word_of_nat (length bytes))) = word_of_nat (length bytes)"
    by (rule can_length_roundtrip)
  then have f: "\<lparr> cf_header = \<lparr> ch_id = fm_Identifier ?m, ch_frame_type = can_frame_type_from_hal (fm_FrameType ?m), ch_size = can_length_from_hal (fm_DataLength ?m) \<rparr>,
      cf_data = fm_data ?m @ drop (length (fm_data ?m)) (cf_data empty_frame) \<rparr> = data_frame i bytes"
    using assms(6) unfolding data_frame_hal [OF assms(6)]
    by (simp add: data_frame_def empty_frame_def can_frame_type_from_hal_def FDCAN_DATA_FRAME_def FDCAN_REMOTE_FRAME_def)
  have "can_dispatch (ca_queue_size c2) (data_frame i bytes) (take CAN_MAX_CHANNELS (ca_channels c2)) = Done (map (deliver (data_frame i bytes)) (ca_channels d))"
    using can_dispatch_room [OF assms(5)] c2 assms(4) by simp
  then show ?thesis
    using r f c2 assms(4) by (simp add: can_read_round_def)
qed

text \<open>C35: From one controller to another when both are idle. The sender has an empty transmit queue with room for a message, its mutex is free, and the library
  accepts the message; the receiver has its mutex free, no message in its buffer and no semaphore pending, at most \<open>CAN_MAX_CHANNELS\<close> channels, and room
  in the queue of each of them. Then what a program writes to a data channel of the sender whose identifier has at most 29 bits, at most eight bytes, is sent by the round of its write task
  under the identifier of the channel, and when that message arrives, the round of the receiver's read task puts it into the queues, so that a read of any channel whose queue was empty and whose filter
  passes the identifier returns the same bytes. Without these conditions messages are lost, see the two theorems that follow.\<close>

theorem can_end_to_end:
  assumes w: "i < length (ca_channels c)" "cc_type (ca_channels c ! i) = CAN_DATA_FRAME" "ca_tx_queue c = Some []" "0 < ca_queue_size c"
      "ca_tx_mutex c = None" "ce_add env = 0"
    and ident: "cc_id (ca_channels c ! i) < 0x20000000" and bytes: "length bytes \<le> 8"
    and r: "ca_rx_mutex d = None" "ca_fifo d = []" "\<not> ca_rx_sem d" "length (ca_channels d) \<le> CAN_MAX_CHANNELS"
      "\<forall>ch \<in> set (ca_channels d). has_room (ca_queue_size d) ch"
    and j: "j < length (ca_channels d)" "cc_rx_queue (ca_channels d ! j) = Some []"
      "cc_id_filter_low (ca_channels d ! j) \<le> cc_id (ca_channels c ! i)" "cc_id (ca_channels c ! i) \<le> cc_id_filter_high (ca_channels d ! j)"
  shows "\<exists>c1 c2 m d1 d2. can_write i bytes (word_of_nat (length bytes)) c = Done (int (length bytes), EOK, c1) \<and>
     can_write_round me env c1 = Done c2 \<and> ca_sent c2 = ca_sent c @ [m] \<and> fm_Identifier m = cc_id (ca_channels c ! i) \<and>
     can_read_round me' (env' \<lparr> ce_irqs := [(FDCAN_IR_RF0N, [m])] \<rparr>) d = Done d1 \<and>
     can_read j n d1 = Done (bytes, 12 + word_of_nat (length bytes), d2)"
proof -
  let ?f = "data_frame (cc_id (ca_channels c ! i)) bytes"
  let ?c1 = "c \<lparr> ca_tx_queue := Some [?f] \<rparr>"
  have n: "unat (word_of_nat (length bytes) :: u32) = length bytes"
    using bytes by (simp add: unat_word_of_nat_less)
  have w1: "can_write i bytes (word_of_nat (length bytes)) c = Done (int (length bytes), EOK, ?c1)"
    using w bytes n by (simp add: can_write_def arr_get_Some word_less_nat_alt memcpy_def data_frame_def)
  have "ch_size (cf_header ?f) \<le> 8" and "length (cf_data ?f) = 8"
    using bytes n by (simp_all add: data_frame_def word_le_nat_alt)
  then obtain c2 where w2: "can_write_round me env ?c1 = Done c2" and sent: "ca_sent c2 = ca_sent c @ [hal_msg (cf_header ?f) (cf_data ?f)]"
    using can_write_round_sends [of ?c1 ?f "[]" env me] w by auto
  obtain d1 where d1: "can_read_round me' (env' \<lparr> ce_irqs := [(FDCAN_IR_RF0N, [hal_msg (cf_header ?f) (cf_data ?f)])] \<rparr>) d = Done d1"
      and chs: "ca_channels d1 = map (deliver ?f) (ca_channels d)"
    using can_read_round_delivers [OF r bytes, of "env' \<lparr> ce_irqs := [(FDCAN_IR_RF0N, [hal_msg (cf_header ?f) (cf_data ?f)])] \<rparr>"] by auto
  have "cc_rx_queue (ca_channels d1 ! j) = Some [?f]"
    using j chs by (simp add: deliver_def passes_def data_frame_def)
  then have "\<exists>d2. can_read j n d1 = Done (bytes, 12 + word_of_nat (length bytes), d2)"
    using j(1) chs bytes n by (auto simp: can_read_def arr_get_Some data_frame_def)
  moreover have "fm_Identifier (hal_msg (cf_header ?f) (cf_data ?f)) = cc_id (ca_channels c ! i)"
    using bytes by (simp add: data_frame_hal)
  ultimately show ?thesis
    using w1 w2 sent d1 by blast
qed

text \<open>When the queue of a channel is full, a received frame is lost for it together with the oldest frame of its
  queue, and every channel behind it gets that oldest frame once more in place of the received one.\<close>

theorem can_full_queue_loses:
  assumes "\<forall>ch \<in> set pre. has_room n ch" and "passes ch f" and "cc_rx_queue ch = Some (g # q)" and "n \<le> length (g # q)"
    and "\<forall>ch \<in> set post. has_room n ch" and "\<forall>ch \<in> set post. passes ch g"
  shows "\<exists>cs. can_dispatch n f (pre @ ch # post) = Done cs \<and>
     map cc_rx_queue cs = map (\<lambda>x. cc_rx_queue (deliver f x)) pre @ Some q # map (\<lambda>x. map_option (\<lambda>q. q @ [g]) (cc_rx_queue x)) post"
  using can_dispatch_full [OF assms(1-5)] assms(6) by (simp add: deliver_def)

text \<open>The arrivals of messages and the rounds of the read task in their order.\<close>

datatype can_event = Message fdcan_msg | Read_task task

fun can_run :: "can_event list \<Rightarrow> can \<Rightarrow> can outcome" where
  "can_run [] c = Done c"
| "can_run (Message m # es) c = can_run es (can_interrupt (FDCAN_IR_RF0N, [m]) c)"
| "can_run (Read_task t # es) c =
     (case can_read_round t \<lparr> ce_released = False, ce_add = 0, ce_irqs = [] \<rparr> c of Done c \<Rightarrow> can_run es c | x \<Rightarrow> x)"

text \<open>The messages in the buffer for which there is no semaphore.\<close>

definition can_lag :: "can \<Rightarrow> nat" where
  "can_lag c = length (ca_fifo c) - (if ca_rx_sem c then 1 else 0)"

lemma can_read_round_fifo:
  assumes "can_read_round t \<lparr> ce_released = False, ce_add = 0, ce_irqs = [] \<rparr> c = Done c'"
  shows "can_lag c \<le> can_lag c' \<and> (ca_rx_sem c' \<longrightarrow> ca_rx_sem c \<and> ca_fifo c' = ca_fifo c)"
proof -
  obtain rv h data c1 where r: "can_receive t \<lparr> ce_released = False, ce_add = 0, ce_irqs = [] \<rparr> (cf_header empty_frame) (cf_data empty_frame) c = Some (rv, h, data, c1)"
      and c': "ca_fifo c' = ca_fifo c1" "ca_rx_sem c' = ca_rx_sem c1"
    using assms by (auto simp: can_read_round_def split: option.splits if_splits outcome.splits)
  have "can_lag c \<le> can_lag c1 \<and> (ca_rx_sem c1 \<longrightarrow> ca_rx_sem c \<and> ca_fifo c1 = ca_fifo c)"
    using r by (auto simp: can_receive_def mutex_take_def can_lag_def Let_def split: if_splits list.splits bind_splits)
  then show ?thesis
    using c' by (simp add: can_lag_def)
qed

lemma can_run_lag: "can_run es c = Done c' \<Longrightarrow> can_lag c \<le> can_lag c'"
proof (induction es c rule: can_run.induct)
  case (2 m es c)
  have "can_lag c \<le> can_lag (can_interrupt (FDCAN_IR_RF0N, [m]) c)"
    by (simp add: can_lag_def can_interrupt_def can_it_handler_new)
  then show ?case
    using 2 by simp
next
  case (3 t es c)
  then show ?case
    using can_read_round_fifo [of t c] by (fastforce split: outcome.splits)
qed simp

lemma can_run_append: "can_run (as @ bs) c = (case can_run as c of Done c \<Rightarrow> can_run bs c | x \<Rightarrow> x)"
  by (induction as c rule: can_run.induct) (auto split: outcome.splits)

lemma can_burst: "ms \<noteq> [] \<Longrightarrow> \<exists>c1. can_run (map Message ms) c = Done c1 \<and> length (ca_fifo c) + length ms - 1 \<le> can_lag c1"
proof (induction ms arbitrary: c)
  case (Cons m ms)
  let ?c = "can_interrupt (FDCAN_IR_RF0N, [m]) c"
  show ?case
  proof (cases "ms = []")
    case True
    then show ?thesis
      by (simp add: can_lag_def)
  next
    case False
    then show ?thesis
      using Cons.IH [of ?c] by simp
  qed
qed simp

text \<open>The semaphore of the receiver is binary: when messages arrive in a burst before the read task gets to run, all but one of
  them stay in the buffer of the controller, however often the task runs and whatever arrives later; the
  task delivers each message only when a later one arrives.\<close>

theorem can_burst_left_behind:
  assumes "ms \<noteq> []" and "can_run (map Message ms @ es) c = Done c'"
  shows "length (ca_fifo c) + length ms - 1 \<le> length (ca_fifo c')"
proof -
  obtain c1 where c1: "can_run (map Message ms) c = Done c1" "length (ca_fifo c) + length ms - 1 \<le> can_lag c1"
    using can_burst [OF assms(1)] by blast
  then have "can_lag c1 \<le> can_lag c'"
    using assms(2) can_run_lag by (simp add: can_run_append)
  also have "can_lag c' \<le> length (ca_fifo c')"
    by (simp add: can_lag_def)
  finally show ?thesis
    using c1(2) by simp
qed

text \<open>A controller with one open channel, for the concrete instances.\<close>

definition demo_can :: can where
  "demo_can = \<lparr> ca_name = ''can0'', ca_instance = FDCAN1, ca_tx = None, ca_rx = None, ca_irq_priority = 5, ca_queue_size = 2,
     ca_it0_id = 19, ca_it1_id = 21, ca_tx_sem = False, ca_rx_sem = False, ca_tx_mutex = None, ca_rx_mutex = None,
     ca_state = CAN_FREE, ca_periph_init = True,
     ca_channels = [\<lparr> cc_id = 5, cc_id_filter_low = 0, cc_id_filter_high = 0x1FFFFFFF, cc_type = CAN_DATA_FRAME, cc_rx_queue = Some [] \<rparr>],
     ca_tx_queue = Some [], ca_tasks = [], ca_sent = [], ca_fifo = [], ca_next_id = 6 \<rparr>"

definition demo_can_env :: can_env where
  "demo_can_env = \<lparr> ce_released = True, ce_add = 0, ce_irqs = [(FDCAN_IR_TC, [])] \<rparr>"

theorem can_end_to_end_witness:
  "\<exists>c1 c2 m d1 d2. can_write 0 [1, 2, 3] 3 demo_can = Done (3, EOK, c1) \<and> can_write_round 1 demo_can_env c1 = Done c2 \<and>
     ca_sent c2 = [m] \<and> can_read_round 2 (demo_can_env \<lparr> ce_irqs := [(FDCAN_IR_RF0N, [m])] \<rparr>) demo_can = Done d1 \<and>
     can_read 0 8 d1 = Done ([1, 2, 3], 15, d2)"
proof -
  have w: "0 < length (ca_channels demo_can)" "cc_type (ca_channels demo_can ! 0) = CAN_DATA_FRAME" "ca_tx_queue demo_can = Some []"
      "0 < ca_queue_size demo_can" "ca_tx_mutex demo_can = None" "ce_add demo_can_env = 0" "cc_id (ca_channels demo_can ! 0) < 0x20000000"
      "length [1, 2, 3 :: u8] \<le> 8"
    by (simp_all add: demo_can_def demo_can_env_def)
  have r: "ca_rx_mutex demo_can = None" "ca_fifo demo_can = []" "\<not> ca_rx_sem demo_can" "length (ca_channels demo_can) \<le> CAN_MAX_CHANNELS"
      "\<forall>ch \<in> set (ca_channels demo_can). has_room (ca_queue_size demo_can) ch" "0 < length (ca_channels demo_can)"
      "cc_rx_queue (ca_channels demo_can ! 0) = Some []"
      "cc_id_filter_low (ca_channels demo_can ! 0) \<le> cc_id (ca_channels demo_can ! 0)"
      "cc_id (ca_channels demo_can ! 0) \<le> cc_id_filter_high (ca_channels demo_can ! 0)"
    by (simp_all add: demo_can_def CAN_MAX_CHANNELS_def has_room_def)
  have "ca_sent demo_can = []"
    by (simp add: demo_can_def)
  then show ?thesis
    using can_end_to_end [OF w r, of 1 2 demo_can_env 8] by auto
qed

definition demo_channel :: "can_frame list \<Rightarrow> can_channel" where
  "demo_channel q = \<lparr> cc_id = 0, cc_id_filter_low = 0, cc_id_filter_high = 0x1FFFFFFF, cc_type = 0, cc_rx_queue = Some q \<rparr>"

theorem can_full_queue_loses_witness:
  "\<exists>cs. can_dispatch 1 (data_frame 2 []) [demo_channel [data_frame 1 []], demo_channel []] = Done cs \<and>
     map cc_rx_queue cs = [Some [], Some [data_frame 1 []]]"
proof -
  have "passes (demo_channel [data_frame 1 []]) (data_frame 2 [])" and "cc_rx_queue (demo_channel [data_frame 1 []]) = Some (data_frame 1 [] # [])"
    and "1 \<le> length (data_frame 1 [] # [])" and "\<forall>ch \<in> set [demo_channel []]. has_room 1 ch" and "\<forall>ch \<in> set [demo_channel []]. passes ch (data_frame 1 [])"
    by (simp_all add: passes_def demo_channel_def data_frame_def has_room_def)
  from can_full_queue_loses [of "[]" 1, OF _ this] show ?thesis
    by (simp add: demo_channel_def)
qed

theorem can_burst_left_behind_witness:
  "case can_run (map Message [hal_msg (cf_header (data_frame 1 [])) [], hal_msg (cf_header (data_frame 2 [])) []] @ [Read_task 1, Read_task 1]) demo_can of
     Done c \<Rightarrow> 1 \<le> length (ca_fifo c) | _ \<Rightarrow> False"
proof -
  let ?ms = "[hal_msg (cf_header (data_frame 1 [])) [], hal_msg (cf_header (data_frame 2 [])) []]"
  have "case can_run (map Message ?ms @ [Read_task 1, Read_task 1]) demo_can of Done c \<Rightarrow> True | _ \<Rightarrow> False"
    by code_simp
  then obtain c where c: "can_run (map Message ?ms @ [Read_task 1, Read_task 1]) demo_can = Done c"
    by (auto split: outcome.splits)
  have "?ms \<noteq> []"
    by simp
  from can_burst_left_behind [OF this c] c show ?thesis
    by simp
qed

text \<open>Channels are never closed: once the array is full, an open looks behind its end.\<close>

lemma can_open_full:
  "ca_periph_init c \<Longrightarrow> ca_tx_queue c \<noteq> None \<Longrightarrow> length (ca_channels c) = CAN_MAX_CHANNELS \<Longrightarrow> can_open True made c = None"
  by (simp add: can_open_def)

end
