(* ===== verification/Bus.thy ===== *)
theory Bus
  imports Platform
begin

text \<open>
  The serial buses of the sensors: bsp/mcu/periph/spi/stm32/spi.c and bsp/mcu/periph/i2c/stm32/i2c.c. A world holds
  the bus, the pins, the chips on the bus and what the vendor library and the other tasks do
  at each transfer. The chips are a parameter: how they answer the bytes they are sent.
\<close>

section \<open>The environment of a transfer\<close>

text \<open>\<open>be_released\<close>: a mutex held by another task is given back in time; \<open>be_start\<close>: the result of starting
  the transfer; \<open>be_done\<close>: the interrupt that ends it comes in time; otherwise \<open>be_moved\<close> bytes have
  been transferred when the time is up.\<close>

record bus_env =
  be_released :: bool
  be_start :: int
  be_done :: bool
  be_moved :: nat

definition moved :: "bus_env \<Rightarrow> nat \<Rightarrow> nat" where
  "moved e n = (if be_start e \<noteq> 0 then 0 else if be_done e then n else min n (be_moved e))"

definition bus_result :: "bus_env \<Rightarrow> init_result" where
  "bus_result e = (if be_start e \<noteq> 0 then Hal (be_start e) else if be_done e then Hal 0 else Errno ETIMEDOUT)"

text \<open>Bytes that arrive at the start of a buffer; None when it is too short.\<close>

definition received :: "u8 list \<Rightarrow> u8 list \<Rightarrow> u8 list option" where
  "received bytes buf = memcpy buf 0 bytes 0 (length bytes)"

section \<open>SPI (spi.c)\<close>

datatype spi_instance = SPI1 | SPI2 | SPI3 | SPI4 | SPI5 | SPI6 | Other_spi nat
datatype spi_state = SPI_FREE | SPI_TRANSMIT | SPI_RECEIVE | SPI_TRANSMIT_RECEIVE
datatype spi_isr = spi_handler_isr | spi_dma_tx_handler | spi_dma_rx_handler

record spi =
  sp_instance :: spi_instance
  sp_mosi :: "gpio option"
  sp_miso :: "gpio option"
  sp_sck :: "gpio option"
  sp_dma_tx :: "(dma_stream \<times> int) option"
  sp_dma_rx :: "(dma_stream \<times> int) option"
  sp_irq_priority :: int
  sp_id :: nat
  sp_sem :: bool
  sp_mutex :: mutex
  sp_cs_mutex :: mutex
  sp_state :: spi_state

fun spi_irqn :: "spi_instance \<Rightarrow> nat option" where
  "spi_irqn SPI1 = Some 35"
| "spi_irqn SPI2 = Some 36"
| "spi_irqn SPI3 = Some 51"
| "spi_irqn SPI4 = Some 84"
| "spi_irqn SPI5 = Some 85"
| "spi_irqn SPI6 = Some 86"
| "spi_irqn (Other_spi _) = None"

definition spi_id_init :: "spi \<Rightarrow> init_result \<times> spi" where
  "spi_id_init c = (case spi_irqn (sp_instance c) of None \<Rightarrow> (Errno EINVAL, c) | Some n \<Rightarrow> (Errno EOK, c \<lparr> sp_id := n \<rparr>))"

definition spi_clock_init :: "(spi \<times> ('h, 'a, 'f) platform) action" where
  "spi_clock_init s =
     (if sp_id (fst s) \<in> {35, 36, 51, 84, 85, 86} then on_platform (pf_bus_on (sp_id (fst s))) s else Some (Errno EINVAL, s))"

definition spi_dma_setup :: "int \<Rightarrow> int \<Rightarrow> (spi_isr \<Rightarrow> 'h) \<Rightarrow> 'a \<Rightarrow> (spi \<times> ('h, 'a, 'f) platform) action" where
  "spi_dma_setup hal_tx hal_rx h a s =
     (case (sp_dma_tx (fst s), sp_dma_rx (fst s)) of
        (Some tx, Some rx) \<Rightarrow>
          chain [on_platform (pf_dma_init tx hal_tx (h spi_dma_tx_handler) a), on_platform (pf_dma_init rx hal_rx (h spi_dma_rx_handler) a)] s
      | _ \<Rightarrow> Some (Errno EOK, s))"

text \<open>\<open>hal i\<close>: the results of the vendor library (the two streams, the controller); \<open>made i\<close>: the
  creations succeed.\<close>

definition spi_init ::
    "(nat \<Rightarrow> int) \<Rightarrow> (nat \<Rightarrow> bool) \<Rightarrow> (spi_isr \<Rightarrow> 'h) \<Rightarrow> 'a \<Rightarrow> (spi \<times> ('h, 'a, 'f) platform) action" where
  "spi_init hal made h a = chain [
     on_device spi_id_init,
     spi_clock_init,
     (\<lambda>s. on_platform (pf_gpio_init (sp_mosi (fst s))) s),
     (\<lambda>s. on_platform (pf_gpio_init (sp_miso (fst s))) s),
     (\<lambda>s. on_platform (pf_gpio_init (sp_sck (fst s))) s),
     spi_dma_setup (hal 0) (hal 1) h a,
     hal_call (hal 2),
     (\<lambda>s. on_platform (pf_irq_init (sp_id (fst s)) (sp_irq_priority (fst s)) (h spi_handler_isr) a) s),
     (\<lambda>s. on_platform (pf_irq_enable (sp_id (fst s))) s),
     create (made 0) (\<lambda>c. c \<lparr> sp_mutex := None \<rparr>),
     create (made 1) (\<lambda>c. c \<lparr> sp_cs_mutex := None \<rparr>),
     create (made 2) (\<lambda>c. c \<lparr> sp_sem := False \<rparr>)]"

text \<open>\<open>sw_env k\<close> is the environment of the k-th transfer, \<open>sw_calls\<close> counts them.\<close>

record 'd spi_world =
  sw_spi :: spi
  sw_hw :: gpio_hw
  sw_env :: "nat \<Rightarrow> bus_env"
  sw_calls :: nat
  sw_dev :: 'd

text \<open>The answer of the chips to the bytes they are sent, with the pins as they are.\<close>

type_synonym 'd spi_chips = "gpio_hw \<Rightarrow> u8 list \<Rightarrow> 'd \<Rightarrow> u8 list \<times> 'd"

definition spi_chip_select :: "task \<Rightarrow> gpio \<Rightarrow> 'd spi_world \<Rightarrow> 'd spi_world option" where
  "spi_chip_select me cs w = do {
     m \<leftarrow> mutex_take_forever me (be_released (sw_env w (sw_calls w))) (sp_cs_mutex (sw_spi w));
     Some (w \<lparr> sw_spi := (sw_spi w) \<lparr> sp_cs_mutex := m \<rparr>, sw_hw := gpio_reset cs (sw_hw w) \<rparr>)
   }"

definition spi_chip_deselect :: "task \<Rightarrow> gpio \<Rightarrow> 'd spi_world \<Rightarrow> 'd spi_world option" where
  "spi_chip_deselect me cs w = (let w = w \<lparr> sw_hw := gpio_set cs (sw_hw w) \<rparr> in do {
     m \<leftarrow> mutex_give me (sp_cs_mutex (sw_spi w));
     Some (w \<lparr> sw_spi := (sw_spi w) \<lparr> sp_cs_mutex := m \<rparr> \<rparr>)
   })"

definition spi_it_handler :: "bool \<Rightarrow> spi \<Rightarrow> spi" where
  "spi_it_handler ready s = (if ready then s \<lparr> sp_sem := True \<rparr> else s)"

text \<open>What the three transfers share: the mutex, the semaphore, the state, and the bytes on the bus. The result
  has the bytes the chips have answered.\<close>

definition spi_transfer ::
    "'d spi_chips \<Rightarrow> task \<Rightarrow> spi_state \<Rightarrow> u8 list \<Rightarrow> 'd spi_world \<Rightarrow> (init_result \<times> u8 list \<times> 'd spi_world) option" where
  "spi_transfer chips me st out w =
     (let e = sw_env w (sw_calls w); s = sw_spi w; w = w \<lparr> sw_calls := Suc (sw_calls w) \<rparr> in
      case mutex_take me (be_released e) (sp_mutex s) of (ok, m) \<Rightarrow>
        if \<not> ok then Some (Errno ETIMEDOUT, [], w)
        else (let
          s = s \<lparr> sp_mutex := m, sp_sem := False, sp_state := st \<rparr>;
          (bytes, d) = (if moved e (length out) = 0 then ([], sw_dev w) else chips (sw_hw w) (take (moved e (length out)) out) (sw_dev w));
          s = (if be_start e = 0 then (spi_it_handler (be_done e) s) \<lparr> sp_sem := False \<rparr> else s)
          in do {
            m \<leftarrow> mutex_give me (sp_mutex s);
            Some (bus_result e, take (moved e (length out)) bytes, w \<lparr> sw_spi := s \<lparr> sp_state := SPI_FREE, sp_mutex := m \<rparr>, sw_dev := d \<rparr>)
          }))"

definition spi_transmit ::
    "'d spi_chips \<Rightarrow> task \<Rightarrow> u8 list option \<Rightarrow> u16 \<Rightarrow> 'd spi_world \<Rightarrow> (init_result \<times> 'd spi_world) option" where
  "spi_transmit chips me pdata n w =
     (case pdata of None \<Rightarrow> Some (Errno EINVAL, w)
      | Some data \<Rightarrow>
        if n = 0 then Some (Errno EINVAL, w)
        else if length data < unat n then None
        else map_option (\<lambda>(rv, bytes, w). (rv, w)) (spi_transfer chips me SPI_TRANSMIT (take (unat n) data) w))"

text \<open>The library sends the receive buffer itself while it receives.\<close>

definition spi_receive ::
    "'d spi_chips \<Rightarrow> task \<Rightarrow> u8 list option \<Rightarrow> u16 \<Rightarrow> 'd spi_world \<Rightarrow> (init_result \<times> u8 list option \<times> 'd spi_world) option" where
  "spi_receive chips me pdata n w =
     (case pdata of None \<Rightarrow> Some (Errno EINVAL, None, w)
      | Some data \<Rightarrow>
        if n = 0 then Some (Errno EINVAL, Some data, w)
        else if length data < unat n then None
        else do {
          (rv, bytes, w) \<leftarrow> spi_transfer chips me SPI_RECEIVE (take (unat n) data) w;
          buf \<leftarrow> received bytes data;
          Some (rv, Some buf, w)
        })"

definition spi_transmit_receive ::
    "'d spi_chips \<Rightarrow> task \<Rightarrow> u8 list option \<Rightarrow> u8 list option \<Rightarrow> u16 \<Rightarrow> 'd spi_world \<Rightarrow> (init_result \<times> u8 list option \<times> 'd spi_world) option" where
  "spi_transmit_receive chips me tdata rdata n w =
     (case (tdata, rdata) of
        (Some out, Some buf) \<Rightarrow>
          if n = 0 then Some (Errno EINVAL, rdata, w)
          else if length out < unat n \<or> length buf < unat n then None
          else do {
            (rv, bytes, w) \<leftarrow> spi_transfer chips me SPI_TRANSMIT_RECEIVE (take (unat n) out) w;
            buf \<leftarrow> received bytes buf;
            Some (rv, Some buf, w)
          }
      | _ \<Rightarrow> Some (Errno EINVAL, rdata, w))"

section \<open>I2C (i2c.c)\<close>

datatype i2c_instance = I2C1 | I2C2 | I2C3 | I2C4 | Other_i2c nat
datatype i2c_state = I2C_FREE | I2C_TRANSMIT | I2C_RECEIVE
datatype i2c_isr = i2c_ev_handler_isr | i2c_er_handler_isr | i2c_dma_tx_handler | i2c_dma_rx_handler

record i2c =
  ic_instance :: i2c_instance
  ic_sda :: "gpio option"
  ic_scl :: "gpio option"
  ic_dma_tx :: "(dma_stream \<times> int) option"
  ic_dma_rx :: "(dma_stream \<times> int) option"
  ic_irq_priority :: int
  ic_ev_id :: nat
  ic_er_id :: nat
  ic_sem :: bool
  ic_mutex :: mutex
  ic_cs_mutex :: mutex
  ic_state :: i2c_state

definition i2c_id_init :: "i2c \<Rightarrow> init_result \<times> i2c" where
  "i2c_id_init c = (case ic_instance c of
      I2C1 \<Rightarrow> (Errno EOK, c \<lparr> ic_ev_id := 31, ic_er_id := 32 \<rparr>)
    | I2C2 \<Rightarrow> (Errno EOK, c \<lparr> ic_ev_id := 33, ic_er_id := 34 \<rparr>)
    | I2C3 \<Rightarrow> (Errno EOK, c \<lparr> ic_ev_id := 72, ic_er_id := 73 \<rparr>)
    | I2C4 \<Rightarrow> (Errno EOK, c \<lparr> ic_ev_id := 95, ic_er_id := 96 \<rparr>)
    | Other_i2c _ \<Rightarrow> (Errno EINVAL, c))"

definition i2c_clock_init :: "(i2c \<times> ('h, 'a, 'f) platform) action" where
  "i2c_clock_init s =
     (if ic_ev_id (fst s) \<in> {31, 33, 72, 95} then on_platform (pf_bus_on (ic_ev_id (fst s))) s else Some (Errno EINVAL, s))"

definition i2c_dma_setup :: "int \<Rightarrow> int \<Rightarrow> (i2c_isr \<Rightarrow> 'h) \<Rightarrow> 'a \<Rightarrow> (i2c \<times> ('h, 'a, 'f) platform) action" where
  "i2c_dma_setup hal_tx hal_rx h a s =
     (case (ic_dma_tx (fst s), ic_dma_rx (fst s)) of
        (Some tx, Some rx) \<Rightarrow>
          chain [on_platform (pf_dma_init tx hal_tx (h i2c_dma_tx_handler) a), on_platform (pf_dma_init rx hal_rx (h i2c_dma_rx_handler) a)] s
      | _ \<Rightarrow> Some (Errno EOK, s))"

definition i2c_init ::
    "(nat \<Rightarrow> int) \<Rightarrow> (nat \<Rightarrow> bool) \<Rightarrow> (i2c_isr \<Rightarrow> 'h) \<Rightarrow> 'a \<Rightarrow> (i2c \<times> ('h, 'a, 'f) platform) action" where
  "i2c_init hal made h a = chain [
     on_device i2c_id_init,
     i2c_clock_init,
     (\<lambda>s. on_platform (pf_gpio_init (ic_sda (fst s))) s),
     (\<lambda>s. on_platform (pf_gpio_init (ic_scl (fst s))) s),
     i2c_dma_setup (hal 0) (hal 1) h a,
     hal_call (hal 2),
     hal_call (hal 3),
     hal_call (hal 4),
     (\<lambda>s. on_platform (pf_irq_init (ic_ev_id (fst s)) (ic_irq_priority (fst s)) (h i2c_ev_handler_isr) a) s),
     (\<lambda>s. on_platform (pf_irq_init (ic_er_id (fst s)) (ic_irq_priority (fst s)) (h i2c_er_handler_isr) a) s),
     (\<lambda>s. on_platform (pf_irq_enable (ic_ev_id (fst s))) s),
     (\<lambda>s. on_platform (pf_irq_enable (ic_er_id (fst s))) s),
     create (made 0) (\<lambda>c. c \<lparr> ic_mutex := None \<rparr>),
     create (made 1) (\<lambda>c. c \<lparr> ic_cs_mutex := None \<rparr>),
     create (made 2) (\<lambda>c. c \<lparr> ic_sem := False \<rparr>)]"

record 'd i2c_world =
  iw_i2c :: i2c
  iw_env :: "nat \<Rightarrow> bus_env"
  iw_calls :: nat
  iw_dev :: 'd

text \<open>The chips take the bytes sent to an address and answer a number of bytes from an address.\<close>

record 'd i2c_chips =
  chip_write :: "u8 \<Rightarrow> u8 list \<Rightarrow> 'd \<Rightarrow> 'd"
  chip_read :: "u8 \<Rightarrow> nat \<Rightarrow> 'd \<Rightarrow> u8 list \<times> 'd"

definition i2c_ev_handler :: "bool \<Rightarrow> i2c \<Rightarrow> i2c" where
  "i2c_ev_handler ready s = (if ready then s \<lparr> ic_sem := True \<rparr> else s)"

text \<open>What the two transfers share; \<open>f n\<close> moves \<open>n\<close> bytes.\<close>

definition i2c_transfer ::
    "(nat \<Rightarrow> 'd \<Rightarrow> u8 list \<times> 'd) \<Rightarrow> task \<Rightarrow> i2c_state \<Rightarrow> nat \<Rightarrow> 'd i2c_world \<Rightarrow> (init_result \<times> u8 list \<times> 'd i2c_world) option" where
  "i2c_transfer f me st n w =
     (let e = iw_env w (iw_calls w); s = iw_i2c w; w = w \<lparr> iw_calls := Suc (iw_calls w) \<rparr> in
      case mutex_take me (be_released e) (ic_mutex s) of (ok, m) \<Rightarrow>
        if \<not> ok then Some (Errno ETIMEDOUT, [], w)
        else (let
          s = s \<lparr> ic_mutex := m, ic_sem := False, ic_state := st \<rparr>;
          (bytes, d) = (if moved e n = 0 then ([], iw_dev w) else f (moved e n) (iw_dev w));
          s = (if be_start e = 0 then (i2c_ev_handler (be_done e) s) \<lparr> ic_sem := False \<rparr> else s)
          in do {
            m \<leftarrow> mutex_give me (ic_mutex s);
            Some (bus_result e, take (moved e n) bytes, w \<lparr> iw_i2c := s \<lparr> ic_state := I2C_FREE, ic_mutex := m \<rparr>, iw_dev := d \<rparr>)
          }))"

definition i2c_transmit ::
    "'d i2c_chips \<Rightarrow> task \<Rightarrow> u8 \<Rightarrow> u8 list option \<Rightarrow> u16 \<Rightarrow> 'd i2c_world \<Rightarrow> (init_result \<times> 'd i2c_world) option" where
  "i2c_transmit chips me address pdata n w =
     (if n = 0 then Some (Errno EINVAL, w)
      else (case pdata of None \<Rightarrow> Some (Errno EINVAL, w)
        | Some data \<Rightarrow>
          if length data < unat n then None
          else map_option (\<lambda>(rv, bytes, w). (rv, w))
            (i2c_transfer (\<lambda>k d. ([], chip_write chips address (take k data) d)) me I2C_TRANSMIT (unat n) w)))"

definition i2c_receive ::
    "'d i2c_chips \<Rightarrow> task \<Rightarrow> u8 \<Rightarrow> u8 list option \<Rightarrow> u16 \<Rightarrow> 'd i2c_world \<Rightarrow> (init_result \<times> u8 list option \<times> 'd i2c_world) option" where
  "i2c_receive chips me address pdata n w =
     (if n = 0 then Some (Errno EINVAL, pdata, w)
      else (case pdata of None \<Rightarrow> Some (Errno EINVAL, None, w)
        | Some data \<Rightarrow>
          if length data < unat n then None
          else do {
            (rv, bytes, w) \<leftarrow> i2c_transfer (chip_read chips address) me I2C_RECEIVE (unat n) w;
            buf \<leftarrow> received bytes data;
            Some (rv, Some buf, w)
          }))"

end
