(* ===== verification/RegChip.thy ===== *)
theory RegChip
  imports Bus
begin

text \<open>
  Sensors as files of registers. The drivers of the sensors (bsp/ics/ist8310, bsp/ics/icm20602) contain
  the same routines on top of their own register accesses: setting and clearing bits of a register, and
  configuring the chip from a table and checking the result. The routines are defined once, over the accesses; what
  they achieve is proved once, in a locale for chips whose registers can be read and written.
\<close>

section \<open>The routines\<close>

type_synonym 's reg_read = "u8 \<Rightarrow> 's \<Rightarrow> (u8 \<times> 's) option"
type_synonym 's reg_write = "u8 \<Rightarrow> u8 \<Rightarrow> 's \<Rightarrow> 's option"

record reg_cfg =
  rc_reg :: u8
  rc_setbits :: u8
  rc_clearbits :: u8

definition set_clear_reg :: "'s reg_read \<Rightarrow> 's reg_write \<Rightarrow> u8 \<Rightarrow> u8 \<Rightarrow> u8 \<Rightarrow> 's \<Rightarrow> 's option" where
  "set_clear_reg rd wr reg setbits clearbits s = do {
     (orig_val, s) \<leftarrow> rd reg s;
     let val = (orig_val AND NOT clearbits) OR setbits;
     if orig_val \<noteq> val then wr reg val s else Some s
   }"

text \<open>The two loops of the configuration: write the table, then check every entry.\<close>

fun cfg_write :: "'s reg_read \<Rightarrow> 's reg_write \<Rightarrow> reg_cfg list \<Rightarrow> 's \<Rightarrow> 's option" where
  "cfg_write rd wr [] s = Some s"
| "cfg_write rd wr (c # cs) s = do {
     s \<leftarrow> set_clear_reg rd wr (rc_reg c) (rc_setbits c) (rc_clearbits c) s;
     cfg_write rd wr cs s
   }"

definition cfg_entry_ok :: "u8 \<Rightarrow> reg_cfg \<Rightarrow> bool" where
  "cfg_entry_ok v c \<longleftrightarrow> v AND rc_setbits c = rc_setbits c \<and> v AND rc_clearbits c = 0"

fun cfg_check :: "'s reg_read \<Rightarrow> reg_cfg list \<Rightarrow> bool \<Rightarrow> 's \<Rightarrow> (bool \<times> 's) option" where
  "cfg_check rd [] rv s = Some (rv, s)"
| "cfg_check rd (c # cs) rv s = do {
     (orig_val, s) \<leftarrow> rd (rc_reg c) s;
     cfg_check rd cs (if cfg_entry_ok orig_val c then rv else False) s
   }"

definition reg_configure :: "'s reg_read \<Rightarrow> 's reg_write \<Rightarrow> reg_cfg list \<Rightarrow> 's \<Rightarrow> (bool \<times> 's) option" where
  "reg_configure rd wr cfg s = do {
     s \<leftarrow> cfg_write rd wr cfg s;
     cfg_check rd cfg True s
   }"

section \<open>Chips\<close>

text \<open>A chip: \<open>regs\<close> are its registers, \<open>ok\<close> says that it can be reached, and \<open>put r old v\<close> is what the
  register \<open>r\<close> holds after a write of \<open>v\<close> over \<open>old\<close>: bits may be read-only or clear themselves.\<close>

definition updated :: "(u8 \<Rightarrow> u8 \<Rightarrow> u8 \<Rightarrow> u8) \<Rightarrow> reg_cfg \<Rightarrow> u8 \<Rightarrow> u8" where
  "updated put c old = (let v = (old AND NOT (rc_clearbits c)) OR rc_setbits c in if old \<noteq> v then put (rc_reg c) old v else old)"

locale reg_chip =
  fixes rd :: "'s reg_read" and wr :: "'s reg_write" and regs :: "'s \<Rightarrow> u8 \<Rightarrow> u8" and ok :: "'s \<Rightarrow> bool"
    and put :: "u8 \<Rightarrow> u8 \<Rightarrow> u8 \<Rightarrow> u8" and valid :: "u8 \<Rightarrow> bool"
  assumes rd_law: "ok s \<Longrightarrow> valid r \<Longrightarrow> \<exists>s'. rd r s = Some (regs s r, s') \<and> ok s' \<and> regs s' = regs s"
    and wr_law: "ok s \<Longrightarrow> valid r \<Longrightarrow> \<exists>s'. wr r v s = Some s' \<and> ok s' \<and> regs s' = (regs s)(r := put r (regs s r) v)"
begin

lemma set_clear_law:
  assumes "ok s" and "valid (rc_reg c)"
  shows "\<exists>s'. set_clear_reg rd wr (rc_reg c) (rc_setbits c) (rc_clearbits c) s = Some s' \<and> ok s' \<and>
     regs s' = (regs s)(rc_reg c := updated put c (regs s (rc_reg c)))"
proof -
  obtain s1 where 1: "rd (rc_reg c) s = Some (regs s (rc_reg c), s1)" "ok s1" "regs s1 = regs s"
    using rd_law [OF assms] by blast
  obtain s2 where "wr (rc_reg c) ((regs s (rc_reg c) AND NOT (rc_clearbits c)) OR rc_setbits c) s1 = Some s2" "ok s2"
      "regs s2 = (regs s1)(rc_reg c := put (rc_reg c) (regs s1 (rc_reg c)) ((regs s (rc_reg c) AND NOT (rc_clearbits c)) OR rc_setbits c))"
    using wr_law [OF 1(2) assms(2)] by blast
  then show ?thesis
    using 1 by (auto simp: set_clear_reg_def updated_def Let_def)
qed

lemma cfg_write_law:
  assumes "ok s" and "\<forall>c \<in> set cfg. valid (rc_reg c)" and "distinct (map rc_reg cfg)"
  shows "\<exists>s'. cfg_write rd wr cfg s = Some s' \<and> ok s' \<and>
     (\<forall>c \<in> set cfg. regs s' (rc_reg c) = updated put c (regs s (rc_reg c))) \<and>
     (\<forall>r. r \<notin> rc_reg ` set cfg \<longrightarrow> regs s' r = regs s r)"
  using assms
proof (induction cfg arbitrary: s)
  case (Cons c cs)
  obtain s1 where 1: "set_clear_reg rd wr (rc_reg c) (rc_setbits c) (rc_clearbits c) s = Some s1" "ok s1"
      "regs s1 = (regs s)(rc_reg c := updated put c (regs s (rc_reg c)))"
    using set_clear_law [of s c] Cons.prems by auto
  obtain s' where 2: "cfg_write rd wr cs s1 = Some s'" "ok s'" "\<forall>d \<in> set cs. regs s' (rc_reg d) = updated put d (regs s1 (rc_reg d))"
      "\<forall>r. r \<notin> rc_reg ` set cs \<longrightarrow> regs s' r = regs s1 r"
    using Cons.IH [OF 1(2)] Cons.prems by auto
  have new: "rc_reg c \<notin> rc_reg ` set cs"
    using Cons.prems(3) by simp
  have other: "rc_reg d \<noteq> rc_reg c" if "d \<in> set cs" for d
    using that new by (metis imageI)
  show ?case
    using 1 2 other new by auto
qed simp

lemma cfg_check_law:
  assumes "ok s" and "\<forall>c \<in> set cfg. valid (rc_reg c)"
  shows "\<exists>s'. cfg_check rd cfg rv s = Some (rv \<and> (\<forall>c \<in> set cfg. cfg_entry_ok (regs s (rc_reg c)) c), s') \<and> ok s' \<and> regs s' = regs s"
  using assms
proof (induction cfg arbitrary: s rv)
  case (Cons c cs)
  obtain s1 where 1: "rd (rc_reg c) s = Some (regs s (rc_reg c), s1)" "ok s1" "regs s1 = regs s"
    using rd_law [of s "rc_reg c"] Cons.prems by auto
  show ?case
    using Cons.IH [OF 1(2), of "if cfg_entry_ok (regs s (rc_reg c)) c then rv else False"] Cons.prems 1 by auto
qed simp

text \<open>The configuration returns true exactly when the registers of the table have taken the bits, and then they have them.\<close>

lemma configure_law:
  assumes "ok s" and "\<forall>c \<in> set cfg. valid (rc_reg c)" and "distinct (map rc_reg cfg)"
  shows "\<exists>s'. reg_configure rd wr cfg s = Some (\<forall>c \<in> set cfg. cfg_entry_ok (regs s' (rc_reg c)) c, s') \<and> ok s' \<and>
     (\<forall>c \<in> set cfg. regs s' (rc_reg c) = updated put c (regs s (rc_reg c))) \<and>
     (\<forall>r. r \<notin> rc_reg ` set cfg \<longrightarrow> regs s' r = regs s r)"
proof -
  obtain s1 where 1: "cfg_write rd wr cfg s = Some s1" "ok s1" "\<forall>c \<in> set cfg. regs s1 (rc_reg c) = updated put c (regs s (rc_reg c))"
      "\<forall>r. r \<notin> rc_reg ` set cfg \<longrightarrow> regs s1 r = regs s r"
    using cfg_write_law [OF assms] by blast
  obtain s2 where "cfg_check rd cfg True s1 = Some (True \<and> (\<forall>c \<in> set cfg. cfg_entry_ok (regs s1 (rc_reg c)) c), s2)" "ok s2" "regs s2 = regs s1"
    using cfg_check_law [OF 1(2) assms(2), of True] by blast
  then show ?thesis
    using 1 by (auto simp: reg_configure_def)
qed

text \<open>A register that keeps what is written takes its bits, when none is both set and cleared.\<close>

lemma bits_taken: "s AND c = 0 \<Longrightarrow> ((old AND NOT c) OR s) AND s = s \<and> ((old AND NOT c) OR s) AND c = 0" for old s c :: u8
proof -
  assume "s AND c = 0"
  then have *: "\<not> (bit s n \<and> bit c n)" for n
    by (metis bit_and_iff bit_0_eq bot_apply bot_bool_def)
  show ?thesis
    using * by (intro conjI bit_word_eqI) (auto simp: bit_simps)
qed

lemma updated_ok:
  assumes "\<And>old v. put (rc_reg c) old v = v" and "rc_setbits c AND rc_clearbits c = 0"
  shows "cfg_entry_ok (updated put c old) c"
proof -
  have "updated put c old = (old AND NOT (rc_clearbits c)) OR rc_setbits c"
    using assms(1) by (simp add: updated_def Let_def)
  then show ?thesis
    using bits_taken [OF assms(2)] by (simp add: cfg_entry_ok_def)
qed

end

section \<open>A chip as data sheets describe it\<close>

text \<open>A register pointer and the registers. Access moves the pointer on.\<close>

record reg_dev =
  rd_ptr :: u8
  rd_regs :: "u8 \<Rightarrow> u8"

fun reg_store :: "(u8 \<Rightarrow> u8 \<Rightarrow> u8 \<Rightarrow> u8) \<Rightarrow> u8 \<Rightarrow> u8 list \<Rightarrow> (u8 \<Rightarrow> u8) \<Rightarrow> u8 \<Rightarrow> u8" where
  "reg_store put r [] f = f"
| "reg_store put r (v # vs) f = reg_store put (r + 1) vs (f(r := put r (f r) v))"

definition reg_fetch :: "(u8 \<Rightarrow> u8) \<Rightarrow> u8 \<Rightarrow> nat \<Rightarrow> u8 list" where
  "reg_fetch f r n = map (\<lambda>i. f (r + word_of_nat i)) [0..<n]"

lemma reg_fetch_length [simp]: "length (reg_fetch f r n) = n"
  by (simp add: reg_fetch_def)

lemma reg_fetch_nth [simp]: "i < n \<Longrightarrow> reg_fetch f r n ! i = f (r + word_of_nat i)"
  by (simp add: reg_fetch_def)

lemma reg_fetch_one [simp]: "reg_fetch f r (Suc 0) = [f r]"
  by (simp add: reg_fetch_def)

text \<open>On I2C: the first byte written is the pointer, the others go to the registers; reads go on from the pointer.\<close>

definition reg_i2c_chips :: "(u8 \<Rightarrow> u8 \<Rightarrow> u8 \<Rightarrow> u8) \<Rightarrow> reg_dev i2c_chips" where
  "reg_i2c_chips put = \<lparr>
     chip_write = (\<lambda>a bs d. case bs of [] \<Rightarrow> d
       | r # vs \<Rightarrow> d \<lparr> rd_ptr := r + word_of_nat (length vs), rd_regs := reg_store put r vs (rd_regs d) \<rparr>),
     chip_read = (\<lambda>a n d. (reg_fetch (rd_regs d) (rd_ptr d) n, d \<lparr> rd_ptr := rd_ptr d + word_of_nat n \<rparr>)) \<rparr>"

text \<open>On SPI, with the chip selected by the low level of \<open>cs\<close>: the first byte is the register, its highest bit tells a read;
  the bytes behind it are read or written from there on.\<close>

definition reg_spi_chips :: "gpio \<Rightarrow> (u8 \<Rightarrow> u8 \<Rightarrow> u8 \<Rightarrow> u8) \<Rightarrow> reg_dev spi_chips" where
  "reg_spi_chips cs put hw bs d =
     (if gh_level hw cs then (replicate (length bs) 0xFF, d)
      else (case bs of [] \<Rightarrow> ([], d)
        | b # vs \<Rightarrow>
          if b AND 0x80 \<noteq> 0 then (0 # reg_fetch (rd_regs d) (b AND 0x7F) (length vs), d)
          else (replicate (length bs) 0, d \<lparr> rd_regs := reg_store put b vs (rd_regs d) \<rparr>)))"

text \<open>Transfers that all succeed.\<close>

definition bus_fine :: "(nat \<Rightarrow> bus_env) \<Rightarrow> bool" where
  "bus_fine env \<longleftrightarrow> (\<forall>k. be_start (env k) = 0 \<and> be_done (env k))"

lemma bus_fine_moved: "bus_fine env \<Longrightarrow> moved (env k) n = n" "bus_fine env \<Longrightarrow> bus_result (env k) = Hal 0"
  by (simp_all add: bus_fine_def moved_def bus_result_def)

definition i2c_fine :: "'d i2c_world \<Rightarrow> bool" where
  "i2c_fine w \<longleftrightarrow> bus_fine (iw_env w) \<and> ic_mutex (iw_i2c w) = None"

definition spi_fine :: "'d spi_world \<Rightarrow> bool" where
  "spi_fine w \<longleftrightarrow> bus_fine (sw_env w) \<and> sp_mutex (sw_spi w) = None \<and> sp_cs_mutex (sw_spi w) = None"

lemma i2c_transfer_fine:
  assumes "i2c_fine w" and "n \<noteq> 0" and "f n (iw_dev w) = (bytes, d)" and "length bytes \<le> n"
  shows "\<exists>w'. i2c_transfer f me st n w = Some (Hal 0, bytes, w') \<and> i2c_fine w' \<and> iw_dev w' = d"
  using assms by (simp add: i2c_transfer_def i2c_fine_def bus_fine_moved Let_def bus_fine_def i2c_ev_handler_def)

lemma spi_transfer_fine:
  assumes "spi_fine w \<or> bus_fine (sw_env w) \<and> sp_mutex (sw_spi w) = None" and "out \<noteq> []"
    and "chips (sw_hw w) out (sw_dev w) = (bytes, d)" and "length bytes \<le> length out"
  shows "\<exists>w'. spi_transfer chips me st out w = Some (Hal 0, bytes, w') \<and> sw_dev w' = d \<and> sw_env w' = sw_env w \<and> sw_hw w' = sw_hw w \<and>
     sp_mutex (sw_spi w') = None \<and> sp_cs_mutex (sw_spi w') = sp_cs_mutex (sw_spi w)"
proof -
  have "bus_fine (sw_env w)" and "sp_mutex (sw_spi w) = None"
    using assms(1) by (auto simp: spi_fine_def)
  then show ?thesis
    using assms(2-4) by (simp add: spi_transfer_def bus_fine_moved Let_def bus_fine_def spi_it_handler_def)
qed

text \<open>A transfer between select and deselect.\<close>

lemma spi_framed_fine:
  assumes "spi_fine w" and "out \<noteq> []" and "chips (gpio_reset cs (sw_hw w)) out (sw_dev w) = (bytes, d)" and "length bytes \<le> length out"
  shows "\<exists>w1 w2 w'. spi_chip_select me cs w = Some w1 \<and> spi_transfer chips me st out w1 = Some (Hal 0, bytes, w2) \<and>
     spi_chip_deselect me cs w2 = Some w' \<and> spi_fine w' \<and> sw_dev w' = d"
proof -
  let ?w = "w \<lparr> sw_spi := (sw_spi w) \<lparr> sp_cs_mutex := Some me \<rparr>, sw_hw := gpio_reset cs (sw_hw w) \<rparr>"
  have fine: "bus_fine (sw_env w)" "sp_mutex (sw_spi w) = None" "sp_cs_mutex (sw_spi w) = None"
    using assms(1) by (auto simp: spi_fine_def)
  have chosen: "bus_fine (sw_env ?w) \<and> sp_mutex (sw_spi ?w) = None" "chips (sw_hw ?w) out (sw_dev ?w) = (bytes, d)"
    using fine assms(3) by simp_all
  obtain w2 where w2: "spi_transfer chips me st out ?w = Some (Hal 0, bytes, w2)" "sw_dev w2 = d" "sw_env w2 = sw_env ?w"
      "sp_mutex (sw_spi w2) = None" "sp_cs_mutex (sw_spi w2) = sp_cs_mutex (sw_spi ?w)"
    using spi_transfer_fine [where w = ?w and chips = chips and me = me and st = st, OF disjI2 [OF chosen(1)] assms(2) chosen(2) assms(4)] by blast
  have "spi_chip_select me cs w = Some ?w"
    using fine by (simp add: spi_chip_select_def)
  moreover have "\<exists>w'. spi_chip_deselect me cs w2 = Some w' \<and> spi_fine w' \<and> sw_dev w' = d"
    using w2 fine by (simp add: spi_chip_deselect_def spi_fine_def)
  ultimately show ?thesis
    using w2(1) by blast
qed

end
