(* ===== verification/Ist8310.thy ===== *)
theory Ist8310
  imports RegChip Bits
begin

text \<open>
  The magnetometer (bsp/ics/ist8310/ist8310.c) on its I2C bus: register accesses, configuration, the state machine
  that a service runs every period, and the measurements, as the signed counts that the code
  multiplies with its scale. Its routines return nothing to the caller when the bus fails, so the
  state machine works with what is in the buffer then.
\<close>

section \<open>Registers\<close>

definition IST_DEVICE_ID :: u8 where "IST_DEVICE_ID = 0x10"
definition IST_WHO_AM_I :: u8 where "IST_WHO_AM_I = 0x00"
definition IST_STAT1 :: u8 where "IST_STAT1 = 0x02"
definition IST_CNTL1 :: u8 where "IST_CNTL1 = 0x0A"
definition IST_CNTL2 :: u8 where "IST_CNTL2 = 0x0B"
definition IST_SRST :: u8 where "IST_SRST = 0x01"
definition IST_DRDY :: u8 where "IST_DRDY = 0x01"
definition IST_SINGLE_MEAS :: u8 where "IST_SINGLE_MEAS = 0x01"

text \<open>The address byte for a read and for a write.\<close>

definition IST_READ_ADDRESS :: u8 where "IST_READ_ADDRESS = push_bit 1 0x0E OR 0x01"
definition IST_WRITE_ADDRESS :: u8 where "IST_WRITE_ADDRESS = push_bit 1 0x0E OR 0x00"

definition ist8310_reg_cfg :: "reg_cfg list" where
  "ist8310_reg_cfg = [
     \<lparr> rc_reg = 0x0B, rc_setbits = 0, rc_clearbits = 0x01 \<rparr>,
     \<lparr> rc_reg = 0x0D, rc_setbits = 0x70, rc_clearbits = 0 \<rparr>,
     \<lparr> rc_reg = 0x41, rc_setbits = 0x24, rc_clearbits = 0x1B \<rparr>,
     \<lparr> rc_reg = 0x42, rc_setbits = 0xC0, rc_clearbits = 0 \<rparr>]"

section \<open>State and operations\<close>

datatype ist8310_state = IST8310_RESET | IST8310_RESET_WAIT | IST8310_CONF | IST8310_MEAS | IST8310_READ | IST8310_FAIL

record ist8310 =
  is_state :: ist8310_state
  is_attempt :: u8
  is_raw :: "u8 list"  \<comment> \<open>STAT1 and the six bytes of data\<close>
  is_meas :: "int \<times> int \<times> int"
  is_scaled :: bool  \<comment> \<open>the scale has been set\<close>
  is_measrdy_sem :: bool
  is_mutex :: mutex
  is_deleted :: bool  \<comment> \<open>the task has deleted itself\<close>

text \<open>The register number and the value share the buffer: when the reception fails the result is the
  register number.\<close>

definition ist8310_read_reg :: "'d i2c_chips \<Rightarrow> task \<Rightarrow> 'd i2c_world reg_read" where
  "ist8310_read_reg chips me reg w = do {
     (rv, w) \<leftarrow> i2c_transmit chips me IST_READ_ADDRESS (Some [reg]) 1 w;
     (rv, buf, w) \<leftarrow> i2c_receive chips me IST_READ_ADDRESS (Some [reg]) 1 w;
     b \<leftarrow> buf;
     v \<leftarrow> arr_get b 0;
     Some (v, w)
   }"

definition ist8310_write_reg :: "'d i2c_chips \<Rightarrow> task \<Rightarrow> 'd i2c_world reg_write" where
  "ist8310_write_reg chips me reg v w = map_option snd (i2c_transmit chips me IST_WRITE_ADDRESS (Some [reg, v]) 2 w)"

definition ist8310_read_meas :: "'d i2c_chips \<Rightarrow> task \<Rightarrow> ist8310 \<times> 'd i2c_world \<Rightarrow> (ist8310 \<times> 'd i2c_world) option" where
  "ist8310_read_meas chips me s = (case s of (dev, w) \<Rightarrow> do {
     (rv, w) \<leftarrow> i2c_transmit chips me IST_READ_ADDRESS (Some [IST_STAT1]) 1 w;
     (rv, buf, w) \<leftarrow> i2c_receive chips me IST_READ_ADDRESS (Some (is_raw dev)) 7 w;
     b \<leftarrow> buf;
     Some (dev \<lparr> is_raw := b \<rparr>, w)
   })"

text \<open>Without the data-ready bit the measurement stays as it is.\<close>

definition ist8310_process_meas :: "ist8310 \<Rightarrow> int \<times> ist8310" where
  "ist8310_process_meas dev =
     (let raw = is_raw dev in
      if raw ! 0 AND IST_DRDY \<noteq> 0
      then (0, dev \<lparr> is_meas := (s_msb_lsb_16 (raw ! 2) (raw ! 1), s_msb_lsb_16 (raw ! 4) (raw ! 3), s_msb_lsb_16 (raw ! 6) (raw ! 5)) \<rparr>)
      else (- 1, dev))"

definition ist8310_set_clear_reg :: "'d i2c_chips \<Rightarrow> task \<Rightarrow> u8 \<Rightarrow> u8 \<Rightarrow> u8 \<Rightarrow> 'd i2c_world \<Rightarrow> 'd i2c_world option" where
  "ist8310_set_clear_reg chips me = set_clear_reg (ist8310_read_reg chips me) (ist8310_write_reg chips me)"

definition ist8310_configure :: "'d i2c_chips \<Rightarrow> task \<Rightarrow> ist8310 \<times> 'd i2c_world \<Rightarrow> (bool \<times> ist8310 \<times> 'd i2c_world) option" where
  "ist8310_configure chips me s = (case s of (dev, w) \<Rightarrow> do {
     (rv, w) \<leftarrow> reg_configure (ist8310_read_reg chips me) (ist8310_write_reg chips me) ist8310_reg_cfg w;
     Some (rv, dev \<lparr> is_scaled := True \<rparr>, w)
   })"

text \<open>One call of the state machine. The delays are left out.\<close>

definition ist8310_fsm :: "'d i2c_chips \<Rightarrow> task \<Rightarrow> ist8310 \<times> 'd i2c_world \<Rightarrow> (ist8310 \<times> 'd i2c_world) option" where
  "ist8310_fsm chips me s = (case s of (dev, w) \<Rightarrow>
     (case is_state dev of
        IST8310_RESET \<Rightarrow> do {
          w \<leftarrow> ist8310_write_reg chips me IST_CNTL2 IST_SRST w;
          Some (dev \<lparr> is_state := IST8310_RESET_WAIT \<rparr>, w)
        }
      | IST8310_RESET_WAIT \<Rightarrow> do {
          (v, w) \<leftarrow> ist8310_read_reg chips me IST_CNTL2 w;
          (who, w) \<leftarrow> ist8310_read_reg chips me IST_WHO_AM_I w;
          (good, w) \<leftarrow> (if who = IST_DEVICE_ID
             then map_option (\<lambda>(v, w). (v AND IST_SRST = 0, w)) (ist8310_read_reg chips me IST_CNTL2 w)
             else Some (False, w));
          if good then Some (dev \<lparr> is_state := IST8310_CONF \<rparr>, w)
          else (let dev = dev \<lparr> is_state := IST8310_RESET, is_attempt := is_attempt dev + 1 \<rparr> in
            if is_attempt dev > 5 then Some (dev \<lparr> is_state := IST8310_FAIL, is_attempt := 0 \<rparr>, w)
            else Some (dev, w))
        }
      | IST8310_CONF \<Rightarrow> do {
          (rv, dev, w) \<leftarrow> ist8310_configure chips me (dev, w);
          Some (dev \<lparr> is_state := (if rv then IST8310_MEAS else IST8310_RESET) \<rparr>, w)
        }
      | IST8310_MEAS \<Rightarrow> do {
          w \<leftarrow> ist8310_write_reg chips me IST_CNTL1 IST_SINGLE_MEAS w;
          Some (dev \<lparr> is_state := IST8310_READ \<rparr>, w)
        }
      | IST8310_READ \<Rightarrow> do {
          (dev, w) \<leftarrow> ist8310_read_meas chips me (dev, w);
          let dev = snd (ist8310_process_meas dev);
          w \<leftarrow> ist8310_write_reg chips me IST_CNTL1 IST_SINGLE_MEAS w;
          Some (dev \<lparr> is_measrdy_sem := True \<rparr>, w)
        }
      | IST8310_FAIL \<Rightarrow> Some (dev \<lparr> is_measrdy_sem := True, is_deleted := True \<rparr>, w)))"

text \<open>The periods of the service; a deleted task does nothing more.\<close>

definition ist8310_round :: "'d i2c_chips \<Rightarrow> task \<Rightarrow> ist8310 \<times> 'd i2c_world \<Rightarrow> (ist8310 \<times> 'd i2c_world) option" where
  "ist8310_round chips me s = (if is_deleted (fst s) then Some s else ist8310_fsm chips me s)"

fun ist8310_rounds :: "nat \<Rightarrow> 'd i2c_chips \<Rightarrow> task \<Rightarrow> ist8310 \<times> 'd i2c_world \<Rightarrow> (ist8310 \<times> 'd i2c_world) option" where
  "ist8310_rounds 0 chips me s = Some s"
| "ist8310_rounds (Suc n) chips me s = do { s \<leftarrow> ist8310_round chips me s; ist8310_rounds n chips me s }"

text \<open>The device that \<open>ist8310_start\<close> allocates; the call then waits for the semaphore without a limit.\<close>

definition ist8310_new :: ist8310 where
  "ist8310_new = \<lparr> is_state = IST8310_RESET, is_attempt = 0, is_raw = replicate 7 0, is_meas = (0, 0, 0), is_scaled = False,
     is_measrdy_sem = False, is_mutex = None, is_deleted = False \<rparr>"

text \<open>\<open>ist8310_start\<close> returns once the semaphore has been given in some period.\<close>

definition ist8310_start_returns :: "'d i2c_chips \<Rightarrow> task \<Rightarrow> 'd i2c_world \<Rightarrow> bool" where
  "ist8310_start_returns chips me w \<longleftrightarrow>
     (\<exists>n dev w'. ist8310_rounds n chips me (ist8310_new, w) = Some (dev, w') \<and> is_measrdy_sem dev)"

definition ist8310_get_meas_non_block :: "task \<Rightarrow> bool \<Rightarrow> ist8310 \<Rightarrow> ((int \<times> int \<times> int) \<times> ist8310) option" where
  "ist8310_get_meas_non_block me released dev = do {
     m \<leftarrow> mutex_take_forever me released (is_mutex dev);
     m \<leftarrow> mutex_give me m;
     Some (is_meas dev, dev \<lparr> is_mutex := m \<rparr>)
   }"

text \<open>Without the semaphore the call waits: None.\<close>

definition ist8310_get_meas_block :: "task \<Rightarrow> bool \<Rightarrow> ist8310 \<Rightarrow> ((int \<times> int \<times> int) \<times> ist8310) option" where
  "ist8310_get_meas_block me released dev =
     (if \<not> is_measrdy_sem dev then None else ist8310_get_meas_non_block me released (dev \<lparr> is_measrdy_sem := False \<rparr>))"

section \<open>The chip through the driver\<close>

definition ist_chip :: "(u8 \<Rightarrow> u8 \<Rightarrow> u8 \<Rightarrow> u8) \<Rightarrow> reg_dev i2c_chips" where
  "ist_chip put = reg_i2c_chips put"

definition ist_regs :: "reg_dev i2c_world \<Rightarrow> u8 \<Rightarrow> u8" where
  "ist_regs w = rd_regs (iw_dev w)"

lemma ist_transmit:
  assumes "i2c_fine w" and "data \<noteq> []" and "length data < 65536"
  shows "\<exists>w'. i2c_transmit (ist_chip put) me a (Some data) (word_of_nat (length data)) w = Some (Hal 0, w') \<and> i2c_fine w' \<and>
     rd_regs (iw_dev w') = reg_store put (hd data) (tl data) (ist_regs w) \<and>
     rd_ptr (iw_dev w') = hd data + word_of_nat (length (tl data))"
proof -
  have n: "unat (word_of_nat (length data) :: u16) = length data"
    using assms(3) by (simp add: unat_word_of_nat_less)
  then have n0: "(word_of_nat (length data) :: u16) \<noteq> 0"
    using assms(2) by (metis length_0_conv unat_0)
  let ?f = "\<lambda>k d. ([], chip_write (ist_chip put) a (take k data) d)"
  obtain w' where "i2c_transfer ?f me I2C_TRANSMIT (length data) w = Some (Hal 0, [], w')" "i2c_fine w'"
      "iw_dev w' = chip_write (ist_chip put) a data (iw_dev w)"
    using i2c_transfer_fine [OF assms(1), of "length data" ?f "[]" _ me I2C_TRANSMIT] assms(2) by force
  then show ?thesis
    using n n0 assms(2) by (cases data) (auto simp: i2c_transmit_def ist_chip_def reg_i2c_chips_def ist_regs_def)
qed

lemma ist_receive:
  assumes "i2c_fine w" and "buf \<noteq> []" and "length buf < 65536"
  shows "\<exists>w'. i2c_receive (ist_chip put) me a (Some buf) (word_of_nat (length buf)) w =
       Some (Hal 0, Some (reg_fetch (ist_regs w) (rd_ptr (iw_dev w)) (length buf)), w') \<and> i2c_fine w' \<and> ist_regs w' = ist_regs w"
proof -
  have n: "unat (word_of_nat (length buf) :: u16) = length buf"
    using assms(3) by (simp add: unat_word_of_nat_less)
  then have n0: "(word_of_nat (length buf) :: u16) \<noteq> 0"
    using assms(2) by (metis length_0_conv unat_0)
  obtain w' where "i2c_transfer (chip_read (ist_chip put) a) me I2C_RECEIVE (length buf) w =
      Some (Hal 0, reg_fetch (rd_regs (iw_dev w)) (rd_ptr (iw_dev w)) (length buf), w')" "i2c_fine w'"
      "iw_dev w' = (iw_dev w) \<lparr> rd_ptr := rd_ptr (iw_dev w) + word_of_nat (length buf) \<rparr>"
    using i2c_transfer_fine [OF assms(1), of "length buf" "chip_read (ist_chip put) a" _ _ me I2C_RECEIVE] assms(2)
    by (force simp: ist_chip_def reg_i2c_chips_def)
  then show ?thesis
    using n n0 by (auto simp: i2c_receive_def received_def memcpy_def ist_regs_def)
qed

interpretation ist: reg_chip "ist8310_read_reg (ist_chip put) me" "ist8310_write_reg (ist_chip put) me" ist_regs i2c_fine put "\<lambda>_. True"
  for put me
proof unfold_locales
  fix w :: "reg_dev i2c_world" and r v :: u8
  assume ok: "i2c_fine w"
  obtain w1 where 1: "i2c_transmit (ist_chip put) me IST_READ_ADDRESS (Some [r]) 1 w = Some (Hal 0, w1)" "i2c_fine w1"
      "rd_regs (iw_dev w1) = ist_regs w" "rd_ptr (iw_dev w1) = r"
    using ist_transmit [OF ok, of "[r]" put me IST_READ_ADDRESS] by auto
  obtain w2 where 2: "i2c_receive (ist_chip put) me IST_READ_ADDRESS (Some [r]) 1 w1 =
      Some (Hal 0, Some (reg_fetch (ist_regs w1) (rd_ptr (iw_dev w1)) 1), w2)" "i2c_fine w2" "ist_regs w2 = ist_regs w1"
    using ist_receive [OF 1(2), of "[r]" put me IST_READ_ADDRESS] by auto
  show "\<exists>s'. ist8310_read_reg (ist_chip put) me r w = Some (ist_regs w r, s') \<and> i2c_fine s' \<and> ist_regs s' = ist_regs w"
    using 1 2 by (auto simp: ist8310_read_reg_def ist_regs_def arr_get_def)
  show "\<exists>s'. ist8310_write_reg (ist_chip put) me r v w = Some s' \<and> i2c_fine s' \<and> ist_regs s' = (ist_regs w)(r := put r (ist_regs w r) v)"
    using ist_transmit [OF ok, of "[r, v]" put me IST_WRITE_ADDRESS] by (auto simp: ist8310_write_reg_def ist_regs_def)
qed

section \<open>The rounds of the state machine on a reachable chip\<close>

lemma round_reset:
  assumes "i2c_fine w" and "is_state dev = IST8310_RESET" and "\<not> is_deleted dev"
  shows "\<exists>w'. ist8310_round (ist_chip put) me (dev, w) = Some (dev \<lparr> is_state := IST8310_RESET_WAIT \<rparr>, w') \<and> i2c_fine w' \<and>
     ist_regs w' = (ist_regs w)(IST_CNTL2 := put IST_CNTL2 (ist_regs w IST_CNTL2) IST_SRST)"
  using ist.wr_law [OF assms(1) TrueI, of put me IST_CNTL2 IST_SRST] assms(2,3) by (auto simp: ist8310_round_def ist8310_fsm_def)

lemma round_reset_wait:
  assumes "i2c_fine w" and "is_state dev = IST8310_RESET_WAIT" and "\<not> is_deleted dev"
  shows "\<exists>w'. ist8310_round (ist_chip put) me (dev, w) = Some
       (if ist_regs w IST_WHO_AM_I = IST_DEVICE_ID \<and> ist_regs w IST_CNTL2 AND IST_SRST = 0 then dev \<lparr> is_state := IST8310_CONF \<rparr>
        else if is_attempt dev + 1 > 5 then dev \<lparr> is_state := IST8310_FAIL, is_attempt := 0 \<rparr>
        else dev \<lparr> is_state := IST8310_RESET, is_attempt := is_attempt dev + 1 \<rparr>, w') \<and>
     i2c_fine w' \<and> ist_regs w' = ist_regs w"
proof -
  obtain w1 where 1: "ist8310_read_reg (ist_chip put) me IST_CNTL2 w = Some (ist_regs w IST_CNTL2, w1)" "i2c_fine w1" "ist_regs w1 = ist_regs w"
    using ist.rd_law [OF assms(1) TrueI] by blast
  obtain w2 where 2: "ist8310_read_reg (ist_chip put) me IST_WHO_AM_I w1 = Some (ist_regs w1 IST_WHO_AM_I, w2)" "i2c_fine w2" "ist_regs w2 = ist_regs w1"
    using ist.rd_law [OF 1(2) TrueI] by blast
  obtain w3 where 3: "ist8310_read_reg (ist_chip put) me IST_CNTL2 w2 = Some (ist_regs w2 IST_CNTL2, w3)" "i2c_fine w3" "ist_regs w3 = ist_regs w2"
    using ist.rd_law [OF 2(2) TrueI] by blast
  show ?thesis
    using 1 2 3 assms(2,3) by (simp add: ist8310_round_def ist8310_fsm_def Let_def)
qed

lemma ist_cfg_distinct: "distinct (map rc_reg ist8310_reg_cfg)"
  by (simp add: ist8310_reg_cfg_def)

lemma round_conf:
  assumes "i2c_fine w" and "is_state dev = IST8310_CONF" and "\<not> is_deleted dev"
  shows "\<exists>w'. ist8310_round (ist_chip put) me (dev, w) = Some
       (dev \<lparr> is_scaled := True, is_state := (if \<forall>c \<in> set ist8310_reg_cfg. cfg_entry_ok (ist_regs w' (rc_reg c)) c then IST8310_MEAS else IST8310_RESET) \<rparr>, w') \<and>
     i2c_fine w' \<and> (\<forall>c \<in> set ist8310_reg_cfg. ist_regs w' (rc_reg c) = updated put c (ist_regs w (rc_reg c))) \<and>
     (\<forall>r. r \<notin> rc_reg ` set ist8310_reg_cfg \<longrightarrow> ist_regs w' r = ist_regs w r)"
proof -
  obtain w' where "reg_configure (ist8310_read_reg (ist_chip put) me) (ist8310_write_reg (ist_chip put) me) ist8310_reg_cfg w =
      Some (\<forall>c \<in> set ist8310_reg_cfg. cfg_entry_ok (ist_regs w' (rc_reg c)) c, w')" "i2c_fine w'"
      "\<forall>c \<in> set ist8310_reg_cfg. ist_regs w' (rc_reg c) = updated put c (ist_regs w (rc_reg c))"
      "\<forall>r. r \<notin> rc_reg ` set ist8310_reg_cfg \<longrightarrow> ist_regs w' r = ist_regs w r"
    using ist.configure_law [OF assms(1) _ ist_cfg_distinct, of put me] by blast
  then show ?thesis
    using assms(2,3) by (intro exI [of _ w']) (simp add: ist8310_round_def ist8310_fsm_def ist8310_configure_def)
qed

lemma round_meas:
  assumes "i2c_fine w" and "is_state dev = IST8310_MEAS" and "\<not> is_deleted dev"
  shows "\<exists>w'. ist8310_round (ist_chip put) me (dev, w) = Some (dev \<lparr> is_state := IST8310_READ \<rparr>, w') \<and> i2c_fine w' \<and>
     ist_regs w' = (ist_regs w)(IST_CNTL1 := put IST_CNTL1 (ist_regs w IST_CNTL1) IST_SINGLE_MEAS)"
  using ist.wr_law [OF assms(1) TrueI, of put me IST_CNTL1 IST_SINGLE_MEAS] assms(2,3) by (auto simp: ist8310_round_def ist8310_fsm_def)

text \<open>The counts of a chip that has data ready.\<close>

definition ist_counts :: "(u8 \<Rightarrow> u8) \<Rightarrow> int \<times> int \<times> int" where
  "ist_counts f = (s_msb_lsb_16 (f 4) (f 3), s_msb_lsb_16 (f 6) (f 5), s_msb_lsb_16 (f 8) (f 7))"

lemma ist_read_meas:
  assumes "i2c_fine w" and "length (is_raw dev) = 7"
  shows "\<exists>w'. ist8310_read_meas (ist_chip put) me (dev, w) = Some (dev \<lparr> is_raw := reg_fetch (ist_regs w) 2 7 \<rparr>, w') \<and>
     i2c_fine w' \<and> ist_regs w' = ist_regs w"
proof -
  obtain w1 where 1: "i2c_transmit (ist_chip put) me IST_READ_ADDRESS (Some [IST_STAT1]) 1 w = Some (Hal 0, w1)" "i2c_fine w1"
      "rd_regs (iw_dev w1) = ist_regs w" "rd_ptr (iw_dev w1) = IST_STAT1"
    using ist_transmit [OF assms(1), of "[IST_STAT1]" put me IST_READ_ADDRESS] by auto
  have regs1: "ist_regs w1 = ist_regs w"
    using 1(3) by (simp add: ist_regs_def)
  have "is_raw dev \<noteq> []" and "length (is_raw dev) < 65536"
    using assms(2) by auto
  from ist_receive [OF 1(2) this, of put me IST_READ_ADDRESS]
  obtain w2 where 2: "i2c_receive (ist_chip put) me IST_READ_ADDRESS (Some (is_raw dev)) 7 w1 =
      Some (Hal 0, Some (reg_fetch (ist_regs w1) (rd_ptr (iw_dev w1)) 7), w2)" "i2c_fine w2" "ist_regs w2 = ist_regs w1"
    unfolding assms(2) by auto
  show ?thesis
    using 1 2 regs1 by (simp add: ist8310_read_meas_def IST_STAT1_def)
qed

lemma round_read:
  assumes "i2c_fine w" and "is_state dev = IST8310_READ" and "\<not> is_deleted dev" and "length (is_raw dev) = 7"
  shows "\<exists>dev' w'. ist8310_round (ist_chip put) me (dev, w) = Some (dev', w') \<and> is_state dev' = IST8310_READ \<and> is_measrdy_sem dev' \<and>
     is_meas dev' = (if ist_regs w IST_STAT1 AND IST_DRDY \<noteq> 0 then ist_counts (ist_regs w) else is_meas dev) \<and>
     i2c_fine w' \<and> ist_regs w' = (ist_regs w)(IST_CNTL1 := put IST_CNTL1 (ist_regs w IST_CNTL1) IST_SINGLE_MEAS)"
proof -
  obtain w1 where 1: "ist8310_read_meas (ist_chip put) me (dev, w) = Some (dev \<lparr> is_raw := reg_fetch (ist_regs w) 2 7 \<rparr>, w1)" "i2c_fine w1" "ist_regs w1 = ist_regs w"
    using ist_read_meas [OF assms(1,4)] by blast
  obtain w2 where 2: "ist8310_write_reg (ist_chip put) me IST_CNTL1 IST_SINGLE_MEAS w1 = Some w2" "i2c_fine w2"
      "ist_regs w2 = (ist_regs w1)(IST_CNTL1 := put IST_CNTL1 (ist_regs w1 IST_CNTL1) IST_SINGLE_MEAS)"
    using ist.wr_law [OF 1(2) TrueI] by blast
  have "is_meas (snd (ist8310_process_meas (dev \<lparr> is_raw := reg_fetch (ist_regs w) 2 7 \<rparr>))) =
      (if ist_regs w IST_STAT1 AND IST_DRDY \<noteq> 0 then ist_counts (ist_regs w) else is_meas dev)"
    by (simp add: ist8310_process_meas_def Let_def ist_counts_def IST_STAT1_def)
  moreover have "is_state (snd (ist8310_process_meas d)) = is_state d" for d
    by (simp add: ist8310_process_meas_def Let_def)
  ultimately show ?thesis
    using 1 2 assms(2,3) by (simp add: ist8310_round_def ist8310_fsm_def Let_def)
qed

lemma rounds_step: "ist8310_round chips me s = Some s' \<Longrightarrow> ist8310_rounds (Suc n) chips me s = ist8310_rounds n chips me s'"
  by simp

section \<open>Properties\<close>

lemma ist_cfg_regs: "rc_reg ` set ist8310_reg_cfg = {0x0B, 0x0D, 0x41, 0x42}"
  by (simp add: ist8310_reg_cfg_def)

lemma ist_cfg_writable:
  assumes "\<forall>r \<in> {0x0D, 0x41, 0x42}. \<forall>old v. put r old v = v" and "f 0x0B AND 0x01 = 0"
  shows "\<forall>c \<in> set ist8310_reg_cfg. cfg_entry_ok (updated put c (f (rc_reg c))) c"
proof -
  have "updated put \<lparr> rc_reg = 0x0B, rc_setbits = 0, rc_clearbits = 0x01 \<rparr> (f 0x0B) = f 0x0B"
  proof -
    have "f 0x0B AND NOT 0x01 = f 0x0B"
    proof (rule bit_word_eqI)
      fix n
      have "\<not> (bit (f 0x0B) n \<and> bit (0x01 :: u8) n)"
        using assms(2) by (metis bit_and_iff bit_0_eq bot_apply bot_bool_def)
      then show "bit (f 0x0B AND NOT 0x01) n = bit (f 0x0B) n" if "n < LENGTH(8)"
        using that by (auto simp: bit_simps)
    qed
    then show ?thesis
      by (simp add: updated_def)
  qed
  moreover have "cfg_entry_ok (updated put c old) c" if "c \<in> set (tl ist8310_reg_cfg)" for c old
    using that assms(1) ist.updated_ok [of put c old] by (auto simp: ist8310_reg_cfg_def)
  ultimately show ?thesis
    using assms(2) by (auto simp: ist8310_reg_cfg_def cfg_entry_ok_def)
qed

text \<open>A magnetometer that answers with its identity, whose reset bit clears itself and whose configuration registers keep what is written, is
  measuring after five periods: every entry of the table is in its registers, the waiting start call returns, and the
  measurement is what the chip reports.\<close>

theorem ist8310_starts:
  assumes fine: "i2c_fine w" and who: "ist_regs w IST_WHO_AM_I = IST_DEVICE_ID"
    and reset: "\<forall>old v. put IST_CNTL2 old v AND IST_SRST = 0" and keeps: "\<forall>r \<in> {0x0D, 0x41, 0x42}. \<forall>old v. put r old v = v"
  shows "\<exists>dev w'. ist8310_rounds 5 (ist_chip put) me (ist8310_new, w) = Some (dev, w') \<and> is_state dev = IST8310_READ \<and> is_measrdy_sem dev \<and>
     (\<forall>c \<in> set ist8310_reg_cfg. cfg_entry_ok (ist_regs w' (rc_reg c)) c) \<and>
     is_meas dev = (if ist_regs w IST_STAT1 AND IST_DRDY \<noteq> 0 then ist_counts (ist_regs w) else (0, 0, 0))"
proof -
  let ?d0 = ist8310_new
  obtain w1 where 1: "ist8310_round (ist_chip put) me (?d0, w) = Some (?d0 \<lparr> is_state := IST8310_RESET_WAIT \<rparr>, w1)" "i2c_fine w1"
      "ist_regs w1 = (ist_regs w)(IST_CNTL2 := put IST_CNTL2 (ist_regs w IST_CNTL2) IST_SRST)"
    using round_reset [OF fine, of ?d0 put me] by (auto simp: ist8310_new_def)
  let ?d1 = "?d0 \<lparr> is_state := IST8310_RESET_WAIT \<rparr>"
  have good: "ist_regs w1 IST_WHO_AM_I = IST_DEVICE_ID" "ist_regs w1 IST_CNTL2 AND IST_SRST = 0"
    using 1(3) who reset by (simp_all add: IST_WHO_AM_I_def IST_CNTL2_def)
  obtain w2 where 2: "ist8310_round (ist_chip put) me (?d1, w1) = Some (?d1 \<lparr> is_state := IST8310_CONF \<rparr>, w2)" "i2c_fine w2" "ist_regs w2 = ist_regs w1"
    using round_reset_wait [OF 1(2), of ?d1 put me] good by (auto simp: ist8310_new_def)
  let ?d2 = "?d1 \<lparr> is_state := IST8310_CONF \<rparr>"
  obtain w3 where 3: "ist8310_round (ist_chip put) me (?d2, w2) = Some
       (?d2 \<lparr> is_scaled := True, is_state := (if \<forall>c \<in> set ist8310_reg_cfg. cfg_entry_ok (ist_regs w3 (rc_reg c)) c then IST8310_MEAS else IST8310_RESET) \<rparr>, w3)"
      "i2c_fine w3" "\<forall>c \<in> set ist8310_reg_cfg. ist_regs w3 (rc_reg c) = updated put c (ist_regs w2 (rc_reg c))"
      "\<forall>r. r \<notin> rc_reg ` set ist8310_reg_cfg \<longrightarrow> ist_regs w3 r = ist_regs w2 r"
    using round_conf [OF 2(2), of ?d2 put me] by (auto simp: ist8310_new_def)
  have "ist_regs w2 0x0B AND 0x01 = 0"
    using good(2) 2(3) by (simp add: IST_CNTL2_def IST_SRST_def)
  from ist_cfg_writable [where f = "ist_regs w2", OF keeps this] have cfg: "\<forall>c \<in> set ist8310_reg_cfg. cfg_entry_ok (ist_regs w3 (rc_reg c)) c"
    using 3(3) by simp
  let ?d3 = "?d2 \<lparr> is_scaled := True, is_state := IST8310_MEAS \<rparr>"
  obtain w4 where 4: "ist8310_round (ist_chip put) me (?d3, w3) = Some (?d3 \<lparr> is_state := IST8310_READ \<rparr>, w4)" "i2c_fine w4"
      "ist_regs w4 = (ist_regs w3)(IST_CNTL1 := put IST_CNTL1 (ist_regs w3 IST_CNTL1) IST_SINGLE_MEAS)"
    using round_meas [OF 3(2), of ?d3 put me] by (auto simp: ist8310_new_def)
  let ?d4 = "?d3 \<lparr> is_state := IST8310_READ \<rparr>"
  obtain dev w5 where 5: "ist8310_round (ist_chip put) me (?d4, w4) = Some (dev, w5)" "is_state dev = IST8310_READ" "is_measrdy_sem dev"
      "is_meas dev = (if ist_regs w4 IST_STAT1 AND IST_DRDY \<noteq> 0 then ist_counts (ist_regs w4) else is_meas ?d4)"
      "ist_regs w5 = (ist_regs w4)(IST_CNTL1 := put IST_CNTL1 (ist_regs w4 IST_CNTL1) IST_SINGLE_MEAS)"
    using round_read [OF 4(2), of ?d4 put me] by (auto simp: ist8310_new_def)
  have keep: "ist_regs w4 r = ist_regs w r" if "r \<in> {2, 3, 4, 5, 6, 7, 8}" for r
    using that 1(3) 2(3) 3(4) 4(3) by (auto simp: ist_cfg_regs IST_CNTL1_def IST_CNTL2_def)
  have "ist_counts (ist_regs w4) = ist_counts (ist_regs w)" and "ist_regs w4 IST_STAT1 = ist_regs w IST_STAT1"
    using keep by (simp_all add: ist_counts_def IST_STAT1_def)
  then have meas: "is_meas dev = (if ist_regs w IST_STAT1 AND IST_DRDY \<noteq> 0 then ist_counts (ist_regs w) else (0, 0, 0))"
    using 5(4) by (simp add: ist8310_new_def)
  have cfg5: "cfg_entry_ok (ist_regs w5 (rc_reg c)) c" if "c \<in> set ist8310_reg_cfg" for c
  proof -
    have "rc_reg c \<noteq> IST_CNTL1"
      using that by (auto simp: ist8310_reg_cfg_def IST_CNTL1_def)
    then show ?thesis
      using cfg that 4(3) 5(5) by simp
  qed
  have "ist8310_rounds 5 (ist_chip put) me (?d0, w) = Some (dev, w5)"
    using 1(1) 2(1) 3(1) 4(1) 5(1) cfg by (simp add: eval_nat_numeral)
  then show ?thesis
    using 5(2,3) cfg5 meas by blast
qed

text \<open>A chip one of whose configuration registers (other than the reset) never takes its bits.\<close>

definition ist_stuck :: "(u8 \<Rightarrow> u8 \<Rightarrow> u8 \<Rightarrow> u8) \<Rightarrow> reg_cfg \<Rightarrow> ist8310 \<Rightarrow> reg_dev i2c_world \<Rightarrow> bool" where
  "ist_stuck put c dev w \<longleftrightarrow> i2c_fine w \<and> \<not> is_deleted dev \<and> \<not> is_measrdy_sem dev \<and> ist_regs w IST_WHO_AM_I = IST_DEVICE_ID \<and>
     \<not> cfg_entry_ok (ist_regs w (rc_reg c)) c \<and>
     (is_state dev = IST8310_RESET \<or> is_state dev = IST8310_RESET_WAIT \<and> ist_regs w IST_CNTL2 AND IST_SRST = 0 \<or> is_state dev = IST8310_CONF)"

lemma ist_stuck_round:
  assumes c: "c \<in> set (tl ist8310_reg_cfg)" and reset: "\<forall>old v. put IST_CNTL2 old v AND IST_SRST = 0"
    and stuck: "\<forall>old v. \<not> cfg_entry_ok (put (rc_reg c) old v) c" and inv: "ist_stuck put c dev w"
  shows "\<exists>dev' w'. ist8310_round (ist_chip put) me (dev, w) = Some (dev', w') \<and> ist_stuck put c dev' w'"
proof -
  have rc: "rc_reg c \<noteq> IST_CNTL2" "rc_reg c \<noteq> IST_WHO_AM_I" and mem: "c \<in> set ist8310_reg_cfg"
    using c by (auto simp: ist8310_reg_cfg_def IST_CNTL2_def IST_WHO_AM_I_def)
  have who: "IST_WHO_AM_I \<notin> rc_reg ` set ist8310_reg_cfg"
    by (simp add: ist_cfg_regs IST_WHO_AM_I_def)
  have ne: "IST_WHO_AM_I \<noteq> IST_CNTL2"
    by (simp add: IST_WHO_AM_I_def IST_CNTL2_def)
  consider "is_state dev = IST8310_RESET" | "is_state dev = IST8310_RESET_WAIT" "ist_regs w IST_CNTL2 AND IST_SRST = 0" | "is_state dev = IST8310_CONF"
    using inv by (auto simp: ist_stuck_def)
  then show ?thesis
  proof cases
    case 1
    then show ?thesis
      using round_reset [of w dev put me] inv reset rc ne by (fastforce simp: ist_stuck_def)
  next
    case 2
    then show ?thesis
      using round_reset_wait [of w dev put me] inv by (fastforce simp: ist_stuck_def)
  next
    case 3
    obtain w' where w': "ist8310_round (ist_chip put) me (dev, w) = Some
       (dev \<lparr> is_scaled := True, is_state := (if \<forall>c \<in> set ist8310_reg_cfg. cfg_entry_ok (ist_regs w' (rc_reg c)) c then IST8310_MEAS else IST8310_RESET) \<rparr>, w')"
       "i2c_fine w'" "\<forall>c \<in> set ist8310_reg_cfg. ist_regs w' (rc_reg c) = updated put c (ist_regs w (rc_reg c))"
       "\<forall>r. r \<notin> rc_reg ` set ist8310_reg_cfg \<longrightarrow> ist_regs w' r = ist_regs w r"
      using round_conf [of w dev put me] inv 3 unfolding ist_stuck_def by blast
    have old: "\<not> cfg_entry_ok (ist_regs w (rc_reg c)) c"
      using inv by (simp add: ist_stuck_def)
    have "rc_setbits c AND rc_clearbits c = 0"
      using c by (auto simp: ist8310_reg_cfg_def)
    from ist.bits_taken [OF this, of "ist_regs w (rc_reg c)"]
    have "ist_regs w (rc_reg c) \<noteq> (ist_regs w (rc_reg c) AND NOT (rc_clearbits c)) OR rc_setbits c"
      using old by (metis cfg_entry_ok_def)
    then have "updated put c (ist_regs w (rc_reg c)) =
        put (rc_reg c) (ist_regs w (rc_reg c)) ((ist_regs w (rc_reg c) AND NOT (rc_clearbits c)) OR rc_setbits c)"
      by (simp add: updated_def Let_def)
    then have bad: "\<not> cfg_entry_ok (ist_regs w' (rc_reg c)) c"
      using w'(3) mem stuck by simp
    then have "\<not> (\<forall>c \<in> set ist8310_reg_cfg. cfg_entry_ok (ist_regs w' (rc_reg c)) c)"
      using mem by blast
    then show ?thesis
      using w' bad inv who by (simp add: ist_stuck_def)
  qed
qed

text \<open>When a configuration register of the magnetometer does not take its bits, its state machine resets and configures it for ever: no
  failure is counted, the semaphore is never given, and the call that starts the driver never returns.\<close>

theorem ist8310_start_hangs:
  assumes "i2c_fine w" and "ist_regs w IST_WHO_AM_I = IST_DEVICE_ID" and "\<forall>old v. put IST_CNTL2 old v AND IST_SRST = 0"
    and "c \<in> set (tl ist8310_reg_cfg)" and "\<not> cfg_entry_ok (ist_regs w (rc_reg c)) c" and "\<forall>old v. \<not> cfg_entry_ok (put (rc_reg c) old v) c"
  shows "\<not> ist8310_start_returns (ist_chip put) me w"
proof -
  have rounds: "\<exists>dev' w'. ist8310_rounds n (ist_chip put) me (dev, w) = Some (dev', w') \<and> ist_stuck put c dev' w'"
    if "ist_stuck put c dev w" for n dev w
    using that
  proof (induction n arbitrary: dev w)
    case (Suc n)
    then show ?case
      using ist_stuck_round [OF assms(4,3,6) Suc.prems, of me] by fastforce
  qed simp
  have "ist_stuck put c ist8310_new w"
    using assms by (simp add: ist_stuck_def ist8310_new_def)
  then have never: "\<exists>dev' w'. ist8310_rounds n (ist_chip put) me (ist8310_new, w) = Some (dev', w') \<and> \<not> is_measrdy_sem dev'" for n
    using rounds [of ist8310_new w n] by (auto simp: ist_stuck_def)
  show ?thesis
  proof
    assume "ist8310_start_returns (ist_chip put) me w"
    then obtain n dev w' where "ist8310_rounds n (ist_chip put) me (ist8310_new, w) = Some (dev, w')" and "is_measrdy_sem dev"
      by (auto simp: ist8310_start_returns_def)
    then show False
      using never [of n] by simp
  qed
qed

text \<open>A magnetometer for the concrete instances: \<open>put\<close> clears the reset bit.\<close>

definition demo_put :: "u8 \<Rightarrow> u8 \<Rightarrow> u8 \<Rightarrow> u8" where
  "demo_put r old v = (if r = IST_CNTL2 then v AND NOT IST_SRST else v)"

definition demo_i2c :: "(u8 \<Rightarrow> u8) \<Rightarrow> reg_dev i2c_world" where
  "demo_i2c f = \<lparr> iw_i2c = \<lparr> ic_instance = I2C1, ic_sda = None, ic_scl = None, ic_dma_tx = None, ic_dma_rx = None, ic_irq_priority = 5,
       ic_ev_id = 31, ic_er_id = 32, ic_sem = False, ic_mutex = None, ic_cs_mutex = None, ic_state = I2C_FREE \<rparr>,
     iw_env = (\<lambda>_. \<lparr> be_released = True, be_start = 0, be_done = True, be_moved = 0 \<rparr>), iw_calls = 0,
     iw_dev = \<lparr> rd_ptr = 0, rd_regs = f \<rparr> \<rparr>"

lemma demo_i2c_fine: "i2c_fine (demo_i2c f)" and demo_i2c_regs: "ist_regs (demo_i2c f) = f"
  by (simp_all add: demo_i2c_def i2c_fine_def bus_fine_def ist_regs_def)

definition demo_regs :: "u8 \<Rightarrow> u8" where
  "demo_regs r = (if r = 0 then 0x10 else if r = 2 then 1 else if r = 3 then 0xFE else if r = 4 then 0xFF else 0)"

lemma demo_put_reset: "\<forall>old v. demo_put IST_CNTL2 old v AND IST_SRST = 0"
  by (auto simp: demo_put_def intro!: bit_word_eqI simp: bit_simps)

theorem ist8310_starts_witness:
  "\<exists>dev w'. ist8310_rounds 5 (ist_chip demo_put) 1 (ist8310_new, demo_i2c demo_regs) = Some (dev, w') \<and> is_state dev = IST8310_READ \<and>
     is_measrdy_sem dev \<and> is_meas dev = (- 2, 0, 0)"
proof -
  have who: "ist_regs (demo_i2c demo_regs) IST_WHO_AM_I = IST_DEVICE_ID"
    by (simp add: demo_i2c_regs demo_regs_def IST_WHO_AM_I_def IST_DEVICE_ID_def)
  have keeps: "\<forall>r \<in> {0x0D, 0x41, 0x42}. \<forall>old v. demo_put r old v = v"
    by (simp add: demo_put_def IST_CNTL2_def)
  have "ist_counts demo_regs = (- 2, 0, 0)" and "demo_regs IST_STAT1 AND IST_DRDY \<noteq> 0"
    by code_simp+
  then show ?thesis
    using ist8310_starts [OF demo_i2c_fine who demo_put_reset keeps, of 1] by (auto simp: demo_i2c_regs)
qed

text \<open>A chip whose register 0x42 stays 0.\<close>

definition stuck_put :: "u8 \<Rightarrow> u8 \<Rightarrow> u8 \<Rightarrow> u8" where
  "stuck_put r old v = (if r = 0x42 then 0 else demo_put r old v)"

theorem ist8310_start_hangs_witness: "\<not> ist8310_start_returns (ist_chip stuck_put) 1 (demo_i2c demo_regs)"
proof -
  let ?c = "\<lparr> rc_reg = 0x42, rc_setbits = 0xC0, rc_clearbits = 0 \<rparr>"
  have who: "ist_regs (demo_i2c demo_regs) IST_WHO_AM_I = IST_DEVICE_ID"
    by (simp add: demo_i2c_regs demo_regs_def IST_WHO_AM_I_def IST_DEVICE_ID_def)
  have reset: "\<forall>old v. stuck_put IST_CNTL2 old v AND IST_SRST = 0"
    using demo_put_reset by (simp add: stuck_put_def IST_CNTL2_def)
  have c: "?c \<in> set (tl ist8310_reg_cfg)"
    by (simp add: ist8310_reg_cfg_def)
  have bad: "\<not> cfg_entry_ok (ist_regs (demo_i2c demo_regs) (rc_reg ?c)) ?c" "\<forall>old v. \<not> cfg_entry_ok (stuck_put (rc_reg ?c) old v) ?c"
    by (simp_all add: demo_i2c_regs demo_regs_def cfg_entry_ok_def stuck_put_def)
  show ?thesis
    by (rule ist8310_start_hangs [OF demo_i2c_fine who reset c bad])
qed

text \<open>Without an answer to its identity the state machine counts six resets.\<close>

definition ist_absent :: "nat \<Rightarrow> ist8310 \<Rightarrow> reg_dev i2c_world \<Rightarrow> bool" where
  "ist_absent k dev w \<longleftrightarrow> i2c_fine w \<and> \<not> is_deleted dev \<and> \<not> is_measrdy_sem dev \<and> is_state dev = IST8310_RESET \<and> is_attempt dev = word_of_nat k \<and>
     ist_regs w IST_WHO_AM_I \<noteq> IST_DEVICE_ID"

lemma ist_absent_rounds:
  assumes "ist_absent k dev w" and "k \<le> 5"
  shows "\<exists>dev' w'. ist8310_rounds (Suc (Suc n)) (ist_chip put) me (dev, w) = ist8310_rounds n (ist_chip put) me (dev', w') \<and>
     (if k < 5 then ist_absent (Suc k) dev' w'
      else i2c_fine w' \<and> \<not> is_deleted dev' \<and> \<not> is_measrdy_sem dev' \<and> is_state dev' = IST8310_FAIL)"
proof -
  have ne: "IST_WHO_AM_I \<noteq> IST_CNTL2"
    by (simp add: IST_WHO_AM_I_def IST_CNTL2_def)
  obtain w1 where 1: "ist8310_round (ist_chip put) me (dev, w) = Some (dev \<lparr> is_state := IST8310_RESET_WAIT \<rparr>, w1)" "i2c_fine w1"
      "ist_regs w1 = (ist_regs w)(IST_CNTL2 := put IST_CNTL2 (ist_regs w IST_CNTL2) IST_SRST)"
    using round_reset [of w dev put me] assms(1) by (auto simp: ist_absent_def)
  let ?d1 = "dev \<lparr> is_state := IST8310_RESET_WAIT \<rparr>"
  have who: "ist_regs w1 IST_WHO_AM_I \<noteq> IST_DEVICE_ID"
    using 1(3) ne assms(1) by (simp add: ist_absent_def)
  have att: "is_attempt dev + 1 > 5 \<longleftrightarrow> k = 5" and suc: "is_attempt dev + 1 = word_of_nat (Suc k)"
  proof -
    have a: "is_attempt dev = word_of_nat k"
      using assms(1) by (simp add: ist_absent_def)
    have "unat (is_attempt dev + 1) = Suc k"
      using assms(2) by (simp add: a unat_word_ariths unat_word_of_nat_less)
    then show "is_attempt dev + 1 > 5 \<longleftrightarrow> k = 5"
      using assms(2) by (auto simp: word_less_nat_alt)
    show "is_attempt dev + 1 = word_of_nat (Suc k)"
      by (simp add: a)
  qed
  obtain w2 where 2: "ist8310_round (ist_chip put) me (?d1, w1) = Some
      (if k = 5 then ?d1 \<lparr> is_state := IST8310_FAIL, is_attempt := 0 \<rparr> else ?d1 \<lparr> is_state := IST8310_RESET, is_attempt := word_of_nat (Suc k) \<rparr>, w2)"
      "i2c_fine w2" "ist_regs w2 = ist_regs w1"
    using round_reset_wait [OF 1(2), of ?d1 put me] who att suc assms(1) by (auto simp: ist_absent_def)
  show ?thesis
    using 1(1) 2 who assms by (intro exI [of _ "if k = 5 then ?d1 \<lparr> is_state := IST8310_FAIL, is_attempt := 0 \<rparr> else ?d1 \<lparr> is_state := IST8310_RESET, is_attempt := word_of_nat (Suc k) \<rparr>"] exI [of _ w2])
      (auto simp: ist_absent_def)
qed

lemma ist_absent_fails:
  assumes "ist_absent k dev w" and "k + j = 6"  and "0 < j"
  shows "\<exists>dev' w'. ist8310_rounds (2 * j + n) (ist_chip put) me (dev, w) = ist8310_rounds n (ist_chip put) me (dev', w') \<and>
     i2c_fine w' \<and> \<not> is_deleted dev' \<and> \<not> is_measrdy_sem dev' \<and> is_state dev' = IST8310_FAIL"
  using assms
proof (induction j arbitrary: k dev w)
  case (Suc j)
  obtain dev1 w1 where 1: "ist8310_rounds (Suc (Suc (2 * j + n))) (ist_chip put) me (dev, w) = ist8310_rounds (2 * j + n) (ist_chip put) me (dev1, w1)"
      "if k < 5 then ist_absent (Suc k) dev1 w1 else i2c_fine w1 \<and> \<not> is_deleted dev1 \<and> \<not> is_measrdy_sem dev1 \<and> is_state dev1 = IST8310_FAIL"
    using ist_absent_rounds [of k dev w "2 * j + n" put me] Suc.prems by auto
  have n: "2 * Suc j + n = Suc (Suc (2 * j + n))"
    by simp
  show ?case
  proof (cases "k < 5")
    case True
    then show ?thesis
      using 1 Suc.IH [of "Suc k" dev1 w1] Suc.prems unfolding n by simp
  next
    case False
    then have "j = 0"
      using Suc.prems by simp
    then show ?thesis
      using 1 False unfolding n by auto
  qed
qed simp

text \<open>For a magnetometer that does not answer with its identity, the driver gives up after six resets: in the thirteenth period, and not
  before, the waiting start call returns, as it does for a working chip, and the task deletes itself.\<close>

theorem ist8310_absent_gives_up:
  assumes "i2c_fine w" and "ist_regs w IST_WHO_AM_I \<noteq> IST_DEVICE_ID"
  shows "\<exists>dev w' dev'. ist8310_rounds 12 (ist_chip put) me (ist8310_new, w) = Some (dev, w') \<and> is_state dev = IST8310_FAIL \<and> \<not> is_measrdy_sem dev \<and>
     ist8310_rounds 13 (ist_chip put) me (ist8310_new, w) = Some (dev', w') \<and> is_measrdy_sem dev' \<and> is_deleted dev' \<and>
     (\<forall>n. ist8310_rounds n (ist_chip put) me (dev', w') = Some (dev', w'))"
proof -
  have absent: "ist_absent 0 ist8310_new w"
    using assms by (simp add: ist_absent_def ist8310_new_def)
  obtain dev w' where 12: "ist8310_rounds 12 (ist_chip put) me (ist8310_new, w) = Some (dev, w')" "\<not> is_deleted dev" "\<not> is_measrdy_sem dev" "is_state dev = IST8310_FAIL"
    using ist_absent_fails [OF absent, of 6 0 put me] by auto
  have split: "ist8310_rounds (m + n) chips me s = do { s \<leftarrow> ist8310_rounds m chips me s; ist8310_rounds n chips me s }" for m n chips me s
    by (induction m arbitrary: s) (simp_all split: bind_splits)
  let ?dev' = "dev \<lparr> is_measrdy_sem := True, is_deleted := True \<rparr>"
  have "ist8310_rounds 13 (ist_chip put) me (ist8310_new, w) = Some (?dev', w')"
    using split [of 12 1 "ist_chip put" me "(ist8310_new, w)"] 12 by (simp add: ist8310_round_def ist8310_fsm_def)
  moreover have "ist8310_rounds n (ist_chip put) me (?dev', w') = Some (?dev', w')" for n
    by (induction n) (simp_all add: ist8310_round_def)
  ultimately show ?thesis
    using 12 by (intro exI [of _ dev] exI [of _ w'] exI [of _ ?dev']) simp
qed

theorem ist8310_absent_gives_up_witness:
  "\<exists>dev w'. ist8310_rounds 13 (ist_chip demo_put) 1 (ist8310_new, demo_i2c (\<lambda>_. 0xFF)) = Some (dev, w') \<and> is_measrdy_sem dev"
proof -
  have "ist_regs (demo_i2c (\<lambda>_. 0xFF)) IST_WHO_AM_I \<noteq> IST_DEVICE_ID"
    by (simp add: demo_i2c_regs IST_DEVICE_ID_def)
  from ist8310_absent_gives_up [OF demo_i2c_fine this, of demo_put 1] show ?thesis
    by blast
qed

end
