(* ===== verification/Icm20602.thy ===== *)
theory Icm20602
  imports RegChip Bits
begin

text \<open>
  The inertial sensor (bsp/ics/icm20602/icm20602.c) on its SPI bus: register accesses, configuration, the
  state machine and the processing of the measurements, as the signed counts that the code multiplies with its
  scales. None is a call that never returns or an access outside an array.
\<close>

section \<open>Registers\<close>

definition ICM_CONFIG :: u8 where "ICM_CONFIG = 0x1A"
definition ICM_GYRO_CONFIG :: u8 where "ICM_GYRO_CONFIG = 0x1B"
definition ICM_ACCEL_CONFIG :: u8 where "ICM_ACCEL_CONFIG = 0x1C"
definition ICM_FIFO_EN :: u8 where "ICM_FIFO_EN = 0x23"
definition ICM_ACCEL_XOUT_H :: u8 where "ICM_ACCEL_XOUT_H = 0x3B"
definition ICM_TEMP_OUT_H :: u8 where "ICM_TEMP_OUT_H = 0x41"
definition ICM_SIGNAL_PATH_RESET :: u8 where "ICM_SIGNAL_PATH_RESET = 0x68"
definition ICM_USER_CTRL :: u8 where "ICM_USER_CTRL = 0x6A"
definition ICM_PWR_MGMT_1 :: u8 where "ICM_PWR_MGMT_1 = 0x6B"
definition ICM_I2C_IF :: u8 where "ICM_I2C_IF = 0x70"
definition ICM_FIFO_COUNTH :: u8 where "ICM_FIFO_COUNTH = 0x72"
definition ICM_WHO_AM_I :: u8 where "ICM_WHO_AM_I = 0x75"
definition ICM_SIG_COND_RST :: u8 where "ICM_SIG_COND_RST = 0x01"
definition ICM_READ :: u8 where "ICM_READ = 0x80"
definition ICM_WRITE :: u8 where "ICM_WRITE = 0x00"

definition icm20602_reg_cfg :: "reg_cfg list" where
  "icm20602_reg_cfg = map (\<lambda>(r, s, c). \<lparr> rc_reg = r, rc_setbits = s, rc_clearbits = c \<rparr>)
     [(0x1A, 0x41, 0x06), (0x1B, 0x18, 0x03), (0x1C, 0x18, 0), (0x1D, 0x07, 0x08), (0x23, 0x18, 0), (0x37, 0x30, 0),
      (0x38, 0x01, 0), (0x60, 0, 0), (0x61, 0, 0), (0x6A, 0x40, 0), (0x6B, 0x01, 0x40), (0x70, 0x40, 0),
      (0x04, 0, 0), (0x05, 0, 0), (0x07, 0, 0), (0x08, 0, 0), (0x0A, 0, 0), (0x0B, 0, 0),
      (0x77, 0, 0), (0x78, 0, 0), (0x7A, 0, 0), (0x7B, 0, 0), (0x7D, 0, 0), (0x7E, 0, 0)]"

section \<open>State\<close>

datatype icm20602_state = ICM20602_RESET | ICM20602_RESET_WAIT | ICM20602_CONF | ICM20602_FIFO_READ | ICM20602_FAIL

text \<open>\<open>im_fifo\<close> is the transfer buffer: command, the two bytes of the count, and one sample of 12 bytes.\<close>

record icm20602 =
  im_cs :: gpio
  im_drdy :: bool  \<comment> \<open>there is a data-ready pin\<close>
  im_irq_on :: bool  \<comment> \<open>its interrupt is enabled\<close>
  im_drdy_sem :: bool
  im_measrdy_sem :: bool
  im_mutex :: mutex
  im_state :: icm20602_state
  im_attempt :: u8
  im_fifo :: "u8 list"
  im_bytes :: u16
  im_samples :: u16
  im_accel_range :: nat  \<comment> \<open>in g\<close>
  im_gyro_range :: nat  \<comment> \<open>in degrees per second\<close>
  im_buf_accel :: "int \<times> int \<times> int"
  im_buf_gyro :: "int \<times> int \<times> int"
  im_buf_temp :: int
  im_accel :: "int \<times> int \<times> int"
  im_gyro :: "int \<times> int \<times> int"
  im_deleted :: bool

type_synonym 'd icm_sys = "icm20602 \<times> 'd spi_world"

section \<open>Register accesses\<close>

text \<open>Sending and receiving share the buffer; the result is the buffer.\<close>

definition icm20602_exchange :: "'d spi_chips \<Rightarrow> task \<Rightarrow> gpio \<Rightarrow> u8 list \<Rightarrow> u16 \<Rightarrow> 'd spi_world \<Rightarrow> (u8 list \<times> 'd spi_world) option" where
  "icm20602_exchange chips me cs buf n w = do {
     w \<leftarrow> spi_chip_select me cs w;
     (rv, b, w) \<leftarrow> spi_transmit_receive chips me (Some buf) (Some buf) n w;
     w \<leftarrow> spi_chip_deselect me cs w;
     b \<leftarrow> b;
     Some (b, w)
   }"

definition icm20602_read_reg :: "'d spi_chips \<Rightarrow> task \<Rightarrow> gpio \<Rightarrow> 'd spi_world reg_read" where
  "icm20602_read_reg chips me cs reg w = do {
     (b, w) \<leftarrow> icm20602_exchange chips me cs [reg OR ICM_READ, 0] 2 w;
     v \<leftarrow> arr_get b 1;
     Some (v, w)
   }"

definition icm20602_write_reg :: "'d spi_chips \<Rightarrow> task \<Rightarrow> gpio \<Rightarrow> 'd spi_world reg_write" where
  "icm20602_write_reg chips me cs reg v w = map_option snd (icm20602_exchange chips me cs [reg OR ICM_WRITE, v] 2 w)"

definition icm20602_set_clear_reg :: "'d spi_chips \<Rightarrow> task \<Rightarrow> gpio \<Rightarrow> u8 \<Rightarrow> u8 \<Rightarrow> u8 \<Rightarrow> 'd spi_world \<Rightarrow> 'd spi_world option" where
  "icm20602_set_clear_reg chips me cs = set_clear_reg (icm20602_read_reg chips me cs) (icm20602_write_reg chips me cs)"

section \<open>Configuration\<close>

definition icm20602_accel_configure :: "'d spi_chips \<Rightarrow> task \<Rightarrow> 'd icm_sys \<Rightarrow> 'd icm_sys option" where
  "icm20602_accel_configure chips me s = (case s of (dev, w) \<Rightarrow> do {
     (v, w) \<leftarrow> icm20602_read_reg chips me (im_cs dev) ICM_ACCEL_CONFIG w;
     let sel = v AND 0x18;
     Some (if sel = 0 then dev \<lparr> im_accel_range := 2 \<rparr>
           else if sel = 0x08 then dev \<lparr> im_accel_range := 4 \<rparr>
           else if sel = 0x10 then dev \<lparr> im_accel_range := 8 \<rparr>
           else if sel = 0x18 then dev \<lparr> im_accel_range := 16 \<rparr>
           else dev, w)
   })"

definition icm20602_gyro_configure :: "'d spi_chips \<Rightarrow> task \<Rightarrow> 'd icm_sys \<Rightarrow> 'd icm_sys option" where
  "icm20602_gyro_configure chips me s = (case s of (dev, w) \<Rightarrow> do {
     (v, w) \<leftarrow> icm20602_read_reg chips me (im_cs dev) ICM_GYRO_CONFIG w;
     let sel = v AND 0x18;
     Some (if sel = 0 then dev \<lparr> im_gyro_range := 250 \<rparr>
           else if sel = 0x08 then dev \<lparr> im_gyro_range := 500 \<rparr>
           else if sel = 0x10 then dev \<lparr> im_gyro_range := 1000 \<rparr>
           else if sel = 0x18 then dev \<lparr> im_gyro_range := 2000 \<rparr>
           else dev, w)
   })"

definition icm20602_configure :: "'d spi_chips \<Rightarrow> task \<Rightarrow> 'd icm_sys \<Rightarrow> (bool \<times> 'd icm_sys) option" where
  "icm20602_configure chips me s = (case s of (dev, w) \<Rightarrow> do {
     (rv, w) \<leftarrow> reg_configure (icm20602_read_reg chips me (im_cs dev)) (icm20602_write_reg chips me (im_cs dev)) icm20602_reg_cfg w;
     (dev, w) \<leftarrow> icm20602_accel_configure chips me (dev, w);
     (dev, w) \<leftarrow> icm20602_gyro_configure chips me (dev, w);
     Some (rv, if im_drdy dev then dev \<lparr> im_irq_on := True \<rparr> else dev, w)
   })"

definition icm20602_fifo_reset :: "'d spi_chips \<Rightarrow> task \<Rightarrow> 'd icm_sys \<Rightarrow> 'd icm_sys option" where
  "icm20602_fifo_reset chips me s = (case s of (dev, w) \<Rightarrow> do {
     w \<leftarrow> icm20602_write_reg chips me (im_cs dev) ICM_FIFO_EN 0 w;
     w \<leftarrow> icm20602_set_clear_reg chips me (im_cs dev) ICM_USER_CTRL 0x04 0x40 w;
     Some (dev, w)
   })"

section \<open>Measurements\<close>

text \<open>An exchange that uses the buffer from the offset \<open>i\<close> on.\<close>

definition icm20602_fifo_exchange :: "'d spi_chips \<Rightarrow> task \<Rightarrow> nat \<Rightarrow> u16 \<Rightarrow> 'd icm_sys \<Rightarrow> 'd icm_sys option" where
  "icm20602_fifo_exchange chips me i n s = (case s of (dev, w) \<Rightarrow> do {
     (b, w) \<leftarrow> icm20602_exchange chips me (im_cs dev) (drop i (im_fifo dev)) n w;
     Some (dev \<lparr> im_fifo := take i (im_fifo dev) @ b \<rparr>, w)
   })"

definition icm20602_fifo_read :: "'d spi_chips \<Rightarrow> task \<Rightarrow> u16 \<Rightarrow> 'd icm_sys \<Rightarrow> 'd icm_sys option" where
  "icm20602_fifo_read chips me samples s = (case s of (dev, w) \<Rightarrow>
     if samples > 1 then do {
       (dev, w) \<leftarrow> icm20602_fifo_exchange chips me 0 3 (dev \<lparr> im_fifo := (im_fifo dev)[0 := ICM_FIFO_COUNTH OR ICM_READ] \<rparr>, w);
       let bytes = min (msb_lsb_16 (im_fifo dev ! 1) (im_fifo dev ! 2)) samples;
       let dev = dev \<lparr> im_bytes := bytes, im_samples := bytes div 12, im_fifo := (im_fifo dev)[0 := ICM_FIFO_COUNTH OR ICM_READ] \<rparr>;
       icm20602_fifo_exchange chips me 0 (bytes + 3) (dev, w)
     }
     else icm20602_fifo_exchange chips me 2 13
       (dev \<lparr> im_fifo := (im_fifo dev)[2 := ICM_ACCEL_XOUT_H OR ICM_READ], im_samples := 1, im_bytes := 12 \<rparr>, w))"

text \<open>The negation of a 16-bit count, which saturates.\<close>

definition neg16 :: "int \<Rightarrow> int" where
  "neg16 x = (if x = - 32768 then 32767 else - x)"

text \<open>The count at the offset \<open>i\<close> of the sample.\<close>

definition sample16 :: "u8 list \<Rightarrow> nat \<Rightarrow> int" where
  "sample16 fifo i = sint (msb_lsb_16 (fifo ! (3 + i)) (fifo ! (4 + i)))"

text \<open>There is room for one sample.\<close>

definition icm20602_accel_process :: "icm20602 \<Rightarrow> icm20602 option" where
  "icm20602_accel_process dev =
     (if im_samples dev = 0 then Some dev
      else if im_samples dev > 1 then None
      else Some (dev \<lparr> im_buf_accel := (sample16 (im_fifo dev) 0, neg16 (sample16 (im_fifo dev) 2), neg16 (sample16 (im_fifo dev) 4)) \<rparr>))"

definition icm20602_gyro_process :: "icm20602 \<Rightarrow> icm20602 option" where
  "icm20602_gyro_process dev =
     (if im_samples dev = 0 then Some dev
      else if im_samples dev > 1 then None
      else Some (dev \<lparr> im_buf_gyro := (sample16 (im_fifo dev) 6, neg16 (sample16 (im_fifo dev) 8), neg16 (sample16 (im_fifo dev) 10)) \<rparr>))"

text \<open>The two bytes behind the command are not initialised in the code; the chip ignores them.\<close>

definition icm20602_temp_process :: "'d spi_chips \<Rightarrow> task \<Rightarrow> 'd icm_sys \<Rightarrow> 'd icm_sys option" where
  "icm20602_temp_process chips me s = (case s of (dev, w) \<Rightarrow> do {
     (b, w) \<leftarrow> icm20602_exchange chips me (im_cs dev) [ICM_TEMP_OUT_H OR ICM_READ, 0, 0] 3 w;
     h \<leftarrow> arr_get b 1;
     l \<leftarrow> arr_get b 2;
     Some (dev \<lparr> im_buf_temp := sint (msb_lsb_16 h l) \<rparr>, w)
   })"

definition icm20602_update_meas :: "task \<Rightarrow> bool \<Rightarrow> icm20602 \<Rightarrow> icm20602 option" where
  "icm20602_update_meas me released dev = do {
     m \<leftarrow> mutex_take_forever me released (im_mutex dev);
     m \<leftarrow> mutex_give me m;
     Some (dev \<lparr> im_accel := im_buf_accel dev, im_gyro := im_buf_gyro dev, im_mutex := m \<rparr>)
   }"

section \<open>The state machine\<close>

text \<open>The three checks after the reset, which stop at the first that fails.\<close>

definition icm20602_after_reset :: "'d spi_chips \<Rightarrow> task \<Rightarrow> gpio \<Rightarrow> 'd spi_world \<Rightarrow> (bool \<times> 'd spi_world) option" where
  "icm20602_after_reset chips me cs w = do {
     (v, w) \<leftarrow> icm20602_read_reg chips me cs ICM_WHO_AM_I w;
     if v \<noteq> 0x12 then Some (False, w)
     else do {
       (v, w) \<leftarrow> icm20602_read_reg chips me cs ICM_PWR_MGMT_1 w;
       if v \<noteq> 0x41 then Some (False, w)
       else do {
         (v, w) \<leftarrow> icm20602_read_reg chips me cs ICM_CONFIG w;
         Some (v = 0x80, w)
       }
     }
   }"

text \<open>One call; \<open>released\<close>: the mutex of the measurements is given back by a reader. The delays are left out.\<close>

definition icm20602_fsm :: "'d spi_chips \<Rightarrow> task \<Rightarrow> bool \<Rightarrow> 'd icm_sys \<Rightarrow> 'd icm_sys option" where
  "icm20602_fsm chips me released s = (case s of (dev, w) \<Rightarrow>
     (case im_state dev of
        ICM20602_RESET \<Rightarrow> do {
          w \<leftarrow> icm20602_write_reg chips me (im_cs dev) ICM_PWR_MGMT_1 0x80 w;
          Some (dev \<lparr> im_state := ICM20602_RESET_WAIT \<rparr>, w)
        }
      | ICM20602_RESET_WAIT \<Rightarrow> do {
          (good, w) \<leftarrow> icm20602_after_reset chips me (im_cs dev) w;
          if good then do {
            w \<leftarrow> icm20602_write_reg chips me (im_cs dev) ICM_PWR_MGMT_1 0x01 w;
            w \<leftarrow> icm20602_write_reg chips me (im_cs dev) ICM_I2C_IF 0x40 w;
            w \<leftarrow> icm20602_write_reg chips me (im_cs dev) ICM_SIGNAL_PATH_RESET 0x03 w;
            w \<leftarrow> icm20602_write_reg chips me (im_cs dev) ICM_SIG_COND_RST 0 w;
            Some (dev \<lparr> im_state := ICM20602_CONF \<rparr>, w)
          }
          else (let dev = dev \<lparr> im_state := ICM20602_RESET, im_attempt := im_attempt dev + 1 \<rparr> in
            Some (if im_attempt dev > 5 then dev \<lparr> im_state := ICM20602_FAIL, im_attempt := 0 \<rparr> else dev, w))
        }
      | ICM20602_CONF \<Rightarrow> do {
          (rv, dev, w) \<leftarrow> icm20602_configure chips me (dev, w);
          if rv then do {
            (dev, w) \<leftarrow> icm20602_fifo_reset chips me (dev, w);
            Some (dev \<lparr> im_state := ICM20602_FIFO_READ \<rparr>, w)
          }
          else (let dev = dev \<lparr> im_attempt := im_attempt dev + 1 \<rparr> in
            Some (if im_attempt dev > 5 then dev \<lparr> im_state := ICM20602_RESET, im_attempt := 0 \<rparr> else dev, w))
        }
      | ICM20602_FIFO_READ \<Rightarrow>
          if im_drdy dev \<and> \<not> im_drdy_sem dev then None
          else do {
            let dev = (if im_drdy dev then dev \<lparr> im_drdy_sem := False \<rparr> else dev);
            (dev, w) \<leftarrow> icm20602_fifo_read chips me 1 (dev, w);
            (dev, w) \<leftarrow> icm20602_temp_process chips me (dev, w);
            dev \<leftarrow> icm20602_accel_process dev;
            dev \<leftarrow> icm20602_gyro_process dev;
            dev \<leftarrow> icm20602_update_meas me released dev;
            let dev = (if im_drdy dev then dev \<lparr> im_irq_on := True \<rparr> else dev);
            Some (dev \<lparr> im_measrdy_sem := True \<rparr>, w)
          }
      | ICM20602_FAIL \<Rightarrow> Some (dev \<lparr> im_measrdy_sem := True, im_deleted := True \<rparr>, w)))"

definition icm20602_drdy_handler :: "icm20602 \<Rightarrow> icm20602" where
  "icm20602_drdy_handler dev = dev \<lparr> im_drdy_sem := True, im_irq_on := False \<rparr>"

definition icm20602_get_meas_non_block ::
    "task \<Rightarrow> bool \<Rightarrow> icm20602 \<Rightarrow> (((int \<times> int \<times> int) \<times> (int \<times> int \<times> int)) \<times> icm20602) option" where
  "icm20602_get_meas_non_block me released dev = do {
     m \<leftarrow> mutex_take_forever me released (im_mutex dev);
     m \<leftarrow> mutex_give me m;
     Some ((im_accel dev, im_gyro dev), dev \<lparr> im_mutex := m \<rparr>)
   }"

definition icm20602_get_meas_block ::
    "task \<Rightarrow> bool \<Rightarrow> icm20602 \<Rightarrow> (((int \<times> int \<times> int) \<times> (int \<times> int \<times> int)) \<times> icm20602) option" where
  "icm20602_get_meas_block me released dev =
     (if \<not> im_measrdy_sem dev then None else icm20602_get_meas_non_block me released (dev \<lparr> im_measrdy_sem := False \<rparr>))"

section \<open>The chip through the driver\<close>

definition icm_chip :: "gpio \<Rightarrow> (u8 \<Rightarrow> u8 \<Rightarrow> u8 \<Rightarrow> u8) \<Rightarrow> reg_dev spi_chips" where
  "icm_chip cs put = reg_spi_chips cs put"

definition icm_regs :: "reg_dev spi_world \<Rightarrow> u8 \<Rightarrow> u8" where
  "icm_regs w = rd_regs (sw_dev w)"

lemma icm_exchange:
  assumes "spi_fine w" and "buf \<noteq> []" and "unat n \<le> length buf" and "n \<noteq> 0"
    and "icm_chip cs put (gpio_reset cs (sw_hw w)) (take (unat n) buf) (sw_dev w) = (bytes, d)" and "length bytes = unat n"
  shows "\<exists>w'. icm20602_exchange (icm_chip cs put) me cs buf n w = Some (bytes @ drop (unat n) buf, w') \<and> spi_fine w' \<and> sw_dev w' = d"
proof -
  have fine: "bus_fine (sw_env w)" "sp_mutex (sw_spi w) = None" "sp_cs_mutex (sw_spi w) = None"
    using assms(1) by (auto simp: spi_fine_def)
  let ?w = "w \<lparr> sw_spi := (sw_spi w) \<lparr> sp_cs_mutex := Some me \<rparr>, sw_hw := gpio_reset cs (sw_hw w) \<rparr>"
  have sel: "spi_chip_select me cs w = Some ?w"
    using fine by (simp add: spi_chip_select_def)
  have ne: "take (unat n) buf \<noteq> []"
    using assms(2,4) by (simp add: unat_eq_zero)
  obtain w1 where t: "spi_transfer (icm_chip cs put) me SPI_TRANSMIT_RECEIVE (take (unat n) buf) ?w = Some (Hal 0, bytes, w1)" "sw_dev w1 = d"
      "sw_env w1 = sw_env w" "sp_mutex (sw_spi w1) = None" "sp_cs_mutex (sw_spi w1) = Some me"
    using spi_transfer_fine [of ?w "take (unat n) buf" "icm_chip cs put" bytes d me SPI_TRANSMIT_RECEIVE] fine assms(3,5,6) ne by auto
  have "received bytes buf = Some (bytes @ drop (unat n) buf)"
    using assms(3,6) by (simp add: received_def memcpy_def)
  then show ?thesis
    using sel t assms(3,4) fine by (simp add: icm20602_exchange_def spi_transmit_receive_def spi_chip_deselect_def spi_fine_def)
qed

lemma cs_low [simp]: "\<not> gh_level (gpio_reset cs hw) cs"
  by (simp add: gpio_reset_def)

text \<open>The bus registers of the chip have seven bits; the eighth tells reads from writes.\<close>

definition icm_valid :: "u8 \<Rightarrow> bool" where
  "icm_valid r \<longleftrightarrow> r AND 0x80 = 0"

lemma icm_valid_bits:
  assumes "icm_valid r"
  shows "(r OR ICM_READ) AND 0x80 \<noteq> 0" and "(r OR ICM_READ) AND 0x7F = r" and "r OR ICM_WRITE = r" and "r AND 0x80 = 0"
proof -
  have seven: "\<not> bit r 7"
  proof
    assume "bit r 7"
    then have "bit (r AND 0x80) 7"
      by (simp add: bit_simps)
    then show False
      using assms by (simp add: icm_valid_def)
  qed
  have "bit ((r OR ICM_READ) AND 0x80) 7"
    by (simp add: ICM_READ_def bit_simps)
  then show "(r OR ICM_READ) AND 0x80 \<noteq> 0"
    by auto
  show "(r OR ICM_READ) AND 0x7F = r"
  proof (rule bit_word_eqI)
    fix n assume "n < LENGTH(8)"
    then have "n \<in> {0, 1, 2, 3, 4, 5, 6, 7}"
      by auto
    then show "bit ((r OR ICM_READ) AND 0x7F) n = bit r n"
      using seven by (auto simp: ICM_READ_def bit_simps)
  qed
qed (use assms in \<open>simp_all add: ICM_WRITE_def icm_valid_def\<close>)

text \<open>A burst read of consecutive registers.\<close>

lemma icm_burst_read:
  assumes "spi_fine w" and "icm_valid r" and "length rest + 1 < 65536"
  shows "\<exists>w'. icm20602_exchange (icm_chip cs put) me cs ((r OR ICM_READ) # rest) (word_of_nat (length rest + 1)) w =
      Some (0 # reg_fetch (icm_regs w) r (length rest), w') \<and> spi_fine w' \<and> icm_regs w' = icm_regs w"
proof -
  have n: "unat (word_of_nat (length rest + 1) :: u16) = length rest + 1"
    using assms(3) by (intro unat_word_of_nat_less) simp
  then have n0: "(word_of_nat (length rest + 1) :: u16) \<noteq> 0"
    by (metis add_is_0 one_neq_zero unat_0)
  have chip: "icm_chip cs put (gpio_reset cs (sw_hw w)) ((r OR ICM_READ) # rest) (sw_dev w) = (0 # reg_fetch (icm_regs w) r (length rest), sw_dev w)"
    using icm_valid_bits [OF assms(2)] by (simp add: icm_chip_def reg_spi_chips_def icm_regs_def)
  show ?thesis
    using icm_exchange [OF assms(1), of "(r OR ICM_READ) # rest" "word_of_nat (length rest + 1)" cs put "0 # reg_fetch (icm_regs w) r (length rest)" "sw_dev w" me]
      n n0 chip by (auto simp: icm_regs_def)
qed

interpretation icm: reg_chip "icm20602_read_reg (icm_chip cs put) me cs" "icm20602_write_reg (icm_chip cs put) me cs" icm_regs spi_fine put icm_valid
  for cs put me
proof unfold_locales
  fix w :: "reg_dev spi_world" and r v :: u8
  assume ok: "spi_fine w" and valid: "icm_valid r"
  obtain w1 where "icm20602_exchange (icm_chip cs put) me cs [r OR ICM_READ, 0] 2 w = Some ([0, icm_regs w r], w1)" "spi_fine w1" "icm_regs w1 = icm_regs w"
    using icm_burst_read [OF ok valid, of "[0]" cs put me] by auto
  then show "\<exists>s'. icm20602_read_reg (icm_chip cs put) me cs r w = Some (icm_regs w r, s') \<and> spi_fine s' \<and> icm_regs s' = icm_regs w"
    by (simp add: icm20602_read_reg_def arr_get_def)
  have chip: "icm_chip cs put (gpio_reset cs (sw_hw w)) [r, v] (sw_dev w) =
      ([0, 0], (sw_dev w) \<lparr> rd_regs := (icm_regs w)(r := put r (icm_regs w r) v) \<rparr>)"
    using icm_valid_bits [OF valid] by (simp add: icm_chip_def reg_spi_chips_def icm_regs_def)
  show "\<exists>s'. icm20602_write_reg (icm_chip cs put) me cs r v w = Some s' \<and> spi_fine s' \<and> icm_regs s' = (icm_regs w)(r := put r (icm_regs w r) v)"
    using icm_exchange [OF ok, of "[r, v]" 2 cs put "[0, 0]" _ me] chip icm_valid_bits [OF valid]
    by (force simp: icm20602_write_reg_def icm_regs_def)
qed

section \<open>Properties\<close>

definition reg16 :: "(u8 \<Rightarrow> u8) \<Rightarrow> u8 \<Rightarrow> int" where
  "reg16 f r = sint (msb_lsb_16 (f r) (f (r + 1)))"

lemma icm_fifo_read:
  assumes "spi_fine w" and "length (im_fifo dev) = 15"
  shows "\<exists>w' fifo. icm20602_fifo_read (icm_chip (im_cs dev) put) me 1 (dev, w) =
      Some (dev \<lparr> im_samples := 1, im_bytes := 12, im_fifo := fifo \<rparr>, w') \<and> spi_fine w' \<and> icm_regs w' = icm_regs w \<and> length fifo = 15 \<and>
      (\<forall>i < 12. fifo ! (3 + i) = icm_regs w (ICM_ACCEL_XOUT_H + word_of_nat i))"
proof -
  let ?f = "(im_fifo dev)[2 := ICM_ACCEL_XOUT_H OR ICM_READ]"
  have split: "drop 2 ?f = (ICM_ACCEL_XOUT_H OR ICM_READ) # drop 3 (im_fifo dev)"
    using assms(2) by (simp add: drop_update_swap Cons_nth_drop_Suc [symmetric] eval_nat_numeral)
  have valid: "icm_valid ICM_ACCEL_XOUT_H"
    by (simp add: icm_valid_def ICM_ACCEL_XOUT_H_def)
  obtain w' where w': "icm20602_exchange (icm_chip (im_cs dev) put) me (im_cs dev) ((ICM_ACCEL_XOUT_H OR ICM_READ) # drop 3 (im_fifo dev)) 13 w =
      Some (0 # reg_fetch (icm_regs w) ICM_ACCEL_XOUT_H 12, w')" "spi_fine w'" "icm_regs w' = icm_regs w"
    using icm_burst_read [OF assms(1) valid, of "drop 3 (im_fifo dev)" "im_cs dev" put me] assms(2) by auto
  let ?fifo = "take 2 ?f @ 0 # reg_fetch (icm_regs w) ICM_ACCEL_XOUT_H 12"
  have "?fifo ! (3 + i) = icm_regs w (ICM_ACCEL_XOUT_H + word_of_nat i)" if "i < 12" for i
    using assms(2) that by (simp add: nth_append)
  moreover have "icm20602_fifo_read (icm_chip (im_cs dev) put) me 1 (dev, w) =
      Some (dev \<lparr> im_samples := 1, im_bytes := 12, im_fifo := ?fifo \<rparr>, w')"
    using w'(1) split by (simp add: icm20602_fifo_read_def icm20602_fifo_exchange_def)
  ultimately show ?thesis
    using w' assms(2) by (intro exI [of _ w'] exI [of _ ?fifo]) simp
qed

lemma icm_temp_process:
  assumes "spi_fine w"
  shows "\<exists>w'. icm20602_temp_process (icm_chip (im_cs dev) put) me (dev, w) =
      Some (dev \<lparr> im_buf_temp := reg16 (icm_regs w) ICM_TEMP_OUT_H \<rparr>, w') \<and> spi_fine w' \<and> icm_regs w' = icm_regs w"
proof -
  have valid: "icm_valid ICM_TEMP_OUT_H"
    by (simp add: icm_valid_def ICM_TEMP_OUT_H_def)
  obtain w' where "icm20602_exchange (icm_chip (im_cs dev) put) me (im_cs dev) [ICM_TEMP_OUT_H OR ICM_READ, 0, 0] 3 w =
      Some (0 # reg_fetch (icm_regs w) ICM_TEMP_OUT_H 2, w')" "spi_fine w'" "icm_regs w' = icm_regs w"
    using icm_burst_read [OF assms valid, of "[0, 0]" "im_cs dev" put me] by (auto simp: numeral_2_eq_2)
  then show ?thesis
    by (simp add: icm20602_temp_process_def arr_get_def reg16_def)
qed

text \<open>A measuring period reads 12 bytes from the first acceleration register on, but behind the six bytes of the acceleration are the two of
  the temperature: the value stored as the rotation around x is the temperature of the same period, the values
  stored for y and z come from the registers of x and y, and the rotation around z is never read.\<close>

theorem icm20602_gyro_shifted:
  assumes "spi_fine w" and "im_state dev = ICM20602_FIFO_READ" and "im_drdy dev \<longrightarrow> im_drdy_sem dev"
    and "length (im_fifo dev) = 15" and "im_mutex dev = None"
  shows "\<exists>dev' w'. icm20602_fsm (icm_chip (im_cs dev) put) me released (dev, w) = Some (dev', w') \<and> im_measrdy_sem dev' \<and>
     im_state dev' = ICM20602_FIFO_READ \<and>
     im_accel dev' = (reg16 (icm_regs w) ICM_ACCEL_XOUT_H, neg16 (reg16 (icm_regs w) 0x3D), neg16 (reg16 (icm_regs w) 0x3F)) \<and>
     im_buf_temp dev' = reg16 (icm_regs w) ICM_TEMP_OUT_H \<and>
     im_gyro dev' = (im_buf_temp dev', neg16 (reg16 (icm_regs w) 0x43), neg16 (reg16 (icm_regs w) 0x45))"
proof -
  let ?d = "if im_drdy dev then dev \<lparr> im_drdy_sem := False \<rparr> else dev"
  have d: "length (im_fifo ?d) = 15" "im_cs ?d = im_cs dev" "im_mutex ?d = None" "im_drdy ?d = im_drdy dev" "im_state ?d = ICM20602_FIFO_READ"
    using assms by auto
  obtain w1 fifo where 1: "icm20602_fifo_read (icm_chip (im_cs dev) put) me 1 (?d, w) =
      Some (?d \<lparr> im_samples := 1, im_bytes := 12, im_fifo := fifo \<rparr>, w1)" "spi_fine w1" "icm_regs w1 = icm_regs w"
      "\<forall>i < 12. fifo ! (3 + i) = icm_regs w (ICM_ACCEL_XOUT_H + word_of_nat i)"
    using icm_fifo_read [OF assms(1) d(1), of put me] d(2) by auto
  let ?d1 = "?d \<lparr> im_samples := 1, im_bytes := 12, im_fifo := fifo \<rparr>"
  obtain w2 where 2: "icm20602_temp_process (icm_chip (im_cs dev) put) me (?d1, w1) =
      Some (?d1 \<lparr> im_buf_temp := reg16 (icm_regs w) ICM_TEMP_OUT_H \<rparr>, w2)"
    using icm_temp_process [OF 1(2), of ?d1 put me] d(2) 1(3) by auto
  have s: "sample16 fifo i = reg16 (icm_regs w) (ICM_ACCEL_XOUT_H + word_of_nat i)" if "i \<in> {0, 2, 4, 6, 8, 10}" for i
  proof -
    have lt: "i < 12" "i + 1 < 12"
      using that by auto
    have 0: "fifo ! (3 + i) = icm_regs w (ICM_ACCEL_XOUT_H + word_of_nat i)"
      using 1(4) lt(1) by blast
    have "fifo ! (3 + (i + 1)) = icm_regs w (ICM_ACCEL_XOUT_H + word_of_nat (i + 1))"
      using 1(4) lt(2) by blast
    moreover have "4 + i = 3 + (i + 1)" and "ICM_ACCEL_XOUT_H + word_of_nat i + 1 = ICM_ACCEL_XOUT_H + word_of_nat (i + 1)"
      by simp_all
    ultimately show ?thesis
      using 0 by (simp only: sample16_def reg16_def)
  qed
  let ?d2 = "?d1 \<lparr> im_buf_temp := reg16 (icm_regs w) ICM_TEMP_OUT_H \<rparr>"
  let ?d3 = "?d2 \<lparr> im_buf_accel := (sample16 fifo 0, neg16 (sample16 fifo 2), neg16 (sample16 fifo 4)) \<rparr>"
  let ?d4 = "?d3 \<lparr> im_buf_gyro := (sample16 fifo 6, neg16 (sample16 fifo 8), neg16 (sample16 fifo 10)) \<rparr>"
  have 3: "icm20602_accel_process ?d2 = Some ?d3"
    by (simp add: icm20602_accel_process_def)
  have 4: "icm20602_gyro_process ?d3 = Some ?d4"
    by (simp add: icm20602_gyro_process_def)
  let ?d5 = "?d4 \<lparr> im_accel := im_buf_accel ?d4, im_gyro := im_buf_gyro ?d4, im_mutex := None \<rparr>"
  have 5: "icm20602_update_meas me released ?d4 = Some ?d5"
    using d(3) by (simp add: icm20602_update_meas_def)
  have "icm20602_fsm (icm_chip (im_cs dev) put) me released (dev, w) =
      Some ((if im_drdy ?d5 then ?d5 \<lparr> im_irq_on := True \<rparr> else ?d5) \<lparr> im_measrdy_sem := True \<rparr>, w2)"
    using assms(2,3) 1(1) 2 3 4 5 by (simp add: icm20602_fsm_def Let_def del: if_split)
  then show ?thesis
    using d(5) s by (auto simp: ICM_ACCEL_XOUT_H_def ICM_TEMP_OUT_H_def)
qed

text \<open>A measuring sensor for the concrete instances; its register r holds r.\<close>

definition demo_icm :: icm20602 where
  "demo_icm = \<lparr> im_cs = \<lparr> gp_port = GPIOA, gp_pin = 4 \<rparr>, im_drdy = True, im_irq_on = True, im_drdy_sem = True, im_measrdy_sem = False,
     im_mutex = None, im_state = ICM20602_FIFO_READ, im_attempt = 0, im_fifo = replicate 15 0, im_bytes = 0, im_samples = 0,
     im_accel_range = 16, im_gyro_range = 2000, im_buf_accel = (0, 0, 0), im_buf_gyro = (0, 0, 0), im_buf_temp = 0,
     im_accel = (0, 0, 0), im_gyro = (0, 0, 0), im_deleted = False \<rparr>"

definition demo_spi :: "(u8 \<Rightarrow> u8) \<Rightarrow> reg_dev spi_world" where
  "demo_spi f = \<lparr> sw_spi = \<lparr> sp_instance = SPI1, sp_mosi = None, sp_miso = None, sp_sck = None, sp_dma_tx = None, sp_dma_rx = None,
       sp_irq_priority = 5, sp_id = 35, sp_sem = False, sp_mutex = None, sp_cs_mutex = None, sp_state = SPI_FREE \<rparr>,
     sw_hw = reset_hw, sw_env = (\<lambda>_. \<lparr> be_released = True, be_start = 0, be_done = True, be_moved = 0 \<rparr>), sw_calls = 0,
     sw_dev = \<lparr> rd_ptr = 0, rd_regs = f \<rparr> \<rparr>"

theorem icm20602_gyro_shifted_witness:
  "\<exists>dev' w'. icm20602_fsm (icm_chip (im_cs demo_icm) (\<lambda>_ _ v. v)) 1 True (demo_icm, demo_spi (\<lambda>r. r)) = Some (dev', w') \<and>
     im_gyro dev' = (im_buf_temp dev', - 0x4344, - 0x4546) \<and> im_buf_temp dev' = 0x4142"
proof -
  have fine: "spi_fine (demo_spi (\<lambda>r. r))"
    by (simp add: demo_spi_def spi_fine_def bus_fine_def)
  have d: "im_state demo_icm = ICM20602_FIFO_READ" "im_drdy demo_icm \<longrightarrow> im_drdy_sem demo_icm" "length (im_fifo demo_icm) = 15" "im_mutex demo_icm = None"
    by (simp_all add: demo_icm_def)
  have r: "icm_regs (demo_spi (\<lambda>r. r)) = (\<lambda>r. r)"
    by (simp add: icm_regs_def demo_spi_def)
  have "reg16 (\<lambda>r. r) ICM_TEMP_OUT_H = 0x4142" and "neg16 (reg16 (\<lambda>r. r) 0x43) = - 0x4344" and "neg16 (reg16 (\<lambda>r. r) 0x45) = - 0x4546"
    by code_simp+
  then show ?thesis
    using icm20602_gyro_shifted [OF fine d, of "\<lambda>_ _ v. v" 1 True] r by auto
qed

end
