(* ===== verification/Icm20649.thy ===== *)
theory Icm20649
  imports Icm20602
begin

text \<open>
  The inertial sensors with banks of registers: bsp/ics/icm20649/icm20649.c, the one the flight board starts, and
  bsp/ics/icm20948/icm20948.c, which contains the same functions but for its tables, its ranges, the
  configuration of the bank 3 and the copy of the measurements. The functions are defined once over the record
  \<open>bank_chip\<close> of the differences. The bank selected last is a static variable of the
  file, so it is part of the world and not of the device. None is a call that never returns or an access outside an array.
\<close>

section \<open>Registers\<close>

definition BK_WHO_AM_I :: u8 where "BK_WHO_AM_I = 0x00"
definition BK_USER_CTRL :: u8 where "BK_USER_CTRL = 0x03"
definition BK_PWR_MGMT_1 :: u8 where "BK_PWR_MGMT_1 = 0x06"
definition BK_ACCEL_XOUT_H :: u8 where "BK_ACCEL_XOUT_H = 0x2D"
definition BK_TEMP_OUT_H :: u8 where "BK_TEMP_OUT_H = 0x39"
definition BK_FIFO_RST :: u8 where "BK_FIFO_RST = 0x68"
definition BK_FIFO_COUNTH :: u8 where "BK_FIFO_COUNTH = 0x70"
definition BK_REG_BANK_SEL :: u8 where "BK_REG_BANK_SEL = 0x7F"
definition BK_GYRO_CONFIG_1 :: u8 where "BK_GYRO_CONFIG_1 = 0x01"
definition BK_ACCEL_CONFIG :: u8 where "BK_ACCEL_CONFIG = 0x14"
definition BK_FIFO_RESET :: u8 where "BK_FIFO_RESET = 0x1F"
definition BANK_0 :: u8 where "BANK_0 = 0"
definition BANK_2 :: u8 where "BANK_2 = 0x20"
definition BANK_3 :: u8 where "BANK_3 = 0x30"
definition BK_READ :: u8 where "BK_READ = 0x80"
definition BK_WRITE :: u8 where "BK_WRITE = 0x00"

definition reg_table :: "(u8 \<times> u8 \<times> u8) list \<Rightarrow> reg_cfg list" where
  "reg_table = map (\<lambda>(r, s, c). \<lparr> rc_reg = r, rc_setbits = s, rc_clearbits = c \<rparr>)"

text \<open>The first table has room for one entry more than it lists; that entry is zero.\<close>

definition icm20649_bank_0_cfg :: "reg_cfg list" where
  "icm20649_bank_0_cfg = reg_table [(0x03, 0x10, 0xE0), (0x06, 0x01, 0xE0), (0x0F, 0x80, 0), (0x11, 0x01, 0), (0x67, 0, 0x1F), (0x69, 0x01, 0), (0, 0, 0)]"

definition icm20649_bank_2_cfg :: "reg_cfg list" where
  "icm20649_bank_2_cfg = reg_table [(0x01, 0x31, 0x0E), (0x14, 0x3D, 0x02), (0x10, 0, 0xFF), (0x11, 0, 0xFF), (0x00, 0, 0xFF)]"

definition icm20948_bank_0_cfg :: "reg_cfg list" where
  "icm20948_bank_0_cfg = reg_table [(0x03, 0x70, 0x80), (0x06, 0x01, 0xC0), (0x0F, 0x80, 0), (0x11, 0x01, 0), (0x67, 0, 0x1F), (0x69, 0x01, 0)]"

definition icm20948_bank_2_cfg :: "reg_cfg list" where
  "icm20948_bank_2_cfg = reg_table [(0x01, 0x3F, 0), (0x14, 0x3F, 0), (0x10, 0, 0xFF), (0x11, 0, 0xFF), (0x00, 0, 0xFF)]"

definition icm20948_bank_3_cfg :: "bool \<Rightarrow> reg_cfg list" where
  "icm20948_bank_3_cfg mag = reg_table (if mag then [(0x01, 0x17, 0), (0x02, 0x1F, 0), (0x15, 0x1F, 0)] else [(0x01, 0, 0), (0x02, 0, 0), (0x15, 0, 0)])"

text \<open>What differs: the identity, the tables by bank (the flag asks for the magnetometer), and the range and the counts
  per g, or the range in degrees per second, that the two bits of a configuration register select.\<close>

record bank_chip =
  bc_whoami :: u8
  bc_tables :: "bool \<Rightarrow> (u8 \<times> reg_cfg list) list"
  bc_accel :: "u8 \<Rightarrow> (nat \<times> nat) option"
  bc_gyro :: "u8 \<Rightarrow> nat option"

definition icm20649_chip :: bank_chip where
  "icm20649_chip = \<lparr> bc_whoami = 0xE1,
     bc_tables = (\<lambda>_. [(BANK_0, icm20649_bank_0_cfg), (BANK_2, icm20649_bank_2_cfg)]),
     bc_accel = (\<lambda>sel. map_of [(0, (4, 8192)), (0x02, (8, 4096)), (0x04, (16, 2048)), (0x06, (30, 1024))] sel),
     bc_gyro = (\<lambda>sel. map_of [(0, 500), (0x02, 1000), (0x04, 2000), (0x06, 4000)] sel) \<rparr>"

definition icm20948_chip :: bank_chip where
  "icm20948_chip = \<lparr> bc_whoami = 0xEA,
     bc_tables = (\<lambda>mag. [(BANK_0, icm20948_bank_0_cfg), (BANK_2, icm20948_bank_2_cfg), (BANK_3, icm20948_bank_3_cfg mag)]),
     bc_accel = (\<lambda>sel. map_of [(0, (2, 16384)), (0x02, (4, 8192)), (0x04, (8, 4096)), (0x06, (16, 2048))] sel),
     bc_gyro = (\<lambda>sel. map_of [(0, 250), (0x02, 500), (0x04, 1000), (0x06, 2000)] sel) \<rparr>"

section \<open>State\<close>

datatype icm20649_state = ICM20649_RESET | ICM20649_RESET_WAIT | ICM20649_CONF | ICM20649_FIFO_READ | ICM20649_FAIL

text \<open>\<open>ib_head\<close>: the bytes the structure begins with, its name and the addresses of its objects.\<close>

record icm20649 =
  ib_head :: "u8 list"
  ib_cs :: gpio
  ib_drdy :: bool
  ib_irq_on :: bool
  ib_drdy_sem :: bool
  ib_measrdy_sem :: bool
  ib_mutex :: mutex
  ib_mutex_made :: bool
  ib_enable_mag :: bool
  ib_state :: icm20649_state
  ib_attempt :: u8
  ib_fifo :: "u8 list"
  ib_bytes :: u16
  ib_samples :: u16
  ib_accel_range :: "nat \<times> nat"
  ib_gyro_range :: nat
  ib_buf_accel :: "int \<times> int \<times> int"
  ib_buf_gyro :: "int \<times> int \<times> int"
  ib_buf_temp :: int
  ib_accel :: "int \<times> int \<times> int"
  ib_gyro :: "int \<times> int \<times> int"
  ib_deleted :: bool

text \<open>The bus, and the static variable \<open>prev_bank\<close>.\<close>

type_synonym 'd bank_world = "u8 \<times> 'd spi_world"
type_synonym 'd bank_sys = "icm20649 \<times> 'd bank_world"

section \<open>Register accesses\<close>

definition bank_set_bank :: "'d spi_chips \<Rightarrow> task \<Rightarrow> u8 \<Rightarrow> 'd bank_world \<Rightarrow> 'd bank_world option" where
  "bank_set_bank chips me bank bw = (case bw of (prev_bank, w) \<Rightarrow>
     if bank \<noteq> prev_bank then do {
       (rv, b, w) \<leftarrow> spi_transmit_receive chips me (Some [BK_REG_BANK_SEL, bank]) (Some [BK_REG_BANK_SEL, bank]) 2 w;
       Some (bank, w)
     }
     else Some (bank, w))"

definition bank_exchange ::
    "'d spi_chips \<Rightarrow> task \<Rightarrow> gpio \<Rightarrow> u8 \<Rightarrow> u8 list \<Rightarrow> u16 \<Rightarrow> 'd bank_world \<Rightarrow> (u8 list \<times> 'd bank_world) option" where
  "bank_exchange chips me cs bank buf n bw = (case bw of (prev_bank, w) \<Rightarrow> do {
     w \<leftarrow> spi_chip_select me cs w;
     (prev_bank, w) \<leftarrow> bank_set_bank chips me bank (prev_bank, w);
     (rv, b, w) \<leftarrow> spi_transmit_receive chips me (Some buf) (Some buf) n w;
     w \<leftarrow> spi_chip_deselect me cs w;
     b \<leftarrow> b;
     Some (b, prev_bank, w)
   })"

definition bank_read_reg :: "'d spi_chips \<Rightarrow> task \<Rightarrow> gpio \<Rightarrow> u8 \<Rightarrow> 'd bank_world reg_read" where
  "bank_read_reg chips me cs bank reg bw = do {
     (b, bw) \<leftarrow> bank_exchange chips me cs bank [reg OR BK_READ, 0] 2 bw;
     v \<leftarrow> arr_get b 1;
     Some (v, bw)
   }"

definition bank_write_reg :: "'d spi_chips \<Rightarrow> task \<Rightarrow> gpio \<Rightarrow> u8 \<Rightarrow> 'd bank_world reg_write" where
  "bank_write_reg chips me cs bank reg v bw = map_option snd (bank_exchange chips me cs bank [reg OR BK_WRITE, v] 2 bw)"

definition bank_set_clear_reg :: "'d spi_chips \<Rightarrow> task \<Rightarrow> gpio \<Rightarrow> u8 \<Rightarrow> u8 \<Rightarrow> u8 \<Rightarrow> u8 \<Rightarrow> 'd bank_world \<Rightarrow> 'd bank_world option" where
  "bank_set_clear_reg chips me cs bank = set_clear_reg (bank_read_reg chips me cs bank) (bank_write_reg chips me cs bank)"

section \<open>Configuration\<close>

text \<open>For each bank: write its table, then check it.\<close>

fun bank_tables :: "'d spi_chips \<Rightarrow> task \<Rightarrow> gpio \<Rightarrow> (u8 \<times> reg_cfg list) list \<Rightarrow> bool \<Rightarrow> 'd bank_world \<Rightarrow> (bool \<times> 'd bank_world) option" where
  "bank_tables chips me cs [] rv bw = Some (rv, bw)"
| "bank_tables chips me cs ((bank, cfg) # ts) rv bw = do {
     bw \<leftarrow> cfg_write (bank_read_reg chips me cs bank) (bank_write_reg chips me cs bank) cfg bw;
     (rv, bw) \<leftarrow> cfg_check (bank_read_reg chips me cs bank) cfg rv bw;
     bank_tables chips me cs ts rv bw
   }"

definition bank_accel_configure :: "bank_chip \<Rightarrow> 'd spi_chips \<Rightarrow> task \<Rightarrow> 'd bank_sys \<Rightarrow> 'd bank_sys option" where
  "bank_accel_configure chip chips me s = (case s of (dev, bw) \<Rightarrow> do {
     (v, bw) \<leftarrow> bank_read_reg chips me (ib_cs dev) BANK_2 BK_ACCEL_CONFIG bw;
     Some (case bc_accel chip (v AND 0x06) of None \<Rightarrow> dev | Some r \<Rightarrow> dev \<lparr> ib_accel_range := r \<rparr>, bw)
   })"

definition bank_gyro_configure :: "bank_chip \<Rightarrow> 'd spi_chips \<Rightarrow> task \<Rightarrow> 'd bank_sys \<Rightarrow> 'd bank_sys option" where
  "bank_gyro_configure chip chips me s = (case s of (dev, bw) \<Rightarrow> do {
     (v, bw) \<leftarrow> bank_read_reg chips me (ib_cs dev) BANK_2 BK_GYRO_CONFIG_1 bw;
     Some (case bc_gyro chip (v AND 0x06) of None \<Rightarrow> dev | Some r \<Rightarrow> dev \<lparr> ib_gyro_range := r \<rparr>, bw)
   })"

definition bank_configure :: "bank_chip \<Rightarrow> 'd spi_chips \<Rightarrow> task \<Rightarrow> 'd bank_sys \<Rightarrow> (bool \<times> 'd bank_sys) option" where
  "bank_configure chip chips me s = (case s of (dev, bw) \<Rightarrow> do {
     (rv, bw) \<leftarrow> bank_tables chips me (ib_cs dev) (bc_tables chip (ib_enable_mag dev)) True bw;
     (dev, bw) \<leftarrow> bank_accel_configure chip chips me (dev, bw);
     (dev, bw) \<leftarrow> bank_gyro_configure chip chips me (dev, bw);
     Some (rv, if ib_drdy dev then dev \<lparr> ib_irq_on := True \<rparr> else dev, bw)
   })"

definition bank_fifo_reset :: "'d spi_chips \<Rightarrow> task \<Rightarrow> 'd bank_sys \<Rightarrow> 'd bank_sys option" where
  "bank_fifo_reset chips me s = (case s of (dev, bw) \<Rightarrow> do {
     bw \<leftarrow> bank_write_reg chips me (ib_cs dev) BANK_0 BK_FIFO_RST BK_FIFO_RESET bw;
     bw \<leftarrow> bank_set_clear_reg chips me (ib_cs dev) BANK_0 BK_FIFO_RST 0 BK_FIFO_RESET bw;
     Some (dev, bw)
   })"

section \<open>Measurements\<close>

definition bank_fifo_exchange :: "'d spi_chips \<Rightarrow> task \<Rightarrow> nat \<Rightarrow> u16 \<Rightarrow> 'd bank_sys \<Rightarrow> 'd bank_sys option" where
  "bank_fifo_exchange chips me i n s = (case s of (dev, bw) \<Rightarrow> do {
     (b, bw) \<leftarrow> bank_exchange chips me (ib_cs dev) BANK_0 (drop i (ib_fifo dev)) n bw;
     Some (dev \<lparr> ib_fifo := take i (ib_fifo dev) @ b \<rparr>, bw)
   })"

definition bank_fifo_read :: "'d spi_chips \<Rightarrow> task \<Rightarrow> u16 \<Rightarrow> 'd bank_sys \<Rightarrow> 'd bank_sys option" where
  "bank_fifo_read chips me samples s = (case s of (dev, bw) \<Rightarrow>
     if samples > 1 then do {
       (dev, bw) \<leftarrow> bank_fifo_exchange chips me 0 3 (dev \<lparr> ib_fifo := (ib_fifo dev)[0 := BK_FIFO_COUNTH OR BK_READ] \<rparr>, bw);
       let bytes = min (msb_lsb_16 (ib_fifo dev ! 1) (ib_fifo dev ! 2)) samples;
       let dev = dev \<lparr> ib_bytes := bytes, ib_samples := bytes div 12, ib_fifo := (ib_fifo dev)[0 := BK_FIFO_COUNTH OR BK_READ] \<rparr>;
       bank_fifo_exchange chips me 0 (bytes + 3) (dev, bw)
     }
     else bank_fifo_exchange chips me 2 13
       (dev \<lparr> ib_fifo := (ib_fifo dev)[2 := BK_ACCEL_XOUT_H OR BK_READ], ib_samples := 1, ib_bytes := 12 \<rparr>, bw))"

definition bank_accel_process :: "icm20649 \<Rightarrow> icm20649 option" where
  "bank_accel_process dev =
     (if ib_samples dev = 0 then Some dev
      else if ib_samples dev > 1 then None
      else Some (dev \<lparr> ib_buf_accel := (sample16 (ib_fifo dev) 0, neg16 (sample16 (ib_fifo dev) 2), neg16 (sample16 (ib_fifo dev) 4)) \<rparr>))"

definition bank_gyro_process :: "icm20649 \<Rightarrow> icm20649 option" where
  "bank_gyro_process dev =
     (if ib_samples dev = 0 then Some dev
      else if ib_samples dev > 1 then None
      else Some (dev \<lparr> ib_buf_gyro := (sample16 (ib_fifo dev) 6, neg16 (sample16 (ib_fifo dev) 8), neg16 (sample16 (ib_fifo dev) 10)) \<rparr>))"

text \<open>The two bytes behind the command are not initialised in the code; the chip ignores them.\<close>

definition bank_temp_process :: "'d spi_chips \<Rightarrow> task \<Rightarrow> 'd bank_sys \<Rightarrow> 'd bank_sys option" where
  "bank_temp_process chips me s = (case s of (dev, bw) \<Rightarrow> do {
     (b, bw) \<leftarrow> bank_exchange chips me (ib_cs dev) BANK_0 [BK_TEMP_OUT_H OR BK_READ, 0, 0] 3 bw;
     h \<leftarrow> arr_get b 1;
     l \<leftarrow> arr_get b 2;
     Some (dev \<lparr> ib_buf_temp := sint (msb_lsb_16 h l) \<rparr>, bw)
   })"

text \<open>The mutex that guards the measurements; it may not have been made.\<close>

definition bank_lock :: "task \<Rightarrow> bool \<Rightarrow> icm20649 \<Rightarrow> mutex option" where
  "bank_lock me released dev = (if \<not> ib_mutex_made dev then None else do {
     m \<leftarrow> mutex_take_forever me released (ib_mutex dev);
     mutex_give me m
   })"

definition bank_update_meas :: "task \<Rightarrow> bool \<Rightarrow> icm20649 \<Rightarrow> icm20649 option" where
  "bank_update_meas me released dev = do {
     m \<leftarrow> bank_lock me released dev;
     Some (dev \<lparr> ib_accel := ib_buf_accel dev, ib_gyro := ib_buf_gyro dev, ib_mutex := m \<rparr>)
   }"

section \<open>The state machine\<close>

definition bank_after_reset :: "bank_chip \<Rightarrow> 'd spi_chips \<Rightarrow> task \<Rightarrow> gpio \<Rightarrow> 'd bank_world \<Rightarrow> (bool \<times> 'd bank_world) option" where
  "bank_after_reset chip chips me cs bw = do {
     (v, bw) \<leftarrow> bank_read_reg chips me cs BANK_0 BK_WHO_AM_I bw;
     if v \<noteq> bc_whoami chip then Some (False, bw)
     else do {
       (v, bw) \<leftarrow> bank_read_reg chips me cs BANK_0 BK_PWR_MGMT_1 bw;
       Some (v = 0x41, bw)
     }
   }"

definition bank_fsm :: "bank_chip \<Rightarrow> 'd spi_chips \<Rightarrow> task \<Rightarrow> bool \<Rightarrow> 'd bank_sys \<Rightarrow> 'd bank_sys option" where
  "bank_fsm chip chips me released s = (case s of (dev, bw) \<Rightarrow>
     (case ib_state dev of
        ICM20649_RESET \<Rightarrow> do {
          bw \<leftarrow> bank_write_reg chips me (ib_cs dev) BANK_0 BK_PWR_MGMT_1 0x80 bw;
          Some (dev \<lparr> ib_state := ICM20649_RESET_WAIT \<rparr>, bw)
        }
      | ICM20649_RESET_WAIT \<Rightarrow> do {
          (good, bw) \<leftarrow> bank_after_reset chip chips me (ib_cs dev) bw;
          if good then do {
            bw \<leftarrow> bank_write_reg chips me (ib_cs dev) BANK_0 BK_PWR_MGMT_1 0x01 bw;
            bw \<leftarrow> bank_write_reg chips me (ib_cs dev) BANK_0 BK_USER_CTRL 0x14 bw;
            Some (dev \<lparr> ib_state := ICM20649_CONF \<rparr>, bw)
          }
          else (let dev = dev \<lparr> ib_state := ICM20649_RESET, ib_attempt := ib_attempt dev + 1 \<rparr> in
            Some (if ib_attempt dev > 5 then dev \<lparr> ib_state := ICM20649_FAIL, ib_attempt := 0 \<rparr> else dev, bw))
        }
      | ICM20649_CONF \<Rightarrow> do {
          (rv, dev, bw) \<leftarrow> bank_configure chip chips me (dev, bw);
          if rv then do {
            (dev, bw) \<leftarrow> bank_fifo_reset chips me (dev, bw);
            Some (dev \<lparr> ib_state := ICM20649_FIFO_READ \<rparr>, bw)
          }
          else (let dev = dev \<lparr> ib_attempt := ib_attempt dev + 1 \<rparr> in
            Some (if ib_attempt dev > 5 then dev \<lparr> ib_state := ICM20649_RESET, ib_attempt := 0 \<rparr> else dev, bw))
        }
      | ICM20649_FIFO_READ \<Rightarrow>
          if ib_drdy dev \<and> \<not> ib_drdy_sem dev then None
          else do {
            let dev = (if ib_drdy dev then dev \<lparr> ib_drdy_sem := False \<rparr> else dev);
            (dev, bw) \<leftarrow> bank_fifo_read chips me 1 (dev, bw);
            (dev, bw) \<leftarrow> bank_temp_process chips me (dev, bw);
            dev \<leftarrow> bank_accel_process dev;
            dev \<leftarrow> bank_gyro_process dev;
            dev \<leftarrow> bank_update_meas me released dev;
            let dev = (if ib_drdy dev then dev \<lparr> ib_irq_on := True \<rparr> else dev);
            Some (dev \<lparr> ib_measrdy_sem := True \<rparr>, bw)
          }
      | ICM20649_FAIL \<Rightarrow> Some (dev \<lparr> ib_measrdy_sem := True, ib_deleted := True \<rparr>, bw)))"

definition icm20649_fsm :: "'d spi_chips \<Rightarrow> task \<Rightarrow> bool \<Rightarrow> 'd bank_sys \<Rightarrow> 'd bank_sys option" where
  "icm20649_fsm = bank_fsm icm20649_chip"

definition icm20948_fsm :: "'d spi_chips \<Rightarrow> task \<Rightarrow> bool \<Rightarrow> 'd bank_sys \<Rightarrow> 'd bank_sys option" where
  "icm20948_fsm = bank_fsm icm20948_chip"

definition icm20649_drdy_handler :: "icm20649 \<Rightarrow> icm20649" where
  "icm20649_drdy_handler dev = dev \<lparr> ib_drdy_sem := True, ib_irq_on := False \<rparr>"

section \<open>Readers\<close>

definition icm20649_get_meas_non_block ::
    "task \<Rightarrow> bool \<Rightarrow> icm20649 \<Rightarrow> (((int \<times> int \<times> int) \<times> (int \<times> int \<times> int)) \<times> icm20649) option" where
  "icm20649_get_meas_non_block me released dev = do {
     m \<leftarrow> bank_lock me released dev;
     Some ((ib_accel dev, ib_gyro dev), dev \<lparr> ib_mutex := m \<rparr>)
   }"

definition icm20649_get_meas_block ::
    "task \<Rightarrow> bool \<Rightarrow> icm20649 \<Rightarrow> (((int \<times> int \<times> int) \<times> (int \<times> int \<times> int)) \<times> icm20649) option" where
  "icm20649_get_meas_block me released dev =
     (if \<not> ib_measrdy_sem dev then None else icm20649_get_meas_non_block me released (dev \<lparr> ib_measrdy_sem := False \<rparr>))"

text \<open>The copy of the other file starts at the device, not at its measurements: seven doubles of its first bytes.\<close>

definition icm20948_get_meas_non_block :: "task \<Rightarrow> bool \<Rightarrow> icm20649 \<Rightarrow> (u8 list \<times> icm20649) option" where
  "icm20948_get_meas_non_block me released dev = do {
     m \<leftarrow> bank_lock me released dev;
     Some (take 56 (ib_head dev), dev \<lparr> ib_mutex := m \<rparr>)
   }"

definition icm20948_get_meas_block :: "task \<Rightarrow> bool \<Rightarrow> icm20649 \<Rightarrow> (u8 list \<times> icm20649) option" where
  "icm20948_get_meas_block me released dev =
     (if \<not> ib_measrdy_sem dev then None else icm20948_get_meas_non_block me released (dev \<lparr> ib_measrdy_sem := False \<rparr>))"

section \<open>Start\<close>

text \<open>The results of the calls that make the objects.\<close>

record icm20649_made =
  md_device :: bool
  md_exti :: bool
  md_drdy_sem :: bool
  md_measrdy_sem :: bool
  md_mutex :: bool
  md_service :: bool

text \<open>Up to the call that waits for the first measurement. None is a null pointer; \<open>None\<close> for \<open>drdy\<close> is no pin.\<close>

definition icm20649_start ::
    "icm20649_made \<Rightarrow> u8 list \<Rightarrow> bool \<Rightarrow> u32 \<Rightarrow> u32 \<Rightarrow> bool \<Rightarrow> gpio option \<Rightarrow> bool \<Rightarrow> icm20649 option" where
  "icm20649_start mk head name period priority spi cs drdy =
     (case cs of None \<Rightarrow> None | Some cs \<Rightarrow>
       if \<not> spi \<or> \<not> name \<or> period \<le> 0 \<or> priority \<le> 0 then None
       else if \<not> md_device mk then None
       else if drdy \<and> (\<not> md_exti mk \<or> \<not> md_drdy_sem mk) then None
       else if \<not> md_measrdy_sem mk then None
       else if \<not> md_service mk then None
       else Some \<lparr> ib_head = head, ib_cs = cs, ib_drdy = drdy, ib_irq_on = False, ib_drdy_sem = False, ib_measrdy_sem = False,
          ib_mutex = None, ib_mutex_made = md_mutex mk, ib_enable_mag = False, ib_state = ICM20649_RESET, ib_attempt = 0,
          ib_fifo = replicate 15 0, ib_bytes = 0, ib_samples = 0, ib_accel_range = (0, 1), ib_gyro_range = 0,
          ib_buf_accel = (0, 0, 0), ib_buf_gyro = (0, 0, 0), ib_buf_temp = 0, ib_accel = (0, 0, 0), ib_gyro = (0, 0, 0), ib_deleted = False \<rparr>)"

text \<open>The other file notices that the mutex could not be made, and stores the flag.\<close>

definition icm20948_start ::
    "icm20649_made \<Rightarrow> u8 list \<Rightarrow> bool \<Rightarrow> u32 \<Rightarrow> u32 \<Rightarrow> bool \<Rightarrow> gpio option \<Rightarrow> bool \<Rightarrow> bool \<Rightarrow> icm20649 option" where
  "icm20948_start mk head name period priority spi cs drdy enable_mag =
     (if \<not> md_mutex mk then None
      else map_option (\<lambda>dev. dev \<lparr> ib_enable_mag := enable_mag \<rparr>) (icm20649_start mk head name period priority spi cs drdy))"

section \<open>The chip through the driver\<close>

text \<open>A chip with banks of registers on SPI, for transfers that have the chip select to themselves: the first byte of a transfer is a command, whose highest bit
  tells a read; the register 0x7F holds the bank, the others are those of the bank. When the driver changes the bank it sends the bank select and the
  access in two transfers under one chip select (\<open>bank_exchange\<close>); what the chip makes of the second one is not documented under src/. So the
  theorems below are about accesses that send no bank select: those in the bank already selected, and those after a bank select that was not sent.\<close>

record bank_dev =
  bd_bank :: u8
  bd_regs :: "u8 \<Rightarrow> u8 \<Rightarrow> u8"

definition bank_spi_chips :: "gpio \<Rightarrow> (u8 \<Rightarrow> u8 \<Rightarrow> u8 \<Rightarrow> u8 \<Rightarrow> u8) \<Rightarrow> bank_dev spi_chips" where
  "bank_spi_chips cs put hw bs d =
     (if gh_level hw cs then (replicate (length bs) 0xFF, d)
      else (case bs of [] \<Rightarrow> ([], d)
        | b # vs \<Rightarrow>
          if b AND 0x80 \<noteq> 0 then (0 # reg_fetch (bd_regs d (bd_bank d)) (b AND 0x7F) (length vs), d)
          else if b = BK_REG_BANK_SEL then (replicate (length bs) 0, case vs of [] \<Rightarrow> d | v # _ \<Rightarrow> d \<lparr> bd_bank := v AND 0x30 \<rparr>)
          else (replicate (length bs) 0, d \<lparr> bd_regs := (bd_regs d)(bd_bank d := reg_store (put (bd_bank d)) b vs (bd_regs d (bd_bank d))) \<rparr>)))"

definition bk_regs :: "u8 \<Rightarrow> bank_dev bank_world \<Rightarrow> u8 \<Rightarrow> u8" where
  "bk_regs bank bw = bd_regs (sw_dev (snd bw)) bank"

text \<open>The driver knows the bank of the chip, or knows that it does not know it.\<close>

definition bank_known :: "bank_dev bank_world \<Rightarrow> bool" where
  "bank_known bw \<longleftrightarrow> spi_fine (snd bw) \<and> (fst bw = 0xFF \<or> bd_bank (sw_dev (snd bw)) = fst bw)"

definition is_bank :: "u8 \<Rightarrow> bool" where
  "is_bank b \<longleftrightarrow> b AND 0x30 = b"

lemma banks [simp]: "is_bank BANK_0" "is_bank BANK_2" "is_bank BANK_3"
  by (simp_all add: is_bank_def BANK_0_def BANK_2_def BANK_3_def)

lemma set_bank_fine:
  assumes "bus_fine (sw_env w)" and "sp_mutex (sw_spi w) = None" and "\<not> gh_level (sw_hw w) cs"
    and "prev = 0xFF \<or> bd_bank (sw_dev w) = prev" and "is_bank bank"
  shows "\<exists>w'. bank_set_bank (bank_spi_chips cs put) me bank (prev, w) = Some (bank, w') \<and> sw_dev w' = (sw_dev w) \<lparr> bd_bank := bank \<rparr> \<and>
     sw_env w' = sw_env w \<and> sw_hw w' = sw_hw w \<and> sp_mutex (sw_spi w') = None \<and> sp_cs_mutex (sw_spi w') = sp_cs_mutex (sw_spi w)"
proof (cases "bank = prev")
  case True
  have "bank \<noteq> 0xFF"
    using assms(5) by (auto simp: is_bank_def)
  then have "bd_bank (sw_dev w) = bank"
    using True assms(4) by simp
  then have "sw_dev w = (sw_dev w) \<lparr> bd_bank := bank \<rparr>"
    by simp
  then show ?thesis
    using True assms(2) by (simp add: bank_set_bank_def)
next
  case False
  have chip: "bank_spi_chips cs put (sw_hw w) [BK_REG_BANK_SEL, bank] (sw_dev w) = ([0, 0], (sw_dev w) \<lparr> bd_bank := bank \<rparr>)"
    using assms(3,5) by (simp add: bank_spi_chips_def BK_REG_BANK_SEL_def is_bank_def)
  obtain w1 where "spi_transfer (bank_spi_chips cs put) me SPI_TRANSMIT_RECEIVE [BK_REG_BANK_SEL, bank] w = Some (Hal 0, [0, 0], w1)"
      "sw_dev w1 = (sw_dev w) \<lparr> bd_bank := bank \<rparr>" "sw_env w1 = sw_env w" "sw_hw w1 = sw_hw w" "sp_mutex (sw_spi w1) = None"
      "sp_cs_mutex (sw_spi w1) = sp_cs_mutex (sw_spi w)"
    using spi_transfer_fine [where w = w and chips = "bank_spi_chips cs put" and me = me and st = SPI_TRANSMIT_RECEIVE,
        OF disjI2 [OF conjI [OF assms(1,2)]] _ chip] by auto
  then show ?thesis
    using False by (simp add: bank_set_bank_def spi_transmit_receive_def received_def memcpy_def)
qed

lemma bank_exchange_fine:
  assumes "bank_known (prev, w)" and "is_bank bank" and "buf \<noteq> []" and "unat n \<le> length buf" and "n \<noteq> 0"
    and "bank_spi_chips cs put (gpio_reset cs (sw_hw w)) (take (unat n) buf) ((sw_dev w) \<lparr> bd_bank := bank \<rparr>) = (bytes, d)"
    and "length bytes = unat n"
  shows "\<exists>w'. bank_exchange (bank_spi_chips cs put) me cs bank buf n (prev, w) = Some (bytes @ drop (unat n) buf, bank, w') \<and>
     spi_fine w' \<and> sw_dev w' = d"
proof -
  have fine: "bus_fine (sw_env w)" "sp_mutex (sw_spi w) = None" "sp_cs_mutex (sw_spi w) = None"
    using assms(1) by (auto simp: bank_known_def spi_fine_def)
  let ?w = "w \<lparr> sw_spi := (sw_spi w) \<lparr> sp_cs_mutex := Some me \<rparr>, sw_hw := gpio_reset cs (sw_hw w) \<rparr>"
  have sel: "spi_chip_select me cs w = Some ?w"
    using fine by (simp add: spi_chip_select_def)
  obtain w1 where 1: "bank_set_bank (bank_spi_chips cs put) me bank (prev, ?w) = Some (bank, w1)" "sw_dev w1 = (sw_dev w) \<lparr> bd_bank := bank \<rparr>"
      "bus_fine (sw_env w1)" "sw_hw w1 = gpio_reset cs (sw_hw w)" "sp_mutex (sw_spi w1) = None" "sp_cs_mutex (sw_spi w1) = Some me"
    using set_bank_fine [of ?w cs prev bank put me] fine assms(1,2) by (auto simp: bank_known_def)
  have ne: "take (unat n) buf \<noteq> []"
    using assms(3,5) by (simp add: unat_eq_zero)
  have chip: "bank_spi_chips cs put (sw_hw w1) (take (unat n) buf) (sw_dev w1) = (bytes, d)"
    using assms(6) 1(2,4) by simp
  have len: "length bytes \<le> length (take (unat n) buf)"
    using assms(4,7) by simp
  obtain w2 where t: "spi_transfer (bank_spi_chips cs put) me SPI_TRANSMIT_RECEIVE (take (unat n) buf) w1 = Some (Hal 0, bytes, w2)" "sw_dev w2 = d"
      "sw_env w2 = sw_env w1" "sp_mutex (sw_spi w2) = None" "sp_cs_mutex (sw_spi w2) = Some me"
    using spi_transfer_fine [where w = w1 and chips = "bank_spi_chips cs put" and me = me and st = SPI_TRANSMIT_RECEIVE,
        OF disjI2 [OF conjI [OF 1(3,5)]] ne chip len] 1(6) by auto
  have "received bytes buf = Some (bytes @ drop (unat n) buf)"
    using assms(4,7) by (simp add: received_def memcpy_def)
  then show ?thesis
    using sel 1 t assms(4,5) by (simp add: bank_exchange_def spi_transmit_receive_def spi_chip_deselect_def spi_fine_def)
qed

lemma bank_burst_read:
  assumes "bank_known bw" and "is_bank bank" and "icm_valid r" and "length rest + 1 < 65536"
  shows "\<exists>bw'. bank_exchange (bank_spi_chips cs put) me cs bank ((r OR BK_READ) # rest) (word_of_nat (length rest + 1)) bw =
      Some (0 # reg_fetch (bk_regs bank bw) r (length rest), bw') \<and> bank_known bw' \<and> fst bw' = bank \<and> (\<forall>b. bk_regs b bw' = bk_regs b bw)"
proof -
  obtain prev w where bw: "bw = (prev, w)"
    by (cases bw)
  have n: "unat (word_of_nat (length rest + 1) :: u16) = length rest + 1"
    using assms(4) by (intro unat_word_of_nat_less) simp
  then have n0: "(word_of_nat (length rest + 1) :: u16) \<noteq> 0"
    by (metis add_is_0 one_neq_zero unat_0)
  have rd: "BK_READ = ICM_READ"
    by (simp add: BK_READ_def ICM_READ_def)
  have chip: "bank_spi_chips cs put (gpio_reset cs (sw_hw w)) ((r OR BK_READ) # rest) ((sw_dev w) \<lparr> bd_bank := bank \<rparr>) =
      (0 # reg_fetch (bk_regs bank bw) r (length rest), (sw_dev w) \<lparr> bd_bank := bank \<rparr>)"
    using icm_valid_bits [OF assms(3)] bw by (simp add: bank_spi_chips_def rd bk_regs_def)
  obtain w' where "bank_exchange (bank_spi_chips cs put) me cs bank ((r OR BK_READ) # rest) (word_of_nat (length rest + 1)) (prev, w) =
      Some (0 # reg_fetch (bk_regs bank bw) r (length rest), bank, w')" "spi_fine w'" "sw_dev w' = (sw_dev w) \<lparr> bd_bank := bank \<rparr>"
    using bank_exchange_fine [of prev w bank "(r OR BK_READ) # rest" "word_of_nat (length rest + 1)" cs put _ _ me] assms(1,2) bw
      n n0 chip by auto
  then show ?thesis
    using bw by (auto simp: bank_known_def bk_regs_def)
qed

section \<open>The periods\<close>

lemma bank_fifo_read_fine:
  assumes "bank_known bw" and "length (ib_fifo dev) = 15"
  shows "\<exists>bw' fifo. bank_fifo_read (bank_spi_chips (ib_cs dev) put) me 1 (dev, bw) =
      Some (dev \<lparr> ib_samples := 1, ib_bytes := 12, ib_fifo := fifo \<rparr>, bw') \<and> bank_known bw' \<and> (\<forall>b. bk_regs b bw' = bk_regs b bw) \<and>
      (\<forall>i < 12. fifo ! (3 + i) = bk_regs BANK_0 bw (BK_ACCEL_XOUT_H + word_of_nat i))"
proof -
  let ?f = "(ib_fifo dev)[2 := BK_ACCEL_XOUT_H OR BK_READ]"
  have split: "drop 2 ?f = (BK_ACCEL_XOUT_H OR BK_READ) # drop 3 (ib_fifo dev)"
    using assms(2) by (simp add: drop_update_swap Cons_nth_drop_Suc [symmetric] eval_nat_numeral)
  have valid: "icm_valid BK_ACCEL_XOUT_H"
    by (simp add: icm_valid_def BK_ACCEL_XOUT_H_def)
  obtain bw' where bw': "bank_exchange (bank_spi_chips (ib_cs dev) put) me (ib_cs dev) BANK_0 ((BK_ACCEL_XOUT_H OR BK_READ) # drop 3 (ib_fifo dev)) 13 bw =
      Some (0 # reg_fetch (bk_regs BANK_0 bw) BK_ACCEL_XOUT_H 12, bw')" "bank_known bw'" "\<forall>b. bk_regs b bw' = bk_regs b bw"
    using bank_burst_read [OF assms(1) banks(1) valid, of "drop 3 (ib_fifo dev)" "ib_cs dev" put me] assms(2) by auto
  let ?fifo = "take 2 ?f @ 0 # reg_fetch (bk_regs BANK_0 bw) BK_ACCEL_XOUT_H 12"
  have "?fifo ! (3 + i) = bk_regs BANK_0 bw (BK_ACCEL_XOUT_H + word_of_nat i)" if "i < 12" for i
    using assms(2) that by (simp add: nth_append)
  moreover have "bank_fifo_read (bank_spi_chips (ib_cs dev) put) me 1 (dev, bw) =
      Some (dev \<lparr> ib_samples := 1, ib_bytes := 12, ib_fifo := ?fifo \<rparr>, bw')"
    using bw'(1) split by (simp add: bank_fifo_read_def bank_fifo_exchange_def)
  ultimately show ?thesis
    using bw' by (intro exI [of _ bw'] exI [of _ ?fifo]) simp
qed

lemma bank_temp_process_fine:
  assumes "bank_known bw"
  shows "\<exists>bw'. bank_temp_process (bank_spi_chips (ib_cs dev) put) me (dev, bw) =
      Some (dev \<lparr> ib_buf_temp := reg16 (bk_regs BANK_0 bw) BK_TEMP_OUT_H \<rparr>, bw') \<and> bank_known bw' \<and> (\<forall>b. bk_regs b bw' = bk_regs b bw)"
proof -
  have valid: "icm_valid BK_TEMP_OUT_H"
    by (simp add: icm_valid_def BK_TEMP_OUT_H_def)
  obtain bw' where "bank_exchange (bank_spi_chips (ib_cs dev) put) me (ib_cs dev) BANK_0 [BK_TEMP_OUT_H OR BK_READ, 0, 0] 3 bw =
      Some (0 # reg_fetch (bk_regs BANK_0 bw) BK_TEMP_OUT_H 2, bw')" "bank_known bw'" "\<forall>b. bk_regs b bw' = bk_regs b bw"
    using bank_burst_read [OF assms banks(1) valid, of "[0, 0]" "ib_cs dev" put me] by (auto simp: numeral_2_eq_2)
  then show ?thesis
    by (simp add: bank_temp_process_def arr_get_def reg16_def)
qed

text \<open>A measuring period of either sensor.\<close>

lemma bank_round_measures:
  assumes "bank_known bw" and "ib_state dev = ICM20649_FIFO_READ" and "ib_drdy dev \<longrightarrow> ib_drdy_sem dev"
    and "length (ib_fifo dev) = 15" and "ib_mutex dev = None" and "ib_mutex_made dev"
  shows "\<exists>dev' bw'. bank_fsm chip (bank_spi_chips (ib_cs dev) put) me released (dev, bw) = Some (dev', bw') \<and> ib_measrdy_sem dev' \<and>
     ib_state dev' = ICM20649_FIFO_READ \<and> ib_mutex dev' = None \<and> ib_mutex_made dev' \<and> bank_known bw' \<and> (\<forall>b. bk_regs b bw' = bk_regs b bw) \<and>
     ib_accel dev' = (reg16 (bk_regs BANK_0 bw) 0x2D, neg16 (reg16 (bk_regs BANK_0 bw) 0x2F), neg16 (reg16 (bk_regs BANK_0 bw) 0x31)) \<and>
     ib_gyro dev' = (reg16 (bk_regs BANK_0 bw) 0x33, neg16 (reg16 (bk_regs BANK_0 bw) 0x35), neg16 (reg16 (bk_regs BANK_0 bw) 0x37)) \<and>
     ib_buf_temp dev' = reg16 (bk_regs BANK_0 bw) 0x39 \<and> ib_head dev' = ib_head dev \<and>
     ib_accel_range dev' = ib_accel_range dev \<and> ib_gyro_range dev' = ib_gyro_range dev"
proof -
  let ?f = "bk_regs BANK_0 bw"
  let ?d = "if ib_drdy dev then dev \<lparr> ib_drdy_sem := False \<rparr> else dev"
  have d: "length (ib_fifo ?d) = 15" "ib_cs ?d = ib_cs dev" "ib_mutex ?d = None" "ib_mutex_made ?d" "ib_drdy ?d = ib_drdy dev" "ib_state ?d = ICM20649_FIFO_READ"
      "ib_head ?d = ib_head dev" "ib_accel_range ?d = ib_accel_range dev" "ib_gyro_range ?d = ib_gyro_range dev"
    using assms by auto
  obtain bw1 fifo where 1: "bank_fifo_read (bank_spi_chips (ib_cs dev) put) me 1 (?d, bw) =
      Some (?d \<lparr> ib_samples := 1, ib_bytes := 12, ib_fifo := fifo \<rparr>, bw1)" "bank_known bw1" "\<forall>b. bk_regs b bw1 = bk_regs b bw"
      "\<forall>i < 12. fifo ! (3 + i) = ?f (BK_ACCEL_XOUT_H + word_of_nat i)"
    using bank_fifo_read_fine [OF assms(1) d(1), of put me] d(2) by auto
  let ?d1 = "?d \<lparr> ib_samples := 1, ib_bytes := 12, ib_fifo := fifo \<rparr>"
  obtain bw2 where 2: "bank_temp_process (bank_spi_chips (ib_cs dev) put) me (?d1, bw1) =
      Some (?d1 \<lparr> ib_buf_temp := reg16 ?f BK_TEMP_OUT_H \<rparr>, bw2)" "bank_known bw2" "\<forall>b. bk_regs b bw2 = bk_regs b bw"
    using bank_temp_process_fine [OF 1(2), of ?d1 put me] d(2) 1(3) by auto
  have s: "sample16 fifo i = reg16 ?f (BK_ACCEL_XOUT_H + word_of_nat i)" if "i \<in> {0, 2, 4, 6, 8, 10}" for i
  proof -
    have lt: "i < 12" "i + 1 < 12"
      using that by auto
    have 0: "fifo ! (3 + i) = ?f (BK_ACCEL_XOUT_H + word_of_nat i)"
      using 1(4) lt(1) by blast
    have "fifo ! (3 + (i + 1)) = ?f (BK_ACCEL_XOUT_H + word_of_nat (i + 1))"
      using 1(4) lt(2) by blast
    moreover have "4 + i = 3 + (i + 1)" and "BK_ACCEL_XOUT_H + word_of_nat i + 1 = BK_ACCEL_XOUT_H + word_of_nat (i + 1)"
      by simp_all
    ultimately show ?thesis
      using 0 by (simp only: sample16_def reg16_def)
  qed
  let ?d2 = "?d1 \<lparr> ib_buf_temp := reg16 ?f BK_TEMP_OUT_H \<rparr>"
  let ?d3 = "?d2 \<lparr> ib_buf_accel := (sample16 fifo 0, neg16 (sample16 fifo 2), neg16 (sample16 fifo 4)) \<rparr>"
  let ?d4 = "?d3 \<lparr> ib_buf_gyro := (sample16 fifo 6, neg16 (sample16 fifo 8), neg16 (sample16 fifo 10)) \<rparr>"
  have 3: "bank_accel_process ?d2 = Some ?d3"
    by (simp add: bank_accel_process_def)
  have 4: "bank_gyro_process ?d3 = Some ?d4"
    by (simp add: bank_gyro_process_def)
  let ?d5 = "?d4 \<lparr> ib_accel := ib_buf_accel ?d4, ib_gyro := ib_buf_gyro ?d4, ib_mutex := None \<rparr>"
  have 5: "bank_update_meas me released ?d4 = Some ?d5"
    using d(3,4) by (simp add: bank_update_meas_def bank_lock_def)
  have "bank_fsm chip (bank_spi_chips (ib_cs dev) put) me released (dev, bw) =
      Some ((if ib_drdy ?d5 then ?d5 \<lparr> ib_irq_on := True \<rparr> else ?d5) \<lparr> ib_measrdy_sem := True \<rparr>, bw2)"
    using assms(2,3) 1(1) 2(1) 3 4 5 by (simp add: bank_fsm_def Let_def del: if_split)
  then show ?thesis
    using d(4,6-9) s 2(2,3) by (auto simp: BK_ACCEL_XOUT_H_def BK_TEMP_OUT_H_def)
qed

section \<open>Properties\<close>

text \<open>The copy that hands out the measurements of an icm20948 starts at the device instead of at its measurements: whatever period has
  been measured, a reader gets the bytes of the name and the addresses that the device begins with.\<close>

theorem icm20948_hands_out_name:
  assumes "bank_known bw" and "fst bw = BANK_0" and "ib_state dev = ICM20649_FIFO_READ" and "ib_drdy dev \<longrightarrow> ib_drdy_sem dev"
    and "length (ib_fifo dev) = 15" and "ib_mutex dev = None" and "ib_mutex_made dev"
  shows "\<exists>dev' bw' dev''. icm20948_fsm (bank_spi_chips (ib_cs dev) put) me released (dev, bw) = Some (dev', bw') \<and>
     ib_accel dev' = (reg16 (bk_regs BANK_0 bw) 0x2D, neg16 (reg16 (bk_regs BANK_0 bw) 0x2F), neg16 (reg16 (bk_regs BANK_0 bw) 0x31)) \<and>
     icm20948_get_meas_block you others dev' = Some (take 56 (ib_head dev), dev'')"
proof -
  obtain dev' bw' where "icm20948_fsm (bank_spi_chips (ib_cs dev) put) me released (dev, bw) = Some (dev', bw')" "ib_measrdy_sem dev'"
      "ib_mutex dev' = None" "ib_mutex_made dev'" "ib_head dev' = ib_head dev"
      "ib_accel dev' = (reg16 (bk_regs BANK_0 bw) 0x2D, neg16 (reg16 (bk_regs BANK_0 bw) 0x2F), neg16 (reg16 (bk_regs BANK_0 bw) 0x31))"
    using bank_round_measures [OF assms(1,3-), of icm20948_chip put me released] unfolding icm20948_fsm_def by blast
  then show ?thesis
    by (simp add: icm20948_get_meas_block_def icm20948_get_meas_non_block_def bank_lock_def)
qed

section \<open>A bank select that fails\<close>

text \<open>From the next transfer on all succeed.\<close>

definition later_fine :: "'d spi_world \<Rightarrow> bool" where
  "later_fine w \<longleftrightarrow> (\<forall>k \<ge> sw_calls w. be_start (sw_env w k) = 0 \<and> be_done (sw_env w k)) \<and> sp_mutex (sw_spi w) = None \<and> sp_cs_mutex (sw_spi w) = None"

text \<open>The bank in the chip is not the one the driver has noted.\<close>

definition stale :: "u8 \<Rightarrow> u8 \<Rightarrow> (u8 \<Rightarrow> u8) \<Rightarrow> bank_dev bank_world \<Rightarrow> bool" where
  "stale noted held f bw \<longleftrightarrow> fst bw = noted \<and> later_fine (snd bw) \<and> bd_bank (sw_dev (snd bw)) = held \<and> bk_regs held bw = f"

fun bank_reads :: "'d spi_chips \<Rightarrow> task \<Rightarrow> gpio \<Rightarrow> u8 \<Rightarrow> u8 list \<Rightarrow> 'd bank_world \<Rightarrow> (u8 list \<times> 'd bank_world) option" where
  "bank_reads chips me cs bank [] bw = Some ([], bw)"
| "bank_reads chips me cs bank (r # rs) bw = do {
     (v, bw) \<leftarrow> bank_read_reg chips me cs bank r bw;
     (vs, bw) \<leftarrow> bank_reads chips me cs bank rs bw;
     Some (v # vs, bw)
   }"

lemma stale_read:
  assumes "stale bank held f bw" and "icm_valid r"
  shows "\<exists>bw'. bank_read_reg (bank_spi_chips cs put) me cs bank r bw = Some (f r, bw') \<and> stale bank held f bw'"
proof -
  obtain w where bw: "bw = (bank, w)"
    using assms(1) by (cases bw) (simp add: stale_def)
  have rd: "BK_READ = ICM_READ"
    by (simp add: BK_READ_def ICM_READ_def)
  have chip: "bank_spi_chips cs put (gpio_reset cs hw) [r OR BK_READ, 0] (sw_dev w) = ([0, f r], sw_dev w)" for hw
    using icm_valid_bits [OF assms(2)] assms(1) bw by (simp add: bank_spi_chips_def rd stale_def bk_regs_def)
  show ?thesis
    using assms(1) bw chip
    by (simp add: bank_read_reg_def bank_exchange_def bank_set_bank_def stale_def later_fine_def bk_regs_def spi_chip_select_def
        spi_transmit_receive_def spi_transfer_def moved_def bus_result_def spi_it_handler_def received_def memcpy_def
        spi_chip_deselect_def arr_get_def Let_def)
qed

lemma stale_reads:
  assumes "stale bank held f bw" and "\<forall>r \<in> set rs. icm_valid r"
  shows "\<exists>bw'. bank_reads (bank_spi_chips cs put) me cs bank rs bw = Some (map f rs, bw') \<and> stale bank held f bw'"
  using assms
proof (induction rs arbitrary: bw)
  case (Cons r rs)
  obtain bw1 where 1: "bank_read_reg (bank_spi_chips cs put) me cs bank r bw = Some (f r, bw1)" "stale bank held f bw1"
    using stale_read [OF Cons.prems(1), of r] Cons.prems(2) by (meson list.set_intros(1))
  then show ?case
    using Cons.IH [OF 1(2)] Cons.prems(2) by auto
qed simp

text \<open>The driver notes the new bank even when the transfer that selects it has failed. From then on, however many registers of the new bank
  are read, the bank is not selected again, and every value comes from the bank that was selected before.\<close>

theorem bank_select_not_retried:
  assumes "bank \<noteq> held" and "be_start (sw_env w (sw_calls w)) \<noteq> 0"
    and "later_fine (w \<lparr> sw_calls := Suc (sw_calls w) \<rparr>)" and "bd_bank (sw_dev w) = held" and "rs \<noteq> []" and "\<forall>r \<in> set rs. icm_valid r"
  shows "\<exists>bw'. bank_reads (bank_spi_chips cs put) me cs bank rs (held, w) = Some (map (bd_regs (sw_dev w) held) rs, bw') \<and>
     fst bw' = bank \<and> bd_bank (sw_dev (snd bw')) = held"
proof (cases rs)
  case (Cons r rest)
  let ?f = "bd_regs (sw_dev w) held"
  have valid: "icm_valid r" "\<forall>r \<in> set rest. icm_valid r"
    using assms(6) Cons by simp_all
  have rd: "BK_READ = ICM_READ"
    by (simp add: BK_READ_def ICM_READ_def)
  have chip: "bank_spi_chips cs put (gpio_reset cs hw) [r OR BK_READ, 0] (sw_dev w) = ([0, ?f r], sw_dev w)" for hw
    using icm_valid_bits [OF valid(1)] assms(4) by (simp add: bank_spi_chips_def rd)
  obtain bw1 where 1: "bank_read_reg (bank_spi_chips cs put) me cs bank r (held, w) = Some (?f r, bw1)" "stale bank held ?f bw1"
    using assms(1-4) chip
    by (simp add: bank_read_reg_def bank_exchange_def bank_set_bank_def stale_def later_fine_def bk_regs_def spi_chip_select_def
        spi_transmit_receive_def spi_transfer_def moved_def bus_result_def spi_it_handler_def received_def memcpy_def
        spi_chip_deselect_def arr_get_def Let_def)
  obtain bw2 where "bank_reads (bank_spi_chips cs put) me cs bank rest bw1 = Some (map ?f rest, bw2)" "stale bank held ?f bw2"
    using stale_reads [OF 1(2) valid(2)] by blast
  then show ?thesis
    using Cons 1(1) by (auto simp: stale_def)
qed (use assms(5) in simp)


text \<open>Concrete instances: register r of the bank b holds b + r, but the identity.\<close>

definition demo_bank_regs :: "u8 \<Rightarrow> u8 \<Rightarrow> u8" where
  "demo_bank_regs b r = (if b = BANK_0 \<and> r = BK_WHO_AM_I then 0xE1 else b + r)"

definition demo_bank_put :: "u8 \<Rightarrow> u8 \<Rightarrow> u8 \<Rightarrow> u8 \<Rightarrow> u8" where
  "demo_bank_put b r old v =
     (if b = BANK_0 \<and> r = BK_PWR_MGMT_1 then (if v AND 0x80 \<noteq> 0 then 0x41 else v)
      else if b = BANK_0 \<and> r = BK_USER_CTRL then v AND 0xF0 else v)"

definition demo_bank_spi :: "(nat \<Rightarrow> bus_env) \<Rightarrow> bank_dev spi_world" where
  "demo_bank_spi env = \<lparr> sw_spi = sw_spi (demo_spi (\<lambda>r. r)), sw_hw = reset_hw, sw_env = env, sw_calls = 0,
     sw_dev = \<lparr> bd_bank = BANK_0, bd_regs = demo_bank_regs \<rparr> \<rparr>"

definition fine_env :: "nat \<Rightarrow> bus_env" where
  "fine_env _ = \<lparr> be_released = True, be_start = 0, be_done = True, be_moved = 0 \<rparr>"

definition demo_bank_cs :: gpio where "demo_bank_cs = \<lparr> gp_port = GPIOC, gp_pin = 2 \<rparr>"

lemma demo_bank_known: "bank_known (BANK_0, demo_bank_spi fine_env)"
  by (simp add: bank_known_def spi_fine_def bus_fine_def fine_env_def demo_bank_spi_def demo_spi_def)

definition demo_bank_dev :: icm20649 where
  "demo_bank_dev = \<lparr> ib_head = map word_of_nat [1..<97], ib_cs = demo_bank_cs, ib_drdy = False, ib_irq_on = False, ib_drdy_sem = False,
     ib_measrdy_sem = False, ib_mutex = None, ib_mutex_made = True, ib_enable_mag = False, ib_state = ICM20649_FIFO_READ, ib_attempt = 0,
     ib_fifo = replicate 15 0, ib_bytes = 0, ib_samples = 0, ib_accel_range = (16, 2048), ib_gyro_range = 2000,
     ib_buf_accel = (0, 0, 0), ib_buf_gyro = (0, 0, 0), ib_buf_temp = 0, ib_accel = (0, 0, 0), ib_gyro = (0, 0, 0), ib_deleted = False \<rparr>"

theorem icm20948_hands_out_name_witness:
  "\<exists>dev' bw' dev''. icm20948_fsm (bank_spi_chips demo_bank_cs demo_bank_put) 1 True (demo_bank_dev, BANK_0, demo_bank_spi fine_env) = Some (dev', bw') \<and>
     icm20948_get_meas_block 2 True dev' = Some (map word_of_nat [1..<57], dev'')"
proof -
  have d: "fst (BANK_0, demo_bank_spi fine_env) = BANK_0" "ib_state demo_bank_dev = ICM20649_FIFO_READ" "ib_drdy demo_bank_dev \<longrightarrow> ib_drdy_sem demo_bank_dev" "length (ib_fifo demo_bank_dev) = 15"
      "ib_mutex demo_bank_dev = None" "ib_mutex_made demo_bank_dev"
    by (simp_all add: demo_bank_dev_def)
  have "take 56 (ib_head demo_bank_dev) = map word_of_nat [1..<57]" and "ib_cs demo_bank_dev = demo_bank_cs"
    by (simp_all add: demo_bank_dev_def take_map)
  then show ?thesis
    using icm20948_hands_out_name [OF demo_bank_known d, of demo_bank_put 1 True 2 True] by auto
qed

theorem bank_select_not_retried_witness:
  "\<exists>bw'. bank_reads (bank_spi_chips demo_bank_cs demo_bank_put) 1 demo_bank_cs BANK_2 [BK_ACCEL_CONFIG, BK_GYRO_CONFIG_1]
     (BANK_0, demo_bank_spi (fine_env(0 := \<lparr> be_released = True, be_start = 1, be_done = False, be_moved = 0 \<rparr>))) = Some ([0x14, 0x01], bw')"
proof -
  let ?w = "demo_bank_spi (fine_env(0 := \<lparr> be_released = True, be_start = 1, be_done = False, be_moved = 0 \<rparr>))"
  have a: "BANK_2 \<noteq> BANK_0" "be_start (sw_env ?w (sw_calls ?w)) \<noteq> 0" "later_fine (?w \<lparr> sw_calls := Suc (sw_calls ?w) \<rparr>)" "bd_bank (sw_dev ?w) = BANK_0"
      "[BK_ACCEL_CONFIG, BK_GYRO_CONFIG_1] \<noteq> []" "\<forall>r \<in> set [BK_ACCEL_CONFIG, BK_GYRO_CONFIG_1]. icm_valid r"
    by (simp_all add: BANK_0_def BANK_2_def demo_bank_spi_def later_fine_def fine_env_def demo_spi_def icm_valid_def
        BK_ACCEL_CONFIG_def BK_GYRO_CONFIG_1_def)
  have "map (bd_regs (sw_dev ?w) BANK_0) [BK_ACCEL_CONFIG, BK_GYRO_CONFIG_1] = [0x14, 0x01]"
    by (simp add: demo_bank_spi_def demo_bank_regs_def BANK_0_def BK_ACCEL_CONFIG_def BK_GYRO_CONFIG_1_def BK_WHO_AM_I_def)
  then show ?thesis
    using bank_select_not_retried [where cs = demo_bank_cs and put = demo_bank_put and me = 1, OF a] by auto
qed

end
