(* ===== verification/Ms5611.thy ===== *)
theory Ms5611
  imports RegChip Bits "HOL-Library.Signed_Division"
begin

text \<open>
  The barometer (bsp/ics/ms5611/ms5611.c, ms5611_reg.h) on its SPI bus: the calibration memory with its checksum, the conversions and
  the compensation of the measurements. The compensation is in the integers of the code: an int
  product that overflows is undefined and is None, divisions round towards zero. None is also
  a call that never returns.
\<close>

section \<open>Commands\<close>

definition CMD_MS5611_RESET :: u8 where "CMD_MS5611_RESET = 0x1E"
definition CMD_MS5611_CONVERT_D1_OSR1024 :: u8 where "CMD_MS5611_CONVERT_D1_OSR1024 = 0x44"
definition CMD_MS5611_CONVERT_D2_OSR1024 :: u8 where "CMD_MS5611_CONVERT_D2_OSR1024 = 0x54"
definition CMD_MS5611_READ_ADC :: u8 where "CMD_MS5611_READ_ADC = 0x00"
definition CMD_MS5611_PROM_ADDR :: u8 where "CMD_MS5611_PROM_ADDR = 0xA0"
definition MS5611_PROM_SIZE :: nat where "MS5611_PROM_SIZE = 8"

section \<open>The checksum\<close>

definition crc4_shift :: "u16 \<Rightarrow> u16" where
  "crc4_shift n_rem = (if n_rem AND 0x8000 \<noteq> 0 then push_bit 1 n_rem XOR 0x3000 else push_bit 1 n_rem)"

text \<open>The bytes in the order of the loop: the high byte of each word, then its low byte.\<close>

definition prom_bytes :: "u16 list \<Rightarrow> u8 list" where
  "prom_bytes prom = concat (map (\<lambda>w. [ucast (drop_bit 8 w), ucast (w AND 0x00FF)]) (take 8 prom))"

fun crc4_shifts :: "nat \<Rightarrow> u16 \<Rightarrow> u16" where
  "crc4_shifts 0 n_rem = n_rem"
| "crc4_shifts (Suc n_bit) n_rem = crc4_shifts n_bit (crc4_shift n_rem)"

definition crc4_byte :: "u8 \<Rightarrow> u16 \<Rightarrow> u16" where
  "crc4_byte b n_rem = crc4_shifts 8 (n_rem XOR ucast b)"

definition crc4 :: "u16 list \<Rightarrow> u16" where
  "crc4 prom = drop_bit 12 (fold crc4_byte (prom_bytes prom) 0) AND 0xF"

section \<open>State\<close>

datatype ms5611_state = MS5611_RESET | MS5611_READ_CALIB | MS5611_READ_MEAS | MS5611_FAIL

record ms5611_prom =
  C1 :: u16
  C2 :: u16
  C3 :: u16
  C4 :: u16
  C5 :: u16
  C6 :: u16

text \<open>The temperature in hundredths of a degree, which the code divides by 100, and the pressure in pascal.\<close>

record ms5611 =
  ms_cs :: gpio
  ms_calib :: ms5611_prom
  ms_D1 :: u32
  ms_D2 :: u32
  ms_T :: int
  ms_P :: int
  ms_state :: ms5611_state
  ms_attempt :: u8
  ms_deleted :: bool

text \<open>The static variables of \<open>ms5611_read_meas\<close>, which all barometers share.\<close>

record ms5611_static =
  ignore_next :: bool
  meas_previous_state :: nat
  meas_current_state :: nat

definition MS5611_READ_TEMP :: nat where "MS5611_READ_TEMP = 0"
definition MS5611_READ_PRES_4 :: nat where "MS5611_READ_PRES_4 = 4"

section \<open>Transfers\<close>

text \<open>Without a receive buffer the bytes are only sent. The result is the receive buffer after the call.\<close>

definition ms5611_exchange ::
    "'d spi_chips \<Rightarrow> task \<Rightarrow> gpio \<Rightarrow> u8 list \<Rightarrow> u8 list option \<Rightarrow> u16 \<Rightarrow> 'd spi_world \<Rightarrow> (u8 list option \<times> 'd spi_world) option" where
  "ms5611_exchange chips me cs tx rx n w = do {
     w \<leftarrow> spi_chip_select me cs w;
     (b, w) \<leftarrow> (case rx of
         None \<Rightarrow> map_option (\<lambda>(rv, w). (None, w)) (spi_transmit chips me (Some tx) n w)
       | Some buf \<Rightarrow> map_option (\<lambda>(rv, b, w). (b, w)) (spi_transmit_receive chips me (Some tx) (Some buf) n w));
     w \<leftarrow> spi_chip_deselect me cs w;
     Some (b, w)
   }"

definition ms5611_send :: "'d spi_chips \<Rightarrow> task \<Rightarrow> gpio \<Rightarrow> u8 \<Rightarrow> 'd spi_world \<Rightarrow> 'd spi_world option" where
  "ms5611_send chips me cs cmd w = map_option snd (ms5611_exchange chips me cs [cmd] None 1 w)"

definition ms5611_reset :: "'d spi_chips \<Rightarrow> task \<Rightarrow> gpio \<Rightarrow> 'd spi_world \<Rightarrow> 'd spi_world option" where
  "ms5611_reset chips me cs = ms5611_send chips me cs CMD_MS5611_RESET"

text \<open>The two bytes behind the command are not initialised in the code; the chip ignores them.\<close>

definition ms5611_read_prom :: "'d spi_chips \<Rightarrow> task \<Rightarrow> gpio \<Rightarrow> u8 \<Rightarrow> 'd spi_world \<Rightarrow> (u16 \<times> 'd spi_world) option" where
  "ms5611_read_prom chips me cs i w = do {
     let data = [CMD_MS5611_PROM_ADDR + push_bit 1 i, 0, 0];
     (b, w) \<leftarrow> ms5611_exchange chips me cs data (Some data) 3 w;
     b \<leftarrow> b;
     Some (msb_lsb_16 (b ! 1) (b ! 2), w)
   }"

definition ms5611_read_adc :: "'d spi_chips \<Rightarrow> task \<Rightarrow> gpio \<Rightarrow> 'd spi_world \<Rightarrow> (u32 \<times> 'd spi_world) option" where
  "ms5611_read_adc chips me cs w = do {
     let data = [CMD_MS5611_READ_ADC, 0, 0, 0];
     (b, w) \<leftarrow> ms5611_exchange chips me cs data (Some data) 4 w;
     b \<leftarrow> b;
     Some (push_bit 16 (ucast (b ! 1)) OR push_bit 8 (ucast (b ! 2)) OR ucast (b ! 3), w)
   }"

text \<open>Reading the words of the memory stops at a zero word behind the first two.\<close>

fun ms5611_read_words ::
    "'d spi_chips \<Rightarrow> task \<Rightarrow> gpio \<Rightarrow> nat list \<Rightarrow> 'd spi_world \<Rightarrow> (u16 list option \<times> 'd spi_world) option" where
  "ms5611_read_words chips me cs [] w = Some (Some [], w)"
| "ms5611_read_words chips me cs (i # is) w = do {
     (v, w) \<leftarrow> ms5611_read_prom chips me cs (word_of_nat i) w;
     if v = 0 \<and> i > 1 then Some (None, w)
     else do {
       (ws, w) \<leftarrow> ms5611_read_words chips me cs is w;
       Some (map_option ((#) v) ws, w)
     }
   }"

text \<open>The check of a memory image, with the checksum taken out of its last word.\<close>

definition prom_crc_ok :: "u16 list \<Rightarrow> bool" where
  "prom_crc_ok prom \<longleftrightarrow> prom ! 7 AND 0xF = crc4 (prom[7 := prom ! 7 AND 0xFF00])"

definition ms5611_read_calib :: "'d spi_chips \<Rightarrow> task \<Rightarrow> ms5611 \<times> 'd spi_world \<Rightarrow> (int \<times> ms5611 \<times> 'd spi_world) option" where
  "ms5611_read_calib chips me s = (case s of (dev, w) \<Rightarrow> do {
     (prom, w) \<leftarrow> ms5611_read_words chips me (ms_cs dev) [0..<MS5611_PROM_SIZE] w;
     (case prom of None \<Rightarrow> Some (- 1, dev, w)
      | Some prom \<Rightarrow>
        if \<not> prom_crc_ok prom then Some (- 1, dev, w)
        else Some (0, dev \<lparr> ms_calib := \<lparr> C1 = prom ! 1, C2 = prom ! 2, C3 = prom ! 3, C4 = prom ! 4, C5 = prom ! 5, C6 = prom ! 6 \<rparr> \<rparr>, w))
   })"

section \<open>Measurements\<close>

text \<open>The result of the conversion started by the call before is read and stored by the state of that call; the next
  conversion is started by the new state.\<close>

definition ms5611_next_state :: "u32 \<Rightarrow> ms5611_static \<Rightarrow> nat" where
  "ms5611_next_state reg st =
     (let cur = (if reg \<noteq> 0 \<and> \<not> ignore_next st then meas_current_state st + 1 else meas_current_state st)
      in if cur > MS5611_READ_PRES_4 then MS5611_READ_TEMP else cur)"

definition ms5611_read_meas ::
    "'d spi_chips \<Rightarrow> task \<Rightarrow> ms5611 \<times> ms5611_static \<times> 'd spi_world \<Rightarrow> (int \<times> ms5611 \<times> ms5611_static \<times> 'd spi_world) option" where
  "ms5611_read_meas chips me s = (case s of (dev, st, w) \<Rightarrow> do {
     (reg, w) \<leftarrow> ms5611_read_adc chips me (ms_cs dev) w;
     let cur = ms5611_next_state reg st;
     let st = st \<lparr> meas_current_state := cur \<rparr>;
     w \<leftarrow> ms5611_send chips me (ms_cs dev)
       (if cur = MS5611_READ_TEMP then CMD_MS5611_CONVERT_D1_OSR1024 else CMD_MS5611_CONVERT_D2_OSR1024) w;
     if reg = 0 \<or> reg = 0xFFFFFF then Some (- 1, dev, st \<lparr> ignore_next := True \<rparr>, w)
     else if ignore_next st then Some (- 1, dev, st \<lparr> ignore_next := False \<rparr>, w)
     else (let
       dev = (if meas_previous_state st = MS5611_READ_TEMP then dev \<lparr> ms_D2 := reg \<rparr> else dev \<lparr> ms_D1 := reg \<rparr>)
       in Some (0, dev, st \<lparr> meas_previous_state := cur \<rparr>, w))
   })"

text \<open>An int product.\<close>

definition mul32 :: "int \<Rightarrow> int \<Rightarrow> int option" where
  "mul32 a b = (if - (2 ^ 31) \<le> a * b \<and> a * b < 2 ^ 31 then Some (a * b) else None)"

definition ms5611_dT :: "ms5611_prom \<Rightarrow> u32 \<Rightarrow> int" where
  "ms5611_dT cal D2 = sint (D2 - ucast (C5 cal) * 256)"

text \<open>The compensation for low temperatures.\<close>

definition ms5611_low :: "int \<Rightarrow> int \<Rightarrow> (int \<times> int \<times> int) option" where
  "ms5611_low dT TEMP =
     (if TEMP < 2000 then do {
        sq \<leftarrow> mul32 dT dT;
        let OFF2 = (5 * (TEMP - 2000) * (TEMP - 2000)) sdiv 2;
        let SENS2 = (5 * (TEMP - 2000) * (TEMP - 2000)) sdiv 4;
        Some (sq sdiv (2 ^ 31),
          if TEMP < - 1500 then OFF2 + 7 * (TEMP + 1500) * (TEMP + 1500) else OFF2,
          if TEMP < - 1500 then SENS2 + (11 * (TEMP + 1500) * (TEMP + 1500)) sdiv 2 else SENS2)
      }
      else Some (0, 0, 0))"

definition ms5611_process_meas :: "ms5611 \<Rightarrow> ms5611 option" where
  "ms5611_process_meas dev = do {
     let cal = ms_calib dev;
     let dT = ms5611_dT cal (ms_D2 dev);
     p6 \<leftarrow> mul32 dT (uint (C6 cal));
     let TEMP = 2000 + p6 sdiv (2 ^ 23);
     p4 \<leftarrow> mul32 (uint (C4 cal)) dT;
     let OFF = uint (ucast (C2 cal) * 65536 + (word_of_int p4 :: u32) div 128);
     p3 \<leftarrow> mul32 (uint (C3 cal)) dT;
     let SENS = uint (ucast (C1 cal) * 32768 + (word_of_int p3 :: u32) div 256);
     (T2, OFF2, SENS2) \<leftarrow> ms5611_low dT TEMP;
     let P = ((uint (ms_D1 dev) * (SENS - SENS2)) sdiv (2 ^ 21) - (OFF - OFF2)) sdiv (2 ^ 15);
     Some (dev \<lparr> ms_T := TEMP - T2, ms_P := sint (word_of_int P :: u32) \<rparr>)
   }"

section \<open>The state machine\<close>

definition ms5611_fsm ::
    "'d spi_chips \<Rightarrow> task \<Rightarrow> ms5611 \<times> ms5611_static \<times> 'd spi_world \<Rightarrow> (ms5611 \<times> ms5611_static \<times> 'd spi_world) option" where
  "ms5611_fsm chips me s = (case s of (dev, st, w) \<Rightarrow>
     (case ms_state dev of
        MS5611_RESET \<Rightarrow> do {
          w \<leftarrow> ms5611_reset chips me (ms_cs dev) w;
          Some (dev \<lparr> ms_state := MS5611_READ_CALIB \<rparr>, st, w)
        }
      | MS5611_READ_CALIB \<Rightarrow> do {
          (rv, dev, w) \<leftarrow> ms5611_read_calib chips me (dev, w);
          (dev, w) \<leftarrow> (if rv \<noteq> 0 then Some (dev \<lparr> ms_attempt := ms_attempt dev + 1 \<rparr>, w)
             else do {
               w \<leftarrow> ms5611_send chips me (ms_cs dev) CMD_MS5611_CONVERT_D1_OSR1024 w;
               Some (dev \<lparr> ms_state := MS5611_READ_MEAS \<rparr>, w)
             });
          Some (if ms_attempt dev > 5 then dev \<lparr> ms_state := MS5611_FAIL \<rparr> else dev, st, w)
        }
      | MS5611_READ_MEAS \<Rightarrow> do {
          (rv, dev, st, w) \<leftarrow> ms5611_read_meas chips me (dev, st, w);
          dev \<leftarrow> (if rv = 0 then ms5611_process_meas dev else Some dev);
          Some (dev, st, w)
        }
      | MS5611_FAIL \<Rightarrow> Some (dev \<lparr> ms_deleted := True \<rparr>, st, w)))"

section \<open>Start\<close>

text \<open>\<open>made\<close>: the memory, the semaphore and the service are created. Nothing gives the semaphore, so the wait ends by its time limit.\<close>

definition ms5611_start :: "bool \<Rightarrow> bool \<Rightarrow> (nat \<Rightarrow> bool) \<Rightarrow> gpio option \<Rightarrow> ms5611 option" where
  "ms5611_start spi_given name_given made cs =
     (case cs of None \<Rightarrow> None
      | Some cs \<Rightarrow>
        if \<not> spi_given \<or> \<not> name_given \<or> \<not> made 0 \<or> \<not> made 1 \<or> \<not> made 2 then None
        else Some \<lparr> ms_cs = cs, ms_calib = \<lparr> C1 = 0, C2 = 0, C3 = 0, C4 = 0, C5 = 0, C6 = 0 \<rparr>, ms_D1 = 0, ms_D2 = 0,
          ms_T = 0, ms_P = 0, ms_state = MS5611_RESET, ms_attempt = 0, ms_deleted = False \<rparr>)"

section \<open>The checksum is linear\<close>

lemma crc4_shift_xor: "crc4_shift (a XOR b) = crc4_shift a XOR crc4_shift b"
proof -
  have top: "x AND 0x8000 \<noteq> 0 \<longleftrightarrow> bit x 15" for x :: u16
    by (simp add: bit_iff_and_push_bit_not_eq_0 push_bit_of_1)
  show ?thesis
    unfolding crc4_shift_def top
    by (cases "bit a 15"; cases "bit b 15") (simp_all add: bit_simps push_bit_xor ac_simps)
qed

lemma crc4_shifts_xor: "crc4_shifts n (a XOR b) = crc4_shifts n a XOR crc4_shifts n b"
  by (induction n arbitrary: a b) (simp_all add: crc4_shift_xor)

lemma crc4_byte_xor: "crc4_byte (a XOR b) (r XOR s) = crc4_byte a r XOR crc4_byte b s"
proof -
  have "(r XOR s) XOR ucast (a XOR b) = (r XOR ucast a) XOR (s XOR ucast b :: u16)"
    by (rule bit_word_eqI) (auto simp: bit_simps)
  then show ?thesis
    by (simp only: crc4_byte_def crc4_shifts_xor)
qed

lemma crc4_fold_xor:
  "length as = length bs \<Longrightarrow>
   fold crc4_byte (map2 (XOR) as bs) (r XOR s) = fold crc4_byte as r XOR fold crc4_byte bs s"
proof (induction as bs arbitrary: r s rule: list_induct2)
  case (Cons a as b bs)
  then show ?case
    by (simp add: crc4_byte_xor)
qed simp

lemma prom_bytes_xor:
  assumes "length p = 8" and "length e = 8"
  shows "prom_bytes (map2 (XOR) p e) = map2 (XOR) (prom_bytes p) (prom_bytes e)"
proof -
  obtain p0 p1 p2 p3 p4 p5 p6 p7 where p: "p = [p0, p1, p2, p3, p4, p5, p6, p7]"
    using assms(1) by (auto simp: length_Suc_conv numeral_eq_Suc)
  obtain e0 e1 e2 e3 e4 e5 e6 e7 where e: "e = [e0, e1, e2, e3, e4, e5, e6, e7]"
    using assms(2) by (auto simp: length_Suc_conv numeral_eq_Suc)
  have hi: "ucast (a XOR b) = (ucast a XOR ucast b :: u8)" for a b :: u16
    by (rule bit_word_eqI) (simp add: bit_simps)
  have lo: "ucast ((a XOR b) AND 0xFF) = (ucast (a AND 0xFF) XOR ucast (b AND 0xFF) :: u8)" for a b :: u16
    by (rule bit_word_eqI) (auto simp: bit_simps)
  show ?thesis
    by (simp add: p e prom_bytes_def hi lo drop_bit_xor)
qed

lemma crc4_xor:
  assumes "length p = 8" and "length e = 8"
  shows "crc4 (map2 (XOR) p e) = crc4 p XOR crc4 e"
proof -
  have "length (prom_bytes p) = length (prom_bytes e)"
    using assms by (simp add: prom_bytes_def length_concat comp_def sum_list_triv)
  then have "fold crc4_byte (prom_bytes (map2 (XOR) p e)) 0 = fold crc4_byte (prom_bytes p) 0 XOR fold crc4_byte (prom_bytes e) 0"
    using crc4_fold_xor [of "prom_bytes p" "prom_bytes e" 0 0] prom_bytes_xor [OF assms] by simp
  then show ?thesis
    by (simp add: crc4_def drop_bit_xor) (rule bit_word_eqI, auto simp: bit_simps)
qed

text \<open>An error pattern of one nibble, by its place and its bits.\<close>

definition nibble_error :: "nat \<Rightarrow> nat \<Rightarrow> nat \<Rightarrow> u16 list" where
  "nibble_error i k e = (replicate 8 0)[i := push_bit (4 * k) (word_of_nat e)]"

definition nibble_at :: "nat \<Rightarrow> u16 \<Rightarrow> bool" where
  "nibble_at k r \<longleftrightarrow> (\<exists>x. 0 < x \<and> x < 16 \<and> r = push_bit k (word_of_nat x))"

definition shift_table :: "(nat \<times> nat) list" where
  "shift_table = [(1, 2), (2, 4), (3, 6), (4, 8), (5, 10), (6, 12), (7, 14), (8, 3), (9, 1), (10, 7), (11, 5), (12, 11), (13, 9), (14, 15), (15, 13)]"

lemma crc4_shift_top:
  assumes "0 < x" and "x < 16"
  shows "\<exists>y. 0 < y \<and> y < 16 \<and> crc4_shift (push_bit 12 (word_of_nat x)) = push_bit 12 (word_of_nat y)"
proof -
  have "\<forall>(x, y) \<in> set shift_table. 0 < y \<and> y < 16 \<and> crc4_shift (push_bit 12 (word_of_nat x)) = push_bit 12 (word_of_nat y)"
    by (simp add: shift_table_def crc4_shift_def)
  moreover have "map fst shift_table = [1..<16]"
    by (simp add: shift_table_def upt_rec)
  then have "x \<in> fst ` set shift_table"
    using assms by (simp flip: set_map)
  ultimately show ?thesis
    by fastforce
qed

lemma crc4_shift_nibble: "nibble_at k r \<Longrightarrow> k \<le> 12 \<Longrightarrow> nibble_at (min 12 (Suc k)) (crc4_shift r)"
proof (cases "k = 12")
  case True
  assume "nibble_at k r"
  then obtain x where x: "0 < x" "x < 16" "r = push_bit 12 (word_of_nat x)"
    using True by (auto simp: nibble_at_def)
  then show ?thesis
    using True crc4_shift_top [OF x(1,2)] by (simp add: nibble_at_def)
next
  case False
  assume "nibble_at k r" and "k \<le> 12"
  then obtain x where x: "0 < x" "x < 16" "r = push_bit k (word_of_nat x)"
    by (auto simp: nibble_at_def)
  have top: "\<not> bit r 15"
  proof
    assume "bit r 15"
    then have "bit x (15 - k)"
      using x(3) by (simp add: bit_simps)
    then have "odd (x div 2 ^ (15 - k))"
      by (simp add: bit_iff_odd)
    then have "x div 2 ^ (15 - k) \<noteq> 0"
      by (metis even_zero)
    moreover have "(16::nat) \<le> 2 ^ (15 - k)"
      using False \<open>k \<le> 12\<close> power_increasing [of 4 "15 - k" "2::nat"] by simp
    ultimately show False
      using x(2) by simp
  qed
  have "crc4_shift r = push_bit (Suc k) (word_of_nat x)"
    using top x(3) by (simp add: crc4_shift_def bit_iff_and_push_bit_not_eq_0 push_bit_of_1)
  moreover have "min 12 (Suc k) = Suc k"
    using False \<open>k \<le> 12\<close> by simp
  ultimately show ?thesis
    using x(1,2) unfolding nibble_at_def by metis
qed

lemma crc4_shifts_nibble: "nibble_at k r \<Longrightarrow> k \<le> 12 \<Longrightarrow> nibble_at (min 12 (k + n)) (crc4_shifts n r)"
proof (induction n arbitrary: k r)
  case (Suc n)
  have "min 12 (min 12 (Suc k) + n) = min 12 (k + Suc n)"
    by (simp add: min_def)
  then show ?case
    using Suc.IH [OF crc4_shift_nibble [OF Suc.prems]] by simp
qed simp

lemma crc4_zeros: "nibble_at k r \<Longrightarrow> k \<le> 12 \<Longrightarrow> nibble_at (min 12 (k + 8 * n)) (fold crc4_byte (replicate n 0) r)"
proof (induction n arbitrary: k r)
  case (Suc n)
  have "nibble_at (min 12 (k + 8)) (crc4_byte 0 r)"
    using crc4_shifts_nibble [OF Suc.prems, of 8] by (simp add: crc4_byte_def)
  moreover have "min 12 (min 12 (k + 8) + 8 * n) = min 12 (k + 8 * Suc n)"
    by (simp add: min_def)
  ultimately show ?case
    using Suc.IH [of "min 12 (k + 8)"] by simp
qed simp

lemma crc4_start_zeros: "fold crc4_byte (replicate n 0) 0 = 0"
proof (induction n)
  case (Suc n)
  have "crc4_byte 0 0 = 0"
    by (simp add: crc4_byte_def crc4_shift_def eval_nat_numeral)
  then show ?case
    using Suc by simp
qed simp

lemma nibble_bytes:
  assumes "k < 4" and "e < 16"
  shows "[ucast (drop_bit 8 (push_bit (4 * k) (word_of_nat e) :: u16)), ucast (push_bit (4 * k) (word_of_nat e) AND 0x00FF :: u16)] =
    (if k < 2 then [0, push_bit (4 * k) (word_of_nat e)] else [push_bit (4 * (k - 2)) (word_of_nat e), 0 :: u8])"
proof -
  have "list_all (\<lambda>k. list_all (\<lambda>e.
    [ucast (drop_bit 8 (push_bit (4 * k) (word_of_nat e) :: u16)), ucast (push_bit (4 * k) (word_of_nat e) AND 0x00FF :: u16)] =
    (if k < 2 then [0, push_bit (4 * k) (word_of_nat e)] else [push_bit (4 * (k - 2)) (word_of_nat e), 0 :: u8])) [0..<16]) [0..<4]"
    by code_simp
  then show ?thesis
    using assms by (simp add: list_all_iff)
qed

lemma concat_zero_pairs: "concat (replicate n [0, 0]) = replicate (2 * n) 0"
  by (induction n) simp_all

lemma prom_bytes_nibble:
  assumes "i < 7" and "k < 4" and "e < 16"
  shows "\<exists>m n. prom_bytes (nibble_error i k e) = replicate m 0 @ push_bit (4 * (k mod 2)) (word_of_nat e) # replicate n 0 \<and> 2 \<le> n"
proof -
  let ?w = "push_bit (4 * k) (word_of_nat e) :: u16"
  have "nibble_error i k e = replicate i 0 @ ?w # replicate (7 - i) 0"
    using assms(1) by (intro nth_equalityI) (auto simp: nibble_error_def nth_list_update nth_append nth_Cons')
  then have "prom_bytes (nibble_error i k e) =
      replicate (2 * i) 0 @ [ucast (drop_bit 8 ?w), ucast (?w AND 0x00FF)] @ replicate (2 * (7 - i)) 0"
    using assms(1) by (simp add: prom_bytes_def concat_zero_pairs)
  also have "[ucast (drop_bit 8 ?w), ucast (?w AND 0x00FF)] =
      (if k < 2 then [0, push_bit (4 * k) (word_of_nat e)] else [push_bit (4 * (k - 2)) (word_of_nat e), 0 :: u8])"
    by (rule nibble_bytes [OF assms(2,3)])
  finally have bytes: "prom_bytes (nibble_error i k e) = replicate (2 * i) 0 @
      (if k < 2 then [0, push_bit (4 * k) (word_of_nat e)] else [push_bit (4 * (k - 2)) (word_of_nat e), 0]) @ replicate (2 * (7 - i)) 0" .
  have kk: "k mod 2 = (if k < 2 then k else k - 2)"
    using assms(2) by (auto simp: mod_if)
  show ?thesis
  proof (cases "k < 2")
    case True
    then have "prom_bytes (nibble_error i k e) = replicate (Suc (2 * i)) 0 @ push_bit (4 * (k mod 2)) (word_of_nat e) # replicate (2 * (7 - i)) 0"
      using bytes kk by (simp add: replicate_append_same flip: append_Cons)
    then show ?thesis
      using assms(1) by (intro exI [of _ "Suc (2 * i)"] exI [of _ "2 * (7 - i)"]) simp
  next
    case False
    then have "prom_bytes (nibble_error i k e) = replicate (2 * i) 0 @ push_bit (4 * (k mod 2)) (word_of_nat e) # replicate (Suc (2 * (7 - i))) 0"
      using bytes kk by simp
    then show ?thesis
      using assms(1) by (intro exI [of _ "2 * i"] exI [of _ "Suc (2 * (7 - i))"]) simp
  qed
qed

lemma nibble_ucast:
  assumes "k < 2" and "e < 16"
  shows "ucast (push_bit (4 * k) (word_of_nat e) :: u8) = (push_bit (4 * k) (word_of_nat e) :: u16)"
proof -
  have "list_all (\<lambda>k. list_all (\<lambda>e. ucast (push_bit (4 * k) (word_of_nat e) :: u8) = (push_bit (4 * k) (word_of_nat e) :: u16)) [0..<16]) [0..<2]"
    by code_simp
  then show ?thesis
    using assms by (simp add: list_all_iff)
qed

lemma crc4_nibble_error:
  assumes "i < 7" and "k < 4" and "0 < e" and "e < 16"
  shows "crc4 (nibble_error i k e) \<noteq> 0"
proof -
  obtain m n where bytes: "prom_bytes (nibble_error i k e) = replicate m 0 @ push_bit (4 * (k mod 2)) (word_of_nat e) # replicate n 0" "2 \<le> n"
    using prom_bytes_nibble [OF assms(1,2,4)] by blast
  let ?b = "push_bit (4 * (k mod 2)) (word_of_nat e) :: u8"
  have k: "4 * (k mod 2) \<le> 12"
    using mod_less_divisor [of 2 k] by linarith
  have "nibble_at (4 * (k mod 2)) (ucast ?b)"
    using nibble_ucast [of "k mod 2" e] assms(3,4) by (auto simp: nibble_at_def)
  then have "nibble_at (min 12 (4 * (k mod 2) + 8)) (crc4_byte ?b 0)"
    using crc4_shifts_nibble [of "4 * (k mod 2)" "ucast ?b" 8] k by (simp add: crc4_byte_def)
  from crc4_zeros [OF this, of n]
  have "nibble_at (min 12 (min 12 (4 * (k mod 2) + 8) + 8 * n)) (fold crc4_byte (prom_bytes (nibble_error i k e)) 0)"
    using bytes(1) crc4_start_zeros [of m] by (simp del: fold_replicate)
  moreover have "min 12 (min 12 (4 * (k mod 2) + 8) + 8 * n) = 12"
    using bytes(2) by simp
  ultimately obtain x where x: "0 < x" "x < 16" "fold crc4_byte (prom_bytes (nibble_error i k e)) 0 = push_bit 12 (word_of_nat x)"
    by (auto simp: nibble_at_def)
  have "list_all (\<lambda>x. drop_bit 12 (push_bit 12 (word_of_nat x)) AND 0xF \<noteq> (0 :: u16)) [1..<16]"
    by code_simp
  then show ?thesis
    using x by (force simp: crc4_def list_all_iff)
qed

lemma nibble_error_xor:
  assumes "length p = 8" and "i < 8"
  shows "p[i := p ! i XOR push_bit (4 * k) (word_of_nat e)] = map2 (XOR) p (nibble_error i k e)"
  using assms by (intro nth_equalityI) (auto simp: nibble_error_def nth_list_update)

text \<open>C40: The checksum of the calibration memory: when an image passes the check, the image with any bits of one nibble of
  its first seven words changed does not pass, so no single-bit error and no burst within a nibble reaches the calibration.\<close>

theorem prom_check_detects:
  assumes "length prom = 8" and "prom_crc_ok prom" and "i < 7" and "k < 4" and "0 < e" and "e < 16"
  shows "\<not> prom_crc_ok (prom[i := prom ! i XOR push_bit (4 * k) (word_of_nat e)])"
proof -
  let ?q = "prom[7 := prom ! 7 AND 0xFF00]"
  let ?bad = "prom[i := prom ! i XOR push_bit (4 * k) (word_of_nat e)]"
  have "?bad[7 := ?bad ! 7 AND 0xFF00] = ?q[i := ?q ! i XOR push_bit (4 * k) (word_of_nat e)]"
    using assms(1,3) by (simp add: list_update_swap)
  also have "\<dots> = map2 (XOR) ?q (nibble_error i k e)"
    using assms(1,3) by (intro nibble_error_xor) auto
  finally have "crc4 (?bad[7 := ?bad ! 7 AND 0xFF00]) = crc4 ?q XOR crc4 (nibble_error i k e)"
    using crc4_xor [of ?q "nibble_error i k e"] assms(1) by (simp add: nibble_error_def)
  moreover have "?bad ! 7 = prom ! 7"
    using assms(3) by simp
  moreover have "crc4 ?q XOR crc4 (nibble_error i k e) \<noteq> crc4 ?q"
    using crc4_nibble_error [OF assms(3-6)] xor_left_inject [of "crc4 ?q" "crc4 (nibble_error i k e)" 0] by simp
  ultimately show ?thesis
    using assms(2) by (simp add: prom_crc_ok_def)
qed

text \<open>The image of the manufacturer's note on the checksum.\<close>

definition demo_prom :: "u16 list" where
  "demo_prom = [0x3132, 0x3334, 0x3536, 0x3738, 0x3940, 0x4142, 0x4344, 0x450B]"

theorem prom_check_detects_witness:
  "prom_crc_ok demo_prom \<and> \<not> prom_crc_ok (demo_prom[3 := demo_prom ! 3 XOR push_bit (4 * 2) (word_of_nat 5)])"
proof -
  have ok: "prom_crc_ok demo_prom" by code_simp
  have "length demo_prom = 8" by (simp add: demo_prom_def)
  then show ?thesis
    using prom_check_detects [OF _ ok, of 3 2 5] ok by simp
qed

section \<open>The compensation\<close>

lemma sdiv_pow2_bounds:
  fixes x :: int
  assumes "- (2 ^ 31) \<le> x" and "x < 2 ^ 31"
  shows "- 256 \<le> x sdiv (2 ^ 23) \<and> x sdiv (2 ^ 23) \<le> 255"
proof (cases "0 \<le> x")
  case True
  then show ?thesis
    using assms by (simp add: signed_divide_int_def sgn_if) linarith
next
  case False
  then show ?thesis
    using assms by (simp add: signed_divide_int_def sgn_if) linarith
qed

lemma square_sdiv: "0 \<le> x \<Longrightarrow> x < 2 ^ 31 \<Longrightarrow> x sdiv (2 ^ 31) = 0" for x :: int
  by (simp add: signed_divide_int_def sgn_if)

text \<open>The product of the temperature difference and its coefficient is taken in 32 bits: whenever the compensation is defined the
  temperature lies between 17.44 and 22.55 degrees and the correction for cold is zero, and outside of that range the
  code has undefined behaviour.\<close>

theorem ms5611_temperature_range:
  assumes "ms5611_process_meas dev = Some dev'"
  shows "1744 \<le> ms_T dev' \<and> ms_T dev' \<le> 2255 \<and>
    ms_T dev' = 2000 + (ms5611_dT (ms_calib dev) (ms_D2 dev) * uint (C6 (ms_calib dev))) sdiv (2 ^ 23)"
proof -
  let ?dT = "ms5611_dT (ms_calib dev) (ms_D2 dev)"
  let ?p = "?dT * uint (C6 (ms_calib dev))"
  have p: "- (2 ^ 31) \<le> ?p" "?p < 2 ^ 31"
    using assms by (auto simp: ms5611_process_meas_def Let_def mul32_def split: bind_splits if_splits)
  obtain T2 OFF2 SENS2 where low: "ms5611_low ?dT (2000 + ?p sdiv (2 ^ 23)) = Some (T2, OFF2, SENS2)"
      and T: "ms_T dev' = 2000 + ?p sdiv (2 ^ 23) - T2"
    using assms by (auto simp: ms5611_process_meas_def Let_def mul32_def split: bind_splits if_splits)
  have "T2 = 0"
    using low square_sdiv [of "?dT * ?dT"] by (auto simp: ms5611_low_def mul32_def Let_def split: if_splits bind_splits)
  then show ?thesis
    using T sdiv_pow2_bounds [OF p] by simp
qed

text \<open>The values of the example in the data sheet.\<close>

definition demo_baro :: "u32 \<Rightarrow> u32 \<Rightarrow> ms5611" where
  "demo_baro D1 D2 = \<lparr> ms_cs = \<lparr> gp_port = GPIOA, gp_pin = 0 \<rparr>,
     ms_calib = \<lparr> C1 = 40127, C2 = 36924, C3 = 23317, C4 = 23282, C5 = 33464, C6 = 28312 \<rparr>,
     ms_D1 = D1, ms_D2 = D2, ms_T = 0, ms_P = 0, ms_state = MS5611_READ_MEAS, ms_attempt = 0, ms_deleted = False \<rparr>"

theorem ms5611_temperature_range_witness:
  "\<exists>dev'. ms5611_process_meas (demo_baro 9085466 8569150) = Some dev' \<and> ms_T dev' = 2007 \<and> ms_P dev' = 100009 \<and> ms_T dev' \<le> 2255"
proof -
  have "map_option (\<lambda>d. (ms_T d, ms_P d)) (ms5611_process_meas (demo_baro 9085466 8569150)) = Some (2007, 100009)"
    by code_simp
  then obtain d where "ms5611_process_meas (demo_baro 9085466 8569150) = Some d" "ms_T d = 2007" "ms_P d = 100009"
    by auto
  then show ?thesis
    using ms5611_temperature_range by blast
qed

section \<open>The conversions\<close>

text \<open>The answers of a barometer as its data sheet describes them: a conversion command starts a conversion of the pressure (D1) or of the
  temperature (D2), and reading the converter gives the result of the conversion that was started.\<close>

definition adc_bytes :: "u32 \<Rightarrow> u8 list" where
  "adc_bytes v = [0, ucast (drop_bit 16 v), ucast (drop_bit 8 v), ucast v]"

definition barometer :: "gpio \<Rightarrow> ('d \<Rightarrow> bool option) \<Rightarrow> u32 \<Rightarrow> u32 \<Rightarrow> 'd spi_chips \<Rightarrow> bool" where
  "barometer cs pending pres temp chips \<longleftrightarrow> (\<forall>hw d. \<not> gh_level hw cs \<longrightarrow>
     length (fst (chips hw [CMD_MS5611_CONVERT_D1_OSR1024] d)) = 1 \<and> pending (snd (chips hw [CMD_MS5611_CONVERT_D1_OSR1024] d)) = Some True \<and>
     length (fst (chips hw [CMD_MS5611_CONVERT_D2_OSR1024] d)) = 1 \<and> pending (snd (chips hw [CMD_MS5611_CONVERT_D2_OSR1024] d)) = Some False \<and>
     (pending d = Some True \<longrightarrow> fst (chips hw [CMD_MS5611_READ_ADC, 0, 0, 0] d) = adc_bytes pres) \<and>
     (pending d = Some False \<longrightarrow> fst (chips hw [CMD_MS5611_READ_ADC, 0, 0, 0] d) = adc_bytes temp))"

definition adc_value :: "u32 \<Rightarrow> bool" where
  "adc_value v \<longleftrightarrow> 0 < v \<and> v < 0xFFFFFF"

lemma adc_value_assembled:
  assumes "adc_value v"
  shows "push_bit 16 (ucast (ucast (drop_bit 16 v) :: u8)) OR push_bit 8 (ucast (ucast (drop_bit 8 v) :: u8)) OR ucast (ucast v :: u8) = v"
proof -
  have "v = take_bit 24 v"
    using assms by (intro word_eq_by_unat) (simp add: adc_value_def unsigned_take_bit_eq word_less_nat_alt take_bit_nat_eq_self)
  then have high: "\<not> bit v n" if "24 \<le> n" for n
    using that by (metis bit_take_bit_iff not_le)
  show ?thesis
  proof (rule bit_word_eqI)
    fix n
    assume "n < LENGTH(32)"
    then consider "n < 8" | "8 \<le> n" "n < 16" | "16 \<le> n" "n < 24" | "24 \<le> n"
      by linarith
    then show "bit (push_bit 16 (ucast (ucast (drop_bit 16 v) :: u8)) OR push_bit 8 (ucast (ucast (drop_bit 8 v) :: u8)) OR ucast (ucast v :: u8) :: u32) n = bit v n"
      by cases (auto simp: bit_simps high)
  qed
qed

lemma ms5611_send_fine:
  assumes "spi_fine w" and "\<And>hw d. \<not> gh_level hw cs \<Longrightarrow> length (fst (chips hw [cmd] d)) = 1"
  shows "\<exists>hw w'. \<not> gh_level hw cs \<and> ms5611_send chips me cs cmd w = Some w' \<and> spi_fine w' \<and> sw_dev w' = snd (chips hw [cmd] (sw_dev w))"
proof -
  let ?hw = "gpio_reset cs (sw_hw w)"
  have low: "\<not> gh_level ?hw cs"
    by (simp add: gpio_reset_def)
  have "chips ?hw [cmd] (sw_dev w) = (fst (chips ?hw [cmd] (sw_dev w)), snd (chips ?hw [cmd] (sw_dev w)))"
    by simp
  from spi_framed_fine [where chips = chips and cs = cs and me = me and st = SPI_TRANSMIT, OF assms(1) _ this]
  obtain w1 w2 w' where "spi_chip_select me cs w = Some w1" "spi_chip_deselect me cs w2 = Some w'"
      "spi_transfer chips me SPI_TRANSMIT [cmd] w1 = Some (Hal 0, fst (chips ?hw [cmd] (sw_dev w)), w2)"
      "spi_fine w'" "sw_dev w' = snd (chips ?hw [cmd] (sw_dev w))"
    using assms(2) [OF low] by fastforce
  then have "ms5611_send chips me cs cmd w = Some w'" "spi_fine w'" "sw_dev w' = snd (chips ?hw [cmd] (sw_dev w))"
    by (simp_all add: ms5611_send_def ms5611_exchange_def spi_transmit_def)
  then show ?thesis
    using low by blast
qed

lemma ms5611_read_adc_fine:
  assumes "spi_fine w" and "\<And>hw. \<not> gh_level hw cs \<Longrightarrow> fst (chips hw [CMD_MS5611_READ_ADC, 0, 0, 0] (sw_dev w)) = adc_bytes v" and "adc_value v"
  shows "\<exists>w'. ms5611_read_adc chips me cs w = Some (v, w') \<and> spi_fine w'"
proof -
  let ?hw = "gpio_reset cs (sw_hw w)"
  let ?out = "[CMD_MS5611_READ_ADC, 0, 0, 0]"
  have "fst (chips ?hw ?out (sw_dev w)) = adc_bytes v"
    by (rule assms(2)) (simp add: gpio_reset_def)
  then have "chips ?hw ?out (sw_dev w) = (adc_bytes v, snd (chips ?hw ?out (sw_dev w)))"
    by (metis prod.collapse)
  from spi_framed_fine [where chips = chips and cs = cs and me = me and st = SPI_TRANSMIT_RECEIVE, OF assms(1) _ this]
  obtain w1 w2 w' where "spi_chip_select me cs w = Some w1" "spi_chip_deselect me cs w2 = Some w'"
      "spi_transfer chips me SPI_TRANSMIT_RECEIVE ?out w1 = Some (Hal 0, adc_bytes v, w2)" "spi_fine w'"
    by (fastforce simp: adc_bytes_def)
  moreover have "received (adc_bytes v) ?out = Some (adc_bytes v)"
    by (simp add: received_def memcpy_def adc_bytes_def)
  ultimately have "ms5611_read_adc chips me cs w = Some (v, w')"
    using adc_value_assembled [OF assms(3)]
    by (simp add: ms5611_read_adc_def ms5611_exchange_def spi_transmit_receive_def adc_bytes_def)
  then show ?thesis
    using \<open>spi_fine w'\<close> by blast
qed

text \<open>The state between two measurements: which conversion is pending.\<close>

definition ms5611_pending :: "gpio \<Rightarrow> ('d \<Rightarrow> bool option) \<Rightarrow> nat \<Rightarrow> ms5611 \<times> ms5611_static \<times> 'd spi_world \<Rightarrow> bool" where
  "ms5611_pending cs pending k s \<longleftrightarrow> (case s of (dev, st, w) \<Rightarrow>
     spi_fine w \<and> ms_cs dev = cs \<and> k \<le> 4 \<and> st = \<lparr> ignore_next = False, meas_previous_state = k, meas_current_state = k \<rparr> \<and>
     pending (sw_dev w) = Some (k = 0))"

lemma ms5611_read_step:
  assumes "barometer cs pending pres temp chips" and "adc_value pres" and "adc_value temp"
    and "ms5611_pending cs pending k (dev, st, w)"
  shows "\<exists>w'. let k' = (if k = 4 then 0 else k + 1);
      dev' = (if k = 0 then dev \<lparr> ms_D2 := pres \<rparr> else dev \<lparr> ms_D1 := temp \<rparr>);
      st' = \<lparr> ignore_next = False, meas_previous_state = k', meas_current_state = k' \<rparr>
    in ms5611_read_meas chips me (dev, st, w) = Some (0, dev', st', w') \<and> ms5611_pending cs pending k' (dev', st', w')"
proof -
  let ?v = "if k = 0 then pres else temp"
  let ?j = "if k = 4 then 0 else k + 1"
  let ?cmd = "if ?j = 0 then CMD_MS5611_CONVERT_D1_OSR1024 else CMD_MS5611_CONVERT_D2_OSR1024"
  have s: "spi_fine w" "ms_cs dev = cs" "k \<le> 4" "st = \<lparr> ignore_next = False, meas_previous_state = k, meas_current_state = k \<rparr>"
      "pending (sw_dev w) = Some (k = 0)"
    using assms(4) by (simp_all add: ms5611_pending_def)
  have v: "adc_value ?v" "?v \<noteq> 0" "?v \<noteq> 0xFFFFFF"
    using assms(2,3) by (auto simp: adc_value_def)
  have "fst (chips hw [CMD_MS5611_READ_ADC, 0, 0, 0] (sw_dev w)) = adc_bytes ?v" if "\<not> gh_level hw cs" for hw
    using assms(1) that s(5) by (auto simp: barometer_def)
  from ms5611_read_adc_fine [where chips = chips and cs = cs and me = me, OF s(1) this v(1)]
  obtain w1 where w1: "ms5611_read_adc chips me cs w = Some (?v, w1)" "spi_fine w1"
    by blast
  have "length (fst (chips hw [?cmd] d)) = 1" if "\<not> gh_level hw cs" for hw d
    using assms(1) that by (auto simp: barometer_def)
  from ms5611_send_fine [where chips = chips and cs = cs and me = me and cmd = ?cmd, OF w1(2) this]
  obtain hw w2 where w2: "\<not> gh_level hw cs" "ms5611_send chips me cs ?cmd w1 = Some w2" "spi_fine w2" "sw_dev w2 = snd (chips hw [?cmd] (sw_dev w1))"
    by blast
  have p: "pending (sw_dev w2) = Some (?j = 0)"
    using assms(1) w2(1,4) by (auto simp: barometer_def)
  have nxt: "ms5611_next_state ?v st = ?j"
    using v(2) s(3,4) by (auto simp: ms5611_next_state_def MS5611_READ_PRES_4_def MS5611_READ_TEMP_def Let_def)
  let ?dev = "if k = 0 then dev \<lparr> ms_D2 := pres \<rparr> else dev \<lparr> ms_D1 := temp \<rparr>"
  let ?st = "\<lparr> ignore_next = False, meas_previous_state = ?j, meas_current_state = ?j \<rparr>"
  have "ms5611_read_meas chips me (dev, st, w) = Some (0, ?dev, ?st, w2)"
    using w1(1) w2(2) nxt v(2,3) s(2,4) by (auto simp: ms5611_read_meas_def MS5611_READ_TEMP_def Let_def split: if_splits)
  moreover have "ms5611_pending cs pending ?j (?dev, ?st, w2)"
    using w2(3) s(2,3) p by (auto simp: ms5611_pending_def)
  ultimately show ?thesis
    unfolding Let_def by blast
qed

fun ms5611_read_rounds ::
    "'d spi_chips \<Rightarrow> task \<Rightarrow> nat \<Rightarrow> ms5611 \<times> ms5611_static \<times> 'd spi_world \<Rightarrow> (ms5611 \<times> ms5611_static \<times> 'd spi_world) option" where
  "ms5611_read_rounds chips me 0 s = Some s"
| "ms5611_read_rounds chips me (Suc n) s = do { (rv, s) \<leftarrow> ms5611_read_meas chips me s; ms5611_read_rounds chips me n s }"

lemma ms5611_read_rounds_swapped:
  assumes "barometer cs pending pres temp chips" and "adc_value pres" and "adc_value temp"
    and "ms5611_pending cs pending k (dev, st, w)" and "k \<noteq> 0 \<longrightarrow> ms_D2 dev = pres" and "k \<noteq> 0 \<and> k \<noteq> 1 \<longrightarrow> ms_D1 dev = temp"
    and "2 \<le> n + k \<or> ms_D1 dev = temp \<and> ms_D2 dev = pres" and "k = 0 \<longrightarrow> 2 \<le> n \<or> ms_D1 dev = temp \<and> ms_D2 dev = pres"
  shows "\<exists>dev' st' w'. ms5611_read_rounds chips me n (dev, st, w) = Some (dev', st', w') \<and> ms_D2 dev' = pres \<and> ms_D1 dev' = temp"
  using assms(4-)
proof (induction n arbitrary: k dev st w)
  case 0
  then show ?case
    by (cases "k = 0") auto
next
  case (Suc n)
  let ?j = "if k = 4 then 0 else k + 1"
  let ?dev = "if k = 0 then dev \<lparr> ms_D2 := pres \<rparr> else dev \<lparr> ms_D1 := temp \<rparr>"
  let ?st = "\<lparr> ignore_next = False, meas_previous_state = ?j, meas_current_state = ?j \<rparr>"
  obtain w1 where w1: "ms5611_read_meas chips me (dev, st, w) = Some (0, ?dev, ?st, w1)" "ms5611_pending cs pending ?j (?dev, ?st, w1)"
    using ms5611_read_step [OF assms(1-3) Suc.prems(1), of me] unfolding Let_def by blast
  have "\<exists>dev' st' w'. ms5611_read_rounds chips me n (?dev, ?st, w1) = Some (dev', st', w') \<and> ms_D2 dev' = pres \<and> ms_D1 dev' = temp"
    using w1(2) by (rule Suc.IH) (use Suc.prems in auto)
  then show ?case
    using w1(1) by simp
qed

text \<open>The conversions are swapped: a measurement stored as D2, which the compensation takes for the temperature, is the answer to the
  command that converts the pressure, and the other way round. From the first measurement on, every two or more rounds
  leave the pressure in D2 and the temperature in D1.\<close>

theorem ms5611_conversions_swapped:
  assumes "barometer (ms_cs dev) pending pres temp chips" and "adc_value pres" and "adc_value temp" and "2 \<le> n"
    and "ms5611_pending (ms_cs dev) pending 0 (dev, st, w)"
  shows "\<exists>dev' st' w'. ms5611_read_rounds chips me n (dev, st, w) = Some (dev', st', w') \<and> ms_D2 dev' = pres \<and> ms_D1 dev' = temp"
  using ms5611_read_rounds_swapped [OF assms(1-3,5), of n me] assms(4) by simp

text \<open>A barometer that answers at every pin level.\<close>

definition demo_chip :: "u32 \<Rightarrow> u32 \<Rightarrow> bool option spi_chips" where
  "demo_chip pres temp hw bs d =
     (if bs = [CMD_MS5611_CONVERT_D1_OSR1024] then ([0], Some True)
      else if bs = [CMD_MS5611_CONVERT_D2_OSR1024] then ([0], Some False)
      else if bs = [CMD_MS5611_READ_ADC, 0, 0, 0] then (adc_bytes (if d = Some True then pres else temp), None)
      else (replicate (length bs) 0, d))"

definition demo_baro_world :: "bool option spi_world" where
  "demo_baro_world = \<lparr> sw_spi = \<lparr> sp_instance = SPI1, sp_mosi = None, sp_miso = None, sp_sck = None, sp_dma_tx = None, sp_dma_rx = None,
       sp_irq_priority = 0, sp_id = 35, sp_sem = False, sp_mutex = None, sp_cs_mutex = None, sp_state = SPI_FREE \<rparr>,
     sw_hw = \<lparr> gh_clocks = [], gh_init = [], gh_level = (\<lambda>_. True) \<rparr>,
     sw_env = (\<lambda>_. \<lparr> be_released = True, be_start = 0, be_done = True, be_moved = 0 \<rparr>), sw_calls = 0, sw_dev = Some True \<rparr>"

theorem ms5611_conversions_swapped_witness:
  "\<exists>dev' st' w'. ms5611_read_rounds (demo_chip 9085466 8569150) 1 7
      (demo_baro 0 0, \<lparr> ignore_next = False, meas_previous_state = 0, meas_current_state = 0 \<rparr>, demo_baro_world) = Some (dev', st', w') \<and>
    ms_D2 dev' = 9085466 \<and> ms_D1 dev' = 8569150"
proof -
  have "barometer (ms_cs (demo_baro 0 0)) (\<lambda>d. d) 9085466 8569150 (demo_chip 9085466 8569150)"
    by (simp add: barometer_def demo_chip_def CMD_MS5611_CONVERT_D1_OSR1024_def CMD_MS5611_CONVERT_D2_OSR1024_def CMD_MS5611_READ_ADC_def)
  moreover have "ms5611_pending (ms_cs (demo_baro 0 0)) (\<lambda>d. d) 0
      (demo_baro 0 0, \<lparr> ignore_next = False, meas_previous_state = 0, meas_current_state = 0 \<rparr>, demo_baro_world)"
    by (simp add: ms5611_pending_def demo_baro_world_def spi_fine_def bus_fine_def)
  ultimately show ?thesis
    using ms5611_conversions_swapped [of "demo_baro 0 0" "\<lambda>d. d" 9085466 8569150 "demo_chip 9085466 8569150" 7] by (simp add: adc_value_def)
qed

end
