(* ===== verification/Heap.thy ===== *)
theory Heap
  imports Prelude
begin

text \<open>
  The memory of the allocator: the repository's part of os/freertos/memmang/heap_custom.c, which hands out memory of
  two regions to the allocator of the C library, first of the AXI RAM behind the program's data, then of the DTCM
  RAM. The addresses of the linker script are a parameter. None is a call that never returns.
\<close>

section \<open>The break\<close>

definition ISR_STACK_LENGTH_BYTES :: int where "ISR_STACK_LENGTH_BYTES = 0x100 * 4"

text \<open>\<open>hl_hook\<close>: the configuration of the kernel asks for the hook of failed allocations, which loops for ever.\<close>

record heap_layout =
  HeapBase :: int
  HeapLimit :: int
  HeapDTCMStart :: int
  HeapDTCMLimit :: int
  hl_hook :: bool

record heap =
  currentHeapEnd :: int
  memory_selector :: int
  TotalHeapSize :: int
  heapBytesRemaining :: int
  totalBytesProvidedBySBRK :: int
  hp_errno :: errno

definition heap_start :: "heap_layout \<Rightarrow> heap" where
  "heap_start L = \<lparr> currentHeapEnd = HeapBase L, memory_selector = 0, TotalHeapSize = 0, heapBytesRemaining = 0,
     totalBytesProvidedBySBRK = 0, hp_errno = EOK \<rparr>"

definition heap_total :: "heap_layout \<Rightarrow> int" where
  "heap_total L = (HeapLimit L - HeapBase L) + (HeapDTCMLimit L - HeapDTCMStart L) - ISR_STACK_LENGTH_BYTES"

definition heap_limit :: "heap_layout \<Rightarrow> heap \<Rightarrow> int" where
  "heap_limit L h =
     (if memory_selector h = 0 then HeapLimit L - ISR_STACK_LENGTH_BYTES
      else if memory_selector h = 1 then HeapDTCMLimit L else 0)"

text \<open>The memory is available: the accounting and the result.\<close>

definition sbrk_grant :: "int \<Rightarrow> heap \<Rightarrow> int \<times> heap" where
  "sbrk_grant incr h = (currentHeapEnd h, h \<lparr> currentHeapEnd := currentHeapEnd h + incr, heapBytesRemaining := heapBytesRemaining h - incr,
     totalBytesProvidedBySBRK := totalBytesProvidedBySBRK h + incr \<rparr>)"

definition sbrk_r :: "heap_layout \<Rightarrow> int \<Rightarrow> heap \<Rightarrow> (int \<times> heap) option" where
  "sbrk_r L incr h =
     (let h = (if TotalHeapSize h = 0 then h \<lparr> TotalHeapSize := heap_total L, heapBytesRemaining := heap_total L \<rparr> else h) in
      if currentHeapEnd h + incr > heap_limit L h
      then (if memory_selector h = 0
            then Some (sbrk_grant incr (h \<lparr> currentHeapEnd := HeapDTCMStart L, memory_selector := 1 \<rparr>))
            else if hl_hook L then None
            else Some (- 1, h \<lparr> hp_errno := ENOMEM \<rparr>))
      else Some (sbrk_grant incr h))"

section \<open>Accounting\<close>

definition heap_get_total :: "heap \<Rightarrow> int" where
  "heap_get_total h = TotalHeapSize h"

text \<open>\<open>fordblks\<close> is what the allocator of the library has free.\<close>

definition heap_get_used :: "int \<Rightarrow> heap \<Rightarrow> int" where
  "heap_get_used fordblks h = TotalHeapSize h - (fordblks + heapBytesRemaining h)"

definition xPortGetFreeHeapSize :: "int \<Rightarrow> heap \<Rightarrow> int" where
  "xPortGetFreeHeapSize fordblks h = fordblks + heapBytesRemaining h"

record malloc_counts =
  TotalMallocdBytes :: nat
  MallocCallCnt :: int
  inside_malloc :: bool

text \<open>The wrappers of malloc; the real one may come back through the second wrapper.\<close>

definition wrap_malloc :: "(nat \<Rightarrow> malloc_counts \<Rightarrow> 'p \<times> malloc_counts) \<Rightarrow> nat \<Rightarrow> malloc_counts \<Rightarrow> 'p \<times> malloc_counts" where
  "wrap_malloc real nbytes m =
     (case real nbytes (m \<lparr> MallocCallCnt := MallocCallCnt m + 1, TotalMallocdBytes := TotalMallocdBytes m + nbytes, inside_malloc := True \<rparr>) of
        (p, m) \<Rightarrow> (p, m \<lparr> inside_malloc := False \<rparr>))"

definition wrap_malloc_r :: "(nat \<Rightarrow> malloc_counts \<Rightarrow> 'p \<times> malloc_counts) \<Rightarrow> nat \<Rightarrow> malloc_counts \<Rightarrow> 'p \<times> malloc_counts" where
  "wrap_malloc_r real nbytes m =
     real nbytes (if inside_malloc m then m
       else m \<lparr> MallocCallCnt := MallocCallCnt m + 1, TotalMallocdBytes := TotalMallocdBytes m + nbytes \<rparr>)"

lemma wrap_malloc_counts_once:
  "wrap_malloc (wrap_malloc_r (\<lambda>n m. (p n, m))) n m =
     (p n, m \<lparr> MallocCallCnt := MallocCallCnt m + 1, TotalMallocdBytes := TotalMallocdBytes m + n, inside_malloc := False \<rparr>)"
  by (simp add: wrap_malloc_def wrap_malloc_r_def)

section \<open>Requests in sequence\<close>

text \<open>The blocks that are granted, the last one first: address and size.\<close>

fun sbrks :: "heap_layout \<Rightarrow> int list \<Rightarrow> (int \<times> int) list \<Rightarrow> heap \<Rightarrow> ((int \<times> int) list \<times> heap) option" where
  "sbrks L [] bs h = Some (bs, h)"
| "sbrks L (n # ns) bs h = do {
     (p, h) \<leftarrow> sbrk_r L n h;
     sbrks L ns (if p = - 1 then bs else (p, n) # bs) h
   }"

definition blocks_disjoint :: "int \<times> int \<Rightarrow> int \<times> int \<Rightarrow> bool" where
  "blocks_disjoint a b \<longleftrightarrow> fst a + snd a \<le> fst b \<or> fst b + snd b \<le> fst a"

definition in_region :: "int \<Rightarrow> int \<Rightarrow> int \<times> int \<Rightarrow> bool" where
  "in_region lo hi b \<longleftrightarrow> lo \<le> fst b \<and> fst b + snd b \<le> hi"

text \<open>The regions are there and apart.\<close>

definition layout_ok :: "heap_layout \<Rightarrow> bool" where
  "layout_ok L \<longleftrightarrow> 0 \<le> HeapBase L \<and> HeapBase L \<le> HeapLimit L - ISR_STACK_LENGTH_BYTES \<and> 0 \<le> HeapDTCMStart L \<and> HeapDTCMStart L < HeapDTCMLimit L \<and>
     (HeapDTCMLimit L \<le> HeapBase L \<or> HeapLimit L \<le> HeapDTCMStart L)"

definition heap_inv :: "heap_layout \<Rightarrow> (int \<times> int) list \<Rightarrow> heap \<Rightarrow> bool" where
  "heap_inv L bs h \<longleftrightarrow> sorted_wrt blocks_disjoint bs \<and> (\<forall>b \<in> set bs. 0 \<le> snd b) \<and>
     (if memory_selector h = 0
      then HeapBase L \<le> currentHeapEnd h \<and> currentHeapEnd h \<le> HeapLimit L - ISR_STACK_LENGTH_BYTES \<and>
        (\<forall>b \<in> set bs. in_region (HeapBase L) (currentHeapEnd h) b)
      else memory_selector h = 1 \<and> HeapDTCMStart L \<le> currentHeapEnd h \<and> currentHeapEnd h \<le> HeapDTCMLimit L \<and>
        (\<forall>b \<in> set bs. in_region (HeapBase L) (HeapLimit L - ISR_STACK_LENGTH_BYTES) b \<or> in_region (HeapDTCMStart L) (currentHeapEnd h) b))"

lemma sbrk_inv:
  assumes "layout_ok L" and "heap_inv L bs h" and "0 \<le> n" and "n \<le> HeapDTCMLimit L - HeapDTCMStart L" and "sbrk_r L n h = Some (p, h')"
  shows "heap_inv L (if p = - 1 then bs else (p, n) # bs) h'"
proof -
  have isr: "ISR_STACK_LENGTH_BYTES = 1024"
    by (simp add: ISR_STACK_LENGTH_BYTES_def)
  consider "memory_selector h = 0" "currentHeapEnd h + n \<le> HeapLimit L - 1024" | "memory_selector h = 0" "currentHeapEnd h + n > HeapLimit L - 1024"
    | "memory_selector h = 1" "currentHeapEnd h + n \<le> HeapDTCMLimit L" | "memory_selector h = 1" "currentHeapEnd h + n > HeapDTCMLimit L"
    using assms(2) by (fastforce simp: heap_inv_def split: if_splits)
  then show ?thesis
  proof cases
    case 1
    then have "p = currentHeapEnd h" "currentHeapEnd h' = currentHeapEnd h + n" "memory_selector h' = 0"
      using assms(5) by (auto simp: sbrk_r_def sbrk_grant_def heap_limit_def isr Let_def split: if_splits)
    then show ?thesis
      using assms(1-3) 1 by (fastforce simp: heap_inv_def layout_ok_def in_region_def blocks_disjoint_def isr)
  next
    case 2
    then have "p = HeapDTCMStart L" "currentHeapEnd h' = HeapDTCMStart L + n" "memory_selector h' = 1"
      using assms(5) by (auto simp: sbrk_r_def sbrk_grant_def heap_limit_def isr Let_def split: if_splits)
    then show ?thesis
      using assms(1-4) 2 by (fastforce simp: heap_inv_def layout_ok_def in_region_def blocks_disjoint_def isr)
  next
    case 3
    then have "p = currentHeapEnd h" "currentHeapEnd h' = currentHeapEnd h + n" "memory_selector h' = 1"
      using assms(5) by (auto simp: sbrk_r_def sbrk_grant_def heap_limit_def isr Let_def split: if_splits)
    then show ?thesis
      using assms(1-3) 3 by (fastforce simp: heap_inv_def layout_ok_def in_region_def blocks_disjoint_def isr)
  next
    case 4
    then have "p = - 1" "currentHeapEnd h' = currentHeapEnd h" "memory_selector h' = 1"
      using assms(5) by (auto simp: sbrk_r_def heap_limit_def isr Let_def split: if_splits)
    then show ?thesis
      using assms(2) 4(1) by (simp add: heap_inv_def)
  qed
qed

lemma sbrks_inv:
  assumes "layout_ok L" and "heap_inv L bs h" and "\<forall>n \<in> set ns. 0 \<le> n \<and> n \<le> HeapDTCMLimit L - HeapDTCMStart L" and "sbrks L ns bs h = Some (bs', h')"
  shows "heap_inv L bs' h'"
  using assms
proof (induction ns arbitrary: bs h)
  case (Cons n ns)
  obtain p h1 where 1: "sbrk_r L n h = Some (p, h1)" "sbrks L ns (if p = - 1 then bs else (p, n) # bs) h1 = Some (bs', h')"
    using Cons.prems(4) by (auto split: bind_splits)
  show ?case
    using Cons.IH [OF Cons.prems(1) sbrk_inv [OF Cons.prems(1,2) _ _ 1(1)] _ 1(2)] Cons.prems(3) by simp
qed simp

lemma sbrks_returns: "\<not> hl_hook L \<Longrightarrow> \<exists>r. sbrks L ns bs h = Some r"
proof (induction ns arbitrary: bs h)
  case (Cons n ns)
  have "\<exists>p h1. sbrk_r L n h = Some (p, h1)"
    using Cons.prems by (auto simp: sbrk_r_def sbrk_grant_def Let_def)
  then show ?case
    using Cons by auto
qed simp

section \<open>Properties\<close>


text \<open>The step to the second region does not look at its size: the first request that does not fit the first region is
  granted at the start of the second one however large it is, and the break is then behind the end of the region.\<close>

theorem sbrk_switch_unchecked:
  assumes "memory_selector h = 0" and "currentHeapEnd h + n > HeapLimit L - ISR_STACK_LENGTH_BYTES" and "n > HeapDTCMLimit L - HeapDTCMStart L"
  shows "\<exists>h'. sbrk_r L n h = Some (HeapDTCMStart L, h') \<and> currentHeapEnd h' > HeapDTCMLimit L"
  using assms by (auto simp: sbrk_r_def sbrk_grant_def heap_limit_def Let_def)

text \<open>The linker script of the board, with 100000 bytes of data. The stack of the interrupts starts at the end of the second region, while the
  bytes for it are taken from the first.\<close>

definition board_layout :: heap_layout where
  "board_layout = \<lparr> HeapBase = 0x24000000 + 100000, HeapLimit = 0x24000000 + 512 * 1024, HeapDTCMStart = 0x20000000,
     HeapDTCMLimit = 0x20000000 + 128 * 1024, hl_hook = False \<rparr>"

definition board_estack :: int where
  "board_estack = 0x20000000 + 128 * 1024"

lemma sbrk_under_stack:
  "map_option fst (sbrks board_layout [423000, 131072] [] (heap_start board_layout)) = Some [(0x20000000, 131072), (0x24000000 + 100000, 423000)] \<and>
     0x20000000 + 131072 = board_estack"
  by code_simp


theorem sbrk_switch_unchecked_witness:
  "\<exists>h'. sbrk_r board_layout 500000 (heap_start board_layout) = Some (0x20000000, h') \<and> currentHeapEnd h' > 0x20000000 + 131072"
  using sbrk_switch_unchecked [of "heap_start board_layout" board_layout 500000]
  by (simp add: heap_start_def board_layout_def ISR_STACK_LENGTH_BYTES_def)

end
