(* ===== verification/Service.thy ===== *)
theory Service
  imports Prelude
begin

text \<open>
  The services that run the drivers' state machines: os/freertos/services/service/service.c, a table of services and the
  loop that calls a handler once in each period, with the kernel's xTaskDelayUntil
  (os/freertos/core/src/tasks.c). None is undefined behaviour. Messages are left out.
\<close>

section \<open>The table\<close>

definition SERVICE_MAX :: nat where "SERVICE_MAX = 10"
definition SERVICE_MAX_NAME :: nat where "SERVICE_MAX_NAME = 16"

text \<open>\<open>sv_name\<close> is the array of the name; a handler is of type 'h, its argument of type 'a.\<close>

record ('h, 'a) service =
  sv_name :: "char list"
  sv_area :: 'a
  sv_handler :: 'h
  sv_period :: u32
  sv_priority :: u32

record ('h, 'a) services =
  ss_service :: "('h, 'a) service list"
  ss_num :: u32

text \<open>\<open>tick_ms\<close>: the milliseconds of a tick; \<open>created\<close>: the kernel makes the task. The result is the index of the service.\<close>

definition service_start ::
    "u32 \<Rightarrow> bool \<Rightarrow> string option \<Rightarrow> 'a \<Rightarrow> 'h option \<Rightarrow> u32 \<Rightarrow> u32 \<Rightarrow> ('h, 'a) services \<Rightarrow> (nat option \<times> ('h, 'a) services) option" where
  "service_start tick_ms created name area handler period priority s =
     (case name of None \<Rightarrow> Some (None, s) | Some nm \<Rightarrow>
        if length nm > SERVICE_MAX_NAME then Some (None, s)
        else (case handler of None \<Rightarrow> Some (None, s) | Some h \<Rightarrow> do {
          let i = unat (ss_num s);
          table \<leftarrow> arr_set (ss_service s) i \<lparr> sv_name = take SERVICE_MAX_NAME (nm @ replicate SERVICE_MAX_NAME (CHR 0x00)), sv_area = area,
              sv_handler = h, sv_period = period div tick_ms, sv_priority = priority \<rparr>;
          let s = s \<lparr> ss_service := table \<rparr>;
          if \<not> created then Some (None, s) else Some (Some i, s \<lparr> ss_num := ss_num s + 1 \<rparr>)
        }))"

section \<open>The loop\<close>

text \<open>\<open>xTaskDelayUntil\<close> at the tick \<open>now\<close>: the tick at which the task goes on, and the new wake time.\<close>

definition xTaskDelayUntil :: "u32 \<Rightarrow> u32 \<Rightarrow> u32 \<Rightarrow> u32 \<times> u32" where
  "xTaskDelayUntil prev inc now =
     (let wake = prev + inc;
          should_delay = (if now < prev then wake < prev \<and> wake > now else wake < prev \<or> wake > now) in
      (if should_delay then now + (wake - now) else now, wake))"

text \<open>The ticks at which the handler is called; \<open>ds\<close> are the ticks that the calls take.\<close>

fun service_calls :: "u32 \<Rightarrow> u32 \<Rightarrow> u32 \<Rightarrow> u32 list \<Rightarrow> u32 list" where
  "service_calls period prev now [] = []"
| "service_calls period prev now (d # ds) =
     (let (now, prev) = (if period > 0 then xTaskDelayUntil prev period now else (now, prev)) in
      now # service_calls period prev (now + d) ds)"

definition service_run :: "u32 \<Rightarrow> u32 \<Rightarrow> u32 list \<Rightarrow> u32 list" where
  "service_run period start ds = service_calls period start start ds"

section \<open>Properties\<close>

lemma word_plus_less_iff:
  fixes a d :: u32
  shows "a + d < a \<longleftrightarrow> 2 ^ 32 \<le> unat a + unat d"
proof -
  have "unat (a + d) = (unat a + unat d) mod 2 ^ 32"
    by (simp add: unat_word_ariths)
  moreover have "unat a < 2 ^ 32" "unat d < 2 ^ 32"
    using unsigned_less [of a] unsigned_less [of d] by simp_all
  ultimately show ?thesis
    unfolding word_less_nat_alt by (cases "unat a + unat d < 2 ^ 32") (auto simp: le_mod_geq)
qed

lemma unat_plus_cases:
  fixes a d :: u32
  shows "unat (a + d) = (if unat a + unat d < 2 ^ 32 then unat a + unat d else unat a + unat d - 2 ^ 32)"
proof -
  have "unat (a + d) = (unat a + unat d) mod 2 ^ 32"
    by (simp add: unat_word_ariths)
  moreover have "unat a < 2 ^ 32" "unat d < 2 ^ 32"
    using unsigned_less [of a] unsigned_less [of d] by simp_all
  ultimately show ?thesis
    by (auto simp: le_mod_geq)
qed

text \<open>After a call that has lasted no longer than the period, the task goes on exactly one period after the last wake time, also when the
  counter of ticks runs over in between.\<close>

lemma delay_until_exact:
  assumes "d \<le> period"
  shows "xTaskDelayUntil prev period (prev + d) = (prev + period, prev + period)"
proof (cases "d = period")
  case True
  then show ?thesis
    by (auto simp: xTaskDelayUntil_def Let_def)
next
  case False
  then have lt: "unat d < unat period"
    using assms by (simp add: word_less_nat_alt [symmetric] order_neq_le_trans)
  have "if prev + d < prev then prev + period < prev \<and> prev + period > prev + d else prev + period < prev \<or> prev + period > prev + d"
    using lt unat_plus_cases [of prev d] unat_plus_cases [of prev period]
    unfolding word_plus_less_iff by (auto simp: word_less_nat_alt)
  then show ?thesis
    by (simp add: xTaskDelayUntil_def Let_def)
qed

lemma service_calls_exact:
  assumes "0 < period" and "d \<le> period" and "\<forall>x \<in> set ds. x \<le> period"
  shows "service_calls period prev (prev + d) ds = map (\<lambda>i. prev + word_of_nat (Suc i) * period) [0..<length ds]"
  using assms
proof (induction ds arbitrary: prev d)
  case (Cons x xs)
  have "service_calls period prev (prev + d) (x # xs) = (prev + period) # service_calls period (prev + period) (prev + period + x) xs"
    using Cons.prems(1) delay_until_exact [OF Cons.prems(2)] by simp
  also have "\<dots> = (prev + period) # map (\<lambda>i. prev + period + word_of_nat (Suc i) * period) [0..<length xs]"
    using Cons.IH [of x "prev + period"] Cons.prems by simp
  also have "\<dots> = map (\<lambda>i. prev + word_of_nat (Suc i) * period) [0..<length (x # xs)]"
    by (simp add: map_upt_Suc algebra_simps del: upt_Suc)
  finally show ?case .
qed simp

text \<open>C34: A service does not drift: when no call of its handler lasts longer than the period, the i-th call comes exactly i periods
  after the start of the service, over any number of calls and through overflows of the counter of ticks.\<close>

theorem service_no_drift:
  assumes "0 < period" and "\<forall>d \<in> set ds. d \<le> period"
  shows "service_run period start ds = map (\<lambda>i. start + word_of_nat (Suc i) * period) [0..<length ds]"
  using service_calls_exact [of period 0 ds start] assms by (simp add: service_run_def)

text \<open>The table has room for ten services and nothing checks it: starts succeed while there is room and give each service the next
  place, and the start after the tenth writes behind the table.\<close>

theorem service_table_overrun:
  assumes "length (ss_service s) = SERVICE_MAX" and "length nm \<le> SERVICE_MAX_NAME" and "unat (ss_num s) \<le> SERVICE_MAX"
  shows "if unat (ss_num s) < SERVICE_MAX
     then \<exists>s'. service_start tick_ms True (Some nm) area (Some h) period priority s = Some (Some (unat (ss_num s)), s') \<and>
       length (ss_service s') = SERVICE_MAX \<and> unat (ss_num s') = Suc (unat (ss_num s)) \<and>
       sv_handler (ss_service s' ! unat (ss_num s)) = h \<and> (\<forall>i. i \<noteq> unat (ss_num s) \<longrightarrow> ss_service s' ! i = ss_service s ! i)
     else service_start tick_ms True (Some nm) area (Some h) period priority s = None"
proof -
  have "unat (ss_num s + 1) = Suc (unat (ss_num s))" if "unat (ss_num s) < SERVICE_MAX"
    using that unat_plus_cases [of "ss_num s" 1] by (simp add: SERVICE_MAX_def)
  then show ?thesis
    using assms by (auto simp: service_start_def arr_set_def Let_def)
qed

theorem service_no_drift_witness:
  "service_run 10 0xFFFFFFF0 [3, 10, 0, 7] = [0xFFFFFFFA, 4, 14, 24]"
proof -
  have "service_run 10 0xFFFFFFF0 [3, 10, 0, 7] = map (\<lambda>i. 0xFFFFFFF0 + word_of_nat (Suc i) * 10) [0..<length [3, 10, 0, 7 :: u32]]"
    by (rule service_no_drift) simp_all
  then show ?thesis
    by (simp add: upt_rec)
qed

definition full_services :: "(nat, nat) services" where
  "full_services = \<lparr> ss_service = replicate 10 \<lparr> sv_name = replicate 16 (CHR 0x00), sv_area = 0, sv_handler = 0, sv_period = 0, sv_priority = 0 \<rparr>, ss_num = 10 \<rparr>"

theorem service_table_overrun_witness:
  "service_start 1 True (Some ''MS5611'') 7 (Some 8) 10 20 full_services = None"
  using service_table_overrun [of full_services "''MS5611''" 1 7 8 10 20]
  by (simp add: full_services_def SERVICE_MAX_def SERVICE_MAX_NAME_def)

end
