(* ===== verification/FileCopy.thy ===== *)
theory FileCopy
  imports Stdio
begin

text \<open>
  The loops that copy between two descriptors through a buffer: those of the commands file and cat
  (os/freertos/services/file/file.c, os/freertos/services/cat/cat.c) and of the log (os/freertos/services/misc/log.c) over the calls of the file layer. The
  interface of a source and a sink is the locale \<open>byte_pipe\<close>, in which the loops are shown to move every byte once. None is undefined
  behaviour or a loop that does not end.
\<close>

section \<open>The loops\<close>

text \<open>A read into the buffer and, when it returned bytes, a write of them.\<close>

definition pump :: "int \<Rightarrow> int \<Rightarrow> u8 list \<times> 'w vfs \<Rightarrow> (int \<times> u8 list \<times> 'w vfs) option" where
  "pump src dst bs = (case bs of (buf, s) \<Rightarrow> do {
     ((rb, out), s) \<leftarrow> vfs_read src (length buf) s;
     buf \<leftarrow> memcpy buf 0 out 0 (length out);
     if rb > 0
     then (if nat rb > length buf then None else do {
       (rv, s) \<leftarrow> vfs_write dst (take (nat rb) buf) s;
       Some (rb, buf, s)
     })
     else Some (rb, buf, s)
   })"

text \<open>The loop that goes on as long as the buffer is filled.\<close>

partial_function (option) copy_loop :: "int \<Rightarrow> int \<Rightarrow> u8 list \<times> 'w vfs \<Rightarrow> (u8 list \<times> 'w vfs) option" where
  "copy_loop src dst bs = do {
     (rb, buf, s) \<leftarrow> pump src dst bs;
     if rb = int (length buf) then copy_loop src dst (buf, s) else Some (buf, s)
   }"

text \<open>The loop of an upload, which goes on as long as bytes come. After a write the file is brought to the disk and its position to
  the end; before each further read the timeout of the port is set.\<close>

definition upload_round :: "int \<Rightarrow> int \<Rightarrow> int \<Rightarrow> u8 list \<times> 'w vfs \<Rightarrow> (int \<times> u8 list \<times> 'w vfs) option" where
  "upload_round port fd timeout bs = do {
     (rb, buf, s) \<leftarrow> pump port fd bs;
     s \<leftarrow> (if rb > 0 then do {
         (rv, s) \<leftarrow> vfs_fsync fd s;
         (rv, s) \<leftarrow> vfs_lseek fd 0 2 s;
         Some s
       } else Some s);
     (rv, s) \<leftarrow> vfs_ioctl port 0 [timeout] s;
     Some (rb, buf, s)
   }"

partial_function (option) upload_loop :: "int \<Rightarrow> int \<Rightarrow> int \<Rightarrow> u8 list \<times> 'w vfs \<Rightarrow> (u8 list \<times> 'w vfs) option" where
  "upload_loop port fd timeout bs = do {
     (rb, buf, s) \<leftarrow> upload_round port fd timeout bs;
     if rb > 0 then upload_loop port fd timeout (buf, s) else Some (buf, s)
   }"

section \<open>Sources and sinks\<close>

text \<open>\<open>pipe l d s\<close>: the source has the bytes \<open>l\<close> left and the sink has got the bytes \<open>d\<close>. \<open>chunk\<close> is the size of the buffer.\<close>

locale byte_pipe =
  fixes src dst :: int and pipe :: "u8 list \<Rightarrow> u8 list \<Rightarrow> 'w vfs \<Rightarrow> bool" and chunk :: nat
  assumes chunk_pos: "0 < chunk"
    and move_chunk: "pipe l d s \<Longrightarrow> l \<noteq> [] \<Longrightarrow>
      \<exists>s1 rv s2. vfs_read src chunk s = Some ((int (length (take chunk l)), take chunk l), s1) \<and> vfs_write dst (take chunk l) s1 = Some (rv, s2) \<and>
        pipe (drop chunk l) (d @ take chunk l) s2"
begin

lemma pump_some:
  assumes "pipe l d s" and "l \<noteq> []" and "length buf = chunk"
  shows "\<exists>buf' s'. pump src dst (buf, s) = Some (int (length (take chunk l)), buf', s') \<and> length buf' = chunk \<and>
     pipe (drop chunk l) (d @ take chunk l) s'"
proof -
  define t where "t = take chunk l"
  obtain s1 rv s2 where s: "vfs_read src chunk s = Some ((int (length t), t), s1)" "vfs_write dst t s1 = Some (rv, s2)" "pipe (drop chunk l) (d @ t) s2"
    unfolding t_def using move_chunk [OF assms(1,2)] by blast
  have t: "t \<noteq> []" "length t \<le> chunk"
    unfolding t_def using assms(2) chunk_pos by simp_all
  have "memcpy buf 0 t 0 (length t) = Some (t @ drop (length t) buf)"
    using t assms(3) by (simp add: memcpy_def)
  then show ?thesis
    unfolding t_def [symmetric] using s t assms(3) by (simp add: pump_def)
qed

end

text \<open>A source whose read at the end returns no bytes, and leaves everything as it was.\<close>

locale ending_pipe = byte_pipe +
  assumes read_end: "pipe [] d s \<Longrightarrow> \<exists>rv s'. vfs_read src chunk s = Some ((rv, []), s') \<and> rv \<le> 0 \<and> pipe [] d s'"
begin

lemma copy_loop_moves:
  assumes "pipe l d s" and "length buf = chunk"
  shows "\<exists>buf' s'. copy_loop src dst (buf, s) = Some (buf', s') \<and> length buf' = chunk \<and> pipe [] (d @ l) s'"
  using assms
proof (induction "length l" arbitrary: l d buf s rule: less_induct)
  case less
  show ?case
  proof (cases "l = []")
    case True
    obtain rv s' where s': "vfs_read src chunk s = Some ((rv, []), s')" "rv \<le> 0" "pipe [] d s'"
      using read_end less.prems(1) True by blast
    then have "pump src dst (buf, s) = Some (rv, buf, s')"
      using less.prems(2) by (simp add: pump_def memcpy_def)
    then show ?thesis
      using s' less.prems(2) chunk_pos True by (subst copy_loop.simps) auto
  next
    case False
    obtain b1 s1 where s1: "pump src dst (buf, s) = Some (int (length (take chunk l)), b1, s1)" "length b1 = chunk"
        "pipe (drop chunk l) (d @ take chunk l) s1"
      using pump_some [OF less.prems(1) False less.prems(2)] by blast
    show ?thesis
    proof (cases "length (take chunk l) = chunk")
      case True
      have "length (drop chunk l) < length l"
        using False chunk_pos by simp
      from less.hyps [OF this s1(3,2)] show ?thesis
        using s1 True by (subst copy_loop.simps) (simp add: append_take_drop_id del: length_take)
    next
      case False
      then have "drop chunk l = []" "take chunk l = l"
        by simp_all
      then show ?thesis
        using s1 False by (subst copy_loop.simps) simp
    qed
  qed
qed

end

text \<open>A source that may wait for bytes: it ends when its timeout is limited (\<open>quick\<close>), and the calls between the reads keep the bytes.
  The sink keeps what it has got in memory; \<open>synced d\<close> tells that the bytes \<open>d\<close> are on the disk, which only a sync brings about.\<close>

locale timed_pipe = byte_pipe +
  fixes quick :: "'a vfs \<Rightarrow> bool" and synced :: "u8 list \<Rightarrow> 'a vfs \<Rightarrow> bool" and timeout :: int
  assumes read_timeout: "pipe [] d s \<Longrightarrow> quick s \<Longrightarrow> synced d s \<Longrightarrow>
      \<exists>rv s'. vfs_read src chunk s = Some ((rv, []), s') \<and> rv \<le> 0 \<and> pipe [] d s' \<and> synced d s'"
    and fsync_syncs: "pipe l d s \<Longrightarrow> \<exists>rv s'. vfs_fsync dst s = Some (rv, s') \<and> pipe l d s' \<and> synced d s'"
    and lseek_keeps: "pipe l d s \<Longrightarrow> synced d s \<Longrightarrow> \<exists>rv s'. vfs_lseek dst 0 2 s = Some (rv, s') \<and> pipe l d s' \<and> synced d s'"
    and ioctl_keeps: "pipe l d s \<Longrightarrow> synced d s \<Longrightarrow>
      \<exists>rv s'. vfs_ioctl src 0 [timeout] s = Some (rv, s') \<and> pipe l d s' \<and> synced d s' \<and> quick s'"
begin

lemma upload_round_some:
  assumes "pipe l d s" and "l \<noteq> []" and "length buf = chunk"
  shows "\<exists>buf' s'. upload_round src dst timeout (buf, s) = Some (int (length (take chunk l)), buf', s') \<and> length buf' = chunk \<and>
     pipe (drop chunk l) (d @ take chunk l) s' \<and> synced (d @ take chunk l) s' \<and> quick s'"
proof -
  obtain b1 s1 where s1: "pump src dst (buf, s) = Some (int (length (take chunk l)), b1, s1)" "length b1 = chunk"
      "pipe (drop chunk l) (d @ take chunk l) s1"
    using pump_some [OF assms] by blast
  obtain r2 s2 where s2: "vfs_fsync dst s1 = Some (r2, s2)" "pipe (drop chunk l) (d @ take chunk l) s2" "synced (d @ take chunk l) s2"
    using fsync_syncs [OF s1(3)] by blast
  obtain r3 s3 where s3: "vfs_lseek dst 0 2 s2 = Some (r3, s3)" "pipe (drop chunk l) (d @ take chunk l) s3" "synced (d @ take chunk l) s3"
    using lseek_keeps [OF s2(2,3)] by blast
  obtain r4 s4 where s4: "vfs_ioctl src 0 [timeout] s3 = Some (r4, s4)" "pipe (drop chunk l) (d @ take chunk l) s4" "synced (d @ take chunk l) s4" "quick s4"
    using ioctl_keeps [OF s3(2,3)] by blast
  have "0 < int (length (take chunk l))"
    using assms(2) chunk_pos by simp
  then show ?thesis
    using s1(1,2) s2(1) s3(1) s4 by (simp add: upload_round_def del: length_take)
qed

lemma upload_loop_moves:
  assumes "pipe l d s" and "l \<noteq> [] \<or> quick s \<and> synced d s" and "length buf = chunk"
  shows "\<exists>buf' s'. upload_loop src dst timeout (buf, s) = Some (buf', s') \<and> pipe [] (d @ l) s' \<and> synced (d @ l) s'"
  using assms
proof (induction "length l" arbitrary: l d buf s rule: less_induct)
  case less
  show ?case
  proof (cases "l = []")
    case True
    obtain rv s1 where s1: "vfs_read src chunk s = Some ((rv, []), s1)" "rv \<le> 0" "pipe [] d s1" "synced d s1"
      using read_timeout less.prems True by blast
    obtain r2 s2 where "vfs_ioctl src 0 [timeout] s1 = Some (r2, s2)" "pipe [] d s2" "synced d s2"
      using ioctl_keeps [OF s1(3,4)] by blast
    then have "upload_round src dst timeout (buf, s) = Some (rv, buf, s2)" "pipe [] d s2" "synced d s2"
      using s1(1,2) less.prems(3) by (simp_all add: upload_round_def pump_def memcpy_def)
    then show ?thesis
      using s1(2) True by (subst upload_loop.simps) simp
  next
    case False
    obtain b1 s1 where s1: "upload_round src dst timeout (buf, s) = Some (int (length (take chunk l)), b1, s1)" "length b1 = chunk"
        "pipe (drop chunk l) (d @ take chunk l) s1" "synced (d @ take chunk l) s1" "quick s1"
      using upload_round_some [OF less.prems(1) False less.prems(3)] by blast
    have "length (drop chunk l) < length l" "0 < int (length (take chunk l))"
      using False chunk_pos by simp_all
    then show ?thesis
      using less.hyps [of "drop chunk l" "d @ take chunk l" s1 b1] s1 by (subst upload_loop.simps) (simp del: length_take)
  qed
qed

end

end
