(* ===== verification/Log.thy ===== *)
theory Log
  imports FileCopy Rtos
begin

text \<open>
  The log: os/freertos/services/misc/log.c on the file layer. The formatted time and the formatted message of a call are its arguments, as the
  bytes that the library's printf makes of them. None is undefined behaviour or a call that never returns.
\<close>

section \<open>The log\<close>

definition LOG_MAX_LENGTH :: nat where "LOG_MAX_LENGTH = 255"
definition LOG_MAX_MODULE_NAME :: nat where "LOG_MAX_MODULE_NAME = 10"
definition LOG_NAME_LEN :: nat where "LOG_NAME_LEN = 32"
definition O_EXCL :: u32 where "O_EXCL = 0x0008"

datatype log_type = LOG_TO_BUF | LOG_TO_FILE

text \<open>\<open>lg_made\<close>: the mutex exists.\<close>

record log_module_t =
  lg_buf :: "u8 list option"
  lg_buf_size :: nat
  lg_offset :: nat
  lg_fd :: int
  lg_made :: bool
  lg_mutex :: mutex
  lg_type :: log_type

definition log_zero :: log_module_t where
  "log_zero = \<lparr> lg_buf = None, lg_buf_size = 0, lg_offset = 0, lg_fd = 0, lg_made = False, lg_mutex = None, lg_type = LOG_TO_BUF \<rparr>"

definition chars :: "string \<Rightarrow> u8 list" where
  "chars s = map of_char s"

section \<open>Start\<close>

fun digits_of :: "nat \<Rightarrow> string" where
  "digits_of n = (if n < 10 then [char_of (48 + n)] else digits_of (n div 10) @ [char_of (48 + n mod 10)])"

declare digits_of.simps [simp del]

text \<open>\<open>snprintf\<close> into the array of the file name.\<close>

definition log_file_name :: "string \<Rightarrow> string \<Rightarrow> nat \<Rightarrow> string" where
  "log_file_name path stem n = take (LOG_NAME_LEN - 1) (path @ ''/'' @ stem @ ''_'' @ digits_of n @ ''.txt'')"

text \<open>The loop looks for the first number without a file; it may not end.\<close>

partial_function (option) log_open_new :: "string \<Rightarrow> string \<Rightarrow> nat \<Rightarrow> 'w vfs \<Rightarrow> (int \<times> 'w vfs) option" where
  "log_open_new path stem n s = do {
     (fd, s) \<leftarrow> vfs_open (Some (log_file_name path stem n)) (O_RDWR OR O_CREAT OR O_EXCL) s;
     if fd < 0 \<and> vf_errno s = EEXIST then log_open_new path stem (Suc n) s else Some (fd, s)
   }"

text \<open>\<open>made\<close>, \<open>alloc\<close>: the mutex and the buffer can be made.\<close>

definition log_init ::
    "bool \<Rightarrow> bool \<Rightarrow> string \<Rightarrow> string option \<Rightarrow> log_type \<Rightarrow> nat \<Rightarrow> log_module_t \<times> 'w vfs \<Rightarrow> (int \<times> log_module_t \<times> 'w vfs) option" where
  "log_init made alloc stem path type buf_size ls = (case ls of (lg, s) \<Rightarrow>
     (case path of None \<Rightarrow> Some (- 1, lg, s) | Some path \<Rightarrow>
        if lg_fd lg > 0 then Some (- 1, lg, s)
        else if length stem + length path > LOG_NAME_LEN then Some (- 1, lg, s)
        else do {
          (rv, s) \<leftarrow> vfs_mkdir (Some path) 0 s;
          if rv \<noteq> 0 \<and> vf_errno s \<noteq> EEXIST then Some (- 1, lg, s)
          else if \<not> made then Some (- 1, lg \<lparr> lg_made := False \<rparr>, s)
          else if \<not> alloc then Some (- 1, lg \<lparr> lg_made := True, lg_mutex := None, lg_buf := None \<rparr>, s)
          else (let lg = lg \<lparr> lg_made := True, lg_mutex := None, lg_buf := Some (replicate buf_size 0), lg_buf_size := buf_size, lg_type := type \<rparr> in
            if type = LOG_TO_FILE then do {
              (fd, s) \<leftarrow> log_open_new path stem 0 s;
              Some (0, if fd > 0 then lg \<lparr> lg_fd := fd \<rparr> else lg, s)
            }
            else Some (0, lg, s))
        }))"

section \<open>A line\<close>

text \<open>\<open>sprintf\<close> of the bytes \<open>bs\<close> at an offset of the array.\<close>

definition put_str :: "u8 list \<Rightarrow> nat \<Rightarrow> u8 list \<Rightarrow> u8 list option" where
  "put_str bs off string = memcpy string off (bs @ [0]) 0 (length bs + 1)"

text \<open>\<open>vsnprintf\<close> with \<open>room\<close> bytes left, which cuts what it writes but not what it returns.\<close>

definition put_cut :: "u8 list \<Rightarrow> nat \<Rightarrow> nat \<Rightarrow> u8 list \<Rightarrow> u8 list option" where
  "put_cut bs off room string = (if room = 0 then Some string else put_str (take (room - 1) bs) off string)"

definition msg_types :: "string list" where
  "msg_types = [''INFO'', ''WARN'', ''ERROR'', ''DEBUG'']"

definition msg_color :: "u8 list list" where
  "msg_color = [0x1B # chars ''[32m'', 0x1B # chars ''[33m'', 0x1B # chars ''[31m'', 0x1B # chars ''[37m'', 0x1B # chars ''[0m'']"

definition aligned_module :: "string \<Rightarrow> u8 list" where
  "aligned_module name = chars (take LOG_MAX_MODULE_NAME name) @ replicate (LOG_MAX_MODULE_NAME - 1 - length name) 32"

text \<open>The array and the length that the code has counted.\<close>

definition log_line :: "u8 list \<Rightarrow> nat \<Rightarrow> string \<Rightarrow> u8 list \<Rightarrow> (u8 list \<times> nat) option" where
  "log_line time msg_type name msg = do {
     let string = replicate LOG_MAX_LENGTH 0;
     color \<leftarrow> arr_get msg_color msg_type;
     type \<leftarrow> arr_get msg_types msg_type;
     let part0 = time @ [9];
     string \<leftarrow> put_str part0 0 string;
     let len = length part0;
     let part1 = color @ chars type @ msg_color ! 4 @ [9];
     string \<leftarrow> put_str part1 len string;
     let len = len + length part1;
     let part2 = aligned_module name @ [9];
     string \<leftarrow> put_str part2 len string;
     let len = len + length part2;
     string \<leftarrow> put_cut msg len (LOG_MAX_LENGTH - len) string;
     let len = len + length msg;
     string \<leftarrow> put_str [13, 10] len string;
     Some (string, len + 2)
   }"

definition c_string :: "u8 list \<Rightarrow> u8 list" where
  "c_string a = takeWhile (\<lambda>b. b \<noteq> 0) a"

text \<open>The difference of the two unsigned numbers of 32 bits wraps around.\<close>

definition unsigned_minus :: "nat \<Rightarrow> nat \<Rightarrow> nat" where
  "unsigned_minus a b = (if b \<le> a then a - b else 2 ^ 32 + a - b)"

definition log_module ::
    "task \<Rightarrow> bool \<Rightarrow> u8 list \<Rightarrow> nat \<Rightarrow> string \<Rightarrow> u8 list \<Rightarrow> log_module_t \<times> 'w vfs \<Rightarrow> (log_module_t \<times> 'w vfs) option" where
  "log_module me released time msg_type name msg ls = (case ls of (lg, s) \<Rightarrow>
     (case lg_buf lg of None \<Rightarrow> Some (lg, s) | Some buf \<Rightarrow>
       if lg_fd lg \<le> 0 \<and> lg_type lg = LOG_TO_FILE then Some (lg, s)
       else if msg_type = 4 then Some (lg, s)
       else do {
         m \<leftarrow> mutex_take_forever me released (lg_mutex lg);
         (string, len) \<leftarrow> log_line time msg_type name msg;
         (lg, s) \<leftarrow> (if lg_type lg = LOG_TO_FILE then do {
             (rv, s) \<leftarrow> vfs_write (lg_fd lg) (take len string) s;
             (rv, s) \<leftarrow> vfs_fsync (lg_fd lg) s;
             Some (lg, s)
           }
           else if length (c_string string) > unsigned_minus (lg_buf_size lg) (lg_offset lg) then Some (lg, s)
           else do {
             buf \<leftarrow> put_str (c_string string) (lg_offset lg) buf;
             Some (lg \<lparr> lg_buf := Some buf, lg_offset := lg_offset lg + length (c_string string) \<rparr>, s)
           });
         m \<leftarrow> mutex_give me m;
         Some (lg \<lparr> lg_mutex := m \<rparr>, s)
       }))"

section \<open>The command that prints the log\<close>

text \<open>The file is copied to the descriptor 1, through the buffer.\<close>

definition log_print :: "task \<Rightarrow> bool \<Rightarrow> log_module_t \<times> 'w vfs \<Rightarrow> (log_module_t \<times> 'w vfs) option" where
  "log_print me released ls = (case ls of (lg, s) \<Rightarrow> if \<not> lg_made lg then None else do {
     m \<leftarrow> mutex_take_forever me released (lg_mutex lg);
     (lg, s) \<leftarrow> (if lg_type lg = LOG_TO_FILE then do {
         (rv, s) \<leftarrow> vfs_lseek (lg_fd lg) 0 0 s;
         (case lg_buf lg of None \<Rightarrow> None | Some buf \<Rightarrow> do {
           (buf, s) \<leftarrow> copy_loop (lg_fd lg) 1 (buf, s);
           (rv, s) \<leftarrow> vfs_lseek (lg_fd lg) 0 2 s;
           Some (lg \<lparr> lg_buf := Some buf \<rparr>, s)
         })
       }
       else do {
         (rv, s) \<leftarrow> vfs_write 1 (take (lg_offset lg) (case lg_buf lg of None \<Rightarrow> [] | Some b \<Rightarrow> b)) s;
         Some (lg, s)
       });
     m \<leftarrow> mutex_give me m;
     Some (lg \<lparr> lg_mutex := m \<rparr>, s)
   })"

section \<open>What a line holds\<close>

definition log_header :: "u8 list \<Rightarrow> nat \<Rightarrow> string \<Rightarrow> u8 list" where
  "log_header time msg_type name =
     time @ [9] @ msg_color ! msg_type @ chars (msg_types ! msg_type) @ msg_color ! 4 @ [9] @ aligned_module name @ [9]"

lemma put_str_end:
  assumes "length a = off" and "off + length bs < n"
  shows "put_str bs off (a @ replicate (n - off) 0) = Some ((a @ bs) @ replicate (n - (off + length bs)) 0)"
proof -
  obtain k where n: "n = off + length bs + Suc k"
    using assms(2) less_imp_Suc_add by fastforce
  show ?thesis
    using assms(1) by (simp add: put_str_def memcpy_def n)
qed

lemma put_str_None: "length string \<le> off + length bs \<Longrightarrow> put_str bs off string = None"
  by (simp add: put_str_def memcpy_def)

text \<open>A line is stored when header, message, line end and the final zero fit the array; otherwise the code runs over its end.\<close>

lemma log_line_exact:
  assumes "msg_type < 4" and "length (log_header time msg_type name) < LOG_MAX_LENGTH"
  shows "log_line time msg_type name msg =
     (if length (log_header time msg_type name) + length msg + 3 \<le> LOG_MAX_LENGTH
      then Some (log_header time msg_type name @ msg @ [13, 10] @ replicate (LOG_MAX_LENGTH - (length (log_header time msg_type name) + length msg + 2)) 0,
        length (log_header time msg_type name) + length msg + 2)
      else None)"
proof -
  let ?n = LOG_MAX_LENGTH
  let ?p0 = "time @ [9]" and ?p1 = "msg_color ! msg_type @ chars (msg_types ! msg_type) @ msg_color ! 4 @ [9]" and ?p2 = "aligned_module name @ [9]"
  have h: "log_header time msg_type name = (?p0 @ ?p1) @ ?p2"
    by (simp add: log_header_def)
  have lt: "length (?p0 @ ?p1 @ ?p2) < ?n"
    using assms(2) unfolding h by simp
  have tables: "arr_get msg_color msg_type = Some (msg_color ! msg_type)" "arr_get msg_types msg_type = Some (msg_types ! msg_type)"
    using assms(1) by (simp_all add: arr_get_def msg_color_def msg_types_def)
  have 0: "put_str ?p0 0 (replicate ?n 0) = Some (?p0 @ replicate (?n - length ?p0) 0)"
    using put_str_end [of "[]" 0 ?p0 ?n] lt by simp
  have 1: "put_str ?p1 (length ?p0) (?p0 @ replicate (?n - length ?p0) 0) = Some ((?p0 @ ?p1) @ replicate (?n - (length ?p0 + length ?p1)) 0)"
    using put_str_end [of ?p0 "length ?p0" ?p1 ?n] lt by simp
  have 2: "put_str ?p2 (length ?p0 + length ?p1) ((?p0 @ ?p1) @ replicate (?n - (length ?p0 + length ?p1)) 0) =
      Some (((?p0 @ ?p1) @ ?p2) @ replicate (?n - (length ?p0 + length ?p1 + length ?p2)) 0)"
    using put_str_end [of "?p0 @ ?p1" "length ?p0 + length ?p1" ?p2 ?n] lt by simp
  let ?h = "(?p0 @ ?p1) @ ?p2"
  have len: "length ?p0 + length ?p1 + length ?p2 = length ?h"
    by simp
  have cut: "put_cut msg (length ?h) (?n - length ?h) (?h @ replicate (?n - length ?h) 0) =
      Some ((?h @ take (?n - length ?h - 1) msg) @ replicate (?n - (length ?h + length (take (?n - length ?h - 1) msg))) 0)"
    using put_str_end [of ?h "length ?h" "take (?n - length ?h - 1) msg" ?n] assms(2) unfolding h by (simp add: put_cut_def)
  have run: "log_line time msg_type name msg = do {
      string \<leftarrow> put_str [13, 10] (length ?h + length msg) ((?h @ take (?n - length ?h - 1) msg) @ replicate (?n - (length ?h + length (take (?n - length ?h - 1) msg))) 0);
      Some (string, length ?h + length msg + 2) }"
    unfolding log_line_def Let_def tables by (simp only: bind.bind_lunit 0 1 2 len cut)
  show ?thesis
  proof (cases "length ?h + length msg + 3 \<le> ?n")
    case True
    then show ?thesis
      using put_str_end [of "?h @ msg" "length ?h + length msg" "[13, 10]" ?n] unfolding run h by simp
  next
    case False
    have "length ((?h @ take (?n - length ?h - 1) msg) @ replicate (?n - (length ?h + length (take (?n - length ?h - 1) msg))) (0 :: u8)) = ?n"
      using assms(2) unfolding h by simp
    then show ?thesis
      using False put_str_None unfolding run h by simp
  qed
qed

text \<open>A log in memory, and the lines that it holds.\<close>

definition log_buffer_ok :: "u8 list list \<Rightarrow> log_module_t \<Rightarrow> bool" where
  "log_buffer_ok lines lg \<longleftrightarrow> lg_type lg = LOG_TO_BUF \<and> lg_mutex lg = None \<and>
     (\<exists>buf. lg_buf lg = Some buf \<and> length buf = lg_buf_size lg \<and> take (lg_offset lg) buf = concat lines) \<and> lg_offset lg = length (concat lines)"

definition log_text :: "u8 list \<Rightarrow> nat \<Rightarrow> string \<Rightarrow> u8 list \<Rightarrow> u8 list" where
  "log_text time msg_type name msg = log_header time msg_type name @ msg @ [13, 10]"

lemma c_string_padded: "0 \<notin> set a \<Longrightarrow> c_string (a @ replicate k 0) = a"
proof -
  assume "0 \<notin> set a"
  then have "takeWhile (\<lambda>b. b \<noteq> 0) (a @ replicate k 0) = a @ takeWhile (\<lambda>b. b \<noteq> 0) (replicate k (0 :: u8))"
    by (intro takeWhile_append2) auto
  then show ?thesis
    by (cases k) (simp_all add: c_string_def)
qed

lemma log_line_text:
  assumes "msg_type < 4" and "length (log_text time msg_type name msg) < LOG_MAX_LENGTH" and "0 \<notin> set (log_text time msg_type name msg)"
  shows "\<exists>string. log_line time msg_type name msg = Some (string, length (log_text time msg_type name msg)) \<and>
     take (length (log_text time msg_type name msg)) string = log_text time msg_type name msg \<and> c_string string = log_text time msg_type name msg"
proof -
  let ?t = "log_text time msg_type name msg"
  have "log_line time msg_type name msg = Some (?t @ replicate (LOG_MAX_LENGTH - length ?t) 0, length ?t)"
    using log_line_exact [OF assms(1), of time name msg] assms(2) by (simp add: log_text_def)
  then show ?thesis
    using c_string_padded [OF assms(3)] by simp
qed

text \<open>What a message does to a log in memory, for a line that fits the array of a line: when its bytes and a final zero fit the rest of the
  buffer it is added, whole, behind the lines before; when it needs more than the rest it is dropped; and when it fills the rest exactly the
  zero is written behind the buffer.\<close>

theorem log_buffer_line:
  assumes ok: "log_buffer_ok lines lg" and type: "msg_type < 4" and fits: "length (log_text time msg_type name msg) < LOG_MAX_LENGTH"
    and plain: "0 \<notin> set (log_text time msg_type name msg)" and room: "lg_offset lg \<le> lg_buf_size lg"
  shows "let n = length (log_text time msg_type name msg); rest = lg_buf_size lg - lg_offset lg in
     if n < rest then \<exists>lg'. log_module me released time msg_type name msg (lg, s) = Some (lg', s) \<and> log_buffer_ok (lines @ [log_text time msg_type name msg]) lg'
     else if n = rest then log_module me released time msg_type name msg (lg, s) = None
     else log_module me released time msg_type name msg (lg, s) = Some (lg, s)"
proof -
  let ?t = "log_text time msg_type name msg"
  obtain buf where buf: "lg_buf lg = Some buf" "length buf = lg_buf_size lg" "take (lg_offset lg) buf = concat lines" "lg_offset lg = length (concat lines)"
      "lg_type lg = LOG_TO_BUF" "lg_mutex lg = None"
    using ok by (auto simp: log_buffer_ok_def)
  obtain string where line: "log_line time msg_type name msg = Some (string, length ?t)" "c_string string = ?t"
    using log_line_text [OF type fits plain] by blast
  have run: "log_module me released time msg_type name msg (lg, s) =
      (if length ?t > lg_buf_size lg - lg_offset lg then Some (lg \<lparr> lg_mutex := None \<rparr>, s)
       else map_option (\<lambda>b. (lg \<lparr> lg_buf := Some b, lg_offset := lg_offset lg + length ?t, lg_mutex := None \<rparr>, s)) (put_str ?t (lg_offset lg) buf))"
    using buf(1,5,6) line type by (cases "put_str ?t (lg_offset lg) buf") (simp_all add: log_module_def unsigned_minus_def room)
  have same: "lg \<lparr> lg_mutex := None \<rparr> = lg"
    using buf(6) by simp
  consider "length ?t < lg_buf_size lg - lg_offset lg" | "length ?t = lg_buf_size lg - lg_offset lg" | "length ?t > lg_buf_size lg - lg_offset lg"
    by linarith
  then show ?thesis
  proof cases
    case 1
    then have "put_str ?t (lg_offset lg) buf = Some (take (lg_offset lg) buf @ (?t @ [0]) @ drop (lg_offset lg + length ?t + 1) buf)"
      using buf(2) by (simp add: put_str_def memcpy_def)
    then have "log_module me released time msg_type name msg (lg, s) = Some (lg \<lparr> lg_buf := Some (concat lines @ (?t @ [0]) @ drop (lg_offset lg + length ?t + 1) buf),
        lg_offset := lg_offset lg + length ?t, lg_mutex := None \<rparr>, s)"
      using 1 run buf(3) by simp
    then show ?thesis
      using 1 buf by (simp add: Let_def log_buffer_ok_def)
  next
    case 2
    then have "put_str ?t (lg_offset lg) buf = None"
      using put_str_None [of buf "lg_offset lg" ?t] buf(2) room by simp
    then show ?thesis
      using 2 run by (simp add: Let_def)
  next
    case 3
    then show ?thesis
      using run same by (simp add: Let_def)
  qed
qed

text \<open>A message goes to the file of the log as one line, exactly, when the line and a zero fit the array of 255 bytes; a longer message runs over
  the end of the array, since the length that vsnprintf would have needed is taken for the length that it wrote.\<close>

theorem log_message_bound:
  assumes "lg_type lg = LOG_TO_FILE" and "lg_fd lg > 0" and "lg_buf lg = Some buf" and "lg_mutex lg = None" and "msg_type < 4"
    and "length (log_header time msg_type name) < LOG_MAX_LENGTH"
  shows "log_module me released time msg_type name msg (lg, s) =
     (if length (log_text time msg_type name msg) < LOG_MAX_LENGTH
      then do { (rv, s) \<leftarrow> vfs_write (lg_fd lg) (log_text time msg_type name msg) s; (rv, s) \<leftarrow> vfs_fsync (lg_fd lg) s; Some (lg, s) }
      else None)"
proof -
  let ?t = "log_text time msg_type name msg"
  have t: "length (log_header time msg_type name) + length msg + 2 = length ?t"
    by (simp add: log_text_def)
  have line: "log_line time msg_type name msg = (if length ?t < LOG_MAX_LENGTH then Some (?t @ replicate (LOG_MAX_LENGTH - length ?t) 0, length ?t) else None)"
    using log_line_exact [OF assms(5,6), of msg] unfolding t by (simp add: log_text_def)
  show ?thesis
    using assms(1-5) by (cases lg) (simp add: log_module_def line case_prod_unfold)
qed

text \<open>What the command prints of a log in memory.\<close>

lemma log_print_buffer:
  assumes "log_buffer_ok lines lg" and "lg_made lg"
  shows "log_print me released (lg, s) = map_option (\<lambda>(rv, s). (lg, s)) (vfs_write 1 (concat lines) s)"
proof -
  obtain buf where buf: "lg_buf lg = Some buf" "take (lg_offset lg) buf = concat lines" "lg_type lg = LOG_TO_BUF" "lg_mutex lg = None"
    using assms by (auto simp: log_buffer_ok_def)
  have "lg \<lparr> lg_mutex := None \<rparr> = lg"
    using buf(4) by simp
  then show ?thesis
    using buf assms(2) by (cases "vfs_write 1 (concat lines) s") (auto simp: log_print_def)
qed

lemma log_open_new_diverges:
  assumes "\<And>n. \<exists>s1 \<in> S. vfs_open (Some (log_file_name path stem n)) (O_RDWR OR O_CREAT OR O_EXCL) s0 = Some (- 1, s1) \<and> vf_errno s1 = EEXIST"
    and "\<And>n s. s \<in> S \<Longrightarrow> \<exists>s1 \<in> S. vfs_open (Some (log_file_name path stem n)) (O_RDWR OR O_CREAT OR O_EXCL) s = Some (- 1, s1) \<and> vf_errno s1 = EEXIST"
  shows "log_open_new path stem n s0 = None"
proof -
  have "p = path \<longrightarrow> q = stem \<longrightarrow> s \<notin> insert s0 S" if "log_open_new p q n s = Some r" for p q n s and r :: "int \<times> 'a vfs"
  proof (rule log_open_new.raw_induct [OF _ that, where P = "\<lambda>p q n s r. p = path \<longrightarrow> q = stem \<longrightarrow> s \<notin> insert s0 S"], intro impI notI)
    fix f p q n s and r :: "int \<times> 'a vfs"
    assume IH: "\<And>p q n s r. f p q n s = Some r \<Longrightarrow> p = path \<longrightarrow> q = stem \<longrightarrow> s \<notin> insert s0 S"
      and body: "vfs_open (Some (log_file_name p q n)) (O_RDWR OR O_CREAT OR O_EXCL) s \<bind>
        (\<lambda>(fd, s). if fd < 0 \<and> vf_errno s = EEXIST then f p q (Suc n) s else Some (fd, s)) = Some r"
      and *: "p = path" "q = stem" "s \<in> insert s0 S"
    obtain s1 where s1: "s1 \<in> S" "vfs_open (Some (log_file_name p q n)) (O_RDWR OR O_CREAT OR O_EXCL) s = Some (- 1, s1)" "vf_errno s1 = EEXIST"
      using assms * by (metis insert_iff)
    then have "f p q (Suc n) s1 = Some r"
      using body by simp
    then show False
      using IH * s1(1) by blast
  qed
  then show ?thesis
    by (metis insertI1 not_None_eq)
qed

text \<open>The name of the file of a log is cut to 31 characters. When directory and name are so long that the number is cut off, and the
  file of this name exists already, log_init looks for a free number for ever.\<close>

theorem log_init_never_returns:
  assumes long: "LOG_NAME_LEN - 3 \<le> length path + length stem" "length path + length stem \<le> LOG_NAME_LEN" and fresh: "lg_fd lg = 0"
    and dir: "vfs_mkdir (Some path) 0 s = Some (- 1, s0)" "vf_errno s0 = EEXIST"
    and taken: "vfs_open (Some (take (LOG_NAME_LEN - 1) (path @ ''/'' @ stem @ ''_''))) (O_RDWR OR O_CREAT OR O_EXCL) s0 = Some (- 1, s1)"
      "vfs_open (Some (take (LOG_NAME_LEN - 1) (path @ ''/'' @ stem @ ''_''))) (O_RDWR OR O_CREAT OR O_EXCL) s1 = Some (- 1, s1)" "vf_errno s1 = EEXIST"
  shows "log_init True True stem (Some path) LOG_TO_FILE buf_size (lg, s) = None"
proof -
  have name: "log_file_name path stem n = take (LOG_NAME_LEN - 1) (path @ ''/'' @ stem @ ''_'')" for n
    using long(1) by (simp add: log_file_name_def LOG_NAME_LEN_def take_Cons' not_le)
  have "log_open_new path stem 0 s0 = None"
    using taken by (intro log_open_new_diverges [where S = "{s1}"]) (simp_all add: name)
  then show ?thesis
    using long(2) fresh dir by (simp add: log_init_def)
qed

text \<open>Concrete instances.\<close>

definition demo_log :: log_module_t where
  "demo_log = \<lparr> lg_buf = Some (replicate 64 0), lg_buf_size = 64, lg_offset = 0, lg_fd = 0, lg_made = True, lg_mutex = None, lg_type = LOG_TO_BUF \<rparr>"

lemma demo_line: "length (log_text (chars ''1.234'') 0 ''BOARD'' (chars ''ready'')) = 37" "0 \<notin> set (log_text (chars ''1.234'') 0 ''BOARD'' (chars ''ready''))"
  by code_simp+

theorem log_buffer_line_witness:
  "\<exists>lg'. log_module 1 True (chars ''1.234'') 0 ''BOARD'' (chars ''ready'') (demo_log, demo_vfs) = Some (lg', demo_vfs) \<and>
     log_buffer_ok [log_text (chars ''1.234'') 0 ''BOARD'' (chars ''ready'')] lg'"
proof -
  have ok: "log_buffer_ok [] demo_log" "lg_offset demo_log = 0" "lg_buf_size demo_log = 64"
    by (simp_all add: log_buffer_ok_def demo_log_def)
  have "(0 :: nat) < 4" "length (log_text (chars ''1.234'') 0 ''BOARD'' (chars ''ready'')) < LOG_MAX_LENGTH" "lg_offset demo_log \<le> lg_buf_size demo_log"
    unfolding demo_line ok by (simp_all add: LOG_MAX_LENGTH_def)
  from log_buffer_line [OF ok(1) this(1,2) demo_line(2) this(3), of 1 True demo_vfs] show ?thesis
    unfolding demo_line ok by (simp add: Let_def)
qed

theorem log_message_bound_witness:
  "log_module 1 True (chars ''1.234'') 0 ''BOARD'' (replicate 240 65) (demo_log \<lparr> lg_type := LOG_TO_FILE, lg_fd := 3 \<rparr>, demo_vfs) = None"
proof -
  let ?lg = "demo_log \<lparr> lg_type := LOG_TO_FILE, lg_fd := 3 \<rparr>"
  have lg: "lg_type ?lg = LOG_TO_FILE" "lg_fd ?lg > 0" "lg_buf ?lg = Some (replicate 64 0)" "lg_mutex ?lg = None" "(0 :: nat) < 4"
    by (simp_all add: demo_log_def)
  have h: "length (log_header (chars ''1.234'') 0 ''BOARD'') = 30"
    by code_simp
  then have "length (log_header (chars ''1.234'') 0 ''BOARD'') < LOG_MAX_LENGTH"
      "\<not> length (log_text (chars ''1.234'') 0 ''BOARD'' (replicate 240 65)) < LOG_MAX_LENGTH"
    by (simp_all add: LOG_MAX_LENGTH_def log_text_def)
  with log_message_bound [OF lg this(1), of 1 True "replicate 240 65" demo_vfs] show ?thesis
    by simp
qed

text \<open>A volume on which everything exists.\<close>

definition busy_node :: "unit file_operations" where
  "busy_node = zero_ops \<lparr> fo_open := Some (\<lambda>path fd fl w e. (- 1, fl, w, EEXIST)), fo_mkdir := Some (\<lambda>path mode w e. (- 1, w, EEXIST)) \<rparr>"

definition busy_vfs :: "unit vfs" where
  "busy_vfs = \<lparr> vf_root = Node [] None [Node ''fs'' (Some busy_node) []], vf_used = replicate 32 False,
     vf_files = replicate 32 \<lparr> fl_flags = O_RDWR OR O_CREAT OR O_EXCL, fl_node = Tree_node [''fs''] \<rparr>, vf_errno = EEXIST, vf_world = () \<rparr>"

definition long_dir :: string where "long_dir = ''/fs/directory_of_the_logs''"

lemma busy_open:
  assumes "fst (node_find (vf_root busy_vfs) (Some path) NODE_MODE_NEAREST_PATH) = Some [''fs'']"
  shows "vfs_open (Some path) (O_RDWR OR O_CREAT OR O_EXCL) busy_vfs = Some (- 1, busy_vfs)"
proof -
  have wf: "vfs_wf busy_vfs"
    by (simp add: vfs_wf_def busy_vfs_def MAX_FILES_def ops_of_def node_find_sibling_def)
  have ops: "ops_of busy_vfs (Tree_node [''fs'']) = Some busy_node"
    by (simp add: ops_of_def busy_vfs_def node_find_sibling_def)
  have op: "fo_open busy_node = Some (\<lambda>path fd fl w e. (- 1, fl, w, EEXIST))"
    by (simp add: busy_node_def)
  have fd: "fd_new busy_vfs = int 0" "0 < length (vf_used busy_vfs)" "\<not> vf_used busy_vfs ! 0"
    by (simp_all add: fd_new_def busy_vfs_def eval_nat_numeral)
  show ?thesis
    using vfs_open_run [OF wf assms ops op fd, of "O_RDWR OR O_CREAT OR O_EXCL"] by (simp add: busy_vfs_def eval_nat_numeral)
qed

theorem log_init_never_returns_witness:
  "log_init True True ''flight'' (Some long_dir) LOG_TO_FILE 512 (log_zero, busy_vfs) = None"
proof -
  have len: "length long_dir = 25"
    by (simp add: long_dir_def)
  have node: "fst (node_find (vf_root busy_vfs) (Some (take (LOG_NAME_LEN - 1) (long_dir @ ''/'' @ ''flight'' @ ''_''))) NODE_MODE_NEAREST_PATH) = Some [''fs'']"
      "fst (node_find (vf_root busy_vfs) (Some long_dir) NODE_MODE_NEAREST_PATH) = Some [''fs'']"
    unfolding busy_vfs_def vfs.simps by code_simp+
  have "vfs_mkdir (Some long_dir) 0 busy_vfs = Some (- 1, busy_vfs)"
    using node(2) by (simp add: vfs_mkdir_def busy_vfs_def ops_of_def node_find_sibling_def busy_node_def relative_pathname_def long_dir_def node_ref_name_def)
  moreover have "vf_errno busy_vfs = EEXIST"
    by (simp add: busy_vfs_def)
  ultimately show ?thesis
    using log_init_never_returns [of long_dir "''flight''" log_zero busy_vfs busy_vfs busy_vfs 512] busy_open [OF node(1)] len
    by (simp add: LOG_NAME_LEN_def log_zero_def)
qed

end
