(* ===== verification/Board.thy ===== *)
theory Board
  imports FatFsAdapter SerialPorts
begin

text \<open>
  The table of the flight board, on which the FAT volume (os/fatfs/fsa/fatfs.c) and the serial ports
  (bsp/mcu/periph/usart/stm32/usart.c) are mounted side by side, as bsp/boards/cube/startup/init.c does. A driver that works on a part of the world is
  lifted to the whole; the contract of the file layer's drivers is that of the parts.
\<close>

section \<open>A driver on a part of the world\<close>

definition lift_op :: "('w \<Rightarrow> 'a) \<Rightarrow> ('a \<Rightarrow> 'w \<Rightarrow> 'w) \<Rightarrow> 'a file_op \<Rightarrow> 'w file_op" where
  "lift_op get put op i fl w e = (case op i fl (get w) e of (rv, fl, a, e) \<Rightarrow> (rv, fl, put a w, e))"

definition lift_read ::
    "('w \<Rightarrow> 'a) \<Rightarrow> ('a \<Rightarrow> 'w \<Rightarrow> 'w) \<Rightarrow> (nat \<Rightarrow> nat \<Rightarrow> u32 \<Rightarrow> 'a \<Rightarrow> errno \<Rightarrow> int \<times> u8 list \<times> u32 \<times> 'a \<times> errno) \<Rightarrow>
     nat \<Rightarrow> nat \<Rightarrow> u32 \<Rightarrow> 'w \<Rightarrow> errno \<Rightarrow> int \<times> u8 list \<times> u32 \<times> 'w \<times> errno" where
  "lift_read get put op n i fl w e = (case op n i fl (get w) e of (rv, bytes, fl, a, e) \<Rightarrow> (rv, bytes, fl, put a w, e))"

definition lift_path :: "('w \<Rightarrow> 'a) \<Rightarrow> ('a \<Rightarrow> 'w \<Rightarrow> 'w) \<Rightarrow> ('a \<Rightarrow> errno \<Rightarrow> 'r \<times> 'a \<times> errno) \<Rightarrow> 'w \<Rightarrow> errno \<Rightarrow> 'r \<times> 'w \<times> errno" where
  "lift_path get put f w e = (case f (get w) e of (r, a, e) \<Rightarrow> (r, put a w, e))"

definition lift_ops :: "('w \<Rightarrow> 'a) \<Rightarrow> ('a \<Rightarrow> 'w \<Rightarrow> 'w) \<Rightarrow> 'a file_operations \<Rightarrow> 'w file_operations" where
  "lift_ops get put f = \<lparr>
     fo_open = map_option (\<lambda>g p. lift_op get put (g p)) (fo_open f),
     fo_write = map_option (\<lambda>g b. lift_op get put (g b)) (fo_write f),
     fo_read = map_option (lift_read get put) (fo_read f),
     fo_close = map_option (lift_op get put) (fo_close f),
     fo_ioctl = map_option (\<lambda>g r a. lift_op get put (g r a)) (fo_ioctl f),
     fo_flush = map_option (lift_op get put) (fo_flush f),
     fo_fsync = map_option (lift_op get put) (fo_fsync f),
     fo_lseek = map_option (\<lambda>g n wh. lift_op get put (g n wh)) (fo_lseek f),
     fo_mkdir = map_option (\<lambda>g p m. lift_path get put (g p m)) (fo_mkdir f),
     fo_rmdir = map_option (\<lambda>g p. lift_path get put (g p)) (fo_rmdir f) \<rparr>"

lemma lift_ops_sel [simp]:
  "fo_open (lift_ops get put f) = map_option (\<lambda>g p. lift_op get put (g p)) (fo_open f)"
  "fo_write (lift_ops get put f) = map_option (\<lambda>g b. lift_op get put (g b)) (fo_write f)"
  "fo_read (lift_ops get put f) = map_option (lift_read get put) (fo_read f)"
  "fo_close (lift_ops get put f) = map_option (lift_op get put) (fo_close f)"
  "fo_ioctl (lift_ops get put f) = map_option (\<lambda>g r a. lift_op get put (g r a)) (fo_ioctl f)"
  "fo_fsync (lift_ops get put f) = map_option (lift_op get put) (fo_fsync f)"
  "fo_lseek (lift_ops get put f) = map_option (\<lambda>g n wh. lift_op get put (g n wh)) (fo_lseek f)"
  by (simp_all add: lift_ops_def)

lemma lift_op_result:
  assumes "lift_op get put op i fl w e = (rv, fl', w', e')"
  obtains a where "op i fl (get w) e = (rv, fl', a, e')" and "w' = put a w"
  using assms by (auto simp: lift_op_def split: prod.splits)

text \<open>The operations of the lifted driver are the lifted operations.\<close>

lemma driver_op_lift:
  assumes "driver_op (lift_ops get put f) op"
  obtains op' where "driver_op f op'" and "op = lift_op get put op'"
  using assms
proof cases
  case (2 g n)
  then obtain h where "fo_read f = Some h" "g = lift_read get put h"
    by auto
  moreover from this have "op = lift_op get put (\<lambda>i fl w e. case h n i fl w e of (rv, bytes, fl, w, e) \<Rightarrow> (rv, fl, w, e))"
    using 2 by (auto simp: fun_eq_iff lift_op_def lift_read_def split: prod.splits)
  ultimately show ?thesis
    using driver_op.intros(2) [of f h n] that by blast
qed (use that driver_op.intros in \<open>fastforce+\<close>)

section \<open>The world of the board\<close>

record ('h, 'd) board_world =
  bw_fat :: "('h, 'd) fat_world"
  bw_serial :: serial_world

definition volume_node :: "('h, 'p, 'd) fatfs_api \<Rightarrow> ('h, 'd) board_world file_operations" where
  "volume_node api = lift_ops bw_fat (\<lambda>a w. w \<lparr> bw_fat := a \<rparr>) (fatfs_ops api)"

definition port_node :: "nat \<Rightarrow> ('h, 'd) board_world file_operations" where
  "port_node k = lift_ops bw_serial (\<lambda>a w. w \<lparr> bw_serial := a \<rparr>) (usart_ops k)"

definition board_driver :: "('h, 'p, 'd) fatfs_api \<Rightarrow> ('h, 'd) board_world file_operations \<Rightarrow> bool" where
  "board_driver api f \<longleftrightarrow> f = zero_ops \<or> f = null_node \<or> f = volume_node api \<or> (\<exists>k. f = port_node k)"

definition board_inv :: "('h, 'd) board_world \<Rightarrow> bool" where
  "board_inv w \<longleftrightarrow> fat_inv (bw_fat w) \<and> serial_inv (bw_serial w)"

definition board_ready :: "('h, 'p, 'd) fatfs_api \<Rightarrow> ('h, 'd) board_world file_operations \<Rightarrow> nat \<Rightarrow> ('h, 'd) board_world \<Rightarrow> bool" where
  "board_ready api f i w \<longleftrightarrow> (f = volume_node api \<longrightarrow> fat_ready api (fatfs_ops api) i (bw_fat w))"

lemma node_lseeks [simp]: "fo_lseek (volume_node api) \<noteq> None" "fo_lseek (port_node k) = None"
  by (simp_all add: volume_node_def port_node_def)

lemma nodes_differ [simp]: "port_node k \<noteq> volume_node api" "null_node \<noteq> volume_node api"
  by (metis node_lseeks, metis node_lseeks(1) null_ops_sel(6))

lemma port_op_inv:
  assumes "driver_op (usart_ops k) op" and "serial_inv w" and "op i fl w e = (rv, fl', w', e')"
  shows "serial_inv w'"
  using assms(1)
  by cases (use port_ops_inv [OF assms(2)] assms(3) in \<open>auto split: prod.splits\<close>)

lemma null_open_world: "null_open path i fl w e = (rv, fl', w', e') \<Longrightarrow> w' = w"
  by (simp add: null_open_def)

lemma board_open_law:
  assumes "board_driver api f" and "fo_open f = Some g" and "i < MAX_FILES" and "board_inv w" and "g path i fl w e = (rv, fl', w', e')"
  shows "board_inv w' \<and> (rv = 0 \<longrightarrow> board_ready api f i w') \<and> (\<forall>h j. j \<noteq> i \<longrightarrow> board_ready api h j w \<longrightarrow> board_ready api h j w')"
proof -
  consider "f = volume_node api" | k where "f = port_node k" | "f = null_node"
    using assms(1,2) by (auto simp: board_driver_def zero_ops_def)
  then show ?thesis
  proof cases
    case 1
    then have "lift_op bw_fat (\<lambda>a w. w \<lparr> bw_fat := a \<rparr>) (fatfs_open api path) i fl w e = (rv, fl', w', e')"
      using assms(2,5) by (auto simp: volume_node_def)
    then obtain a where a: "fatfs_open api path i fl (bw_fat w) e = (rv, fl', a, e')" "w' = w \<lparr> bw_fat := a \<rparr>"
      by (rule lift_op_result)
    have "fat_driver api (fatfs_ops api)" "fo_open (fatfs_ops api) = Some (fatfs_open api)" "fat_inv (bw_fat w)"
      using assms(4) by (simp_all add: fat_driver_def board_inv_def)
    from fat_open_law [OF this(1,2) assms(3) this(3) a(1)] show ?thesis
      using assms(4) a(2) by (auto simp: board_inv_def board_ready_def)
  next
    case 2
    then have "lift_op bw_serial (\<lambda>a w. w \<lparr> bw_serial := a \<rparr>) (port_open_op k path) i fl w e = (rv, fl', w', e')"
      using assms(2,5) by (auto simp: port_node_def)
    then obtain a where a: "port_open_op k path i fl (bw_serial w) e = (rv, fl', a, e')" "w' = w \<lparr> bw_serial := a \<rparr>"
      by (rule lift_op_result)
    then show ?thesis
      using assms(4) 2 port_ops_inv(1) [OF _ a(1)] by (auto simp: board_inv_def board_ready_def)
  next
    case 3
    then show ?thesis
      using assms(2,4,5) null_open_world [of path i fl w e] by (auto simp: board_ready_def)
  qed
qed

lemma board_op_law:
  assumes "board_driver api f" and "driver_op f op" and "board_inv w" and "board_ready api f i w" and "op i fl w e = (rv, fl', w', e')"
  shows "board_inv w' \<and> (\<forall>h j. board_ready api h j w \<longrightarrow> board_ready api h j w')"
proof -
  consider "f = volume_node api" | k where "f = port_node k" | "f = null_node"
    using assms(1,2) no_zero_ops zero_op_none by (auto simp: board_driver_def)
  then show ?thesis
  proof cases
    case 1
    then obtain op' where op': "driver_op (fatfs_ops api) op'" "op = lift_op bw_fat (\<lambda>a w. w \<lparr> bw_fat := a \<rparr>) op'"
      using assms(2) unfolding volume_node_def by (auto elim: driver_op_lift)
    obtain a where a: "op' i fl (bw_fat w) e = (rv, fl', a, e')" "w' = w \<lparr> bw_fat := a \<rparr>"
      using assms(5) unfolding op'(2) by (rule lift_op_result)
    have "fat_driver api (fatfs_ops api)" "fat_inv (bw_fat w)" "fat_ready api (fatfs_ops api) i (bw_fat w)"
      using assms(3,4) 1 by (simp_all add: fat_driver_def board_inv_def board_ready_def)
    from fat_op_law [OF this(1) op'(1) this(2,3) a(1)] show ?thesis
      using assms(3) a(2) by (auto simp: board_inv_def board_ready_def)
  next
    case 2
    then obtain op' where op': "driver_op (usart_ops k) op'" "op = lift_op bw_serial (\<lambda>a w. w \<lparr> bw_serial := a \<rparr>) op'"
      using assms(2) unfolding port_node_def by (auto elim: driver_op_lift)
    obtain a where a: "op' i fl (bw_serial w) e = (rv, fl', a, e')" "w' = w \<lparr> bw_serial := a \<rparr>"
      using assms(5) unfolding op'(2) by (rule lift_op_result)
    have "serial_inv a"
      using port_op_inv [OF op'(1) _ a(1)] assms(3) by (simp add: board_inv_def)
    then show ?thesis
      using assms(3) a(2) by (auto simp: board_inv_def board_ready_def)
  next
    case 3
    then show ?thesis
      using assms(2,3,5) null_op_world [of op] by blast
  qed
qed

interpretation board: file_drivers "board_driver api" board_inv "board_ready api" for api
proof unfold_locales
  show "board_driver api zero_ops" and "board_driver api null_node"
    by (simp_all add: board_driver_def)
  show "board_ready api null_node i w" for i and w
    by (simp add: board_ready_def)
  show "board_inv w' \<and> (rv = 0 \<longrightarrow> board_ready api f i w') \<and>
      (\<forall>h j. board_driver api h \<longrightarrow> j \<noteq> i \<longrightarrow> board_ready api h j w \<longrightarrow> board_ready api h j w')"
    if "board_driver api f" "fo_open f = Some g" "i < MAX_FILES" "board_inv w" "g path i fl w e = (rv, fl', w', e')"
    for f g i w path fl e rv fl' w' e'
    using board_open_law [OF that] by simp
  show "board_inv w' \<and> (\<forall>h j. board_driver api h \<longrightarrow> board_ready api h j w \<longrightarrow> board_ready api h j w')"
    if "board_driver api f" "driver_op f op" "i < MAX_FILES" "board_inv w" "board_ready api f i w" "op i fl w e = (rv, fl', w', e')"
    for f op i w fl e rv fl' w' e'
    using board_op_law [OF that(1,2,4-6)] by simp
qed

section \<open>Properties\<close>

text \<open>C32: On the table of the board, with the volume and any number of serial ports mounted side by side, no sequence of descriptor calls, in any order and with any
  arguments, whatever the library and the tasks of the ports answer, indexes the table of descriptors or of file objects outside its bounds, hands the library a dangling file
  object or one that another descriptor has, reads or writes outside a ring buffer of a port, or leaves a port with an unsound buffer. A write without room or a
  read without data and without a timeout may wait for ever; it does so with sound buffers.\<close>

theorem board_calls_safe:
  fixes api :: "('h, 'p, 'd) fatfs_api"
  assumes "vfs_wf s" and "\<forall>r f. ops_of s r = Some f \<longrightarrow> board_driver api f" and "\<forall>i < MAX_FILES. \<not> vf_used s ! i"
    and "fat_inv (bw_fat (vf_world s))" and "serial_inv (bw_serial (vf_world s))"
  shows "\<exists>s'. fd_calls cs s = Some s' \<and> vfs_wf s' \<and> fat_inv (bw_fat (vf_world s')) \<and>
     \<not> pw_overrun (bw_serial (vf_world s')) \<and> (\<forall>k. port_inv (pw_ports (bw_serial (vf_world s')) k))"
proof -
  have "board.driven TYPE('p) api s"
    using assms by (simp add: board.driven_def board_inv_def)
  then show ?thesis
    using board.fd_calls_driven [of api s cs] by (auto simp: board.driven_def board_inv_def serial_inv_def)
qed

end
