(* ===== verification/FileTransfer.thy ===== *)
theory FileTransfer
  imports Board FileCopy Cli
begin

text \<open>
  The commands that move files: os/freertos/services/file/file.c, which copies between a file and a serial port, and
  os/freertos/services/cat/cat.c, which copies a file to the standard output, on the table of the board. Printed texts are left out. None is
  undefined behaviour or a command that does not end.
\<close>

section \<open>The command file\<close>

definition CLI_MAX_CMD_LENGTH :: nat where "CLI_MAX_CMD_LENGTH = 256"
definition FILE_UPLOAD_TIMEOUT_MS :: int where "FILE_UPLOAD_TIMEOUT_MS = 2000"
definition portMAX_DELAY :: int where "portMAX_DELAY = 0xFFFFFFFF"

text \<open>The two transfers on open descriptors, with the static buffer.\<close>

definition file_download :: "int \<Rightarrow> int \<Rightarrow> u8 list \<times> 'w vfs \<Rightarrow> (u8 list \<times> 'w vfs) option" where
  "file_download fd_file fd_tty bs = (case bs of (buf, s) \<Rightarrow> do {
     (rv, s) \<leftarrow> vfs_lseek fd_file 0 0 s;
     (buf, s) \<leftarrow> copy_loop fd_file fd_tty (buf, s);
     (rv, s) \<leftarrow> vfs_lseek fd_file 0 2 s;
     Some (buf, s)
   })"

definition file_upload :: "int \<Rightarrow> int \<Rightarrow> u8 list \<times> 'w vfs \<Rightarrow> (u8 list \<times> 'w vfs) option" where
  "file_upload fd_file fd_tty bs = (case bs of (buf, s) \<Rightarrow> do {
     (rv, s) \<leftarrow> vfs_ioctl fd_tty 0 [portMAX_DELAY] s;
     (buf, s) \<leftarrow> upload_loop fd_tty fd_file FILE_UPLOAD_TIMEOUT_MS (buf, s);
     (rv, s) \<leftarrow> vfs_ioctl fd_tty 0 [portMAX_DELAY] s;
     Some (buf, s)
   })"

definition file_operation :: "string \<Rightarrow> string \<Rightarrow> string \<Rightarrow> u8 list \<times> 'w vfs \<Rightarrow> (u8 list \<times> 'w vfs) option" where
  "file_operation operation path port bs = (case bs of (buf, s) \<Rightarrow>
     let upload = (take CLI_MAX_CMD_LENGTH operation = ''upload''); download = (take CLI_MAX_CMD_LENGTH operation = ''download'') in
     if \<not> upload \<and> \<not> download then Some (buf, s)
     else do {
       (fd_file, s) \<leftarrow> vfs_open (Some path) (if upload then O_CREAT OR O_TRUNC OR O_WRONLY else O_RDONLY) s;
       if fd_file < 0 then Some (buf, s)
       else do {
         (fd_tty, s) \<leftarrow> vfs_open (Some port) O_RDWR s;
         if fd_tty < 0 then do {
           (rv, s) \<leftarrow> vfs_close fd_file s;
           Some (buf, s)
         }
         else do {
           (buf, s) \<leftarrow> (if download then file_download fd_file fd_tty (buf, s) else file_upload fd_file fd_tty (buf, s));
           (rv, s) \<leftarrow> vfs_close fd_file s;
           (rv, s) \<leftarrow> vfs_close fd_tty s;
           Some (buf, s)
         }
       }
     })"

definition file_commander :: "string list \<Rightarrow> u8 list \<times> 'w vfs \<Rightarrow> (u8 list \<times> 'w vfs) option" where
  "file_commander argv bs =
     (if length argv \<noteq> 4 then Some bs else file_operation (argv ! 1) (argv ! 2) (argv ! 3) bs)"

section \<open>The command cat\<close>

text \<open>The size of the static buffer.\<close>

definition CLI_CAT_MAX_LENGTH :: nat where "CLI_CAT_MAX_LENGTH = 1024"
definition CAT_BUF :: nat where "CAT_BUF = CLI_CAT_MAX_LENGTH + 1"



text \<open>The calls on the current directory work on the volume.\<close>

definition vfs_chdir :: "('h, 'p, 'd) fatfs_api \<Rightarrow> string \<Rightarrow> ('h, 'd) board_world vfs \<Rightarrow> int \<times> ('h, 'd) board_world vfs" where
  "vfs_chdir api path s =
     (case on_disk (fatfs_chdir api path) (bw_fat (vf_world s)) (vf_errno s) of (rv, w, e) \<Rightarrow>
        (rv, s \<lparr> vf_world := (vf_world s) \<lparr> bw_fat := w \<rparr>, vf_errno := e \<rparr>))"

definition vfs_getcwd :: "('h, 'p, 'd) fatfs_api \<Rightarrow> nat \<Rightarrow> ('h, 'd) board_world vfs \<Rightarrow> string option \<times> ('h, 'd) board_world vfs" where
  "vfs_getcwd api n s =
     (case on_disk (fatfs_getcwd api (int n)) (bw_fat (vf_world s)) (vf_errno s) of (r, w, e) \<Rightarrow>
        (r, s \<lparr> vf_world := (vf_world s) \<lparr> bw_fat := w \<rparr>, vf_errno := e \<rparr>))"

text \<open>When the current directory cannot be read, the array that should hold it is used all the same.\<close>

definition cat_print_file_content ::
    "('h, 'p, 'd) fatfs_api \<Rightarrow> string \<Rightarrow> u8 list \<times> ('h, 'd) board_world vfs \<Rightarrow> (u8 list \<times> ('h, 'd) board_world vfs) option" where
  "cat_print_file_content api path bs = (case bs of (buf, s) \<Rightarrow>
     (case vfs_getcwd api (4 * MAX_NAME_LEN) s of
        (None, s) \<Rightarrow> None
      | (Some cur_path, s) \<Rightarrow>
        (let path_ext = take (4 * MAX_NAME_LEN - 1) (''/fs'' @ cur_path @ ''/'' @ path); s = snd (vfs_chdir api ''/'' s) in do {
          (fd, s) \<leftarrow> vfs_open (Some path_ext) O_RDONLY s;
          let s = snd (vfs_chdir api cur_path s);
          if fd < 0 then Some (buf, s)
          else do {
            (rv, s) \<leftarrow> vfs_lseek fd 0 0 s;
            (buf, s) \<leftarrow> copy_loop fd 1 (buf, s);
            (rv, s) \<leftarrow> vfs_lseek fd 0 2 s;
            (rv, s) \<leftarrow> vfs_close fd s;
            Some (buf, s)
          }
        })))"

definition cat_commander ::
    "('h, 'p, 'd) fatfs_api \<Rightarrow> string list \<Rightarrow> u8 list \<times> ('h, 'd) board_world vfs \<Rightarrow> (u8 list \<times> ('h, 'd) board_world vfs) option" where
  "cat_commander api argv bs = (if length argv \<noteq> 2 then Some bs else cat_print_file_content api (argv ! 1) bs)"

section \<open>An open file of the library\<close>

text \<open>What an open file object on a healthy volume stands for: its contents and position, and the contents that the file has on the
  disk. \<open>fv_room\<close>: the size the contents may grow to.\<close>

record ('h, 'd) fil_view =
  fv_good :: "'h \<Rightarrow> 'd \<Rightarrow> bool"
  fv_data :: "'h \<Rightarrow> 'd \<Rightarrow> u8 list"
  fv_pos :: "'h \<Rightarrow> 'd \<Rightarrow> nat"
  fv_stored :: "'h \<Rightarrow> 'd \<Rightarrow> u8 list"
  fv_room :: nat

definition fil_is :: "('h, 'd) fil_view \<Rightarrow> u8 list \<Rightarrow> nat \<Rightarrow> 'h \<Rightarrow> 'd \<Rightarrow> bool" where
  "fil_is V data pos h d \<longleftrightarrow> fv_good V h d \<and> fv_data V h d = data \<and> fv_pos V h d = pos"

text \<open>The documented behaviour of the library on it. A write may stay in the memory of the object; \<open>f_sync\<close> brings the contents to the
  disk, where a move of the position leaves them, and \<open>f_close\<close> succeeds.\<close>

definition volume_ok :: "('h, 'p, 'd) fatfs_api \<Rightarrow> ('h, 'd) fil_view \<Rightarrow> bool" where
  "volume_ok api V \<longleftrightarrow> fv_room V < 2 ^ 31 \<and> (\<forall>h d data pos. fil_is V data pos h d \<longrightarrow>
     length data \<le> fv_room V \<and> pos \<le> length data \<and> unat (f_size api h) = length data \<and>
     (\<forall>n. \<exists>h' d'. f_read api h n d = (FR_OK, word_of_nat (length (take (unat n) (drop pos data))), take (unat n) (drop pos data), h', d') \<and>
        fil_is V data (pos + length (take (unat n) (drop pos data))) h' d') \<and>
     (\<forall>n. unat n \<le> length data \<longrightarrow> (\<exists>h' d'. f_lseek api h n d = (FR_OK, h', d') \<and> fil_is V data (unat n) h' d' \<and>
        (fv_stored V h d = data \<longrightarrow> fv_stored V h' d' = data))) \<and>
     (\<forall>b. pos = length data \<longrightarrow> length data + length b \<le> fv_room V \<longrightarrow>
        (\<exists>h' d'. f_write api h b d = (FR_OK, word_of_nat (length b), h', d') \<and> fil_is V (data @ b) (length data + length b) h' d')) \<and>
     (\<exists>h' d'. f_sync api h d = (FR_OK, h', d') \<and> fil_is V data pos h' d' \<and> fv_stored V h' d' = data) \<and>
     fst (f_close api h d) = FR_OK)"

lemma volume_ok_size:
  "volume_ok api V \<Longrightarrow> fil_is V data pos h d \<Longrightarrow> length data \<le> fv_room V \<and> pos \<le> length data \<and> unat (f_size api h) = length data"
  unfolding volume_ok_def by blast

lemma volume_ok_read:
  "volume_ok api V \<Longrightarrow> fil_is V data pos h d \<Longrightarrow> unat n = k \<Longrightarrow>
   \<exists>h' d'. f_read api h n d = (FR_OK, word_of_nat (length (take k (drop pos data))), take k (drop pos data), h', d') \<and>
     fil_is V data (pos + length (take k (drop pos data))) h' d'"
  unfolding volume_ok_def by blast

lemma volume_ok_seek:
  "volume_ok api V \<Longrightarrow> fil_is V data pos h d \<Longrightarrow> unat n \<le> length data \<Longrightarrow>
   \<exists>h' d'. f_lseek api h n d = (FR_OK, h', d') \<and> fil_is V data (unat n) h' d' \<and> (fv_stored V h d = data \<longrightarrow> fv_stored V h' d' = data)"
  unfolding volume_ok_def by blast

lemma volume_ok_close: "volume_ok api V \<Longrightarrow> fil_is V data pos h d \<Longrightarrow> fst (f_close api h d) = FR_OK"
  unfolding volume_ok_def by blast

section \<open>Descriptors on the board\<close>

text \<open>Two states with the same open descriptors.\<close>

definition same_table :: "'w vfs \<Rightarrow> 'w vfs \<Rightarrow> bool" where
  "same_table s s' \<longleftrightarrow> vf_used s' = vf_used s \<and> length (vf_files s') = length (vf_files s) \<and> (\<forall>i. ops_of s' (fl_node (vf_files s' ! i)) = ops_of s (fl_node (vf_files s ! i)))"

lemma same_table_trans: "same_table s s' \<Longrightarrow> same_table s' s'' \<Longrightarrow> same_table s s''"
  by (simp add: same_table_def)

lemma same_table_after: "after_op i (rv, fl, w, e) s = (rv', s') \<Longrightarrow> same_table (s \<lparr> vf_errno := x \<rparr>) s' \<and> vf_world s' = w \<and> rv' = rv"
  by (auto simp: after_op_def same_table_def nth_update_if)

lemma same_table_errno: "same_table (s \<lparr> vf_errno := x \<rparr>) s' = same_table s s'"
  by (simp add: same_table_def)

lemma same_table_flags: "same_table s (set_file_flags i g s)"
  by (simp add: set_file_flags_def same_table_def nth_update_if)

definition on_node :: "nat \<Rightarrow> 'w file_operations \<Rightarrow> 'w vfs \<Rightarrow> bool" where
  "on_node i f s \<longleftrightarrow> fd_used i s \<and> ops_of s (fl_node (vf_files s ! i)) = Some f"

lemma on_node_same: "same_table s s' \<Longrightarrow> on_node i f s \<Longrightarrow> on_node i f s'"
  by (simp add: on_node_def fd_used_def same_table_def)

text \<open>A call on an open descriptor is the call of the driver; it changes the world and no other descriptor.\<close>

lemma call_write:
  assumes "on_node i f s" and "fo_write f = Some g" and "g buf i (flags_of s i) (vf_world s) EOK = (rv, fl, w, e)"
  shows "\<exists>s'. vfs_write (int i) buf s = Some (rv, s') \<and> same_table s s' \<and> vf_world s' = w"
proof -
  obtain rv' s' where s': "after_op i (rv, fl, w, e) (s \<lparr> vf_errno := EOK \<rparr>) = (rv', s')"
    by fastforce
  then show ?thesis
    using assms same_table_after [OF s', of EOK] by (auto simp: vfs_write_def on_node_def on_fd_run flags_of_def same_table_errno)
qed

lemma call_read:
  assumes "on_node i f s" and "fo_read f = Some g" and "g n i (flags_of s i) (vf_world s) EOK = (rv, out, fl, w, e)"
  shows "\<exists>s'. vfs_read (int i) n s = Some ((rv, out), s') \<and> same_table s s' \<and> vf_world s' = w"
proof -
  obtain rv' s' where s': "after_op i (rv, fl, w, e) (s \<lparr> vf_errno := EOK \<rparr>) = (rv', s')"
    by fastforce
  then show ?thesis
    using assms same_table_after [OF s', of EOK] by (auto simp: vfs_read_def on_node_def on_fd_run flags_of_def same_table_errno)
qed

lemma call_ioctl:
  assumes "on_node i f s" and "fo_ioctl f = Some g" and "g req args i (flags_of s i) (vf_world s) EOK = (rv, fl, w, e)"
  shows "\<exists>s'. vfs_ioctl (int i) req args s = Some (rv, s') \<and> same_table s s' \<and> vf_world s' = w"
proof -
  obtain rv' s' where s': "after_op i (rv, fl, w, e) (s \<lparr> vf_errno := EOK \<rparr>) = (rv', s')"
    by fastforce
  then show ?thesis
    using assms same_table_after [OF s', of EOK] by (auto simp: vfs_ioctl_def on_node_def on_fd_run flags_of_def same_table_errno)
qed

lemma call_lseek:
  assumes "on_node i f s" and "fo_lseek f = Some g" and "g off wh i (flags_of s i) (vf_world s) EOK = (0, fl, w, e)"
  shows "\<exists>s'. vfs_lseek (int i) off wh s = Some (0, s') \<and> same_table s s' \<and> vf_world s' = w"
proof -
  obtain rv' s' where s': "after_op i (0, fl, w, e) (s \<lparr> vf_errno := EOK \<rparr>) = (rv', s')"
    by fastforce
  then show ?thesis
    using assms same_table_after [OF s', of EOK] by (auto simp: vfs_lseek_def on_node_def on_fd_run flags_of_def same_table_errno)
qed

lemma call_fsync:
  assumes "on_node i f s" and "fo_fsync f = Some g" and "g i (flags_of s i) (vf_world s) EOK = (0, fl, w, e)"
  shows "\<exists>s'. vfs_fsync (int i) s = Some (0, s') \<and> same_table s s' \<and> vf_world s' = w"
proof -
  obtain rv' s' where s': "after_op i (0, fl, w, e) (s \<lparr> vf_errno := EOK \<rparr>) = (rv', s')"
    by fastforce
  then show ?thesis
    using assms same_table_after [OF s', of EOK] by (auto simp: vfs_fsync_def on_node_def on_fd_run flags_of_def same_table_errno)
qed

text \<open>The descriptor \<open>i\<close> is open on a file of the volume with these contents and this position.\<close>

definition vol_at :: "('h, 'p, 'd) fatfs_api \<Rightarrow> ('h, 'd) fil_view \<Rightarrow> nat \<Rightarrow> u8 list \<Rightarrow> nat \<Rightarrow> ('h, 'd) board_world vfs \<Rightarrow> bool" where
  "vol_at api V i data pos s \<longleftrightarrow> on_node i (volume_node api) s \<and>
     (\<exists>m. fw_priv (bw_fat (vf_world s)) ! i = Fil m \<and> m < length (fw_files (bw_fat (vf_world s))) \<and>
        fil_is V data pos (fw_files (bw_fat (vf_world s)) ! m) (fw_disk (bw_fat (vf_world s))))"

text \<open>The contents of this file on the disk.\<close>

definition vol_stored :: "('h, 'd) fil_view \<Rightarrow> nat \<Rightarrow> u8 list \<Rightarrow> ('h, 'd) board_world vfs \<Rightarrow> bool" where
  "vol_stored V i data s \<longleftrightarrow> (\<exists>m. fw_priv (bw_fat (vf_world s)) ! i = Fil m \<and>
     fv_stored V (fw_files (bw_fat (vf_world s)) ! m) (fw_disk (bw_fat (vf_world s))) = data)"

lemma vol_stored_cong: "bw_fat (vf_world s') = bw_fat (vf_world s) \<Longrightarrow> vol_stored V i data s' = vol_stored V i data s"
  by (simp add: vol_stored_def)

lemma vol_stored_put:
  assumes "vol_at api V i data pos s" and "fw_priv (bw_fat (vf_world s)) ! i = Fil m"
    and "vf_world s' = (vf_world s) \<lparr> bw_fat := (bw_fat (vf_world s)) \<lparr> fw_files := (fw_files (bw_fat (vf_world s)))[m := h], fw_disk := d \<rparr> \<rparr>"
  shows "vol_stored V i data' s' \<longleftrightarrow> fv_stored V h d = data'"
  using assms by (auto simp: vol_at_def vol_stored_def)

lemma vol_at_cong: "same_table s s' \<Longrightarrow> bw_fat (vf_world s') = bw_fat (vf_world s) \<Longrightarrow> vol_at api V i data pos s \<Longrightarrow> vol_at api V i data pos s'"
  by (auto simp: vol_at_def intro: on_node_same)

lemma vol_at_put:
  assumes "vol_at api V i data pos s" and "fw_priv (bw_fat (vf_world s)) ! i = Fil m" and "same_table s s'" and "fil_is V data' pos' h d"
    and "vf_world s' = (vf_world s) \<lparr> bw_fat := (bw_fat (vf_world s)) \<lparr> fw_files := (fw_files (bw_fat (vf_world s)))[m := h], fw_disk := d \<rparr> \<rparr>"
  shows "vol_at api V i data' pos' s' \<and> bw_serial (vf_world s') = bw_serial (vf_world s)"
  using assms on_node_same by (auto simp: vol_at_def)

lemma volume_sel:
  "fo_write (volume_node api) = Some (\<lambda>b. lift_op bw_fat (\<lambda>a w. w \<lparr> bw_fat := a \<rparr>) (fatfs_write api b))"
  "fo_read (volume_node api) = Some (lift_read bw_fat (\<lambda>a w. w \<lparr> bw_fat := a \<rparr>) (fatfs_read api))"
  "fo_fsync (volume_node api) = Some (lift_op bw_fat (\<lambda>a w. w \<lparr> bw_fat := a \<rparr>) (fatfs_syncfs api))"
  "fo_lseek (volume_node api) = Some (\<lambda>n wh. lift_op bw_fat (\<lambda>a w. w \<lparr> bw_fat := a \<rparr>) (fatfs_lseek api n wh))"
  by (simp_all add: volume_node_def)

lemma volume_read:
  assumes ok: "volume_ok api V" and at: "vol_at api V i data pos s" and n: "n < 2 ^ 31"
  shows "\<exists>s'. vfs_read (int i) n s = Some ((int (length (take n (drop pos data))), take n (drop pos data)), s') \<and>
     vol_at api V i data (pos + length (take n (drop pos data))) s' \<and> same_table s s' \<and> bw_serial (vf_world s') = bw_serial (vf_world s)"
proof -
  let ?w = "bw_fat (vf_world s)"
  obtain m where m: "fw_priv ?w ! i = Fil m" "fil_is V data pos (fw_files ?w ! m) (fw_disk ?w)" "on_node i (volume_node api) s" "m < length (fw_files ?w)"
    using at by (auto simp: vol_at_def)
  define t where "t = take n (drop pos data)"
  have un: "unat (word_of_nat n :: u32) = n"
    using n by (simp add: unat_of_nat)
  obtain h d where h: "f_read api (fw_files ?w ! m) (word_of_nat n) (fw_disk ?w) = (FR_OK, word_of_nat (length t), t, h, d)"
      "fil_is V data (pos + length t) h d"
    using volume_ok_read [OF ok m(2) un] unfolding t_def by blast
  have "length t \<le> n"
    by (simp add: t_def)
  then have "sint (word_of_nat (length t) :: u32) = int (length t)"
    using n by (subst sint_of_small) (simp_all add: unat_of_nat)
  then have "lift_read bw_fat (\<lambda>a w. w \<lparr> bw_fat := a \<rparr>) (fatfs_read api) n i (flags_of s i) (vf_world s) EOK =
      (int (length t), t, flags_of s i, (vf_world s) \<lparr> bw_fat := ?w \<lparr> fw_files := (fw_files ?w)[m := h], fw_disk := d \<rparr> \<rparr>, EOK)"
    using m(1,4) h(1) by (simp add: lift_read_def fatfs_read_def with_fil_def stream_to_fatfs_def mem_simps)
  from call_read [OF m(3) volume_sel(2) this] show ?thesis
    unfolding t_def [symmetric] using vol_at_put [OF at m(1) _ h(2)] by blast
qed

lemma volume_write:
  assumes ok: "volume_ok api V" and at: "vol_at api V i data (length data) s" and room: "length data + length b \<le> fv_room V"
  shows "\<exists>s'. vfs_write (int i) b s = Some (int (length b), s') \<and>
     vol_at api V i (data @ b) (length data + length b) s' \<and> same_table s s' \<and> bw_serial (vf_world s') = bw_serial (vf_world s)"
proof -
  let ?w = "bw_fat (vf_world s)"
  obtain m where m: "fw_priv ?w ! i = Fil m" "fil_is V data (length data) (fw_files ?w ! m) (fw_disk ?w)" "on_node i (volume_node api) s" "m < length (fw_files ?w)"
    using at by (auto simp: vol_at_def)
  obtain h d where h: "f_write api (fw_files ?w ! m) b (fw_disk ?w) = (FR_OK, word_of_nat (length b), h, d)" "fil_is V (data @ b) (length data + length b) h d"
    using ok m(2) room unfolding volume_ok_def by blast
  have "length b < 2 ^ 31"
    using ok room by (simp add: volume_ok_def)
  then have "sint (word_of_nat (length b) :: u32) = int (length b)"
    by (subst sint_of_small) (simp_all add: unat_of_nat)
  then have "lift_op bw_fat (\<lambda>a w. w \<lparr> bw_fat := a \<rparr>) (fatfs_write api b) i (flags_of s i) (vf_world s) EOK =
      (int (length b), flags_of s i, (vf_world s) \<lparr> bw_fat := ?w \<lparr> fw_files := (fw_files ?w)[m := h], fw_disk := d \<rparr> \<rparr>, EOK)"
    using m(1,4) h(1) by (simp add: lift_op_def fatfs_write_def with_fil_def stream_to_fatfs_def mem_simps)
  from call_write [OF m(3) volume_sel(1) this] show ?thesis
    using vol_at_put [OF at m(1) _ h(2)] by blast
qed

lemma volume_fsync:
  assumes ok: "volume_ok api V" and at: "vol_at api V i data pos s"
  shows "\<exists>s'. vfs_fsync (int i) s = Some (0, s') \<and> vol_at api V i data pos s' \<and> same_table s s' \<and> bw_serial (vf_world s') = bw_serial (vf_world s) \<and>
     vol_stored V i data s'"
proof -
  let ?w = "bw_fat (vf_world s)"
  obtain m where m: "fw_priv ?w ! i = Fil m" "fil_is V data pos (fw_files ?w ! m) (fw_disk ?w)" "on_node i (volume_node api) s" "m < length (fw_files ?w)"
    using at by (auto simp: vol_at_def)
  obtain h d where h: "f_sync api (fw_files ?w ! m) (fw_disk ?w) = (FR_OK, h, d)" "fil_is V data pos h d" "fv_stored V h d = data"
    using ok m(2) unfolding volume_ok_def by blast
  have "lift_op bw_fat (\<lambda>a w. w \<lparr> bw_fat := a \<rparr>) (fatfs_syncfs api) i (flags_of s i) (vf_world s) EOK =
      (0, flags_of s i OR SUNGET, (vf_world s) \<lparr> bw_fat := ?w \<lparr> fw_files := (fw_files ?w)[m := h], fw_disk := d \<rparr> \<rparr>, EOK)"
    using m(1,4) h(1) by (simp add: lift_op_def fatfs_syncfs_def with_fil_def stream_to_fatfs_def mem_simps)
  from call_fsync [OF m(3) volume_sel(3) this] show ?thesis
    using vol_at_put [OF at m(1) _ h(2)] vol_stored_put [OF at m(1)] h(3) by blast
qed

text \<open>The two uses of lseek: to the start and to the end.\<close>

lemma volume_lseek:
  assumes ok: "volume_ok api V" and at: "vol_at api V i data pos s" and wh: "wh = 0 \<and> p = 0 \<or> wh = 2 \<and> p = length data"
  shows "\<exists>s'. vfs_lseek (int i) 0 wh s = Some (0, s') \<and> vol_at api V i data p s' \<and> same_table s s' \<and> bw_serial (vf_world s') = bw_serial (vf_world s) \<and>
     (vol_stored V i data s \<longrightarrow> vol_stored V i data s')"
proof -
  let ?w = "bw_fat (vf_world s)"
  obtain m where m: "fw_priv ?w ! i = Fil m" "fil_is V data pos (fw_files ?w ! m) (fw_disk ?w)" "on_node i (volume_node api) s" "m < length (fw_files ?w)"
    using at by (auto simp: vol_at_def)
  define n :: u32 where "n = (if wh = 0 then 0 else f_size api (fw_files ?w ! m))"
  have n: "unat n = p" "unat n \<le> length data"
    using volume_ok_size [OF ok m(2)] wh by (auto simp: n_def)
  obtain h d where h: "f_lseek api (fw_files ?w ! m) n (fw_disk ?w) = (FR_OK, h, d)" "fil_is V data p h d"
      "fv_stored V (fw_files ?w ! m) (fw_disk ?w) = data \<longrightarrow> fv_stored V h d = data"
    using volume_ok_seek [OF ok m(2) n(2)] n(1) by auto
  have stored: "vol_stored V i data s \<longleftrightarrow> fv_stored V (fw_files ?w ! m) (fw_disk ?w) = data"
    using m(1) by (simp add: vol_stored_def)
  have "lift_op bw_fat (\<lambda>a w. w \<lparr> bw_fat := a \<rparr>) (fatfs_lseek api 0 wh) i (flags_of s i) (vf_world s) EOK =
      (0, flags_of s i, (vf_world s) \<lparr> bw_fat := ?w \<lparr> fw_files := (fw_files ?w)[m := h], fw_disk := d \<rparr> \<rparr>, EOK)"
    using m(1,4) h(1) wh by (auto simp: n_def lift_op_def fatfs_lseek_def with_fil_def stream_to_fatfs_def mem_simps FATFS_SEEK_SET_def FATFS_SEEK_CUR_def FATFS_SEEK_END_def)
  from call_lseek [OF m(3) volume_sel(4) this] show ?thesis
    using vol_at_put [OF at m(1) _ h(2)] vol_stored_put [OF at m(1)] h(3) stored by blast
qed

text \<open>Port \<open>k\<close> of the board. What has been sent through it: the bytes that its write task took during the calls, and those still in its buffer.\<close>

abbreviation board_port :: "nat \<Rightarrow> ('h, 'd) board_world vfs \<Rightarrow> usart" where
  "board_port k s \<equiv> pw_ports (bw_serial (vf_world s)) k"

definition port_sent :: "nat \<Rightarrow> ('h, 'd) board_world vfs \<Rightarrow> u8 list" where
  "port_sent k s = pw_sent (bw_serial (vf_world s)) k @ bytes_of (us_write_buf (board_port k s))"

text \<open>A descriptor whose writes go to the port, with a write task that comes often enough for \<open>n\<close> bytes; and one whose reads come from it,
  after the last byte has arrived.\<close>

definition port_sink :: "nat \<Rightarrow> nat \<Rightarrow> nat \<Rightarrow> ('h, 'd) board_world vfs \<Rightarrow> bool" where
  "port_sink k n j s \<longleftrightarrow> (\<exists>f. on_node j f s \<and> fo_write f = fo_write (port_node k :: ('h, 'd) board_world file_operations)) \<and>
     port_inv (board_port k s) \<and> \<not> us_error (board_port k s) \<and>
     (\<forall>d \<in> set (pw_takes (bw_serial (vf_world s)) k). d \<noteq> 0) \<and> n \<le> length (pw_takes (bw_serial (vf_world s)) k)"

definition port_source :: "nat \<Rightarrow> nat \<Rightarrow> ('h, 'd) board_world vfs \<Rightarrow> bool" where
  "port_source k j s \<longleftrightarrow> (\<exists>f. on_node j f s \<and> fo_read f = fo_read (port_node k :: ('h, 'd) board_world file_operations) \<and>
       fo_ioctl f = fo_ioctl (port_node k :: ('h, 'd) board_world file_operations)) \<and>
     port_inv (board_port k s) \<and> \<not> us_error (board_port k s) \<and> pw_comes (bw_serial (vf_world s)) k = []"

lemma port_sel:
  "fo_write (port_node k) = Some (\<lambda>b. lift_op bw_serial (\<lambda>a w. w \<lparr> bw_serial := a \<rparr>) (port_write_op k b))"
  "fo_read (port_node k) = Some (lift_read bw_serial (\<lambda>a w. w \<lparr> bw_serial := a \<rparr>) (port_read_op k))"
  "fo_ioctl (port_node k) = Some (\<lambda>r x. lift_op bw_serial (\<lambda>a w. w \<lparr> bw_serial := a \<rparr>) (port_ioctl_op k r x))"
  by (simp_all add: port_node_def)

lemma port_sink_cong: "same_table s s' \<Longrightarrow> bw_serial (vf_world s') = bw_serial (vf_world s) \<Longrightarrow> port_sink k n j s \<Longrightarrow> port_sink k n j s'"
  by (auto simp: port_sink_def intro: on_node_same)

lemma port_source_cong: "same_table s s' \<Longrightarrow> bw_serial (vf_world s') = bw_serial (vf_world s) \<Longrightarrow> port_source k j s \<Longrightarrow> port_source k j s'"
  by (auto simp: port_source_def intro: on_node_same)

lemma port_write:
  assumes at: "port_sink k n j s" and b: "length b \<le> n" "n < 65536"
  shows "\<exists>s'. vfs_write (int j) b s = Some (int (length b), s') \<and> port_sink k n j s' \<and> same_table s s' \<and>
     bw_fat (vf_world s') = bw_fat (vf_world s) \<and> port_sent k s' = port_sent k s @ b"
proof -
  let ?w = "bw_serial (vf_world s)"
  let ?c = "pw_ports ?w k"
  obtain f where f: "on_node j f s" "fo_write f = fo_write (port_node k :: ('a, 'b) board_world file_operations)"
    using at by (auto simp: port_sink_def)
  have p: "port_inv ?c" "\<not> us_error ?c" "\<forall>d \<in> set (pw_takes ?w k). d \<noteq> 0" "n \<le> length (pw_takes ?w k)"
    using at by (simp_all add: port_sink_def)
  have cnt: "unat (ucast (word_of_nat (length b) :: u32) :: u16) = length b"
    using b by (intro buf_count_small) simp
  obtain out c where c: "usart_write (pw_takes ?w k) b (word_of_nat (length b)) ?c = Some (int (length b), EOK, out, c)" "port_inv c"
      "bytes_of (us_write_buf ?c) @ b = out @ bytes_of (us_write_buf c)" "us_error c = us_error ?c"
  proof -
    obtain out c where u: "usart_write (pw_takes ?w k) b (word_of_nat (length b)) ?c =
        Some (if us_error ?c then (- 1, EPROTO, out, c) else (uint (ucast (word_of_nat (length b) :: u32) :: u16), EOK, out, c))"
        "port_inv c" "bytes_of (us_write_buf ?c) @ take (unat (ucast (word_of_nat (length b) :: u32) :: u16)) b = out @ bytes_of (us_write_buf c)"
      using usart_write_total [OF p(1,3), of "word_of_nat (length b)" b] cnt b(1) p(4) by auto
    moreover have "us_error c = us_error ?c"
      using u(1) p(2) by (auto simp: usart_write_def Let_def split: Option.bind_splits if_splits)
    moreover have "uint (ucast (word_of_nat (length b) :: u32) :: u16) = int (length b)"
      using cnt by (metis uint_nat)
    ultimately show ?thesis
      using that p(2) cnt by simp
  qed
  have "lift_op bw_serial (\<lambda>a w. w \<lparr> bw_serial := a \<rparr>) (port_write_op k b) j (flags_of s j) (vf_world s) EOK =
      (int (length b), flags_of s j, (vf_world s) \<lparr> bw_serial := (put_port k c ?w) \<lparr> pw_sent := (pw_sent ?w)(k := pw_sent ?w k @ out) \<rparr> \<rparr>, EOK)"
    using c(1) by (simp add: lift_op_def port_write_op_def)
  from call_write [OF f(1) f(2) [unfolded port_sel] this] obtain s' where s': "vfs_write (int j) b s = Some (int (length b), s')" "same_table s s'"
      "vf_world s' = (vf_world s) \<lparr> bw_serial := (put_port k c ?w) \<lparr> pw_sent := (pw_sent ?w)(k := pw_sent ?w k @ out) \<rparr> \<rparr>"
    by blast
  moreover have "port_sink k n j s'"
    using f(2) on_node_same [OF s'(2) f(1)] s'(3) c(2,4) p(2-4) by (auto simp: port_sink_def)
  ultimately show ?thesis
    using c(3) by (simp add: port_sent_def)
qed

lemma port_read:
  assumes at: "port_source k j s" and ne: "bytes_of (us_read_buf (board_port k s)) \<noteq> []" and n: "n < 65536"
  shows "\<exists>s'. vfs_read (int j) n s = Some ((int (length (take n (bytes_of (us_read_buf (board_port k s))))), take n (bytes_of (us_read_buf (board_port k s)))), s') \<and>
     port_source k j s' \<and> same_table s s' \<and> bw_fat (vf_world s') = bw_fat (vf_world s) \<and>
     bytes_of (us_read_buf (board_port k s')) = drop n (bytes_of (us_read_buf (board_port k s)))"
proof -
  let ?w = "bw_serial (vf_world s)"
  let ?c = "pw_ports ?w k"
  obtain f where f: "on_node j f s" "fo_read f = fo_read (port_node k :: ('a, 'b) board_world file_operations)"
      "fo_ioctl f = fo_ioctl (port_node k :: ('a, 'b) board_world file_operations)"
    using at by (auto simp: port_source_def)
  have p: "port_inv ?c" "\<not> us_error ?c" "pw_comes ?w k = []"
    using at by (simp_all add: port_source_def)
  define t where "t = take n (bytes_of (us_read_buf ?c))"
  have "min (unat (word_of_nat n :: u32)) 65535 = n"
    using n by (simp add: unat_of_nat)
  then obtain c where c: "usart_read (pw_comes ?w k) (word_of_nat n) ?c = Some (int (length t), EOK, t, c)" "port_inv c"
      "bytes_of (us_read_buf c) = drop n (bytes_of (us_read_buf ?c))" "us_error c = us_error ?c"
    using usart_read_ready [OF p(1) ne, of "pw_comes ?w k" "word_of_nat n"] p(2) unfolding t_def by auto
  have "lift_read bw_serial (\<lambda>a w. w \<lparr> bw_serial := a \<rparr>) (port_read_op k) n j (flags_of s j) (vf_world s) EOK =
      (int (length t), t, flags_of s j, (vf_world s) \<lparr> bw_serial := put_port k c ?w \<rparr>, EOK)"
    using c(1) by (simp add: lift_read_def port_read_op_def)
  from call_read [OF f(1) f(2) [unfolded port_sel] this] obtain s' where s': "vfs_read (int j) n s = Some ((int (length t), t), s')" "same_table s s'"
      "vf_world s' = (vf_world s) \<lparr> bw_serial := put_port k c ?w \<rparr>"
    by blast
  moreover have "port_source k j s'"
    using f(2,3) on_node_same [OF s'(2) f(1)] s'(3) c(2,4) p(2,3) by (auto simp: port_source_def)
  ultimately show ?thesis
    unfolding t_def [symmetric] using c(3) by simp
qed

lemma port_read_times_out:
  assumes at: "port_source k j s" and e: "bytes_of (us_read_buf (board_port k s)) = []" and q: "\<not> endless (word_of_int (us_read_timeout (board_port k s)))"
  shows "\<exists>s'. vfs_read (int j) n s = Some ((- 1, []), s') \<and> port_source k j s' \<and> same_table s s' \<and> vf_world s' = vf_world s"
proof -
  let ?w = "bw_serial (vf_world s)"
  let ?c = "pw_ports ?w k"
  obtain f where f: "on_node j f s" "fo_read f = fo_read (port_node k :: ('a, 'b) board_world file_operations)"
      "fo_ioctl f = fo_ioctl (port_node k :: ('a, 'b) board_world file_operations)"
    using at by (auto simp: port_source_def)
  have p: "port_inv ?c" "\<not> us_error ?c" "pw_comes ?w k = []"
    using at by (simp_all add: port_source_def)
  obtain rb where rb: "us_read_buf ?c = Some rb" "rb_inv rb"
    using p(1) by (rule port_ring_read)
  have sz: "ring_buf_get_data_size rb = 0"
    using rb e data_size_0 [OF rb(2)] by simp
  have "ring_buf_read_timeout [] (Some rb) (word_of_nat n) (word_of_int (us_read_timeout ?c)) = Some (- 1, [], Some rb)"
    using q rb_inv_start [OF rb(2)] sz by (simp add: ring_buf_read_timeout_def)
  then have "usart_read [] (word_of_nat n) ?c = Some (- 1, ETIMEDOUT, [], ?c \<lparr> us_read_buf := Some rb \<rparr>)"
    unfolding usart_read_def rb(1) by simp
  moreover have same: "?c \<lparr> us_read_buf := Some rb \<rparr> = ?c"
    unfolding rb(1) [symmetric] by simp
  ultimately have "usart_read (pw_comes ?w k) (word_of_nat n) ?c = Some (- 1, ETIMEDOUT, [], ?c)"
    unfolding p(3) by simp
  moreover have "put_port k ?c ?w = ?w"
    by (simp add: put_port_def)
  ultimately have "lift_read bw_serial (\<lambda>a w. w \<lparr> bw_serial := a \<rparr>) (port_read_op k) n j (flags_of s j) (vf_world s) EOK =
      (- 1, [], flags_of s j, vf_world s, ETIMEDOUT)"
    by (simp add: lift_read_def port_read_op_def)
  from call_read [OF f(1) f(2) [unfolded port_sel] this] obtain s' where s': "vfs_read (int j) n s = Some ((- 1, []), s')" "same_table s s'"
      "vf_world s' = vf_world s"
    by blast
  then show ?thesis
    using port_source_cong [OF s'(2) _ at] by simp
qed

lemma port_set_timeout:
  assumes at: "port_source k j s"
  shows "\<exists>s'. vfs_ioctl (int j) 0 [t] s = Some (0, s') \<and> port_source k j s' \<and> same_table s s' \<and> bw_fat (vf_world s') = bw_fat (vf_world s) \<and>
     us_read_buf (board_port k s') = us_read_buf (board_port k s) \<and> us_read_timeout (board_port k s') = sint (word_of_int t :: u32)"
proof -
  let ?w = "bw_serial (vf_world s)"
  let ?c = "pw_ports ?w k"
  obtain f where f: "on_node j f s" "fo_read f = fo_read (port_node k :: ('a, 'b) board_world file_operations)"
      "fo_ioctl f = fo_ioctl (port_node k :: ('a, 'b) board_world file_operations)"
    using at by (auto simp: port_source_def)
  define c where "c = ?c \<lparr> us_read_timeout := sint (word_of_int t :: u32) \<rparr>"
  have "lift_op bw_serial (\<lambda>a w. w \<lparr> bw_serial := a \<rparr>) (port_ioctl_op k 0 [t]) j (flags_of s j) (vf_world s) EOK =
      (0, flags_of s j, (vf_world s) \<lparr> bw_serial := put_port k c ?w \<rparr>, EOK)"
    by (simp add: lift_op_def port_ioctl_op_def usart_ioctl_def usart_ioctl_set_read_timeout_def c_def)
  from call_ioctl [OF f(1) f(3) [unfolded port_sel] this] obtain s' where s': "vfs_ioctl (int j) 0 [t] s = Some (0, s')" "same_table s s'"
      "vf_world s' = (vf_world s) \<lparr> bw_serial := put_port k c ?w \<rparr>"
    by blast
  moreover have "port_inv c" "us_error c = us_error ?c" "us_read_buf c = us_read_buf ?c"
    using at by (simp_all add: c_def port_source_def)
  moreover from this have "port_source k j s'"
    using f(2,3) on_node_same [OF s'(2) f(1)] s'(3) at by (auto simp: port_source_def)
  ultimately show ?thesis
    by (simp add: c_def)
qed

section \<open>The pipes\<close>

definition FILE_BUF :: nat where "FILE_BUF = 512"


text \<open>From a file to a port: \<open>base\<close> is what had been sent before.\<close>

definition down_pipe ::
    "('h, 'p, 'd) fatfs_api \<Rightarrow> ('h, 'd) fil_view \<Rightarrow> nat \<Rightarrow> nat \<Rightarrow> nat \<Rightarrow> nat \<Rightarrow> u8 list \<Rightarrow> u8 list \<Rightarrow> u8 list \<Rightarrow> u8 list \<Rightarrow> ('h, 'd) board_world vfs \<Rightarrow> bool" where
  "down_pipe api V i k j n base data l d s \<longleftrightarrow> volume_ok api V \<and> (\<exists>pos. vol_at api V i data pos s \<and> l = drop pos data) \<and>
     port_sink k n j s \<and> port_sent k s = base @ d"

lemma down_pipe_read:
  assumes "down_pipe api V i k j n base data l d s" and "n < 65536"
  shows "\<exists>s'. vfs_read (int i) n s = Some ((int (length (take n l)), take n l), s') \<and> down_pipe api V i k j n base data (drop n l) d s' \<and> same_table s s'"
proof -
  obtain pos where at: "volume_ok api V" "vol_at api V i data pos s" "l = drop pos data"
    using assms(1) by (auto simp: down_pipe_def)
  obtain s' where s': "vfs_read (int i) n s = Some ((int (length (take n l)), take n l), s')" "vol_at api V i data (pos + length (take n l)) s'"
      "same_table s s'" "bw_serial (vf_world s') = bw_serial (vf_world s)"
    using volume_read [OF at(1,2), of n] assms(2) unfolding at(3) by auto
  have "drop n l = drop (pos + length (take n l)) data"
    by (cases "n \<le> length l") (auto simp: at(3) add.commute min_def)
  moreover have "port_sink k n j s'" "port_sent k s' = base @ d"
    using assms(1) port_sink_cong [OF s'(3,4)] s'(4) by (simp_all add: down_pipe_def port_sent_def)
  ultimately show ?thesis
    using at(1) s' by (auto simp: down_pipe_def)
qed

lemma down_pipe_write:
  assumes "down_pipe api V i k j n base data l d s" and "n < 65536" and "length b \<le> n"
  shows "\<exists>s'. vfs_write (int j) b s = Some (int (length b), s') \<and> down_pipe api V i k j n base data l (d @ b) s' \<and> same_table s s'"
proof -
  obtain s' where s': "vfs_write (int j) b s = Some (int (length b), s')" "port_sink k n j s'" "same_table s s'"
      "bw_fat (vf_world s') = bw_fat (vf_world s)" "port_sent k s' = port_sent k s @ b"
    using port_write [of k n j s b] assms by (auto simp: down_pipe_def)
  then show ?thesis
    using assms(1) vol_at_cong [OF s'(3,4)] unfolding down_pipe_def by (metis append.assoc)
qed

lemma down_pipe_ending:
  assumes "0 < n" and "n < 65536"
  shows "ending_pipe (int i) (int j) (\<lambda>l d s. down_pipe api V i k j n base data l d s \<and> same_table s0 s) n"
proof unfold_locales
  show "0 < n"
    by (rule assms)
  fix l d and s :: "('a, 'b) board_world vfs"
  assume at: "down_pipe api V i k j n base data l d s \<and> same_table s0 s"
  obtain s1 where s1: "vfs_read (int i) n s = Some ((int (length (take n l)), take n l), s1)" "down_pipe api V i k j n base data (drop n l) d s1" "same_table s s1"
    using down_pipe_read [OF _ assms(2)] at by blast
  moreover obtain s2 where "vfs_write (int j) (take n l) s1 = Some (int (length (take n l)), s2)"
      "down_pipe api V i k j n base data (drop n l) (d @ take n l) s2" "same_table s1 s2"
    using down_pipe_write [OF s1(2) assms(2), of "take n l"] by auto
  ultimately show "\<exists>s1 rv s2. vfs_read (int i) n s = Some ((int (length (take n l)), take n l), s1) \<and> vfs_write (int j) (take n l) s1 = Some (rv, s2) \<and>
      down_pipe api V i k j n base data (drop n l) (d @ take n l) s2 \<and> same_table s0 s2"
    using at same_table_trans by blast
next
  fix d and s :: "('a, 'b) board_world vfs"
  assume "down_pipe api V i k j n base data [] d s \<and> same_table s0 s"
  then show "\<exists>rv s'. vfs_read (int i) n s = Some ((rv, []), s') \<and> rv \<le> 0 \<and> down_pipe api V i k j n base data [] d s' \<and> same_table s0 s'"
    using down_pipe_read [of api V i k j n base data "[]" d s] assms(2) same_table_trans by fastforce
qed

interpretation download: ending_pipe "int i" "int j" "\<lambda>l d s. down_pipe api V i k j FILE_BUF base data l d s \<and> same_table s0 s" FILE_BUF
  for i j api V k base data s0
  by (rule down_pipe_ending) (simp_all add: FILE_BUF_def)

interpretation cat: ending_pipe "int i" "int j" "\<lambda>l d s. down_pipe api V i k j CAT_BUF base data l d s \<and> same_table s0 s" CAT_BUF
  for i j api V k base data s0
  by (rule down_pipe_ending) (simp_all add: CAT_BUF_def CLI_CAT_MAX_LENGTH_def)

text \<open>From a port to a file that is open at its end.\<close>

definition up_pipe ::
    "('h, 'p, 'd) fatfs_api \<Rightarrow> ('h, 'd) fil_view \<Rightarrow> nat \<Rightarrow> nat \<Rightarrow> nat \<Rightarrow> u8 list \<Rightarrow> u8 list \<Rightarrow> ('h, 'd) board_world vfs \<Rightarrow> bool" where
  "up_pipe api V i k j l d s \<longleftrightarrow> volume_ok api V \<and> vol_at api V i d (length d) s \<and> port_source k j s \<and>
     bytes_of (us_read_buf (board_port k s)) = l \<and> length d + length l \<le> fv_room V"

definition port_quick :: "nat \<Rightarrow> ('h, 'd) board_world vfs \<Rightarrow> bool" where
  "port_quick k s \<longleftrightarrow> \<not> endless (word_of_int (us_read_timeout (board_port k s)))"

lemma port_source_at: "up_pipe api V i k j l d s \<Longrightarrow> port_source k j s"
  by (simp add: up_pipe_def)

lemma up_pipe_volume:
  assumes "up_pipe api V i k j l d s" and "vol_at api V i d (length d) s'" and "same_table s s'" and "bw_serial (vf_world s') = bw_serial (vf_world s)"
  shows "up_pipe api V i k j l d s'"
  using assms port_source_cong [OF assms(3,4)] by (simp add: up_pipe_def)

lemma up_pipe_chunk:
  assumes at: "up_pipe api V i k j l d s" and l: "l \<noteq> []"
  shows "\<exists>s1 rv s2. vfs_read (int j) FILE_BUF s = Some ((int (length (take FILE_BUF l)), take FILE_BUF l), s1) \<and>
      vfs_write (int i) (take FILE_BUF l) s1 = Some (rv, s2) \<and> up_pipe api V i k j (drop FILE_BUF l) (d @ take FILE_BUF l) s2"
proof -
  note p = at [unfolded up_pipe_def]
  define t where "t = take FILE_BUF l"
  obtain s1 where s1: "vfs_read (int j) FILE_BUF s = Some ((int (length t), t), s1)" "port_source k j s1" "same_table s s1"
      "bw_fat (vf_world s1) = bw_fat (vf_world s)" "bytes_of (us_read_buf (board_port k s1)) = drop FILE_BUF l"
    using port_read [of k j s FILE_BUF] p l unfolding t_def by (auto simp: FILE_BUF_def)
  have room: "length d + length t \<le> fv_room V" "length (d @ t) + length (drop FILE_BUF l) \<le> fv_room V"
    using p unfolding t_def by auto
  obtain s2 where s2: "vfs_write (int i) t s1 = Some (int (length t), s2)" "vol_at api V i (d @ t) (length d + length t) s2" "same_table s1 s2"
      "bw_serial (vf_world s2) = bw_serial (vf_world s1)"
    using volume_write [of api V i d s1 t] vol_at_cong [OF s1(3,4)] p room(1) by blast
  have "port_source k j s2"
    by (rule port_source_cong [OF s2(3,4) s1(2)])
  then have "up_pipe api V i k j (drop FILE_BUF l) (d @ t) s2"
    using p room(2) s1(5) s2(2,4) by (simp add: up_pipe_def)
  then show ?thesis
    unfolding t_def [symmetric] using s1(1) s2(1) by blast
qed

interpretation upload: timed_pipe "int j" "int i" "up_pipe api V i k j" FILE_BUF "port_quick k" "vol_stored V i" FILE_UPLOAD_TIMEOUT_MS
  for i j api V k
proof unfold_locales
  show "0 < FILE_BUF"
    by (simp add: FILE_BUF_def)
  fix l d and s :: "('a, 'c) board_world vfs"
  assume at: "up_pipe api V i k j l d s"
  note p = at [unfolded up_pipe_def]
  show "\<exists>s1 rv s2. vfs_read (int j) FILE_BUF s = Some ((int (length (take FILE_BUF l)), take FILE_BUF l), s1) \<and>
      vfs_write (int i) (take FILE_BUF l) s1 = Some (rv, s2) \<and> up_pipe api V i k j (drop FILE_BUF l) (d @ take FILE_BUF l) s2"
    if "l \<noteq> []"
    using up_pipe_chunk [OF at that] by blast
  show "\<exists>rv s'. vfs_fsync (int i) s = Some (rv, s') \<and> up_pipe api V i k j l d s' \<and> vol_stored V i d s'"
    using volume_fsync [of api V i d "length d" s] up_pipe_volume [OF at] p by blast
  show "\<exists>rv s'. vfs_lseek (int i) 0 2 s = Some (rv, s') \<and> up_pipe api V i k j l d s' \<and> vol_stored V i d s'"
    if "vol_stored V i d s"
    using volume_lseek [of api V i d "length d" s 2 "length d"] up_pipe_volume [OF at] p that by blast
  obtain s' where s': "vfs_ioctl (int j) 0 [FILE_UPLOAD_TIMEOUT_MS] s = Some (0, s')" "port_source k j s'" "same_table s s'"
      "bw_fat (vf_world s') = bw_fat (vf_world s)" "us_read_buf (board_port k s') = us_read_buf (board_port k s)"
      "us_read_timeout (board_port k s') = sint (word_of_int FILE_UPLOAD_TIMEOUT_MS :: u32)"
    using port_set_timeout [of k j s FILE_UPLOAD_TIMEOUT_MS] p by blast
  have "vol_at api V i d (length d) s'"
    using vol_at_cong [OF s'(3,4)] p by blast
  moreover have "sint (word_of_int 2000 :: u32) = 2000"
    by simp
  ultimately show "\<exists>rv s'. vfs_ioctl (int j) 0 [FILE_UPLOAD_TIMEOUT_MS] s = Some (rv, s') \<and> up_pipe api V i k j l d s' \<and> vol_stored V i d s' \<and> port_quick k s'"
    if "vol_stored V i d s"
    using s' p that vol_stored_cong [OF s'(4), of V i d] by (auto simp: up_pipe_def port_quick_def endless_def FILE_UPLOAD_TIMEOUT_MS_def)
next
  fix d and s :: "('a, 'c) board_world vfs"
  assume at: "up_pipe api V i k j [] d s" and q: "port_quick k s" and st: "vol_stored V i d s"
  note p = at [unfolded up_pipe_def]
  obtain s' where s': "vfs_read (int j) FILE_BUF s = Some ((- 1, []), s')" "port_source k j s'" "same_table s s'" "vf_world s' = vf_world s"
    using port_read_times_out [of k j s FILE_BUF] p q unfolding port_quick_def by blast
  have "bw_fat (vf_world s') = bw_fat (vf_world s)"
    using s'(4) by simp
  then have "up_pipe api V i k j [] d s'" "vol_stored V i d s'"
    using vol_at_cong [OF s'(3)] p s'(2,4) st by (auto simp: up_pipe_def vol_stored_def)
  then show "\<exists>rv s'. vfs_read (int j) FILE_BUF s = Some ((rv, []), s') \<and> rv \<le> 0 \<and> up_pipe api V i k j [] d s' \<and> vol_stored V i d s'"
    using s'(1) by fastforce
qed

section \<open>Properties\<close>

lemma call_close:
  assumes at: "on_node i f s" and g: "fo_close f = Some g" "g i (flags_of s i) (vf_world s) EOK = (0, fl, w, e)"
  shows "\<exists>s'. vfs_close (int i) s = Some (0, s') \<and> vf_world s' = w \<and> vf_used s' = (vf_used s)[i := False] \<and>
     (\<forall>j h. j \<noteq> i \<longrightarrow> on_node j h s \<longrightarrow> on_node j h s')"
proof -
  obtain rv' s' where s': "after_op i (0, fl, w, e) (s \<lparr> vf_errno := EOK \<rparr>) = (rv', s')"
    by fastforce
  note same = same_table_after [OF s', of EOK]
  have i: "i < MAX_FILES" "i < length (vf_used s')"
    using at same by (auto simp: on_node_def fd_used_def same_table_def)
  then have "fd_delete (int i) s' = Some (0, s' \<lparr> vf_used := (vf_used s')[i := False] \<rparr>)"
    by (simp add: fd_delete_def mem_simps)
  then have "vfs_close (int i) s = Some (0, s' \<lparr> vf_used := (vf_used s')[i := False] \<rparr>)"
    using at g s' same by (simp add: vfs_close_def on_node_def on_fd_run flags_of_def)
  moreover have "on_node j h (s' \<lparr> vf_used := (vf_used s')[i := False] \<rparr>)" if "j \<noteq> i" "on_node j h s" for j h
    using on_node_same [of s s' j h] same that by (auto simp: same_table_errno on_node_def fd_used_def nth_update_if)
  ultimately show ?thesis
    using same by (auto simp: same_table_def)
qed

lemma volume_close:
  assumes ok: "volume_ok api V" and vol: "vol_at api V i data pos s"
  shows "\<exists>s'. vfs_close (int i) s = Some (0, s') \<and> bw_serial (vf_world s') = bw_serial (vf_world s) \<and> vf_used s' = (vf_used s)[i := False] \<and>
     (\<forall>j h. j \<noteq> i \<longrightarrow> on_node j h s \<longrightarrow> on_node j h s')"
proof -
  have at: "on_node i (volume_node api) s"
    using vol by (simp add: vol_at_def)
  obtain fl a e where r: "fatfs_close api i (flags_of s i) (bw_fat (vf_world s)) EOK = (0, fl, a, e)"
  proof -
    let ?w = "bw_fat (vf_world s)"
    obtain m where m: "fw_priv ?w ! i = Fil m" "fil_is V data pos (fw_files ?w ! m) (fw_disk ?w)" "m < length (fw_files ?w)"
      using vol by (auto simp: vol_at_def)
    obtain h d where "f_close api (fw_files ?w ! m) (fw_disk ?w) = (FR_OK, h, d)"
      using volume_ok_close [OF ok m(2)] by (cases "f_close api (fw_files ?w ! m) (fw_disk ?w)") auto
    then show ?thesis
      using that m(1,3) by (simp add: fatfs_close_def with_fil_def stream_to_fatfs_def mem_simps)
  qed
  have sel: "fo_close (volume_node api) = Some (lift_op bw_fat (\<lambda>a w. w \<lparr> bw_fat := a \<rparr>) (fatfs_close api))"
    by (simp add: volume_node_def)
  have "lift_op bw_fat (\<lambda>a w. w \<lparr> bw_fat := a \<rparr>) (fatfs_close api) i (flags_of s i) (vf_world s) EOK = (0, fl, (vf_world s) \<lparr> bw_fat := a \<rparr>, e)"
    using r by (simp add: lift_op_def)
  from call_close [OF at sel this] show ?thesis
    by auto
qed

lemma port_close:
  assumes at: "on_node j (port_node k) s"
  shows "\<exists>s'. vfs_close (int j) s = Some (0, s') \<and> port_sent k s' = port_sent k s \<and> vf_used s' = (vf_used s)[j := False]"
proof -
  obtain e c where c: "usart_close (board_port k s) = (0, e, c)" "us_write_buf c = us_write_buf (board_port k s)"
    by (cases "usart_close (board_port k s)") (auto simp: usart_close_def split: if_splits)
  have sel: "fo_close (port_node k) = Some (lift_op bw_serial (\<lambda>a w. w \<lparr> bw_serial := a \<rparr>) (port_close_op k))"
    by (simp add: port_node_def)
  have "lift_op bw_serial (\<lambda>a w. w \<lparr> bw_serial := a \<rparr>) (port_close_op k) j (flags_of s j) (vf_world s) EOK =
      (0, flags_of s j, (vf_world s) \<lparr> bw_serial := put_port k c (bw_serial (vf_world s)) \<rparr>, e)"
    using c by (simp add: lift_op_def port_close_op_def)
  from call_close [OF at sel this] show ?thesis
    using c(2) by (auto simp: port_sent_def)
qed

text \<open>The transfer of a download, on open descriptors.\<close>

lemma file_download_run:
  assumes "volume_ok api V" and "vol_at api V i data pos s" and "port_sink k FILE_BUF j s" and "length buf = FILE_BUF"
  shows "\<exists>buf' s' p. file_download (int i) (int j) (buf, s) = Some (buf', s') \<and> vol_at api V i data p s' \<and> same_table s s' \<and>
     port_sent k s' = port_sent k s @ data"
proof -
  obtain s1 where s1: "vfs_lseek (int i) 0 0 s = Some (0, s1)" "vol_at api V i data 0 s1" "same_table s s1" "bw_serial (vf_world s1) = bw_serial (vf_world s)"
    using volume_lseek [OF assms(1,2), of 0 0] by auto
  have "down_pipe api V i k j FILE_BUF (port_sent k s) data data [] s1 \<and> same_table s s1"
    using assms(1) s1(2,3,4) port_sink_cong [OF s1(3,4) assms(3)] by (auto simp: down_pipe_def port_sent_def intro!: exI [of _ 0])
  from download.copy_loop_moves [OF this assms(4)]
  obtain buf' s2 where s2: "copy_loop (int i) (int j) (buf, s1) = Some (buf', s2)" "same_table s s2" "port_sent k s2 = port_sent k s @ data"
      "\<exists>p. vol_at api V i data p s2"
    by (auto simp: down_pipe_def)
  obtain p where "vol_at api V i data p s2"
    using s2(4) by blast
  then obtain s3 where s3: "vfs_lseek (int i) 0 2 s2 = Some (0, s3)" "vol_at api V i data (length data) s3" "same_table s2 s3"
      "bw_serial (vf_world s3) = bw_serial (vf_world s2)"
    using volume_lseek [OF assms(1), of i data p s2 2 "length data"] by auto
  have "file_download (int i) (int j) (buf, s) = Some (buf', s3)" "port_sent k s3 = port_sent k s @ data"
    using s1(1) s2(1,3) s3(1,4) by (simp_all add: file_download_def port_sent_def)
  then show ?thesis
    using s3(2) same_table_trans [OF s2(2) s3(3)] by blast
qed

text \<open>C30: The command "file download" on a file of the volume and a serial port, both of which can be opened, sends the contents of the file, whatever their length,
  byte for byte and nothing else, behind what had been sent before, and leaves both descriptors closed. The volume is healthy, the port has no
  error of an earlier transfer, and its write task comes often enough.\<close>

theorem file_download_sends_file:
  assumes vol: "volume_ok api V" and buf: "length buf = FILE_BUF"
    and opened: "vfs_open (Some path) O_RDONLY s0 = Some (int i, s1)" "vfs_open (Some port) O_RDWR s1 = Some (int j, s)"
    and file_fd: "vol_at api V i data pos s" and port_fd: "on_node j (port_node k) s" and sink: "port_sink k FILE_BUF j s"
  shows "\<exists>buf' s'. file_commander [''file'', ''download'', path, port] (buf, s0) = Some (buf', s') \<and> port_sent k s' = port_sent k s @ data \<and>
     vf_used s' = (vf_used s)[i := False, j := False]"
proof -
  obtain buf' s2 p where s2: "file_download (int i) (int j) (buf, s) = Some (buf', s2)" "vol_at api V i data p s2" "same_table s s2"
      "port_sent k s2 = port_sent k s @ data"
    using file_download_run [OF vol file_fd sink buf] by blast
  have "i \<noteq> j"
    using file_fd port_fd nodes_differ(1) by (metis vol_at_def on_node_def option.inject)
  obtain s3 where s3: "vfs_close (int i) s2 = Some (0, s3)" "bw_serial (vf_world s3) = bw_serial (vf_world s2)" "vf_used s3 = (vf_used s2)[i := False]"
      "on_node j (port_node k) s3"
    using volume_close [OF vol s2(2)] on_node_same [OF s2(3) port_fd] \<open>i \<noteq> j\<close> by metis
  obtain s4 where s4: "vfs_close (int j) s3 = Some (0, s4)" "port_sent k s4 = port_sent k s3" "vf_used s4 = (vf_used s3)[j := False]"
    using port_close [OF s3(4)] by blast
  have "port_sent k s3 = port_sent k s2" "vf_used s2 = vf_used s"
    using s3(2) s2(3) by (simp_all add: port_sent_def same_table_def)
  then show ?thesis
    using opened s2(1,4) s3(1,3) s4 by (simp add: file_commander_def file_operation_def CLI_MAX_CMD_LENGTH_def)
qed

text \<open>C31: The upload loop on a port in whose buffer bytes have arrived and a file that has just been made on a healthy volume stores exactly these bytes in the file,
  however the reads cut them, and ends with the first read that times out. All of them are then on the disk, not only in the memory
  of the file object, since each piece is synced.\<close>

theorem file_upload_stores_bytes:
  assumes vol: "volume_ok api V" and buf: "length buf = FILE_BUF" and file_fd: "vol_at api V i [] 0 s" and source: "port_source k j s"
    and bytes: "bytes_of (us_read_buf (board_port k s)) \<noteq> []" "length (bytes_of (us_read_buf (board_port k s))) \<le> fv_room V"
  shows "\<exists>buf' s'. file_upload (int i) (int j) (buf, s) = Some (buf', s') \<and>
     vol_at api V i (bytes_of (us_read_buf (board_port k s))) (length (bytes_of (us_read_buf (board_port k s)))) s' \<and>
     vol_stored V i (bytes_of (us_read_buf (board_port k s))) s' \<and> bytes_of (us_read_buf (board_port k s')) = []"
proof -
  let ?bs = "bytes_of (us_read_buf (board_port k s))"
  obtain s1 where s1: "vfs_ioctl (int j) 0 [portMAX_DELAY] s = Some (0, s1)" "port_source k j s1" "same_table s s1"
      "bw_fat (vf_world s1) = bw_fat (vf_world s)" "us_read_buf (board_port k s1) = us_read_buf (board_port k s)"
    using port_set_timeout [OF source, of portMAX_DELAY] by blast
  have "vol_at api V i [] 0 s1"
    by (rule vol_at_cong [OF s1(3,4) file_fd])
  then have "up_pipe api V i k j ?bs [] s1"
    using vol s1(2,5) bytes(2) by (simp add: up_pipe_def)
  from upload.upload_loop_moves [OF this _ buf]
  obtain buf' s2 where s2: "upload_loop (int j) (int i) FILE_UPLOAD_TIMEOUT_MS (buf, s1) = Some (buf', s2)" "up_pipe api V i k j [] ?bs s2" "vol_stored V i ?bs s2"
    using bytes(1) by auto
  note p = s2(2) [unfolded up_pipe_def]
  obtain s3 where s3: "vfs_ioctl (int j) 0 [portMAX_DELAY] s2 = Some (0, s3)" "same_table s2 s3" "bw_fat (vf_world s3) = bw_fat (vf_world s2)"
      "us_read_buf (board_port k s3) = us_read_buf (board_port k s2)"
    using port_set_timeout [of k j s2 portMAX_DELAY] p by blast
  have "vol_at api V i ?bs (length ?bs) s3" "vol_stored V i ?bs s3" "bytes_of (us_read_buf (board_port k s3)) = []"
    using vol_at_cong [OF s3(2,3)] vol_stored_cong [OF s3(3), of V i ?bs] s2(3) p s3(4) by auto
  moreover have "file_upload (int i) (int j) (buf, s) = Some (buf', s3)"
    using s1(1) s2(1) s3(1) by (simp add: file_upload_def)
  ultimately show ?thesis
    by blast
qed

text \<open>The command cat on a file that can be opened copies it to the standard output. The hypotheses on the state are those at the end of the change back to the
  current directory.\<close>

lemma cat_prints_file:
  assumes vol: "volume_ok api V" and buf: "length buf = CAT_BUF"
    and cwd: "vfs_getcwd api (4 * MAX_NAME_LEN) s0 = (Some cur, s1)"
    and opened: "vfs_open (Some (take (4 * MAX_NAME_LEN - 1) (''/fs'' @ cur @ ''/'' @ path))) O_RDONLY (snd (vfs_chdir api ''/'' s1)) = Some (int i, s2)"
    and at: "vol_at api V i data pos (snd (vfs_chdir api cur s2))" and sink: "port_sink k CAT_BUF 1 (snd (vfs_chdir api cur s2))"
  shows "\<exists>buf' s'. cat_commander api [''cat'', path] (buf, s0) = Some (buf', s') \<and> port_sent k s' = port_sent k (snd (vfs_chdir api cur s2)) @ data"
proof -
  define s where "s = snd (vfs_chdir api cur s2)"
  obtain s3 where s3: "vfs_lseek (int i) 0 0 s = Some (0, s3)" "vol_at api V i data 0 s3" "same_table s s3" "bw_serial (vf_world s3) = bw_serial (vf_world s)"
    using volume_lseek [OF vol at, of 0 0] unfolding s_def by auto
  have "down_pipe api V i k 1 CAT_BUF (port_sent k s) data data [] s3 \<and> same_table s s3"
    using vol s3(2,3,4) port_sink_cong [OF s3(3,4) sink [folded s_def]] by (auto simp: down_pipe_def port_sent_def intro!: exI [of _ 0])
  from cat.copy_loop_moves [OF this buf]
  obtain buf' s4 where s4: "copy_loop (int i) 1 (buf, s3) = Some (buf', s4)" "port_sent k s4 = port_sent k s @ data" "\<exists>p. vol_at api V i data p s4"
    by (auto simp: down_pipe_def)
  obtain s5 where s5: "vfs_lseek (int i) 0 2 s4 = Some (0, s5)" "vol_at api V i data (length data) s5" "bw_serial (vf_world s5) = bw_serial (vf_world s4)"
    using s4(3) volume_lseek [OF vol, of i data _ s4 2 "length data"] by auto
  obtain s6 where s6: "vfs_close (int i) s5 = Some (0, s6)" "bw_serial (vf_world s6) = bw_serial (vf_world s5)"
    using volume_close [OF vol s5(2)] by blast
  have "port_sent k s6 = port_sent k s @ data"
    using s4(2) s5(3) s6(2) by (simp add: port_sent_def)
  moreover have "cat_commander api [''cat'', path] (buf, s0) = Some (buf', s6)"
    using cwd opened s3(1) s4(1) s5(1) s6(1) unfolding s_def by (simp add: cat_commander_def cat_print_file_content_def Let_def)
  ultimately show ?thesis
    unfolding s_def by blast
qed

text \<open>A library whose file objects are their contents and position, and a board with one volume and one port.\<close>

definition tape_api :: "(u8 list \<times> nat, u8 list, unit) fatfs_api" where
  "tape_api = \<lparr> fil0 = ([], 0),
     f_open = (\<lambda>h p m d. (FR_OK, ([1, 2, 3, 4, 5], 0), d)),
     f_write = (\<lambda>(data, pos) b d. (FR_OK, word_of_nat (length b), (take pos data @ b @ drop (pos + length b) data, pos + length b), d)),
     f_read = (\<lambda>(data, pos) n d. (FR_OK, word_of_nat (length (take (unat n) (drop pos data))), take (unat n) (drop pos data),
        (data, pos + length (take (unat n) (drop pos data))), d)),
     f_close = (\<lambda>h d. (FR_OK, h, d)), f_sync = (\<lambda>h d. (FR_OK, h, d)),
     f_lseek = (\<lambda>(data, pos) n d. (FR_OK, (data, min (unat n) (length data)), d)), f_size = (\<lambda>(data, pos). word_of_nat (length data)),
     f_getfree = (\<lambda>p d. (FR_OK, 1, 1, 3, d)), f_mkdir = (\<lambda>p d. (FR_EXIST, d)), f_unlink = (\<lambda>p d. (FR_OK, d)),
     f_chdir = (\<lambda>p d. (FR_OK, d)), f_rename = (\<lambda>p q d. (FR_OK, d)), f_getcwd = (\<lambda>n d. (FR_OK, ''/'', d)),
     f_stat = (\<lambda>p d. (FR_OK, \<lparr> fi_fsize = 5, fi_fattrib = 0, fi_fname = p \<rparr>, d)),
     f_opendir = (\<lambda>h p d. (FR_OK, h, d)), f_readdir = (\<lambda>h d. (FR_OK, \<lparr> fi_fsize = 0, fi_fattrib = 0, fi_fname = [] \<rparr>, h, d)),
     f_closedir = (\<lambda>h d. (FR_OK, h, d)) \<rparr>"

definition tape_view :: "(u8 list \<times> nat, unit) fil_view" where
  "tape_view = \<lparr> fv_good = (\<lambda>(data, pos) d. length data \<le> 1000 \<and> pos \<le> length data), fv_data = (\<lambda>(data, pos) d. data), fv_pos = (\<lambda>(data, pos) d. pos),
     fv_stored = (\<lambda>(data, pos) d. data),
     fv_room = 1000 \<rparr>"

lemma tape_is: "fil_is tape_view data pos h d \<longleftrightarrow> h = (data, pos) \<and> length data \<le> 1000 \<and> pos \<le> length data"
  by (cases h) (auto simp: fil_is_def tape_view_def)

lemma tape_ok: "volume_ok tape_api tape_view"
  by (auto simp: volume_ok_def tape_is) (auto simp: tape_api_def tape_view_def unat_of_nat)

definition takes_512 :: "u16 list" where "takes_512 = replicate 512 1"

definition tape_board :: "(u8 list \<times> nat, unit) board_world vfs" where
  "tape_board = \<lparr> vf_root = Node [] None [Node ''fs'' (Some (volume_node tape_api)) [], Node ''ttyS1'' (Some (port_node 0)) []],
     vf_used = replicate 32 False, vf_files = replicate 32 \<lparr> fl_flags = 0, fl_node = Tree_node [''fs''] \<rparr>, vf_errno = EOK,
     vf_world = \<lparr> bw_fat = \<lparr> fw_priv = replicate 32 Null_fil, fw_files = replicate 32 ([], 0), fw_index = 0, fw_disk = (), fw_ub = False \<rparr>,
       bw_serial = \<lparr> pw_ports = (\<lambda>_. idle_port), pw_takes = (\<lambda>_. takes_512), pw_comes = (\<lambda>_. []), pw_sent = (\<lambda>_. []), pw_stuck = False, pw_noarg = False, pw_overrun = False \<rparr> \<rparr> \<rparr>"

lemma tape_ops:
  "vf_root s = vf_root tape_board \<Longrightarrow> ops_of s (Tree_node [''fs'']) = Some (volume_node tape_api)"
  "vf_root s = vf_root tape_board \<Longrightarrow> ops_of s (Tree_node [''ttyS1'']) = Some (port_node 0)"
  by (simp_all add: ops_of_def tape_board_def node_find_sibling_def)

lemma tape_find:
  "fst (node_find (vf_root tape_board) (Some ''/fs/a'') NODE_MODE_NEAREST_PATH) = Some [''fs'']"
  "fst (node_find (vf_root tape_board) (Some ''/ttyS1'') NODE_MODE_NEAREST_PATH) = Some [''ttyS1'']"
  unfolding tape_board_def vfs.simps by code_simp+

text \<open>The two opens of the command.\<close>

lemma tape_wf:
  assumes "vf_root s = vf_root tape_board" and "length (vf_used s) = 32" and "length (vf_files s) = 32"
    and "\<And>i. i < 32 \<Longrightarrow> fl_node (vf_files s ! i) = Tree_node [''fs''] \<or> fl_node (vf_files s ! i) = Tree_node [''ttyS1'']"
  shows "vfs_wf s"
  using assms(2-4) tape_ops [OF assms(1)] unfolding vfs_wf_def MAX_FILES_def by force

definition tape_open1 :: "(u8 list \<times> nat, unit) board_world vfs" where
  "tape_open1 = tape_board \<lparr> vf_used := True # replicate 31 False, vf_files := \<lparr> fl_flags = O_RDONLY, fl_node = Tree_node [''fs''] \<rparr> # replicate 31 \<lparr> fl_flags = 0, fl_node = Tree_node [''fs''] \<rparr>,
     vf_world := (vf_world tape_board) \<lparr> bw_fat := \<lparr> fw_priv = Fil 0 # replicate 31 Null_fil, fw_files = ([1, 2, 3, 4, 5], 0) # replicate 31 ([], 0), fw_index = 1, fw_disk = (), fw_ub = False \<rparr> \<rparr> \<rparr>"

definition tape_open2 :: "(u8 list \<times> nat, unit) board_world vfs" where
  "tape_open2 = tape_open1 \<lparr> vf_used := True # True # replicate 30 False,
     vf_files := \<lparr> fl_flags = O_RDONLY, fl_node = Tree_node [''fs''] \<rparr> # \<lparr> fl_flags = O_RDWR, fl_node = Tree_node [''ttyS1''] \<rparr> # replicate 30 \<lparr> fl_flags = 0, fl_node = Tree_node [''fs''] \<rparr>,
     vf_world := (vf_world tape_open1) \<lparr> bw_serial := put_port 0 (snd (snd (usart_open idle_port))) (bw_serial (vf_world tape_board)) \<rparr> \<rparr>"

lemma tape_opens1: "vfs_open (Some ''/fs/a'') O_RDONLY tape_board = Some (int 0, tape_open1)"
proof -
  have wf: "vfs_wf tape_board"
    by (rule tape_wf) (simp_all add: tape_board_def)
  have op: "fo_open (volume_node tape_api) = Some (\<lambda>p. lift_op bw_fat (\<lambda>a w. w \<lparr> bw_fat := a \<rparr>) (fatfs_open tape_api p))"
    by (simp add: volume_node_def)
  have fd: "fd_new tape_board = int 0" "0 < length (vf_used tape_board)" "\<not> vf_used tape_board ! 0"
    by (simp_all add: fd_new_def tape_board_def eval_nat_numeral)
  have run: "lift_op bw_fat (\<lambda>a w. w \<lparr> bw_fat := a \<rparr>) (fatfs_open tape_api rel) 0 O_RDONLY (vf_world tape_board) EOK =
      (0, O_RDONLY, vf_world tape_open1, EOK)" for rel
    by (simp add: lift_op_def fatfs_open_def Let_def arr_set_def FATFS_MAX_FILES_def tape_api_def tape_open1_def tape_board_def O_RDONLY_def O_APPEND_def eval_nat_numeral)
  show ?thesis
    using vfs_open_run [OF wf tape_find(1) tape_ops(1) op fd, of O_RDONLY] by (simp add: run) (simp add: tape_open1_def tape_board_def eval_nat_numeral)
qed

lemma tape_opens2: "vfs_open (Some ''/ttyS1'') O_RDWR tape_open1 = Some (int 1, tape_open2)"
proof -
  have root: "vf_root tape_open1 = vf_root tape_board"
    by (simp add: tape_open1_def)
  have wf: "vfs_wf tape_open1"
    by (rule tape_wf) (auto simp: tape_open1_def nth_Cons split: nat.split)
  have op: "fo_open (port_node 0) = Some (\<lambda>p. lift_op bw_serial (\<lambda>a w. w \<lparr> bw_serial := a \<rparr>) (port_open_op 0 p))"
    by (simp add: port_node_def)
  have fd: "fd_new tape_open1 = int 1" "1 < length (vf_used tape_open1)" "\<not> vf_used tape_open1 ! 1"
    by (simp_all add: fd_new_def tape_open1_def eval_nat_numeral)
  have o: "fst (usart_open idle_port) = 0"
    by (simp add: usart_open_def idle_port_def demo_port_def demo_usart_def)
  have run: "lift_op bw_serial (\<lambda>a w. w \<lparr> bw_serial := a \<rparr>) (port_open_op 0 rel) 1 O_RDWR (vf_world tape_open1) EOK =
      (0, O_RDWR, vf_world tape_open2, fst (snd (usart_open idle_port)))" for rel
    using o by (simp add: lift_op_def port_open_op_def case_prod_beta tape_open2_def tape_open1_def tape_board_def)
  show ?thesis
  proof -
    have find: "fst (node_find (vf_root tape_open1) (Some ''/ttyS1'') NODE_MODE_NEAREST_PATH) = Some [''ttyS1'']"
      unfolding root by (rule tape_find(2))
    have "vfs_open (Some ''/ttyS1'') O_RDWR tape_open1 = Some (int 1, tape_open1 \<lparr> vf_used := (vf_used tape_open1)[1 := True],
        vf_files := (vf_files tape_open1)[1 := \<lparr> fl_flags = O_RDWR, fl_node = Tree_node [''ttyS1''] \<rparr>], vf_errno := EOK, vf_world := vf_world tape_open2 \<rparr>)"
      using vfs_open_run [OF wf find tape_ops(2) [OF root] op fd, of O_RDWR] unfolding run by auto
    then show ?thesis
      by (simp add: tape_open2_def tape_open1_def tape_board_def eval_nat_numeral)
  qed
qed

lemma tape_port: "port_inv (snd (snd (usart_open idle_port)))" "\<not> us_error (snd (snd (usart_open idle_port)))"
    "bytes_of (us_write_buf (snd (snd (usart_open idle_port)))) = []"
proof -
  show "port_inv (snd (snd (usart_open idle_port)))"
    using usart_open_inv [OF idle_port_inv] by (metis prod.collapse)
  show "\<not> us_error (snd (snd (usart_open idle_port)))" "bytes_of (us_write_buf (snd (snd (usart_open idle_port)))) = []"
    using idle_ring_bytes by (simp_all add: usart_open_def idle_port_def demo_port_def demo_usart_def)
qed

lemma tape_nodes: "on_node 0 (volume_node tape_api) tape_open2" "on_node 1 (port_node 0) tape_open2"
proof -
  have root: "vf_root tape_open2 = vf_root tape_board"
    by (simp add: tape_open2_def tape_open1_def)
  show "on_node 0 (volume_node tape_api) tape_open2"
    using tape_ops(1) [OF root] by (simp add: on_node_def fd_used_def MAX_FILES_def) (simp add: tape_open2_def)
  show "on_node 1 (port_node 0) tape_open2"
    using tape_ops(2) [OF root] by (simp add: on_node_def fd_used_def MAX_FILES_def) (simp add: tape_open2_def)
qed

lemma tape_vol: "vol_at tape_api tape_view 0 [1, 2, 3, 4, 5] 0 tape_open2"
  using tape_nodes(1) unfolding vol_at_def by (simp add: tape_is) (simp add: tape_open2_def tape_open1_def)

lemma tape_world: "bw_serial (vf_world tape_open2) = put_port 0 (snd (snd (usart_open idle_port))) (bw_serial (vf_world tape_board))"
  by (simp add: tape_open2_def)

lemma tape_sink: "port_sink 0 FILE_BUF 1 tape_open2"
proof -
  have "pw_takes (bw_serial (vf_world tape_board)) 0 = takes_512"
    by (simp add: tape_board_def)
  moreover have "\<forall>d \<in> set takes_512. d \<noteq> 0" "length takes_512 = 512"
    by (simp_all add: takes_512_def)
  ultimately show ?thesis
    using tape_nodes(2) tape_port(1,2) unfolding port_sink_def tape_world by (auto simp: FILE_BUF_def)
qed

theorem file_download_sends_file_witness:
  "\<exists>buf' s'. file_commander [''file'', ''download'', ''/fs/a'', ''/ttyS1''] (replicate FILE_BUF 0, tape_board) = Some (buf', s') \<and>
     port_sent 0 s' = [1, 2, 3, 4, 5] \<and> vf_used s' = replicate 32 False"
proof -
  have "port_sent 0 tape_open2 = []"
    using tape_port(3) by (simp add: port_sent_def tape_world) (simp add: tape_board_def)
  moreover have "(vf_used tape_open2)[0 := False, 1 := False] = replicate 32 False"
    by (simp add: tape_open2_def eval_nat_numeral)
  ultimately show ?thesis
    using file_download_sends_file [OF tape_ok length_replicate tape_opens1 tape_opens2 tape_vol tape_nodes(2) tape_sink, of 0] by simp
qed

text \<open>The same board after two bytes have arrived at the port, with an empty file.\<close>

definition two_ring :: ring_buf where
  "two_ring = idle_ring \<lparr> write_ptr := 2, start_ptr := Some [7, 9, 0, 0], rb_count := 2 \<rparr>"

definition two_port :: usart where
  "two_port = idle_port \<lparr> us_read_buf := Some two_ring \<rparr>"

definition tape_upload :: "(u8 list \<times> nat, unit) board_world vfs" where
  "tape_upload = tape_open2 \<lparr> vf_world := \<lparr> bw_fat = \<lparr> fw_priv = Fil 0 # replicate 31 Null_fil, fw_files = replicate 32 ([], 0), fw_index = 1, fw_disk = (), fw_ub = False \<rparr>,
     bw_serial = put_port 0 two_port (bw_serial (vf_world tape_board)) \<rparr> \<rparr>"

lemma two_port_ok: "port_inv two_port" "\<not> us_error two_port" "bytes_of (us_read_buf two_port) = [7, 9]"
proof -
  show "port_inv two_port"
    by (simp add: port_inv_def two_port_def idle_port_def demo_port_def demo_usart_def ring_ok_def two_ring_def idle_ring_def rb_inv_def)
  show "\<not> us_error two_port" "bytes_of (us_read_buf two_port) = [7, 9]"
    by (simp_all add: two_port_def idle_port_def demo_port_def demo_usart_def two_ring_def idle_ring_def rb_contents_def ring_view_def ring_index_def upt_rec)
qed

theorem file_upload_stores_bytes_witness:
  "\<exists>buf' s'. file_upload 0 1 (replicate FILE_BUF 0, tape_upload) = Some (buf', s') \<and> vol_at tape_api tape_view 0 [7, 9] 2 s' \<and>
     vol_stored tape_view 0 [7, 9] s'"
proof -
  have same: "same_table tape_open2 tape_upload"
    by (simp add: same_table_def tape_upload_def)
  have vol: "vol_at tape_api tape_view 0 [] 0 tape_upload"
    using on_node_same [OF same tape_nodes(1)] unfolding vol_at_def by (simp add: tape_is) (simp add: tape_upload_def)
  have port: "bw_serial (vf_world tape_upload) = put_port 0 two_port (bw_serial (vf_world tape_board))" "pw_comes (bw_serial (vf_world tape_board)) 0 = []"
    by (simp_all add: tape_upload_def tape_board_def)
  have source: "port_source 0 1 tape_upload"
    using on_node_same [OF same tape_nodes(2)] two_port_ok(1,2) port(2) unfolding port_source_def port(1) by auto
  have bytes: "bytes_of (us_read_buf (board_port 0 tape_upload)) = [7, 9]"
    using two_port_ok(3) unfolding port(1) by simp
  have "fv_room tape_view = 1000"
    by (simp add: tape_view_def)
  then show ?thesis
    using file_upload_stores_bytes [OF tape_ok length_replicate vol source, of 0] unfolding bytes by (auto simp: numeral_2_eq_2)
qed

text \<open>Any calls on the board of the concrete instances.\<close>

lemma tape_drivers: "ops_of tape_board r = Some f \<Longrightarrow> board_driver tape_api f"
proof (cases r)
  case (Tree_node a)
  assume f: "ops_of tape_board r = Some f"
  show ?thesis
  proof (cases a)
    case Nil
    then show ?thesis
      using f Tree_node by (simp add: ops_of_def tape_board_def board_driver_def)
  next
    case (Cons x xs)
    then show ?thesis
      using f Tree_node by (cases xs) (auto simp: ops_of_def tape_board_def board_driver_def node_find_sibling_def split: if_splits)
  qed
qed (simp add: ops_of_def board_driver_def)

theorem board_calls_safe_witness:
  "\<exists>s'. fd_calls [Open ''/fs/a'' O_RDWR, Open ''/ttyS1'' O_RDWR, Write 1 [1, 2], Write 0 [3], Close 0, Read 1 3] tape_board = Some s' \<and>
     vfs_wf s' \<and> fat_inv (bw_fat (vf_world s')) \<and> \<not> pw_overrun (bw_serial (vf_world s')) \<and> (\<forall>k. port_inv (pw_ports (bw_serial (vf_world s')) k))"
proof (rule board_calls_safe)
  show "vfs_wf tape_board"
    by (rule tape_wf) (simp_all add: tape_board_def)
  show "\<forall>r f. ops_of tape_board r = Some f \<longrightarrow> board_driver tape_api f"
    using tape_drivers by blast
  show "\<forall>i < MAX_FILES. \<not> vf_used tape_board ! i" "fat_inv (bw_fat (vf_world tape_board))"
    by (simp_all add: tape_board_def MAX_FILES_def fat_inv_def FATFS_MAX_FILES_def own_objects_none)
  show "serial_inv (bw_serial (vf_world tape_board))"
    by (simp add: tape_board_def serial_inv_def idle_port_inv)
qed

end
