(* ===== verification/SpiPlr.thy ===== *)
theory SpiPlr
  imports Prelude
begin

text \<open>
  The SPI poller of the control station board (bsp/mcu/periph/spi/zynq/spiplr.c, spiplr.h): a peripheral in programmable
  logic that repeats a vector of SPI requests, or runs a custom transaction of up to 16 of them. The
  logic is a parameter: what a 32 bit write and a 32 bit read at an address do. What spiplr.h
  documents of it is the contract \<open>plr_engine\<close>.
\<close>

section \<open>Registers (spiplr.h)\<close>

definition SPIPLR_CNT_OFF :: nat where "SPIPLR_CNT_OFF = 0x0000"
definition SPIPLR_CNT_ENABLE :: u32 where "SPIPLR_CNT_ENABLE = 1"
definition SPIPLR_CNT_DISABLE :: u32 where "SPIPLR_CNT_DISABLE = 2"
definition SPIPLR_CNT_RESET :: u32 where "SPIPLR_CNT_RESET = 4"
definition SPIPLR_CNT_CR_START :: u32 where "SPIPLR_CNT_CR_START = 8"
definition SPIPLR_POLL_PERIOD_OFF :: nat where "SPIPLR_POLL_PERIOD_OFF = 0x0004"
definition SPIPLR_STAT_OFF :: nat where "SPIPLR_STAT_OFF = 0x0008"
definition SPIPLR_STAT_CR_RDY :: u32 where "SPIPLR_STAT_CR_RDY = 8"
definition SPIPLR_IRQ_OFF :: nat where "SPIPLR_IRQ_OFF = 0x000C"
definition SPIPLR_IRQ_POLL_RDY_EN :: u32 where "SPIPLR_IRQ_POLL_RDY_EN = 1"
definition SPIPLR_IRQ_POLL_RDY_DIS :: u32 where "SPIPLR_IRQ_POLL_RDY_DIS = 2"
definition SPIPLR_IRQ_COUNTER_OFF :: nat where "SPIPLR_IRQ_COUNTER_OFF = 0x0010"
definition SPIPLR_IRQ_PROC_TIME_OFF :: nat where "SPIPLR_IRQ_PROC_TIME_OFF = 0x0014"
definition SPIPLR_POLL_CYCLE_TIME_OFF :: nat where "SPIPLR_POLL_CYCLE_TIME_OFF = 0x0018"
definition SPIPLR_CFG_REQ_VECTOR_OFF :: nat where "SPIPLR_CFG_REQ_VECTOR_OFF = 0x0080"
definition SPIPLR_CFG_VECTOR_SIZE :: nat where "SPIPLR_CFG_VECTOR_SIZE = 32"
definition SPIPLR_POLL_REQ_VECTOR_OFF :: nat where "SPIPLR_POLL_REQ_VECTOR_OFF = 0x0100"
definition SPIPLR_POLL_VECTOR_SIZE :: nat where "SPIPLR_POLL_VECTOR_SIZE = 256"
definition SPIPLR_CR_REQ_OFF :: nat where "SPIPLR_CR_REQ_OFF = 0x0500"
definition SPIPLR_CR_RESP_OFF :: nat where "SPIPLR_CR_RESP_OFF = 0x0900"
definition SPIPLR_POLL_RESP_VECTOR_OFF :: nat where "SPIPLR_POLL_RESP_VECTOR_OFF = 0x0900"
definition SPIPLR_REG_MAP_SIZE :: nat where
  "SPIPLR_REG_MAP_SIZE = SPIPLR_POLL_RESP_VECTOR_OFF + 4 * SPIPLR_POLL_VECTOR_SIZE"
definition SPIPLR_CR_MAX_TRANS :: nat where "SPIPLR_CR_MAX_TRANS = 16"
definition SPIPLR_DATA_MASK :: u32 where "SPIPLR_DATA_MASK = 0xFFFFFF"
definition SPIPLR_DEVN_MASK :: u32 where "SPIPLR_DEVN_MASK = 0x3F"

definition SPIPLR_COMPOSE_REQ :: "u32 \<Rightarrow> u32 \<Rightarrow> u32 \<Rightarrow> u32" where
  "SPIPLR_COMPOSE_REQ dev req cons =
     push_bit 30 (cons AND 1) OR push_bit 24 (dev AND SPIPLR_DEVN_MASK) OR (req AND SPIPLR_DATA_MASK)"

definition SPIPLR_COMPOSE_REQ_TERMINATION :: u32 where
  "SPIPLR_COMPOSE_REQ_TERMINATION = SPIPLR_COMPOSE_REQ 0 0 0"

definition SPIPLR_RESP_EXTRACT_DEV_ID :: "u32 \<Rightarrow> u32" where
  "SPIPLR_RESP_EXTRACT_DEV_ID w = drop_bit 24 w AND SPIPLR_DEVN_MASK"

text \<open>The bit fields, from the lowest bit up.\<close>

record spiplr_cfg_word =
  sclk_divider :: u32
  tr_byte_num :: u32
  cs_vector :: u32
  lsb_first :: u32
  clk_cpha :: u32
  clk_cpol :: u32
  clk_delay :: u32
  cw_reserved :: u32

definition cfg_word_bits :: "spiplr_cfg_word \<Rightarrow> u32" where
  "cfg_word_bits c =
     take_bit 8 (sclk_divider c) OR push_bit 8 (take_bit 2 (tr_byte_num c)) OR
     push_bit 10 (take_bit 8 (cs_vector c)) OR push_bit 18 (take_bit 1 (lsb_first c)) OR
     push_bit 19 (take_bit 1 (clk_cpha c)) OR push_bit 20 (take_bit 1 (clk_cpol c)) OR
     push_bit 21 (take_bit 5 (clk_delay c)) OR push_bit 26 (take_bit 6 (cw_reserved c))"

section \<open>State and register access\<close>

record 'h fpga =
  out32 :: "nat \<Rightarrow> u32 \<Rightarrow> 'h \<Rightarrow> 'h"
  in32 :: "nat \<Rightarrow> 'h \<Rightarrow> u32 \<times> 'h"

record spiplr_instance =
  plr_base :: nat
  phys_base :: nat

text \<open>The loops that write or read registers in turn, from the index \<open>j\<close> on.\<close>

fun write_vector :: "'h fpga \<Rightarrow> nat \<Rightarrow> nat \<Rightarrow> u32 list \<Rightarrow> 'h \<Rightarrow> 'h" where
  "write_vector hw off j [] h = h"
| "write_vector hw off j (w # ws) h = write_vector hw off (Suc j) ws (out32 hw (off + 4 * j) w h)"

fun read_vector :: "'h fpga \<Rightarrow> nat \<Rightarrow> nat \<Rightarrow> nat \<Rightarrow> 'h \<Rightarrow> u32 list \<times> 'h" where
  "read_vector hw off j 0 h = ([], h)"
| "read_vector hw off j (Suc n) h =
     (let (w, h) = in32 hw (off + 4 * j) h; (ws, h) = read_vector hw off (Suc j) n h in (w # ws, h))"

section \<open>Operations (spiplr.c)\<close>

text \<open>\<open>mapped\<close>: where the system maps the registers, None when it refuses.\<close>

definition spiplr_init :: "nat option \<Rightarrow> nat \<Rightarrow> spiplr_instance \<Rightarrow> int \<times> spiplr_instance" where
  "spiplr_init mapped phys i =
     (case mapped of
        None \<Rightarrow> (- 1, i \<lparr> plr_base := 0 \<rparr>)
      | Some b \<Rightarrow> (0, i \<lparr> plr_base := b, phys_base := phys \<rparr>))"

text \<open>None is a division by zero.\<close>

definition spiplr_poll_set_period :: "'h fpga \<Rightarrow> spiplr_instance \<Rightarrow> u32 \<Rightarrow> u32 \<Rightarrow> 'h \<Rightarrow> (int \<times> 'h) option" where
  "spiplr_poll_set_period hw i period_us mck h =
     (if period_us = 0 \<or> 1000000 div period_us = 0 then None
      else Some (0, out32 hw (plr_base i + SPIPLR_POLL_PERIOD_OFF) (mck div (1000000 div period_us)) h))"

definition spiplr_poll_start :: "'h fpga \<Rightarrow> spiplr_instance \<Rightarrow> 'h \<Rightarrow> int \<times> 'h" where
  "spiplr_poll_start hw i h = (0, out32 hw (plr_base i + SPIPLR_CNT_OFF) SPIPLR_CNT_ENABLE h)"

definition spiplr_poll_stop :: "'h fpga \<Rightarrow> spiplr_instance \<Rightarrow> 'h \<Rightarrow> int \<times> 'h" where
  "spiplr_poll_stop hw i h = (0, out32 hw (plr_base i + SPIPLR_CNT_OFF) SPIPLR_CNT_DISABLE h)"

definition spiplr_reset :: "'h fpga \<Rightarrow> spiplr_instance \<Rightarrow> 'h \<Rightarrow> int \<times> 'h" where
  "spiplr_reset hw i h = (0, out32 hw (plr_base i + SPIPLR_CNT_OFF) SPIPLR_CNT_RESET h)"

definition spiplr_get_status :: "'h fpga \<Rightarrow> spiplr_instance \<Rightarrow> 'h \<Rightarrow> int \<times> u32 \<times> 'h" where
  "spiplr_get_status hw i h = (0, in32 hw (plr_base i + SPIPLR_STAT_OFF) h)"

definition spiplr_reset_status :: "'h fpga \<Rightarrow> spiplr_instance \<Rightarrow> 'h \<Rightarrow> int \<times> 'h" where
  "spiplr_reset_status hw i h = (0, out32 hw (plr_base i + SPIPLR_STAT_OFF) 0 h)"

definition spiplr_req_vector_set :: "'h fpga \<Rightarrow> spiplr_instance \<Rightarrow> u32 list \<Rightarrow> 'h \<Rightarrow> int \<times> 'h" where
  "spiplr_req_vector_set hw i v h =
     (if SPIPLR_POLL_VECTOR_SIZE - 1 \<le> length v then (- 1, h)
      else let h = write_vector hw (plr_base i + SPIPLR_POLL_REQ_VECTOR_OFF) 0 v h
           in (0, out32 hw (plr_base i + SPIPLR_POLL_REQ_VECTOR_OFF + 4 * length v) SPIPLR_COMPOSE_REQ_TERMINATION h))"

text \<open>\<open>size\<close> counts bytes on entry and words on return.\<close>

definition spiplr_resp_vector_get :: "'h fpga \<Rightarrow> spiplr_instance \<Rightarrow> nat \<Rightarrow> 'h \<Rightarrow> (int \<times> u32 list \<times> nat) \<times> 'h" where
  "spiplr_resp_vector_get hw i bytes h =
     (let nr = bytes div 4; (v, h) = read_vector hw (plr_base i + SPIPLR_POLL_RESP_VECTOR_OFF) 0 nr h
      in ((0, v, nr), h))"

definition spiplr_cfg_vector_set :: "'h fpga \<Rightarrow> spiplr_instance \<Rightarrow> u32 list \<Rightarrow> 'h \<Rightarrow> int \<times> 'h" where
  "spiplr_cfg_vector_set hw i v h =
     (if SPIPLR_CFG_VECTOR_SIZE < length v then (- 1, h)
      else (0, write_vector hw (plr_base i + SPIPLR_CFG_REQ_VECTOR_OFF) 0 v h))"

definition spiplr_irq_poll_rdy_enable :: "'h fpga \<Rightarrow> spiplr_instance \<Rightarrow> 'h \<Rightarrow> int \<times> 'h" where
  "spiplr_irq_poll_rdy_enable hw i h = (0, out32 hw (plr_base i + SPIPLR_IRQ_OFF) SPIPLR_IRQ_POLL_RDY_EN h)"

definition spiplr_irq_poll_rdy_disable :: "'h fpga \<Rightarrow> spiplr_instance \<Rightarrow> 'h \<Rightarrow> int \<times> 'h" where
  "spiplr_irq_poll_rdy_disable hw i h = (0, out32 hw (plr_base i + SPIPLR_IRQ_OFF) SPIPLR_IRQ_POLL_RDY_DIS h)"

text \<open>The lines the two printing functions print: the offset or the address, and the word.\<close>

definition spiplr_print_req_vector :: "u32 list \<Rightarrow> (nat \<times> u32) list" where
  "spiplr_print_req_vector v = map (\<lambda>i. (4 * i, v ! i)) [0..<length v]"

definition spiplr_dump_reg_map :: "'h fpga \<Rightarrow> spiplr_instance \<Rightarrow> 'h \<Rightarrow> (nat \<times> u32) list \<times> 'h" where
  "spiplr_dump_reg_map hw i h =
     (let (ws, h) = read_vector hw (plr_base i) 0 (SPIPLR_REG_MAP_SIZE div 4) h
      in (map (\<lambda>k. (phys_base i + 4 * k, ws ! k)) [0..<length ws], h))"

text \<open>The wait for a custom transaction; \<open>j\<close> is the counter. The first component: ready, or given up with the message of the
  recovery.\<close>

fun cr_wait :: "'h fpga \<Rightarrow> spiplr_instance \<Rightarrow> nat \<Rightarrow> 'h \<Rightarrow> bool \<times> 'h" where
  "cr_wait hw i j h =
     (let (st, h) = in32 hw (plr_base i + SPIPLR_STAT_OFF) h
      in if st AND SPIPLR_STAT_CR_RDY \<noteq> 0 then (True, h)
         else case j of 0 \<Rightarrow> (False, h) | Suc j \<Rightarrow> cr_wait hw i j h)"

declare cr_wait.simps [simp del]

text \<open>\<open>inb\<close> are the \<open>n\<close> requests. The result: the value returned, whether the recovery message was printed, and
  the responses stored.\<close>

definition spi_plr_custom_trans ::
    "'h fpga \<Rightarrow> spiplr_instance \<Rightarrow> u32 list \<Rightarrow> 'h \<Rightarrow> (int \<times> bool \<times> u32 list) \<times> 'h" where
  "spi_plr_custom_trans hw i inb h =
     (let n = length inb in
      if SPIPLR_CR_MAX_TRANS < n then ((- 1, False, []), h)
      else
        let h = write_vector hw (plr_base i + SPIPLR_CR_REQ_OFF) 0 inb h;
            h = write_vector hw (plr_base i + SPIPLR_CR_REQ_OFF) n (replicate (SPIPLR_CR_MAX_TRANS - n) 0) h;
            h = out32 hw (plr_base i + SPIPLR_CNT_OFF) SPIPLR_CNT_CR_START h;
            (rdy, h) = cr_wait hw i 32000 h;
            h = snd (spiplr_reset_status hw i h);
            (outb, h) = read_vector hw (plr_base i + SPIPLR_CR_RESP_OFF) 0 n h
        in ((0, \<not> rdy, outb), h))"

definition spi_plr_get_irq_counter :: "'h fpga \<Rightarrow> spiplr_instance \<Rightarrow> 'h \<Rightarrow> u32 \<times> 'h" where
  "spi_plr_get_irq_counter hw i h = in32 hw (plr_base i + SPIPLR_IRQ_COUNTER_OFF) h"

definition spi_plr_get_irq_proc_time :: "'h fpga \<Rightarrow> spiplr_instance \<Rightarrow> 'h \<Rightarrow> u32 \<times> 'h" where
  "spi_plr_get_irq_proc_time hw i h = in32 hw (plr_base i + SPIPLR_IRQ_PROC_TIME_OFF) h"

definition spi_plr_get_poll_cycle_time :: "'h fpga \<Rightarrow> spiplr_instance \<Rightarrow> 'h \<Rightarrow> u32 \<times> 'h" where
  "spi_plr_get_poll_cycle_time hw i h = in32 hw (plr_base i + SPIPLR_POLL_CYCLE_TIME_OFF) h"

section \<open>The contract of the logic\<close>

text \<open>What can be seen of the logic: the request and response registers, how many more status reads find the transaction
  running, the devices on the lines, and how these answer the requests of a transaction.\<close>

record ('h, 'd) plr_view =
  pv_req :: "'h \<Rightarrow> u32 list"
  pv_resp :: "'h \<Rightarrow> u32 list"
  pv_busy :: "'h \<Rightarrow> nat"
  pv_line :: "'h \<Rightarrow> 'd"
  pv_exchange :: "u32 list \<Rightarrow> 'd \<Rightarrow> u32 list \<times> 'd"

text \<open>The registers of spiplr.h at the base address \<open>b\<close>: a request register holds what is written to it; the start bit
  runs the transaction, which takes at most \<open>limit\<close> status reads; the status and the responses are read
  back without effect on the lines. The header documents two triggers, the start bit (\<open>SPIPLR_CNT_CR_START\<close>, custom transaction start) and the write of
  a request register (the comment at \<open>SPIPLR_CR_REQ_OFF\<close>); the driver fills all sixteen registers and then writes the start
  bit, and the contract follows the driver.\<close>

definition plr_engine :: "'h fpga \<Rightarrow> nat \<Rightarrow> ('h, 'd) plr_view \<Rightarrow> nat \<Rightarrow> bool" where
  "plr_engine hw b v limit \<longleftrightarrow>
     (\<forall>h. length (pv_req v h) = SPIPLR_CR_MAX_TRANS) \<and>
     (\<forall>rq d. length (fst (pv_exchange v rq d)) = SPIPLR_CR_MAX_TRANS) \<and>
     (\<forall>h k w. k < SPIPLR_CR_MAX_TRANS \<longrightarrow>
        (let h' = out32 hw (b + SPIPLR_CR_REQ_OFF + 4 * k) w h
         in pv_req v h' = (pv_req v h)[k := w] \<and> pv_line v h' = pv_line v h)) \<and>
     (\<forall>h. let h' = out32 hw (b + SPIPLR_CNT_OFF) SPIPLR_CNT_CR_START h
          in (pv_resp v h', pv_line v h') = pv_exchange v (pv_req v h) (pv_line v h) \<and> pv_busy v h' \<le> limit) \<and>
     (\<forall>h. (fst (in32 hw (b + SPIPLR_STAT_OFF) h) AND SPIPLR_STAT_CR_RDY \<noteq> 0 \<longleftrightarrow> pv_busy v h = 0) \<and>
        (let h' = snd (in32 hw (b + SPIPLR_STAT_OFF) h)
         in pv_busy v h' = pv_busy v h - 1 \<and> pv_resp v h' = pv_resp v h \<and> pv_line v h' = pv_line v h)) \<and>
     (\<forall>h. let h' = out32 hw (b + SPIPLR_STAT_OFF) 0 h in pv_resp v h' = pv_resp v h \<and> pv_line v h' = pv_line v h) \<and>
     (\<forall>h k. k < SPIPLR_CR_MAX_TRANS \<longrightarrow>
        fst (in32 hw (b + SPIPLR_CR_RESP_OFF + 4 * k) h) = pv_resp v h ! k \<and>
        (let h' = snd (in32 hw (b + SPIPLR_CR_RESP_OFF + 4 * k) h)
         in pv_resp v h' = pv_resp v h \<and> pv_line v h' = pv_line v h))"

lemma plr_engine_lengths:
  assumes "plr_engine hw b v limit"
  shows "length (pv_req v h) = 16" and "length (fst (pv_exchange v rq d)) = 16"
  using assms by (simp_all add: plr_engine_def SPIPLR_CR_MAX_TRANS_def)

lemma plr_engine_request:
  assumes "plr_engine hw b v limit" and "k < 16"
  shows "pv_req v (out32 hw (b + SPIPLR_CR_REQ_OFF + 4 * k) w h) = (pv_req v h)[k := w]"
    and "pv_line v (out32 hw (b + SPIPLR_CR_REQ_OFF + 4 * k) w h) = pv_line v h"
  using assms by (simp_all add: plr_engine_def SPIPLR_CR_MAX_TRANS_def Let_def)

lemma plr_engine_start:
  assumes "plr_engine hw b v limit"
  shows "pv_resp v (out32 hw (b + SPIPLR_CNT_OFF) SPIPLR_CNT_CR_START h) = fst (pv_exchange v (pv_req v h) (pv_line v h))"
    and "pv_line v (out32 hw (b + SPIPLR_CNT_OFF) SPIPLR_CNT_CR_START h) = snd (pv_exchange v (pv_req v h) (pv_line v h))"
    and "pv_busy v (out32 hw (b + SPIPLR_CNT_OFF) SPIPLR_CNT_CR_START h) \<le> limit"
  using assms unfolding plr_engine_def Let_def by (metis fst_conv, metis snd_conv, blast)

lemma plr_engine_status:
  assumes "plr_engine hw b v limit" and "in32 hw (b + SPIPLR_STAT_OFF) h = (st, h')"
  shows "(st AND SPIPLR_STAT_CR_RDY \<noteq> 0) = (pv_busy v h = 0)" and "pv_busy v h' = pv_busy v h - 1"
    and "pv_resp v h' = pv_resp v h" and "pv_line v h' = pv_line v h"
  using assms unfolding plr_engine_def Let_def by (metis fst_conv snd_conv)+

lemma plr_engine_clear:
  assumes "plr_engine hw b v limit"
  shows "pv_resp v (out32 hw (b + SPIPLR_STAT_OFF) 0 h) = pv_resp v h"
    and "pv_line v (out32 hw (b + SPIPLR_STAT_OFF) 0 h) = pv_line v h"
  using assms unfolding plr_engine_def Let_def by blast+

lemma plr_engine_response:
  assumes "plr_engine hw b v limit" and "k < 16" and "in32 hw (b + SPIPLR_CR_RESP_OFF + 4 * k) h = (w, h')"
  shows "w = pv_resp v h ! k" and "pv_resp v h' = pv_resp v h" and "pv_line v h' = pv_line v h"
proof -
  have "fst (in32 hw (b + SPIPLR_CR_RESP_OFF + 4 * k) h) = pv_resp v h ! k \<and>
      pv_resp v (snd (in32 hw (b + SPIPLR_CR_RESP_OFF + 4 * k) h)) = pv_resp v h \<and>
      pv_line v (snd (in32 hw (b + SPIPLR_CR_RESP_OFF + 4 * k) h)) = pv_line v h"
    using assms(1,2) unfolding plr_engine_def SPIPLR_CR_MAX_TRANS_def Let_def by blast
  then show "w = pv_resp v h ! k" and "pv_resp v h' = pv_resp v h" and "pv_line v h' = pv_line v h"
    using assms(3) by simp_all
qed

section \<open>The loops over the registers\<close>

lemma write_vector_requests:
  assumes "plr_engine hw b v limit" and "j + length ws \<le> 16"
  shows "pv_req v (write_vector hw (b + SPIPLR_CR_REQ_OFF) j ws h) =
           take j (pv_req v h) @ ws @ drop (j + length ws) (pv_req v h) \<and>
         pv_line v (write_vector hw (b + SPIPLR_CR_REQ_OFF) j ws h) = pv_line v h"
  using assms(2)
proof (induction ws arbitrary: j h)
  case (Cons w ws)
  have j: "j < length (pv_req v h)"
    using Cons.prems plr_engine_lengths(1) [OF assms(1)] by simp
  then have "take (Suc j) ((pv_req v h)[j := w]) = take j (pv_req v h) @ [w]"
    by (simp add: take_Suc_conv_app_nth)
  then show ?case
    using Cons.IH [of "Suc j" "out32 hw (b + SPIPLR_CR_REQ_OFF + 4 * j) w h"] Cons.prems
      plr_engine_request [OF assms(1), of j w h] by simp
qed (simp add: assms)

lemma read_vector_responses:
  assumes "plr_engine hw b v limit" and "j + n \<le> 16" and "read_vector hw (b + SPIPLR_CR_RESP_OFF) j n h = (ws, h')"
  shows "ws = map ((!) (pv_resp v h)) [j..<j + n] \<and> pv_line v h' = pv_line v h"
  using assms(2,3)
proof (induction n arbitrary: j h ws)
  case (Suc n)
  obtain w h1 where w: "in32 hw (b + SPIPLR_CR_RESP_OFF + 4 * j) h = (w, h1)"
    by fastforce
  obtain us where us: "read_vector hw (b + SPIPLR_CR_RESP_OFF) (Suc j) n h1 = (us, h')" and "ws = w # us"
    using Suc.prems(2) w by (auto split: prod.splits)
  then show ?case
    using Suc.IH [OF _ us] Suc.prems(1) plr_engine_response [OF assms(1) _ w] by (simp add: upt_conv_Cons del: upt_Suc)
qed simp

lemma cr_wait_ready:
  assumes "plr_engine hw (plr_base i) v limit" and "pv_busy v h \<le> j"
  shows "\<exists>h'. cr_wait hw i j h = (True, h') \<and> pv_resp v h' = pv_resp v h \<and> pv_line v h' = pv_line v h"
  using assms(2)
proof (induction j arbitrary: h)
  case 0
  then show ?case
    using plr_engine_status [OF assms(1), of h]
    by (cases "in32 hw (plr_base i + SPIPLR_STAT_OFF) h") (simp add: cr_wait.simps)
next
  case (Suc j)
  obtain st h1 where st: "in32 hw (plr_base i + SPIPLR_STAT_OFF) h = (st, h1)"
    by fastforce
  note s = plr_engine_status [OF assms(1) st]
  show ?case
    using Suc.IH [of h1] Suc.prems s st by (cases "pv_busy v h = 0") (simp_all add: cr_wait.simps [of hw i "Suc j" h])
qed

lemma cr_wait_dead:
  assumes "\<forall>h. fst (in32 hw (plr_base i + SPIPLR_STAT_OFF) h) AND SPIPLR_STAT_CR_RDY = 0"
  shows "fst (cr_wait hw i j h) = False"
proof (induction j arbitrary: h)
  case 0
  then show ?case
    using assms spec [OF assms, of h] by (cases "in32 hw (plr_base i + SPIPLR_STAT_OFF) h") (simp add: cr_wait.simps)
next
  case (Suc j)
  then show ?case
    using spec [OF assms, of h] by (cases "in32 hw (plr_base i + SPIPLR_STAT_OFF) h") (simp add: cr_wait.simps [of hw i "Suc j" h])
qed

section \<open>Custom transactions\<close>

lemma take_map_nth: "n \<le> length xs \<Longrightarrow> map ((!) xs) [0..<n] = take n xs"
  by (metis map_nth take_map take_upt add_0)

lemma custom_trans_exchange:
  assumes "plr_engine hw (plr_base i) v limit" and "limit \<le> 32000" and "length inb \<le> 16"
  shows "\<exists>h'. spi_plr_custom_trans hw i inb h =
              ((0, False, take (length inb) (fst (pv_exchange v (inb @ replicate (16 - length inb) 0) (pv_line v h)))), h') \<and>
           pv_line v h' = snd (pv_exchange v (inb @ replicate (16 - length inb) 0) (pv_line v h))"
proof -
  note e = assms(1)
  let ?rq = "inb @ replicate (16 - length inb) 0"
  let ?h1 = "write_vector hw (plr_base i + SPIPLR_CR_REQ_OFF) 0 inb h"
  let ?h2 = "write_vector hw (plr_base i + SPIPLR_CR_REQ_OFF) (length inb) (replicate (16 - length inb) 0) ?h1"
  let ?h3 = "out32 hw (plr_base i + SPIPLR_CNT_OFF) SPIPLR_CNT_CR_START ?h2"
  have 1: "pv_req v ?h1 = inb @ drop (length inb) (pv_req v h)" "pv_line v ?h1 = pv_line v h"
    using write_vector_requests [OF e, of 0 inb h] assms(3) by simp_all
  have 2: "pv_req v ?h2 = ?rq" "pv_line v ?h2 = pv_line v h"
    using write_vector_requests [OF e, of "length inb" "replicate (16 - length inb) 0" ?h1] assms(3)
      plr_engine_lengths(1) [OF e] by (simp_all add: 1)
  have "pv_busy v ?h3 \<le> 32000"
    using plr_engine_start(3) [OF e, of ?h2] assms(2) by linarith
  then obtain h4 where h4: "cr_wait hw i 32000 ?h3 = (True, h4)" "pv_resp v h4 = pv_resp v ?h3" "pv_line v h4 = pv_line v ?h3"
    using cr_wait_ready [OF e] by blast
  let ?h5 = "out32 hw (plr_base i + SPIPLR_STAT_OFF) 0 h4"
  obtain ws h6 where h6: "read_vector hw (plr_base i + SPIPLR_CR_RESP_OFF) 0 (length inb) ?h5 = (ws, h6)"
    by fastforce
  have "ws = take (length inb) (pv_resp v ?h5)" "pv_line v h6 = pv_line v ?h5"
    using read_vector_responses [OF e _ h6] assms(3) plr_engine_start(1) [OF e, of ?h2] plr_engine_clear(1) [OF e, of h4]
      plr_engine_lengths(2) [OF e] by (simp_all add: h4 take_map_nth)
  then have "ws = take (length inb) (fst (pv_exchange v ?rq (pv_line v h)))" "pv_line v h6 = snd (pv_exchange v ?rq (pv_line v h))"
    using plr_engine_start(1,2) [OF e, of ?h2] plr_engine_clear [OF e, of h4] by (simp_all add: h4 2)
  then show ?thesis
    using assms(3) h4(1) h6 by (simp add: spi_plr_custom_trans_def SPIPLR_CR_MAX_TRANS_def spiplr_reset_status_def Let_def)
qed

text \<open>A logic that never reports the end of the transaction: the wait ends after 32001 status reads, and the function returns 0,
  as for a transaction that was run, with whatever the response registers hold.\<close>

theorem custom_trans_hang_reports_success:
  assumes "\<forall>h. fst (in32 hw (plr_base i + SPIPLR_STAT_OFF) h) AND SPIPLR_STAT_CR_RDY = 0" and "length inb \<le> 16"
  shows "\<exists>outb h'. spi_plr_custom_trans hw i inb h = ((0, True, outb), h')"
proof -
  have "\<not> fst (cr_wait hw i 32000 g)" for g
    using cr_wait_dead [OF assms(1)] by simp
  then show ?thesis
    using assms(2) by (simp add: spi_plr_custom_trans_def SPIPLR_CR_MAX_TRANS_def Let_def split: prod.splits) (metis fst_conv)
qed

text \<open>The number of writes and reads: a vector is written and read at consecutive registers, and a request vector that is
  accepted leaves room for its terminating word.\<close>

lemma req_vector_set_bound:
  "fst (spiplr_req_vector_set hw i v h) = 0 \<longleftrightarrow> length v < 255"
  by (simp add: spiplr_req_vector_set_def SPIPLR_POLL_VECTOR_SIZE_def Let_def)

lemma read_vector_length: "length (fst (read_vector hw off j n h)) = n"
  by (induction n arbitrary: j h) (simp_all add: case_prod_beta Let_def)

text \<open>The period is what was asked for when it divides a second.\<close>

lemma set_period_exact:
  fixes period_us :: u32
  assumes "unat period_us dvd 1000000"
  shows "1000000 div period_us \<noteq> 0 \<and> unat (1000000 div period_us) * unat period_us = 1000000"
proof -
  have "unat (1000000 div period_us) = 1000000 div unat period_us"
    by (simp add: unat_div)
  moreover have "(1000000 div unat period_us) * unat period_us = 1000000"
    using assms by (rule dvd_div_mult_self)
  ultimately have *: "unat (1000000 div period_us) * unat period_us = 1000000"
    by (simp only:)
  then have "unat (1000000 div period_us) \<noteq> 0"
    by (metis mult_zero_left zero_neq_numeral)
  with * show ?thesis
    by (metis unsigned_0)
qed

section \<open>A logic that meets the contract\<close>

record 'd plr_sim =
  sim_req :: "nat \<Rightarrow> u32"
  sim_resp :: "u32 list"
  sim_busy :: nat
  sim_line :: 'd

definition sim_view :: "(u32 list \<Rightarrow> 'd \<Rightarrow> u32 list \<times> 'd) \<Rightarrow> ('d plr_sim, 'd) plr_view" where
  "sim_view xchg = \<lparr> pv_req = \<lambda>s. map (sim_req s) [0..<16], pv_resp = sim_resp, pv_busy = sim_busy,
     pv_line = sim_line, pv_exchange = xchg \<rparr>"

definition sim_out32 :: "(u32 list \<Rightarrow> 'd \<Rightarrow> u32 list \<times> 'd) \<Rightarrow> nat \<Rightarrow> nat \<Rightarrow> u32 \<Rightarrow> 'd plr_sim \<Rightarrow> 'd plr_sim" where
  "sim_out32 xchg latency addr w s =
     (if SPIPLR_CR_REQ_OFF \<le> addr then s \<lparr> sim_req := (sim_req s)((addr - SPIPLR_CR_REQ_OFF) div 4 := w) \<rparr>
      else if addr = SPIPLR_CNT_OFF \<and> w = SPIPLR_CNT_CR_START
      then (let (a, d) = xchg (map (sim_req s) [0..<16]) (sim_line s)
            in s \<lparr> sim_resp := a, sim_line := d, sim_busy := latency \<rparr>)
      else s)"

definition sim_in32 :: "nat \<Rightarrow> 'd plr_sim \<Rightarrow> u32 \<times> 'd plr_sim" where
  "sim_in32 addr s =
     (if SPIPLR_CR_RESP_OFF \<le> addr then (sim_resp s ! ((addr - SPIPLR_CR_RESP_OFF) div 4), s)
      else if addr = SPIPLR_STAT_OFF
      then (if sim_busy s = 0 then SPIPLR_STAT_CR_RDY else 0, s \<lparr> sim_busy := sim_busy s - 1 \<rparr>)
      else (0, s))"

definition sim_fpga :: "(u32 list \<Rightarrow> 'd \<Rightarrow> u32 list \<times> 'd) \<Rightarrow> nat \<Rightarrow> 'd plr_sim fpga" where
  "sim_fpga xchg latency = \<lparr> out32 = sim_out32 xchg latency, in32 = sim_in32 \<rparr>"

lemma sim_engine:
  assumes "\<And>rq d. length (fst (xchg rq d)) = 16"
  shows "plr_engine (sim_fpga xchg latency) 0 (sim_view xchg) latency"
proof -
  have "map (f(k := w)) [0..<16] = (map f [0..<16])[k := w]" for f :: "nat \<Rightarrow> u32" and k w
    by (rule nth_equalityI) (auto simp: nth_update_if)
  then show ?thesis
    using assms
    by (simp add: plr_engine_def sim_fpga_def sim_view_def sim_out32_def sim_in32_def SPIPLR_CR_MAX_TRANS_def
        SPIPLR_CR_REQ_OFF_def SPIPLR_CNT_OFF_def SPIPLR_CNT_CR_START_def SPIPLR_STAT_OFF_def SPIPLR_CR_RESP_OFF_def
        SPIPLR_STAT_CR_RDY_def Let_def split: prod.split)
qed

theorem custom_trans_hang_reports_success_witness:
  "\<exists>outb h'. spi_plr_custom_trans \<lparr> out32 = \<lambda>_ _ h. h, in32 = \<lambda>_ h. (0, h) \<rparr> \<lparr> plr_base = 0, phys_base = 0 \<rparr> [1, 2] ()
     = ((0, True, outb), h')"
  by (rule custom_trans_hang_reports_success) simp_all

end
