(* ===== verification/SpiPdc.thy ===== *)
theory SpiPdc
  imports SpiPlr
begin

text \<open>
  Requests to the devices of the control station board and their answers: the packing macros of bsp/ics/ctlst/spi_pdc.h,
  the one ctlst_periph.h puts in place of the first, and \<open>fcnav_spi_trans\<close>, through which all
  drivers reach the poller.
\<close>

section \<open>Packing\<close>

text \<open>\<open>SPI_PDC_TRANSMISSION\<close> is defined twice: for the controller of an earlier board (spi_pdc.h), and for the poller
  (ctlst_periph.h). The files ctlst_periph.c and ctlst_nav.c use the second, adxrs450.c and ad7190.c the first. The arguments: the
  end of the transfer, the device, the data.\<close>

type_synonym packing = "u32 \<Rightarrow> u32 \<Rightarrow> u32 \<Rightarrow> u32"

definition SPI_PDC_TRANSMISSION_old :: packing where
  "SPI_PDC_TRANSMISSION_old lst cs w = push_bit 24 (lst AND 1) OR push_bit 16 (cs AND 0x0F) OR (w AND 0xFFFF)"

definition SPI_PDC_TRANSMISSION :: packing where
  "SPI_PDC_TRANSMISSION lst cs w = SPIPLR_COMPOSE_REQ cs w (if lst = 0 then 1 else 0)"

definition SPI_PDC_TRANS_WORD :: "packing \<Rightarrow> u32 \<Rightarrow> u32 \<Rightarrow> u32" where
  "SPI_PDC_TRANS_WORD tr cs w = tr 1 cs w"

definition SPI_PDC_TRANS_BYTE :: "packing \<Rightarrow> u32 \<Rightarrow> u32 \<Rightarrow> u32" where
  "SPI_PDC_TRANS_BYTE tr cs w = tr 1 cs (w AND 0x00FF)"

text \<open>The data is an int with its top bit set, so the shift to the right fills with ones.\<close>

definition SPI_PDC_TRANS_DWORD :: "packing \<Rightarrow> u32 \<Rightarrow> u32 \<Rightarrow> u64" where
  "SPI_PDC_TRANS_DWORD tr cs w =
     push_bit 32 (ucast (tr 1 cs (w AND 0x0000FFFF))) OR ucast (tr 0 cs (signed_drop_bit 16 w))"

definition SPI_PDC_TRANS_DUMMY :: "packing \<Rightarrow> u32 \<Rightarrow> u32" where
  "SPI_PDC_TRANS_DUMMY tr cs = SPI_PDC_TRANS_WORD tr cs 0x0000"

definition SPI_PDC_EXTRACT_BYTE :: "u32 \<Rightarrow> u8" where
  "SPI_PDC_EXTRACT_BYTE w = ucast (w AND 0x000000FF)"

definition SPI_PDC_EXTRACT_WORD :: "u32 \<Rightarrow> u16" where
  "SPI_PDC_EXTRACT_WORD w = ucast (w AND 0x0000FFFF)"

definition SPI_PDC_EXTRACT_DWORD :: "u64 \<Rightarrow> u32" where
  "SPI_PDC_EXTRACT_DWORD w = ucast (drop_bit 32 (w AND 0x0000FFFF00000000)) OR ucast (push_bit 16 (w AND 0x000000000000FFFF))"

text \<open>A 64 bit field in a buffer that is sent as 32 bit words: the low word comes first.\<close>

definition dword_words :: "u64 \<Rightarrow> u32 list" where
  "dword_words w = [ucast w, ucast (drop_bit 32 w)]"

definition words_dword :: "u32 \<Rightarrow> u32 \<Rightarrow> u64" where
  "words_dword lo hi = push_bit 32 (ucast hi) OR ucast lo"

definition fcnav_spi_trans ::
    "'h fpga \<Rightarrow> spiplr_instance \<Rightarrow> u32 list \<Rightarrow> 'h \<Rightarrow> (int \<times> bool \<times> u32 list) \<times> 'h" where
  "fcnav_spi_trans hw i inb h = spi_plr_custom_trans hw i inb h"

section \<open>Facts about the packing\<close>

lemma masks: "(0xFFFF :: 'a::len word) = mask 16" "(0xFF :: 'a word) = mask 8" "(0xFFFFFF :: 'a word) = mask 24"
    "(0x3F :: 'a word) = mask 6" "(0xF :: 'a word) = mask 4" "(1 :: 'a word) = mask 1"
  by (simp_all add: mask_eq_exp_minus_1)

lemmas plr_pack_defs = SPI_PDC_TRANSMISSION_def SPIPLR_COMPOSE_REQ_def SPIPLR_DEVN_MASK_def SPIPLR_DATA_MASK_def
  SPIPLR_RESP_EXTRACT_DEV_ID_def

lemma plr_pack_data: "SPI_PDC_TRANSMISSION lst cs w AND 0xFFFF = w AND 0xFFFF"
  unfolding plr_pack_defs masks by (rule bit_word_eqI) (auto simp: bit_simps)

lemma plr_pack_device: "SPIPLR_RESP_EXTRACT_DEV_ID (SPI_PDC_TRANSMISSION lst cs w) = cs AND 0x3F"
  unfolding plr_pack_defs masks by (rule bit_word_eqI) (auto simp: bit_simps)

lemma plr_pack_last: "bit (SPI_PDC_TRANSMISSION lst cs w) 30 \<longleftrightarrow> lst = 0"
  unfolding plr_pack_defs masks by (auto simp: bit_simps)

lemma dword_words_join: "dword_words (push_bit 32 (ucast hi) OR ucast lo) = [lo, hi]" for lo hi :: u32
proof -
  have beyond: "\<not> bit (x :: u32) (32 + n)" for x n
    using bit_imp_le_length [of x "32 + n"] by auto
  show ?thesis
    unfolding dword_words_def by (auto intro!: bit_word_eqI simp: bit_simps beyond)
qed

lemma dword_words_TRANS: "dword_words (SPI_PDC_TRANS_DWORD tr cs w) = [tr 0 cs (signed_drop_bit 16 w), tr 1 cs (w AND 0xFFFF)]"
  unfolding SPI_PDC_TRANS_DWORD_def by (rule dword_words_join)

lemma signed_drop_low: "signed_drop_bit 16 w AND 0xFFFF = drop_bit 16 w" for w :: u32
  unfolding masks by (rule bit_word_eqI) (auto simp: bit_simps dest: bit_imp_le_length)

lemma EXTRACT_words: "SPI_PDC_EXTRACT_DWORD (words_dword lo hi) = push_bit 16 (lo AND 0xFFFF) OR (hi AND 0xFFFF)"
proof -
  have m: "(0x0000FFFF00000000 :: u64) = push_bit 32 (mask 16)" "(0x000000000000FFFF :: u64) = mask 16"
    by (simp_all add: mask_eq_exp_minus_1)
  show ?thesis
    unfolding SPI_PDC_EXTRACT_DWORD_def words_dword_def m masks
    by (intro bit_word_eqI) (auto simp: bit_simps dest: bit_imp_le_length)
qed

lemma halves_join: "push_bit 16 (drop_bit 16 w) OR (w AND 0xFFFF) = w" for w :: u32
  unfolding masks by (rule bit_word_eqI) (auto simp: bit_simps)

text \<open>What is packed for a device comes back unchanged when the device echoes it.\<close>

lemma TRANS_EXTRACT: "SPI_PDC_EXTRACT_DWORD (SPI_PDC_TRANS_DWORD SPI_PDC_TRANSMISSION cs w) = w"
proof -
  have "w' = words_dword (ucast w') (ucast (drop_bit 32 w'))" for w' :: u64
    unfolding words_dword_def by (rule bit_word_eqI) (auto simp: bit_simps)
  then have "SPI_PDC_TRANS_DWORD SPI_PDC_TRANSMISSION cs w = words_dword (SPI_PDC_TRANSMISSION 0 cs (signed_drop_bit 16 w)) (SPI_PDC_TRANSMISSION 1 cs (w AND 0xFFFF))"
    using dword_words_TRANS [of SPI_PDC_TRANSMISSION cs w] unfolding dword_words_def by (metis list.inject)
  then show ?thesis
    by (simp add: EXTRACT_words plr_pack_data signed_drop_low halves_join)
qed

text \<open>The packing of spi_pdc.h on the poller: the bits where it expects the device hold the end mark, so every request goes to
  device 1 or ends the vector, whatever device was meant.\<close>

theorem old_packing_device:
  "SPIPLR_RESP_EXTRACT_DEV_ID (SPI_PDC_TRANSMISSION_old lst cs w) = lst AND 1"
  unfolding SPI_PDC_TRANSMISSION_old_def SPIPLR_RESP_EXTRACT_DEV_ID_def SPIPLR_DEVN_MASK_def masks
  by (rule bit_word_eqI) (auto simp: bit_simps)

end
