(* ===== verification/Adxrs450.thy ===== *)
theory Adxrs450
  imports SpiPdc
begin

text \<open>
  The gyroscopes ADXRS450 of the control station board: bsp/ics/ctlst/ctlst_periph.c (the functions \<open>fc_dxrs450_\<close>) and
  its older copy adxrs450.c with adxrs450.h. A device answers a request in the exchange that follows it. The two
  copies differ in how they pack and exchange a request; the rest is written once, over the exchange \<open>ia\<close> and
  the packing \<open>tr\<close> of the file, and put to use for each. Delays and printed texts are left out.
\<close>

section \<open>Parity\<close>

definition adxrs450_parity_calc_32 :: "u32 \<Rightarrow> u32" where
  "adxrs450_parity_calc_32 d =
     (let p = fold (\<lambda>i p. p XOR (drop_bit i d AND 0x01)) [2..<32] (drop_bit 1 d AND 1) in if p = 1 then 0 else 1)"

definition adxrs450_parity_check_32 :: "u32 \<Rightarrow> errno" where
  "adxrs450_parity_check_32 d = (if adxrs450_parity_calc_32 d XOR (d AND 1) = 0 then EOK else EBADMSG)"

section \<open>Requests and answers (adxrs450.h)\<close>

definition ADXRS450_OUTPUT_CST_PLL :: u32 where "ADXRS450_OUTPUT_CST_PLL = 0x80"
definition ADXRS450_OUTPUT_CST_Q :: u32 where "ADXRS450_OUTPUT_CST_Q = 0x40"
definition ADXRS450_OUTPUT_CST_NVM :: u32 where "ADXRS450_OUTPUT_CST_NVM = 0x20"
definition ADXRS450_OUTPUT_CST_POR :: u32 where "ADXRS450_OUTPUT_CST_POR = 0x10"
definition ADXRS450_OUTPUT_CST_PWR :: u32 where "ADXRS450_OUTPUT_CST_PWR = 0x08"
definition ADXRS450_OUTPUT_CST_CST :: u32 where "ADXRS450_OUTPUT_CST_CST = 0x04"
definition ADXRS450_OUTPUT_CST_BIT_MASK :: u32 where
  "ADXRS450_OUTPUT_CST_BIT_MASK =
     ADXRS450_OUTPUT_CST_PLL OR ADXRS450_OUTPUT_CST_Q OR ADXRS450_OUTPUT_CST_NVM OR ADXRS450_OUTPUT_CST_POR OR
     ADXRS450_OUTPUT_CST_PWR OR ADXRS450_OUTPUT_CST_CST"
definition ADXRS450_OUTPUT_GET_ST_SELFTEST :: u32 where "ADXRS450_OUTPUT_GET_ST_SELFTEST = 2"
definition ADXRS450_OUTPUT_GET_ST_DATA :: u32 where "ADXRS450_OUTPUT_GET_ST_DATA = 1"
definition ADXRS450_REG_ADDRESS_TEM :: u32 where "ADXRS450_REG_ADDRESS_TEM = 0x02"
definition ADXRS450_REG_ADDRESS_FAULT :: u32 where "ADXRS450_REG_ADDRESS_FAULT = 0x0A"
definition ADXRS450_REG_ADDRESS_SNH :: u32 where "ADXRS450_REG_ADDRESS_SNH = 0x0E"
definition ADXRS450_REG_ADDRESS_SNL :: u32 where "ADXRS450_REG_ADDRESS_SNL = 0x10"

definition ADXRS450_OUTPUT_GET_ST_BITS :: "u32 \<Rightarrow> u32" where
  "ADXRS450_OUTPUT_GET_ST_BITS v = drop_bit 26 v AND 0x3"

definition ADXRS450_REG_ACCESS :: "packing \<Rightarrow> u32 \<Rightarrow> u32 \<Rightarrow> u64" where
  "ADXRS450_REG_ACCESS tr cs d = SPI_PDC_TRANS_DWORD tr cs (d OR adxrs450_parity_calc_32 d)"

definition ADXRS450_REG_READ :: "packing \<Rightarrow> u32 \<Rightarrow> u32 \<Rightarrow> u64" where
  "ADXRS450_REG_READ tr cs addr = ADXRS450_REG_ACCESS tr cs (push_bit 31 1 OR push_bit 17 (addr AND 0x1FF))"

definition ADXRS450_REG_WRITE :: "packing \<Rightarrow> u32 \<Rightarrow> u32 \<Rightarrow> u32 \<Rightarrow> u64" where
  "ADXRS450_REG_WRITE tr cs addr dat =
     ADXRS450_REG_ACCESS tr cs (push_bit 30 1 OR push_bit 17 (addr AND 0x1FF) OR (dat AND 0xFFFF))"

definition ADXRS450_REG_VALUE :: "u32 \<Rightarrow> u32" where
  "ADXRS450_REG_VALUE d = drop_bit 5 d AND 0xFFFF"

definition ADXRS450_READ_OUTPUT_seq :: "packing \<Rightarrow> u32 \<Rightarrow> u32 \<Rightarrow> u32 \<Rightarrow> u64" where
  "ADXRS450_READ_OUTPUT_seq tr cs sq chk =
     (let sq2 = drop_bit 2 sq AND 0x01; sq1 = drop_bit 1 sq AND 0x01; sq0 = sq AND 0x01;
          d = push_bit 28 sq2 OR push_bit 30 sq0 OR push_bit 31 sq1 OR push_bit 29 1 OR push_bit 1 (chk AND 0x01)
      in SPI_PDC_TRANS_DWORD tr cs (d OR adxrs450_parity_calc_32 d))"

definition ADXRS450_READ_OUTPUT :: "packing \<Rightarrow> u32 \<Rightarrow> u32 \<Rightarrow> u64" where
  "ADXRS450_READ_OUTPUT tr cs sq = ADXRS450_READ_OUTPUT_seq tr cs sq 0"

definition ADXRS450_READ_OUTPUT_CHK :: "packing \<Rightarrow> u32 \<Rightarrow> u32 \<Rightarrow> u64" where
  "ADXRS450_READ_OUTPUT_CHK tr cs sq = ADXRS450_READ_OUTPUT_seq tr cs sq 1"

section \<open>One exchange\<close>

type_synonym 'h exchange = "u64 \<Rightarrow> 'h \<Rightarrow> u32 res \<times> 'h"

text \<open>The result of the transaction is not looked at. The buffer of ctlst_periph.c has the request and a read of the
  temperature register, the one of adxrs450.c a word for a dummy device after each.\<close>

definition fc_dxrs450_interact :: "'h fpga \<Rightarrow> spiplr_instance \<Rightarrow> u32 \<Rightarrow> 'h exchange" where
  "fc_dxrs450_interact hw i cs req h =
     (let tx = dword_words req @ dword_words (ADXRS450_REG_READ SPI_PDC_TRANSMISSION cs ADXRS450_REG_ADDRESS_TEM);
          ((_, _, rx), h) = fcnav_spi_trans hw i tx h;
          tresp = SPI_PDC_EXTRACT_DWORD (words_dword (rx ! 2) (rx ! 3))
      in if adxrs450_parity_check_32 tresp \<noteq> EOK then (Inl EIO, h) else (Inr tresp, h))"

definition adxrs450_interact :: "'h fpga \<Rightarrow> spiplr_instance \<Rightarrow> u32 \<Rightarrow> u32 \<Rightarrow> 'h exchange" where
  "adxrs450_interact hw i cs dummy_cs req h =
     (let dummy = SPI_PDC_TRANS_DUMMY SPI_PDC_TRANSMISSION_old dummy_cs;
          tx = dword_words req @ [dummy] @
               dword_words (ADXRS450_REG_READ SPI_PDC_TRANSMISSION_old cs ADXRS450_REG_ADDRESS_TEM) @ [dummy];
          ((_, _, rx), h) = fcnav_spi_trans hw i tx h;
          tresp = SPI_PDC_EXTRACT_DWORD (words_dword (rx ! 3) (rx ! 4))
      in if adxrs450_parity_check_32 tresp \<noteq> EOK then (Inl EIO, h) else (Inr tresp, h))"

section \<open>Registers, self test, diagnosis\<close>

definition gyro_read_register :: "'h exchange \<Rightarrow> packing \<Rightarrow> u32 \<Rightarrow> u32 \<Rightarrow> 'h \<Rightarrow> u16 res \<times> 'h" where
  "gyro_read_register ia tr cs addr h =
     (case ia (ADXRS450_REG_READ tr cs addr) h of
        (Inl e, h) \<Rightarrow> (Inl e, h)
      | (Inr resp, h) \<Rightarrow> (Inr (ucast (ADXRS450_REG_VALUE resp)), h))"

definition ST_EN_MAX :: nat where "ST_EN_MAX = 5"

text \<open>A loop of the self test: it ends with the answer and the number of tries, the last one counted.\<close>

function gyro_tries :: "'h exchange \<Rightarrow> u64 \<Rightarrow> u32 \<Rightarrow> nat \<Rightarrow> 'h \<Rightarrow> (u32 \<times> nat) res \<times> 'h" where
  "gyro_tries ia req want en h =
     (case ia req h of
        (Inl e, h) \<Rightarrow> (Inl e, h)
      | (Inr out, h) \<Rightarrow>
          if ADXRS450_OUTPUT_GET_ST_BITS out \<noteq> want \<and> en + 1 < ST_EN_MAX then gyro_tries ia req want (en + 1) h
          else (Inr (out, en + 1), h))"
  by pat_completeness auto
termination
  by (relation "measure (\<lambda>(ia, req, want, en, h). ST_EN_MAX - en)") auto

declare gyro_tries.simps [simp del]

definition gyro_test_faults :: "'h exchange \<Rightarrow> packing \<Rightarrow> u32 \<Rightarrow> 'h \<Rightarrow> (u16 \<times> u16) res \<times> 'h" where
  "gyro_test_faults ia tr cs h =
     (case gyro_tries ia (ADXRS450_READ_OUTPUT_CHK tr cs 0) ADXRS450_OUTPUT_GET_ST_SELFTEST 0 h of
        (Inl e, h) \<Rightarrow> (Inl e, h)
      | (Inr (out_chk_asserted, en), h) \<Rightarrow>
          if ST_EN_MAX \<le> en then (Inl ETIME, h)
          else case gyro_tries ia (ADXRS450_READ_OUTPUT tr cs 0) ADXRS450_OUTPUT_GET_ST_DATA 0 h of
            (Inl e, h) \<Rightarrow> (Inl e, h)
          | (Inr (out_chk_not_asserted, en), h) \<Rightarrow>
              if ST_EN_MAX \<le> en then (Inl ETIME, h)
              else (Inr (ucast (out_chk_asserted AND ADXRS450_OUTPUT_CST_BIT_MASK),
                         ucast (out_chk_not_asserted AND ADXRS450_OUTPUT_CST_BIT_MASK)), h))"

definition gyro_diag_get_sn :: "'h exchange \<Rightarrow> packing \<Rightarrow> u32 \<Rightarrow> 'h \<Rightarrow> u32 res \<times> 'h" where
  "gyro_diag_get_sn ia tr cs h =
     (case gyro_read_register ia tr cs ADXRS450_REG_ADDRESS_SNH h of
        (Inl e, h) \<Rightarrow> (Inl e, h)
      | (Inr snh, h) \<Rightarrow>
          (case gyro_read_register ia tr cs ADXRS450_REG_ADDRESS_SNL h of
             (Inl e, h) \<Rightarrow> (Inl e, h)
           | (Inr snl, h) \<Rightarrow> (Inr (push_bit 16 (ucast snh) OR ucast snl), h)))"

record gyro_report =
  gr_sn :: u32
  gr_fault_reg :: u16
  gr_diag_res :: u32

text \<open>What the diagnosis has found so far stays in the report when it fails.\<close>

definition gyro_diag :: "'h exchange \<Rightarrow> packing \<Rightarrow> u32 \<Rightarrow> gyro_report \<Rightarrow> 'h \<Rightarrow> (errno \<times> gyro_report) \<times> 'h" where
  "gyro_diag ia tr cs r h =
     (case gyro_diag_get_sn ia tr cs h of
        (Inl e, h) \<Rightarrow> ((e, r), h)
      | (Inr sn, h) \<Rightarrow>
          (let r = r \<lparr> gr_sn := sn \<rparr> in
           case gyro_read_register ia tr cs ADXRS450_REG_ADDRESS_FAULT h of
             (Inl e, h) \<Rightarrow> ((e, r), h)
           | (Inr fault_reg, h) \<Rightarrow>
               (let r = r \<lparr> gr_fault_reg := fault_reg \<rparr> in
                case gyro_test_faults ia tr cs h of
                  (Inl e, h) \<Rightarrow> ((e, r), h)
                | (Inr (st_check_result, st_result), h) \<Rightarrow>
                    if st_check_result \<noteq> ucast ADXRS450_OUTPUT_CST_BIT_MASK \<or> st_result \<noteq> 0
                    then ((EFAULT, r \<lparr> gr_diag_res := push_bit 16 (ucast st_check_result) OR ucast st_result \<rparr>), h)
                    else ((EOK, r), h))))"

text \<open>The report is printed and dropped.\<close>

definition gyro_diag_and_report :: "'h exchange \<Rightarrow> packing \<Rightarrow> u32 \<Rightarrow> 'h \<Rightarrow> errno \<times> 'h" where
  "gyro_diag_and_report ia tr cs h =
     (let ((rv, r), h) = gyro_diag ia tr cs \<lparr> gr_sn = 0, gr_fault_reg = 0, gr_diag_res = 0 \<rparr> h in (rv, h))"

definition adxrs450_strerror :: "errno \<Rightarrow> string" where
  "adxrs450_strerror err =
     (if err = EIO then ''SPI interaction error''
      else if err = ETIME then ''selftest response timeout''
      else if err = EFAULT then ''hardware faults detected''
      else if err = EOK then ''no error''
      else ''unknown error'')"

section \<open>The two copies\<close>

definition fc_dxrs450_read_register :: "'h fpga \<Rightarrow> spiplr_instance \<Rightarrow> u32 \<Rightarrow> u32 \<Rightarrow> 'h \<Rightarrow> u16 res \<times> 'h" where
  "fc_dxrs450_read_register hw i cs = gyro_read_register (fc_dxrs450_interact hw i cs) SPI_PDC_TRANSMISSION cs"

definition fc_dxrs450_test_faults :: "'h fpga \<Rightarrow> spiplr_instance \<Rightarrow> u32 \<Rightarrow> 'h \<Rightarrow> (u16 \<times> u16) res \<times> 'h" where
  "fc_dxrs450_test_faults hw i cs = gyro_test_faults (fc_dxrs450_interact hw i cs) SPI_PDC_TRANSMISSION cs"

definition fc_dxrs450_diag_get_sn :: "'h fpga \<Rightarrow> spiplr_instance \<Rightarrow> u32 \<Rightarrow> 'h \<Rightarrow> u32 res \<times> 'h" where
  "fc_dxrs450_diag_get_sn hw i cs = gyro_diag_get_sn (fc_dxrs450_interact hw i cs) SPI_PDC_TRANSMISSION cs"

definition fc_dxrs450_diag ::
    "'h fpga \<Rightarrow> spiplr_instance \<Rightarrow> u32 \<Rightarrow> gyro_report \<Rightarrow> 'h \<Rightarrow> (errno \<times> gyro_report) \<times> 'h" where
  "fc_dxrs450_diag hw i cs = gyro_diag (fc_dxrs450_interact hw i cs) SPI_PDC_TRANSMISSION cs"

definition fc_dxrs450_diag_and_report :: "'h fpga \<Rightarrow> spiplr_instance \<Rightarrow> u32 \<Rightarrow> 'h \<Rightarrow> errno \<times> 'h" where
  "fc_dxrs450_diag_and_report hw i cs = gyro_diag_and_report (fc_dxrs450_interact hw i cs) SPI_PDC_TRANSMISSION cs"

definition adxrs450_read_register :: "'h fpga \<Rightarrow> spiplr_instance \<Rightarrow> u32 \<Rightarrow> u32 \<Rightarrow> u32 \<Rightarrow> 'h \<Rightarrow> u16 res \<times> 'h" where
  "adxrs450_read_register hw i cs dcs = gyro_read_register (adxrs450_interact hw i cs dcs) SPI_PDC_TRANSMISSION_old cs"

definition adxrs450_test_faults :: "'h fpga \<Rightarrow> spiplr_instance \<Rightarrow> u32 \<Rightarrow> u32 \<Rightarrow> 'h \<Rightarrow> (u16 \<times> u16) res \<times> 'h" where
  "adxrs450_test_faults hw i cs dcs = gyro_test_faults (adxrs450_interact hw i cs dcs) SPI_PDC_TRANSMISSION_old cs"

definition adxrs450_diag_get_sn :: "'h fpga \<Rightarrow> spiplr_instance \<Rightarrow> u32 \<Rightarrow> u32 \<Rightarrow> 'h \<Rightarrow> u32 res \<times> 'h" where
  "adxrs450_diag_get_sn hw i cs dcs = gyro_diag_get_sn (adxrs450_interact hw i cs dcs) SPI_PDC_TRANSMISSION_old cs"

definition adxrs450_diag ::
    "'h fpga \<Rightarrow> spiplr_instance \<Rightarrow> u32 \<Rightarrow> u32 \<Rightarrow> gyro_report \<Rightarrow> 'h \<Rightarrow> (errno \<times> gyro_report) \<times> 'h" where
  "adxrs450_diag hw i cs dcs = gyro_diag (adxrs450_interact hw i cs dcs) SPI_PDC_TRANSMISSION_old cs"

definition adxrs450_diag_and_report :: "'h fpga \<Rightarrow> spiplr_instance \<Rightarrow> u32 \<Rightarrow> u32 \<Rightarrow> 'h \<Rightarrow> errno \<times> 'h" where
  "adxrs450_diag_and_report hw i cs dcs = gyro_diag_and_report (adxrs450_interact hw i cs dcs) SPI_PDC_TRANSMISSION_old cs"

section \<open>The parity check\<close>

text \<open>The number of bits set.\<close>

definition ones :: "u32 \<Rightarrow> nat" where
  "ones w = length (filter (bit w) [0..<32])"

lemma parity_fold:
  "fold (\<lambda>i p. p XOR (drop_bit i d AND 0x01)) is (of_bool b) =
     (of_bool (b \<noteq> odd (length (filter (bit d) is))) :: u32)"
proof (induction "is" arbitrary: b)
  case (Cons i "is")
  have "drop_bit i d AND 1 = (of_bool (bit d i) :: u32)"
    by (rule bit_word_eqI) (auto simp: bit_simps)
  then have "(of_bool b :: u32) XOR (drop_bit i d AND 1) = of_bool (b \<noteq> bit d i)"
    by (cases b; cases "bit d i") simp_all
  then show ?case
    using Cons.IH [of "b \<noteq> bit d i"] by (cases "bit d i") simp_all
qed simp

lemma parity_calc_bits: "adxrs450_parity_calc_32 d = of_bool (even (length (filter (bit d) [1..<32])))"
proof -
  have "drop_bit 1 d AND 1 = (of_bool (bit d 1) :: u32)"
    by (rule bit_word_eqI) (auto simp: bit_simps)
  moreover have "[1..<32] = 1 # [2..<32 :: nat]"
    by (simp add: upt_rec)
  ultimately show ?thesis
    using parity_fold [of d "[2..<32]" "bit d 1"] by (simp add: adxrs450_parity_calc_32_def Let_def)
qed

lemma parity_check_ones: "adxrs450_parity_check_32 d = EOK \<longleftrightarrow> odd (ones d)"
proof -
  have "d AND 1 = (of_bool (bit d 0) :: u32)"
    by (rule bit_word_eqI) (auto simp: bit_simps)
  moreover have "[0..<32] = 0 # [1..<32 :: nat]"
    by (simp add: upt_rec)
  ultimately show ?thesis
    unfolding adxrs450_parity_check_32_def parity_calc_bits ones_def
    by (cases "bit d 0"; cases "even (length (filter (bit d) [1..<32]))") simp_all
qed

lemma even_xor_filter:
  "even (length (filter (bit (a XOR b)) is)) \<longleftrightarrow>
     (even (length (filter (bit a) is)) \<longleftrightarrow> even (length (filter (bit b) is)))" for a b :: u32
  by (induction "is") (auto simp: bit_simps)

lemma even_ones_xor: "even (ones (a XOR b)) \<longleftrightarrow> (even (ones a) \<longleftrightarrow> even (ones b))"
  by (simp add: ones_def even_xor_filter)

lemma ones_zero [simp]: "ones 0 = 0"
  by (simp add: ones_def)

text \<open>C39: The parity check of the gyroscopes' answers. Flip any set of bits of a word that passes the check: the
  result passes exactly when the number of flipped bits is even. So every odd number of transmission errors is
  detected, in the data bits as in the parity bit, and no even number is.\<close>

theorem gyro_parity_detects:
  assumes "adxrs450_parity_check_32 d = EOK"
  shows "adxrs450_parity_check_32 (d XOR e) = (if even (ones e) then EOK else EBADMSG)"
proof -
  have "adxrs450_parity_check_32 x \<in> {EOK, EBADMSG}" for x
    by (simp add: adxrs450_parity_check_32_def)
  then show ?thesis
    using assms parity_check_ones [of d] parity_check_ones [of "d XOR e"] even_ones_xor [of d e] by auto
qed

theorem gyro_parity_detects_witness:
  "adxrs450_parity_check_32 (0x4FF00000 XOR 0x100) = (if even (ones 0x100) then EOK else EBADMSG)"
  by (rule gyro_parity_detects) code_simp

lemma request_parity: "adxrs450_parity_check_32 (d OR adxrs450_parity_calc_32 d) = EOK" if "\<not> bit d 0"
proof -
  have r: "bit (d OR adxrs450_parity_calc_32 d) i \<longleftrightarrow> bit d i \<or> i = 0 \<and> even (length (filter (bit d) [1..<32]))" for i
    by (auto simp: parity_calc_bits bit_simps)
  have "filter (bit (d OR adxrs450_parity_calc_32 d)) [1..<32] = filter (bit d) [1..<32]"
    by (rule filter_cong) (auto simp: r)
  moreover have "[0..<32] = 0 # [1..<32 :: nat]"
    by (simp add: upt_rec)
  ultimately show ?thesis
    unfolding parity_check_ones ones_def using that by (simp add: r)
qed

section \<open>An exchange with a gyroscope\<close>

text \<open>The answer of a device on the lines. The transaction has two requests of 32 bits for it, each in two words that carry
  16 bits and the number of the device, the chip selected from the first to the second. The answer to the first
  request comes with the words of the second.\<close>

definition gyro_answers :: "(u32 list \<Rightarrow> 'd \<Rightarrow> u32 list \<times> 'd) \<Rightarrow> u32 \<Rightarrow> (u32 \<Rightarrow> 'd \<Rightarrow> u32) \<Rightarrow> bool" where
  "gyro_answers xchg cs reply \<longleftrightarrow>
     (\<forall>w0 w1 w2 w3 d.
        (\<forall>w \<in> {w0, w1, w2, w3}. SPIPLR_RESP_EXTRACT_DEV_ID w = cs) \<and>
        bit w0 30 \<and> \<not> bit w1 30 \<and> bit w2 30 \<and> \<not> bit w3 30 \<longrightarrow>
        (let rq = push_bit 16 (w0 AND 0xFFFF) OR (w1 AND 0xFFFF);
             a = fst (xchg ([w0, w1, w2, w3] @ replicate 12 0) d)
         in a ! 2 AND 0xFFFF = drop_bit 16 (reply rq d) \<and> a ! 3 AND 0xFFFF = reply rq d AND 0xFFFF))"

lemma gyro_answersD:
  assumes "gyro_answers xchg cs reply"
    and "\<forall>w \<in> {w0, w1, w2, w3}. SPIPLR_RESP_EXTRACT_DEV_ID w = cs"
    and "bit w0 30 \<and> \<not> bit w1 30 \<and> bit w2 30 \<and> \<not> bit w3 30"
    and "push_bit 16 (w0 AND 0xFFFF) OR (w1 AND 0xFFFF) = rq"
  shows "fst (xchg ([w0, w1, w2, w3] @ replicate 12 0) d) ! 2 AND 0xFFFF = drop_bit 16 (reply rq d)"
    and "fst (xchg ([w0, w1, w2, w3] @ replicate 12 0) d) ! 3 AND 0xFFFF = reply rq d AND 0xFFFF"
  using assms unfolding gyro_answers_def Let_def by blast+

lemma interact_reply:
  assumes "plr_engine hw (plr_base i) v limit" and "limit \<le> 32000"
    and "gyro_answers (pv_exchange v) cs reply" and "cs AND 0x3F = cs"
  shows "\<exists>h'. fc_dxrs450_interact hw i cs (SPI_PDC_TRANS_DWORD SPI_PDC_TRANSMISSION cs rq) h =
    (if adxrs450_parity_check_32 (reply rq (pv_line v h)) = EOK then Inr (reply rq (pv_line v h)) else Inl EIO, h')"
proof -
  let ?t = "SPI_PDC_TRANSMISSION"
  obtain tem where tem: "ADXRS450_REG_READ ?t cs ADXRS450_REG_ADDRESS_TEM = SPI_PDC_TRANS_DWORD ?t cs tem"
    unfolding ADXRS450_REG_READ_def ADXRS450_REG_ACCESS_def by blast
  let ?ws = "[?t 0 cs (signed_drop_bit 16 rq), ?t 1 cs (rq AND 0xFFFF), ?t 0 cs (signed_drop_bit 16 tem), ?t 1 cs (tem AND 0xFFFF)]"
  let ?a = "fst (pv_exchange v (?ws @ replicate 12 0) (pv_line v h))"
  have rq: "push_bit 16 (?t 0 cs (signed_drop_bit 16 rq) AND 0xFFFF) OR (?t 1 cs (rq AND 0xFFFF) AND 0xFFFF) = rq"
    by (simp add: plr_pack_data signed_drop_low halves_join and.assoc)
  have dev: "\<forall>w \<in> set ?ws. SPIPLR_RESP_EXTRACT_DEV_ID w = cs"
    by (simp add: plr_pack_device assms(4))
  have "?a ! 2 AND 0xFFFF = drop_bit 16 (reply rq (pv_line v h))" "?a ! 3 AND 0xFFFF = reply rq (pv_line v h) AND 0xFFFF"
    by (rule gyro_answersD [OF assms(3) _ _ rq]; simp add: dev [simplified] plr_pack_last)+
  then have x: "SPI_PDC_EXTRACT_DWORD (words_dword (?a ! 2) (?a ! 3)) = reply rq (pv_line v h)"
    by (simp add: EXTRACT_words halves_join)
  have n4: "length ?ws = 4" "(16 :: nat) - 4 = 12"
    by simp_all
  obtain h' where "fcnav_spi_trans hw i ?ws h = ((0, False, take 4 ?a), h')"
    using custom_trans_exchange [OF assms(1,2), of ?ws h] unfolding fcnav_spi_trans_def n4 by auto
  then show ?thesis
    using x by (simp add: fc_dxrs450_interact_def tem dword_words_TRANS)
qed

section \<open>Reading a register\<close>

text \<open>The request as the device gets it.\<close>

definition read_request :: "u32 \<Rightarrow> u32" where
  "read_request addr = (let d = push_bit 31 1 OR push_bit 17 (addr AND 0x1FF) in d OR adxrs450_parity_calc_32 d)"

lemma REG_READ_request: "ADXRS450_REG_READ tr cs addr = SPI_PDC_TRANS_DWORD tr cs (read_request addr)"
  by (simp add: ADXRS450_REG_READ_def ADXRS450_REG_ACCESS_def read_request_def Let_def)

lemma register_value_bits: "ucast (ADXRS450_REG_VALUE w) = (ucast (drop_bit 5 w) :: u16)"
  unfolding ADXRS450_REG_VALUE_def masks by (rule bit_word_eqI) (auto simp: bit_simps)

text \<open>C38: Reading a register of a gyroscope through the poller. The device, reached by its number on the lines of the logic, answers the
  request for the register with a word \<open>w\<close> whose number of bits set is odd, as the parity bit of the device makes it; nothing else is assumed of the
  word. \<open>e\<close> are the bits that are flipped on the way. The function always returns. It returns EIO when the number of flipped bits is odd; otherwise it returns
  the bits 5 to 20 of the word that has arrived, so the value the device sent when no bit is flipped. This rests on the
  contract of the logic, in which the start bit of the control register runs the transaction and the transaction takes at most 32000 reads of the
  status.\<close>

theorem gyro_register_read:
  assumes "plr_engine hw (plr_base i) v limit" and "limit \<le> 32000"
    and "gyro_answers (pv_exchange v) cs reply" and "cs AND 0x3F = cs"
    and "reply (read_request addr) (pv_line v h) = w XOR e" and "odd (ones w)"
  shows "\<exists>h'. fc_dxrs450_read_register hw i cs addr h =
           (if odd (ones e) then Inl EIO else Inr (ucast (drop_bit 5 (w XOR e))), h')"
proof -
  obtain h' where "fc_dxrs450_interact hw i cs (ADXRS450_REG_READ SPI_PDC_TRANSMISSION cs addr) h =
      (if adxrs450_parity_check_32 (w XOR e) = EOK then Inr (w XOR e) else Inl EIO, h')"
    using interact_reply [OF assms(1-4), of "read_request addr" h] assms(5) unfolding REG_READ_request by auto
  then show ?thesis
    using assms(6) parity_check_ones [of "w XOR e"] even_ones_xor [of w e]
    by (auto simp: fc_dxrs450_read_register_def gyro_read_register_def register_value_bits)
qed

text \<open>Lines with a device that answers every request with \<open>w\<close>.\<close>

definition one_answer :: "u32 \<Rightarrow> u32 list \<Rightarrow> unit \<Rightarrow> u32 list \<times> unit" where
  "one_answer w rq d = ([0, 0, drop_bit 16 w, w AND 0xFFFF] @ replicate 12 0, d)"

lemma one_answer_length: "length (fst (one_answer w rq d)) = 16"
  by (simp add: one_answer_def)

lemma one_answer_gyro: "gyro_answers (one_answer w) cs (\<lambda>_ _. w)"
proof -
  have "drop_bit 16 w AND 0xFFFF = drop_bit 16 w"
    unfolding masks by (rule bit_word_eqI) (auto simp: bit_simps dest: bit_imp_le_length)
  then show ?thesis
    by (simp add: gyro_answers_def one_answer_def Let_def)
qed

abbreviation sim_start :: "unit plr_sim" where
  "sim_start \<equiv> \<lparr> sim_req = \<lambda>_. 0, sim_resp = [], sim_busy = 0, sim_line = () \<rparr>"

text \<open>The answer of a read of the value 0x1234: status, parity of the upper half, fixed bits, value and parity. The fourth bit of the
  value is flipped, then that and the lowest one.\<close>

theorem gyro_register_read_witness:
  "(\<exists>h'. fc_dxrs450_read_register (sim_fpga (one_answer (0x4E024680 XOR 0x100)) 5) \<lparr> plr_base = 0, phys_base = 0 \<rparr> 2 0x0E sim_start = (Inl EIO, h')) \<and>
   (\<exists>h'. fc_dxrs450_read_register (sim_fpga (one_answer (0x4E024680 XOR 0x120)) 5) \<lparr> plr_base = 0, phys_base = 0 \<rparr> 2 0x0E sim_start = (Inr 0x123D, h')) \<and>
   (\<exists>h'. fc_dxrs450_read_register (sim_fpga (one_answer (0x4E024680 XOR 0)) 5) \<lparr> plr_base = 0, phys_base = 0 \<rparr> 2 0x0E sim_start = (Inr 0x1234, h'))"
proof -
  have engine: "plr_engine (sim_fpga (one_answer w) 5) (plr_base \<lparr> plr_base = 0, phys_base = 0 \<rparr>) (sim_view (one_answer w)) 5" for w
    using sim_engine [of "one_answer w" 5] one_answer_length by simp
  have gyro: "gyro_answers (pv_exchange (sim_view (one_answer w))) 2 (\<lambda>_ _. w)" for w
    by (simp add: sim_view_def one_answer_gyro)
  have odd: "odd (ones 0x4E024680)"
    by code_simp
  have read: "\<exists>h'. fc_dxrs450_read_register (sim_fpga (one_answer (0x4E024680 XOR e)) 5) \<lparr> plr_base = 0, phys_base = 0 \<rparr> 2 0x0E sim_start =
      (if odd (ones e) then Inl EIO else Inr (ucast (drop_bit 5 (0x4E024680 XOR e))), h')" for e
    by (rule gyro_register_read [OF engine _ gyro _ refl odd]) simp_all
  have e: "odd (ones 0x100)" "even (ones 0x120)"
    by code_simp+
  have v: "(40899133 :: u16) = 0x123D" "(40899124 :: u16) = 0x1234"
    by simp_all
  show ?thesis
    using read [of "0x100"] read [of "0x120"] read [of 0] e by (simp add: v)
qed

section \<open>The self test\<close>

lemma gyro_tries_sound:
  "gyro_tries ia req want en h = (Inr (out, n), h') \<Longrightarrow> en < ST_EN_MAX \<Longrightarrow>
     n \<le> ST_EN_MAX \<and> (\<exists>h1. ia req h1 = (Inr out, h')) \<and> (n < ST_EN_MAX \<longrightarrow> ADXRS450_OUTPUT_GET_ST_BITS out = want)"
proof (induction ia req want en h rule: gyro_tries.induct)
  case (1 ia req want en h)
  then show ?case
    by (auto simp: gyro_tries.simps [of ia req want en h] split: prod.splits sum.splits if_splits)
qed

text \<open>The self test of a gyroscope passes only on evidence. When it returns the two sets of flags, the last
  answer to a request with the check bit had the status bits of a self test, and the last answer to a request without it those of
  valid data; the flags are those of the two answers. This holds for any exchange, and so for both copies of the driver.\<close>

theorem gyro_test_sound:
  assumes "gyro_test_faults ia tr cs h = (Inr (st_check, st), h')"
  shows "\<exists>h1 h2 h3 asserted clear. ia (ADXRS450_READ_OUTPUT_CHK tr cs 0) h1 = (Inr asserted, h2) \<and>
           ADXRS450_OUTPUT_GET_ST_BITS asserted = ADXRS450_OUTPUT_GET_ST_SELFTEST \<and>
           st_check = ucast (asserted AND ADXRS450_OUTPUT_CST_BIT_MASK) \<and>
           ia (ADXRS450_READ_OUTPUT tr cs 0) h3 = (Inr clear, h') \<and>
           ADXRS450_OUTPUT_GET_ST_BITS clear = ADXRS450_OUTPUT_GET_ST_DATA \<and>
           st = ucast (clear AND ADXRS450_OUTPUT_CST_BIT_MASK)"
proof -
  obtain o1 n1 g1 where 1: "gyro_tries ia (ADXRS450_READ_OUTPUT_CHK tr cs 0) ADXRS450_OUTPUT_GET_ST_SELFTEST 0 h = (Inr (o1, n1), g1)"
      and n1: "n1 < ST_EN_MAX"
    using assms by (auto simp: gyro_test_faults_def split: prod.splits sum.splits if_splits)
  obtain o2 n2 where 2: "gyro_tries ia (ADXRS450_READ_OUTPUT tr cs 0) ADXRS450_OUTPUT_GET_ST_DATA 0 g1 = (Inr (o2, n2), h')"
      and n2: "n2 < ST_EN_MAX" and r: "st_check = ucast (o1 AND ADXRS450_OUTPUT_CST_BIT_MASK)" "st = ucast (o2 AND ADXRS450_OUTPUT_CST_BIT_MASK)"
    using assms 1 by (auto simp: gyro_test_faults_def split: prod.splits sum.splits if_splits)
  have z: "0 < ST_EN_MAX"
    by (simp add: ST_EN_MAX_def)
  show ?thesis
    using gyro_tries_sound [OF 1 z] gyro_tries_sound [OF 2 z] n1 n2 r by blast
qed

text \<open>An exchange that plays the answers of a list.\<close>

fun tape_exchange :: "u32 list exchange" where
  "tape_exchange req [] = (Inl EIO, [])"
| "tape_exchange req (a # as) = (Inr a, as)"

theorem gyro_test_sound_witness:
  "\<exists>h1 h2 h3 asserted clear. tape_exchange (ADXRS450_READ_OUTPUT_CHK SPI_PDC_TRANSMISSION 2 0) h1 = (Inr asserted, h2) \<and>
     ADXRS450_OUTPUT_GET_ST_BITS asserted = ADXRS450_OUTPUT_GET_ST_SELFTEST \<and>
     0xFC = (ucast (asserted AND ADXRS450_OUTPUT_CST_BIT_MASK) :: u16) \<and>
     tape_exchange (ADXRS450_READ_OUTPUT SPI_PDC_TRANSMISSION 2 0) h3 = (Inr clear, []) \<and>
     ADXRS450_OUTPUT_GET_ST_BITS clear = ADXRS450_OUTPUT_GET_ST_DATA \<and>
     0 = (ucast (clear AND ADXRS450_OUTPUT_CST_BIT_MASK) :: u16)"
  by (rule gyro_test_sound [where h = "[0x080000FC, 0x04000000]"])
    (simp add: gyro_test_faults_def gyro_tries.simps ST_EN_MAX_def ADXRS450_OUTPUT_GET_ST_BITS_def
      ADXRS450_OUTPUT_GET_ST_SELFTEST_def ADXRS450_OUTPUT_GET_ST_DATA_def ADXRS450_OUTPUT_CST_BIT_MASK_def
      ADXRS450_OUTPUT_CST_PLL_def ADXRS450_OUTPUT_CST_Q_def ADXRS450_OUTPUT_CST_NVM_def ADXRS450_OUTPUT_CST_POR_def
      ADXRS450_OUTPUT_CST_PWR_def ADXRS450_OUTPUT_CST_CST_def)

text \<open>The fifth answer comes too late: it ends the loop, but the count has reached the limit, and the result is ETIME whatever the
  answer says.\<close>

theorem gyro_fifth_answer_refused:
  assumes "\<forall>a \<in> {a1, a2, a3, a4}. ADXRS450_OUTPUT_GET_ST_BITS a \<noteq> ADXRS450_OUTPUT_GET_ST_SELFTEST"
  shows "gyro_test_faults tape_exchange tr cs (a1 # a2 # a3 # a4 # a5 # as) = (Inl ETIME, as)"
  using assms by (simp add: gyro_test_faults_def gyro_tries.simps ST_EN_MAX_def)

theorem gyro_fifth_answer_refused_witness:
  "gyro_test_faults tape_exchange SPI_PDC_TRANSMISSION 2 [0, 0, 0, 0, 0x080000FC] = (Inl ETIME, [])"
  by (rule gyro_fifth_answer_refused) (simp add: ADXRS450_OUTPUT_GET_ST_BITS_def ADXRS450_OUTPUT_GET_ST_SELFTEST_def)

end
