(* ===== verification/Ad7190.thy ===== *)
theory Ad7190
  imports SpiPdc
begin

text \<open>
  The converter AD7190 of the pressure sensors: the functions \<open>fc_d7190_\<close> of bsp/ics/ctlst/ctlst_periph.c and the older copy
  ad7190.c, with ad7190.h. The copies differ in how a byte is packed, which is the argument \<open>rq\<close>: position, number of bytes,
  byte. Delays and printed texts are left out.
\<close>

section \<open>Registers (ad7190.h)\<close>

definition AD7190_REG_COMM_ADDR :: "u8 \<Rightarrow> u8" where "AD7190_REG_COMM_ADDR a = push_bit 3 (a AND 0x07)"
definition AD7190_WRITE_REGISTER :: "u8 \<Rightarrow> u8" where "AD7190_WRITE_REGISTER a = AD7190_REG_COMM_ADDR a"
definition AD7190_READ_REGISTER :: "u8 \<Rightarrow> u8" where "AD7190_READ_REGISTER a = 0x40 OR AD7190_REG_COMM_ADDR a"
definition AD7190_EXTRACT_ADDR :: "u8 \<Rightarrow> u8" where "AD7190_EXTRACT_ADDR rq = drop_bit 3 rq AND 0x07"
definition AD7190_DATA_EXTRACT_CHNL :: "u32 \<Rightarrow> u32" where "AD7190_DATA_EXTRACT_CHNL d = d AND 0x7"
definition AD7190_DATA_EXTRACT :: "u32 \<Rightarrow> u32" where "AD7190_DATA_EXTRACT d = drop_bit 8 d"
definition AD7190_MASK_LSB :: "u32 \<Rightarrow> u32" where "AD7190_MASK_LSB b = b AND NOT 1"

definition AD7190_ADDR_REG_STATUS :: u8 where "AD7190_ADDR_REG_STATUS = 0"
definition AD7190_ADDR_REG_MODE :: u8 where "AD7190_ADDR_REG_MODE = 1"
definition AD7190_ADDR_REG_CFG :: u8 where "AD7190_ADDR_REG_CFG = 2"
definition AD7190_ADDR_REG_DATA :: u8 where "AD7190_ADDR_REG_DATA = 3"
definition AD7190_ADDR_REG_ID :: u8 where "AD7190_ADDR_REG_ID = 4"
definition AD7190_ADDR_REG_GPOCON :: u8 where "AD7190_ADDR_REG_GPOCON = 5"
definition AD7190_ADDR_REG_OFFSET :: u8 where "AD7190_ADDR_REG_OFFSET = 6"
definition AD7190_ADDR_REG_FULL_SCALE :: u8 where "AD7190_ADDR_REG_FULL_SCALE = 7"

definition AD7190_REG_MODE_SELECT :: "u32 \<Rightarrow> u32" where "AD7190_REG_MODE_SELECT m = push_bit 21 m"
definition AD7190_REG_MODE_DAT_STA :: u32 where "AD7190_REG_MODE_DAT_STA = 0x100000"
definition AD7190_REG_MODE_CLOCK :: "u32 \<Rightarrow> u32" where "AD7190_REG_MODE_CLOCK c = push_bit 18 c"
definition AD7190_REG_MODE_SINC3 :: u32 where "AD7190_REG_MODE_SINC3 = 0x8000"
definition AD7190_REG_MODE_FLTR_OUT_RATE :: "u32 \<Rightarrow> u32" where "AD7190_REG_MODE_FLTR_OUT_RATE fr = fr AND 1023"
definition AD7190_REG_CFG_CH_SEL :: "u32 \<Rightarrow> u32" where "AD7190_REG_CFG_CH_SEL c = push_bit 8 c"
definition AD7190_REG_CFG_BUF :: u32 where "AD7190_REG_CFG_BUF = 0x10"

definition d7190_get_reg_size :: "u8 \<Rightarrow> nat" where
  "d7190_get_reg_size a =
     (if a \<in> {AD7190_ADDR_REG_MODE, AD7190_ADDR_REG_CFG, AD7190_ADDR_REG_OFFSET, AD7190_ADDR_REG_FULL_SCALE} then 3
      else if a = AD7190_ADDR_REG_DATA then 4 else 1)"

section \<open>One exchange\<close>

type_synonym byte_packing = "nat \<Rightarrow> nat \<Rightarrow> u8 \<Rightarrow> u32"

definition AD7190_REQ :: "u32 \<Rightarrow> byte_packing" where
  "AD7190_REQ cs pos n b = SPI_PDC_TRANSMISSION (if pos = n - 1 then 1 else 0) cs (ucast b)"

definition AD7190_REQ_old :: "u32 \<Rightarrow> byte_packing" where
  "AD7190_REQ_old cs pos n b = SPI_PDC_TRANS_BYTE SPI_PDC_TRANSMISSION_old cs (ucast b)"

definition ONES_SEQ_LNG :: nat where "ONES_SEQ_LNG = 7"

definition adc_reset :: "'h fpga \<Rightarrow> spiplr_instance \<Rightarrow> byte_packing \<Rightarrow> 'h \<Rightarrow> errno \<times> 'h" where
  "adc_reset hw i rq h =
     (let request = map (\<lambda>k. rq k ONES_SEQ_LNG 0xFF) [0..<ONES_SEQ_LNG] in (EOK, snd (fcnav_spi_trans hw i request h)))"

text \<open>The bytes of the answer, the first one highest.\<close>

definition adc_assemble :: "nat \<Rightarrow> u32 list \<Rightarrow> u32" where
  "adc_assemble resp_size response =
     fold (\<lambda>k rv. rv OR push_bit (8 * (resp_size - k - 1)) (ucast (SPI_PDC_EXTRACT_BYTE (response ! Suc k)))) [0..<resp_size] 0"

text \<open>The result of the transaction is not looked at, and the function always returns EOK. \<open>req\<close> has five bytes.\<close>

definition adc_interact :: "'h fpga \<Rightarrow> spiplr_instance \<Rightarrow> byte_packing \<Rightarrow> u8 list \<Rightarrow> 'h \<Rightarrow> (errno \<times> u32) \<times> 'h" where
  "adc_interact hw i rq req h =
     (let resp_size = d7190_get_reg_size (AD7190_EXTRACT_ADDR (req ! 0));
          req_size = resp_size + 1;
          request = map (\<lambda>k. rq k req_size (req ! k)) [0..<req_size];
          ((_, _, response), h) = fcnav_spi_trans hw i request h
      in ((EOK, adc_assemble resp_size response), h))"

definition adc_write_register :: "'h fpga \<Rightarrow> spiplr_instance \<Rightarrow> byte_packing \<Rightarrow> u8 \<Rightarrow> u32 \<Rightarrow> 'h \<Rightarrow> errno \<times> 'h" where
  "adc_write_register hw i rq addr w h =
     (let d = [AD7190_WRITE_REGISTER addr, ucast (drop_bit 16 w AND 0xFF), ucast (drop_bit 8 w AND 0xFF), ucast (w AND 0xFF), 0];
          ((rv, _), h) = adc_interact hw i rq d h
      in (rv, h))"

definition adc_read_register :: "'h fpga \<Rightarrow> spiplr_instance \<Rightarrow> byte_packing \<Rightarrow> u8 \<Rightarrow> 'h \<Rightarrow> (errno \<times> u32) \<times> 'h" where
  "adc_read_register hw i rq addr h = adc_interact hw i rq [AD7190_READ_REGISTER addr, 0xFF, 0xFF, 0xFF, 0xFF] h"

section \<open>Start and test\<close>

definition adc_reg_cfg :: "bool \<Rightarrow> u32" where
  "adc_reg_cfg baro_fix =
     AD7190_REG_CFG_BUF OR AD7190_REG_CFG_CH_SEL (push_bit 0 1 OR push_bit 4 1 OR push_bit 2 1 OR
       (if baro_fix then push_bit 6 1 else push_bit 5 1))"

definition adc_reg_mode :: "u32 \<Rightarrow> u32" where
  "adc_reg_mode out_rate =
     AD7190_REG_MODE_SELECT 0 OR AD7190_REG_MODE_DAT_STA OR AD7190_REG_MODE_CLOCK 2 OR AD7190_REG_MODE_SINC3 OR
     AD7190_REG_MODE_FLTR_OUT_RATE out_rate"

definition adc_start :: "'h fpga \<Rightarrow> spiplr_instance \<Rightarrow> byte_packing \<Rightarrow> bool \<Rightarrow> 'h \<Rightarrow> errno \<times> 'h" where
  "adc_start hw i rq baro_fix h =
     (let (_, h) = adc_read_register hw i rq AD7190_ADDR_REG_CFG h;
          (_, h) = adc_reset hw i rq h;
          (_, h) = adc_read_register hw i rq AD7190_ADDR_REG_CFG h;
          reg_cfg = adc_reg_cfg baro_fix;
          reg_mode = adc_reg_mode 40;
          (_, h) = adc_write_register hw i rq AD7190_ADDR_REG_CFG reg_cfg h;
          ((_, out), h) = adc_read_register hw i rq AD7190_ADDR_REG_CFG h;
          rv = (if reg_cfg \<noteq> AD7190_MASK_LSB out then EIO else EOK);
          (_, h) = adc_write_register hw i rq AD7190_ADDR_REG_MODE reg_mode h;
          ((_, out), h) = adc_read_register hw i rq AD7190_ADDR_REG_MODE h;
          rv = (if reg_mode \<noteq> AD7190_MASK_LSB out then EIO else rv)
      in (rv, h))"

text \<open>The registers the test reads, with the values it prints.\<close>

fun adc_reads :: "'h fpga \<Rightarrow> spiplr_instance \<Rightarrow> byte_packing \<Rightarrow> u8 list \<Rightarrow> 'h \<Rightarrow> u32 list \<times> 'h" where
  "adc_reads hw i rq [] h = ([], h)"
| "adc_reads hw i rq (a # as) h =
     (let ((_, out), h) = adc_read_register hw i rq a h; (outs, h) = adc_reads hw i rq as h in (out # outs, h))"

definition adc_test :: "'h fpga \<Rightarrow> spiplr_instance \<Rightarrow> byte_packing \<Rightarrow> nat \<Rightarrow> 'h \<Rightarrow> (errno \<times> u32 list) \<times> 'h" where
  "adc_test hw i rq mode_reads h =
     (let (_, h) = adc_reset hw i rq h;
          (outs, h) = adc_reads hw i rq ([AD7190_ADDR_REG_STATUS, AD7190_ADDR_REG_ID, AD7190_ADDR_REG_CFG] @
                                         replicate mode_reads AD7190_ADDR_REG_MODE) h;
          out = adc_reg_mode 8;
          (_, h) = adc_write_register hw i rq AD7190_ADDR_REG_MODE out h;
          (outs', h) = adc_reads hw i rq [AD7190_ADDR_REG_MODE, AD7190_ADDR_REG_FULL_SCALE, AD7190_ADDR_REG_OFFSET] h
      in ((EOK, outs @ [out] @ outs'), h))"

section \<open>The two copies\<close>

definition fc_d7190_start_and_report :: "'h fpga \<Rightarrow> spiplr_instance \<Rightarrow> u32 \<Rightarrow> bool \<Rightarrow> 'h \<Rightarrow> errno \<times> 'h" where
  "fc_d7190_start_and_report hw i cs baro_fix h = adc_start hw i (AD7190_REQ cs) baro_fix h"

definition fc_d7190_test :: "'h fpga \<Rightarrow> spiplr_instance \<Rightarrow> u32 \<Rightarrow> 'h \<Rightarrow> (errno \<times> u32 list) \<times> 'h" where
  "fc_d7190_test hw i cs h = adc_test hw i (AD7190_REQ cs) 4 h"

definition at7190_reset :: "'h fpga \<Rightarrow> spiplr_instance \<Rightarrow> u32 \<Rightarrow> 'h \<Rightarrow> errno \<times> 'h" where
  "at7190_reset hw i cs = adc_reset hw i (AD7190_REQ_old cs)"

definition ad7190_interact :: "'h fpga \<Rightarrow> spiplr_instance \<Rightarrow> u32 \<Rightarrow> u8 list \<Rightarrow> 'h \<Rightarrow> (errno \<times> u32) \<times> 'h" where
  "ad7190_interact hw i cs = adc_interact hw i (AD7190_REQ_old cs)"

definition ad7190_write_register :: "'h fpga \<Rightarrow> spiplr_instance \<Rightarrow> u32 \<Rightarrow> u8 \<Rightarrow> u32 \<Rightarrow> 'h \<Rightarrow> errno \<times> 'h" where
  "ad7190_write_register hw i cs = adc_write_register hw i (AD7190_REQ_old cs)"

definition ad7190_read_register :: "'h fpga \<Rightarrow> spiplr_instance \<Rightarrow> u32 \<Rightarrow> u8 \<Rightarrow> 'h \<Rightarrow> (errno \<times> u32) \<times> 'h" where
  "ad7190_read_register hw i cs = adc_read_register hw i (AD7190_REQ_old cs)"

definition ad7190_start :: "'h fpga \<Rightarrow> spiplr_instance \<Rightarrow> u32 \<Rightarrow> bool \<Rightarrow> 'h \<Rightarrow> errno \<times> 'h" where
  "ad7190_start hw i cs = adc_start hw i (AD7190_REQ_old cs)"

definition ad7190_test :: "'h fpga \<Rightarrow> spiplr_instance \<Rightarrow> u32 \<Rightarrow> 'h \<Rightarrow> (errno \<times> u32 list) \<times> 'h" where
  "ad7190_test hw i cs = adc_test hw i (AD7190_REQ_old cs) 1"

section \<open>A converter on the lines\<close>

definition bytes24 :: "u8 \<Rightarrow> u8 \<Rightarrow> u8 \<Rightarrow> u32" where
  "bytes24 b2 b1 b0 = push_bit 16 (ucast b2) OR push_bit 8 (ucast b1) OR ucast b0"

text \<open>The transactions on its registers of three bytes: four words for the device \<open>cs\<close>, the chip selected to the last one, the
  first with the command. Bit 6 of the command tells a read, which answers in the words after it, from a write. \<open>regs\<close>: the
  registers.\<close>

definition adc_answers :: "(u32 list \<Rightarrow> 'd \<Rightarrow> u32 list \<times> 'd) \<Rightarrow> u32 \<Rightarrow> ('d \<Rightarrow> u8 \<Rightarrow> u32) \<Rightarrow> bool" where
  "adc_answers xchg cs regs \<longleftrightarrow>
     (\<forall>w0 w1 w2 w3 d.
        (\<forall>w \<in> {w0, w1, w2, w3}. SPIPLR_RESP_EXTRACT_DEV_ID w = cs) \<and> bit w0 30 \<and> bit w1 30 \<and> bit w2 30 \<and> \<not> bit w3 30 \<and>
        \<not> bit w0 7 \<and> d7190_get_reg_size (AD7190_EXTRACT_ADDR (ucast w0)) = 3 \<longrightarrow>
        (let addr = AD7190_EXTRACT_ADDR (ucast w0); (a, d') = xchg ([w0, w1, w2, w3] @ replicate 12 0) d in
         if bit w0 6
         then regs d' = regs d \<and> bytes24 (ucast (a ! 1)) (ucast (a ! 2)) (ucast (a ! 3)) = take_bit 24 (regs d addr)
         else regs d' = (regs d)(addr := bytes24 (ucast w1) (ucast w2) (ucast w3))))"

lemma adc_answersD:
  assumes "adc_answers xchg cs regs"
    and "\<forall>w \<in> {w0, w1, w2, w3}. SPIPLR_RESP_EXTRACT_DEV_ID w = cs"
    and "bit w0 30 \<and> bit w1 30 \<and> bit w2 30 \<and> \<not> bit w3 30"
    and "\<not> bit w0 7" and "AD7190_EXTRACT_ADDR (ucast w0) = addr" and "d7190_get_reg_size addr = 3"
    and "xchg ([w0, w1, w2, w3] @ replicate 12 0) d = (a, d')"
  shows "bit w0 6 \<Longrightarrow> regs d' = regs d \<and> bytes24 (ucast (a ! 1)) (ucast (a ! 2)) (ucast (a ! 3)) = take_bit 24 (regs d addr)"
    and "\<not> bit w0 6 \<Longrightarrow> regs d' = (regs d)(addr := bytes24 (ucast w1) (ucast w2) (ucast w3))"
proof -
  have "let addr = AD7190_EXTRACT_ADDR (ucast w0); (a, d') = xchg ([w0, w1, w2, w3] @ replicate 12 0) d in
         if bit w0 6
         then regs d' = regs d \<and> bytes24 (ucast (a ! 1)) (ucast (a ! 2)) (ucast (a ! 3)) = take_bit 24 (regs d addr)
         else regs d' = (regs d)(addr := bytes24 (ucast w1) (ucast w2) (ucast w3))"
    using assms(1)[unfolded adc_answers_def, rule_format, of w0 w1 w2 w3 d] assms(2-6) by simp
  then show "bit w0 6 \<Longrightarrow> regs d' = regs d \<and> bytes24 (ucast (a ! 1)) (ucast (a ! 2)) (ucast (a ! 3)) = take_bit 24 (regs d addr)"
    and "\<not> bit w0 6 \<Longrightarrow> regs d' = (regs d)(addr := bytes24 (ucast w1) (ucast w2) (ucast w3))"
    using assms(5,7) by (simp_all add: Let_def)
qed

lemma AD7190_REQ_facts:
  "SPIPLR_RESP_EXTRACT_DEV_ID (AD7190_REQ cs pos n b) = cs AND 0x3F"
  "bit (AD7190_REQ cs pos n b) 30 \<longleftrightarrow> pos \<noteq> n - 1"
  "ucast (AD7190_REQ cs pos n b) = b"
  "k < 8 \<Longrightarrow> bit (AD7190_REQ cs pos n b) k = bit b k"
proof -
  have low: "bit (AD7190_REQ cs pos n b) k = bit b k" if "k < 8" for k
    using that unfolding AD7190_REQ_def plr_pack_defs masks by (auto simp: bit_simps)
  then show "k < 8 \<Longrightarrow> bit (AD7190_REQ cs pos n b) k = bit b k" .
  show "ucast (AD7190_REQ cs pos n b) = b"
    by (rule bit_word_eqI) (simp add: bit_simps low)
qed (simp_all add: AD7190_REQ_def plr_pack_device plr_pack_last)

lemma command_facts:
  "AD7190_EXTRACT_ADDR (AD7190_READ_REGISTER addr) = addr AND 0x07" "bit (AD7190_READ_REGISTER addr) 6" "\<not> bit (AD7190_READ_REGISTER addr) 7"
  "AD7190_EXTRACT_ADDR (AD7190_WRITE_REGISTER addr) = addr AND 0x07" "\<not> bit (AD7190_WRITE_REGISTER addr) 6" "\<not> bit (AD7190_WRITE_REGISTER addr) 7"
proof -
  have m: "(0x07 :: u8) = mask 3" "(0x40 :: u8) = push_bit 6 1"
    by (simp_all add: mask_eq_exp_minus_1)
  note defs = AD7190_EXTRACT_ADDR_def AD7190_READ_REGISTER_def AD7190_WRITE_REGISTER_def AD7190_REG_COMM_ADDR_def m
  have "drop_bit 3 (0x40 OR push_bit 3 x) AND 0x07 = x AND (0x07 :: u8)" if "x AND 0x07 = x" for x
  proof -
    have "drop_bit 3 (push_bit 3 x) = x"
    proof (rule bit_word_eqI)
      fix n
      have "x = x AND mask 3"
        using that unfolding m(1) [symmetric] by (rule sym)
      then have "bit x n \<longrightarrow> n < 3"
        by (metis bit_and_iff bit_mask_iff)
      then show "bit (drop_bit 3 (push_bit 3 x)) n = bit x n"
        by (auto simp: bit_simps)
    qed
    then show ?thesis
      by (simp add: drop_bit_or bit.conj_disj_distrib2)
  qed
  then show "AD7190_EXTRACT_ADDR (AD7190_READ_REGISTER addr) = addr AND 0x07"
    unfolding AD7190_EXTRACT_ADDR_def AD7190_READ_REGISTER_def AD7190_REG_COMM_ADDR_def by (simp only: and.assoc and.idem)
  show "AD7190_EXTRACT_ADDR (AD7190_WRITE_REGISTER addr) = addr AND 0x07"
    unfolding defs by (rule bit_word_eqI) (auto simp: bit_simps)
  show "bit (AD7190_READ_REGISTER addr) 6" "\<not> bit (AD7190_READ_REGISTER addr) 7"
    "\<not> bit (AD7190_WRITE_REGISTER addr) 6" "\<not> bit (AD7190_WRITE_REGISTER addr) 7"
    unfolding defs by (simp_all add: bit_simps)
qed

lemma assemble_three:
  "adc_assemble 3 [x, r1, r2, r3] = bytes24 (ucast r1) (ucast r2) (ucast r3)"
proof -
  have b: "SPI_PDC_EXTRACT_BYTE r = ucast r" for r
    unfolding SPI_PDC_EXTRACT_BYTE_def masks by (rule bit_word_eqI) (auto simp: bit_simps)
  have "[0..<3] = [0, 1, 2 :: nat]"
    by (simp add: upt_rec)
  then show ?thesis
    by (simp add: adc_assemble_def b bytes24_def or.assoc)
qed

lemma bytes24_split: "bytes24 (ucast (drop_bit 16 w AND 0xFF)) (ucast (drop_bit 8 w AND 0xFF)) (ucast (w AND 0xFF)) = take_bit 24 w"
proof (rule bit_word_eqI)
  fix n assume "n < LENGTH(32)"
  moreover have "16 + (n - 16) = n" if "16 \<le> n"
    using that by simp
  ultimately show "bit (bytes24 (ucast (drop_bit 16 w AND 0xFF)) (ucast (drop_bit 8 w AND 0xFF)) (ucast (w AND 0xFF))) n = bit (take_bit 24 w) n"
    unfolding bytes24_def masks by (cases "n < 16") (auto simp: bit_simps)
qed

lemma adc_transaction:
  assumes "plr_engine hw (plr_base i) v limit" and "limit \<le> 32000" and "adc_answers (pv_exchange v) cs regs" and "cs AND 0x3F = cs"
    and "d7190_get_reg_size (AD7190_EXTRACT_ADDR c) = 3" and "\<not> bit c 7"
  shows "\<exists>out h'. adc_interact hw i (AD7190_REQ cs) [c, b2, b1, b0, b] h = ((EOK, out), h') \<and>
           (bit c 6 \<longrightarrow> regs (pv_line v h') = regs (pv_line v h) \<and> out = take_bit 24 (regs (pv_line v h) (AD7190_EXTRACT_ADDR c))) \<and>
           (\<not> bit c 6 \<longrightarrow> regs (pv_line v h') = (regs (pv_line v h))(AD7190_EXTRACT_ADDR c := bytes24 b2 b1 b0))"
proof -
  let ?q = "AD7190_REQ cs"
  let ?ws = "[?q 0 4 c, ?q 1 4 b2, ?q 2 4 b1, ?q 3 4 b0]"
  obtain a d' where x: "pv_exchange v (?ws @ replicate 12 0) (pv_line v h) = (a, d')"
    by fastforce
  have n4: "length ?ws = 4" "(16 :: nat) - 4 = 12"
    by simp_all
  obtain h' where h': "fcnav_spi_trans hw i ?ws h = ((0, False, take 4 a), h')" "pv_line v h' = d'"
    using custom_trans_exchange [OF assms(1,2), of ?ws h] x unfolding fcnav_spi_trans_def n4 by auto
  have "length a = 16"
    using plr_engine_lengths(2) [OF assms(1)] x by (metis fst_conv)
  then have a4: "take 4 a = [a ! 0, a ! 1, a ! 2, a ! 3]"
    by (simp add: list_eq_iff_nth_eq nth_Cons less_Suc_eq numeral_eq_Suc)
  have r4: "[0..<4] = [0, 1, 2, 3 :: nat]"
    by (simp add: upt_rec)
  have i: "adc_interact hw i ?q [c, b2, b1, b0, b] h = ((EOK, bytes24 (ucast (a ! 1)) (ucast (a ! 2)) (ucast (a ! 3))), h')"
    unfolding adc_interact_def using h'(1) by (simp add: assms(5) r4 a4 assemble_three del: upt_Suc)
  have s: "\<forall>w \<in> set ?ws. SPIPLR_RESP_EXTRACT_DEV_ID w = cs" "bit (?q 0 4 c) 30 \<and> bit (?q 1 4 b2) 30 \<and> bit (?q 2 4 b1) 30 \<and> \<not> bit (?q 3 4 b0) 30"
      "\<not> bit (?q 0 4 c) 7" "AD7190_EXTRACT_ADDR (ucast (?q 0 4 c)) = AD7190_EXTRACT_ADDR c" "bit (?q 0 4 c) 6 = bit c 6"
    using assms(4,6) by (simp_all add: AD7190_REQ_facts)
  show ?thesis
    using adc_answersD [OF assms(3) s(1) [unfolded list.set] s(2-4) assms(5) x] i h'(2) s(5)
    by (simp add: AD7190_REQ_facts)
qed

lemma adc_read:
  assumes "plr_engine hw (plr_base i) v limit" and "limit \<le> 32000" and "adc_answers (pv_exchange v) cs regs" and "cs AND 0x3F = cs"
    and "d7190_get_reg_size addr = 3" and "addr AND 0x07 = addr"
  shows "\<exists>h'. adc_read_register hw i (AD7190_REQ cs) addr h = ((EOK, take_bit 24 (regs (pv_line v h) addr)), h') \<and>
           regs (pv_line v h') = regs (pv_line v h)"
  using adc_transaction [OF assms(1-4), of "AD7190_READ_REGISTER addr" "0xFF" "0xFF" "0xFF" "0xFF" h] assms(5,6)
  by (auto simp: adc_read_register_def command_facts)

lemma adc_write:
  assumes "plr_engine hw (plr_base i) v limit" and "limit \<le> 32000" and "adc_answers (pv_exchange v) cs regs" and "cs AND 0x3F = cs"
    and "d7190_get_reg_size addr = 3" and "addr AND 0x07 = addr"
  shows "\<exists>h'. adc_write_register hw i (AD7190_REQ cs) addr w h = (EOK, h') \<and>
           regs (pv_line v h') = (regs (pv_line v h))(addr := take_bit 24 w)"
  using adc_transaction [OF assms(1-4), of "AD7190_WRITE_REGISTER addr" "ucast (drop_bit 16 w AND 0xFF)" "ucast (drop_bit 8 w AND 0xFF)" "ucast (w AND 0xFF)" 0 h] assms(5,6)
  by (auto simp: adc_write_register_def command_facts bytes24_split)

lemma adc_start_values:
  "take_bit 24 (adc_reg_cfg b) = adc_reg_cfg b" "AD7190_MASK_LSB (adc_reg_cfg b) = adc_reg_cfg b"
  "take_bit 24 (adc_reg_mode 40) = adc_reg_mode 40" "AD7190_MASK_LSB (adc_reg_mode 40) = adc_reg_mode 40"
  by (simp_all add: adc_reg_cfg_def adc_reg_mode_def AD7190_MASK_LSB_def AD7190_REG_CFG_BUF_def AD7190_REG_CFG_CH_SEL_def
      AD7190_REG_MODE_SELECT_def AD7190_REG_MODE_DAT_STA_def AD7190_REG_MODE_CLOCK_def AD7190_REG_MODE_SINC3_def
      AD7190_REG_MODE_FLTR_OUT_RATE_def)

lemma adc_start_addresses:
  "d7190_get_reg_size AD7190_ADDR_REG_CFG = 3" "AD7190_ADDR_REG_CFG AND 0x07 = AD7190_ADDR_REG_CFG"
  "d7190_get_reg_size AD7190_ADDR_REG_MODE = 3" "AD7190_ADDR_REG_MODE AND 0x07 = AD7190_ADDR_REG_MODE"
  "AD7190_ADDR_REG_MODE \<noteq> AD7190_ADDR_REG_CFG"
  by (simp_all add: d7190_get_reg_size_def AD7190_ADDR_REG_CFG_def AD7190_ADDR_REG_MODE_def)

text \<open>The start of the pressure converter. A converter that answers on the lines of the logic gets the configuration and then the
  mode, both are read back as they were written, and the start returns EOK; at the end its two registers hold the
  values the driver means to set. Whatever the registers held before, and whatever the reset does to them.\<close>

theorem adc_starts:
  assumes "plr_engine hw (plr_base i) v limit" and "limit \<le> 32000" and "adc_answers (pv_exchange v) cs regs" and "cs AND 0x3F = cs"
  shows "\<exists>h'. fc_d7190_start_and_report hw i cs baro_fix h = (EOK, h') \<and>
           regs (pv_line v h') AD7190_ADDR_REG_CFG = adc_reg_cfg baro_fix \<and>
           regs (pv_line v h') AD7190_ADDR_REG_MODE = adc_reg_mode 40"
proof -
  note rd = adc_read [OF assms] and wr = adc_write [OF assms]
  note a = adc_start_addresses and vals = adc_start_values
  obtain h1 where 1: "adc_read_register hw i (AD7190_REQ cs) AD7190_ADDR_REG_CFG h =
      ((EOK, take_bit 24 (regs (pv_line v h) AD7190_ADDR_REG_CFG)), h1)"
    using rd [OF a(1,2)] by blast
  obtain h2 where 2: "adc_reset hw i (AD7190_REQ cs) h1 = (EOK, h2)"
    by (simp add: adc_reset_def Let_def)
  obtain h3 where 3: "adc_read_register hw i (AD7190_REQ cs) AD7190_ADDR_REG_CFG h2 =
      ((EOK, take_bit 24 (regs (pv_line v h2) AD7190_ADDR_REG_CFG)), h3)"
    using rd [OF a(1,2)] by blast
  obtain h4 where 4: "adc_write_register hw i (AD7190_REQ cs) AD7190_ADDR_REG_CFG (adc_reg_cfg baro_fix) h3 = (EOK, h4)"
      "regs (pv_line v h4) = (regs (pv_line v h3))(AD7190_ADDR_REG_CFG := adc_reg_cfg baro_fix)"
    using wr [OF a(1,2), of "adc_reg_cfg baro_fix" h3] by (auto simp: vals)
  obtain h5 where 5: "adc_read_register hw i (AD7190_REQ cs) AD7190_ADDR_REG_CFG h4 = ((EOK, adc_reg_cfg baro_fix), h5)"
      "regs (pv_line v h5) = regs (pv_line v h4)"
    using rd [OF a(1,2), of h4] by (auto simp: 4 vals)
  obtain h6 where 6: "adc_write_register hw i (AD7190_REQ cs) AD7190_ADDR_REG_MODE (adc_reg_mode 40) h5 = (EOK, h6)"
      "regs (pv_line v h6) = (regs (pv_line v h5))(AD7190_ADDR_REG_MODE := adc_reg_mode 40)"
    using wr [OF a(3,4), of "adc_reg_mode 40" h5] by (auto simp: vals)
  obtain h7 where 7: "adc_read_register hw i (AD7190_REQ cs) AD7190_ADDR_REG_MODE h6 = ((EOK, adc_reg_mode 40), h7)"
      "regs (pv_line v h7) = regs (pv_line v h6)"
    using rd [OF a(3,4), of h6] by (auto simp: 6 vals)
  have "fc_d7190_start_and_report hw i cs baro_fix h = (EOK, h7)"
    by (simp add: fc_d7190_start_and_report_def adc_start_def 1 2 3 4 5 6 7 vals)
  moreover have "regs (pv_line v h7) AD7190_ADDR_REG_CFG = adc_reg_cfg baro_fix"
      "regs (pv_line v h7) AD7190_ADDR_REG_MODE = adc_reg_mode 40"
    using a(5) by (simp_all add: 7(2) 6(2) 5(2) 4(2))
  ultimately show ?thesis
    by blast
qed

text \<open>A converter on the lines; the device state is its registers.\<close>

definition adc_chip :: "u32 list \<Rightarrow> (u8 \<Rightarrow> u32) \<Rightarrow> u32 list \<times> (u8 \<Rightarrow> u32)" where
  "adc_chip rq regs =
     (let addr = AD7190_EXTRACT_ADDR (ucast (rq ! 0)); w = regs addr in
      if bit (rq ! 0) 6 then ([0, drop_bit 16 w, drop_bit 8 w, w] @ replicate 12 0, regs)
      else (replicate 16 0, regs(addr := bytes24 (ucast (rq ! 1)) (ucast (rq ! 2)) (ucast (rq ! 3)))))"

lemma adc_chip_length: "length (fst (adc_chip rq regs)) = 16"
  by (simp add: adc_chip_def Let_def)

lemma adc_chip_answers: "adc_answers adc_chip cs (\<lambda>regs. regs)"
proof -
  have "bytes24 (ucast (drop_bit 16 w)) (ucast (drop_bit 8 w)) (ucast w) = take_bit 24 w" for w :: u32
  proof (rule bit_word_eqI)
    fix n assume "n < LENGTH(32)"
    moreover have "16 + (n - 16) = n" if "16 \<le> n"
      using that by simp
    ultimately show "bit (bytes24 (ucast (drop_bit 16 w)) (ucast (drop_bit 8 w)) (ucast w)) n = bit (take_bit 24 w) n"
      unfolding bytes24_def by (cases "n < 16") (auto simp: bit_simps)
  qed
  then show ?thesis
    by (simp add: adc_answers_def adc_chip_def Let_def)
qed

theorem adc_starts_witness:
  "\<exists>h'. fc_d7190_start_and_report (sim_fpga adc_chip 5) \<lparr> plr_base = 0, phys_base = 0 \<rparr> 7 True
          \<lparr> sim_req = \<lambda>_. 0, sim_resp = [], sim_busy = 0, sim_line = \<lambda>_. 0x3511 \<rparr> = (EOK, h') \<and>
        pv_line (sim_view adc_chip) h' AD7190_ADDR_REG_CFG = adc_reg_cfg True \<and>
        pv_line (sim_view adc_chip) h' AD7190_ADDR_REG_MODE = adc_reg_mode 40"
proof (rule adc_starts [where regs = "\<lambda>regs. regs" and limit = 5])
  show "plr_engine (sim_fpga adc_chip 5) (plr_base \<lparr> plr_base = 0, phys_base = 0 \<rparr>) (sim_view adc_chip) 5"
    by (simp add: sim_engine adc_chip_length)
  show "adc_answers (pv_exchange (sim_view adc_chip)) 7 (\<lambda>regs. regs)"
    by (simp add: sim_view_def adc_chip_answers)
qed simp_all

end
