(* ===== verification/CtlstNav.thy ===== *)
theory CtlstNav
  imports Adxrs450 Ad7190
begin

text \<open>
  The inertial and pressure sensors of the control station board (bsp/ics/ctlst/ctlst_nav.c, adis1600X.h, devices_common.h): the
  vector of requests that the poller repeats, the samples decoded from the answers, the counters of errors and
  interrupts, the diagnosis at start-up; and the service that drives them (atomics/ctlst/main/imu/ctlst_main_imu_exec.c) without
  its scaling in floating point. The mutexes only bracket the accesses and are left out.
\<close>

section \<open>The request vector\<close>

definition FCNAV_SPIPLR_DEV_ID_GYRO_X :: u32 where "FCNAV_SPIPLR_DEV_ID_GYRO_X = 2"
definition FCNAV_SPIPLR_DEV_ID_GYRO_Y :: u32 where "FCNAV_SPIPLR_DEV_ID_GYRO_Y = 3"
definition FCNAV_SPIPLR_DEV_ID_GYRO_Z :: u32 where "FCNAV_SPIPLR_DEV_ID_GYRO_Z = 4"
definition FCNAV_SPIPLR_DEV_ID_A_XY :: u32 where "FCNAV_SPIPLR_DEV_ID_A_XY = 5"
definition FCNAV_SPIPLR_DEV_ID_A_YZ :: u32 where "FCNAV_SPIPLR_DEV_ID_A_YZ = 6"
definition FCNAV_SPIPLR_DEV_ID_BADC :: u32 where "FCNAV_SPIPLR_DEV_ID_BADC = 7"
definition FCNAV_SPIPLR_DEV_ID_TA_XY :: u32 where "FCNAV_SPIPLR_DEV_ID_TA_XY = 8"
definition FCNAV_SPIPLR_DEV_ID_TA_YZ :: u32 where "FCNAV_SPIPLR_DEV_ID_TA_YZ = 9"

definition ADIS1600X_CONTROL_REG :: "u32 \<Rightarrow> u32" where
  "ADIS1600X_CONTROL_REG a = push_bit 8 (push_bit 3 (a AND 0x01) OR push_bit 2 1)"

definition ADIS1600X_OUTPUT_READ_X :: "u32 \<Rightarrow> u32" where
  "ADIS1600X_OUTPUT_READ_X cs = SPI_PDC_TRANS_WORD SPI_PDC_TRANSMISSION cs (ADIS1600X_CONTROL_REG 0)"

definition ADIS1600X_OUTPUT_READ_Y :: "u32 \<Rightarrow> u32" where
  "ADIS1600X_OUTPUT_READ_Y cs = SPI_PDC_TRANS_WORD SPI_PDC_TRANSMISSION cs (ADIS1600X_CONTROL_REG 1)"

definition ADIS1600X_OUTPUT_READ_TEMP :: "u32 \<Rightarrow> u32" where
  "ADIS1600X_OUTPUT_READ_TEMP cs = SPI_PDC_TRANS_WORD SPI_PDC_TRANSMISSION cs 0x0000"

record p_data =
  fault_gx :: u64
  gyro_x :: u64
  temp_gx :: u64
  fault_gy :: u64
  gyro_y :: u64
  temp_gy :: u64
  fault_gz :: u64
  gyro_z :: u64
  temp_gz :: u64
  accel_y1 :: u32
  accel_temp_zy :: u32
  accel_z :: u32
  accel_x :: u32
  accel_temp_xy :: u32
  accel_y :: u32
  ad7190_channel_seq :: "u32 list"  \<comment> \<open>5 words\<close>

text \<open>The packed structure as the vector of words it is cast to, and back.\<close>

definition p_data_words :: "p_data \<Rightarrow> u32 list" where
  "p_data_words b =
     dword_words (fault_gx b) @ dword_words (gyro_x b) @ dword_words (temp_gx b) @
     dword_words (fault_gy b) @ dword_words (gyro_y b) @ dword_words (temp_gy b) @
     dword_words (fault_gz b) @ dword_words (gyro_z b) @ dword_words (temp_gz b) @
     [accel_y1 b, accel_temp_zy b, accel_z b, accel_x b, accel_temp_xy b, accel_y b] @ ad7190_channel_seq b"

definition words_p_data :: "u32 list \<Rightarrow> p_data" where
  "words_p_data w =
     \<lparr> fault_gx = words_dword (w ! 0) (w ! 1), gyro_x = words_dword (w ! 2) (w ! 3), temp_gx = words_dword (w ! 4) (w ! 5),
       fault_gy = words_dword (w ! 6) (w ! 7), gyro_y = words_dword (w ! 8) (w ! 9), temp_gy = words_dword (w ! 10) (w ! 11),
       fault_gz = words_dword (w ! 12) (w ! 13), gyro_z = words_dword (w ! 14) (w ! 15), temp_gz = words_dword (w ! 16) (w ! 17),
       accel_y1 = w ! 18, accel_temp_zy = w ! 19, accel_z = w ! 20, accel_x = w ! 21, accel_temp_xy = w ! 22, accel_y = w ! 23,
       ad7190_channel_seq = [w ! 24, w ! 25, w ! 26, w ! 27, w ! 28] \<rparr>"

definition P_DATA_SIZE :: nat where "P_DATA_SIZE = 116"

definition init_req_buffer :: p_data where
  "init_req_buffer =
     (let tr = SPI_PDC_TRANSMISSION; X = FCNAV_SPIPLR_DEV_ID_GYRO_X; Y = FCNAV_SPIPLR_DEV_ID_GYRO_Y; Z = FCNAV_SPIPLR_DEV_ID_GYRO_Z;
          adc = FCNAV_SPIPLR_DEV_ID_BADC in
      \<lparr> fault_gx = ADXRS450_READ_OUTPUT tr X 4,
        gyro_x = ADXRS450_REG_READ tr X ADXRS450_REG_ADDRESS_TEM,
        temp_gx = ADXRS450_REG_READ tr X ADXRS450_REG_ADDRESS_FAULT,
        fault_gy = ADXRS450_READ_OUTPUT tr Y 6,
        gyro_y = ADXRS450_REG_READ tr Y ADXRS450_REG_ADDRESS_TEM,
        temp_gy = ADXRS450_REG_READ tr Y ADXRS450_REG_ADDRESS_FAULT,
        fault_gz = ADXRS450_READ_OUTPUT tr Z 7,
        gyro_z = ADXRS450_REG_READ tr Z ADXRS450_REG_ADDRESS_TEM,
        temp_gz = ADXRS450_REG_READ tr Z ADXRS450_REG_ADDRESS_FAULT,
        accel_y1 = ADIS1600X_OUTPUT_READ_X FCNAV_SPIPLR_DEV_ID_A_YZ,
        accel_temp_zy = ADIS1600X_OUTPUT_READ_TEMP FCNAV_SPIPLR_DEV_ID_TA_YZ,
        accel_z = ADIS1600X_OUTPUT_READ_Y FCNAV_SPIPLR_DEV_ID_A_YZ,
        accel_x = ADIS1600X_OUTPUT_READ_X FCNAV_SPIPLR_DEV_ID_A_XY,
        accel_temp_xy = ADIS1600X_OUTPUT_READ_TEMP FCNAV_SPIPLR_DEV_ID_TA_XY,
        accel_y = ADIS1600X_OUTPUT_READ_Y FCNAV_SPIPLR_DEV_ID_A_XY,
        ad7190_channel_seq =
          [tr 0 adc (ucast (AD7190_READ_REGISTER AD7190_ADDR_REG_DATA)), tr 0 adc 0xFF, tr 0 adc 0xFF, tr 0 adc 0xFF, tr 1 adc 0xFF] \<rparr>)"

definition cfg_word :: "u32 \<Rightarrow> u32 \<Rightarrow> u32 \<Rightarrow> u32 \<Rightarrow> u32" where
  "cfg_word divider bytes cs clk = cfg_word_bits
     \<lparr> sclk_divider = divider, tr_byte_num = bytes, cs_vector = cs, lsb_first = 0, clk_cpha = clk, clk_cpol = clk,
       clk_delay = 0, cw_reserved = 0 \<rparr>"

definition SCLK_CLOCK_DIVIDER_ADIS160006 :: u32 where "SCLK_CLOCK_DIVIDER_ADIS160006 = 25"

definition init_cfg_array :: "u32 list" where
  "init_cfg_array =
     [cfg_word 10 1 0xFF 0, cfg_word 6 1 0xF1 0, cfg_word 6 1 0xF2 0, cfg_word 6 1 0xF3 0,
      cfg_word SCLK_CLOCK_DIVIDER_ADIS160006 1 0xF4 1, cfg_word SCLK_CLOCK_DIVIDER_ADIS160006 1 0xF5 1,
      cfg_word 10 0 0xF6 1,
      cfg_word SCLK_CLOCK_DIVIDER_ADIS160006 1 0xF7 1, cfg_word SCLK_CLOCK_DIVIDER_ADIS160006 1 0xF8 1]
     @ replicate (SPIPLR_CFG_VECTOR_SIZE - 9) (cfg_word 0 2 0xFF 0)"

section \<open>State\<close>

record gyro_errors =
  parity_err :: u32
  rw_err :: u32
  st_invrdng :: u32
  st_cst_pll :: u32
  st_cst_q :: u32
  st_cst_nvm :: u32
  st_cst_por :: u32
  st_cst_pwr :: u32
  st_cst_cst :: u32

record spi_sensors_stat =
  spi_plr_poll_cnt :: u32
  sw_update_cnt :: u32
  stat_x :: gyro_errors
  stat_y :: gyro_errors
  stat_z :: gyro_errors

text \<open>The variables of the file: the poller, the counters, the statistics.\<close>

record nav =
  nv_plr :: spiplr_instance
  nv_irq_counter :: u32
  nv_irq_spiplr_cnt :: u32
  nv_irq_counter_inited :: bool
  nv_update_counter :: u32
  nv_stat :: spi_sensors_stat

section \<open>Starting and interrupts\<close>

text \<open>None is the division by zero of the period. A refused mapping leaves the base address 0, which is used all the same.\<close>

definition SPIPLR_BASE_ADDR :: nat where "SPIPLR_BASE_ADDR = 0x43C80000"

definition fcnav_init :: "'h fpga \<Rightarrow> nat option \<Rightarrow> u32 \<Rightarrow> nav \<times> 'h \<Rightarrow> (int \<times> nav \<times> 'h) option" where
  "fcnav_init hw mapped req_period_us s =
     (let n = (fst s) \<lparr> nv_plr := snd (spiplr_init mapped SPIPLR_BASE_ADDR (nv_plr (fst s))) \<rparr>;
          i = nv_plr n;
          h = snd (spiplr_cfg_vector_set hw i init_cfg_array (snd s));
          h = snd (spiplr_reset hw i h);
          h = snd (spiplr_poll_stop hw i h)
      in do {
        (_, h) \<leftarrow> spiplr_poll_set_period hw i req_period_us 100000000 h;
        let (rv, h) = spiplr_req_vector_set hw i (p_data_words init_req_buffer) h;
        Some (rv, n, h) })"

definition fcnav_irq_en :: "'h fpga \<Rightarrow> nav \<times> 'h \<Rightarrow> nav \<times> 'h" where
  "fcnav_irq_en hw s = (fst s, snd (spiplr_irq_poll_rdy_enable hw (nv_plr (fst s)) (snd s)))"

definition fcnav_irq_dis :: "'h fpga \<Rightarrow> nav \<times> 'h \<Rightarrow> nav \<times> 'h" where
  "fcnav_irq_dis hw s = (fst s, snd (spiplr_irq_poll_rdy_enable hw (nv_plr (fst s)) (snd s)))"

text \<open>The message, when there is one: how many interrupts were missed, and the counter of the poller.\<close>

definition fcnav_irq_cnt_mon :: "'h fpga \<Rightarrow> nav \<times> 'h \<Rightarrow> (int \<times> u32) option \<times> nav \<times> 'h" where
  "fcnav_irq_cnt_mon hw s =
     (let n = fst s; (cnt, h) = spi_plr_get_irq_counter hw (nv_plr n) (snd s);
          (msg, n) =
            (if nv_irq_counter_inited n
             then let c = nv_irq_counter n + 1 in
                  if cnt \<noteq> c
                  then let delta = uint (cnt - c); delta = (if delta < 0 then delta + 4294967295 else delta)
                       in (Some (delta, cnt), n \<lparr> nv_irq_counter := cnt \<rparr>)
                  else (None, n \<lparr> nv_irq_counter := c \<rparr>)
             else (None, n \<lparr> nv_irq_counter := cnt, nv_irq_counter_inited := True \<rparr>))
      in (msg, n \<lparr> nv_irq_spiplr_cnt := cnt \<rparr>, h))"

definition fcnav_poll_start :: "'h fpga \<Rightarrow> nav \<times> 'h \<Rightarrow> nav \<times> 'h" where
  "fcnav_poll_start hw s = (fst s, snd (spiplr_poll_start hw (nv_plr (fst s)) (snd s)))"

definition fcnav_poll_stop :: "'h fpga \<Rightarrow> nav \<times> 'h \<Rightarrow> nav \<times> 'h" where
  "fcnav_poll_stop hw s = (fst s, snd (spiplr_poll_stop hw (nv_plr (fst s)) (snd s)))"

definition fcnav_read_status :: "'h fpga \<Rightarrow> nav \<times> 'h \<Rightarrow> u32 \<times> nav \<times> 'h" where
  "fcnav_read_status hw s = (let (_, st, h) = spiplr_get_status hw (nv_plr (fst s)) (snd s) in (st, fst s, h))"

definition fcnav_reset_status :: "'h fpga \<Rightarrow> nav \<times> 'h \<Rightarrow> nav \<times> 'h" where
  "fcnav_reset_status hw s = (fst s, snd (spiplr_reset_status hw (nv_plr (fst s)) (snd s)))"

section \<open>The errors of a reading\<close>

datatype gyro_test_rv = gyro_ok | gyro_rw_err | gyro_st_inval_rdngr | gyro_st_flags

text \<open>The counters of the flags in the last byte of a reading.\<close>

definition count_flags :: "u32 \<Rightarrow> gyro_errors \<Rightarrow> gyro_errors" where
  "count_flags errs stat =
     (let stat = (if errs AND ADXRS450_OUTPUT_CST_PLL \<noteq> 0 then stat \<lparr> st_cst_pll := st_cst_pll stat + 1 \<rparr> else stat);
          stat = (if errs AND ADXRS450_OUTPUT_CST_Q \<noteq> 0 then stat \<lparr> st_cst_q := st_cst_q stat + 1 \<rparr> else stat);
          stat = (if errs AND ADXRS450_OUTPUT_CST_NVM \<noteq> 0 then stat \<lparr> st_cst_nvm := st_cst_nvm stat + 1 \<rparr> else stat);
          stat = (if errs AND ADXRS450_OUTPUT_CST_POR \<noteq> 0 then stat \<lparr> st_cst_por := st_cst_por stat + 1 \<rparr> else stat);
          stat = (if errs AND ADXRS450_OUTPUT_CST_PWR \<noteq> 0 then stat \<lparr> st_cst_pwr := st_cst_pwr stat + 1 \<rparr> else stat)
      in if errs AND ADXRS450_OUTPUT_CST_CST \<noteq> 0 then stat \<lparr> st_cst_cst := st_cst_cst stat + 1 \<rparr> else stat)"

definition get_gyro_errs_and_report :: "u32 \<Rightarrow> gyro_errors \<Rightarrow> gyro_test_rv \<times> gyro_errors" where
  "get_gyro_errs_and_report reading stat =
     (let errs = reading AND (0xFF AND NOT 0x03);
          kind = drop_bit 29 reading;
          st = drop_bit 26 reading AND 0x03;
          (rv, stat) = (if adxrs450_parity_check_32 reading \<noteq> EOK
                        then (gyro_rw_err, stat \<lparr> parity_err := parity_err stat + 1 \<rparr>) else (gyro_ok, stat))
      in if kind = 0 then (gyro_rw_err, stat \<lparr> rw_err := rw_err stat + 1 \<rparr>)
         else if kind = 2 then (rv, stat)
         else if kind = 1 then (gyro_rw_err, stat)
         else if kind = 4 \<or> kind = 6 \<or> kind = 7
         then (let (rv, stat) =
                 (if st = 0 then (gyro_st_inval_rdngr, stat \<lparr> st_invrdng := st_invrdng stat + 1 \<rparr>)
                  else if st = 2 then (gyro_st_inval_rdngr, stat)
                  else (rv, stat))
               in if errs \<noteq> 0 then (gyro_st_flags, count_flags errs stat) else (rv, stat))
         else (rv, stat))"

section \<open>Decoding the samples\<close>

text \<open>The macros of devices_common.h; the argument is not negative.\<close>

definition TWOS_CONVERT16 :: "nat \<Rightarrow> int" where
  "TWOS_CONVERT16 d = (if 32767 < d then int d - 65536 else int d)"

definition TWOS_CONVERT10 :: "nat \<Rightarrow> int" where
  "TWOS_CONVERT10 d = (if 511 < d then int d - 1024 else int d)"

record sens_onboard_adc_data =
  Ax :: int
  Ay :: int
  Az :: int
  TAx :: int
  TAy :: int
  TAz :: int
  Gx :: int
  Gy :: int
  Gz :: int
  TGx :: int
  TGy :: int
  TGz :: int
  Pstat :: int
  Pdiff :: int
  Pdyn :: int
  PadcT :: int

definition AD7190_CHANNEL_DIFF :: u32 where "AD7190_CHANNEL_DIFF = 0"
definition AD7190_CHANNEL_TEMPR :: u32 where "AD7190_CHANNEL_TEMPR = 2"
definition AD7190_CHANNEL_ABS :: u32 where "AD7190_CHANNEL_ABS = 4"
definition AD7190_CHANNEL_DYN :: u32 where "AD7190_CHANNEL_DYN = 6"
definition AD7190_CHANNEL_BIAS :: u32 where "AD7190_CHANNEL_BIAS = 0x800000"

definition rate_of :: "u32 \<Rightarrow> int" where
  "rate_of reading = TWOS_CONVERT16 (unat (drop_bit 10 reading AND 0xFFFF))"

definition tempr_of :: "u32 \<Rightarrow> int" where
  "tempr_of reading = TWOS_CONVERT10 (unat (drop_bit 11 reading AND 0x3FF))"

definition accel_tempr_of :: "u32 \<Rightarrow> int" where
  "accel_tempr_of w = TWOS_CONVERT10 (unat (SPI_PDC_EXTRACT_WORD w) div 2 ^ 5)"

definition ad7190_data_of :: "p_data \<Rightarrow> u32" where
  "ad7190_data_of p =
     (let s = ad7190_channel_seq p; byte = (\<lambda>k. ucast (SPI_PDC_EXTRACT_BYTE (s ! k))) in
      push_bit 24 (byte 1) OR push_bit 16 (byte 2) OR push_bit 8 (byte 3) OR byte 4)"

text \<open>One of the four pressure values is replaced, by the channel in the status byte; a word kept in an int is read as a
  signed number.\<close>

definition store_pressure :: "u32 \<Rightarrow> sens_onboard_adc_data \<Rightarrow> sens_onboard_adc_data" where
  "store_pressure w adc =
     (let ch = AD7190_DATA_EXTRACT_CHNL (AD7190_MASK_LSB w) in
      if ch = AD7190_CHANNEL_DIFF then adc \<lparr> Pdiff := sint (AD7190_CHANNEL_BIAS - AD7190_DATA_EXTRACT w) \<rparr>
      else if ch = AD7190_CHANNEL_ABS then adc \<lparr> Pstat := sint (AD7190_DATA_EXTRACT w - AD7190_CHANNEL_BIAS) \<rparr>
      else if ch = AD7190_CHANNEL_DYN then adc \<lparr> Pdyn := sint (AD7190_DATA_EXTRACT w - AD7190_CHANNEL_BIAS) \<rparr>
      else if ch = AD7190_CHANNEL_TEMPR then adc \<lparr> PadcT := sint (AD7190_DATA_EXTRACT w) \<rparr>
      else adc)"

text \<open>The three readings of a gyroscope, in the order in which they are looked at; the results are dropped.\<close>

definition count_gyro :: "u64 \<Rightarrow> u64 \<Rightarrow> u64 \<Rightarrow> gyro_errors \<Rightarrow> gyro_errors" where
  "count_gyro rate tempr fault stat =
     fold (\<lambda>w stat. snd (get_gyro_errs_and_report (SPI_PDC_EXTRACT_DWORD w) stat)) [rate, tempr, fault] stat"

definition decode_samples :: "p_data \<Rightarrow> sens_onboard_adc_data \<Rightarrow> sens_onboard_adc_data" where
  "decode_samples p adc =
     (let adc = adc \<lparr> Ax := int (unat (SPI_PDC_EXTRACT_WORD (accel_x p))),
                      Ay := int (unat (SPI_PDC_EXTRACT_WORD (accel_y p))),
                      Az := int (unat (SPI_PDC_EXTRACT_WORD (accel_z p))),
                      TAx := accel_tempr_of (accel_temp_xy p), TAy := accel_tempr_of (accel_temp_xy p),
                      TAz := accel_tempr_of (accel_temp_zy p),
                      Gx := rate_of (SPI_PDC_EXTRACT_DWORD (gyro_x p)), Gy := rate_of (SPI_PDC_EXTRACT_DWORD (gyro_y p)),
                      Gz := rate_of (SPI_PDC_EXTRACT_DWORD (gyro_z p)),
                      TGx := tempr_of (SPI_PDC_EXTRACT_DWORD (temp_gx p)), TGy := tempr_of (SPI_PDC_EXTRACT_DWORD (temp_gy p)),
                      TGz := tempr_of (SPI_PDC_EXTRACT_DWORD (temp_gz p)) \<rparr>
      in store_pressure (ad7190_data_of p) adc)"

definition fcnav_get_data ::
    "'h fpga \<Rightarrow> sens_onboard_adc_data \<Rightarrow> spi_sensors_stat \<Rightarrow> nav \<times> 'h \<Rightarrow>
     (errno \<times> sens_onboard_adc_data \<times> spi_sensors_stat) \<times> nav \<times> 'h" where
  "fcnav_get_data hw adc stat s =
     (let n = (fst s) \<lparr> nv_update_counter := nv_update_counter (fst s) + 1 \<rparr>;
          ((_, d, _), h) = spiplr_resp_vector_get hw (nv_plr n) P_DATA_SIZE (snd s);
          p = words_p_data d;
          adc = decode_samples p adc;
          stat = stat \<lparr> stat_x := count_gyro (gyro_x p) (temp_gx p) (fault_gx p) (stat_x stat),
                        stat_y := count_gyro (gyro_y p) (temp_gy p) (fault_gy p) (stat_y stat),
                        stat_z := count_gyro (gyro_z p) (temp_gz p) (fault_gz p) (stat_z stat) \<rparr>
      in ((EOK, adc, stat), n, h))"

definition fcnav_get_spi_sensors_stat :: "nav \<Rightarrow> spi_sensors_stat" where
  "fcnav_get_spi_sensors_stat n = nv_stat n"

definition ssd_fcnav_raw_to_adc_data ::
    "'h fpga \<Rightarrow> sens_onboard_adc_data \<Rightarrow> nav \<times> 'h \<Rightarrow> (errno \<times> sens_onboard_adc_data) \<times> nav \<times> 'h" where
  "ssd_fcnav_raw_to_adc_data hw adc s =
     (let n = fst s;
          stat = (nv_stat n) \<lparr> spi_plr_poll_cnt := nv_irq_spiplr_cnt n, sw_update_cnt := nv_update_counter n \<rparr>;
          ((_, adc, stat), n, h) = fcnav_get_data hw adc stat s
      in ((EOK, adc), n \<lparr> nv_stat := stat \<rparr>, h))"

section \<open>Diagnosis and service\<close>

definition SENS_SPI_DIAG_FAILURE_FLAG_GX :: u32 where "SENS_SPI_DIAG_FAILURE_FLAG_GX = 1"
definition SENS_SPI_DIAG_FAILURE_FLAG_GY :: u32 where "SENS_SPI_DIAG_FAILURE_FLAG_GY = 2"
definition SENS_SPI_DIAG_FAILURE_FLAG_GZ :: u32 where "SENS_SPI_DIAG_FAILURE_FLAG_GZ = 4"
definition SENS_SPI_DIAG_FAILURE_FLAG_ADS_ADC :: u32 where "SENS_SPI_DIAG_FAILURE_FLAG_ADS_ADC = 0x40"

definition dry_read :: "'h fpga \<Rightarrow> spiplr_instance \<Rightarrow> 'h \<Rightarrow> 'h" where
  "dry_read hw i h = snd (fc_dxrs450_diag hw i FCNAV_SPIPLR_DEV_ID_GYRO_X \<lparr> gr_sn = 0, gr_fault_reg = 0, gr_diag_res = 0 \<rparr> h)"

definition ssd_fcnav_startup_diag :: "'h fpga \<Rightarrow> spiplr_instance \<Rightarrow> 'h \<Rightarrow> u32 \<times> 'h" where
  "ssd_fcnav_startup_diag hw i h =
     (let h = dry_read hw i h;
          (rx, h) = fc_dxrs450_diag_and_report hw i FCNAV_SPIPLR_DEV_ID_GYRO_X h;
          (ry, h) = fc_dxrs450_diag_and_report hw i FCNAV_SPIPLR_DEV_ID_GYRO_Y h;
          (rz, h) = fc_dxrs450_diag_and_report hw i FCNAV_SPIPLR_DEV_ID_GYRO_Z h;
          (ra, h) = fc_d7190_start_and_report hw i FCNAV_SPIPLR_DEV_ID_BADC True h
      in ((if rx = EOK then 0 else SENS_SPI_DIAG_FAILURE_FLAG_GX) OR (if ry = EOK then 0 else SENS_SPI_DIAG_FAILURE_FLAG_GY) OR
          (if rz = EOK then 0 else SENS_SPI_DIAG_FAILURE_FLAG_GZ) OR (if ra = EOK then 0 else SENS_SPI_DIAG_FAILURE_FLAG_ADS_ADC), h))"

text \<open>The service of the atomic: what it does with the sensors before its loop, and for one received message (the calls that attach
  and unmask the interrupt are the system's): a message of another
  process is skipped, an error ends the service, a pulse of the poller updates the samples.\<close>

datatype imu_message = Message | Receive_error | Pulse nat

definition PULSE_CODE_UPDATE_POLLER_IRQ :: nat where "PULSE_CODE_UPDATE_POLLER_IRQ = 5"

definition imu_service_start :: "'h fpga \<Rightarrow> nat option \<Rightarrow> u32 \<Rightarrow> nav \<times> 'h \<Rightarrow> (nav \<times> 'h) option" where
  "imu_service_start hw mapped period_us s =
     do { (_, n, h) \<leftarrow> fcnav_init hw mapped period_us s;
          let (_, h) = ssd_fcnav_startup_diag hw (nv_plr n) h;
          let s = fcnav_poll_start hw (fcnav_irq_en hw (n, h));
          Some (snd (fcnav_read_status hw s)) }"

text \<open>The samples, the state, and whether the loop goes on.\<close>

definition imu_service_round ::
    "'h fpga \<Rightarrow> imu_message \<Rightarrow> sens_onboard_adc_data \<Rightarrow> nav \<times> 'h \<Rightarrow> bool \<times> sens_onboard_adc_data \<times> nav \<times> 'h" where
  "imu_service_round hw msg adc s =
     (case msg of
        Message \<Rightarrow> (True, adc, s)
      | Receive_error \<Rightarrow> (False, adc, s)
      | Pulse code \<Rightarrow>
          if code = PULSE_CODE_UPDATE_POLLER_IRQ
          then (let (_, s) = fcnav_read_status hw s;
                    s = fcnav_reset_status hw s;
                    ((_, adc), s) = ssd_fcnav_raw_to_adc_data hw adc s;
                    (_, s) = fcnav_irq_cnt_mon hw s
                in (True, adc, s))
          else (True, adc, s))"

text \<open>The pointer of the atomic, and the start of its module; a frequency of 0 is a division by zero. \<open>Freed\<close>: the pointer is
  left as it was when what it points to has been given back.\<close>

datatype imu_pointer = Null | Live | Freed
datatype fspec_rv = fspec_rv_ok | fspec_rv_exists | fspec_rv_no_memory | fspec_rv_system_err

definition ctlst_main_imu_pre_exec_init :: "u32 \<Rightarrow> bool \<Rightarrow> int list \<Rightarrow> imu_pointer \<Rightarrow> (fspec_rv \<times> imu_pointer) option" where
  "ctlst_main_imu_pre_exec_init freq allocated results imu =
     (if imu \<noteq> Null then Some (fspec_rv_exists, imu)
      else if \<not> allocated then Some (fspec_rv_no_memory, Null)
      else if freq = 0 then None
      else if \<exists>rv \<in> set results. rv \<noteq> 0 then Some (fspec_rv_system_err, Freed)
      else Some (fspec_rv_ok, Live))"

section \<open>The structure as words\<close>

lemma words_dword_words: "words_dword (ucast w) (ucast (drop_bit 32 w)) = w"
  unfolding words_dword_def by (rule bit_word_eqI) (auto simp: bit_simps)

lemma p_data_words_length: "length (ad7190_channel_seq b) = 5 \<Longrightarrow> length (p_data_words b) = 29"
  by (simp add: p_data_words_def dword_words_def)

lemma p_data_roundtrip: "length (ad7190_channel_seq b) = 5 \<Longrightarrow> words_p_data (p_data_words b) = b"
proof -
  assume "length (ad7190_channel_seq b) = 5"
  then obtain s0 s1 s2 s3 s4 where "ad7190_channel_seq b = [s0, s1, s2, s3, s4]"
    by (auto simp: length_Suc_conv numeral_eq_Suc)
  then show ?thesis
    by (simp add: p_data_words_def words_p_data_def dword_words_def words_dword_words)
qed

text \<open>The request vector fits, so the start succeeds for every period that the division admits.\<close>

lemma fcnav_init_returns_zero:
  assumes "period \<noteq> 0" and "1000000 div period \<noteq> 0"
  shows "\<exists>n h. fcnav_init hw mapped period s = Some (0, n, h)"
proof -
  have "length (p_data_words init_req_buffer) = 29"
    by (rule p_data_words_length) (simp add: init_req_buffer_def Let_def)
  then show ?thesis
    using assms by (simp add: fcnav_init_def spiplr_poll_set_period_def spiplr_req_vector_set_def SPIPLR_POLL_VECTOR_SIZE_def Let_def)
qed

section \<open>Two's complement\<close>

lemma signed_take_bit_cases:
  fixes k :: int
  assumes "0 \<le> k" and "k < 2 ^ Suc n"
  shows "signed_take_bit n k = (if k < 2 ^ n then k else k - 2 ^ Suc n)"
proof -
  define m :: int where "m = 2 ^ n"
  have k: "0 \<le> k" "k < 2 * m" and m: "2 ^ Suc n = 2 * m"
    using assms by (simp_all add: m_def)
  have s: "signed_take_bit n k = (k + m) mod (2 * m) - m"
    by (simp add: signed_take_bit_eq_take_bit_shift take_bit_eq_mod m_def)
  show ?thesis
  proof (cases "k < m")
    case True
    then have "(k + m) mod (2 * m) = k + m"
      using k by (intro mod_pos_pos_trivial) linarith+
    then show ?thesis
      using True unfolding s m m_def [symmetric] by simp
  next
    case False
    have "(k + m) mod (2 * m) = (k - m + 1 * (2 * m)) mod (2 * m)"
      by (simp add: algebra_simps)
    also have "\<dots> = k - m"
      unfolding mod_mult_self1 using k False by (intro mod_pos_pos_trivial) linarith+
    finally show ?thesis
      using False unfolding s m m_def [symmetric] by simp
  qed
qed

lemma TWOS_CONVERT16_sint: "TWOS_CONVERT16 (unat w) = sint w" for w :: u16
proof -
  have u: "int (unat w) = uint w" "0 \<le> uint w" "uint w < 65536"
    using uint_bounded [of w] by simp_all
  have "32767 < unat w \<longleftrightarrow> \<not> uint w < 32768"
    using u(1) by linarith
  then show ?thesis
    using signed_take_bit_cases [of "uint w" 15] u by (simp add: TWOS_CONVERT16_def sint_uint)
qed

lemma TWOS_CONVERT10_sint: "TWOS_CONVERT10 (unat w) = sint w" for w :: "10 word"
proof -
  have u: "int (unat w) = uint w" "0 \<le> uint w" "uint w < 1024"
    using uint_bounded [of w] by simp_all
  have "511 < unat w \<longleftrightarrow> \<not> uint w < 512"
    using u(1) by linarith
  then show ?thesis
    using signed_take_bit_cases [of "uint w" 9] u by (simp add: TWOS_CONVERT10_def sint_uint)
qed

lemma rate_of_sint: "rate_of r = sint (ucast (drop_bit 10 r) :: u16)"
proof -
  have "unat (drop_bit 10 r AND 0xFFFF) = unat (ucast (drop_bit 10 r) :: u16)"
    unfolding masks take_bit_eq_mask [symmetric] by (simp add: unsigned_ucast_eq unsigned_take_bit_eq)
  then show ?thesis
    by (simp only: rate_of_def TWOS_CONVERT16_sint)
qed

lemma tempr_of_sint: "tempr_of r = sint (ucast (drop_bit 11 r) :: 10 word)"
proof -
  have m: "(0x3FF :: u32) = mask 10"
    by (simp add: mask_eq_exp_minus_1)
  have "unat (drop_bit 11 r AND 0x3FF) = unat (ucast (drop_bit 11 r) :: 10 word)"
    unfolding m take_bit_eq_mask [symmetric] by (simp add: unsigned_ucast_eq unsigned_take_bit_eq)
  then show ?thesis
    by (simp only: tempr_of_def TWOS_CONVERT10_sint)
qed

section \<open>The pressure values\<close>

lemma EXTRACT_BYTE_ucast: "SPI_PDC_EXTRACT_BYTE w = ucast w"
  unfolding SPI_PDC_EXTRACT_BYTE_def masks by (rule bit_word_eqI) (auto simp: bit_simps)

lemma EXTRACT_WORD_ucast: "SPI_PDC_EXTRACT_WORD w = ucast w"
  unfolding SPI_PDC_EXTRACT_WORD_def masks by (rule bit_word_eqI) (auto simp: bit_simps)

lemma bytes24_bound: "unat (bytes24 b2 b1 b0) < 2 ^ 24"
proof -
  have "take_bit 24 (bytes24 b2 b1 b0) = bytes24 b2 b1 b0"
  proof (rule bit_word_eqI)
    fix n assume "n < LENGTH(32)"
    show "bit (take_bit 24 (bytes24 b2 b1 b0)) n = bit (bytes24 b2 b1 b0) n"
      unfolding bytes24_def using bit_imp_le_length [of b2 "n - 16"] bit_imp_le_length [of b1 "n - 8"] bit_imp_le_length [of b0 n]
      by (auto simp: bit_simps)
  qed
  then show ?thesis
    by (metis unsigned_take_bit_eq take_bit_nat_less_exp)
qed

lemma adc_code:
  "AD7190_DATA_EXTRACT (ad7190_data_of p) =
     bytes24 (ucast (ad7190_channel_seq p ! 1)) (ucast (ad7190_channel_seq p ! 2)) (ucast (ad7190_channel_seq p ! 3))"
proof (rule bit_word_eqI)
  fix n assume "n < LENGTH(32)"
  have "8 + n - 24 = n - 16" "8 + n - 16 = n - 8"
    by simp_all
  then show "bit (AD7190_DATA_EXTRACT (ad7190_data_of p)) n = bit (bytes24 (ucast (ad7190_channel_seq p ! 1))
      (ucast (ad7190_channel_seq p ! 2)) (ucast (ad7190_channel_seq p ! 3))) n"
    unfolding AD7190_DATA_EXTRACT_def ad7190_data_of_def bytes24_def Let_def EXTRACT_BYTE_ucast
    by (auto simp: bit_simps)
qed

lemma adc_channel:
  "AD7190_DATA_EXTRACT_CHNL (AD7190_MASK_LSB (ad7190_data_of p)) = (ad7190_channel_seq p ! 4) AND 6"
proof -
  have six: "(6 :: u32) = NOT 1 AND mask 3" and seven: "(0x7 :: u32) = mask 3"
    by (simp_all add: mask_eq_exp_minus_1)
  have "ad7190_data_of p AND mask 3 = ad7190_channel_seq p ! 4 AND mask 3"
    unfolding ad7190_data_of_def Let_def EXTRACT_BYTE_ucast by (rule bit_word_eqI) (auto simp: bit_simps)
  then show ?thesis
    unfolding AD7190_DATA_EXTRACT_CHNL_def AD7190_MASK_LSB_def six seven
    by (metis (no_types) and.assoc and.commute)
qed

lemma sint_diff_small:
  fixes a b :: u32
  assumes "unat a < 2 ^ 31" and "unat b < 2 ^ 31"
  shows "sint (a - b) = int (unat a) - int (unat b)"
proof -
  have "sint (a - b) = signed_take_bit 31 (int (unat a) - int (unat b))"
    unfolding sint_word_diff sint_of_small [OF assms(1)] sint_of_small [OF assms(2)] by simp
  also have "\<dots> = int (unat a) - int (unat b)"
  proof (rule signed_take_bit_int_eq_self)
    have "unat a < 2147483648" "unat b < 2147483648"
      using assms by simp_all
    then have "int (unat a) < 2147483648" "int (unat b) < 2147483648" "0 \<le> int (unat a)" "0 \<le> int (unat b)"
      by linarith+
    then have "- 2147483648 \<le> int (unat a) - int (unat b)" "int (unat a) - int (unat b) < 2147483648"
      by linarith+
    then show "- (2 ^ 31) \<le> int (unat a) - int (unat b)" "int (unat a) - int (unat b) < 2 ^ 31"
      by simp_all
  qed
  finally show ?thesis .
qed

lemma store_pressure_values:
  fixes p :: p_data
  defines "ch \<equiv> (ad7190_channel_seq p ! 4) AND 6"
    and "code \<equiv> int (unat (AD7190_DATA_EXTRACT (ad7190_data_of p)))"
  shows "Pdiff (store_pressure (ad7190_data_of p) adc) = (if ch = 0 then 2 ^ 23 - code else Pdiff adc)"
    and "Pstat (store_pressure (ad7190_data_of p) adc) = (if ch = 4 then code - 2 ^ 23 else Pstat adc)"
    and "Pdyn (store_pressure (ad7190_data_of p) adc) = (if ch = 6 then code - 2 ^ 23 else Pdyn adc)"
    and "PadcT (store_pressure (ad7190_data_of p) adc) = (if ch = 2 then code else PadcT adc)"
proof -
  let ?w = "AD7190_DATA_EXTRACT (ad7190_data_of p)"
  have small: "unat ?w < 2 ^ 31"
    using bytes24_bound [of "ucast (ad7190_channel_seq p ! 1)" "ucast (ad7190_channel_seq p ! 2)" "ucast (ad7190_channel_seq p ! 3)"]
    unfolding adc_code by (rule less_trans) simp
  have d: "sint (0x800000 - ?w) = 2 ^ 23 - code" "sint (?w - 0x800000) = code - 2 ^ 23" "sint ?w = code"
    using sint_diff_small [of "0x800000" ?w] sint_diff_small [of ?w "0x800000"] sint_of_small [of ?w] small
    by (simp_all add: code_def)
  show "Pdiff (store_pressure (ad7190_data_of p) adc) = (if ch = 0 then 2 ^ 23 - code else Pdiff adc)"
    and "Pstat (store_pressure (ad7190_data_of p) adc) = (if ch = 4 then code - 2 ^ 23 else Pstat adc)"
    and "Pdyn (store_pressure (ad7190_data_of p) adc) = (if ch = 6 then code - 2 ^ 23 else Pdyn adc)"
    and "PadcT (store_pressure (ad7190_data_of p) adc) = (if ch = 2 then code else PadcT adc)"
    unfolding store_pressure_def adc_channel Let_def AD7190_CHANNEL_BIAS_def AD7190_CHANNEL_DIFF_def AD7190_CHANNEL_TEMPR_def
      AD7190_CHANNEL_ABS_def AD7190_CHANNEL_DYN_def d ch_def [symmetric]
    by simp_all
qed

section \<open>The samples\<close>

text \<open>The 32 bits that two words of the response vector carry for a gyroscope.\<close>

definition frame_at :: "u32 list \<Rightarrow> nat \<Rightarrow> u32" where
  "frame_at ws k = push_bit 16 (ws ! k AND 0xFFFF) OR (ws ! Suc k AND 0xFFFF)"

text \<open>C36: The samples that the driver takes from the response vector \<open>ws\<close> of the poller, whatever it holds. The
  rates are bits 10 to 25 of the answers in the second slot of each gyroscope and the temperatures bits 11 to 20 of those in the
  third, both as two's complement numbers; the accelerations are unsigned 16 bit values. The channel in the status byte
  of the converter names the one pressure value that is replaced, by its 24 bit code with the bias taken off (the differential
  one with the opposite sign); the other three keep their values.\<close>

theorem nav_samples_decoded:
  "let (ws, h') = read_vector hw (plr_base (nv_plr n) + SPIPLR_POLL_RESP_VECTOR_OFF) 0 29 h;
       ((rv, adc', stat'), n', h'') = fcnav_get_data hw adc stat (n, h);
       code = int (unat (bytes24 (ucast (ws ! 25)) (ucast (ws ! 26)) (ucast (ws ! 27))));
       ch = ws ! 28 AND 6
   in rv = EOK \<and> h'' = h' \<and>
      Gx adc' = sint (ucast (drop_bit 10 (frame_at ws 2)) :: u16) \<and>
      Gy adc' = sint (ucast (drop_bit 10 (frame_at ws 8)) :: u16) \<and>
      Gz adc' = sint (ucast (drop_bit 10 (frame_at ws 14)) :: u16) \<and>
      TGx adc' = sint (ucast (drop_bit 11 (frame_at ws 4)) :: 10 word) \<and>
      TGy adc' = sint (ucast (drop_bit 11 (frame_at ws 10)) :: 10 word) \<and>
      TGz adc' = sint (ucast (drop_bit 11 (frame_at ws 16)) :: 10 word) \<and>
      Ax adc' = uint (ucast (ws ! 21) :: u16) \<and> Ay adc' = uint (ucast (ws ! 23) :: u16) \<and> Az adc' = uint (ucast (ws ! 20) :: u16) \<and>
      Pdiff adc' = (if ch = 0 then 2 ^ 23 - code else Pdiff adc) \<and>
      PadcT adc' = (if ch = 2 then code else PadcT adc) \<and>
      Pstat adc' = (if ch = 4 then code - 2 ^ 23 else Pstat adc) \<and>
      Pdyn adc' = (if ch = 6 then code - 2 ^ 23 else Pdyn adc)"
proof -
  obtain ws h' where ws: "read_vector hw (plr_base (nv_plr n) + SPIPLR_POLL_RESP_VECTOR_OFF) 0 29 h = (ws, h')"
    by fastforce
  let ?p = "words_p_data ws"
  have seq: "ad7190_channel_seq ?p ! 1 = ws ! 25" "ad7190_channel_seq ?p ! 2 = ws ! 26" "ad7190_channel_seq ?p ! 3 = ws ! 27"
      "ad7190_channel_seq ?p ! 4 = ws ! 28"
    by (simp_all add: words_p_data_def)
  have frames: "SPI_PDC_EXTRACT_DWORD (gyro_x ?p) = frame_at ws 2" "SPI_PDC_EXTRACT_DWORD (gyro_y ?p) = frame_at ws 8"
      "SPI_PDC_EXTRACT_DWORD (gyro_z ?p) = frame_at ws 14" "SPI_PDC_EXTRACT_DWORD (temp_gx ?p) = frame_at ws 4"
      "SPI_PDC_EXTRACT_DWORD (temp_gy ?p) = frame_at ws 10" "SPI_PDC_EXTRACT_DWORD (temp_gz ?p) = frame_at ws 16"
    by (simp_all add: words_p_data_def EXTRACT_words frame_at_def)
  have other: "Gx (store_pressure w a) = Gx a" "Gy (store_pressure w a) = Gy a" "Gz (store_pressure w a) = Gz a"
      "TGx (store_pressure w a) = TGx a" "TGy (store_pressure w a) = TGy a" "TGz (store_pressure w a) = TGz a"
      "Ax (store_pressure w a) = Ax a" "Ay (store_pressure w a) = Ay a" "Az (store_pressure w a) = Az a" for w a
    by (simp_all add: store_pressure_def Let_def)
  have acc: "accel_x ?p = ws ! 21" "accel_y ?p = ws ! 23" "accel_z ?p = ws ! 20"
    by (simp_all add: words_p_data_def)
  obtain n' stat' where g: "fcnav_get_data hw adc stat (n, h) = ((EOK, decode_samples ?p adc, stat'), n', h')"
    using ws by (simp add: fcnav_get_data_def spiplr_resp_vector_get_def P_DATA_SIZE_def Let_def)
  show ?thesis
    unfolding ws g Let_def prod.case decode_samples_def other store_pressure_values adc_code seq
    by (simp add: frames acc rate_of_sint tempr_of_sint EXTRACT_WORD_ucast)
qed

section \<open>Errors in the readings\<close>

lemma count_flags_parity [simp]: "parity_err (count_flags errs stat) = parity_err stat"
  by (simp add: count_flags_def Let_def)

text \<open>A reading that passed the parity check at the device and has an odd number of bits flipped on the way is counted, and
  the result is not \<open>gyro_ok\<close>, whatever the flipped bits make of it.\<close>

theorem gyro_error_counted:
  assumes "adxrs450_parity_check_32 d = EOK" and "odd (ones e)"
  shows "parity_err (snd (get_gyro_errs_and_report (d XOR e) stat)) = parity_err stat + 1 \<and>
         fst (get_gyro_errs_and_report (d XOR e) stat) \<noteq> gyro_ok"
proof -
  have "adxrs450_parity_check_32 (d XOR e) \<noteq> EOK"
    using assms parity_check_ones [of d] parity_check_ones [of "d XOR e"] even_ones_xor [of d e] by blast
  then show ?thesis
    by (simp add: get_gyro_errs_and_report_def Let_def)
qed

text \<open>The sensor answer with the sequence number \<open>sq\<close>, the status of valid data, the rate \<open>x\<close> and no flag.\<close>

definition rate_answer :: "u32 \<Rightarrow> u16 \<Rightarrow> u32" where
  "rate_answer sq x = (let d = push_bit 29 sq OR push_bit 26 1 OR push_bit 10 (ucast x) in d OR adxrs450_parity_calc_32 d)"

lemma bit_numeral_pow: "bit (push_bit k (1 :: u32)) n \<longleftrightarrow> n = k \<and> k < 32"
  by (auto simp: bit_simps)

lemma rate_answer_bits:
  "bit (rate_answer sq x) n \<longleftrightarrow>
     (29 \<le> n \<and> n < 32 \<and> bit sq (n - 29)) \<or> n = 26 \<or> (10 \<le> n \<and> bit x (n - 10)) \<or> (n = 0 \<and> bit (rate_answer sq x) 0)"
proof -
  define w :: u32 where "w = push_bit 26 1"
  have w: "bit w n \<longleftrightarrow> n = 26" for n
    unfolding w_def by (simp only: bit_numeral_pow) simp
  have x: "bit x (n - 10) \<longrightarrow> n < 32" for n
    using bit_imp_le_length [of x "n - 10"] by auto
  show ?thesis
    unfolding rate_answer_def Let_def w_def [symmetric] parity_calc_bits
    by (cases "n = 0") (use x [of n] in \<open>auto simp: bit_simps w\<close>)
qed

lemma rate_answer_decoded:
  "ucast (drop_bit 10 (rate_answer sq x)) = x"
proof (rule bit_word_eqI)
  fix n assume "n < LENGTH(16)"
  then show "bit (ucast (drop_bit 10 (rate_answer sq x)) :: u16) n = bit x n"
    using rate_answer_bits [of sq x "10 + n"] bit_imp_le_length [of x n] by (auto simp: bit_simps)
qed

text \<open>Interrupts: after a first reading of the counter there is a message exactly when it is not one more than before, with the
  number of interrupts in between, and the driver's counter follows the poller's.\<close>

theorem irq_missed_reported:
  assumes "nv_irq_counter_inited n" and "in32 hw (plr_base (nv_plr n) + SPIPLR_IRQ_COUNTER_OFF) h = (cnt, h')"
  shows "\<exists>msg n'. fcnav_irq_cnt_mon hw (n, h) = (msg, n', h') \<and> nv_irq_counter n' = cnt \<and> nv_irq_counter_inited n' \<and>
           (msg = None \<longleftrightarrow> cnt = nv_irq_counter n + 1) \<and>
           (cnt \<noteq> nv_irq_counter n + 1 \<longrightarrow> msg = Some (uint (cnt - nv_irq_counter n - 1), cnt))"
  using assms by (auto simp: fcnav_irq_cnt_mon_def spi_plr_get_irq_counter_def Let_def diff_diff_eq not_less)

text \<open>The function that is to disable the interrupt enables it.\<close>

theorem irq_dis_enables: "fcnav_irq_dis hw s = fcnav_irq_en hw s"
  by (simp add: fcnav_irq_dis_def fcnav_irq_en_def)

text \<open>A start that fails after the allocation leaves the pointer to what it has freed, so that the next one finds the
  module in place.\<close>

theorem imu_failed_start_stays:
  assumes "freq \<noteq> 0" and "\<exists>rv \<in> set results. rv \<noteq> 0"
  shows "ctlst_main_imu_pre_exec_init freq True results Null = Some (fspec_rv_system_err, Freed) \<and>
         ctlst_main_imu_pre_exec_init freq' a' results' Freed = Some (fspec_rv_exists, Freed)"
  using assms by (simp add: ctlst_main_imu_pre_exec_init_def)

text \<open>The service goes on unless the reception of a message fails, and only a pulse of the poller touches the samples.\<close>

lemma imu_service_goes_on: "fst (imu_service_round hw msg adc s) \<longleftrightarrow> msg \<noteq> Receive_error"
  by (simp add: imu_service_round_def Let_def split: imu_message.split prod.split)

lemma imu_service_other_messages:
  "msg \<noteq> Pulse PULSE_CODE_UPDATE_POLLER_IRQ \<Longrightarrow> snd (imu_service_round hw msg adc s) = (adc, s)"
  by (simp add: imu_service_round_def split: imu_message.split)

text \<open>The diagnosis is clean exactly when the three gyroscopes and the converter are.\<close>

lemma startup_flags_disjoint:
  "(if a then 0 else SENS_SPI_DIAG_FAILURE_FLAG_GX) OR (if b then 0 else SENS_SPI_DIAG_FAILURE_FLAG_GY) OR
   (if c then 0 else SENS_SPI_DIAG_FAILURE_FLAG_GZ) OR (if d then 0 else SENS_SPI_DIAG_FAILURE_FLAG_ADS_ADC) = 0 \<longleftrightarrow>
   a \<and> b \<and> c \<and> d"
  by (simp add: SENS_SPI_DIAG_FAILURE_FLAG_GX_def SENS_SPI_DIAG_FAILURE_FLAG_GY_def SENS_SPI_DIAG_FAILURE_FLAG_GZ_def
      SENS_SPI_DIAG_FAILURE_FLAG_ADS_ADC_def)

end
