(* ===== verification/ZynqGpio.thy ===== *)
theory ZynqGpio
  imports SpiPlr
begin

text \<open>
  The pins of the control station board (bsp/mcu/periph/gpio/zynq/gpio.c, gpio.h): 16 outputs and 16 inputs in programmable logic, of
  which channels 12 to 15 share their pins; and the atomics over them (atomics/ctlst/io) without those
  that compute in floating point. The registers are the parameter of \<open>SpiPlr\<close>. None is an access through a null or a freed pointer.
\<close>

section \<open>Registers (gpio.h)\<close>

definition OUT_SETUP_OFF :: nat where "OUT_SETUP_OFF = 0x200"
definition OUT_VALUE_OFF :: nat where "OUT_VALUE_OFF = 0x400"
definition INPUT_SETUP_OFF :: nat where "INPUT_SETUP_OFF = 0xA00"
definition INPUT_VALUE_OFF :: nat where "INPUT_VALUE_OFF = 0xC00"
definition PIN_REG_AMOUNT :: u32 where "PIN_REG_AMOUNT = 8"
definition BYTES_IN_REG :: u32 where "BYTES_IN_REG = 4"
definition IO_OFF :: nat where "IO_OFF = 0x00"
definition FDIO_SETUP_OFF :: nat where "FDIO_SETUP_OFF = 0x04"
definition CPS_FI_SETUP_OFF :: nat where "CPS_FI_SETUP_OFF = 0x08"
definition PWM_CTRL_REG_OFF :: nat where "PWM_CTRL_REG_OFF = 0x8"
definition PHASE_CTRL_REG_OFF :: nat where "PHASE_CTRL_REG_OFF = 0x10"
definition PWM_ESTIMATOR_CTRL_OFF :: nat where "PWM_ESTIMATOR_CTRL_OFF = 0x8"
definition PHASE_ESTIMATOR_CTRL_OFF :: nat where "PHASE_ESTIMATOR_CTRL_OFF = 0xC"
definition PH_EST_ALL_TOOTH_NUM_OFF :: nat where "PH_EST_ALL_TOOTH_NUM_OFF = 0x10"
definition PH_EST_ABS_TOOTH_NUM_OFF :: nat where "PH_EST_ABS_TOOTH_NUM_OFF = 0x14"
definition PH_EST_LOG2_PHASE_STEP_TOOTH_NUM_OFF :: nat where "PH_EST_LOG2_PHASE_STEP_TOOTH_NUM_OFF = 0x18"
definition IN_OUT_MUX_DISCRETE_MODE :: u32 where "IN_OUT_MUX_DISCRETE_MODE = 1"
definition IN_OUT_MUX_PWM_MODE :: u32 where "IN_OUT_MUX_PWM_MODE = 2"
definition IN_OUT_MUX_PHASE_MODE :: u32 where "IN_OUT_MUX_PHASE_MODE = 3"
definition PHASE_GEN_INV_OUTPUT_POS :: nat where "PHASE_GEN_INV_OUTPUT_POS = 1"
definition PHASE_GEN_TIME_MODE_POS :: nat where "PHASE_GEN_TIME_MODE_POS = 2"
definition PHASE_GEN_CHN_NUM_START_POS :: nat where "PHASE_GEN_CHN_NUM_START_POS = 8"
definition GPIO_PINS :: nat where "GPIO_PINS = 16"
definition GPIO_INPUT_OUTPUT_OFF :: nat where "GPIO_INPUT_OUTPUT_OFF = 12"
definition MCK_US_TO_TICKS :: u32 where "MCK_US_TO_TICKS = 100"

definition CH_OFF :: "u32 \<Rightarrow> nat" where
  "CH_OFF ch = unat (ch * PIN_REG_AMOUNT * BYTES_IN_REG)"

section \<open>State\<close>

datatype gpio_ptr = No_gpio | Gpio_at nat | Gpio_freed

record zgpio =
  zg_gpio :: gpio_ptr
  zg_channels :: u32

type_synonym 'h gpio_call = "zgpio \<times> 'h \<Rightarrow> (int \<times> zgpio \<times> 'h) option"

definition WRITE_REG :: "'h fpga \<Rightarrow> nat \<Rightarrow> u32 \<Rightarrow> zgpio \<times> 'h \<Rightarrow> (zgpio \<times> 'h) option" where
  "WRITE_REG hw off w s = (case zg_gpio (fst s) of Gpio_at b \<Rightarrow> Some (fst s, out32 hw (b + off) w (snd s)) | _ \<Rightarrow> None)"

definition READ_REG :: "'h fpga \<Rightarrow> nat \<Rightarrow> zgpio \<times> 'h \<Rightarrow> (u32 \<times> zgpio \<times> 'h) option" where
  "READ_REG hw off s =
     (case zg_gpio (fst s) of Gpio_at b \<Rightarrow> (let (w, h) = in32 hw (b + off) (snd s) in Some (w, fst s, h)) | _ \<Rightarrow> None)"

text \<open>The arguments after the channel: whether memory is left, where the system maps the registers, whether it grants access.\<close>

definition zynq_gpio_init :: "u32 \<Rightarrow> bool \<Rightarrow> nat option \<Rightarrow> bool \<Rightarrow> zgpio \<Rightarrow> int \<times> zgpio" where
  "zynq_gpio_init channel allocated mapped granted s =
     (if GPIO_PINS \<le> unat channel then (- 1, s)
      else if zg_gpio s = No_gpio
      then (if \<not> allocated then (- 1, s)
            else case mapped of
              None \<Rightarrow> (- 1, s \<lparr> zg_gpio := Gpio_at 0 \<rparr>)
            | Some b \<Rightarrow> if \<not> granted then (- 1, s \<lparr> zg_gpio := Gpio_freed \<rparr>) else (0, s \<lparr> zg_gpio := Gpio_at b \<rparr>))
      else (0, s))"

section \<open>Reservations\<close>

definition gpio_check_common :: "u32 \<Rightarrow> zgpio \<Rightarrow> int" where
  "gpio_check_common channel s = (if zg_gpio s = No_gpio \<or> GPIO_PINS \<le> unat channel then - 1 else 0)"

definition gpio_check_output :: "u32 \<Rightarrow> zgpio \<Rightarrow> int" where
  "gpio_check_output channel s =
     (let bit_of = push_bit (unat channel) 1 in
      if gpio_check_common channel s \<noteq> 0 then - 1
      else if zg_channels s AND bit_of \<noteq> 0 then - 1
      else if GPIO_INPUT_OUTPUT_OFF \<le> unat channel \<and> zg_channels s AND push_bit GPIO_PINS bit_of \<noteq> 0 then - 1
      else 0)"

definition gpio_check_input :: "u32 \<Rightarrow> zgpio \<Rightarrow> int" where
  "gpio_check_input channel s =
     (let bit_of = push_bit (unat channel) 1 in
      if gpio_check_common channel s \<noteq> 0 then - 1
      else if zg_channels s AND push_bit GPIO_PINS bit_of \<noteq> 0 then - 1
      else if GPIO_INPUT_OUTPUT_OFF \<le> unat channel \<and> zg_channels s AND bit_of \<noteq> 0 then - 1
      else 0)"

definition gpio_add_output :: "'h fpga \<Rightarrow> u32 \<Rightarrow> 'h gpio_call" where
  "gpio_add_output hw channel s =
     (if gpio_check_output channel (fst s) \<noteq> 0 then Some (- 1, s)
      else do {
        s \<leftarrow> (if GPIO_INPUT_OUTPUT_OFF \<le> unat channel
              then do { (reg, s) \<leftarrow> READ_REG hw (IO_OFF + FDIO_SETUP_OFF) s;
                        WRITE_REG hw (IO_OFF + FDIO_SETUP_OFF) (NOT (push_bit (unat channel - GPIO_INPUT_OUTPUT_OFF) 1) AND reg) s }
              else Some s);
        Some (0, (fst s) \<lparr> zg_channels := zg_channels (fst s) OR push_bit (unat channel) 1 \<rparr>, snd s) })"

definition gpio_add_input :: "'h fpga \<Rightarrow> u32 \<Rightarrow> 'h gpio_call" where
  "gpio_add_input hw channel s =
     (if gpio_check_input channel (fst s) \<noteq> 0 then Some (- 1, s)
      else do {
        s \<leftarrow> (if GPIO_INPUT_OUTPUT_OFF \<le> unat channel
              then do { (reg, s) \<leftarrow> READ_REG hw (IO_OFF + FDIO_SETUP_OFF) s;
                        WRITE_REG hw (IO_OFF + FDIO_SETUP_OFF) (push_bit (unat channel - GPIO_INPUT_OUTPUT_OFF) 1 OR reg) s }
              else Some s);
        Some (0, (fst s) \<lparr> zg_channels := zg_channels (fst s) OR push_bit GPIO_PINS (push_bit (unat channel) 1) \<rparr>, snd s) })"

text \<open>The writes of a mode, in order, after the channel has been reserved.\<close>

fun write_regs_in_turn :: "'h fpga \<Rightarrow> (nat \<times> u32) list \<Rightarrow> 'h gpio_call" where
  "write_regs_in_turn hw [] s = Some (0, s)"
| "write_regs_in_turn hw ((off, w) # rs) s = do { s \<leftarrow> WRITE_REG hw off w s; write_regs_in_turn hw rs s }"

definition after_reserve :: "'h gpio_call \<Rightarrow> 'h gpio_call \<Rightarrow> 'h gpio_call" where
  "after_reserve reserve act s = do { (rv, s) \<leftarrow> reserve s; if rv \<noteq> 0 then Some (- 1, s) else act s }"

section \<open>Modes\<close>

definition gpio_set_discrete_mode_out :: "'h fpga \<Rightarrow> u32 \<Rightarrow> 'h gpio_call" where
  "gpio_set_discrete_mode_out hw channel =
     after_reserve (gpio_add_output hw channel) (write_regs_in_turn hw [(OUT_SETUP_OFF + CH_OFF channel, IN_OUT_MUX_DISCRETE_MODE)])"

definition gpio_set_pwm_mode_out :: "'h fpga \<Rightarrow> u32 \<Rightarrow> 'h gpio_call" where
  "gpio_set_pwm_mode_out hw channel =
     after_reserve (gpio_add_output hw channel) (write_regs_in_turn hw
       [(OUT_SETUP_OFF + CH_OFF channel, IN_OUT_MUX_PWM_MODE), (OUT_SETUP_OFF + CH_OFF channel + PWM_CTRL_REG_OFF, 1)])"

definition gpio_set_phase_mode_out :: "'h fpga \<Rightarrow> u32 \<Rightarrow> u32 \<Rightarrow> u32 \<Rightarrow> u32 \<Rightarrow> u32 \<Rightarrow> u32 \<Rightarrow> u32 \<Rightarrow> 'h gpio_call" where
  "gpio_set_phase_mode_out hw channel invert time_mode sync_channel tooth phase_on phase_off =
     after_reserve (gpio_add_output hw channel) (write_regs_in_turn hw
       [(OUT_SETUP_OFF + CH_OFF channel, IN_OUT_MUX_PHASE_MODE),
        (OUT_SETUP_OFF + CH_OFF channel + PHASE_CTRL_REG_OFF,
         1 OR push_bit PHASE_GEN_INV_OUTPUT_POS invert OR push_bit PHASE_GEN_TIME_MODE_POS time_mode OR
         push_bit PHASE_GEN_CHN_NUM_START_POS sync_channel),
        (OUT_VALUE_OFF + CH_OFF channel, tooth),
        (OUT_VALUE_OFF + CH_OFF channel + 4, phase_on),
        (OUT_VALUE_OFF + CH_OFF channel + 2 * 4, phase_off)])"

text \<open>The inputs 0 to 3 have a bit in a further register.\<close>

definition select_frequency_input :: "'h fpga \<Rightarrow> u32 \<Rightarrow> 'h gpio_call" where
  "select_frequency_input hw channel s =
     (if unat channel \<le> 3
      then do { (reg, s) \<leftarrow> READ_REG hw CPS_FI_SETUP_OFF s;
                s \<leftarrow> WRITE_REG hw CPS_FI_SETUP_OFF (reg OR push_bit (unat channel) 1) s;
                Some (0, s) }
      else Some (0, s))"

definition gpio_set_discrete_mode_in :: "'h fpga \<Rightarrow> u32 \<Rightarrow> 'h gpio_call" where
  "gpio_set_discrete_mode_in hw channel =
     after_reserve (gpio_add_input hw channel) (\<lambda>s.
       do { (_, s) \<leftarrow> write_regs_in_turn hw [(INPUT_SETUP_OFF + CH_OFF channel, IN_OUT_MUX_DISCRETE_MODE)] s;
            select_frequency_input hw channel s })"

definition gpio_set_pwm_mode_in :: "'h fpga \<Rightarrow> u32 \<Rightarrow> 'h gpio_call" where
  "gpio_set_pwm_mode_in hw channel =
     after_reserve (gpio_add_input hw channel) (\<lambda>s.
       do { (_, s) \<leftarrow> write_regs_in_turn hw
              [(INPUT_SETUP_OFF + CH_OFF channel, IN_OUT_MUX_PWM_MODE), (INPUT_SETUP_OFF + CH_OFF channel + PWM_ESTIMATOR_CTRL_OFF, 1)] s;
            select_frequency_input hw channel s })"

definition gpio_set_phase_mode_in :: "'h fpga \<Rightarrow> u32 \<Rightarrow> u32 \<Rightarrow> u32 \<Rightarrow> u32 \<Rightarrow> 'h gpio_call" where
  "gpio_set_phase_mode_in hw channel all_teeth missing step =
     after_reserve (gpio_add_input hw channel) (\<lambda>s.
       do { (_, s) \<leftarrow> select_frequency_input hw channel s;
            write_regs_in_turn hw
              [(INPUT_SETUP_OFF + CH_OFF channel, IN_OUT_MUX_PHASE_MODE),
               (INPUT_SETUP_OFF + CH_OFF channel + PH_EST_ALL_TOOTH_NUM_OFF, all_teeth),
               (INPUT_SETUP_OFF + CH_OFF channel + PH_EST_ABS_TOOTH_NUM_OFF, missing),
               (INPUT_SETUP_OFF + CH_OFF channel + PH_EST_LOG2_PHASE_STEP_TOOTH_NUM_OFF, step),
               (INPUT_SETUP_OFF + CH_OFF channel + PHASE_ESTIMATOR_CTRL_OFF, 1)] s })"

section \<open>Values\<close>

definition gpio_set_output_value :: "'h fpga \<Rightarrow> u32 \<Rightarrow> u32 \<Rightarrow> 'h gpio_call" where
  "gpio_set_output_value hw channel v s =
     (if gpio_check_output channel (fst s) = 0 then Some (- 1, s)
      else write_regs_in_turn hw [(OUT_VALUE_OFF + CH_OFF channel, v)] s)"

text \<open>The reads: the value is stored only when the function returns 0.\<close>

type_synonym 'h zynq_read = "zgpio \<times> 'h \<Rightarrow> (u32 option \<times> zgpio \<times> 'h) option"

definition read_value :: "'h fpga \<Rightarrow> nat \<Rightarrow> (u32 \<Rightarrow> u32) \<Rightarrow> 'h zynq_read" where
  "read_value hw off scale s = do { (w, s) \<leftarrow> READ_REG hw off s; Some (Some (scale w), s) }"

definition gpio_get_output_value :: "'h fpga \<Rightarrow> u32 \<Rightarrow> 'h zynq_read" where
  "gpio_get_output_value hw channel s =
     (if gpio_check_output channel (fst s) = 0 then Some (None, s) else read_value hw (OUT_VALUE_OFF + CH_OFF channel) id s)"

definition gpio_set_period :: "'h fpga \<Rightarrow> u32 \<Rightarrow> u32 \<Rightarrow> 'h gpio_call" where
  "gpio_set_period hw channel period s =
     (if gpio_check_output channel (fst s) = 0 then Some (- 1, s)
      else write_regs_in_turn hw [(OUT_VALUE_OFF + CH_OFF channel, period * MCK_US_TO_TICKS)] s)"

definition gpio_set_width :: "'h fpga \<Rightarrow> u32 \<Rightarrow> u32 \<Rightarrow> 'h gpio_call" where
  "gpio_set_width hw channel width s =
     (if gpio_check_output channel (fst s) = 0 then Some (- 1, s)
      else write_regs_in_turn hw [(OUT_VALUE_OFF + CH_OFF channel + 4, width * MCK_US_TO_TICKS)] s)"

definition gpio_get_period :: "'h fpga \<Rightarrow> u32 \<Rightarrow> 'h zynq_read" where
  "gpio_get_period hw channel s =
     (if gpio_check_input channel (fst s) = 0 then Some (None, s)
      else read_value hw (INPUT_VALUE_OFF + CH_OFF channel) (\<lambda>w. w div MCK_US_TO_TICKS) s)"

definition gpio_get_width :: "'h fpga \<Rightarrow> u32 \<Rightarrow> 'h zynq_read" where
  "gpio_get_width hw channel s =
     (if gpio_check_input channel (fst s) = 0 then Some (None, s)
      else read_value hw (INPUT_VALUE_OFF + CH_OFF channel + 4) (\<lambda>w. w div MCK_US_TO_TICKS) s)"

definition gpio_get_input_value :: "'h fpga \<Rightarrow> u32 \<Rightarrow> 'h zynq_read" where
  "gpio_get_input_value hw channel s =
     (if gpio_check_input channel (fst s) = 0 then Some (None, s) else read_value hw (INPUT_VALUE_OFF + CH_OFF channel) id s)"

definition gpio_get_tooth :: "'h fpga \<Rightarrow> u32 \<Rightarrow> 'h zynq_read" where
  "gpio_get_tooth hw channel s =
     (if gpio_check_input channel (fst s) = 0 then Some (None, s) else read_value hw (INPUT_VALUE_OFF + CH_OFF channel + 4) id s)"

definition gpio_get_phase_step :: "'h fpga \<Rightarrow> u32 \<Rightarrow> 'h zynq_read" where
  "gpio_get_phase_step hw channel s =
     (if gpio_check_input channel (fst s) = 0 then Some (None, s) else read_value hw (INPUT_VALUE_OFF + CH_OFF channel + 4 + 4) id s)"

section \<open>The atomics (atomics/ctlst/io)\<close>

text \<open>What the system does at an initialisation: memory, mapping, access. The result: 0 is \<open>fspec_rv_ok\<close>, -1 the error of the atomic.\<close>

record zynq_env =
  ze_allocated :: bool
  ze_mapped :: "nat option"
  ze_granted :: bool

definition pin_init :: "zynq_env \<Rightarrow> u32 \<Rightarrow> 'h gpio_call \<Rightarrow> 'h gpio_call" where
  "pin_init e channel mode s =
     (let (rv, g) = zynq_gpio_init channel (ze_allocated e) (ze_mapped e) (ze_granted e) (fst s) in
      if rv \<noteq> 0 then Some (- 1, g, snd s) else after_reserve mode (\<lambda>s. Some (0, s)) (g, snd s))"

definition ctlst_io_gpio_out_pre_exec_init :: "'h fpga \<Rightarrow> zynq_env \<Rightarrow> u32 \<Rightarrow> 'h gpio_call" where
  "ctlst_io_gpio_out_pre_exec_init hw e channel = pin_init e channel (gpio_set_discrete_mode_out hw channel)"

text \<open>The two flags say which inputs are connected, \<open>high\<close> whether the second one is over one half. Reading the value back
  into an array that is not initialised is None when it fails.\<close>

definition ctlst_io_gpio_out_exec :: "'h fpga \<Rightarrow> u32 \<Rightarrow> bool \<Rightarrow> bool \<Rightarrow> bool \<Rightarrow> zgpio \<times> 'h \<Rightarrow> (zgpio \<times> 'h) option" where
  "ctlst_io_gpio_out_exec hw channel input_bool input_float high s =
     do { (_, s) \<leftarrow> gpio_set_output_value hw channel (if input_bool then 1 else 0) s;
          if input_float then do { (_, s) \<leftarrow> gpio_set_output_value hw channel (if high then 1 else 0) s; Some s }
          else do { (v, s) \<leftarrow> gpio_get_output_value hw channel s;
                    v \<leftarrow> v;
                    (_, s) \<leftarrow> gpio_set_output_value hw channel (NOT v AND 0x01) s;
                    Some s } }"

definition ctlst_io_gpio_in_pre_exec_init :: "'h fpga \<Rightarrow> zynq_env \<Rightarrow> u32 \<Rightarrow> 'h gpio_call" where
  "ctlst_io_gpio_in_pre_exec_init hw e channel = pin_init e channel (gpio_set_discrete_mode_in hw channel)"

definition ctlst_io_gpio_in_exec :: "'h fpga \<Rightarrow> u32 \<Rightarrow> zgpio \<times> 'h \<Rightarrow> (u32 \<times> zgpio \<times> 'h) option" where
  "ctlst_io_gpio_in_exec hw channel s =
     do { (v, s) \<leftarrow> gpio_get_input_value hw channel s; Some (case v of None \<Rightarrow> 0 | Some w \<Rightarrow> w, s) }"

definition ctlst_io_phase_in_pre_exec_init :: "'h fpga \<Rightarrow> zynq_env \<Rightarrow> u32 \<Rightarrow> u32 \<Rightarrow> u32 \<Rightarrow> u32 \<Rightarrow> 'h gpio_call" where
  "ctlst_io_phase_in_pre_exec_init hw e channel total_teeth missing_tooth tooth_step =
     pin_init e channel (gpio_set_phase_mode_in hw channel total_teeth missing_tooth tooth_step)"

text \<open>Period, step and tooth; the period is a local variable, and the other two are left as they are when a read fails.\<close>

definition ctlst_io_phase_in_exec :: "'h fpga \<Rightarrow> u32 \<Rightarrow> u32 \<times> u32 \<Rightarrow> zgpio \<times> 'h \<Rightarrow> ((u32 \<times> u32 \<times> u32) \<times> zgpio \<times> 'h) option" where
  "ctlst_io_phase_in_exec hw channel old s =
     do { (period, s) \<leftarrow> gpio_get_period hw channel s;
          (step, s) \<leftarrow> gpio_get_phase_step hw channel s;
          (tooth, s) \<leftarrow> gpio_get_tooth hw channel s;
          period \<leftarrow> period;
          Some ((period, case step of None \<Rightarrow> fst old | Some w \<Rightarrow> w, case tooth of None \<Rightarrow> snd old | Some w \<Rightarrow> w), s) }"

definition ctlst_io_phase_out_pre_exec_init ::
    "'h fpga \<Rightarrow> zynq_env \<Rightarrow> u32 \<Rightarrow> u32 \<Rightarrow> u32 \<Rightarrow> u32 \<Rightarrow> u32 \<Rightarrow> u32 \<Rightarrow> u32 \<Rightarrow> 'h gpio_call" where
  "ctlst_io_phase_out_pre_exec_init hw e channel invert time_mode sync_channel tooth phase_on phase_off =
     pin_init e channel (gpio_set_phase_mode_out hw channel invert time_mode sync_channel tooth phase_on phase_off)"

definition ctlst_io_pwm_out_pre_exec_init :: "'h fpga \<Rightarrow> zynq_env \<Rightarrow> u32 \<Rightarrow> u32 \<Rightarrow> 'h gpio_call" where
  "ctlst_io_pwm_out_pre_exec_init hw e channel period s =
     do { (rv, s) \<leftarrow> pin_init e channel (gpio_set_pwm_mode_out hw channel) s;
          if rv \<noteq> 0 then Some (- 1, s)
          else do { (rv, s) \<leftarrow> gpio_set_period hw channel period s; Some (if rv \<noteq> 0 then - 1 else 0, s) } }"

definition ctlst_io_pwm_in_pre_exec_init :: "'h fpga \<Rightarrow> zynq_env \<Rightarrow> u32 \<Rightarrow> 'h gpio_call" where
  "ctlst_io_pwm_in_pre_exec_init hw e channel = pin_init e channel (gpio_set_pwm_mode_in hw channel)"

section \<open>What is reserved\<close>

definition out_reserved :: "zgpio \<Rightarrow> nat \<Rightarrow> bool" where
  "out_reserved s c \<longleftrightarrow> c < 16 \<and> bit (zg_channels s) c"

definition in_reserved :: "zgpio \<Rightarrow> nat \<Rightarrow> bool" where
  "in_reserved s c \<longleftrightarrow> c < 16 \<and> bit (zg_channels s) (c + 16)"

lemma and_single_bit: "w AND push_bit k 1 \<noteq> 0 \<longleftrightarrow> k < 32 \<and> bit w k" for w :: u32
proof -
  have "w AND push_bit k 1 = (if bit w k then push_bit k 1 else 0)"
    by (rule bit_word_eqI) (auto simp: bit_simps)
  moreover have "push_bit k 1 = (0 :: u32) \<longleftrightarrow> \<not> k < 32"
  proof -
    have "bit (push_bit k 1 :: u32) n \<longleftrightarrow> n = k \<and> k < 32" for n
      by (auto simp: bit_simps)
    then show ?thesis
      by (metis bit_0_eq bot_apply bot_bool_def bit_word_eqI)
  qed
  ultimately show ?thesis
    by (auto dest: bit_imp_le_length)
qed

lemma check_output_free:
  "gpio_check_output channel s = 0 \<longleftrightarrow>
     zg_gpio s \<noteq> No_gpio \<and> unat channel < 16 \<and> \<not> out_reserved s (unat channel) \<and>
     (12 \<le> unat channel \<longrightarrow> \<not> in_reserved s (unat channel))"
  unfolding gpio_check_output_def gpio_check_common_def Let_def push_bit_push_bit and_single_bit
  by (auto simp: out_reserved_def in_reserved_def GPIO_PINS_def GPIO_INPUT_OUTPUT_OFF_def add.commute)

lemma check_input_free:
  "gpio_check_input channel s = 0 \<longleftrightarrow>
     zg_gpio s \<noteq> No_gpio \<and> unat channel < 16 \<and> \<not> in_reserved s (unat channel) \<and>
     (12 \<le> unat channel \<longrightarrow> \<not> out_reserved s (unat channel))"
  unfolding gpio_check_input_def gpio_check_common_def Let_def push_bit_push_bit and_single_bit
  by (auto simp: out_reserved_def in_reserved_def GPIO_PINS_def GPIO_INPUT_OUTPUT_OFF_def add.commute)

definition pins_apart :: "zgpio \<Rightarrow> bool" where
  "pins_apart s \<longleftrightarrow> (\<forall>c. 12 \<le> c \<longrightarrow> \<not> (out_reserved s c \<and> in_reserved s c))"

definition keeps_reserved :: "zgpio \<Rightarrow> zgpio \<Rightarrow> bool" where
  "keeps_reserved s s' \<longleftrightarrow> (\<forall>c. (out_reserved s c \<longrightarrow> out_reserved s' c) \<and> (in_reserved s c \<longrightarrow> in_reserved s' c)) \<and>
     (pins_apart s \<longrightarrow> pins_apart s')"

lemma keeps_reserved_refl: "keeps_reserved s s"
  by (simp add: keeps_reserved_def)

lemma keeps_reserved_trans: "keeps_reserved a b \<Longrightarrow> keeps_reserved b c \<Longrightarrow> keeps_reserved a c"
  by (simp add: keeps_reserved_def)

lemma keeps_reserved_gpio: "keeps_reserved s (s \<lparr> zg_gpio := g \<rparr>)"
  by (simp add: keeps_reserved_def out_reserved_def in_reserved_def pins_apart_def)

lemma reserve_output:
  assumes "gpio_check_output channel s = 0"
  shows "keeps_reserved s (s \<lparr> zg_channels := zg_channels s OR push_bit (unat channel) 1 \<rparr>)"
    and "out_reserved (s \<lparr> zg_channels := zg_channels s OR push_bit (unat channel) 1 \<rparr>) (unat channel)"
proof -
  let ?t = "s \<lparr> zg_channels := zg_channels s OR push_bit (unat channel) 1 \<rparr>"
  have free: "unat channel < 16" "12 \<le> unat channel \<longrightarrow> \<not> in_reserved s (unat channel)"
    using assms by (simp_all add: check_output_free)
  have o: "out_reserved ?t c \<longleftrightarrow> out_reserved s c \<or> c = unat channel" and i: "in_reserved ?t c = in_reserved s c" for c
    using free(1) by (auto simp: out_reserved_def in_reserved_def bit_simps)
  show "keeps_reserved s ?t"
    unfolding keeps_reserved_def pins_apart_def o i using free(2) by auto
  show "out_reserved ?t (unat channel)"
    unfolding o by simp
qed

lemma reserve_input:
  assumes "gpio_check_input channel s = 0"
  shows "keeps_reserved s (s \<lparr> zg_channels := zg_channels s OR push_bit GPIO_PINS (push_bit (unat channel) 1) \<rparr>)"
    and "in_reserved (s \<lparr> zg_channels := zg_channels s OR push_bit GPIO_PINS (push_bit (unat channel) 1) \<rparr>) (unat channel)"
proof -
  let ?t = "s \<lparr> zg_channels := zg_channels s OR push_bit GPIO_PINS (push_bit (unat channel) 1) \<rparr>"
  have free: "unat channel < 16" "12 \<le> unat channel \<longrightarrow> \<not> out_reserved s (unat channel)"
    using assms by (simp_all add: check_input_free)
  have i: "in_reserved ?t c \<longleftrightarrow> in_reserved s c \<or> c = unat channel" and o: "out_reserved ?t c = out_reserved s c" for c
    using free(1) by (auto simp: out_reserved_def in_reserved_def GPIO_PINS_def push_bit_push_bit bit_simps)
  show "keeps_reserved s ?t"
    unfolding keeps_reserved_def pins_apart_def o i using free(2) by auto
  show "in_reserved ?t (unat channel)"
    unfolding i by simp
qed

lemma WRITE_REG_state: "WRITE_REG hw off w s = Some s' \<Longrightarrow> fst s' = fst s"
  by (auto simp: WRITE_REG_def split: gpio_ptr.splits)

lemma READ_REG_state: "READ_REG hw off s = Some (w, s') \<Longrightarrow> fst s' = fst s"
  by (auto simp: READ_REG_def split: gpio_ptr.splits prod.splits)

lemma write_regs_state: "write_regs_in_turn hw rs s = Some (rv, s') \<Longrightarrow> fst s' = fst s \<and> rv = 0"
proof (induction rs arbitrary: s)
  case (Cons r rs)
  then show ?case
    by (cases r) (auto simp: bind_eq_Some_conv dest: WRITE_REG_state)
qed simp

lemma select_frequency_state: "select_frequency_input hw channel s = Some (rv, s') \<Longrightarrow> fst s' = fst s \<and> rv = 0"
  by (auto simp: select_frequency_input_def bind_eq_Some_conv split: if_splits prod.splits dest!: WRITE_REG_state READ_REG_state)

text \<open>Reserving a channel: done, and nothing else changes, or refused without effect.\<close>

lemma gpio_add_output_effect:
  assumes "gpio_add_output hw channel s = Some (rv, s')"
  shows "keeps_reserved (fst s) (fst s')" and "rv = 0 \<longrightarrow> out_reserved (fst s') (unat channel)" and "rv \<noteq> 0 \<longrightarrow> s' = s"
proof -
  have "rv \<noteq> 0 \<and> s' = s \<or>
      rv = 0 \<and> gpio_check_output channel (fst s) = 0 \<and>
      fst s' = (fst s) \<lparr> zg_channels := zg_channels (fst s) OR push_bit (unat channel) 1 \<rparr>"
    using assms
    by (auto simp: gpio_add_output_def bind_eq_Some_conv split: if_splits prod.splits dest!: WRITE_REG_state READ_REG_state)
  then show "keeps_reserved (fst s) (fst s')" and "rv = 0 \<longrightarrow> out_reserved (fst s') (unat channel)" and "rv \<noteq> 0 \<longrightarrow> s' = s"
    using reserve_output keeps_reserved_refl by metis+
qed

lemma gpio_add_input_effect:
  assumes "gpio_add_input hw channel s = Some (rv, s')"
  shows "keeps_reserved (fst s) (fst s')" and "rv = 0 \<longrightarrow> in_reserved (fst s') (unat channel)" and "rv \<noteq> 0 \<longrightarrow> s' = s"
proof -
  have "rv \<noteq> 0 \<and> s' = s \<or>
      rv = 0 \<and> gpio_check_input channel (fst s) = 0 \<and>
      fst s' = (fst s) \<lparr> zg_channels := zg_channels (fst s) OR push_bit GPIO_PINS (push_bit (unat channel) 1) \<rparr>"
    using assms
    by (auto simp: gpio_add_input_def bind_eq_Some_conv split: if_splits prod.splits dest!: WRITE_REG_state READ_REG_state)
  then show "keeps_reserved (fst s) (fst s')" and "rv = 0 \<longrightarrow> in_reserved (fst s') (unat channel)" and "rv \<noteq> 0 \<longrightarrow> s' = s"
    using reserve_input keeps_reserved_refl by metis+
qed

lemma after_reserve_keeps:
  assumes "after_reserve res act s = Some (rv, s')"
    and "\<And>rv s'. res s = Some (rv, s') \<Longrightarrow> keeps_reserved (fst s) (fst s')"
    and "\<And>s rv s'. act s = Some (rv, s') \<Longrightarrow> fst s' = fst s"
  shows "keeps_reserved (fst s) (fst s')"
  using assms(1) assms(2) by (auto simp: after_reserve_def bind_eq_Some_conv split: if_splits dest!: assms(3))

section \<open>Sequences of calls\<close>

datatype zynq_call =
    Pin_init u32 bool "nat option" bool
  | Discrete_out u32 | Pwm_out u32 | Phase_out u32 u32 u32 u32 u32 u32 u32
  | Discrete_in u32 | Pwm_in u32 | Phase_in u32 u32 u32 u32
  | Set_value u32 u32 | Set_period u32 u32 | Set_width u32 u32

fun zynq_step :: "'h fpga \<Rightarrow> zynq_call \<Rightarrow> 'h gpio_call" where
  "zynq_step hw (Pin_init c a m g) s = (let (rv, t) = zynq_gpio_init c a m g (fst s) in Some (rv, t, snd s))"
| "zynq_step hw (Discrete_out c) s = gpio_set_discrete_mode_out hw c s"
| "zynq_step hw (Pwm_out c) s = gpio_set_pwm_mode_out hw c s"
| "zynq_step hw (Phase_out c i t n o1 o2 o3) s = gpio_set_phase_mode_out hw c i t n o1 o2 o3 s"
| "zynq_step hw (Discrete_in c) s = gpio_set_discrete_mode_in hw c s"
| "zynq_step hw (Pwm_in c) s = gpio_set_pwm_mode_in hw c s"
| "zynq_step hw (Phase_in c n m p) s = gpio_set_phase_mode_in hw c n m p s"
| "zynq_step hw (Set_value c v) s = gpio_set_output_value hw c v s"
| "zynq_step hw (Set_period c v) s = gpio_set_period hw c v s"
| "zynq_step hw (Set_width c v) s = gpio_set_width hw c v s"

fun zynq_calls :: "'h fpga \<Rightarrow> zynq_call list \<Rightarrow> zgpio \<times> 'h \<Rightarrow> (zgpio \<times> 'h) option" where
  "zynq_calls hw [] s = Some s"
| "zynq_calls hw (c # cs) s = do { (_, s) \<leftarrow> zynq_step hw c s; zynq_calls hw cs s }"

lemma in_mode_state:
  "do { (_, s) \<leftarrow> write_regs_in_turn hw rs s; select_frequency_input hw c s } = Some (rv, s') \<Longrightarrow> fst s' = fst s"
  "do { (_, s) \<leftarrow> select_frequency_input hw c s; write_regs_in_turn hw rs s } = Some (rv, s') \<Longrightarrow> fst s' = fst s"
  by (auto simp: bind_eq_Some_conv dest!: write_regs_state select_frequency_state)

lemma zynq_step_keeps:
  assumes "zynq_step hw c s = Some (rv, s')"
  shows "keeps_reserved (fst s) (fst s')"
proof -
  show ?thesis
  proof (cases c)
    case (Pin_init ch a m g)
    then show ?thesis
      using assms keeps_reserved_gpio [of "fst s"] keeps_reserved_refl [of "fst s"]
      by (auto simp: zynq_gpio_init_def split: if_splits option.splits)
  next
    case (Discrete_out ch)
    then have "gpio_set_discrete_mode_out hw ch s = Some (rv, s')"
      using assms by simp
    then show ?thesis
      unfolding gpio_set_discrete_mode_out_def by (rule after_reserve_keeps) (erule gpio_add_output_effect(1), erule write_regs_state [THEN conjunct1])
  next
    case (Pwm_out ch)
    then have "gpio_set_pwm_mode_out hw ch s = Some (rv, s')"
      using assms by simp
    then show ?thesis
      unfolding gpio_set_pwm_mode_out_def by (rule after_reserve_keeps) (erule gpio_add_output_effect(1), erule write_regs_state [THEN conjunct1])
  next
    case (Phase_out ch i t n o1 o2 o3)
    then have "gpio_set_phase_mode_out hw ch i t n o1 o2 o3 s = Some (rv, s')"
      using assms by simp
    then show ?thesis
      unfolding gpio_set_phase_mode_out_def by (rule after_reserve_keeps) (erule gpio_add_output_effect(1), erule write_regs_state [THEN conjunct1])
  next
    case (Discrete_in ch)
    then have "gpio_set_discrete_mode_in hw ch s = Some (rv, s')"
      using assms by simp
    then show ?thesis
      unfolding gpio_set_discrete_mode_in_def by (rule after_reserve_keeps) (erule gpio_add_input_effect(1), erule in_mode_state)
  next
    case (Pwm_in ch)
    then have "gpio_set_pwm_mode_in hw ch s = Some (rv, s')"
      using assms by simp
    then show ?thesis
      unfolding gpio_set_pwm_mode_in_def by (rule after_reserve_keeps) (erule gpio_add_input_effect(1), erule in_mode_state)
  next
    case (Phase_in ch n m p)
    then have "gpio_set_phase_mode_in hw ch n m p s = Some (rv, s')"
      using assms by simp
    then show ?thesis
      unfolding gpio_set_phase_mode_in_def by (rule after_reserve_keeps) (erule gpio_add_input_effect(1), erule in_mode_state)
  qed (use assms in \<open>auto simp: gpio_set_output_value_def gpio_set_period_def gpio_set_width_def keeps_reserved_refl
        simp del: write_regs_in_turn.simps split: if_splits dest!: write_regs_state\<close>)
qed

text \<open>C37: The pins of the control station board, from any state in which no shared pin is both an input and an output. Whatever
  calls follow, in any order and with any channels, that stays so: the last four channels are never reserved in both directions. And
  what has been reserved stays reserved.\<close>

theorem zynq_pins_exclusive:
  assumes "zynq_calls hw cs s = Some s'" and "pins_apart (fst s)"
  shows "pins_apart (fst s') \<and> (\<forall>c. (out_reserved (fst s) c \<longrightarrow> out_reserved (fst s') c) \<and> (in_reserved (fst s) c \<longrightarrow> in_reserved (fst s') c))"
proof -
  have "keeps_reserved (fst s) (fst s')"
    using assms(1)
  proof (induction cs arbitrary: s)
    case (Cons c cs)
    then obtain rv t where "zynq_step hw c s = Some (rv, t)" "zynq_calls hw cs t = Some s'"
      by (auto simp: bind_eq_Some_conv)
    then show ?case
      using Cons.IH zynq_step_keeps keeps_reserved_trans by metis
  qed (simp add: keeps_reserved_refl)
  then show ?thesis
    using assms(2) by (simp add: keeps_reserved_def)
qed

text \<open>A mode that is set for a reserved channel is refused without effect.\<close>

lemma discrete_out_twice:
  "out_reserved (fst s) (unat channel) \<Longrightarrow> gpio_set_discrete_mode_out hw channel s = Some (- 1, s)"
  using check_output_free [of channel "fst s"]
  by (simp add: gpio_set_discrete_mode_out_def after_reserve_def gpio_add_output_def)

section \<open>Values that reach the wrong register\<close>

text \<open>The check of a value is that of a reservation turned round: it also lets through a channel that does not exist, whose
  registers are those of another group, and a shared channel that is reserved as an input.\<close>

theorem output_value_bad_channel:
  assumes "16 \<le> unat channel" and "zg_gpio (fst s) = Gpio_at b"
  shows "gpio_set_output_value hw channel v s = Some (0, fst s, out32 hw (b + (OUT_VALUE_OFF + CH_OFF channel)) v (snd s))"
proof -
  have "gpio_check_output channel (fst s) \<noteq> 0"
    using assms(1) check_output_free [of channel "fst s"] by simp
  then show ?thesis
    by (simp add: gpio_set_output_value_def WRITE_REG_def assms(2))
qed

text \<open>Without an initialisation the check fails as well, and the value is written through the null pointer.\<close>

theorem output_value_null: "zg_gpio (fst s) = No_gpio \<Longrightarrow> gpio_set_output_value hw channel v s = None"
  using check_output_free [of channel "fst s"] by (simp add: gpio_set_output_value_def WRITE_REG_def)

text \<open>The output atomic with the first input alone, on registers that hold what is written to them: the value is written,
  read back and written again inverted, so that the pin ends as the opposite of the input.\<close>

theorem gpio_out_inverts:
  assumes "out_reserved (fst s) (unat channel)" and "zg_gpio (fst s) = Gpio_at b"
    and "\<And>v h. fst (in32 hw (b + (OUT_VALUE_OFF + CH_OFF channel)) (out32 hw (b + (OUT_VALUE_OFF + CH_OFF channel)) v h)) = v"
  shows "\<exists>h. ctlst_io_gpio_out_exec hw channel input_bool False high s =
           Some (fst s, out32 hw (b + (OUT_VALUE_OFF + CH_OFF channel)) (if input_bool then 0 else 1) h)"
proof -
  let ?a = "b + (OUT_VALUE_OFF + CH_OFF channel)"
  have chk: "gpio_check_output channel (fst s) \<noteq> 0"
    using assms(1) check_output_free [of channel "fst s"] by blast
  obtain g h where s: "s = (g, h)"
    by fastforce
  have set_value: "gpio_set_output_value hw channel v (g, x) = Some (0, g, out32 hw ?a v x)" for v x
    using chk assms(2) by (simp add: gpio_set_output_value_def WRITE_REG_def s)
  have get_value: "\<exists>y. gpio_get_output_value hw channel (g, out32 hw ?a v x) = Some (Some v, g, y)" for v x
    using chk assms(2) assms(3) [of v x]
    by (cases "in32 hw ?a (out32 hw ?a v x)") (simp add: gpio_get_output_value_def read_value_def READ_REG_def s)
  obtain y where y: "gpio_get_output_value hw channel (g, out32 hw ?a (if input_bool then 1 else 0) h) =
      Some (Some (if input_bool then 1 else 0), g, y)"
    using get_value by blast
  have n: "NOT (if input_bool then 1 else 0) AND 1 = (if input_bool then 0 else 1 :: u32)"
    by simp
  show ?thesis
    unfolding ctlst_io_gpio_out_exec_def s using y by (auto simp: set_value n)
qed

section \<open>Witnesses\<close>

text \<open>Registers as a memory.\<close>

definition mem_fpga :: "(nat \<Rightarrow> u32) fpga" where
  "mem_fpga = \<lparr> out32 = \<lambda>a w m. m(a := w), in32 = \<lambda>a m. (m a, m) \<rparr>"

definition zynq_start :: "zgpio \<times> (nat \<Rightarrow> u32)" where
  "zynq_start = (\<lparr> zg_gpio = No_gpio, zg_channels = 0 \<rparr>, \<lambda>_. 0)"

definition zynq_after :: "zgpio \<times> (nat \<Rightarrow> u32)" where
  "zynq_after = the (zynq_calls mem_fpga [Pin_init 12 True (Some 0x1000) True, Discrete_out 12, Discrete_in 12, Pwm_in 3] zynq_start)"

theorem zynq_pins_exclusive_witness:
  "pins_apart (fst zynq_after) \<and>
   (\<forall>c. (out_reserved (fst zynq_start) c \<longrightarrow> out_reserved (fst zynq_after) c) \<and>
        (in_reserved (fst zynq_start) c \<longrightarrow> in_reserved (fst zynq_after) c))"
proof (rule zynq_pins_exclusive)
  show "zynq_calls mem_fpga [Pin_init 12 True (Some 0x1000) True, Discrete_out 12, Discrete_in 12, Pwm_in 3] zynq_start = Some zynq_after"
    by (simp add: zynq_after_def zynq_start_def mem_fpga_def zynq_gpio_init_def gpio_set_discrete_mode_out_def gpio_set_discrete_mode_in_def
        gpio_set_pwm_mode_in_def after_reserve_def gpio_add_output_def gpio_add_input_def gpio_check_output_def gpio_check_input_def
        gpio_check_common_def READ_REG_def WRITE_REG_def select_frequency_input_def GPIO_PINS_def GPIO_INPUT_OUTPUT_OFF_def)
  show "pins_apart (fst zynq_start)"
    by (simp add: zynq_start_def pins_apart_def out_reserved_def)
qed

theorem output_value_bad_channel_witness:
  "gpio_set_output_value mem_fpga 16 7 (\<lparr> zg_gpio = Gpio_at 0, zg_channels = 0 \<rparr>, \<lambda>_. 0) =
     Some (0, \<lparr> zg_gpio = Gpio_at 0, zg_channels = 0 \<rparr>, out32 mem_fpga (0 + (OUT_VALUE_OFF + CH_OFF 16)) 7 (\<lambda>_. 0))"
  using output_value_bad_channel [of 16 "(\<lparr> zg_gpio = Gpio_at 0, zg_channels = 0 \<rparr>, \<lambda>_. 0)" 0 mem_fpga 7] by simp

theorem gpio_out_inverts_witness:
  "\<exists>h. ctlst_io_gpio_out_exec mem_fpga 3 True False False (\<lparr> zg_gpio = Gpio_at 0, zg_channels = 8 \<rparr>, \<lambda>_. 0) =
     Some (\<lparr> zg_gpio = Gpio_at 0, zg_channels = 8 \<rparr>, out32 mem_fpga (0 + (OUT_VALUE_OFF + CH_OFF 3)) 0 h)"
proof -
  have "out_reserved \<lparr> zg_gpio = Gpio_at 0, zg_channels = 8 \<rparr> (unat (3 :: u32))"
    by (simp add: out_reserved_def)
  then show ?thesis
    using gpio_out_inverts [of "(\<lparr> zg_gpio = Gpio_at 0, zg_channels = 8 \<rparr>, \<lambda>_. 0)" 3 0 mem_fpga True False]
    by (simp add: mem_fpga_def)
qed

end
