(* ===== verification/Ad7606b.thy ===== *)
theory Ad7606b
  imports Complex_Main SpiPlr
begin

text \<open>
  The two analogue converters of the control station board (bsp/mcu/periph/adc/zynq/ad7606b.c, ad7606b.h), behind registers in
  programmable logic, and their atomic (atomics/ctlst/io/adc/ctlst_io_adc_exec.c) up to the scaling by its
  parameters. The conversion to volts is exact in the float of the code, so it is a real here. None is undefined
  behaviour. The functions that only print are left out.
\<close>

section \<open>Registers (ad7606b.h)\<close>

definition AD7606B_BASE_ADDR :: nat where "AD7606B_BASE_ADDR = 0x43C90E00"
definition AD7606B_CONTROL_OFF :: nat where "AD7606B_CONTROL_OFF = 0x0004"
definition AD7606B_CONTROL_ENABLE :: u32 where "AD7606B_CONTROL_ENABLE = 1"
definition AD7606B_CONTROL_DISABLE :: u32 where "AD7606B_CONTROL_DISABLE = 2"
definition AD7606B_CHN_SETUP_OFF :: nat where "AD7606B_CHN_SETUP_OFF = 0x0008"
definition AD7606B_DISC_PERIOD_OFF :: nat where "AD7606B_DISC_PERIOD_OFF = 0x000C"
definition AD7606B_STATUS_OFF :: nat where "AD7606B_STATUS_OFF = 0x0010"
definition AD7606B_BUSY_ERROR_COUNTER_OFF :: nat where "AD7606B_BUSY_ERROR_COUNTER_OFF = 0x0014"
definition AD7606B_VIN_12_CHN_ADC_0_OFF :: nat where "AD7606B_VIN_12_CHN_ADC_0_OFF = 0x0024"
definition AD7606B_VIN_12_CHN_ADC_1_OFF :: nat where "AD7606B_VIN_12_CHN_ADC_1_OFF = 0x0034"
definition AD7606B_VIN_1_CHN_MUX_01_ADC_0_ADDR :: nat where "AD7606B_VIN_1_CHN_MUX_01_ADC_0_ADDR = 0x0044"
definition AD7606B_VIN_1_CHN_MUX_01_ADC_1_ADDR :: nat where "AD7606B_VIN_1_CHN_MUX_01_ADC_1_ADDR = 0x00A4"
definition AD7606B_REG_MAP_SIZE :: nat where "AD7606B_REG_MAP_SIZE = 128"
definition RANGE_2V5 :: u32 where "RANGE_2V5 = 0"
definition RANGE_5V :: u32 where "RANGE_5V = 1"
definition RANGE_10V :: u32 where "RANGE_10V = 2"

record ad7606b_instance =
  ad_base :: nat
  ad_phys_base :: nat

section \<open>Operations (ad7606b.c)\<close>

definition adc_ad7606b_init :: "nat option \<Rightarrow> nat \<Rightarrow> ad7606b_instance \<Rightarrow> int \<times> ad7606b_instance" where
  "adc_ad7606b_init mapped phys i =
     (case mapped of None \<Rightarrow> (- 1, i \<lparr> ad_base := 0 \<rparr>) | Some b \<Rightarrow> (0, i \<lparr> ad_base := b, ad_phys_base := phys \<rparr>))"

definition adc_ad7606b_set_disc_period :: "'h fpga \<Rightarrow> ad7606b_instance \<Rightarrow> u32 \<Rightarrow> u32 \<Rightarrow> 'h \<Rightarrow> (int \<times> 'h) option" where
  "adc_ad7606b_set_disc_period hw i period_us mck h =
     (if period_us = 0 \<or> 1000000 div period_us = 0 then None
      else Some (0, out32 hw (ad_base i + AD7606B_DISC_PERIOD_OFF) (mck div (1000000 div period_us)) h))"

definition adc_ad7606b_start :: "'h fpga \<Rightarrow> ad7606b_instance \<Rightarrow> 'h \<Rightarrow> int \<times> 'h" where
  "adc_ad7606b_start hw i h = (0, out32 hw (ad_base i + AD7606B_CONTROL_OFF) AD7606B_CONTROL_ENABLE h)"

definition adc_ad7606b_stop :: "'h fpga \<Rightarrow> ad7606b_instance \<Rightarrow> 'h \<Rightarrow> int \<times> 'h" where
  "adc_ad7606b_stop hw i h = (0, out32 hw (ad_base i + AD7606B_CONTROL_OFF) AD7606B_CONTROL_DISABLE h)"

definition adc_ad7606b_get_status :: "'h fpga \<Rightarrow> ad7606b_instance \<Rightarrow> 'h \<Rightarrow> (int \<times> u32) \<times> 'h" where
  "adc_ad7606b_get_status hw i h = (let (w, h) = in32 hw (ad_base i + AD7606B_STATUS_OFF) h in ((0, w), h))"

text \<open>One half of the register of a pair, as a signed number of 16 bits.\<close>

definition half_word :: "bool \<Rightarrow> u32 \<Rightarrow> u16" where
  "half_word odd_one w = (if odd_one then ucast (drop_bit 16 w) else ucast (w AND 0xFFFF))"

definition adc_ad7606b_get_raw_adc_value :: "'h fpga \<Rightarrow> ad7606b_instance \<Rightarrow> u8 \<Rightarrow> u8 \<Rightarrow> 'h \<Rightarrow> (int \<times> int) \<times> 'h" where
  "adc_ad7606b_get_raw_adc_value hw i adc channel h =
     (let offset = (if adc \<noteq> 0 then AD7606B_VIN_12_CHN_ADC_1_OFF else AD7606B_VIN_12_CHN_ADC_0_OFF);
          (w, h) = in32 hw (ad_base i + (offset + unat channel div 2 * 4)) h
      in ((0, sint (half_word (odd (unat channel)) w)), h))"

text \<open>The value is left as it was when the converter does not exist.\<close>

definition adc_ad7606b_get_adc_value ::
    "'h fpga \<Rightarrow> ad7606b_instance \<Rightarrow> u32 \<Rightarrow> u32 \<Rightarrow> u32 \<Rightarrow> int \<Rightarrow> 'h \<Rightarrow> (int \<times> int) \<times> 'h" where
  "adc_ad7606b_get_adc_value hw i adc channel mux old h =
     (if adc \<noteq> 0 \<and> adc \<noteq> 1 then ((- 1, old), h)
      else let off = (if adc = 0 then AD7606B_VIN_1_CHN_MUX_01_ADC_0_ADDR else AD7606B_VIN_1_CHN_MUX_01_ADC_1_ADDR) in
           if unat channel \<le> 2
           then (let chn_offset = off + 4 * 8 * unat channel;
                     (w, h) = in32 hw (ad_base i + chn_offset + unat mux div 2 * 4) h
                 in ((0, sint (half_word (odd (unat mux)) w)), h))
           else (let ((_, v), h) = adc_ad7606b_get_raw_adc_value hw i (ucast adc) (ucast channel) h in ((0, v), h)))"

definition adc_get_error_counter :: "'h fpga \<Rightarrow> ad7606b_instance \<Rightarrow> 'h \<Rightarrow> (int \<times> u32) \<times> 'h" where
  "adc_get_error_counter hw i h = (let (w, h) = in32 hw (ad_base i + AD7606B_BUSY_ERROR_COUNTER_OFF) h in ((0, w), h))"

text \<open>The register is read into, changed in and written back from a variable of 16 bits. A shift by 32 or more is
  undefined.\<close>

definition range_reg :: "u32 \<Rightarrow> u32 \<Rightarrow> u32 \<Rightarrow> u16" where
  "range_reg channel rng old =
     (let reg = (ucast old :: u16);
          reg = ucast ((ucast reg :: u32) AND NOT (push_bit (unat channel * 2) 3))
      in ucast ((ucast (reg :: u16) :: u32) OR push_bit (unat channel * 2) rng))"

definition adc_ad7606b_set_range :: "'h fpga \<Rightarrow> ad7606b_instance \<Rightarrow> u32 \<Rightarrow> u32 \<Rightarrow> 'h \<Rightarrow> (int \<times> 'h) option" where
  "adc_ad7606b_set_range hw i channel rng h =
     (if 16 \<le> unat channel then None
      else let (old, h) = in32 hw (ad_base i + AD7606B_CHN_SETUP_OFF) h in
           if rng \<in> {RANGE_2V5, RANGE_5V, RANGE_10V}
           then Some (0, out32 hw (ad_base i + AD7606B_CHN_SETUP_OFF) (ucast (range_reg channel rng old)) h)
           else Some (- 1, h))"

definition adc_convert_value :: "int \<Rightarrow> u32 \<Rightarrow> real" where
  "adc_convert_value v rng =
     of_int v * (if rng = RANGE_2V5 then 5 / 2 else if rng = RANGE_5V then 5 else if rng = RANGE_10V then 10 else 100) / 32768"

section \<open>The atomic\<close>

datatype adc_ptr = No_adc | Adc_at ad7606b_instance | Adc_freed

datatype adc_rv = adc_ok | adc_no_memory | adc_system_err

definition range_of_param :: "u32 \<Rightarrow> u32" where
  "range_of_param r = (if r = 5 then RANGE_5V else if r = 10 then RANGE_10V else RANGE_2V5)"

text \<open>None: undefined, among it a pointer that was freed by a start that failed.\<close>

definition ctlst_io_adc_pre_exec_init ::
    "'h fpga \<Rightarrow> bool \<Rightarrow> nat option \<Rightarrow> u32 \<Rightarrow> u32 \<Rightarrow> adc_ptr \<times> 'h \<Rightarrow> (adc_rv \<times> adc_ptr \<times> 'h) option" where
  "ctlst_io_adc_pre_exec_init hw allocated mapped channel rng s =
     (let rest = (\<lambda>i h. do {
             let h = snd (adc_ad7606b_stop hw i h);
             (_, h) \<leftarrow> adc_ad7606b_set_range hw i channel (range_of_param rng) h;
             let h = snd (adc_ad7606b_start hw i h);
             Some (adc_ok, Adc_at i, h) })
      in case fst s of
           Adc_freed \<Rightarrow> None
         | Adc_at i \<Rightarrow> rest i (snd s)
         | No_adc \<Rightarrow>
             if \<not> allocated then Some (adc_no_memory, No_adc, snd s)
             else (let (rv, i) = adc_ad7606b_init mapped AD7606B_BASE_ADDR \<lparr> ad_base = 0, ad_phys_base = 0 \<rparr> in
                   if rv \<noteq> 0 then Some (adc_system_err, Adc_freed, snd s)
                   else do { (_, h) \<leftarrow> adc_ad7606b_set_disc_period hw i 1000 100000000 (snd s); rest i h }))"

text \<open>The value before the scale and the bias of the parameters.\<close>

definition ctlst_io_adc_exec :: "'h fpga \<Rightarrow> ad7606b_instance \<Rightarrow> u32 \<Rightarrow> u32 \<Rightarrow> u32 \<Rightarrow> 'h \<Rightarrow> real \<times> 'h" where
  "ctlst_io_adc_exec hw i channel mux rng h =
     (let ((_, v), h) =
        (if unat channel < 8 then adc_ad7606b_get_adc_value hw i 0 channel mux 0 h
         else if unat channel < 16 then adc_ad7606b_get_adc_value hw i 1 (channel - 8) mux 0 h
         else ((0, 0), h))
      in (adc_convert_value v (range_of_param rng), h))"

section \<open>The ranges\<close>

lemma bit_three: "bit (3 :: int) n \<longleftrightarrow> n < 2"
proof -
  have m: "(3 :: int) = mask 2"
    by (simp add: mask_eq_exp_minus_1)
  show ?thesis
    unfolding m bit_mask_iff by auto
qed

text \<open>The field of a channel of the first converter: its two bits become the range, all others of the low half are kept.\<close>

theorem range_reg_field:
  assumes "unat channel < 8" and "rng < 4" and "n < 16"
  shows "bit (range_reg channel rng old) n =
           (if n div 2 = unat channel then bit rng (n mod 2) else bit old n)"
proof -
  have rng: "bit rng k \<longrightarrow> k < 2" for k
  proof -
    have "rng = take_bit 2 rng"
      using assms(2) by (intro word_eq_by_unat) (simp add: unsigned_take_bit_eq take_bit_eq_mod word_less_nat_alt unat_mod)
    then show ?thesis
      by (metis bit_take_bit_iff)
  qed
  have r: "bit (range_reg channel rng old) n \<longleftrightarrow>
      (bit old n \<and> (n < 2 * unat channel \<or> \<not> n - 2 * unat channel < 2)) \<or> (2 * unat channel \<le> n \<and> bit rng (n - 2 * unat channel))"
    using assms(3) unfolding range_reg_def Let_def
    by (auto simp: bit_simps bit_three mult.commute not_le)
  show ?thesis
  proof (cases "n div 2 = unat channel")
    case True
    have "2 * unat channel \<le> n" "n - 2 * unat channel = n mod 2" "n mod 2 < 2"
      by (simp_all flip: True add: minus_mult_div_eq_mod)
    then show ?thesis
      using r True by auto
  next
    case False
    then have "n < 2 * unat channel \<or> \<not> n - 2 * unat channel < 2"
      by auto
    then show ?thesis
      using r False rng [of "n - 2 * unat channel"] by auto
  qed
qed

text \<open>The channels 8 to 15, of the second converter, have their fields in the upper half of the register, which the
  variable of 16 bits does not reach: the range is lost, and the upper half is cleared, so that every channel of the second
  converter is set to 2.5 V whatever is asked for, by a call for any channel.\<close>

theorem range_lost:
  assumes "8 \<le> unat channel" and "unat channel < 16"
  shows "(ucast (range_reg channel rng old) :: u32) = old AND 0xFFFF"
proof -
  have m: "(0xFFFF :: u32) = mask 16"
    by (simp add: mask_eq_exp_minus_1)
  show ?thesis
    using assms unfolding range_reg_def Let_def m
    by (intro bit_word_eqI) (auto simp: bit_simps bit_three mult.commute)
qed

theorem range_lost_witness: "(ucast (range_reg 9 RANGE_10V 0xFFFFFFFF) :: u32) = 0xFFFFFFFF AND 0xFFFF"
  by (rule range_lost) simp_all

theorem range_reg_field_witness:
  "bit (range_reg 3 RANGE_10V 0x1234) 7 = (if (7 :: nat) div 2 = unat (3 :: u32) then bit RANGE_10V (7 mod 2) else bit (0x1234 :: u32) 7)"
  by (rule range_reg_field) (simp_all add: RANGE_10V_def)

text \<open>A value is within the range that is set.\<close>

lemma convert_value_range:
  "\<bar>adc_convert_value (sint w) RANGE_10V\<bar> \<le> 10" for w :: u16
proof -
  have "- 32768 \<le> sint w" "sint w < 32768"
    using sint_greater_eq [of w] sint_less [of w] by simp_all
  then have "\<bar>sint w\<bar> \<le> 32768"
    by linarith
  then have "\<bar>real_of_int (sint w)\<bar> \<le> 32768"
    by linarith
  then show ?thesis
    by (simp add: adc_convert_value_def RANGE_10V_def RANGE_2V5_def RANGE_5V_def abs_mult)
qed

text \<open>The last registers of the multiplexed channels lie behind the part that is mapped.\<close>

lemma mux_registers_unmapped:
  "AD7606B_REG_MAP_SIZE < AD7606B_VIN_1_CHN_MUX_01_ADC_1_ADDR + 4 * 8 * channel + mux div 2 * 4"
  by (simp add: AD7606B_REG_MAP_SIZE_def AD7606B_VIN_1_CHN_MUX_01_ADC_1_ADDR_def)

text \<open>A start that fails frees the instance and keeps the pointer; the next start uses it.\<close>

theorem adc_failed_start_dangles:
  "ctlst_io_adc_pre_exec_init hw True None channel rng (No_adc, h) = Some (adc_system_err, Adc_freed, h) \<and>
   ctlst_io_adc_pre_exec_init hw a m channel' rng' (Adc_freed, h') = None"
  by (simp add: ctlst_io_adc_pre_exec_init_def adc_ad7606b_init_def Let_def)

end
