(* ===== verification/Usb.thy ===== *)
theory Usb
  imports Usart
begin

text \<open>
  The serial port over USB (bsp/mcu/periph/usb/stm32/usb.c and its callbacks in
  USB\_DEVICE/App/usbd\_cdc\_if.c): setting the port up, the callbacks of the device library, the two
  tasks between the endpoints and the ring buffers, and the file operations. Of the device library
  (usbd\_cdc.c) the model has what decides which callback runs: the class data with its transmitter
  state. What the host does during a call is a list of events. A call that never returns, or an access
  through a null pointer or outside an array, is None.
\<close>

section \<open>State\<close>

text \<open>The class data of the device library, which exist while the host has configured the device: the
  transmitter state, the transfer it was given, what is left of it for the endpoint, and
  the bytes of the last request with data.\<close>

record cdc =
  TxState :: u32
  TxLength :: u32
  total_length :: u32
  cdc_data :: "nat \<Rightarrow> u8"

record usb =
  ub_name :: string
  ub_buf_size :: int
  ub_read_timeout :: int
  ub_current :: bool  \<comment> \<open>the pointer \<open>usb\<close> is set\<close>
  ub_tx_sem :: bool
  ub_rx_sem :: bool
  ub_tx_mutex :: mutex
  ub_rx_mutex :: mutex
  ub_write_buf :: "ring_buf option"
  ub_read_buf :: "ring_buf option"
  ub_rx_buf :: "u8 list option"
  ub_tx_buf :: "u8 list option"
  ub_error :: bool
  ub_periph_init :: bool
  ub_tasks_init :: bool
  ub_port_open :: bool
  ub_stdio :: bool
  ub_rx_count :: int
  ub_tx_count :: int
  ub_host_port_state :: bool
  ub_tasks :: "string list"
  ub_class :: "cdc option"
  UserRxBufferFS :: "u8 list"
  ub_sent :: "u8 list list"  \<comment> \<open>the transfers started so far\<close>

section \<open>Setting the port up\<close>

record usb_init_env =
  bi_made :: "nat \<Rightarrow> bool"
  bi_read_alloc :: "nat \<Rightarrow> bool"
  bi_write_alloc :: "nat \<Rightarrow> bool"
  bi_node_alloc :: "nat \<Rightarrow> bool"

definition usb_init :: "usb_init_env \<Rightarrow> 'f \<Rightarrow> (usb \<times> ('h, 'a, 'f) platform) action" where
  "usb_init env f s =
     (if ub_current (fst s) then Some (Errno EBUSY, s)
      else chain [
        on_device (\<lambda>c. (Errno EOK, c \<lparr> ub_current := True \<rparr>)),
        create (bi_made env 0) (\<lambda>c. c \<lparr> ub_tx_mutex := None \<rparr>),
        create (bi_made env 1) (\<lambda>c. c \<lparr> ub_rx_mutex := None \<rparr>),
        create (bi_made env 2) (\<lambda>c. c \<lparr> ub_tx_sem := False \<rparr>),
        create (bi_made env 3) (\<lambda>c. c \<lparr> ub_rx_sem := False \<rparr>),
        (\<lambda>s. on_platform (pf_mount (bi_node_alloc env) (''/dev/'' @ ub_name (fst s)) f) s),
        on_device (\<lambda>c. case new_ring (bi_read_alloc env) (ub_buf_size c) of
          None \<Rightarrow> (Hal (- 1), c \<lparr> ub_read_buf := None \<rparr>) | Some rb \<Rightarrow> (Errno EOK, c \<lparr> ub_read_buf := Some rb \<rparr>)),
        on_device (\<lambda>c. case new_ring (bi_write_alloc env) (ub_buf_size c) of
          None \<Rightarrow> (Hal (- 1), c \<lparr> ub_write_buf := None \<rparr>) | Some rb \<Rightarrow> (Errno EOK, c \<lparr> ub_write_buf := Some rb \<rparr>)),
        create (bi_made env 4) (\<lambda>c. c \<lparr> ub_rx_buf := Some (zeros (ub_buf_size c)) \<rparr>),
        create (bi_made env 5) (\<lambda>c. c \<lparr> ub_tx_buf := Some (zeros (ub_buf_size c)) \<rparr>),
        on_device (\<lambda>c. (Errno EOK, c \<lparr> ub_rx_count := 0, ub_tx_count := 0, ub_host_port_state := False, ub_periph_init := True \<rparr>))] s)"

section \<open>The callbacks of the device library\<close>

definition usb_transmit_compl :: "u32 \<Rightarrow> usb \<Rightarrow> usb" where
  "usb_transmit_compl len c = c \<lparr> ub_tx_sem := True, ub_tx_count := sint len \<rparr>"

definition usb_receive_compl :: "u32 \<Rightarrow> usb \<Rightarrow> usb" where
  "usb_receive_compl len c = c \<lparr> ub_rx_sem := True, ub_rx_count := sint len \<rparr>"

definition usb_set_host_com_port :: "usb \<Rightarrow> usb" where
  "usb_set_host_com_port c = c \<lparr> ub_host_port_state := True \<rparr>"

definition usb_reset_host_com_port :: "usb \<Rightarrow> usb" where
  "usb_reset_host_com_port c = c \<lparr> ub_host_port_state := False \<rparr>"

definition CDC_SET_LINE_CODING :: u8 where "CDC_SET_LINE_CODING = 0x20"
definition CDC_SET_CONTROL_LINE_STATE :: u8 where "CDC_SET_CONTROL_LINE_STATE = 0x22"

text \<open>The field \<open>wValue\<close> of a setup packet that is assumed to start at the buffer.\<close>

definition wValue :: "(nat \<Rightarrow> u8) \<Rightarrow> u16" where
  "wValue pbuf = ucast (pbuf 2) OR push_bit 8 (ucast (pbuf 3))"

definition CDC_Control_FS :: "u8 \<Rightarrow> (nat \<Rightarrow> u8) \<Rightarrow> usb \<Rightarrow> usb" where
  "CDC_Control_FS cmd pbuf c =
     (if cmd = CDC_SET_LINE_CODING
      then (if wValue pbuf AND 1 \<noteq> 0 then usb_set_host_com_port c else usb_reset_host_com_port c)
      else c)"

text \<open>The next packet is asked for before the task is told of this one.\<close>

definition CDC_Receive_FS :: "u32 \<Rightarrow> usb \<Rightarrow> usb" where
  "CDC_Receive_FS len c = usb_receive_compl len c"

definition CDC_TransmitCplt_FS :: "u32 \<Rightarrow> usb \<Rightarrow> usb" where
  "CDC_TransmitCplt_FS len c = usb_transmit_compl len c"

text \<open>What the host does: it configures the device or gives up the configuration, it
  sends a packet, it has taken what the endpoint offered, it makes a class request with data for the device
  (its bytes go to the start of the request buffer), without data, or for data from the device.\<close>

datatype usb_event =
    Configured | Deconfigured
  | Out_packet "u8 list"
  | In_taken
  | Request_data u8 "u8 list"
  | Request_plain u8 u8 u16
  | Request_get u8

definition setup_packet :: "u8 \<Rightarrow> u8 \<Rightarrow> u16 \<Rightarrow> nat \<Rightarrow> u8" where
  "setup_packet bmRequest bRequest value i =
     (if i = 0 then bmRequest else if i = 1 then bRequest else if i = 2 then ucast value
      else if i = 3 then ucast (drop_bit 8 value) else 0)"

definition data_in :: "u8 list \<Rightarrow> (nat \<Rightarrow> u8) \<Rightarrow> nat \<Rightarrow> u8" where
  "data_in bytes old i = (if i < length bytes then bytes ! i else old i)"

text \<open>A packet is at most 64 bytes long; a transfer that fills its last packet is ended by an empty one.\<close>

fun usb_irq :: "usb_event \<Rightarrow> usb \<Rightarrow> usb" where
  "usb_irq Configured c = c \<lparr> ub_class := Some \<lparr> TxState = 0, TxLength = 0, total_length = 0, cdc_data = (\<lambda>_. 0) \<rparr> \<rparr>"
| "usb_irq Deconfigured c = c \<lparr> ub_class := None \<rparr>"
| "usb_irq (Out_packet p) c =
     (if ub_class c = None then c
      else (let p = take 64 p in
        CDC_Receive_FS (word_of_nat (length p)) (c \<lparr> UserRxBufferFS := p @ drop (length p) (UserRxBufferFS c) \<rparr>)))"
| "usb_irq In_taken c =
     (case ub_class c of None \<Rightarrow> c
      | Some h \<Rightarrow>
        if 0 < total_length h \<and> total_length h mod 64 = 0
        then c \<lparr> ub_class := Some (h \<lparr> total_length := 0 \<rparr>) \<rparr>
        else CDC_TransmitCplt_FS (TxLength h) (c \<lparr> ub_class := Some (h \<lparr> TxState := 0 \<rparr>) \<rparr>))"
| "usb_irq (Request_data cmd bytes) c =
     (case ub_class c of None \<Rightarrow> c
      | Some h \<Rightarrow> CDC_Control_FS cmd (data_in bytes (cdc_data h)) (c \<lparr> ub_class := Some (h \<lparr> cdc_data := data_in bytes (cdc_data h) \<rparr>) \<rparr>))"
| "usb_irq (Request_plain bm cmd v) c = (if ub_class c = None then c else CDC_Control_FS cmd (setup_packet bm cmd v) c)"
| "usb_irq (Request_get cmd) c = (case ub_class c of None \<Rightarrow> c | Some h \<Rightarrow> CDC_Control_FS cmd (cdc_data h) c)"

definition usb_irqs :: "usb_event list \<Rightarrow> usb \<Rightarrow> usb" where
  "usb_irqs es c = fold usb_irq es c"

text \<open>A wait without limit for a semaphore of the port, which the waiting task takes.\<close>

fun usb_wait :: "(usb \<Rightarrow> bool) \<Rightarrow> usb_event list \<Rightarrow> usb \<Rightarrow> usb option" where
  "usb_wait sem [] c = (if sem c then Some c else None)"
| "usb_wait sem (e # es) c = (if sem c then Some c else usb_wait sem es (usb_irq e c))"

section \<open>Transfers\<close>

definition USBD_BUSY :: u8 where "USBD_BUSY = 1"

text \<open>Both calls read the class data without asking whether there are any.\<close>

definition CDC_Busy_FS :: "usb \<Rightarrow> u8 option" where
  "CDC_Busy_FS c = map_option (\<lambda>h. if TxState h \<noteq> 0 then USBD_BUSY else 0) (ub_class c)"

definition CDC_Transmit_FS :: "u8 list \<Rightarrow> u16 \<Rightarrow> usb \<Rightarrow> (u8 \<times> usb) option" where
  "CDC_Transmit_FS buf n c = do {
     h \<leftarrow> ub_class c;
     if TxState h \<noteq> 0 then Some (USBD_BUSY, c)
     else if length buf < unat n then None
     else Some (0, c \<lparr> ub_class := Some (h \<lparr> TxLength := ucast n, TxState := 1, total_length := ucast n \<rparr>),
                       ub_sent := ub_sent c @ [take (unat n) buf] \<rparr>)
   }"

definition usb_transmit :: "task \<Rightarrow> usb_event list \<Rightarrow> u8 list \<Rightarrow> u16 \<Rightarrow> usb \<Rightarrow> (init_result \<times> usb) option" where
  "usb_transmit me waits pdata n c =
     (case mutex_take me False (ub_tx_mutex c) of (ok, m) \<Rightarrow>
        if \<not> ok then Some (Errno EBUSY, c)
        else do {
          (rv, c) \<leftarrow> CDC_Transmit_FS pdata n (c \<lparr> ub_tx_mutex := m, ub_tx_sem := False \<rparr>);
          c \<leftarrow> (if rv = 0 then map_option (ub_tx_sem_update (\<lambda>_. False)) (usb_wait ub_tx_sem waits c) else Some c);
          m \<leftarrow> mutex_give me (ub_tx_mutex c);
          Some (Hal (uint rv), c \<lparr> ub_tx_mutex := m \<rparr>)
        })"

text \<open>During a round of the read task: what happens before it drains the semaphore, while it waits, between
  the end of the wait and the copy, and between the copy and the write to the ring buffer.\<close>

record usb_read_env =
  ur_before :: "usb_event list"
  ur_wait :: "usb_event list"
  ur_late :: "usb_event list"
  ur_after :: "usb_event list"

text \<open>The copy has the length of the packet, whatever the length of the buffer is.\<close>

definition usb_receive :: "task \<Rightarrow> usb_read_env \<Rightarrow> u8 list \<Rightarrow> usb \<Rightarrow> (init_result \<times> u8 list \<times> usb) option" where
  "usb_receive me env pdata c =
     (case mutex_take me False (ub_rx_mutex c) of (ok, m) \<Rightarrow>
        if \<not> ok then Some (Errno EBUSY, pdata, c)
        else do {
          c \<leftarrow> usb_wait ub_rx_sem (ur_wait env) ((usb_irqs (ur_before env) (c \<lparr> ub_rx_mutex := m \<rparr>)) \<lparr> ub_rx_sem := False \<rparr>);
          let c = usb_irqs (ur_late env) (c \<lparr> ub_rx_sem := False \<rparr>);
          buf \<leftarrow> (if ub_rx_count c < 0 then None else memcpy pdata 0 (UserRxBufferFS c) 0 (nat (ub_rx_count c)));
          m \<leftarrow> mutex_give me (ub_rx_mutex c);
          Some (Hal 0, buf, c \<lparr> ub_rx_mutex := m \<rparr>)
        })"

section \<open>The tasks\<close>

text \<open>A round of \<open>usb_read_task\<close>; the result has the bytes the readers of the port took meanwhile.\<close>

definition usb_read_round :: "task \<Rightarrow> usb_read_env \<Rightarrow> u16 list \<Rightarrow> usb \<Rightarrow> (u8 list \<times> usb) option" where
  "usb_read_round me env ds c = do {
     buf \<leftarrow> ub_rx_buf c;
     (rv, buf, c) \<leftarrow> usb_receive me env buf c;
     let c = usb_irqs (ur_after env) (c \<lparr> ub_rx_buf := Some buf, ub_error := \<not> init_ok rv \<rparr>);
     (n, out, rb) \<leftarrow> ring_buf_write ds (ub_read_buf c) buf (word_of_int (min (ub_rx_count c) (ub_buf_size c)));
     Some (out, c \<lparr> ub_read_buf := rb \<rparr>)
   }"

text \<open>A round of \<open>usb_write_task\<close>: while the endpoint is busy or the host has not opened the port, it waits for
  10 ms and looks again; \<open>es\<close> is what happens during this wait or during the transfer.\<close>

definition usb_write_round :: "task \<Rightarrow> usb_event list \<Rightarrow> usb \<Rightarrow> usb option" where
  "usb_write_round me es c = do {
     busy \<leftarrow> CDC_Busy_FS c;
     if busy \<noteq> 0 \<or> \<not> ub_host_port_state c then Some (usb_irqs es c)
     else do {
       (n, out, rb) \<leftarrow> ring_buf_read (ub_write_buf c) (word_of_int (ub_buf_size c));
       buf \<leftarrow> ub_tx_buf c;
       buf \<leftarrow> memcpy buf 0 out 0 (length out);
       (rv, c) \<leftarrow> usb_transmit me es buf (word_of_int n) (c \<lparr> ub_write_buf := rb, ub_tx_buf := Some buf \<rparr>);
       Some (c \<lparr> ub_error := \<not> init_ok rv \<rparr>)
     }
   }"

section \<open>The file operations\<close>

definition usb_open :: "usb \<Rightarrow> int \<times> errno \<times> usb" where
  "usb_open c =
     (if ub_port_open c \<and> \<not> ub_stdio c then (- 1, EACCES, c)
      else if ub_tasks_init c then (0, EOK, c)
      else if ub_buf_size c \<le> 0 then (- 1, EINVAL, c)
      else if ub_read_buf c = None \<or> ub_write_buf c = None then (- 1, ENOMEM, c)
      else (0, EOK, c \<lparr> ub_tasks_init := True, ub_port_open := True,
        ub_tasks := ub_tasks c @ [take 31 (ub_name c @ ''_read_thread''), take 31 (ub_name c @ ''_write_thread'')] \<rparr>))"

definition usb_write :: "u16 list \<Rightarrow> u8 list \<Rightarrow> u32 \<Rightarrow> usb \<Rightarrow> (int \<times> errno \<times> u8 list \<times> usb) option" where
  "usb_write ds buf count c = do {
     (rv, out, rb) \<leftarrow> ring_buf_write ds (ub_write_buf c) buf (ucast count);
     let c = c \<lparr> ub_write_buf := rb \<rparr>;
     if ub_error c then Some (- 1, EPROTO, out, c) else Some (rv, EOK, out, c)
   }"

definition usb_read :: "u8 list list \<Rightarrow> u32 \<Rightarrow> usb \<Rightarrow> (int \<times> errno \<times> u8 list \<times> usb) option" where
  "usb_read ws count c = do {
     (rv, out, rb) \<leftarrow> ring_buf_read_timeout ws (ub_read_buf c) count (word_of_int (ub_read_timeout c));
     let c = c \<lparr> ub_read_buf := rb \<rparr>;
     if rv < 0 then Some (- 1, ETIMEDOUT, out, c)
     else if ub_error c then Some (- 1, EPROTO, out, c)
     else Some (rv, EOK, out, c)
   }"

definition usb_close :: "usb \<Rightarrow> int \<times> errno \<times> usb" where
  "usb_close c = (if ub_port_open c then (0, EOK, c \<lparr> ub_port_open := False \<rparr>) else (0, ENOENT, c))"

definition usb_ioctl :: "int \<Rightarrow> u32 \<Rightarrow> usb \<Rightarrow> int \<times> usb" where
  "usb_ioctl request arg c = (0, c)"

section \<open>What the callbacks leave alone\<close>

text \<open>The fields only the tasks and the users of the port change.\<close>

definition usb_fixed :: "usb \<Rightarrow> _" where
  "usb_fixed c = ((ub_buf_size c, ub_read_timeout c, ub_tx_mutex c, ub_rx_mutex c, ub_write_buf c, ub_read_buf c),
     (ub_rx_buf c, ub_tx_buf c, ub_error c, ub_tasks_init c, ub_port_open c, ub_sent c))"

lemma usb_irq_fixed [simp]: "usb_fixed (usb_irq e c) = usb_fixed c"
  by (cases e) (auto simp: usb_fixed_def Let_def CDC_Receive_FS_def usb_receive_compl_def CDC_TransmitCplt_FS_def usb_transmit_compl_def
      CDC_Control_FS_def usb_set_host_com_port_def usb_reset_host_com_port_def split: option.splits)

lemma usb_irqs_fixed [simp]: "usb_fixed (usb_irqs es c) = usb_fixed c"
  by (induction es arbitrary: c) (simp_all add: usb_irqs_def)

lemma usb_wait_fixed: "usb_wait sem es c = Some c' \<Longrightarrow> usb_fixed c' = usb_fixed c"
  by (induction es arbitrary: c) (auto split: if_splits)

text \<open>The receive buffer of the endpoint keeps its size and the count stays that of a packet.\<close>

definition rx_ok :: "usb \<Rightarrow> bool" where
  "rx_ok c \<longleftrightarrow> length (UserRxBufferFS c) = 2048 \<and> 0 \<le> ub_rx_count c \<and> ub_rx_count c \<le> 64"

lemma sint_packet: "k \<le> 64 \<Longrightarrow> sint (word_of_nat k :: u32) = int k"
  by (subst sint_of_small) (simp_all add: unat_of_nat take_bit_nat_eq_self)

lemma rx_ok_irq: "rx_ok c \<Longrightarrow> rx_ok (usb_irq e c)"
  by (cases e) (auto simp: rx_ok_def Let_def CDC_Receive_FS_def usb_receive_compl_def CDC_TransmitCplt_FS_def usb_transmit_compl_def
      CDC_Control_FS_def usb_set_host_com_port_def usb_reset_host_com_port_def sint_packet split: option.splits)

lemma rx_ok_irqs: "rx_ok c \<Longrightarrow> rx_ok (usb_irqs es c)"
  by (induction es arbitrary: c) (simp_all add: usb_irqs_def rx_ok_irq)

lemma rx_ok_wait: "usb_wait sem es c = Some c' \<Longrightarrow> rx_ok c \<Longrightarrow> rx_ok c'"
  by (induction es arbitrary: c) (auto simp: rx_ok_irq split: if_splits)

lemma rx_ok_upd [simp]:
  "rx_ok (c \<lparr> ub_rx_sem := b \<rparr>) = rx_ok c" "rx_ok (c \<lparr> ub_tx_sem := b \<rparr>) = rx_ok c" "rx_ok (c \<lparr> ub_rx_mutex := m \<rparr>) = rx_ok c"
  "rx_ok (c \<lparr> ub_tx_mutex := m \<rparr>) = rx_ok c" "rx_ok (c \<lparr> ub_rx_buf := x \<rparr>) = rx_ok c" "rx_ok (c \<lparr> ub_tx_buf := x \<rparr>) = rx_ok c"
  "rx_ok (c \<lparr> ub_error := b \<rparr>) = rx_ok c" "rx_ok (c \<lparr> ub_read_buf := rb \<rparr>) = rx_ok c" "rx_ok (c \<lparr> ub_write_buf := rb \<rparr>) = rx_ok c"
  "rx_ok (c \<lparr> ub_class := h \<rparr>) = rx_ok c" "rx_ok (c \<lparr> ub_sent := ps \<rparr>) = rx_ok c" "rx_ok (c \<lparr> ub_tasks_init := b \<rparr>) = rx_ok c"
  "rx_ok (c \<lparr> ub_port_open := b \<rparr>) = rx_ok c" "rx_ok (c \<lparr> ub_tasks := ts \<rparr>) = rx_ok c"
  by (simp_all add: rx_ok_def)

section \<open>The invariant of the port\<close>

definition usb_inv :: "usb \<Rightarrow> bool" where
  "usb_inv c \<longleftrightarrow> 64 \<le> ub_buf_size c \<and> ub_buf_size c \<le> 65535 \<and>
     ring_ok (ub_buf_size c) (ub_read_buf c) \<and> ring_ok (ub_buf_size c) (ub_write_buf c) \<and>
     (\<exists>b. ub_rx_buf c = Some b \<and> length b = nat (ub_buf_size c)) \<and>
     (\<exists>b. ub_tx_buf c = Some b \<and> length b = nat (ub_buf_size c)) \<and>
     ub_tx_mutex c = None \<and> ub_rx_mutex c = None \<and> \<not> ub_error c \<and> rx_ok c"

lemma usb_inv_irq: "usb_inv c \<Longrightarrow> usb_inv (usb_irq e c)"
  using usb_irq_fixed [of e c] by (simp add: usb_inv_def usb_fixed_def rx_ok_irq)

lemma usb_size16: "usb_inv c \<Longrightarrow> unat (word_of_int (ub_buf_size c) :: u16) = nat (ub_buf_size c) \<and> (word_of_int (ub_buf_size c) :: u16) \<noteq> 0"
  using uint_size [of "ub_buf_size c"] by (auto simp: usb_inv_def)

lemma usb_inv_rings [simp]:
  "usb_inv c \<Longrightarrow> ring_ok (ub_buf_size c) p \<Longrightarrow> usb_inv (c \<lparr> ub_read_buf := p \<rparr>)"
  "usb_inv c \<Longrightarrow> ring_ok (ub_buf_size c) p \<Longrightarrow> usb_inv (c \<lparr> ub_write_buf := p \<rparr>)"
  by (simp_all add: usb_inv_def)

section \<open>A round of the read task\<close>

text \<open>The state in which the task starts to wait, and a round that gets a packet.\<close>

definition read_waits :: "task \<Rightarrow> usb_read_env \<Rightarrow> usb \<Rightarrow> usb" where
  "read_waits me env c = (usb_irqs (ur_before env) (c \<lparr> ub_rx_mutex := Some me \<rparr>)) \<lparr> ub_rx_sem := False \<rparr>"

definition packet_of :: "usb \<Rightarrow> u8 list" where
  "packet_of c = take (nat (ub_rx_count c)) (UserRxBufferFS c)"

lemma usb_receive_gets:
  assumes free: "ub_rx_mutex c = None" and rx: "rx_ok c" and w: "usb_wait ub_rx_sem (ur_wait env) (read_waits me env c) = Some c1"
    and buf: "64 \<le> length pdata"
  defines "c2 \<equiv> usb_irqs (ur_late env) (c1 \<lparr> ub_rx_sem := False \<rparr>)"
  shows "usb_receive me env pdata c = Some (Hal 0, packet_of c2 @ drop (length (packet_of c2)) pdata, c2 \<lparr> ub_rx_mutex := None \<rparr>) \<and>
     rx_ok c2 \<and> usb_fixed (c2 \<lparr> ub_rx_mutex := None \<rparr>) = usb_fixed c"
proof -
  have "rx_ok (read_waits me env c)"
    using rx by (simp add: read_waits_def rx_ok_irqs)
  then have rx2: "rx_ok c2"
    using rx_ok_wait [OF w] by (simp add: c2_def rx_ok_irqs)
  have fixed1: "usb_fixed c1 = usb_fixed (c \<lparr> ub_rx_mutex := Some me \<rparr>)"
    using usb_wait_fixed [OF w] usb_irqs_fixed [of "ur_before env" "c \<lparr> ub_rx_mutex := Some me \<rparr>"]
    by (simp add: read_waits_def usb_fixed_def)
  have fixed2: "usb_fixed c2 = usb_fixed (c \<lparr> ub_rx_mutex := Some me \<rparr>)"
    using usb_irqs_fixed [of "ur_late env" "c1 \<lparr> ub_rx_sem := False \<rparr>"] fixed1 by (simp add: c2_def usb_fixed_def)
  have m: "ub_rx_mutex c2 = Some me"
    using fixed2 by (simp add: usb_fixed_def)
  have len: "length (packet_of c2) = nat (ub_rx_count c2)" "nat (ub_rx_count c2) \<le> 64"
    using rx2 by (auto simp: packet_of_def rx_ok_def)
  have "memcpy pdata 0 (UserRxBufferFS c2) 0 (nat (ub_rx_count c2)) = Some (packet_of c2 @ drop (length (packet_of c2)) pdata)"
    using len buf rx2 by (simp add: memcpy_def rx_ok_def packet_of_def)
  then have "usb_receive me env pdata c = Some (Hal 0, packet_of c2 @ drop (length (packet_of c2)) pdata, c2 \<lparr> ub_rx_mutex := None \<rparr>)"
    using free w rx2 m by (simp add: usb_receive_def mutex_take_def read_waits_def c2_def Let_def rx_ok_def)
  moreover have "usb_fixed (c2 \<lparr> ub_rx_mutex := None \<rparr>) = usb_fixed c"
    using fixed2 free by (simp add: usb_fixed_def)
  ultimately show ?thesis
    using rx2 by simp
qed

text \<open>The bytes that reach the ring buffer: as many as the count says then, from the buffer of the task.\<close>

lemma usb_read_round_total:
  assumes inv: "usb_inv c" and w: "usb_wait ub_rx_sem (ur_wait env) (read_waits me env c) = Some c1"
    and ds: "\<forall>d \<in> set ds. d \<noteq> 0" and room: "64 \<le> length ds + free_of (ub_read_buf c)"
  defines "c2 \<equiv> usb_irqs (ur_late env) (c1 \<lparr> ub_rx_sem := False \<rparr>)"
  shows "\<exists>out c' buf k. usb_read_round me env ds c = Some (out, c') \<and> usb_inv c' \<and> k \<le> 64 \<and>
     bytes_of (ub_read_buf c) @ take k buf = out @ bytes_of (ub_read_buf c') \<and>
     take (length (packet_of c2)) buf = packet_of c2 \<and> length (packet_of c2) \<le> length buf \<and>
     (ur_after env = [] \<longrightarrow> k = length (packet_of c2)) \<and> (64 \<le> free_of (ub_read_buf c) \<longrightarrow> out = []) \<and>
     ub_write_buf c' = ub_write_buf c \<and> ub_sent c' = ub_sent c"
proof -
  obtain rx where rx: "ub_rx_buf c = Some rx" "length rx = nat (ub_buf_size c)"
    using inv by (auto simp: usb_inv_def)
  have size: "64 \<le> ub_buf_size c" "ub_buf_size c \<le> 65535" and free: "ub_rx_mutex c = None" and ok: "rx_ok c"
    using inv by (simp_all add: usb_inv_def)
  have rx64: "64 \<le> length rx"
    using rx(2) size by simp
  note got = usb_receive_gets [OF free ok w rx64, folded c2_def]
  define buf where "buf = packet_of c2 @ drop (length (packet_of c2)) rx"
  define c3 where "c3 = usb_irqs (ur_after env) (c2 \<lparr> ub_rx_mutex := None, ub_rx_buf := Some buf, ub_error := False \<rparr>)"
  have p64: "length (packet_of c2) \<le> 64" and cnt: "length (packet_of c2) = nat (ub_rx_count c2)"
    using got by (auto simp: packet_of_def rx_ok_def)
  have lenbuf: "length buf = nat (ub_buf_size c)"
    using p64 rx64 rx(2) by (simp add: buf_def)
  have fixed3: "usb_fixed c3 = usb_fixed (c \<lparr> ub_rx_buf := Some buf \<rparr>)"
    using usb_irqs_fixed [of "ur_after env" "c2 \<lparr> ub_rx_mutex := None, ub_rx_buf := Some buf, ub_error := False \<rparr>"] got inv
    by (simp add: c3_def usb_fixed_def usb_inv_def)
  have inv3: "usb_inv c3" and rb3: "ub_read_buf c3 = ub_read_buf c" "ub_buf_size c3 = ub_buf_size c"
      "ub_write_buf c3 = ub_write_buf c" "ub_sent c3 = ub_sent c"
    using fixed3 inv lenbuf got by (simp_all add: usb_inv_def usb_fixed_def) (simp_all add: c3_def rx_ok_irqs)
  define n where "n = ub_rx_count c3"
  have n: "0 \<le> n" "n \<le> 64"
    using inv3 by (simp_all add: usb_inv_def rx_ok_def n_def)
  have k: "min n (ub_buf_size c3) = n" "unat (word_of_int n :: u16) = nat n"
    using n rb3 size uint_size [of n] by simp_all
  obtain rb where rb: "ub_read_buf c = Some rb" "rb_inv rb" "rb_size rb = word_of_int (ub_buf_size c)"
    using inv by (auto simp: usb_inv_def ring_ok_def)
  have le: "unat (word_of_int n :: u16) \<le> length buf" "unat (word_of_int n :: u16) \<le> length ds + unat (ring_buf_get_free_size rb)"
    using k(2) n lenbuf size room rb(1) by simp_all
  obtain out rb' where wr: "ring_buf_write ds (Some rb) buf (word_of_int n) = Some (uint (word_of_int n :: u16), out, Some rb')"
      "ring_ok (ub_buf_size c) (Some rb')" "rb_contents rb @ take (nat n) buf = out @ rb_contents rb'"
    using ring_buf_write_total [of "ub_buf_size c" rb "word_of_int n" buf ds] rb usb_size16 [OF inv] ds le
    by (auto simp: ring_ok_def k(2))
  have "out = []" if "64 \<le> free_of (ub_read_buf c)"
  proof -
    have "word_of_int n \<le> ring_buf_get_free_size rb"
      using that rb(1) k(2) n by (simp add: word_le_nat_alt)
    then show ?thesis
      using ring_write_loop_fits [OF rb(2), of "word_of_int n" buf ds] wr(1) le(1) rb_inv_start [OF rb(2)] by (auto simp: ring_buf_write_def)
  qed
  moreover have r: "usb_receive me env rx c = Some (Hal 0, buf, c2 \<lparr> ub_rx_mutex := None \<rparr>)"
    using got by (simp add: buf_def)
  moreover have "usb_read_round me env ds c = Some (out, c3 \<lparr> ub_read_buf := Some rb' \<rparr>)"
    using wr(1) k(1) rb(1) rb3(1)
    by (simp add: usb_read_round_def rx(1) r Let_def c3_def [symmetric] n_def)
  moreover have "usb_inv (c3 \<lparr> ub_read_buf := Some rb' \<rparr>)"
    using inv3 wr(2) rb3(2) by simp
  moreover have "take (length (packet_of c2)) buf = packet_of c2" and "length (packet_of c2) \<le> length buf"
    by (simp_all add: buf_def)
  moreover have "nat n = length (packet_of c2)" if "ur_after env = []"
    using that cnt by (simp add: n_def c3_def usb_irqs_def)
  moreover have "nat n \<le> 64"
    using n by simp
  ultimately show ?thesis
    using wr(3) rb(1) rb3 by (intro exI [of _ out] exI [of _ "c3 \<lparr> ub_read_buf := Some rb' \<rparr>"] exI [of _ buf] exI [of _ "nat n"]) simp
qed

section \<open>A round of the write task\<close>

text \<open>The state after the transfer has been handed to the endpoint.\<close>

definition given :: "task \<Rightarrow> u8 list \<Rightarrow> usb \<Rightarrow> usb" where
  "given me p c = c \<lparr> ub_tx_mutex := Some me, ub_tx_sem := False, ub_sent := ub_sent c @ [p],
     ub_class := map_option (\<lambda>h. h \<lparr> TxLength := word_of_nat (length p), TxState := 1, total_length := word_of_nat (length p) \<rparr>) (ub_class c) \<rparr>"

lemma given_fixed: "usb_fixed (given me p c) = usb_fixed (c \<lparr> ub_tx_mutex := Some me, ub_sent := ub_sent c @ [p] \<rparr>)"
  by (simp add: given_def usb_fixed_def)

lemma CDC_Transmit_gives:
  assumes "ub_class c = Some h" and "TxState h = 0" and "unat n \<le> length pdata"
  shows "CDC_Transmit_FS pdata n (c \<lparr> ub_tx_mutex := Some me, ub_tx_sem := False \<rparr>) = Some (0, given me (take (unat n) pdata) c)"
proof -
  have "ucast n = (word_of_nat (length (take (unat n) pdata)) :: u32)"
    using assms(3) by (simp add: min_absorb2 min_absorb1)
  then show ?thesis
    using assms unfolding CDC_Transmit_FS_def given_def by simp
qed

lemma usb_transmit_gives:
  assumes free: "ub_tx_mutex c = None" and h: "ub_class c = Some h" "TxState h = 0" and n: "unat n \<le> length pdata"
    and w: "usb_wait ub_tx_sem es (given me (take (unat n) pdata) c) = Some c1"
  shows "usb_transmit me es pdata n c = Some (Hal 0, c1 \<lparr> ub_tx_sem := False, ub_tx_mutex := None \<rparr>) \<and>
     usb_fixed (c1 \<lparr> ub_tx_mutex := None \<rparr>) = usb_fixed (c \<lparr> ub_sent := ub_sent c @ [take (unat n) pdata] \<rparr>)"
proof
  have fixed1: "usb_fixed c1 = usb_fixed (c \<lparr> ub_tx_mutex := Some me, ub_sent := ub_sent c @ [take (unat n) pdata] \<rparr>)"
    using usb_wait_fixed [OF w] by (simp only: given_fixed)
  then have m: "ub_tx_mutex c1 = Some me"
    by (simp add: usb_fixed_def)
  show "usb_transmit me es pdata n c = Some (Hal 0, c1 \<lparr> ub_tx_sem := False, ub_tx_mutex := None \<rparr>)"
    by (simp add: usb_transmit_def free CDC_Transmit_gives [OF h n] w m)
  show "usb_fixed (c1 \<lparr> ub_tx_mutex := None \<rparr>) = usb_fixed (c \<lparr> ub_sent := ub_sent c @ [take (unat n) pdata] \<rparr>)"
    using fixed1 free by (simp add: usb_fixed_def)
qed

lemma rx_ok_given [simp]: "rx_ok (given me p c) = rx_ok c"
  by (simp add: given_def)

text \<open>The callbacks do not look at the buffers of the port.\<close>

definition bufs :: "ring_buf option \<Rightarrow> u8 list option \<Rightarrow> usb \<Rightarrow> usb" where
  "bufs rb b c = c \<lparr> ub_write_buf := rb, ub_tx_buf := b \<rparr>"

lemma usb_irq_bufs: "usb_irq e (bufs rb b c) = bufs rb b (usb_irq e c)"
  by (cases e) (auto simp: bufs_def Let_def CDC_Receive_FS_def usb_receive_compl_def CDC_TransmitCplt_FS_def usb_transmit_compl_def
      CDC_Control_FS_def usb_set_host_com_port_def usb_reset_host_com_port_def split: option.splits)

lemma usb_wait_bufs: "usb_wait ub_tx_sem es (bufs rb b c) = map_option (bufs rb b) (usb_wait ub_tx_sem es c)"
proof (induction es arbitrary: c)
  case (Cons e es)
  then show ?case
    by (simp add: usb_irq_bufs) (simp add: bufs_def)
qed (simp add: bufs_def)

lemma given_bufs: "given me p (bufs rb b c) = bufs rb b (given me p c)"
  by (simp add: given_def bufs_def)

lemma usb_write_round_sends:
  assumes inv: "usb_inv c" and h: "ub_class c = Some h" "TxState h = 0" "ub_host_port_state c"
    and ne: "bytes_of (ub_write_buf c) \<noteq> []"
    and w: "usb_wait ub_tx_sem es (given me (bytes_of (ub_write_buf c)) c) = Some c0"
  shows "\<exists>c'. usb_write_round me es c = Some c' \<and> usb_inv c' \<and> bytes_of (ub_write_buf c') = [] \<and>
     ub_sent c' = ub_sent c @ [bytes_of (ub_write_buf c)] \<and> ub_read_buf c' = ub_read_buf c"
proof -
  obtain tx where tx: "ub_tx_buf c = Some tx" "length tx = nat (ub_buf_size c)"
    using inv by (auto simp: usb_inv_def)
  obtain rb where rb: "ub_write_buf c = Some rb" "rb_inv rb" "rb_size rb = word_of_int (ub_buf_size c)"
    using inv by (auto simp: usb_inv_def ring_ok_def)
  let ?p = "rb_contents rb"
  let ?n = "word_of_int (ub_buf_size c) :: u16"
  have len: "length ?p \<le> unat ?n"
    using rbq.cap [OF rb(2)] rb(3) by (simp add: rb_cap_def)
  have "?p \<noteq> []"
    using ne rb(1) by simp
  then obtain rb' where r: "ring_buf_read_ready rb ?n = Some (?p, rb')" "rb_inv rb'" "rb_contents rb' = []" "rb_size rb' = rb_size rb"
    using read_ready_all [OF rb(2) _ len] by blast
  define b where "b = ?p @ drop (length ?p) tx"
  have b: "memcpy tx 0 ?p 0 (length ?p) = Some b" and lb: "length b = nat (ub_buf_size c)" and tb: "take (length ?p) b = ?p"
    using len tx usb_size16 [OF inv] by (simp_all add: memcpy_def b_def)
  let ?k = "word_of_int (int (length ?p)) :: u16"
  have "length ?p < 65536"
    using len by (rule le_less_trans) simp
  then have k: "unat ?k = length ?p"
    using uint_size [of "int (length ?p)"] by simp
  define c2 where "c2 = bufs (Some rb') (Some b) c"
  have c2: "ub_tx_mutex c2 = None" "ub_class c2 = Some h" "ub_sent c2 = ub_sent c" "ub_read_buf c2 = ub_read_buf c"
    using inv h by (simp_all add: c2_def bufs_def usb_inv_def)
  have fixed2: "usb_fixed c2 = usb_fixed (c \<lparr> ub_write_buf := Some rb', ub_tx_buf := Some b \<rparr>)" "rx_ok c2"
    using inv by (simp_all add: c2_def bufs_def usb_inv_def)
  have kb: "unat ?k \<le> length b"
    using k len lb usb_size16 [OF inv] by simp
  obtain c1 where w1: "usb_wait ub_tx_sem es (given me (take (unat ?k) b) c2) = Some c1"
    using w rb(1) k tb by (simp add: c2_def given_bufs usb_wait_bufs)
  have t: "usb_transmit me es b ?k c2 = Some (Hal 0, c1 \<lparr> ub_tx_sem := False, ub_tx_mutex := None \<rparr>)"
    and fx: "usb_fixed (c1 \<lparr> ub_tx_mutex := None \<rparr>) = usb_fixed (c2 \<lparr> ub_sent := ub_sent c2 @ [take (unat ?k) b] \<rparr>)"
    using usb_transmit_gives [OF c2(1,2) h(2) kb w1] by simp_all
  have "ring_buf_read (ub_write_buf c) ?n = Some (int (length ?p), ?p, Some rb')"
    using r rb rb_inv_start [OF rb(2)] by (auto simp: ring_buf_read_def)
  then have round: "usb_write_round me es c = Some (c1 \<lparr> ub_tx_sem := False, ub_tx_mutex := None, ub_error := False \<rparr>)"
    using h t by (simp add: usb_write_round_def CDC_Busy_FS_def tx(1) b c2_def bufs_def)
  have "rx_ok c1"
    using rx_ok_wait [OF w1] fixed2 by simp
  moreover have "ring_ok (ub_buf_size c) (Some rb')"
    using r rb by (simp add: ring_ok_def)
  ultimately have "usb_inv (c1 \<lparr> ub_tx_sem := False, ub_tx_mutex := None, ub_error := False \<rparr>)"
    using fx fixed2 inv lb by (simp add: usb_inv_def usb_fixed_def)
  then show ?thesis
    using round fx fixed2 c2 k tb r(3) rb(1) by (simp add: usb_fixed_def)
qed

section \<open>The calls on the port\<close>

datatype usb_call =
    Ub_event usb_event
  | Ub_read_task task usb_read_env "u16 list"
  | Ub_write_task task "usb_event list"
  | Ub_open | Ub_close
  | Ub_write "u16 list" "u8 list" u32
  | Ub_read "u8 list list" u32

text \<open>A call with the bytes it gave to the user of the port.\<close>

fun usb_step :: "usb_call \<Rightarrow> usb \<Rightarrow> (u8 list \<times> usb) option" where
  "usb_step (Ub_event e) c = Some ([], usb_irq e c)"
| "usb_step (Ub_read_task me env ds) c = map_option (\<lambda>(out, c). (out, c)) (usb_read_round me env ds c)"
| "usb_step (Ub_write_task me es) c = map_option (\<lambda>c. ([], c)) (usb_write_round me es c)"
| "usb_step Ub_open c = Some ([], snd (snd (usb_open c)))"
| "usb_step Ub_close c = Some ([], snd (snd (usb_close c)))"
| "usb_step (Ub_write ds buf n) c = map_option (\<lambda>(rv, e, out, c). ([], c)) (usb_write ds buf n c)"
| "usb_step (Ub_read ws n) c = map_option (\<lambda>(rv, e, out, c). (out, c)) (usb_read ws n c)"

text \<open>Buffers as long as the caller says, a device that is configured when the write task looks at it, and for the
  calls that block: what they wait for happens.\<close>

fun usb_legal :: "usb_call \<Rightarrow> usb \<Rightarrow> bool" where
  "usb_legal (Ub_read_task me env ds) c \<longleftrightarrow> usb_wait ub_rx_sem (ur_wait env) (read_waits me env c) \<noteq> None \<and>
     (\<forall>d \<in> set ds. d \<noteq> 0) \<and> 64 \<le> length ds + free_of (ub_read_buf c)"
| "usb_legal (Ub_write_task me es) c \<longleftrightarrow> (case ub_class c of None \<Rightarrow> False
     | Some h \<Rightarrow> TxState h = 0 \<and> ub_host_port_state c \<longrightarrow> bytes_of (ub_write_buf c) \<noteq> [] \<and>
         usb_wait ub_tx_sem es (given me (bytes_of (ub_write_buf c)) c) \<noteq> None)"
| "usb_legal (Ub_write ds buf n) c \<longleftrightarrow> (\<forall>d \<in> set ds. d \<noteq> 0) \<and> unat (ucast n :: u16) \<le> length buf \<and>
     unat (ucast n :: u16) \<le> length ds + free_of (ub_write_buf c)"
| "usb_legal (Ub_read ws n) c \<longleftrightarrow> (\<forall>w \<in> set ws. length w < 65536) \<and>
     (bytes_of (ub_read_buf c) \<noteq> [] \<or> \<not> endless (word_of_int (ub_read_timeout c)))"
| "usb_legal _ c = True"

lemma usb_irqs_inv: "usb_inv c \<Longrightarrow> usb_inv (usb_irqs es c)"
  by (induction es arbitrary: c) (simp_all add: usb_irqs_def usb_inv_irq)

lemma usb_write_round_total:
  assumes inv: "usb_inv c" and legal: "usb_legal (Ub_write_task me es) c"
  shows "\<exists>c'. usb_write_round me es c = Some c' \<and> usb_inv c' \<and> ub_read_buf c' = ub_read_buf c \<and>
     concat (ub_sent c') @ bytes_of (ub_write_buf c') = concat (ub_sent c) @ bytes_of (ub_write_buf c)"
proof -
  obtain h where h: "ub_class c = Some h"
    using legal by (auto split: option.splits)
  show ?thesis
  proof (cases "TxState h = 0 \<and> ub_host_port_state c")
    case True
    then obtain c0 where "bytes_of (ub_write_buf c) \<noteq> []" "usb_wait ub_tx_sem es (given me (bytes_of (ub_write_buf c)) c) = Some c0"
      using legal h by auto
    from usb_write_round_sends [OF inv h _ _ this] True show ?thesis
      by auto
  next
    case False
    then have "usb_write_round me es c = Some (usb_irqs es c)"
      using h by (auto simp: usb_write_round_def CDC_Busy_FS_def USBD_BUSY_def)
    moreover have "usb_fixed (usb_irqs es c) = usb_fixed c"
      by simp
    ultimately show ?thesis
      using usb_irqs_inv [OF inv] by (simp add: usb_fixed_def)
  qed
qed

lemma usb_write_total:
  assumes inv: "usb_inv c" and legal: "usb_legal (Ub_write ds buf n) c"
  shows "\<exists>rv e out c'. usb_write ds buf n c = Some (rv, e, out, c') \<and> usb_inv c' \<and> ub_sent c' = ub_sent c \<and> ub_read_buf c' = ub_read_buf c \<and>
     bytes_of (ub_write_buf c) @ take (unat (ucast n :: u16)) buf = out @ bytes_of (ub_write_buf c') \<and> (ds = [] \<longrightarrow> out = [])"
proof -
  let ?n = "ucast n :: u16"
  obtain rb where rb: "ub_write_buf c = Some rb" "rb_inv rb" "rb_size rb = word_of_int (ub_buf_size c)"
    using inv by (auto simp: usb_inv_def ring_ok_def)
  obtain out rb' where w: "ring_buf_write ds (Some rb) buf ?n = Some (uint ?n, out, Some rb')" "ring_ok (ub_buf_size c) (Some rb')"
      "rb_contents rb @ take (unat ?n) buf = out @ rb_contents rb'"
    using ring_buf_write_total [of "ub_buf_size c" rb ?n buf ds] rb usb_size16 [OF inv] legal by (auto simp: ring_ok_def)
  have "out = []" if "ds = []"
  proof -
    have "?n \<le> ring_buf_get_free_size rb"
      using that legal rb(1) by (simp add: word_le_nat_alt)
    then show ?thesis
      using ring_write_loop_fits [OF rb(2), of ?n buf ds] w(1) legal rb_inv_start [OF rb(2)] by (auto simp: ring_buf_write_def)
  qed
  then show ?thesis
    using rb w inv by (auto simp: usb_write_def Let_def)
qed

lemma usb_read_total:
  assumes inv: "usb_inv c" and legal: "usb_legal (Ub_read ws n) c"
  shows "\<exists>rv e out c'. usb_read ws n c = Some (rv, e, out, c') \<and> usb_inv c' \<and> ub_sent c' = ub_sent c \<and> ub_write_buf c' = ub_write_buf c \<and>
     (ws = [] \<longrightarrow> bytes_of (ub_read_buf c) = out @ bytes_of (ub_read_buf c'))"
proof -
  obtain rb where rb: "ub_read_buf c = Some rb" "rb_inv rb" "rb_size rb = word_of_int (ub_buf_size c)"
    using inv by (auto simp: usb_inv_def ring_ok_def)
  obtain rb1 where w: "ring_wait_data ws rb = Some rb1" "rb_inv rb1" "rb_size rb1 = rb_size rb"
    using ring_wait_data_total [OF rb(2), of ws] legal by auto
  show ?thesis
  proof (cases "rb_contents rb1 = []")
    case False
    obtain rb' where t: "ring_buf_read_timeout_section rb1 n (ring_buf_get_data_size rb1) = Some (take (min (unat n) 65535) (rb_contents rb1), rb')"
        "rb_inv rb'" "rb_contents rb' = drop (min (unat n) 65535) (rb_contents rb1)" "rb_size rb' = rb_size rb1"
      using read_timeout_takes [OF w(2) False] by blast
    then have "ring_ok (ub_buf_size c) (Some rb')"
      using w(3) rb(3) by (simp add: ring_ok_def)
    then show ?thesis
      using rb_inv_start [OF rb(2)] w data_size_0 [OF w(2)] False t rb(1) inv
      by (auto simp: usb_read_def ring_buf_read_timeout_def Let_def)
  next
    case True
    then have "bytes_of (ub_read_buf c) = []"
      using ring_wait_data_ready [OF rb(2), of ws] w(1) rb(1) by auto
    then have "\<not> endless (word_of_int (ub_read_timeout c))"
      using legal by simp
    moreover have "ring_ok (ub_buf_size c) (Some rb1)"
      using w rb(3) by (simp add: ring_ok_def)
    ultimately show ?thesis
      using rb_inv_start [OF rb(2)] w data_size_0 [OF w(2)] True rb(1) inv
      by (auto simp: usb_read_def ring_buf_read_timeout_def Let_def)
  qed
qed

lemma usb_open_close_inv:
  "usb_inv c \<Longrightarrow> usb_inv (snd (snd (usb_open c))) \<and> ub_sent (snd (snd (usb_open c))) = ub_sent c \<and>
     ub_write_buf (snd (snd (usb_open c))) = ub_write_buf c \<and> ub_read_buf (snd (snd (usb_open c))) = ub_read_buf c"
  "usb_inv c \<Longrightarrow> usb_inv (snd (snd (usb_close c))) \<and> ub_sent (snd (snd (usb_close c))) = ub_sent c \<and>
     ub_write_buf (snd (snd (usb_close c))) = ub_write_buf c \<and> ub_read_buf (snd (snd (usb_close c))) = ub_read_buf c"
  by (simp_all add: usb_open_def usb_close_def usb_inv_def)

lemma usb_step_safe:
  assumes "usb_inv c" and "usb_legal call c"
  shows "\<exists>got c'. usb_step call c = Some (got, c') \<and> usb_inv c'"
proof (cases call)
  case (Ub_read_task me env ds)
  then obtain c1 where "usb_wait ub_rx_sem (ur_wait env) (read_waits me env c) = Some c1"
    using assms by auto
  from usb_read_round_total [OF assms(1) this, of ds] Ub_read_task assms(2) show ?thesis
    by auto
next
  case (Ub_write_task me es)
  then show ?thesis
    using usb_write_round_total [OF assms(1), of me es] assms(2) by auto
next
  case (Ub_write ds buf n)
  then show ?thesis
    using usb_write_total [OF assms(1), of ds buf n] assms(2) by auto
next
  case (Ub_read ws n)
  then show ?thesis
    using usb_read_total [OF assms(1), of ws n] assms(2) by auto
qed (use assms usb_open_close_inv [OF assms(1)] in \<open>auto simp: usb_inv_irq\<close>)

section \<open>The two streams\<close>

text \<open>The packets in a list of events, and a round of the read task to which exactly one packet comes, while the
  task waits for it.\<close>

fun packets :: "usb_event list \<Rightarrow> u8 list list" where
  "packets [] = []"
| "packets (Out_packet p # es) = take 64 p # packets es"
| "packets (e # es) = packets es"

definition in_step :: "usb_read_env \<Rightarrow> bool" where
  "in_step env \<longleftrightarrow> packets (ur_before env) = [] \<and> length (packets (ur_wait env)) = 1 \<and> packets (ur_late env) = [] \<and> ur_after env = []"

definition rx_part :: "usb \<Rightarrow> bool \<times> int \<times> u8 list" where
  "rx_part c = (ub_rx_sem c, ub_rx_count c, UserRxBufferFS c)"

lemma no_packet_irq: "packets [e] = [] \<Longrightarrow> rx_part (usb_irq e c) = rx_part c"
  by (cases e) (auto simp: rx_part_def Let_def CDC_TransmitCplt_FS_def usb_transmit_compl_def
      CDC_Control_FS_def usb_set_host_com_port_def usb_reset_host_com_port_def split: option.splits)

lemma packets_Cons: "packets (e # es) = packets [e] @ packets es"
  by (cases e) simp_all

lemma no_packet_irqs: "packets es = [] \<Longrightarrow> rx_part (usb_irqs es c) = rx_part c"
proof (induction es arbitrary: c)
  case (Cons e es)
  then show ?case
    using packets_Cons [of e es] no_packet_irq [of e c] by (simp add: usb_irqs_def)
qed (simp add: usb_irqs_def)

lemma no_packet_wait: "packets es = [] \<Longrightarrow> \<not> ub_rx_sem c \<Longrightarrow> usb_wait ub_rx_sem es c = None"
proof (induction es arbitrary: c)
  case (Cons e es)
  then show ?case
    using packets_Cons [of e es] no_packet_irq [of e c] by (simp add: rx_part_def)
qed simp

lemma packet_irq: "ub_class c \<noteq> None \<Longrightarrow> ub_rx_sem (usb_irq (Out_packet p) c) \<and> packet_of (usb_irq (Out_packet p) c) = take 64 p"
  by (auto simp: Let_def CDC_Receive_FS_def usb_receive_compl_def packet_of_def sint_packet min_def)

lemma usb_wait_done: "sem c \<Longrightarrow> usb_wait sem es c = Some c"
  by (cases es) simp_all

lemma one_packet_wait:
  "packets es = [p] \<Longrightarrow> \<not> ub_rx_sem c \<Longrightarrow> usb_wait ub_rx_sem es c = Some c1 \<Longrightarrow> packet_of c1 = p"
proof (induction es arbitrary: c)
  case (Cons e es)
  show ?case
  proof (cases "packets [e] = []")
    case True
    then show ?thesis
      using Cons.IH [of "usb_irq e c"] Cons.prems packets_Cons [of e es] no_packet_irq [OF True, of c] by (simp add: rx_part_def)
  next
    case False
    then obtain q where e: "e = Out_packet q"
      by (cases e) auto
    then have p: "p = take 64 q" and es: "packets es = []"
      using Cons.prems(1) by simp_all
    show ?thesis
    proof (cases "ub_class c")
      case None
      then show ?thesis
        using Cons.prems e no_packet_wait [OF es] by simp
    next
      case (Some h)
      then have "ub_class c \<noteq> None"
        by simp
      from packet_irq [OF this, of q] show ?thesis
        using Cons.prems(2,3) e p usb_wait_done [of ub_rx_sem "usb_irq e c" es] by simp
    qed
  qed
qed simp

text \<open>What a call adds to the two streams; a call is calm when the reads and writes of the ring buffers it makes do not have to
  wait and the packets come in step.\<close>

fun calm :: "usb_call \<Rightarrow> bool" where
  "calm (Ub_event e) \<longleftrightarrow> packets [e] = []"
| "calm (Ub_read_task me env ds) \<longleftrightarrow> in_step env \<and> ds = []"
| "calm (Ub_write ds buf n) \<longleftrightarrow> ds = []"
| "calm (Ub_read ws n) \<longleftrightarrow> ws = []"
| "calm _ = True"

fun accepted :: "usb_call \<Rightarrow> u8 list" where
  "accepted (Ub_write ds buf n) = take (unat (ucast n :: u16)) buf"
| "accepted _ = []"

fun arrived :: "usb_call \<Rightarrow> u8 list" where
  "arrived (Ub_read_task me env ds) = concat (packets (ur_wait env))"
| "arrived _ = []"

lemma read_round_in_step:
  assumes inv: "usb_inv c" and legal: "usb_legal (Ub_read_task me env []) c" and step: "in_step env"
  shows "\<exists>out c'. usb_read_round me env [] c = Some (out, c') \<and> usb_inv c' \<and> ub_write_buf c' = ub_write_buf c \<and> ub_sent c' = ub_sent c \<and>
     bytes_of (ub_read_buf c) @ concat (packets (ur_wait env)) = out @ bytes_of (ub_read_buf c')"
proof -
  obtain p where p: "packets (ur_wait env) = [p]"
    using step by (auto simp: in_step_def length_Suc_conv)
  obtain c1 where w: "usb_wait ub_rx_sem (ur_wait env) (read_waits me env c) = Some c1"
    using legal by auto
  let ?c2 = "usb_irqs (ur_late env) (c1 \<lparr> ub_rx_sem := False \<rparr>)"
  have "rx_part ?c2 = rx_part (c1 \<lparr> ub_rx_sem := False \<rparr>)"
    using step by (intro no_packet_irqs) (simp add: in_step_def)
  moreover have "packet_of c1 = p"
    by (rule one_packet_wait [OF p _ w]) (simp add: read_waits_def)
  ultimately have "packet_of ?c2 = p"
    by (simp add: packet_of_def rx_part_def)
  then show ?thesis
    using usb_read_round_total [OF inv w, of "[]"] legal step p by (auto simp: in_step_def)
qed

lemma usb_step_streams:
  assumes inv: "usb_inv c" and legal: "usb_legal call c" and calm: "calm call"
  shows "\<exists>got c'. usb_step call c = Some (got, c') \<and> usb_inv c' \<and>
     concat (ub_sent c') @ bytes_of (ub_write_buf c') = (concat (ub_sent c) @ bytes_of (ub_write_buf c)) @ accepted call \<and>
     got @ bytes_of (ub_read_buf c') = bytes_of (ub_read_buf c) @ arrived call"
proof (cases call)
  case (Ub_event e)
  then show ?thesis
    using inv usb_inv_irq [of c e] usb_irq_fixed [of e c] by (simp add: usb_fixed_def)
next
  case (Ub_read_task me env ds)
  then show ?thesis
    using read_round_in_step [OF inv, of me env] legal calm by fastforce
next
  case (Ub_write_task me es)
  then show ?thesis
    using usb_write_round_total [OF inv, of me es] legal by fastforce
next
  case (Ub_write ds buf n)
  then show ?thesis
    using usb_write_total [OF inv, of ds buf n] legal calm by fastforce
next
  case (Ub_read ws n)
  then show ?thesis
    using usb_read_total [OF inv, of ws n] legal calm by fastforce
qed (use usb_open_close_inv [OF inv] in simp_all)

fun usb_run :: "usb_call list \<Rightarrow> usb \<Rightarrow> (u8 list \<times> usb) option" where
  "usb_run [] c = Some ([], c)"
| "usb_run (x # xs) c = do { (got, c) \<leftarrow> usb_step x c; (more, c) \<leftarrow> usb_run xs c; Some (got @ more, c) }"

fun usb_legal_run :: "usb_call list \<Rightarrow> usb \<Rightarrow> bool" where
  "usb_legal_run [] c = True"
| "usb_legal_run (x # xs) c \<longleftrightarrow> usb_legal x c \<and> (case usb_step x c of None \<Rightarrow> False | Some (got, c') \<Rightarrow> usb_legal_run xs c')"


text \<open>A port configured and opened by the host, and a session on it: a packet comes, and the user writes.\<close>

definition usb_fs :: "u8 list" where "usb_fs = replicate 2048 0"
definition usb_zeros :: "u8 list" where "usb_zeros = replicate 64 0"

definition usb_ring :: ring_buf where
  "usb_ring = \<lparr> write_ptr = 0, read_ptr = 0, start_ptr = Some (usb_zeros), rb_size = 64, rb_count = 0,
     cont_mutex = False, rw_mutex = False, r_sem = False, w_sem = False \<rparr>"

definition demo_usb :: usb where
  "demo_usb = \<lparr> ub_name = ''ttyUSB0'', ub_buf_size = 64, ub_read_timeout = 100, ub_current = True, ub_tx_sem = False, ub_rx_sem = False,
     ub_tx_mutex = None, ub_rx_mutex = None, ub_write_buf = Some usb_ring, ub_read_buf = Some usb_ring,
     ub_rx_buf = Some usb_zeros, ub_tx_buf = Some usb_zeros, ub_error = False, ub_periph_init = True,
     ub_tasks_init = False, ub_port_open = False, ub_stdio = False, ub_rx_count = 0, ub_tx_count = 0, ub_host_port_state = True,
     ub_tasks = [], ub_class = Some \<lparr> TxState = 0, TxLength = 0, total_length = 0, cdc_data = (\<lambda>_. 0) \<rparr>,
     UserRxBufferFS = usb_fs, ub_sent = [] \<rparr>"

definition usb_packet_env :: usb_read_env where
  "usb_packet_env = \<lparr> ur_before = [], ur_wait = [Out_packet [7, 8]], ur_late = [], ur_after = [] \<rparr>"

definition usb_session :: "usb_call list" where
  "usb_session = [Ub_read_task 2 usb_packet_env [], Ub_write [] [1, 2, 3] 3]"

lemma usb_lists [simp]: "length usb_zeros = 64" "length usb_fs = 2048"
  by (simp_all add: usb_zeros_def usb_fs_def)

lemma usb_ring_ok: "ring_ok 64 (Some usb_ring)"
  by (simp add: ring_ok_def usb_ring_def rb_inv_def)

lemma usb_ring_empty [simp]: "rb_contents usb_ring = []"
  by (simp add: rb_contents_def usb_ring_def ring_view_def)

lemma demo_usb_inv: "usb_inv demo_usb"
  using usb_ring_ok by (simp add: usb_inv_def demo_usb_def rx_ok_def)

lemma usb_ring_free [simp]: "unat (ring_buf_get_free_size usb_ring) = 64"
  by (simp add: ring_buf_get_free_size_def usb_ring_def)

lemma demo_packet_legal: "usb_legal (Ub_read_task 2 usb_packet_env []) demo_usb"
  by (simp add: usb_packet_env_def demo_usb_def read_waits_def usb_irqs_def Let_def CDC_Receive_FS_def usb_receive_compl_def)

lemma usb_session_legal: "usb_legal_run usb_session demo_usb"
proof -
  let ?r = "Ub_read_task 2 usb_packet_env []"
  let ?w = "Ub_write [] [1, 2, 3] 3"
  have "in_step usb_packet_env"
    by (simp add: in_step_def usb_packet_env_def)
  from read_round_in_step [OF demo_usb_inv demo_packet_legal this]
  obtain out c1 where r: "usb_read_round 2 usb_packet_env [] demo_usb = Some (out, c1)" and inv: "usb_inv c1"
      and same: "ub_write_buf c1 = ub_write_buf demo_usb"
    by blast
  have "usb_step ?r demo_usb = Some (out, c1)"
    using r by simp
  have w: "usb_legal ?w c1"
    by (simp add: same) (simp add: demo_usb_def)
  then obtain got c2 where "usb_step ?w c1 = Some (got, c2)"
    using usb_step_safe [OF inv w] by blast
  then show ?thesis
    using demo_packet_legal w \<open>usb_step ?r demo_usb = Some (out, c1)\<close>
    by (simp add: usb_session_def del: usb_legal.simps usb_step.simps)
qed


text \<open>Every call on a port that is set up, in step or not, returns and leaves the port well-formed.\<close>

theorem usb_calls_safe:
  assumes "usb_inv c" and "usb_legal call c"
  shows "\<exists>got c'. usb_step call c = Some (got, c') \<and> usb_inv c'"
  by (rule usb_step_safe [OF assms])

theorem usb_calls_safe_witness: "\<exists>got c'. usb_step (Ub_write [] [1, 2, 3] 3) demo_usb = Some (got, c') \<and> usb_inv c'"
proof -
  have "usb_legal (Ub_write [] [1, 2, 3] 3) demo_usb"
    by code_simp
  from usb_calls_safe [OF demo_usb_inv this] show ?thesis .
qed

text \<open>A packet that comes between two rounds of the read task is lost: the task drains the semaphore that announces it and waits for
  the next one, which overwrites the buffer.\<close>

theorem usb_packet_lost:
  assumes inv: "usb_inv c" and h: "ub_class c \<noteq> None" and room: "64 \<le> free_of (ub_read_buf c)"
  shows "\<exists>c'. usb_read_round me \<lparr> ur_before = [Out_packet p], ur_wait = [Out_packet q], ur_late = [], ur_after = [] \<rparr> [] c = Some ([], c') \<and>
     bytes_of (ub_read_buf c') = bytes_of (ub_read_buf c) @ take 64 q"
proof -
  let ?env = "\<lparr> ur_before = [Out_packet p], ur_wait = [Out_packet q], ur_late = [], ur_after = [] \<rparr>"
  let ?c1 = "usb_irq (Out_packet q) (read_waits me ?env c)"
  have cl: "ub_class (read_waits me ?env c) \<noteq> None"
    using h by (simp add: read_waits_def usb_irqs_def Let_def CDC_Receive_FS_def usb_receive_compl_def)
  have w: "usb_wait ub_rx_sem (ur_wait ?env) (read_waits me ?env c) = Some ?c1"
    using packet_irq [OF cl, of q] by (simp add: read_waits_def del: usb_irq.simps)
  have p: "packet_of (usb_irqs (ur_late ?env) (?c1 \<lparr> ub_rx_sem := False \<rparr>)) = take 64 q"
    using packet_irq [OF cl, of q] by (simp add: usb_irqs_def packet_of_def del: usb_irq.simps)
  obtain out c' where r: "usb_read_round me ?env [] c = Some (out, c')" "out = []" "bytes_of (ub_read_buf c) @ take 64 q = out @ bytes_of (ub_read_buf c')"
    using usb_read_round_total [OF inv w, of "[]"] room unfolding p by auto
  then show ?thesis
    by auto
qed

section \<open>The state of the host's port\<close>

text \<open>The seven bytes of a line coding: the speed, the stop bits, the parity and the data bits.\<close>

definition line_coding :: "u32 \<Rightarrow> u8 \<Rightarrow> u8 \<Rightarrow> u8 \<Rightarrow> u8 list" where
  "line_coding speed stop parity bits =
     [ucast speed, ucast (drop_bit 8 speed), ucast (drop_bit 16 speed), ucast (drop_bit 24 speed), stop, parity, bits]"

lemma line_coding_wValue: "wValue (data_in (line_coding speed stop parity bits) old) AND 1 \<noteq> 0 \<longleftrightarrow> bit speed 16"
proof -
  have "wValue (data_in (line_coding speed stop parity bits) old) AND 1 \<noteq> 0 \<longleftrightarrow> bit (wValue (data_in (line_coding speed stop parity bits) old)) 0"
    by (simp add: and_one_eq odd_iff_mod_2_eq_one [symmetric] bit_0)
  also have "\<dots> \<longleftrightarrow> bit speed 16"
    by (simp add: wValue_def data_in_def line_coding_def bit_simps)
  finally show ?thesis .
qed

text \<open>The request that sets the line coding is read as a setup packet, although its data are the line coding: the port of the host
  counts as open exactly when bit 16 of the speed is set. It is for 115200 baud, it is not for 9600, 57600 or 921600 baud, and the
  request that tells the state of the control lines, with which the host opens the port, changes nothing.\<close>

theorem usb_line_coding_opens:
  assumes "ub_class c = Some h"
  shows "ub_host_port_state (usb_irq (Request_data CDC_SET_LINE_CODING (line_coding speed stop parity bits)) c) = bit speed 16 \<and>
     usb_irq (Request_plain bm CDC_SET_CONTROL_LINE_STATE v) c = c"
  using assms by (auto simp: CDC_Control_FS_def line_coding_wValue usb_set_host_com_port_def usb_reset_host_com_port_def
      CDC_SET_LINE_CODING_def CDC_SET_CONTROL_LINE_STATE_def)

theorem usb_line_coding_opens_witness:
  "ub_host_port_state (usb_irq (Request_data CDC_SET_LINE_CODING (line_coding 115200 0 0 8)) demo_usb) \<and>
   \<not> ub_host_port_state (usb_irq (Request_data CDC_SET_LINE_CODING (line_coding 9600 0 0 8)) demo_usb) \<and>
   \<not> ub_host_port_state (usb_irq (Request_data CDC_SET_LINE_CODING (line_coding 57600 0 0 8)) demo_usb) \<and>
   \<not> ub_host_port_state (usb_irq (Request_data CDC_SET_LINE_CODING (line_coding 921600 0 0 8)) demo_usb)"
proof -
  have "ub_class demo_usb = Some \<lparr> TxState = 0, TxLength = 0, total_length = 0, cdc_data = (\<lambda>_. 0) \<rparr>"
    by (simp add: demo_usb_def)
  note o = usb_line_coding_opens [OF this, where stop = 0 and parity = 0 and bits = 8, THEN conjunct1]
  have "bit (115200 :: u32) 16" and "\<not> bit (9600 :: u32) 16" and "\<not> bit (57600 :: u32) 16" and "\<not> bit (921600 :: u32) 16"
    by (simp_all add: bit_iff_odd_drop_bit drop_bit_eq_div)
  then show ?thesis
    by (simp only: o) simp
qed

text \<open>While the host's port does not count as open the write task sends nothing, whatever waits in the buffer; while the host has not configured
  the device it reads through a null pointer.\<close>

theorem usb_closed_sends_nothing:
  "(ub_class c \<noteq> None \<longrightarrow> \<not> ub_host_port_state c \<longrightarrow> (\<exists>c'. usb_write_round me es c = Some c' \<and> ub_sent c' = ub_sent c \<and> ub_write_buf c' = ub_write_buf c)) \<and>
   (ub_class c = None \<longrightarrow> usb_write_round me es c = None)"
  using usb_irqs_fixed [of es c] by (auto simp: usb_write_round_def CDC_Busy_FS_def usb_fixed_def)

section \<open>A port that has been set up\<close>

definition usb_fresh :: "usb \<Rightarrow> bool" where
  "usb_fresh c \<longleftrightarrow> \<not> ub_current c \<and> 64 \<le> ub_buf_size c \<and> ub_buf_size c \<le> 65535 \<and> \<not> ub_error c \<and> length (UserRxBufferFS c) = 2048"

definition usb_base :: "string \<Rightarrow> int \<Rightarrow> usb \<Rightarrow> bool" where
  "usb_base nm n c \<longleftrightarrow> ub_name c = nm \<and> ub_current c \<and> ub_buf_size c = n \<and> \<not> ub_error c \<and> length (UserRxBufferFS c) = 2048"

lemma usb_base_upd [simp]:
  "usb_base nm n (c \<lparr> ub_tx_mutex := m \<rparr>) = usb_base nm n c" "usb_base nm n (c \<lparr> ub_rx_mutex := m \<rparr>) = usb_base nm n c"
  "usb_base nm n (c \<lparr> ub_tx_sem := b \<rparr>) = usb_base nm n c" "usb_base nm n (c \<lparr> ub_rx_sem := b \<rparr>) = usb_base nm n c"
  "usb_base nm n (c \<lparr> ub_read_buf := rb \<rparr>) = usb_base nm n c" "usb_base nm n (c \<lparr> ub_write_buf := rb \<rparr>) = usb_base nm n c"
  "usb_base nm n (c \<lparr> ub_rx_buf := x \<rparr>) = usb_base nm n c" "usb_base nm n (c \<lparr> ub_tx_buf := x \<rparr>) = usb_base nm n c"
  by (simp_all add: usb_base_def)

lemma usb_base_size: "usb_base nm n c \<Longrightarrow> ub_buf_size c = n \<and> ub_name c = nm"
  by (simp add: usb_base_def)

lemma usb_init_triple:
  assumes "bi_read_alloc env 5" and "bi_write_alloc env 5" and "64 \<le> n" and "n \<le> 65535"
  shows "triple (\<lambda>(x, q). usb_fresh x \<and> ub_name x = nm \<and> ub_buf_size x = n) (usb_init env f)
     (\<lambda>(x, q). usb_inv x \<and> ub_current x \<and> ub_name x = nm \<and> bytes_of (ub_read_buf x) = [] \<and> bytes_of (ub_write_buf x) = [] \<and>
        tree_op (pf_root q) (path_tokens (''/dev/'' @ nm)) = Some (Some f))"
proof -
  let ?b = "usb_base nm n"
  let ?m1 = "\<lambda>x. ?b x \<and> ub_tx_mutex x = None"
  let ?m2 = "\<lambda>x. ?m1 x \<and> ub_rx_mutex x = None"
  let ?t = "\<lambda>x q. ?m2 x \<and> tree_op (pf_root q) (path_tokens (''/dev/'' @ nm)) = Some (Some f)"
  let ?r = "\<lambda>x q. ?t x q \<and> empty_ring n (ub_read_buf x)"
  let ?w = "\<lambda>x q. ?r x q \<and> empty_ring n (ub_write_buf x)"
  let ?dr = "\<lambda>x q. ?w x q \<and> ub_rx_buf x = Some (zeros n)"
  let ?dt = "\<lambda>x q. ?dr x q \<and> ub_tx_buf x = Some (zeros n)"
  have 0: "triple (\<lambda>(x, q). usb_fresh x \<and> ub_name x = nm \<and> ub_buf_size x = n) (on_device (\<lambda>c. (Errno EOK, c \<lparr> ub_current := True \<rparr>))) (\<lambda>(x, q). ?b x)"
    by (rule triple_device) (auto simp: usb_fresh_def usb_base_def)
  have 1: "triple (\<lambda>(x, q). ?b x) (create ok (\<lambda>c. c \<lparr> ub_tx_mutex := None \<rparr>)) (\<lambda>(x, q). ?m1 x)" for ok
    by (rule triple_create) simp
  have 2: "triple (\<lambda>(x, q). ?m1 x) (create ok (\<lambda>c. c \<lparr> ub_rx_mutex := None \<rparr>)) (\<lambda>(x, q). ?m2 x)" for ok
    by (rule triple_create) simp
  have 3: "triple (\<lambda>(x, q). ?m2 x) (create ok (\<lambda>c. c \<lparr> ub_tx_sem := False \<rparr>)) (\<lambda>(x, q). ?m2 x)" for ok
    by (rule triple_create) simp
  have 4: "triple (\<lambda>(x, q). ?m2 x) (create ok (\<lambda>c. c \<lparr> ub_rx_sem := False \<rparr>)) (\<lambda>(x, q). ?m2 x)" for ok
    by (rule triple_create) simp
  have 5: "triple (\<lambda>(x, q). ?m2 x) (\<lambda>s. on_platform (pf_mount (bi_node_alloc env) (''/dev/'' @ ub_name (fst s)) f) s) (\<lambda>(x, q). ?t x q)"
    by (rule triple_platform [where f = "\<lambda>x. pf_mount (bi_node_alloc env) (''/dev/'' @ ub_name x) f"]) (auto dest: usb_base_size pf_mount_ok)
  have 6: "triple (\<lambda>(x, q). ?t x q) (on_device (\<lambda>c. case new_ring (bi_read_alloc env) (ub_buf_size c) of
        None \<Rightarrow> (Hal (- 1), c \<lparr> ub_read_buf := None \<rparr>) | Some rb \<Rightarrow> (Errno EOK, c \<lparr> ub_read_buf := Some rb \<rparr>))) (\<lambda>(x, q). ?r x q)"
    by (rule triple_device) (use assms usb_base_size in \<open>fastforce dest: new_ring_empty split: option.splits\<close>)
  have 7: "triple (\<lambda>(x, q). ?r x q) (on_device (\<lambda>c. case new_ring (bi_write_alloc env) (ub_buf_size c) of
        None \<Rightarrow> (Hal (- 1), c \<lparr> ub_write_buf := None \<rparr>) | Some rb \<Rightarrow> (Errno EOK, c \<lparr> ub_write_buf := Some rb \<rparr>))) (\<lambda>(x, q). ?w x q)"
    by (rule triple_device) (use assms usb_base_size in \<open>fastforce dest: new_ring_empty split: option.splits\<close>)
  have 8: "triple (\<lambda>(x, q). ?w x q) (create ok (\<lambda>c. c \<lparr> ub_rx_buf := Some (zeros (ub_buf_size c)) \<rparr>)) (\<lambda>(x, q). ?dr x q)" for ok
    by (rule triple_create) (auto dest: usb_base_size)
  have 9: "triple (\<lambda>(x, q). ?dr x q) (create ok (\<lambda>c. c \<lparr> ub_tx_buf := Some (zeros (ub_buf_size c)) \<rparr>)) (\<lambda>(x, q). ?dt x q)" for ok
    by (rule triple_create) (auto dest: usb_base_size)
  have 10: "triple (\<lambda>(x, q). ?dt x q) (on_device (\<lambda>c. (Errno EOK, c \<lparr> ub_rx_count := 0, ub_tx_count := 0, ub_host_port_state := False,
        ub_periph_init := True \<rparr>))) (\<lambda>(x, q). usb_inv x \<and> ub_current x \<and> ub_name x = nm \<and> bytes_of (ub_read_buf x) = [] \<and>
        bytes_of (ub_write_buf x) = [] \<and> tree_op (pf_root q) (path_tokens (''/dev/'' @ nm)) = Some (Some f))"
    by (rule triple_device) (use assms in \<open>auto simp: usb_inv_def usb_base_def rx_ok_def empty_ring_def zeros_def\<close>)
  note c = triple_chain [OF 0 triple_chain [OF 1 triple_chain [OF 2 triple_chain [OF 3 triple_chain [OF 4 triple_chain [OF 5
       triple_chain [OF 6 triple_chain [OF 7 triple_chain [OF 8 triple_chain [OF 9 triple_chain [OF 10 triple_nil]]]]]]]]]]]
  show ?thesis
  proof (rule tripleI)
    fix s r s'
    assume s: "case s of (x, q) \<Rightarrow> usb_fresh x \<and> ub_name x = nm \<and> ub_buf_size x = n" and run: "usb_init env f s = Some (r, s')" and ok: "init_ok r"
    then have "\<not> ub_current (fst s)"
      by (auto simp: usb_fresh_def)
    note u = run [unfolded usb_init_def if_not_P [OF this]]
    show "case s' of (x, q) \<Rightarrow> usb_inv x \<and> ub_current x \<and> ub_name x = nm \<and> bytes_of (ub_read_buf x) = [] \<and> bytes_of (ub_write_buf x) = [] \<and>
        tree_op (pf_root q) (path_tokens (''/dev/'' @ nm)) = Some (Some f)"
      by (rule tripleD [OF c u ok s]) simp
  qed
qed

text \<open>Setting the port up when it succeeds, and after it, with or without success, a second time.\<close>

theorem usb_init_ready:
  assumes "usb_init env f (c, p) = Some (r, c', p')" and "init_ok r" and "usb_fresh c"
    and "bi_read_alloc env 5" and "bi_write_alloc env 5"
  shows "usb_inv c' \<and> bytes_of (ub_read_buf c') = [] \<and> bytes_of (ub_write_buf c') = [] \<and>
     tree_op (pf_root p') (path_tokens (''/dev/'' @ ub_name c)) = Some (Some f) \<and> usb_init env f (c', p') = Some (Errno EBUSY, c', p')"
proof -
  have "64 \<le> ub_buf_size c" and "ub_buf_size c \<le> 65535"
    using assms(3) by (simp_all add: usb_fresh_def)
  from tripleD [OF usb_init_triple [OF assms(4,5) this, of "ub_name c" f] assms(1,2)] assms(3) show ?thesis
    by (auto simp: usb_init_def)
qed

text \<open>The pointer to the port is set before anything can fail, so after a failure the port cannot be set up any more.\<close>

theorem usb_init_not_retried:
  assumes "\<not> ub_current c" and "bi_made env 0 = False"
  shows "\<exists>c'. usb_init env f (c, p) = Some (Hal (- 1), c', p) \<and> (\<forall>env' f'. usb_init env' f' (c', p) = Some (Errno EBUSY, c', p))"
  using assms by (simp add: usb_init_def create_def on_device_def and_then_def)

theorem usb_packet_lost_witness:
  "\<exists>c'. usb_read_round 2 \<lparr> ur_before = [Out_packet [1]], ur_wait = [Out_packet [7, 8]], ur_late = [], ur_after = [] \<rparr> [] demo_usb = Some ([], c') \<and>
     bytes_of (ub_read_buf c') = [7, 8]"
proof -
  have "ub_class demo_usb \<noteq> None" and "64 \<le> free_of (ub_read_buf demo_usb)"
    by (simp_all add: demo_usb_def)
  from usb_packet_lost [OF demo_usb_inv this, of 2 "[1]" "[7, 8]"] show ?thesis
    by (simp add: demo_usb_def)
qed

end
