(* ===== verification/AdcTim.thy ===== *)
theory AdcTim
  imports Platform
begin

text \<open>
  The converter and the timers of the flight board (bsp/mcu/periph/adc/stm32/adc.c and
  bsp/mcu/periph/tim/stm32/tim.c). The conversion of a count into volts computes in floating point and is the
  argument \<open>volt\<close>; of its values only the order is used. What the vendor library answers and what the DMA
  stores before an interrupt are arguments of the definitions. A call that never returns, or a failed assertion of the kernel,
  is None.
\<close>

section \<open>The timers\<close>

datatype tim_instance = TIM1 | TIM2 | TIM3 | TIM4 | TIM5 | TIM6 | TIM7 | TIM8 | TIM12 | TIM13 | TIM14 | Other_tim nat

record tim =
  ti_instance :: tim_instance
  ti_irq_priority :: int
  ti_scaler_us :: u32
  ti_counter_scaled :: u32
  ti_counter :: u32
  ti_id :: nat
  ti_running :: bool

fun tim_irqn :: "tim_instance \<Rightarrow> nat option" where
  "tim_irqn TIM1 = Some 27"
| "tim_irqn TIM2 = Some 28"
| "tim_irqn TIM3 = Some 29"
| "tim_irqn TIM4 = Some 30"
| "tim_irqn TIM5 = Some 50"
| "tim_irqn TIM6 = Some 54"
| "tim_irqn TIM7 = Some 55"
| "tim_irqn TIM8 = Some 46"
| "tim_irqn TIM12 = Some 43"
| "tim_irqn TIM13 = Some 44"
| "tim_irqn TIM14 = Some 45"
| "tim_irqn (Other_tim _) = None"

definition tim_id_init :: "tim \<Rightarrow> init_result \<times> tim" where
  "tim_id_init c = (case tim_irqn (ti_instance c) of None \<Rightarrow> (Errno EINVAL, c) | Some n \<Rightarrow> (Errno EOK, c \<lparr> ti_id := n \<rparr>))"

definition tim_clock_init :: "(tim \<times> ('h, 'a, 'f) platform) action" where
  "tim_clock_init s = (case s of (c, p) \<Rightarrow>
     if ti_id c \<in> {27, 28, 29, 30, 50, 54, 55, 46, 43, 44, 45} then on_platform (pf_bus_on (ti_id c)) s
     else Some (Errno EINVAL, s))"

text \<open>\<open>hal\<close> is the result of HAL\_TIM\_Base\_Init; \<open>h\<close> and \<open>a\<close> are the addresses of the handler and of the timer.\<close>

definition tim_init :: "int \<Rightarrow> 'h \<Rightarrow> 'a \<Rightarrow> (tim \<times> ('h, 'a, 'f) platform) action" where
  "tim_init hal h a = chain [
     on_device tim_id_init,
     tim_clock_init,
     hal_call hal,
     (\<lambda>s. on_platform (pf_irq_init (ti_id (fst s)) (ti_irq_priority (fst s)) h a) s),
     (\<lambda>s. on_platform (pf_irq_enable (ti_id (fst s))) s)]"

definition tim_start :: "tim \<Rightarrow> tim" where "tim_start c = c \<lparr> ti_counter := 0, ti_running := True \<rparr>"
definition tim_stop :: "tim \<Rightarrow> tim" where "tim_stop c = c \<lparr> ti_running := False \<rparr>"
definition tim_get_tick :: "tim \<Rightarrow> u32" where "tim_get_tick c = ti_counter_scaled c"

definition tim_handler :: "tim \<Rightarrow> tim" where
  "tim_handler c = (let c = c \<lparr> ti_counter := ti_counter c + 1 \<rparr> in c \<lparr> ti_counter_scaled := ti_counter c * ti_scaler_us c \<rparr>)"

section \<open>The converter\<close>

datatype adc_unit = ADC1 | ADC2 | ADC3 | Other_adc nat

definition ADC_MAX_CHANNELS :: nat where "ADC_MAX_CHANNELS = 16"

text \<open>\<open>ad_mutex\<close> and \<open>ad_sem\<close> are None while they have not been created.\<close>

record 'v adc =
  ad_instance :: adc_unit
  ad_dma :: "dma_stream \<times> int"
  ad_enabled :: "bool list"
  ad_irq_priority :: int
  ad_id :: nat
  ad_raw :: "u16 list"
  ad_meas :: "'v list"
  ad_max :: "'v list"
  ad_min :: "'v list"
  ad_sem :: "bool option"
  ad_mutex :: "mutex option"

fun adc_irqn :: "adc_unit \<Rightarrow> nat option" where
  "adc_irqn ADC1 = Some 18"
| "adc_irqn ADC2 = Some 18"
| "adc_irqn ADC3 = Some 127"
| "adc_irqn (Other_adc _) = None"

definition adc_id_init :: "'v adc \<Rightarrow> init_result \<times> 'v adc" where
  "adc_id_init c = (case adc_irqn (ad_instance c) of None \<Rightarrow> (Errno EINVAL, c) | Some n \<Rightarrow> (Errno EOK, c \<lparr> ad_id := n \<rparr>))"

definition adc_clock_init :: "('v adc \<times> ('h, 'a, 'f) platform) action" where
  "adc_clock_init s = (case s of (c, p) \<Rightarrow>
     if ad_id c \<in> {18, 127} then on_platform (pf_bus_on (ad_id c)) s else Some (Errno EINVAL, s))"

text \<open>The interrupt of the stream, after the DMA has stored \<open>raw\<close>. It takes the mutex if it is free and gives it back; while a task
  holds it the values stay as they are.\<close>

definition adc_dma_handler :: "(u16 \<Rightarrow> 'v :: linorder) \<Rightarrow> u16 list \<Rightarrow> 'v adc \<Rightarrow> 'v adc option" where
  "adc_dma_handler volt raw c = do {
     m \<leftarrow> ad_mutex c;
     let c = c \<lparr> ad_raw := raw \<rparr>;
     let c = (if m = None
              then (let meas = map volt raw in
                c \<lparr> ad_meas := meas,
                    ad_max := map (\<lambda>i. if ad_max c ! i < meas ! i then meas ! i else ad_max c ! i) [0..<ADC_MAX_CHANNELS],
                    ad_min := map (\<lambda>i. if meas ! i < ad_min c ! i then meas ! i else ad_min c ! i) [0..<ADC_MAX_CHANNELS] \<rparr>)
              else c);
     s \<leftarrow> ad_sem c;
     Some (c \<lparr> ad_sem := Some True \<rparr>)
   }"

fun adc_interrupts :: "(u16 \<Rightarrow> 'v :: linorder) \<Rightarrow> u16 list list \<Rightarrow> 'v adc \<Rightarrow> 'v adc option" where
  "adc_interrupts volt [] c = Some c"
| "adc_interrupts volt (r # rs) c = do { c \<leftarrow> adc_dma_handler volt r c; adc_interrupts volt rs c }"

text \<open>A reading under the mutex; \<open>released\<close> tells whether a task that holds the mutex gives it back.\<close>

definition adc_get ::
    "('v :: {linorder, zero, one, uminus} adc \<Rightarrow> 'v list) \<Rightarrow> task \<Rightarrow> bool \<Rightarrow> u8 \<Rightarrow> 'v adc \<Rightarrow> ('v \<times> 'v adc) option" where
  "adc_get field me released channel c =
     (case ad_mutex c of None \<Rightarrow> Some (0, c)
      | Some m \<Rightarrow> do {
          m \<leftarrow> mutex_take_forever me released m;
          rv \<leftarrow> (if unat channel < ADC_MAX_CHANNELS then arr_get (field c) (unat channel) else Some (- 1));
          m \<leftarrow> mutex_give me m;
          Some (rv, c \<lparr> ad_mutex := Some m \<rparr>)
        })"

definition adc_get_volt :: "task \<Rightarrow> bool \<Rightarrow> u8 \<Rightarrow> 'v :: {linorder, zero, one, uminus} adc \<Rightarrow> ('v \<times> 'v adc) option" where
  "adc_get_volt = adc_get ad_meas"

definition adc_get_volt_max :: "task \<Rightarrow> bool \<Rightarrow> u8 \<Rightarrow> 'v :: {linorder, zero, one, uminus} adc \<Rightarrow> ('v \<times> 'v adc) option" where
  "adc_get_volt_max = adc_get ad_max"

definition adc_get_volt_min :: "task \<Rightarrow> bool \<Rightarrow> u8 \<Rightarrow> 'v :: {linorder, zero, one, uminus} adc \<Rightarrow> ('v \<times> 'v adc) option" where
  "adc_get_volt_min = adc_get ad_min"

text \<open>\<open>during\<close>: the interrupts between the two assignments.\<close>

definition adc_reset_stat_channel ::
    "(u16 \<Rightarrow> 'v :: linorder) \<Rightarrow> u16 list list \<Rightarrow> task \<Rightarrow> bool \<Rightarrow> u8 \<Rightarrow> 'v adc \<Rightarrow> (int \<times> 'v adc) option" where
  "adc_reset_stat_channel volt during me released channel c =
     (case ad_mutex c of None \<Rightarrow> Some (0, c)
      | Some m \<Rightarrow> do {
          m \<leftarrow> mutex_take_forever me released m;
          let c = c \<lparr> ad_mutex := Some m \<rparr>;
          c \<leftarrow> (if unat channel < ADC_MAX_CHANNELS
                then do {
                  v \<leftarrow> arr_get (ad_meas c) (unat channel);
                  c \<leftarrow> adc_interrupts volt during (c \<lparr> ad_max := (ad_max c)[unat channel := v] \<rparr>);
                  v \<leftarrow> arr_get (ad_meas c) (unat channel);
                  Some (c \<lparr> ad_min := (ad_min c)[unat channel := v] \<rparr>)
                }
                else Some c);
          m \<leftarrow> mutex_give me m;
          Some (0, c \<lparr> ad_mutex := Some m \<rparr>)
        })"

fun reset_channels :: "(u16 \<Rightarrow> 'v :: linorder) \<Rightarrow> task \<Rightarrow> bool \<Rightarrow> nat list \<Rightarrow> 'v adc \<Rightarrow> 'v adc option" where
  "reset_channels volt me released [] c = Some c"
| "reset_channels volt me released (i # is) c = do {
     (rv, c) \<leftarrow> adc_reset_stat_channel volt [] me released (word_of_nat i) c;
     reset_channels volt me released is c
   }"

definition adc_reset_stat :: "(u16 \<Rightarrow> 'v :: linorder) \<Rightarrow> task \<Rightarrow> bool \<Rightarrow> 'v adc \<Rightarrow> (int \<times> 'v adc) option" where
  "adc_reset_stat volt me released c =
     (if ad_mutex c = None then Some (0, c)
      else map_option (Pair 0) (reset_channels volt me released [0..<ADC_MAX_CHANNELS] c))"

text \<open>The results of the vendor library and of the allocations during \<open>adc_init\<close>, and what the DMA stores before the first interrupts.\<close>

record adc_init_env =
  ai_dma :: int
  ai_init :: int
  ai_channel :: "nat \<Rightarrow> int"
  ai_made :: "nat \<Rightarrow> bool"
  ai_start :: int
  ai_raws :: "u16 list list"

fun config_channels :: "(nat \<Rightarrow> int) \<Rightarrow> bool list \<Rightarrow> nat \<Rightarrow> int" where
  "config_channels res [] i = 0"
| "config_channels res (e # es) i = (if e \<and> res i \<noteq> 0 then res i else config_channels res es (Suc i))"

text \<open>The wait for the first interrupt, without limit.\<close>

definition adc_wait :: "(u16 \<Rightarrow> 'v :: linorder) \<Rightarrow> u16 list list \<Rightarrow> 'v adc \<Rightarrow> 'v adc option" where
  "adc_wait volt raws c = (case raws of [] \<Rightarrow> None | r # rs \<Rightarrow> map_option (\<lambda>c. c \<lparr> ad_sem := Some False \<rparr>) (adc_dma_handler volt r c))"

definition adc_run :: "(u16 \<Rightarrow> 'v :: linorder) \<Rightarrow> task \<Rightarrow> adc_init_env \<Rightarrow> ('v adc \<times> 'p) action" where
  "adc_run volt me env s = (case s of (c, p) \<Rightarrow> do {
     c \<leftarrow> adc_wait volt (ai_raws env) c;
     (rv, c) \<leftarrow> adc_reset_stat volt me True c;
     Some (Hal (ai_start env), c, p)
   })"

definition adc_init ::
    "(u16 \<Rightarrow> 'v :: linorder) \<Rightarrow> task \<Rightarrow> adc_init_env \<Rightarrow> 'h \<Rightarrow> 'h \<Rightarrow> 'a \<Rightarrow> ('v adc \<times> ('h, 'a, 'f) platform) action" where
  "adc_init volt me env h h_dma a = chain [
     on_device adc_id_init,
     adc_clock_init,
     (\<lambda>s. on_platform (pf_irq_init (ad_id (fst s)) (ad_irq_priority (fst s)) h a) s),
     (\<lambda>s. on_platform (pf_irq_enable (ad_id (fst s))) s),
     (\<lambda>s. on_platform (pf_dma_init (ad_dma (fst s)) (ai_dma env) h_dma a) s),
     hal_call (ai_init env),
     (\<lambda>s. hal_call (config_channels (ai_channel env) (ad_enabled (fst s)) 0) s),
     create (ai_made env 0) (\<lambda>c. c \<lparr> ad_mutex := Some None \<rparr>),
     create (ai_made env 1) (\<lambda>c. c \<lparr> ad_sem := Some False \<rparr>),
     adc_run volt me env]"

section \<open>Timers: properties\<close>

text \<open>The ticks of a timer: after \<open>n\<close> interrupts since the start the time is the number of interrupts times the scale, modulo 2 to the 32.\<close>

lemma tim_handlers:
  "ti_counter ((tim_handler ^^ n) c) = ti_counter c + word_of_nat n \<and> ti_scaler_us ((tim_handler ^^ n) c) = ti_scaler_us c \<and>
   (0 < n \<longrightarrow> ti_counter_scaled ((tim_handler ^^ n) c) = (ti_counter c + word_of_nat n) * ti_scaler_us c)"
  by (induction n) (simp_all add: tim_handler_def Let_def algebra_simps)

theorem tim_ticks:
  assumes "0 < n"
  shows "tim_get_tick ((tim_handler ^^ n) (tim_start c)) = word_of_nat n * ti_scaler_us c"
  using tim_handlers [of n "tim_start c"] assms by (simp add: tim_get_tick_def tim_start_def)

text \<open>Until its first interrupt a restarted timer still shows the time of its last run.\<close>

theorem tim_restart_stale: "tim_get_tick (tim_start c) = tim_get_tick c"
  by (simp add: tim_get_tick_def tim_start_def)

definition tim_set_up :: "tim \<Rightarrow> tim \<Rightarrow> bool" where
  "tim_set_up c x \<longleftrightarrow> tim_irqn (ti_instance c) = Some (ti_id x)"

lemma tim_init_triple:
  "triple (\<lambda>(x, q). x = c) (tim_init hal h a)
     (\<lambda>(x, q). tim_set_up c x \<and> IRQ_Handler (ti_id x) (pf_irqs q) = Some (Run h (Some a)) \<and> nvic_enabled (pf_irqs q) (ti_id x))"
proof -
  let ?s = "\<lambda>(x, q :: ('a, 'b, 'c) platform). tim_set_up c x"
  let ?h = "\<lambda>(x, q). tim_set_up c x \<and> IRQ_Handler (ti_id x) (pf_irqs q) = Some (Run h (Some a))"
  have 1: "triple (\<lambda>(x, q). x = c) (on_device tim_id_init) ?s"
    by (rule triple_device) (auto simp: tim_id_init_def tim_set_up_def split: option.splits)
  have 2: "triple ?s tim_clock_init ?s"
    by (auto simp: triple_def tim_clock_init_def action_eqs split: if_splits)
  have 3: "triple ?s (\<lambda>s. on_platform (pf_irq_init (ti_id (fst s)) (ti_irq_priority (fst s)) h a) s) ?h"
    by (rule triple_platform [where f = "\<lambda>x. pf_irq_init (ti_id x) (ti_irq_priority x) h a"]) (simp add: pf_irq_init_ok)
  have 4: "triple ?h (\<lambda>s. on_platform (pf_irq_enable (ti_id (fst s))) s)
      (\<lambda>(x, q). tim_set_up c x \<and> IRQ_Handler (ti_id x) (pf_irqs q) = Some (Run h (Some a)) \<and> nvic_enabled (pf_irqs q) (ti_id x))"
    by (rule triple_platform [where f = "\<lambda>x. pf_irq_enable (ti_id x)"]) (simp add: pf_irq_enable_ok)
  show ?thesis
    unfolding tim_init_def
    by (rule triple_chain [OF 1 triple_chain [OF 2 triple_chain [OF triple_hal triple_chain [OF 3 triple_chain [OF 4 triple_nil]]]]]) simp
qed

text \<open>Setting up any timer succeeds alike, but only the vector of the second one is defined: its interrupts run the handler, those of every
  other timer stop the system in the default handler.\<close>

theorem tim_init_vector:
  assumes "tim_init hal h a (c, p) = Some (r, c', p')" and "init_ok r"
  shows "nvic_enabled (pf_irqs p') (ti_id c') \<and>
     irq_fire (ti_id c') (pf_irqs p') = Some (if ti_instance c = TIM2 then Run h (Some a) else Loop_forever)"
proof -
  have t: "tim_set_up c c'" "IRQ_Handler (ti_id c') (pf_irqs p') = Some (Run h (Some a))" "nvic_enabled (pf_irqs p') (ti_id c')"
    using tripleD [OF tim_init_triple assms] by auto
  have "ti_id c' \<in> snd ` set irq_vectors \<longleftrightarrow> ti_instance c = TIM2"
    using t(1) by (cases "ti_instance c") (simp_all add: tim_set_up_def irq_vectors_def)
  then show ?thesis
    using t by (simp add: irq_fire_def)
qed

section \<open>Converter: properties\<close>

definition adc_wf :: "'v adc \<Rightarrow> bool" where
  "adc_wf c \<longleftrightarrow> length (ad_meas c) = 16 \<and> length (ad_max c) = 16 \<and> length (ad_min c) = 16 \<and> ad_mutex c \<noteq> None \<and> ad_sem c \<noteq> None"

text \<open>Lowest, last and highest of a channel are in this order.\<close>

definition adc_ordered :: "'v :: linorder adc \<Rightarrow> bool" where
  "adc_ordered c \<longleftrightarrow> (\<forall>i < 16. ad_min c ! i \<le> ad_meas c ! i \<and> ad_meas c ! i \<le> ad_max c ! i)"

lemma adc_wf_upd [simp]:
  "adc_wf (c \<lparr> ad_mutex := Some m \<rparr>) \<longleftrightarrow> length (ad_meas c) = 16 \<and> length (ad_max c) = 16 \<and> length (ad_min c) = 16 \<and> ad_sem c \<noteq> None"
  by (simp add: adc_wf_def)

lemma dma_handler_free:
  fixes c :: "'v :: linorder adc"
  assumes "adc_wf c" and "ad_mutex c = Some None" and "length raw = 16"
  shows "\<exists>c'. adc_dma_handler volt raw c = Some c' \<and> adc_wf c' \<and> ad_mutex c' = Some None \<and>
     (\<forall>i < 16. ad_meas c' ! i = volt (raw ! i) \<and> ad_max c' ! i = max (ad_max c ! i) (volt (raw ! i)) \<and>
        ad_min c' ! i = min (ad_min c ! i) (volt (raw ! i)))"
  using assms by (auto simp: adc_dma_handler_def adc_wf_def ADC_MAX_CHANNELS_def Let_def max_def min_def)

lemma dma_handler_held:
  assumes "adc_wf c" and "ad_mutex c = Some (Some t)"
  shows "\<exists>c'. adc_dma_handler volt raw c = Some c' \<and> adc_wf c' \<and> ad_mutex c' = Some (Some t) \<and>
     ad_meas c' = ad_meas c \<and> ad_max c' = ad_max c \<and> ad_min c' = ad_min c"
  using assms by (auto simp: adc_dma_handler_def adc_wf_def Let_def)

lemma interrupts_held:
  assumes "adc_wf c" and "ad_mutex c = Some (Some t)"
  shows "\<exists>c'. adc_interrupts volt raws c = Some c' \<and> adc_wf c' \<and> ad_mutex c' = Some (Some t) \<and>
     ad_meas c' = ad_meas c \<and> ad_max c' = ad_max c \<and> ad_min c' = ad_min c"
  using assms
proof (induction raws arbitrary: c)
  case (Cons r rs)
  obtain c1 where 1: "adc_dma_handler volt r c = Some c1" "adc_wf c1" "ad_mutex c1 = Some (Some t)"
      "ad_meas c1 = ad_meas c" "ad_max c1 = ad_max c" "ad_min c1 = ad_min c"
    using dma_handler_held [OF Cons.prems] by blast
  then show ?case
    using Cons.IH [OF 1(2,3)] by auto
qed simp

text \<open>The highest and the lowest of a channel after some interrupts.\<close>

lemma interrupts_free:
  fixes c :: "'v :: linorder adc"
  assumes "adc_wf c" and "ad_mutex c = Some None" and "\<forall>r \<in> set raws. length r = 16" and "i < 16"
  shows "\<exists>c'. adc_interrupts volt raws c = Some c' \<and> adc_wf c' \<and> ad_mutex c' = Some None \<and>
     ad_meas c' ! i = List.last (ad_meas c ! i # map (\<lambda>r. volt (r ! i)) raws) \<and>
     ad_max c' ! i = Max (set (ad_max c ! i # map (\<lambda>r. volt (r ! i)) raws)) \<and>
     ad_min c' ! i = Min (set (ad_min c ! i # map (\<lambda>r. volt (r ! i)) raws))"
  using assms
proof (induction raws arbitrary: c)
  case (Cons r rs)
  obtain c1 where 1: "adc_dma_handler volt r c = Some c1" "adc_wf c1" "ad_mutex c1 = Some None"
      "ad_meas c1 ! i = volt (r ! i)" "ad_max c1 ! i = max (ad_max c ! i) (volt (r ! i))" "ad_min c1 ! i = min (ad_min c ! i) (volt (r ! i))"
    using dma_handler_free [OF Cons.prems(1,2), of r volt] Cons.prems(3,4) by auto
  obtain c2 where 2: "adc_interrupts volt rs c1 = Some c2" "adc_wf c2" "ad_mutex c2 = Some None"
      "ad_meas c2 ! i = List.last (ad_meas c1 ! i # map (\<lambda>r. volt (r ! i)) rs)"
      "ad_max c2 ! i = Max (set (ad_max c1 ! i # map (\<lambda>r. volt (r ! i)) rs))"
      "ad_min c2 ! i = Min (set (ad_min c1 ! i # map (\<lambda>r. volt (r ! i)) rs))"
    using Cons.IH [OF 1(2,3)] Cons.prems(3,4) by auto
  have "Max (set (max a b # vs)) = Max (set (a # b # vs))" and "Min (set (min a b # vs)) = Min (set (a # b # vs))" for a b :: 'v and vs
    by (cases "vs = []"; simp add: max.assoc min.assoc)+
  then have "ad_max c2 ! i = Max (set (ad_max c ! i # map (\<lambda>r. volt (r ! i)) (r # rs)))"
      and "ad_min c2 ! i = Min (set (ad_min c ! i # map (\<lambda>r. volt (r ! i)) (r # rs)))"
    unfolding 2(5,6) 1(5,6) by (simp_all only: list.map)
  then show ?case
    using 1(1,4) 2(1-4) by (simp del: set_simps)
qed simp

lemma reset_channel_effect:
  fixes c :: "'v :: linorder adc"
  assumes wf: "adc_wf c" and free: "ad_mutex c = Some None" and ch: "unat ch < 16"
  shows "\<exists>c'. adc_reset_stat_channel volt during me released ch c = Some (0, c') \<and> adc_wf c' \<and> ad_mutex c' = Some None \<and>
     ad_meas c' = ad_meas c \<and> ad_max c' = (ad_max c)[unat ch := ad_meas c ! unat ch] \<and> ad_min c' = (ad_min c)[unat ch := ad_meas c ! unat ch]"
proof -
  let ?c = "c \<lparr> ad_mutex := Some (Some me), ad_max := (ad_max c)[unat ch := ad_meas c ! unat ch] \<rparr>"
  have "adc_wf ?c" and "ad_mutex ?c = Some (Some me)"
    using wf by (simp_all add: adc_wf_def)
  from interrupts_held [OF this, of volt during] obtain c1 where "adc_interrupts volt during ?c = Some c1" "adc_wf c1" "ad_mutex c1 = Some (Some me)"
      "ad_meas c1 = ad_meas c" "ad_max c1 = ad_max ?c" "ad_min c1 = ad_min c"
    by auto
  then show ?thesis
    using wf free ch by (simp add: adc_reset_stat_channel_def ADC_MAX_CHANNELS_def arr_get_def adc_wf_def)
qed

lemma adc_get_effect:
  assumes "ad_mutex c = Some None" and "unat ch < 16" and "length (field c) = 16"
  shows "adc_get field me released ch c = Some (field c ! unat ch, c)"
proof -
  have "c \<lparr> ad_mutex := Some None \<rparr> = c"
    using assms(1) by simp
  then show ?thesis
    using assms by (simp add: adc_get_def ADC_MAX_CHANNELS_def arr_get_def)
qed

text \<open>C29: Since a channel was reset, its statistics are those of the values measured: whatever interrupts come between the assignments of
  the reset, and after any number of conversions that follow, the three readings are the last, the
  largest and the smallest of the value at the reset and the values converted since.\<close>

theorem adc_statistics:
  fixes c :: "'v :: {linorder, zero, one, uminus} adc"
  assumes "adc_wf c" and "ad_mutex c = Some None" and "unat ch < 16" and "\<forall>r \<in> set raws. length r = 16"
  shows "\<exists>c1 c2. adc_reset_stat_channel volt during me released ch c = Some (0, c1) \<and> adc_interrupts volt raws c1 = Some c2 \<and>
     adc_get_volt me released ch c2 = Some (List.last (ad_meas c ! unat ch # map (\<lambda>r. volt (r ! unat ch)) raws), c2) \<and>
     adc_get_volt_max me released ch c2 = Some (Max (set (ad_meas c ! unat ch # map (\<lambda>r. volt (r ! unat ch)) raws)), c2) \<and>
     adc_get_volt_min me released ch c2 = Some (Min (set (ad_meas c ! unat ch # map (\<lambda>r. volt (r ! unat ch)) raws)), c2)"
proof -
  obtain c1 where 1: "adc_reset_stat_channel volt during me released ch c = Some (0, c1)" "adc_wf c1" "ad_mutex c1 = Some None"
      "ad_meas c1 = ad_meas c" "ad_max c1 = (ad_max c)[unat ch := ad_meas c ! unat ch]" "ad_min c1 = (ad_min c)[unat ch := ad_meas c ! unat ch]"
    using reset_channel_effect [OF assms(1-3), of volt during me released] by blast
  have v: "ad_max c1 ! unat ch = ad_meas c ! unat ch" "ad_min c1 ! unat ch = ad_meas c ! unat ch"
    using 1(5,6) assms(1,3) by (simp_all add: adc_wf_def)
  obtain c2 where 2: "adc_interrupts volt raws c1 = Some c2" "adc_wf c2" "ad_mutex c2 = Some None"
     "ad_meas c2 ! unat ch = List.last (ad_meas c ! unat ch # map (\<lambda>r. volt (r ! unat ch)) raws)"
     "ad_max c2 ! unat ch = Max (set (ad_meas c ! unat ch # map (\<lambda>r. volt (r ! unat ch)) raws))"
     "ad_min c2 ! unat ch = Min (set (ad_meas c ! unat ch # map (\<lambda>r. volt (r ! unat ch)) raws))"
    using interrupts_free [OF 1(2,3) assms(4,3), of volt] unfolding 1(4) v by blast
  have "length (ad_meas c2) = 16" "length (ad_max c2) = 16" "length (ad_min c2) = 16"
    using 2(2) by (simp_all add: adc_wf_def)
  note g = adc_get_effect [where field = ad_meas, OF 2(3) assms(3) this(1), of me released]
    adc_get_effect [where field = ad_max, OF 2(3) assms(3) this(2), of me released]
    adc_get_effect [where field = ad_min, OF 2(3) assms(3) this(3), of me released]
  show ?thesis
    using 1(1) 2(1) g 2(4-6) by (intro exI [of _ c1] exI [of _ c2]) (simp add: adc_get_volt_def adc_get_volt_max_def adc_get_volt_min_def)
qed

definition demo_adc :: "int adc" where
  "demo_adc = \<lparr> ad_instance = ADC1, ad_dma = (DMA2_Stream6, 5), ad_enabled = [True, True], ad_irq_priority = 5, ad_id = 18,
     ad_raw = replicate 16 0, ad_meas = replicate 16 5, ad_max = replicate 16 9, ad_min = replicate 16 0, ad_sem = Some False, ad_mutex = Some None \<rparr>"

theorem adc_statistics_witness:
  "\<exists>c1 c2. adc_reset_stat_channel uint [replicate 16 99] 1 False 3 demo_adc = Some (0, c1) \<and>
     adc_interrupts uint [replicate 16 7, replicate 16 2, replicate 16 4] c1 = Some c2 \<and>
     adc_get_volt 1 False 3 c2 = Some (4, c2) \<and> adc_get_volt_max 1 False 3 c2 = Some (7, c2) \<and> adc_get_volt_min 1 False 3 c2 = Some (2, c2)"
proof -
  have "adc_wf demo_adc" and "ad_mutex demo_adc = Some None" and "unat (3 :: u8) < 16"
      and "\<forall>r \<in> set [replicate 16 7, replicate 16 2, replicate 16 (4 :: u16)]. length r = 16"
    by (simp_all add: adc_wf_def demo_adc_def)
  from adc_statistics [OF this, of uint "[replicate 16 99]" 1 False] show ?thesis
    by (simp add: demo_adc_def)
qed

text \<open>A converter whose start fails, or whose DMA never interrupts: the initialisation does not return the error, it waits for ever.\<close>

theorem adc_init_waits: "ai_raws env = [] \<Longrightarrow> adc_run volt me env s = None"
  by (cases s) (simp add: adc_run_def adc_wait_def)

text \<open>The first two units share an interrupt, and a handler is never replaced: of two converters on them only one can be set up.\<close>

theorem adc_second_unit_refused:
  assumes "IRQ_Handler 18 (pf_irqs p) = Some (Run h' a')" and "ad_instance c = ADC2"
  shows "\<exists>c' p'. adc_init volt me env h h_dma a (c, p) = Some (Errno EEXIST, c', p')"
proof -
  let ?c = "c \<lparr> ad_id := 18 \<rparr>" and ?p = "p \<lparr> pf_bus := 18 # pf_bus p \<rparr>"
  have "pf_irq_init 18 (ad_irq_priority c) h a ?p = Some (Errno EEXIST, ?p)"
    using assms(1) by (intro pf_irq_init_twice) simp
  then show ?thesis
    using assms(2) by (simp add: adc_init_def and_then_def on_device_def adc_id_init_def adc_clock_init_def on_platform_def pf_bus_on_def)
qed

section \<open>A converter that has been set up\<close>

lemma reset_channels_effect:
  fixes c :: "'v :: linorder adc"
  assumes "adc_wf c" and "ad_mutex c = Some None" and "\<forall>i \<in> set is. i < 16"
  shows "\<exists>c'. reset_channels volt me released is c = Some c' \<and> adc_wf c' \<and> ad_mutex c' = Some None \<and> ad_meas c' = ad_meas c \<and>
     (\<forall>i < 16. i \<in> set is \<or> ad_max c ! i = ad_meas c ! i \<and> ad_min c ! i = ad_meas c ! i \<longrightarrow>
        ad_max c' ! i = ad_meas c ! i \<and> ad_min c' ! i = ad_meas c ! i)"
  using assms
proof (induction "is" arbitrary: c)
  case (Cons j js)
  have j: "unat (word_of_nat j :: u8) = j" "j < 16"
    using Cons.prems(3) by (simp_all add: unat_of_nat take_bit_nat_eq_self)
  obtain c1 where 1: "adc_reset_stat_channel volt [] me released (word_of_nat j) c = Some (0, c1)" "adc_wf c1" "ad_mutex c1 = Some None"
      "ad_meas c1 = ad_meas c" "ad_max c1 = (ad_max c)[j := ad_meas c ! j]" "ad_min c1 = (ad_min c)[j := ad_meas c ! j]"
    using reset_channel_effect [OF Cons.prems(1,2), of "word_of_nat j" volt "[]" me released] j by auto
  have len: "length (ad_max c) = 16" "length (ad_min c) = 16"
    using Cons.prems(1) by (simp_all add: adc_wf_def)
  obtain c2 where 2: "reset_channels volt me released js c1 = Some c2" "adc_wf c2" "ad_mutex c2 = Some None" "ad_meas c2 = ad_meas c1"
     "\<forall>i < 16. i \<in> set js \<or> ad_max c1 ! i = ad_meas c1 ! i \<and> ad_min c1 ! i = ad_meas c1 ! i \<longrightarrow>
        ad_max c2 ! i = ad_meas c1 ! i \<and> ad_min c2 ! i = ad_meas c1 ! i"
    using Cons.IH [OF 1(2,3)] Cons.prems(3) by auto
  have "ad_max c2 ! i = ad_meas c ! i \<and> ad_min c2 ! i = ad_meas c ! i"
    if "i < 16" and "i \<in> set (j # js) \<or> ad_max c ! i = ad_meas c ! i \<and> ad_min c ! i = ad_meas c ! i" for i
  proof -
    have "i \<in> set js \<or> ad_max c1 ! i = ad_meas c1 ! i \<and> ad_min c1 ! i = ad_meas c1 ! i"
      using that len j(2) by (cases "i = j") (auto simp: 1)
    then show ?thesis
      using 2(5) that(1) unfolding 1(4) by blast
  qed
  then show ?case
    using 1(1,4) 2(1-4) by simp
qed simp

definition adc_arrays :: "'v adc \<Rightarrow> bool" where
  "adc_arrays c \<longleftrightarrow> length (ad_meas c) = 16 \<and> length (ad_max c) = 16 \<and> length (ad_min c) = 16"

lemma adc_run_ready:
  fixes c :: "'v :: linorder adc"
  assumes run: "adc_run volt me env (c, p) = Some (r, c', p')" and wf: "adc_wf c" and free: "ad_mutex c = Some None"
    and raws: "\<forall>r \<in> set (ai_raws env). length r = 16"
  shows "adc_wf c' \<and> ad_mutex c' = Some None \<and> ai_raws env \<noteq> [] \<and>
     (\<forall>i < 16. ad_meas c' ! i = volt (hd (ai_raws env) ! i) \<and> ad_max c' ! i = ad_meas c' ! i \<and> ad_min c' ! i = ad_meas c' ! i)"
proof -
  obtain x xs where x: "ai_raws env = x # xs"
    using run by (auto simp: adc_run_def adc_wait_def split: list.splits)
  then have "length x = 16"
    using raws by simp
  from dma_handler_free [OF wf free this, of volt] obtain c1 where 1: "adc_dma_handler volt x c = Some c1" "adc_wf c1" "ad_mutex c1 = Some None"
      "\<forall>i < 16. ad_meas c1 ! i = volt (x ! i)"
    by blast
  let ?c = "c1 \<lparr> ad_sem := Some False \<rparr>"
  have "adc_wf ?c" and "ad_mutex ?c = Some None" and "\<forall>i \<in> set [0..<16]. i < 16"
    using 1 by (auto simp: adc_wf_def)
  from reset_channels_effect [OF this, of volt me True]
  obtain c2 where 2: "reset_channels volt me True [0..<16] ?c = Some c2" "adc_wf c2" "ad_mutex c2 = Some None" "ad_meas c2 = ad_meas c1"
      "\<forall>i < 16. ad_max c2 ! i = ad_meas c1 ! i \<and> ad_min c2 ! i = ad_meas c1 ! i"
    by auto
  have "c' = c2"
    using run x 1(1,3) 2(1) by (simp add: adc_run_def adc_wait_def adc_reset_stat_def ADC_MAX_CHANNELS_def)
  then show ?thesis
    using 1(4) 2 x by simp
qed

lemma adc_init_triple:
  fixes volt :: "u16 \<Rightarrow> 'v :: linorder"
  assumes "\<forall>r \<in> set (ai_raws env). length r = 16"
  shows "triple (\<lambda>(x, q). adc_arrays x) (adc_init volt me env h h_dma a)
     (\<lambda>(x, q). adc_wf x \<and> ad_mutex x = Some None \<and> ai_raws env \<noteq> [] \<and>
        (\<forall>i < 16. ad_meas x ! i = volt (hd (ai_raws env) ! i) \<and> ad_max x ! i = ad_meas x ! i \<and> ad_min x ! i = ad_meas x ! i))"
proof -
  let ?a = "\<lambda>(x :: 'v adc, q :: ('a, 'b, 'c) platform). adc_arrays x"
  have 1: "triple ?a (on_device adc_id_init) ?a"
    by (rule triple_device) (auto simp: adc_id_init_def adc_arrays_def split: option.splits)
  have 2: "triple ?a adc_clock_init ?a"
    by (auto simp: triple_def adc_clock_init_def action_eqs split: if_splits)
  have 3: "triple ?a (\<lambda>s. on_platform (f (fst s)) s) ?a" for f
    by (rule triple_platform)
  have 4: "triple ?a (\<lambda>s. hal_call (k (fst s)) s) ?a" for k :: "'v adc \<Rightarrow> int"
    by (simp add: triple_def hal_call_def)
  have 5: "triple ?a (create ok (\<lambda>c. c \<lparr> ad_mutex := Some None \<rparr>)) (\<lambda>(x, q). adc_arrays x \<and> ad_mutex x = Some None)" for ok
    by (rule triple_create) (simp add: adc_arrays_def)
  have 6: "triple (\<lambda>(x, q). adc_arrays x \<and> ad_mutex x = Some None) (create ok (\<lambda>c. c \<lparr> ad_sem := Some False \<rparr>))
      (\<lambda>(x, q). adc_wf x \<and> ad_mutex x = Some None)" for ok
    by (rule triple_create) (simp add: adc_arrays_def adc_wf_def)
  have 7: "triple (\<lambda>(x, q). adc_wf x \<and> ad_mutex x = Some None) (adc_run volt me env)
     (\<lambda>(x, q). adc_wf x \<and> ad_mutex x = Some None \<and> ai_raws env \<noteq> [] \<and>
        (\<forall>i < 16. ad_meas x ! i = volt (hd (ai_raws env) ! i) \<and> ad_max x ! i = ad_meas x ! i \<and> ad_min x ! i = ad_meas x ! i))"
  proof (rule tripleI)
    fix s r s'
    assume "case s of (x, q) \<Rightarrow> adc_wf x \<and> ad_mutex x = Some None" and "adc_run volt me env s = Some (r, s')"
    then show "case s' of (x, q) \<Rightarrow> adc_wf x \<and> ad_mutex x = Some None \<and> ai_raws env \<noteq> [] \<and>
        (\<forall>i < 16. ad_meas x ! i = volt (hd (ai_raws env) ! i) \<and> ad_max x ! i = ad_meas x ! i \<and> ad_min x ! i = ad_meas x ! i)"
      using adc_run_ready [of volt me env "fst s" "snd s" r "fst s'" "snd s'"] assms by (cases s; cases s') auto
  qed
  show ?thesis
    unfolding adc_init_def
    by (rule triple_chain [OF 1 triple_chain [OF 2 triple_chain [OF 3 triple_chain [OF 3 triple_chain [OF 3
          triple_chain [OF triple_hal triple_chain [OF 4 triple_chain [OF 5 triple_chain [OF 6 triple_chain [OF 7 triple_nil]]]]]]]]]]) simp
qed

text \<open>A successful initialisation has waited for a first conversion, and all statistics start with its values.\<close>

theorem adc_init_ready:
  assumes "adc_init volt me env h h_dma a (c, p) = Some (r, c', p')" and "init_ok r" and "adc_arrays c" and "\<forall>r \<in> set (ai_raws env). length r = 16"
  shows "adc_wf c' \<and> ad_mutex c' = Some None \<and> ai_raws env \<noteq> [] \<and>
     (\<forall>i < 16. ad_meas c' ! i = volt (hd (ai_raws env) ! i) \<and> ad_max c' ! i = ad_meas c' ! i \<and> ad_min c' ! i = ad_meas c' ! i)"
  using tripleD [OF adc_init_triple [OF assms(4)] assms(1,2)] assms(3) by simp

end
