(* ===== verification/DirCommands.thy ===== *)
theory DirCommands
  imports FatFsAdapter
begin

text \<open>
  The commands on directories (os/freertos/services/cd/cd.c, ls/ls.c, pwd/pwd.c and rm/rm.c) over the directory calls of
  os/fatfs/fsa/dirent.c. What a command prints is a list of lines. A store outside an entry, text that was never written and a null
  pointer handed to a directory call are None, and so is a loop that does not end because the library never ends a directory.
\<close>

datatype out_line = Help | Entry u32 string | Error errno | Not_removed string errno | Path string

record ('p, 'd) shell =
  sh_dirs :: "'p dir_state"
  sh_disk :: 'd
  sh_out :: "out_line list"

definition out :: "out_line \<Rightarrow> ('p, 'd) shell \<Rightarrow> ('p, 'd) shell" where
  "out l s = s \<lparr> sh_out := sh_out s @ [l] \<rparr>"

definition sh_errno :: "('p, 'd) shell \<Rightarrow> errno" where
  "sh_errno s = ds_errno (sh_dirs s)"

definition set_errno :: "'d \<Rightarrow> errno \<Rightarrow> ('p, 'd) shell \<Rightarrow> ('p, 'd) shell" where
  "set_errno d e s = s \<lparr> sh_disk := d, sh_dirs := (sh_dirs s) \<lparr> ds_errno := e \<rparr> \<rparr>"

section \<open>The calls of dirent.c on the state\<close>

definition sh_chdir :: "('h, 'p, 'd) fatfs_api \<Rightarrow> string \<Rightarrow> ('p, 'd) shell \<Rightarrow> int \<times> ('p, 'd) shell" where
  "sh_chdir api path s = (case fatfs_chdir api path (sh_disk s) (sh_errno s) of (rv, d, e) \<Rightarrow> (rv, set_errno d e s))"

definition sh_getcwd :: "('h, 'p, 'd) fatfs_api \<Rightarrow> ('p, 'd) shell \<Rightarrow> string option \<times> ('p, 'd) shell" where
  "sh_getcwd api s = (case fatfs_getcwd api (int MAX_NAME_LEN) (sh_disk s) (sh_errno s) of (p, d, e) \<Rightarrow> (p, set_errno d e s))"

definition sh_stat :: "('h, 'p, 'd) fatfs_api \<Rightarrow> string \<Rightarrow> ('p, 'd) shell \<Rightarrow> stat option \<times> ('p, 'd) shell" where
  "sh_stat api path s = (case fatfs_stat api path (sh_disk s) (sh_errno s) of (st, d, e) \<Rightarrow> (st, set_errno d e s))"

definition sh_remove :: "('h, 'p, 'd) fatfs_api \<Rightarrow> string \<Rightarrow> ('p, 'd) shell \<Rightarrow> int \<times> ('p, 'd) shell" where
  "sh_remove api path s = (case fatfs_remove api path (sh_disk s) (sh_errno s) of (rv, d, e) \<Rightarrow> (rv, set_errno d e s))"

definition sh_opendir :: "('h, 'p, 'd) fatfs_api \<Rightarrow> string \<Rightarrow> ('p, 'd) shell \<Rightarrow> bool \<times> ('p, 'd) shell" where
  "sh_opendir api path s = (case vfs_opendir api path (sh_dirs s) (sh_disk s) of (ok, ds, d) \<Rightarrow> (ok, s \<lparr> sh_dirs := ds, sh_disk := d \<rparr>))"

definition sh_readdir :: "('h, 'p, 'd) fatfs_api \<Rightarrow> ('p, 'd) shell \<Rightarrow> (dirent option \<times> ('p, 'd) shell) option" where
  "sh_readdir api s = map_option (\<lambda>(de, ds, d). (de, s \<lparr> sh_dirs := ds, sh_disk := d \<rparr>)) (vfs_readdir api (sh_dirs s) (sh_disk s))"

definition sh_closedir :: "('h, 'p, 'd) fatfs_api \<Rightarrow> ('p, 'd) shell \<Rightarrow> ('p, 'd) shell" where
  "sh_closedir api s = (case vfs_closedir api (sh_dirs s) (sh_disk s) of (rv, ds, d) \<Rightarrow> s \<lparr> sh_dirs := ds, sh_disk := d \<rparr>)"

section \<open>The commands\<close>

definition cd_commander :: "('h, 'p, 'd) fatfs_api \<Rightarrow> string list \<Rightarrow> ('p, 'd) shell \<Rightarrow> int \<times> ('p, 'd) shell" where
  "cd_commander api argv s =
     (0, if length argv > 2 then out Help s
         else if length argv = 2
         then (case sh_chdir api (argv ! 1) s of (rv, s) \<Rightarrow> if rv < 0 then out (Error (sh_errno s)) s else s)
         else s)"

partial_function (option) ls_loop :: "('h, 'p, 'd) fatfs_api \<Rightarrow> ('p, 'd) shell \<Rightarrow> ('p, 'd) shell option" where
  "ls_loop api s =
     (case sh_readdir api s of None \<Rightarrow> None
      | Some (None, s) \<Rightarrow> Some s
      | Some (Some de, s) \<Rightarrow> ls_loop api (out (Entry (d_size de) (d_name de)) s))"

definition ls_print_dir_content :: "('h, 'p, 'd) fatfs_api \<Rightarrow> string \<Rightarrow> ('p, 'd) shell \<Rightarrow> ('p, 'd) shell option" where
  "ls_print_dir_content api path s =
     (case sh_opendir api path s of (ok, s) \<Rightarrow>
        if \<not> ok
        then (case sh_stat api path s of
                (None, s) \<Rightarrow> Some (out (Error (sh_errno s)) s)
              | (Some st, s) \<Rightarrow> Some (out (Entry (word_of_int (st_size st)) path) s))
        else map_option (sh_closedir api) (ls_loop api s))"

definition ls_commander :: "('h, 'p, 'd) fatfs_api \<Rightarrow> string list \<Rightarrow> ('p, 'd) shell \<Rightarrow> (int \<times> ('p, 'd) shell) option" where
  "ls_commander api argv s =
     map_option (Pair 0)
       (if length argv > 2 then Some (out Help s)
        else if length argv = 2 then ls_print_dir_content api (argv ! 1) s
        else (case sh_getcwd api s of (None, s) \<Rightarrow> None | (Some p, s) \<Rightarrow> ls_print_dir_content api p s))"

definition pwd_commander :: "('h, 'p, 'd) fatfs_api \<Rightarrow> ('p, 'd) shell \<Rightarrow> (int \<times> ('p, 'd) shell) option" where
  "pwd_commander api s = (case sh_getcwd api s of (None, s) \<Rightarrow> None | (Some p, s) \<Rightarrow> Some (0, out (Path p) s))"

partial_function (option) rm_all_loop :: "('h, 'p, 'd) fatfs_api \<Rightarrow> ('p, 'd) shell \<Rightarrow> ('p, 'd) shell option" where
  "rm_all_loop api s =
     (case sh_readdir api s of None \<Rightarrow> None
      | Some (None, s) \<Rightarrow> Some s
      | Some (Some de, s) \<Rightarrow> rm_all_loop api (snd (sh_remove api (d_name de) s)))"

fun rm_each :: "('h, 'p, 'd) fatfs_api \<Rightarrow> string list \<Rightarrow> ('p, 'd) shell \<Rightarrow> ('p, 'd) shell" where
  "rm_each api [] s = s"
| "rm_each api (a # args) s =
     (case sh_remove api a s of (rv, s) \<Rightarrow> rm_each api args (if rv \<noteq> 0 then out (Not_removed a (sh_errno s)) s else s))"

definition rm_commander :: "('h, 'p, 'd) fatfs_api \<Rightarrow> string list \<Rightarrow> ('p, 'd) shell \<Rightarrow> (int \<times> ('p, 'd) shell) option" where
  "rm_commander api argv s =
     map_option (Pair 0)
       (if length argv < 2 then Some (out Help s)
        else if length argv = 2 \<and> argv ! 1 \<noteq> [] \<and> hd (argv ! 1) = CHR ''*''
        then (case sh_getcwd api s of
                (None, s) \<Rightarrow> None
              | (Some p, s) \<Rightarrow> (case sh_opendir api p s of (ok, s) \<Rightarrow>
                  if \<not> ok then None else map_option (sh_closedir api) (rm_all_loop api s)))
        else Some (rm_each api (tl argv) s))"

section \<open>Listing\<close>

text \<open>The library lists the entries of a directory and then ends it.\<close>

fun lists :: "('h, 'p, 'd) fatfs_api \<Rightarrow> 'p \<Rightarrow> 'd \<Rightarrow> filinfo list \<Rightarrow> bool" where
  "lists api p d [] \<longleftrightarrow> (\<exists>res fno p' d'. f_readdir api p d = (res, fno, p', d') \<and> (res \<noteq> FR_OK \<or> fi_fname fno = []))"
| "lists api p d (e # es) \<longleftrightarrow> fi_fname e \<noteq> [] \<and> (\<exists>p' d'. f_readdir api p d = (FR_OK, e, p', d') \<and> lists api p' d' es)"

definition entry :: "filinfo \<Rightarrow> out_line" where "entry e = Entry (fi_fsize e) (fi_fname e)"

lemma ls_loop_lists:
  assumes "lists api (ds_dir (sh_dirs s)) (sh_disk s) es" and "\<forall>e \<in> set es. length (fi_fname e) < MAX_NAME_LEN"
  shows "\<exists>s'. ls_loop api s = Some s' \<and> sh_out s' = sh_out s @ map entry es"
  using assms
proof (induction es arbitrary: s)
  case Nil
  then show ?case
    by (subst ls_loop.simps) (auto simp: sh_readdir_def vfs_readdir_def Let_def)
next
  case (Cons e es)
  obtain p' d' where r: "f_readdir api (ds_dir (sh_dirs s)) (sh_disk s) = (FR_OK, e, p', d')" and l: "lists api p' d' es" and ne: "fi_fname e \<noteq> []"
    using Cons.prems(1) by auto
  let ?s = "out (entry e) (s \<lparr> sh_dirs := (sh_dirs s) \<lparr> ds_dir := p', ds_de := \<lparr> d_name = fi_fname e, d_size = fi_fsize e \<rparr>, ds_errno := EOK \<rparr>,
      sh_disk := d' \<rparr>)"
  have "lists api (ds_dir (sh_dirs ?s)) (sh_disk ?s) es"
    using l by (simp add: out_def)
  then obtain s' where s': "ls_loop api ?s = Some s'" "sh_out s' = sh_out ?s @ map entry es"
    using Cons.IH Cons.prems(2) by (metis list.set_intros(2))
  have "ls_loop api s = ls_loop api ?s"
    using Cons.prems(2) r ne by (subst ls_loop.simps) (simp add: sh_readdir_def vfs_readdir_def Let_def entry_def)
  then show ?case
    using s' by (simp add: out_def)
qed

lemma sh_closedir_out [simp]: "sh_out (sh_closedir api s) = sh_out s"
  by (simp add: sh_closedir_def split: prod.splits)

text \<open>The listing of a directory ends and has a line for each of its entries, in the order of the library, if all names fit.\<close>

theorem ls_lists_directory:
  assumes "f_opendir api (ds_dir (sh_dirs s)) path (sh_disk s) = (FR_OK, p, d)" and "lists api p d es"
    and "\<forall>e \<in> set es. length (fi_fname e) < MAX_NAME_LEN"
  shows "\<exists>s'. ls_commander api [''ls'', path] s = Some (0, s') \<and> sh_out s' = sh_out s @ map entry es"
proof -
  let ?s = "s \<lparr> sh_dirs := (sh_dirs s) \<lparr> ds_dir := p \<rparr>, sh_disk := d \<rparr>"
  have "sh_opendir api path s = (True, ?s)"
    using assms(1) by (simp add: sh_opendir_def vfs_opendir_def)
  moreover obtain s' where "ls_loop api ?s = Some s'" "sh_out s' = sh_out s @ map entry es"
    using ls_loop_lists [of api ?s es] assms(2,3) by auto
  ultimately show ?thesis
    by (simp add: ls_commander_def ls_print_dir_content_def)
qed

section \<open>Removing\<close>

text \<open>What the library does with the arguments, one after the other, and for which of them it fails.\<close>

fun unlink_all :: "('h, 'p, 'd) fatfs_api \<Rightarrow> string list \<Rightarrow> 'd \<Rightarrow> 'd \<times> out_line list" where
  "unlink_all api [] d = (d, [])"
| "unlink_all api (a # args) d =
     (case f_unlink api a d of (res, d) \<Rightarrow> case unlink_all api args d of (d, ls) \<Rightarrow>
        (d, if res = FR_OK then ls else Not_removed a (fatfs_to_errno res) # ls))"

lemma rm_each_effect:
  "sh_disk (rm_each api args s) = fst (unlink_all api args (sh_disk s)) \<and> sh_out (rm_each api args s) = sh_out s @ snd (unlink_all api args (sh_disk s))"
proof (induction args arbitrary: s)
  case (Cons a args)
  obtain res d where r: "f_unlink api a (sh_disk s) = (res, d)"
    by (cases "f_unlink api a (sh_disk s)")
  show ?case
    using Cons.IH r by (simp add: sh_remove_def fatfs_remove_def path_call_def set_errno_def out_def sh_errno_def split: prod.split)
qed simp

text \<open>Every argument is removed or reported, in their order, and a failure does not keep the later ones from being removed.\<close>

theorem rm_removes_arguments:
  assumes "2 < length argv \<or> length argv = 2 \<and> (argv ! 1 = [] \<or> hd (argv ! 1) \<noteq> CHR ''*'')"
  shows "\<exists>s'. rm_commander api argv s = Some (0, s') \<and> sh_disk s' = fst (unlink_all api (tl argv) (sh_disk s)) \<and>
     sh_out s' = sh_out s @ snd (unlink_all api (tl argv) (sh_disk s))"
  using assms rm_each_effect [of api "tl argv" s] by (auto simp: rm_commander_def)

text \<open>Outside a directory that the library can name in 32 bytes, the commands that ask for its name use a buffer that was never written, or a null pointer.\<close>

theorem no_working_directory:
  assumes "fst (f_getcwd api (word_of_int (int MAX_NAME_LEN)) (sh_disk s)) \<noteq> FR_OK"
  shows "pwd_commander api s = None \<and> ls_commander api [''ls''] s = None \<and> rm_commander api [''rm'', ''*''] s = None"
  using assms by (auto simp: pwd_commander_def ls_commander_def rm_commander_def sh_getcwd_def fatfs_getcwd_def split: prod.splits)

end
