(* ===== verification/Spec2Isabelle.thy ===== *)
theory Spec2Isabelle
  imports RingBuf UbxFraming CubeIO FatFsAdapter CliEditor Sd SerialBridge Can Ist8310 Icm20649 Ms5611 Heap Service Log FileTransfer CtlstNav ZynqGpio Ad7606b Usb AdcTim DirCommands
begin

text \<open>
  This is a model, with proofs, of the platform layer of catpilot: the drivers of the flight board, the file layer
  over them, the command line service and the parsers that run on top. Every definition is
  translated from the C source it names; paths below are relative to \<open>src/\<close>.

  The parts and how they interact. A driver is set up by its \<open>_init\<close> function, which works on the pins, the interrupt
  table and the DMA streams (theory \<open>Irq\<close>) and mounts the operations of the device under /dev in
  the tree of mount points (\<open>VfsNode\<close>). The file layer (\<open>Stdio\<close>) finds a node by its path and passes open, read, write
  and close on to its operations: those of the serial ports (\<open>Usart\<close>), of the CAN controllers (\<open>Can\<close>) or
  of the FAT volume (\<open>FatFsAdapter\<close>), which lies on the SD card (\<open>Sd\<close>). A serial port moves its bytes between
  two tasks, the interrupt and the callers through two ring buffers (\<open>RingBuf\<close>). Above the ports are
  the receiver of the satellite receiver's frames (\<open>UbxFraming\<close>), the driver of the IO co-processor (\<open>CubeIO\<close>) and
  the command line (\<open>Cli\<close>, \<open>CliEditor\<close>), one of whose commands bridges two ports (\<open>SerialBridge\<close>). The sensors are on SPI and I2C buses (\<open>Bus\<close>): the magnetometer
  (\<open>Ist8310\<close>), the inertial sensors (\<open>Icm20602\<close>, \<open>Icm20649\<close>) and the barometer (\<open>Ms5611\<close>). A second board, the control station,
  has its sensors behind a poller in programmable logic (\<open>SpiPlr\<close>); \<open>CtlstNav\<close> programs it and decodes what it collects.

  Theories, sources, and what is shown.

  \<^item> \<open>Prelude\<close>: machine integers, error numbers, C arrays whose accesses out of bounds are None, and the shared
    lemmas. \<open>Rtos\<close>: mutexes and the results of calls that may wait. \<open>Bits\<close>: os/freertos/services/misc/bit.c.

  \<^item> \<open>RingBuf\<close>: os/freertos/services/misc/ring_buf.c and .h. A record with the memory and the two pointers as
    offsets; the critical sections of \<open>ring_buf_write\<close> and \<open>ring_buf_read\<close> are single steps and \<open>rb_run\<close> interleaves
    the steps of a reader and a writer with the semaphores between them. Shown: the buffer is a bounded
    queue (locale \<open>bounded_fifo\<close>, interpreted on the code), so whatever the order of the
    steps the bytes read are the bytes written; a reader that waits has nothing to read.

  \<^item> \<open>UbxFraming\<close>: atomics/ublox/protocol/rx_framing/ublox_protocol_rx_framing_exec.c, its byte state machine and the loop over
    the receive buffer. Shown: the frames found do not depend on how the stream is cut into reads; frames are decoded, and
    every frame delivered has its checksum; UBX frames cause no access outside the buffers, and the RTCM frames that do are
    exactly those whose length the check lets through although it is one or two bytes too large.

  \<^item> \<open>CubeIO\<close>: bsp/ics/cubeio/cubeio.c, cubeio.h, cubeio_reg.h. Shown: the table-driven checksum of a packet is the polynomial one over its header and registers
    and detects every change of a single byte; a read returns what was asked or nothing; set-and-clear
    changes exactly its bits; the service's states keep the memory safe when no reply claims success with a wrong count of 22 or more,
    and such a reply makes the driver read behind its packet; every event is handled once. The packed structure of a packet is the
    record \<open>cubeio_packet\<close>, and \<open>pkt_bytes\<close> its memory, which the driver hands to the port as bytes.

  \<^item> \<open>VfsNode\<close>, \<open>Stdio\<close>, \<open>FatFsAdapter\<close>: os/fatfs/fsa/node.c, stdio.c, null.c, fatfs.c, dirent.c. Shown: mounting adds exactly
    the path, lookup returns the deepest mounted prefix; open takes the lowest descriptor; any sequence of calls stays inside the descriptor table (\<open>table_get\<close> and \<open>table_set\<close> are None outside of it) and
    is safe over any driver that keeps its contract (locale \<open>file_drivers\<close>, interpreted on the FAT driver, twice, for two
    contracts, and on the serial ports); open descriptors of the volume have file objects of their own; writes are complete or errors; the table of file objects runs out.
    \<open>DirCommands\<close>: cd.c, ls.c, pwd.c and rm.c under os/freertos/services. Shown: a listing ends and has every entry; each argument of a removal is removed or reported.

  \<^item> \<open>Cli\<close>, \<open>CliEditor\<close>: os/freertos/services/cli/node.c, service.c, cmd.c. Shown: what registration does, that the words of a line
    arrive as arguments, that no byte typed makes the editor leave its buffers when the line is shorter
    than them, and that the line entered is the line typed.

  \<^item> \<open>Irq\<close>: irq.c, exti.c, dma.c, gpio.c under bsp/mcu/periph. \<open>Platform\<close>: the chain of calls of an initialiser, with a small
    program logic (\<open>triple\<close>) for it. \<open>Sd\<close>: sdio.c, bsp/ics/sd/sd.c, os/fatfs/port/diskio.c. Shown: a handler is never
    replaced; waiting for the card ends; transfers succeed, fail or time out with the mutex given back, or stop the system.

  \<^item> \<open>Usart\<close>, \<open>Can\<close>: usart.c and can.c under bsp/mcu/periph. Shown: no sequence of file calls, interrupts and task rounds leaves
    the buffers; what a port is after a successful set-up; what is received is what arrived before the
    line went idle; the result of a transmission on every branch; frames sent are the frames received on the other
    side, and what a full queue loses. \<open>SerialPorts\<close> puts the serial ports under the file layer, as a third driver
    of \<open>file_drivers\<close>: every sequence of calls keeps the ports and leaves no buffer (\<open>pw_overrun\<close>; a call that waits for ever, \<open>pw_stuck\<close>, is told apart
    from it), and bytes written to a descriptor on one side are those read from a descriptor on the other, when both ports are idle. \<open>SerialBridge\<close>: os/freertos/services/serial_bridge/serial_bridge.c, the speeds of
    FreeRTOS_POSIX_termios.c and the names of bsp/boards/cube/external.c. Shown: a round of a bridge forwards exactly what has
    arrived; a failed read makes it run over its buffer; on the port of the console a speed cannot be set.

  \<^item> \<open>Usb\<close>: usb.c and USB_DEVICE/App/usbd_cdc_if.c under bsp/mcu/periph/usb/stm32, the serial port over USB. Shown: what the user
    writes is what the endpoint is given, and what the host sends is what the user reads, if every packet finds the read task waiting; a packet that does
    not is lost; the port of the host counts as open by a bit of the speed. \<open>AdcTim\<close>: adc/stm32/adc.c and tim/stm32/tim.c. Shown: whatever the order of
    interrupts and readings, the statistics of a channel are those of the values converted since its reset; of the timers only one has a vector.

  \<^item> \<open>Heap\<close>: os/freertos/memmang/heap_custom.c, the break below the allocator of the C library. Shown: the blocks granted by any sequence
    of requests are disjoint and in the two regions, if no request is larger than the second one; without that the step to the second region goes
    over its end. \<open>Service\<close>: os/freertos/services/service/service.c with the kernel's xTaskDelayUntil. Shown: the calls of a handler
    do not drift; the table is overrun by the eleventh service. \<open>Log\<close>: os/freertos/services/misc/log.c over the file layer. Shown: what a line
    becomes in a buffer and in a file, and when it overruns; a start of the log that does not end.

  \<^item> \<open>FileCopy\<close>: the loops that copy between two descriptors, which the commands and the log share; every byte is moved once, in
    the locales \<open>byte_pipe\<close>, \<open>ending_pipe\<close> and \<open>timed_pipe\<close>. \<open>Board\<close>: the volume and the ports in one table, a
    fourth instance of \<open>file_drivers\<close> made of two of the others. \<open>FileTransfer\<close>: the commands of os/freertos/services/file/file.c and
    os/freertos/services/cat/cat.c on that table. Shown: any calls on the board are safe; a download sends the contents of the file and gives both descriptors back, an upload
    stores what has arrived at the port, brought to the disk.

  \<^item> \<open>Bus\<close>, \<open>RegChip\<close>, \<open>Ist8310\<close>, \<open>Icm20602\<close>, \<open>Icm20649\<close>, \<open>Ms5611\<close>: spi.c, i2c.c and the drivers under bsp/ics. The drivers of register
    chips share their configuration routine, whose effect is proved once in the locale \<open>reg_chip\<close> and
    interpreted on the register accesses of the magnetometer and of the first inertial sensor (\<open>Icm20649\<close> holds icm20649.c and icm20948.c, whose registers lie in banks). Shown: the magnetometer starts and measures, or
    gives up when it is absent; where the inertial sensor reads its samples from; the
    banked one does not select a bank again after a failed transfer, and of the icm20948 a reader gets other bytes than the measurements (the bank select and the access
    share a chip select, and what the chip makes of that is not documented in the sources, so its start has no theorem); the barometer's checksum detects
    every error within a nibble, the range in which its compensation is defined, and that its conversions
    are swapped.

  \<^item> \<open>SpiPlr\<close>, \<open>SpiPdc\<close>, \<open>Adxrs450\<close>, \<open>Ad7190\<close>, \<open>CtlstNav\<close>: bsp/mcu/periph/spi/zynq/spiplr.c, the drivers under bsp/ics/ctlst and
    the service of atomics/ctlst/main/imu/ctlst_main_imu_exec.c. The registers of the logic are a parameter with the contract \<open>plr_engine\<close>, which
    states the registers of spiplr.h with the start bit as the trigger, as the driver uses them; a wait of 32001 status reads is enough for a transaction that takes at most 32000. Each driver exists twice in
    the sources and is modelled once, over its exchange and its packing. Shown: a custom transaction returns what the devices answered, and success
    when the logic hangs; the parity check finds every odd number of flipped bits; a register is read or the error is reported; the self test passes
    only on evidence; the pressure converter is set up; and what the samples are, for any contents of the response vector.

  \<^item> \<open>ZynqGpio\<close>, \<open>Ad7606b\<close>: the pins and the converters of that board (gpio/zynq/gpio.c and adc/zynq/ad7606b.c under bsp/mcu/periph) with their
    atomics under atomics/ctlst/io. Shown: no sequence of calls reserves a shared pin in both directions; which calls reach a wrong register; the
    range of a channel is set in its field alone, and lost for the second converter.

  How state and effects are modelled. A C struct is a record, an enumeration a datatype; integers keep their width as words, or
  are \<open>int\<close> with the overflow written out. A function takes and returns the state it changes. None is undefined behaviour (an
  access outside an array, a null pointer, signed overflow, a failed assertion of the kernel) or, where a theory says so, a call
  that never returns. What hardware, the vendor library, the kernel and other tasks do is an argument of the
  definitions: records of results (\<open>usart_init_env\<close>, \<open>bus_env\<close>), lists of interrupts, functions for chips and drivers.

  Loops and fuel. Loops over arrays and lists are structural or have a measure; the loops of tasks are modelled by one round.
  The attempts of the co-processor's driver are bounded by its constant; the loops of the log that need not end are partial functions, None when they do not.
  No definition has fuel that a theorem would
  have to assume enough of.

  Parameters. The FatFs library is the record \<open>fatfs_api\<close>; its documented behaviour is in the named hypotheses of the theorems. Chips
  are functions from the bytes sent to the bytes answered; a chip that keeps its data sheet is a hypothesis of the
  theorems about it.

  Not modelled. The format of printed text; delays, priorities and stack sizes; the conversion of counts into floating point units;
  the board's tables of configuration under bsp/boards; code generated by the build and the submodule c-atom, and the atomics
  that only copy fields between structures generated there; the USB device library but for the state its callbacks depend on;
  third-party code (FreeRTOS, FatFs, the STM32 library, printf), which appears as a parameter or as an environment.
\<close>

end
